(* ===== verification/Prelude.thy ===== *)
theory Prelude
  imports Main "HOL-Library.Word"
begin

text \<open>
  Shared vocabulary of the development: machine-integer limits, Rust's \<open>Result\<close> as a sum
  type with its \<open>?\<close> operator, generic lemmas on lists, and the two interfaces that several
  components share: a transition system with an invariant, and a transition system whose
  every effective step advances a revision counter.
\<close>

subsection \<open>Collections of facts\<close>

named_theorems result_simps \<open>elimination of the question-mark operator\<close>
named_theorems limit_defs \<open>the numeric limits of the machine integer types\<close>

subsection \<open>Machine integers\<close>

text \<open>
  Unsigned values are \<open>nat\<close> and signed values \<open>int\<close>; every place where the code can
  leave the range of its type (a checked addition, a \<open>try_from\<close>, a SQLite addition) tests the
  limit explicitly. Bytes are \<open>8 word\<close>.
\<close>

type_synonym u8 = "8 word"

definition u64_max :: nat where
  [limit_defs]: "u64_max = 18446744073709551615"

definition i64_max :: int where
  [limit_defs]: "i64_max = 9223372036854775807"

definition i64_min :: int where
  [limit_defs]: "i64_min = - 9223372036854775808"

text \<open>\<open>u64::saturating_add\<close>, \<open>u64::saturating_mul\<close> and \<open>u64::checked_add\<close>.\<close>

definition sat_add_u64 :: "nat \<Rightarrow> nat \<Rightarrow> nat" where
  "sat_add_u64 a b = min (a + b) u64_max"

definition sat_mul_u64 :: "nat \<Rightarrow> nat \<Rightarrow> nat" where
  "sat_mul_u64 a b = min (a * b) u64_max"

definition checked_add_u64 :: "nat \<Rightarrow> nat \<Rightarrow> nat option" where
  "checked_add_u64 a b = (if a + b \<le> u64_max then Some (a + b) else None)"

definition checked_mul_u64 :: "nat \<Rightarrow> nat \<Rightarrow> nat option" where
  "checked_mul_u64 a b = (if a * b \<le> u64_max then Some (a * b) else None)"

definition checked_add_i64 :: "int \<Rightarrow> int \<Rightarrow> int option" where
  "checked_add_i64 a b = (if i64_min \<le> a + b \<and> a + b \<le> i64_max then Some (a + b) else None)"

lemma sat_add_u64_le [simp]: "sat_add_u64 a b \<le> u64_max"
  by (simp add: sat_add_u64_def)

lemma sat_mul_u64_le [simp]: "sat_mul_u64 a b \<le> u64_max"
  by (simp add: sat_mul_u64_def)

lemma checked_add_i64_Some:
  "checked_add_i64 a b = Some c \<longleftrightarrow> c = a + b \<and> i64_min \<le> c \<and> c \<le> i64_max"
  by (auto simp: checked_add_i64_def)

subsection \<open>Results\<close>

text \<open>\<open>m?\<close> followed by the rest of the body: an error returns early.\<close>

definition rbind :: "'e + 'a \<Rightarrow> ('a \<Rightarrow> 'e + 'b) \<Rightarrow> 'e + 'b" where
  "rbind m f = (case m of Inl e \<Rightarrow> Inl e | Inr x \<Rightarrow> f x)"

text \<open>\<open>if !c { return Err(e) }\<close>, and \<open>ok_or\<close>.\<close>

definition require :: "bool \<Rightarrow> 'e \<Rightarrow> 'e + unit" where
  "require c e = (if c then Inr () else Inl e)"

definition ok_or :: "'a option \<Rightarrow> 'e \<Rightarrow> 'e + 'a" where
  "ok_or x e = (case x of None \<Rightarrow> Inl e | Some v \<Rightarrow> Inr v)"

lemma rbind_simps [simp]:
  "rbind (Inl e) f = Inl e"
  "rbind (Inr x) f = f x"
  by (simp_all add: rbind_def)

lemma rbind_eq_Inr [result_simps]: "rbind m f = Inr y \<longleftrightarrow> (\<exists>x. m = Inr x \<and> f x = Inr y)"
  by (cases m) auto

lemma rbind_eq_Inl [result_simps]:
  "rbind m f = Inl e \<longleftrightarrow> m = Inl e \<or> (\<exists>x. m = Inr x \<and> f x = Inl e)"
  by (cases m) auto

lemma require_eq_Inr [result_simps]: "require c e = Inr u \<longleftrightarrow> c"
  by (simp add: require_def)

lemma require_eq_Inl [result_simps]: "require c e = Inl e' \<longleftrightarrow> \<not> c \<and> e' = e"
  by (auto simp: require_def)

lemma require_True [simp]: "require True e = Inr ()"
  by (simp add: require_def)

lemma require_False [simp]: "require False e = Inl e"
  by (simp add: require_def)

lemma ok_or_eq_Inr [result_simps]: "ok_or x e = Inr v \<longleftrightarrow> x = Some v"
  by (auto simp: ok_or_def split: option.splits)

lemma ok_or_eq_Inl [result_simps]: "ok_or x e = Inl e' \<longleftrightarrow> x = None \<and> e' = e"
  by (auto simp: ok_or_def split: option.splits)

lemma ok_or_simps [simp]: "ok_or None e = Inl e" "ok_or (Some v) e = Inr v"
  by (simp_all add: ok_or_def)

lemma ok_case: "(case r of Inl _ \<Rightarrow> False | Inr x \<Rightarrow> P x) \<Longrightarrow> \<exists>x. r = Inr x \<and> P x"
  by (cases r) auto

text \<open>\<open>iter.map(f).collect::<Result<Vec<_>, _>>()\<close>: the first error wins.\<close>

fun collect_results :: "('a \<Rightarrow> 'e + 'b) \<Rightarrow> 'a list \<Rightarrow> 'e + 'b list" where
  "collect_results f [] = Inr []"
| "collect_results f (x # xs) = rbind (f x) (\<lambda>y. rbind (collect_results f xs) (\<lambda>ys. Inr (y # ys)))"

lemma collect_results_Inr:
  "collect_results f xs = Inr ys \<longleftrightarrow> list_all2 (\<lambda>x y. f x = Inr y) xs ys"
  by (induction xs arbitrary: ys) (auto simp: result_simps list_all2_Cons1)

lemma collect_results_total:
  assumes "\<And>x. x \<in> set xs \<Longrightarrow> f x = Inr (g x)"
  shows "collect_results f xs = Inr (map g xs)"
  using assms by (induction xs) auto

subsection \<open>Transition systems with an invariant\<close>

text \<open>
  The interface behind every safety property of the development: an initial-state predicate,
  a step relation, and an invariant that holds initially and is kept by every step.
\<close>

locale step_system =
  fixes init :: "'s \<Rightarrow> bool"
    and step :: "'s \<Rightarrow> 's \<Rightarrow> bool"
    and inv :: "'s \<Rightarrow> bool"
  assumes init_inv: "init s \<Longrightarrow> inv s"
    and step_inv: "step s t \<Longrightarrow> inv s \<Longrightarrow> inv t"
begin

lemma steps_inv:
  assumes "step\<^sup>*\<^sup>* s t" and "inv s"
  shows "inv t"
  using assms by (induction rule: rtranclp_induct) (auto intro: step_inv)

lemma reachable_inv: "init s \<Longrightarrow> step\<^sup>*\<^sup>* s t \<Longrightarrow> inv t"
  by (blast intro: steps_inv init_inv)

text \<open>A relation between states that is reflexive, transitive and kept by each step.\<close>

lemma steps_mono:
  assumes steps: "step\<^sup>*\<^sup>* s t" and inv: "inv s"
    and refl: "\<And>s. R s s"
    and trans: "\<And>a b c. R a b \<Longrightarrow> R b c \<Longrightarrow> R a c"
    and one: "\<And>a b. step a b \<Longrightarrow> inv a \<Longrightarrow> R a b"
  shows "R s t"
  using steps
proof (induction rule: rtranclp_induct)
  case base
  show ?case by (rule refl)
next
  case (step b c)
  then have "inv b" using steps_inv inv by blast
  with step show ?case by (blast intro: trans one)
qed

end

text \<open>
  A revisioned system: a step either leaves the state alone or strictly advances a revision
  counter. Then an unchanged revision is evidence of an unchanged state, which is what
  optimistic concurrency tokens (cursors, \<open>expected_revision\<close> arguments) rely on.
\<close>

locale revisioned_system = step_system +
  fixes revision :: "'a \<Rightarrow> int"
  assumes step_revision: "step s t \<Longrightarrow> inv s \<Longrightarrow> t = s \<or> revision s < revision t"
begin

lemma steps_revision: "step\<^sup>*\<^sup>* s t \<Longrightarrow> inv s \<Longrightarrow> t = s \<or> revision s < revision t"
proof (induction rule: rtranclp_induct)
  case base
  then show ?case by simp
next
  case (step b c)
  then have "inv b" using steps_inv by blast
  with step show ?case using step_revision [of b c] by force
qed

lemma same_revision_same_state:
  "step\<^sup>*\<^sup>* s t \<Longrightarrow> inv s \<Longrightarrow> revision t = revision s \<Longrightarrow> t = s"
  using steps_revision by fastforce

lemma revision_mono: "step\<^sup>*\<^sup>* s t \<Longrightarrow> inv s \<Longrightarrow> revision s \<le> revision t"
  using steps_revision by fastforce

end

text \<open>
  A concrete system that simulates an abstract one: every concrete step is a run of abstract
  steps on the abstraction, so everything that holds of all abstract runs holds of it too.
\<close>

locale refinement = step_system init step inv
  for init :: "'s \<Rightarrow> bool" and step :: "'s \<Rightarrow> 's \<Rightarrow> bool" and inv :: "'s \<Rightarrow> bool" +
  fixes concrete_init :: "'c \<Rightarrow> bool"
    and concrete_step :: "'c \<Rightarrow> 'c \<Rightarrow> bool"
    and abs :: "'c \<Rightarrow> 's"
  assumes init_sim: "concrete_init c \<Longrightarrow> \<exists>s. init s \<and> step\<^sup>*\<^sup>* s (abs c)"
    and step_sim: "concrete_step c d \<Longrightarrow> step\<^sup>*\<^sup>* (abs c) (abs d)"
begin

lemma run_sim: "concrete_step\<^sup>*\<^sup>* c d \<Longrightarrow> step\<^sup>*\<^sup>* (abs c) (abs d)"
  by (induction rule: rtranclp_induct) (auto intro: rtranclp_trans step_sim)

lemma reachable_sim: "concrete_init c \<Longrightarrow> concrete_step\<^sup>*\<^sup>* c d \<Longrightarrow> \<exists>s. init s \<and> step\<^sup>*\<^sup>* s (abs d)"
  using init_sim run_sim by (meson rtranclp_trans)

lemma abs_inv: "concrete_init c \<Longrightarrow> concrete_step\<^sup>*\<^sup>* c d \<Longrightarrow> inv (abs d)"
  using reachable_sim reachable_inv by blast

end

subsection \<open>Encoders\<close>

text \<open>A decoder that inverts its encoder on valid values makes the encoder injective.\<close>

locale codec =
  fixes valid :: "'a \<Rightarrow> bool"
    and enc :: "'a \<Rightarrow> 'b"
    and dec :: "'b \<Rightarrow> 'a option"
  assumes dec_enc: "valid x \<Longrightarrow> dec (enc x) = Some x"
begin

lemma enc_inject: "valid x \<Longrightarrow> valid y \<Longrightarrow> enc x = enc y \<longleftrightarrow> x = y"
  by (metis dec_enc option.inject)

end

end
