(* ===== verification/Bytes.thy ===== *)
theory Bytes
  imports Prelude
begin

text \<open>
  The byte-level helpers of \<open>upload_store.rs\<close>: lower-case hexadecimal text, big-endian
  integers and the branch-free comparison of authentication codes, with the round trips that
  the list cursor and the idempotency keys rely on. Text is a \<open>string\<close> whose characters are
  its UTF-8 bytes.
\<close>

unbundle bit_operations_syntax

subsection \<open>Hexadecimal text\<close>

definition hex_table :: string where
  "hex_table = ''0123456789abcdef''"

definition hex_digit :: "u8 \<Rightarrow> char" where
  "hex_digit n = hex_table ! unat n"

definition hex_encode :: "u8 list \<Rightarrow> string" where
  "hex_encode bytes =
     concat (map (\<lambda>byte. [hex_digit (drop_bit 4 byte), hex_digit (byte AND 15)]) bytes)"

definition hex_nibble :: "char \<Rightarrow> u8 option" where
  "hex_nibble c =
     (let v = of_char c :: u8 in
      if 48 \<le> v \<and> v \<le> 57 then Some (v - 48)
      else if 97 \<le> v \<and> v \<le> 102 then Some (v - 97 + 10)
      else None)"

fun hex_pairs :: "string \<Rightarrow> u8 list option" where
  "hex_pairs (a # b # rest) =
     (case hex_nibble a of None \<Rightarrow> None
      | Some high \<Rightarrow> (case hex_nibble b of None \<Rightarrow> None
          | Some low \<Rightarrow> map_option ((#) (push_bit 4 high OR low)) (hex_pairs rest)))"
| "hex_pairs _ = Some []"

definition is_ascii :: "string \<Rightarrow> bool" where
  "is_ascii s = list_all (\<lambda>c. (of_char c :: nat) < 128) s"

definition hex_decode_exact :: "nat \<Rightarrow> string \<Rightarrow> u8 list option" where
  "hex_decode_exact n value =
     (if length value \<noteq> n * 2 \<or> \<not> is_ascii value then None else hex_pairs value)"

text \<open>The bytes of a string, and integers in network order.\<close>

definition string_bytes :: "string \<Rightarrow> u8 list" where
  "string_bytes s = map of_char s"

fun be_bytes :: "nat \<Rightarrow> nat \<Rightarrow> u8 list" where
  "be_bytes 0 x = []"
| "be_bytes (Suc n) x = of_nat (x div 256 ^ n mod 256) # be_bytes n x"

definition from_be_bytes :: "u8 list \<Rightarrow> nat" where
  "from_be_bytes bytes = foldl (\<lambda>acc b. acc * 256 + unat b) 0 bytes"

definition constant_time_equal :: "u8 list \<Rightarrow> u8 list \<Rightarrow> bool" where
  "constant_time_equal left right =
     (if length left \<noteq> length right then False
      else fold (\<lambda>(l, r) difference. difference OR (l XOR r)) (zip left right) 0 = 0)"

subsection \<open>Hexadecimal round trip\<close>

lemma nibble_cases:
  assumes "unat (n :: u8) < 16"
  shows "n \<in> {0, 1, 2, 3, 4, 5, 6, 7, 8, 9, 10, 11, 12, 13, 14, 15}"
proof -
  have "n = of_nat (unat n)" by simp
  moreover have "unat n \<in> {0, 1, 2, 3, 4, 5, 6, 7, 8, 9, 10, 11, 12, 13, 14, 15}"
    using assms unfolding insert_iff empty_iff by arith
  ultimately show ?thesis by (elim insertE) (auto simp del: of_nat_unat)
qed

lemma hex_digit_values:
  "map hex_digit [0, 1, 2, 3, 4, 5, 6, 7, 8, 9, 10, 11, 12, 13, 14, 15] = hex_table"
  by (simp add: hex_digit_def hex_table_def)

lemma hex_nibble_values:
  "map hex_nibble hex_table =
     map Some [0, 1, 2, 3, 4, 5, 6, 7, 8, 9, 10, 11, 12, 13, 14, 15]"
  unfolding hex_table_def hex_nibble_def by (simp add: Let_def)

lemma hex_nibble_digit: "unat n < 16 \<Longrightarrow> hex_nibble (hex_digit n) = Some n"
  using hex_nibble_values unfolding hex_digit_values [symmetric]
  by (drule_tac nibble_cases) auto

lemma hex_digit_ascii: "unat n < 16 \<Longrightarrow> (of_char (hex_digit n) :: nat) < 128"
  by (drule nibble_cases) (auto simp: hex_digit_def hex_table_def of_char_def)

lemma unat_high_nibble: "unat (drop_bit 4 (b :: u8)) < 16"
proof -
  have "unat b < 2 ^ LENGTH(8)" by (rule unsigned_less)
  then show ?thesis by (simp add: drop_bit_eq_div unat_div)
qed

lemma low_nibble_take_bit: "(b :: u8) AND 15 = take_bit 4 b"
proof -
  have "(15 :: u8) = mask 4" by (simp add: mask_eq_exp_minus_1)
  then show ?thesis by (simp add: take_bit_eq_mask)
qed

lemma unat_low_nibble: "unat ((b :: u8) AND 15) < 16"
  unfolding low_nibble_take_bit by (simp add: take_bit_eq_mod unat_mod)

lemma nibbles_recombine: "push_bit 4 (drop_bit 4 (b :: u8)) OR (b AND 15) = b"
  unfolding low_nibble_take_bit
  by (rule bit_word_eqI) (auto simp: bit_simps)

lemma hex_encode_Nil [simp]: "hex_encode [] = []"
  by (simp add: hex_encode_def)

lemma hex_encode_Cons [simp]:
  "hex_encode (b # bs) = hex_digit (drop_bit 4 b) # hex_digit (b AND 15) # hex_encode bs"
  by (simp add: hex_encode_def)

lemma length_hex_encode [simp]: "length (hex_encode bs) = 2 * length bs"
  by (induction bs) auto

lemma hex_pairs_encode: "hex_pairs (hex_encode bs) = Some bs"
  by (induction bs)
    (auto simp: hex_nibble_digit unat_high_nibble unat_low_nibble nibbles_recombine)

lemma is_ascii_hex_encode: "is_ascii (hex_encode bs)"
  by (induction bs)
    (auto simp: is_ascii_def hex_digit_ascii unat_high_nibble unat_low_nibble)

lemma hex_decode_encode: "hex_decode_exact (length bs) (hex_encode bs) = Some bs"
  by (simp add: hex_decode_exact_def hex_pairs_encode is_ascii_hex_encode)

text \<open>Fixed-length byte strings and their hexadecimal text form a codec.\<close>

interpretation hex: codec "\<lambda>bs. length bs = n" hex_encode "hex_decode_exact n" for n
  by unfold_locales (use hex_decode_encode in blast)


text \<open>Conversely, text that decodes is the canonical (lower-case) text of its bytes.\<close>

lemma hex_nibble_Some:
  assumes "hex_nibble c = Some n"
  shows "unat n < 16 \<and> hex_digit n = c"
proof -
  define k where "k = (of_char c :: nat)"
  have c: "c = char_of k" and k: "k < 256" by (simp_all add: k_def)
  have v: "(of_char c :: u8) = of_nat k" by (simp only: k_def of_nat_of_char)
  have le: "(48 :: u8) \<le> of_nat k \<longleftrightarrow> 48 \<le> k" "(of_nat k :: u8) \<le> 57 \<longleftrightarrow> k \<le> 57"
    "(97 :: u8) \<le> of_nat k \<longleftrightarrow> 97 \<le> k" "(of_nat k :: u8) \<le> 102 \<longleftrightarrow> k \<le> 102"
    using k by (simp_all add: word_le_nat_alt unat_of_nat)
  have "48 \<le> k \<and> k \<le> 57 \<or> 97 \<le> k \<and> k \<le> 102"
    using assms unfolding hex_nibble_def v le Let_def by (auto split: if_splits)
  then have "k \<in> {48, 49, 50, 51, 52, 53, 54, 55, 56, 57, 97, 98, 99, 100, 101, 102}"
    unfolding insert_iff empty_iff by arith
  then have "c \<in> set hex_table"
    unfolding c hex_table_def by (elim insertE) (auto simp: char_of_def bit_Suc_0_iff)
  then show ?thesis
    using assms hex_nibble_values unfolding hex_digit_values [symmetric] by auto
qed

lemma high_nibble_combine:
  assumes "unat (h :: u8) < 16" and "unat l < 16"
  shows "drop_bit 4 (push_bit 4 h OR l) = h \<and> (push_bit 4 h OR l) AND 15 = l"
proof -
  have low: "l AND 15 = l"
    using nibble_cases [OF assms(2)] by (elim insertE) simp_all
  have "push_bit 4 h AND 15 = 0"
    using nibble_cases [OF assms(1)] by (elim insertE) simp_all
  moreover have "drop_bit 4 l = 0"
    using nibble_cases [OF assms(2)] by (elim insertE) simp_all
  moreover have "drop_bit 4 (push_bit 4 h) = h"
    using nibble_cases [OF assms(1)] by (elim insertE) simp_all
  ultimately show ?thesis using low by (simp add: drop_bit_or bit.conj_disj_distrib2)
qed

lemma hex_encode_pairs:
  "even (length s) \<Longrightarrow> hex_pairs s = Some bs \<Longrightarrow> hex_encode bs = s"
proof (induction s arbitrary: bs rule: hex_pairs.induct)
  case (1 a b rest)
  then show ?case
    by (auto split: option.splits dest!: hex_nibble_Some simp: high_nibble_combine simp del: drop_bit_or)
qed auto

lemma hex_encode_decode: "hex_decode_exact n s = Some bs \<Longrightarrow> hex_encode bs = s \<and> length bs = n"
proof -
  assume "hex_decode_exact n s = Some bs"
  then have "length s = n * 2" "hex_pairs s = Some bs"
    by (auto simp: hex_decode_exact_def split: if_splits)
  then have enc: "hex_encode bs = s" by (intro hex_encode_pairs) auto
  with \<open>length s = n * 2\<close> show ?thesis by (metis length_hex_encode mult.commute mult_left_cancel zero_neq_numeral)
qed

subsection \<open>Big-endian integers\<close>

lemma length_be_bytes [simp]: "length (be_bytes n x) = n"
  by (induction n) auto

lemma foldl_be_bytes:
  "foldl (\<lambda>acc b. acc * 256 + unat b) acc (be_bytes n x) = acc * 256 ^ n + x mod 256 ^ n"
proof (induction n arbitrary: acc)
  case 0
  then show ?case by (simp del: Word.of_nat_unat)
next
  case (Suc n)
  have byte: "unat (of_nat (x div 256 ^ n mod 256) :: u8) = x div 256 ^ n mod 256"
    by (simp add: unat_of_nat)
  have split: "x mod (256 * 256 ^ n) = 256 ^ n * (x div 256 ^ n mod 256) + x mod 256 ^ n"
    using mod_mult2_eq [of x "256 ^ n" 256] by (simp add: mult.commute)
  show ?case
    unfolding be_bytes.simps foldl_Cons Suc.IH byte by (simp add: split algebra_simps)
qed

lemma from_be_bytes_be_bytes: "x < 256 ^ n \<Longrightarrow> from_be_bytes (be_bytes n x) = x"
  by (simp add: from_be_bytes_def foldl_be_bytes)

interpretation be: codec "\<lambda>x. x < 256 ^ n" "be_bytes n" "\<lambda>bs. Some (from_be_bytes bs)" for n
  by unfold_locales (simp add: from_be_bytes_be_bytes)

lemma from_be_bytes_less: "from_be_bytes bs < 256 ^ length bs"
proof (induction bs rule: rev_induct)
  case Nil
  then show ?case by (simp add: from_be_bytes_def)
next
  case (snoc b bs)
  have "unat b < 256" using unsigned_less [of b] by simp
  then have "from_be_bytes (bs @ [b]) < (from_be_bytes bs + 1) * 256"
    by (simp add: from_be_bytes_def)
  also have "\<dots> \<le> 256 ^ length bs * 256"
    using snoc.IH by (intro mult_le_mono1) simp
  finally show ?case by (simp add: mult.commute)
qed

subsection \<open>Comparing authentication codes\<close>

lemma fold_or_eq_0:
  "fold (\<lambda>(l, r) difference. difference OR (l XOR r)) ps (d :: u8) = 0
     \<longleftrightarrow> d = 0 \<and> (\<forall>(l, r) \<in> set ps. l = r)"
proof (induction ps arbitrary: d)
  case Nil
  then show ?case by simp
next
  case (Cons p ps)
  obtain l r where p: "p = (l, r)" by (cases p)
  have "d OR (l XOR r) = 0 \<longleftrightarrow> d = 0 \<and> l = r"
    by (metis (no_types) or_eq_0_iff xor_self_eq bit.xor_left_self xor.right_neutral)
  then show ?case by (auto simp: Cons.IH p)
qed

lemma constant_time_equal_iff: "constant_time_equal left right \<longleftrightarrow> left = right"
  unfolding constant_time_equal_def
  by (auto simp: fold_or_eq_0 list_eq_iff_zip_eq)

lemma of_char_u8_inject: "(of_char a :: u8) = of_char b \<longleftrightarrow> a = b"
proof
  assume eq: "(of_char a :: u8) = of_char b"
  have "unat (of_char c :: u8) = of_char c" for c
  proof -
    have "unat (of_nat (of_char c :: nat) :: u8) = of_char c"
      by (simp add: unat_of_nat del: of_nat_of_char)
    then show ?thesis by (simp only: of_nat_of_char)
  qed
  then have "(of_char a :: nat) = of_char b" using eq by metis
  then show "a = b" by simp
qed simp

lemma string_bytes_inject: "string_bytes a = string_bytes b \<longleftrightarrow> a = b"
  unfolding string_bytes_def by (rule inj_map_eq_map) (simp add: inj_on_def of_char_u8_inject)

lemma length_string_bytes [simp]: "length (string_bytes s) = length s"
  by (simp add: string_bytes_def)

end
