(* ===== verification/FrameName.thy ===== *)
theory FrameName
  imports Bytes
begin

text \<open>
  The grammar of capture file names: the generator \<open>capture_filename_at\<close> of
  \<open>autopiercam/src/lib.rs\<close>, the daily-movie generator \<open>output_name\<close> of \<open>timelapse.rs\<close> and
  the parser \<open>parse_generated_frame_filename\<close> of \<open>upload_store.rs\<close>, together with the
  decimal formatting and parsing of Rust's standard library that they use.
\<close>

subsection \<open>Decimal text\<close>

definition digit_char :: "nat \<Rightarrow> char" where
  "digit_char d = char_of (48 + d)"

definition is_digit :: "char \<Rightarrow> bool" where
  "is_digit c \<longleftrightarrow> (let v = of_char c :: nat in 48 \<le> v \<and> v \<le> 57)"

definition digit_value :: "char \<Rightarrow> nat" where
  "digit_value c = of_char c - 48"

text \<open>\<open>u64::to_string\<close>, and the zero-padded \<open>{:0w}\<close> format.\<close>

fun decimal :: "nat \<Rightarrow> string" where
  "decimal n = (if n < 10 then [digit_char n] else decimal (n div 10) @ [digit_char (n mod 10)])"

declare decimal.simps [simp del]

definition padded :: "nat \<Rightarrow> nat \<Rightarrow> string" where
  "padded w n = replicate (w - length (decimal n)) (CHR ''0'') @ decimal n"

definition decimal_value :: "string \<Rightarrow> nat" where
  "decimal_value s = foldl (\<lambda>acc c. acc * 10 + digit_value c) 0 s"

text \<open>\<open>str::parse::<u64>\<close>: an optional plus sign, digits, no overflow.\<close>

definition parse_u64 :: "string \<Rightarrow> nat option" where
  "parse_u64 s =
     (let ds = (case s of c # rest \<Rightarrow> if c = CHR ''+'' then rest else s | [] \<Rightarrow> s) in
      if ds = [] \<or> \<not> list_all is_digit ds then None
      else if decimal_value ds \<le> u64_max then Some (decimal_value ds) else None)"

subsection \<open>Text operations of the standard library\<close>

definition strip_suffix :: "string \<Rightarrow> string \<Rightarrow> string option" where
  "strip_suffix suf s =
     (if length suf \<le> length s \<and> drop (length s - length suf) s = suf
      then Some (take (length s - length suf) s) else None)"

definition ends_with :: "string \<Rightarrow> string \<Rightarrow> bool" where
  "ends_with s suf \<longleftrightarrow> strip_suffix suf s \<noteq> None"

definition starts_with :: "string \<Rightarrow> string \<Rightarrow> bool" where
  "starts_with s pre \<longleftrightarrow> take (length pre) s = pre"

fun split_on :: "char \<Rightarrow> string \<Rightarrow> string list" where
  "split_on sep [] = [[]]"
| "split_on sep (c # cs) =
     (if c = sep then [] # split_on sep cs
      else (case split_on sep cs of [] \<Rightarrow> [[c]] | p # ps \<Rightarrow> (c # p) # ps))"

definition or_else :: "'a option \<Rightarrow> 'a option \<Rightarrow> 'a option" where
  "or_else a b = (case a of None \<Rightarrow> b | Some x \<Rightarrow> Some x)"

subsection \<open>Generated names\<close>

definition capture_filename_at :: "nat \<Rightarrow> nat \<Rightarrow> string \<Rightarrow> nat \<Rightarrow> string" where
  "capture_filename_at as_secs subsec_millis nonce_hex sequence =
     ''frame-'' @ decimal as_secs @ ''-'' @ padded 3 subsec_millis @ ''-'' @ nonce_hex
       @ ''-'' @ padded 6 sequence @ ''.jpg''"

text \<open>
  The daily movie of a UTC day: its nonce is the 32-digit form of the constant
  \<open>0x74696d656c61707365_u128\<close>.
\<close>

definition output_name :: "nat \<Rightarrow> string" where
  "output_name day =
     ''frame-'' @ decimal ((day + 1) * 86400) @ ''-000-''
       @ hex_encode (be_bytes 16 0x74696d656c61707365) @ ''-000000.mp4''"

subsection \<open>The parser\<close>

definition capture_session_nonce_hex_length :: nat where
  "capture_session_nonce_hex_length = 32"

definition is_lower_hex :: "char \<Rightarrow> bool" where
  "is_lower_hex c \<longleftrightarrow> is_digit c \<or> (let v = of_char c :: nat in 97 \<le> v \<and> v \<le> 102)"

definition frame_stem :: "string \<Rightarrow> string option" where
  "frame_stem filename =
     or_else (strip_suffix ''.jpg'' filename)
       (or_else (strip_suffix ''.jpeg'' filename)
         (or_else (strip_suffix ''.png'' filename) (strip_suffix ''.mp4'' filename)))"

text \<open>Seconds, milliseconds, optional session nonce and sequence of a stem.\<close>

fun frame_parts :: "string list \<Rightarrow> (string \<times> string \<times> string option \<times> string) option" where
  "frame_parts [tag, seconds, millis, fourth] =
     (if tag = ''frame'' then Some (seconds, millis, None, fourth) else None)"
| "frame_parts [tag, seconds, millis, fourth, fifth] =
     (if tag = ''frame'' then Some (seconds, millis, Some fourth, fifth) else None)"
| "frame_parts _ = None"

definition frame_fields_ok :: "string \<Rightarrow> string \<Rightarrow> string option \<Rightarrow> string \<Rightarrow> bool" where
  "frame_fields_ok seconds millis session_nonce sequence \<longleftrightarrow>
     \<not> (seconds = [] \<or> \<not> list_all is_digit seconds
        \<or> length millis \<noteq> 3 \<or> \<not> list_all is_digit millis
        \<or> (case session_nonce of None \<Rightarrow> False
           | Some nonce \<Rightarrow> length nonce \<noteq> capture_session_nonce_hex_length
               \<or> \<not> list_all is_lower_hex nonce)
        \<or> length sequence < 6 \<or> \<not> list_all is_digit sequence)"

definition frame_time :: "string \<Rightarrow> string \<Rightarrow> string \<Rightarrow> nat option" where
  "frame_time seconds_text millis_text sequence_text =
     Option.bind (parse_u64 seconds_text) (\<lambda>seconds.
     Option.bind (parse_u64 millis_text) (\<lambda>millis.
     Option.bind (parse_u64 sequence_text) (\<lambda>sequence.
     if seconds_text \<noteq> decimal seconds \<or> sequence_text \<noteq> padded 6 sequence then None
     else Option.bind (checked_mul_u64 seconds 1000) (\<lambda>ms. checked_add_u64 ms millis))))"

definition parse_generated_frame_filename :: "string \<Rightarrow> nat option" where
  "parse_generated_frame_filename filename =
     Option.bind (frame_stem filename) (\<lambda>stem.
     Option.bind (frame_parts (split_on (CHR ''-'') stem))
       (\<lambda>(seconds, millis, session_nonce, sequence).
     if (ends_with filename ''.png'' \<or> ends_with filename ''.mp4'') \<and> session_nonce = None then None
     else if \<not> frame_fields_ok seconds millis session_nonce sequence then None
     else frame_time seconds millis sequence))"

definition is_generated_frame_filename :: "string \<Rightarrow> bool" where
  "is_generated_frame_filename filename \<longleftrightarrow> parse_generated_frame_filename filename \<noteq> None"

text \<open>The idempotency key sent with every upload of an artifact.\<close>

definition idempotency_prefix :: string where
  "idempotency_prefix = ''autopiercam-sha256-''"

definition idempotency_key :: "string \<Rightarrow> u8 list \<Rightarrow> string" where
  "idempotency_key filename sha256 =
     idempotency_prefix @ hex_encode sha256 @ [CHR ''-''] @ filename"

subsection \<open>Decimal round trip\<close>

lemma digit_char_simps [simp]:
  assumes "d < 10"
  shows "is_digit (digit_char d)" and "digit_value (digit_char d) = d"
    and "digit_char d \<noteq> CHR ''-''"
proof -
  have code: "(of_char (digit_char d) :: nat) = 48 + d"
    using assms by (simp add: digit_char_def)
  then show "is_digit (digit_char d)" "digit_value (digit_char d) = d"
    using assms by (auto simp: is_digit_def digit_value_def)
  have "(of_char (CHR ''-'') :: nat) = 45" by simp
  with code show "digit_char d \<noteq> CHR ''-''" by auto
qed

lemma decimal_nonempty [simp]: "decimal n \<noteq> []"
  by (subst decimal.simps) simp

lemma decimal_digits: "list_all is_digit (decimal n)"
proof (induction n rule: decimal.induct)
  case (1 n)
  then show ?case by (subst decimal.simps) auto
qed

lemma decimal_value_append:
  "decimal_value (xs @ ys) = decimal_value xs * 10 ^ length ys + decimal_value ys"
proof (induction ys rule: rev_induct)
  case Nil
  then show ?case by (simp add: decimal_value_def)
next
  case (snoc y ys)
  have "decimal_value (zs @ [y]) = decimal_value zs * 10 + digit_value y" for zs
    by (simp add: decimal_value_def)
  with snoc show ?case
    by (simp add: algebra_simps flip: append_assoc)
qed

lemma decimal_value_single [simp]: "decimal_value [c] = digit_value c"
  by (simp add: decimal_value_def)

lemma decimal_value_decimal [simp]: "decimal_value (decimal n) = n"
proof (induction n rule: decimal.induct)
  case (1 n)
  then show ?case by (subst decimal.simps) (auto simp: decimal_value_append)
qed

lemma decimal_value_zeros: "decimal_value (replicate k (CHR ''0'')) = 0"
  by (induction k) (simp_all add: decimal_value_def digit_value_def)

lemma decimal_value_padded [simp]: "decimal_value (padded w n) = n"
  by (simp add: padded_def decimal_value_append decimal_value_zeros)

lemma digit_zero [simp]: "is_digit (CHR ''0'')"
  by (simp add: is_digit_def)

lemma padded_digits: "list_all is_digit (padded w n)"
  using decimal_digits by (auto simp: padded_def list_all_iff)

lemma padded_nonempty [simp]: "padded w n \<noteq> []"
  by (simp add: padded_def)

lemma length_padded_ge: "w \<le> length (padded w n)"
  by (simp add: padded_def)

lemma length_decimal_le: "n < 10 ^ w \<Longrightarrow> 0 < w \<Longrightarrow> length (decimal n) \<le> w"
proof (induction n arbitrary: w rule: decimal.induct)
  case (1 n)
  show ?case
  proof (cases "n < 10")
    case True
    then show ?thesis using "1.prems" by (subst decimal.simps) simp
  next
    case False
    obtain v where w: "w = Suc v" using "1.prems" by (cases w) auto
    with False "1.prems" have "0 < v" by (cases v) auto
    note w = w this
    with "1.prems" have "n div 10 < 10 ^ v" by (simp add: less_mult_imp_div_less mult.commute)
    with False "1.IH" w have "length (decimal (n div 10)) \<le> v" by simp
    with False w show ?thesis by (subst decimal.simps) simp
  qed
qed

lemma length_padded: "n < 10 ^ w \<Longrightarrow> 0 < w \<Longrightarrow> length (padded w n) = w"
  using length_decimal_le [of n w] by (simp add: padded_def)

lemma digit_not_plus: "is_digit c \<Longrightarrow> c \<noteq> CHR ''+''"
  by (auto simp: is_digit_def Let_def)

lemma digit_not_dash: "is_digit c \<Longrightarrow> c \<noteq> CHR ''-''"
  by (auto simp: is_digit_def Let_def)

lemma lower_hex_not_dash: "is_lower_hex c \<Longrightarrow> c \<noteq> CHR ''-''"
  by (auto simp: is_lower_hex_def is_digit_def Let_def)

lemma parse_u64_digits:
  assumes "s \<noteq> []" and "list_all is_digit s"
  shows "parse_u64 s = (if decimal_value s \<le> u64_max then Some (decimal_value s) else None)"
  using assms digit_not_plus by (cases s) (auto simp: parse_u64_def Let_def)

subsection \<open>Splitting\<close>

lemma split_on_no_sep: "sep \<notin> set s \<Longrightarrow> split_on sep s = [s]"
  by (induction s) auto

lemma split_on_append:
  "sep \<notin> set s \<Longrightarrow> split_on sep (s @ sep # t) = s # split_on sep t"
  by (induction s) auto

lemma strip_suffix_append [simp]: "strip_suffix suf (s @ suf) = Some s"
  by (simp add: strip_suffix_def)

lemma strip_suffix_Some: "strip_suffix suf s = Some t \<longleftrightarrow> s = t @ suf"
  unfolding strip_suffix_def
  by (auto simp: append_eq_conv_conj) (metis append_take_drop_id)

subsection \<open>What the parser accepts\<close>

lemma or_else_Some: "or_else a b = Some x \<longleftrightarrow> a = Some x \<or> a = None \<and> b = Some x"
  by (auto simp: or_else_def split: option.splits)

lemma split_on_Nil [simp]: "split_on sep s \<noteq> []"
  by (induction s) (auto split: list.splits)

lemma split_on_join: "concat (map (\<lambda>p. p @ [sep]) (split_on sep s)) = s @ [sep]"
  by (induction s) (auto split: list.splits)

lemma frame_parts_Some:
  "frame_parts ps = Some (seconds, millis, nonce, sequence) \<longleftrightarrow>
     ps = ''frame'' # seconds # millis # (case nonce of None \<Rightarrow> [] | Some n \<Rightarrow> [n]) @ [sequence]"
  by (cases ps rule: frame_parts.cases) (auto split: option.splits)

text \<open>The canonical text of a parsed name, without its extension.\<close>

definition frame_stem_text :: "string \<Rightarrow> string \<Rightarrow> string option \<Rightarrow> string \<Rightarrow> string" where
  "frame_stem_text seconds millis nonce sequence =
     ''frame-'' @ seconds @ ''-'' @ millis @ ''-''
       @ (case nonce of None \<Rightarrow> [] | Some n \<Rightarrow> n @ ''-'') @ sequence"

lemma split_on_frame_stem:
  assumes "split_on (CHR ''-'') stem =
    ''frame'' # seconds # millis # (case nonce of None \<Rightarrow> [] | Some n \<Rightarrow> [n]) @ [sequence]"
  shows "stem = frame_stem_text seconds millis nonce sequence"
proof -
  have "stem @ ''-'' = frame_stem_text seconds millis nonce sequence @ ''-''"
    using split_on_join [of "CHR ''-''" stem] assms
    by (simp add: frame_stem_text_def split: option.splits)
  then show ?thesis by simp
qed

lemma split_on_frame_stem_text:
  assumes "frame_fields_ok seconds millis nonce sequence"
  shows "split_on (CHR ''-'') (frame_stem_text seconds millis nonce sequence) =
    ''frame'' # seconds # millis # (case nonce of None \<Rightarrow> [] | Some n \<Rightarrow> [n]) @ [sequence]"
proof -
  have *: "CHR ''-'' \<notin> set seconds" "CHR ''-'' \<notin> set millis" "CHR ''-'' \<notin> set sequence"
    "\<And>n. nonce = Some n \<Longrightarrow> CHR ''-'' \<notin> set n"
    using assms digit_not_dash lower_hex_not_dash
    by (fastforce simp: frame_fields_ok_def list_all_iff split: option.splits)+
  have "split_on (CHR ''-'') (''frame'' @ CHR ''-'' # rest) = ''frame'' # split_on (CHR ''-'') rest"
    for rest by (rule split_on_append) simp
  then show ?thesis
    using * by (simp add: frame_stem_text_def split_on_append split_on_no_sep split: option.splits)
qed

definition frame_extensions :: "string set" where
  "frame_extensions = {''.jpg'', ''.jpeg'', ''.png'', ''.mp4''}"

lemma frame_stem_Some:
  "frame_stem filename = Some stem \<Longrightarrow> \<exists>ext \<in> frame_extensions. filename = stem @ ext"
  unfolding frame_stem_def frame_extensions_def
  by (auto simp: or_else_Some strip_suffix_Some)

text \<open>Every accepted name is the canonical text of well-formed fields and one known extension.\<close>

lemma parse_generated_frame_filename_Some:
  assumes "parse_generated_frame_filename filename = Some t"
  obtains seconds millis nonce sequence ext
  where "filename = frame_stem_text seconds millis nonce sequence @ ext"
    and "ext \<in> frame_extensions"
    and "frame_fields_ok seconds millis nonce sequence"
    and "frame_time seconds millis sequence = Some t"
proof -
  from assms obtain stem seconds millis nonce sequence where
    stem: "frame_stem filename = Some stem"
    and parts: "frame_parts (split_on (CHR ''-'') stem) = Some (seconds, millis, nonce, sequence)"
    and ok: "frame_fields_ok seconds millis nonce sequence"
    and time: "frame_time seconds millis sequence = Some t"
    unfolding parse_generated_frame_filename_def
    by (auto split: option.splits if_splits prod.splits simp: bind_eq_Some_conv)
  from frame_stem_Some [OF stem] obtain ext where "ext \<in> frame_extensions" "filename = stem @ ext"
    by blast
  with split_on_frame_stem parts ok time that show thesis
    unfolding frame_parts_Some by metis
qed

lemma frame_time_Some:
  "frame_time seconds millis sequence = Some t \<Longrightarrow>
     seconds = decimal (decimal_value seconds) \<and> sequence = padded 6 (decimal_value sequence)
     \<and> t = decimal_value seconds * 1000 + decimal_value millis \<and> t \<le> u64_max"
  if "list_all is_digit seconds" "list_all is_digit millis" "list_all is_digit sequence"
    "seconds \<noteq> []" "millis \<noteq> []" "sequence \<noteq> []"
  using that
  by (auto simp: frame_time_def bind_eq_Some_conv parse_u64_digits checked_mul_u64_def
      checked_add_u64_def split: if_splits)

lemma frame_time_decimal:
  assumes "subsec < 1000" and "secs * 1000 + subsec \<le> u64_max" and "sequence \<le> u64_max"
  shows "frame_time (decimal secs) (padded 3 subsec) (padded 6 sequence) = Some (secs * 1000 + subsec)"
proof -
  have "secs \<le> u64_max" "subsec \<le> u64_max" "secs * 1000 \<le> u64_max" using assms by auto
  then show ?thesis
    using assms
    by (simp add: frame_time_def parse_u64_digits decimal_digits padded_digits
        checked_mul_u64_def checked_add_u64_def)
qed

subsection \<open>The idempotency key determines the name and the digest\<close>

lemma idempotency_key_inject:
  assumes "length a = length b"
  shows "idempotency_key f a = idempotency_key g b \<longleftrightarrow> f = g \<and> a = b"
proof
  assume "idempotency_key f a = idempotency_key g b"
  then have "hex_encode a @ [CHR ''-''] @ f = hex_encode b @ [CHR ''-''] @ g"
    by (simp add: idempotency_key_def)
  then have "hex_encode a = hex_encode b" "f = g"
    using assms by (simp_all add: append_eq_append_conv)
  then show "f = g \<and> a = b" using assms hex.enc_inject [of a "length b" b] by auto
qed simp

subsection \<open>Properties of generated and accepted names\<close>

lemma frame_stem_jpg: "frame_stem (stem @ ''.jpg'') = Some stem"
  by (simp add: frame_stem_def or_else_def)

lemma ends_with_iff: "ends_with s suf \<longleftrightarrow> (\<exists>t. s = t @ suf)"
  by (auto simp: ends_with_def strip_suffix_Some)

lemma frame_stem_mp4: "frame_stem (stem @ ''.mp4'') = Some stem"
proof -
  have "strip_suffix ''.jpg'' (stem @ ''.mp4'') = None" "strip_suffix ''.png'' (stem @ ''.mp4'') = None"
    by (simp_all add: strip_suffix_def)
  moreover have "strip_suffix ''.jpeg'' (stem @ ''.mp4'') = None"
  proof (rule ccontr)
    assume "strip_suffix ''.jpeg'' (stem @ ''.mp4'') \<noteq> None"
    then obtain t where "(stem @ ''.mp'') @ ''4'' = (t @ ''.jpe'') @ ''g''"
      by (auto simp: strip_suffix_Some)
    then have "CHR ''4'' = CHR ''g''" by (metis append1_eq_conv)
    then show False by simp
  qed
  ultimately show ?thesis by (simp add: frame_stem_def or_else_def)
qed

lemma capture_filename_at_stem:
  "capture_filename_at secs subsec nonce sequence =
     frame_stem_text (decimal secs) (padded 3 subsec) (Some nonce) (padded 6 sequence) @ ''.jpg''"
  by (simp add: capture_filename_at_def frame_stem_text_def)

lemma generated_fields_ok:
  assumes "subsec < 1000" and "length nonce = 32" and "list_all is_lower_hex nonce"
  shows "frame_fields_ok (decimal secs) (padded 3 subsec) (Some nonce) (padded 6 sequence)"
  using assms length_padded [of subsec 3] length_padded_ge [of 6 sequence]
  by (simp add: frame_fields_ok_def decimal_digits padded_digits capture_session_nonce_hex_length_def)

text \<open>A name produced by the capture agent for any representable capture time, session
  nonce and sequence number is accepted by the upload ledger's parser, which reads back exactly
  the capture time in milliseconds.\<close>

lemma generated_name_parses:
  assumes "subsec < 1000" and "length nonce = 32" and "list_all is_lower_hex nonce"
    and "secs * 1000 + subsec \<le> u64_max" and "sequence \<le> u64_max"
  shows "parse_generated_frame_filename (capture_filename_at secs subsec nonce sequence)
    = Some (secs * 1000 + subsec)"
proof -
  note ok = generated_fields_ok [OF assms(1-3), of secs sequence]
  have "\<not> (\<exists>t. stem @ ''.jpg'' = t @ ''.png'')" "\<not> (\<exists>t. stem @ ''.jpg'' = t @ ''.mp4'')" for stem
    by simp_all
  then show ?thesis
    using ok frame_time_decimal [OF assms(1,4,5)]
    by (simp add: parse_generated_frame_filename_def capture_filename_at_stem frame_stem_jpg
        split_on_frame_stem_text frame_parts_Some)
qed

text \<open>Two captures share a file name only if they agree on the second, the millisecond,
  the session nonce and the sequence number; with a fresh nonce per session and a growing
  sequence no two captures collide.\<close>

lemma generated_names_unique:
  assumes "subsec < 1000" and "length nonce = 32" and "list_all is_lower_hex nonce"
    and "subsec' < 1000" and "length nonce' = 32" and "list_all is_lower_hex nonce'"
    and same: "capture_filename_at secs subsec nonce sequence
      = capture_filename_at secs' subsec' nonce' sequence'"
  shows "secs = secs' \<and> subsec = subsec' \<and> nonce = nonce' \<and> sequence = sequence'"
proof -
  from same have "frame_stem_text (decimal secs) (padded 3 subsec) (Some nonce) (padded 6 sequence)
      = frame_stem_text (decimal secs') (padded 3 subsec') (Some nonce') (padded 6 sequence')"
    by (simp add: capture_filename_at_stem)
  from arg_cong [OF this, of "split_on (CHR ''-'')"]
  have "decimal secs = decimal secs' \<and> padded 3 subsec = padded 3 subsec' \<and> nonce = nonce'
      \<and> padded 6 sequence = padded 6 sequence'"
    unfolding split_on_frame_stem_text [OF generated_fields_ok [OF assms(1-3), of secs sequence]]
      split_on_frame_stem_text [OF generated_fields_ok [OF assms(4-6), of secs' sequence']]
    by simp
  then show ?thesis by (metis decimal_value_decimal decimal_value_padded)
qed

definition plain_char :: "char \<Rightarrow> bool" where
  "plain_char c \<longleftrightarrow> is_digit c \<or> c = CHR ''-'' \<or> c = CHR ''.''
     \<or> (let v = of_char c :: nat in 97 \<le> v \<and> v \<le> 122)"

lemma accepted_name_plain:
  assumes "parse_generated_frame_filename filename = Some t"
  shows "list_all plain_char filename \<and> t \<le> u64_max"
  using assms
proof (rule parse_generated_frame_filename_Some)
  fix seconds millis nonce sequence ext
  assume name: "filename = frame_stem_text seconds millis nonce sequence @ ext"
    and ext: "ext \<in> frame_extensions"
    and ok: "frame_fields_ok seconds millis nonce sequence"
    and time: "frame_time seconds millis sequence = Some t"
  have "list_all plain_char s" if "list_all is_digit s" for s
    using that by (auto simp: list_all_iff plain_char_def)
  moreover have "list_all plain_char s" if "list_all is_lower_hex s" for s
    using that by (auto simp: list_all_iff plain_char_def is_lower_hex_def Let_def)
  ultimately have "list_all plain_char (frame_stem_text seconds millis nonce sequence)"
    using ok by (auto simp: frame_stem_text_def frame_fields_ok_def plain_char_def
        split: option.splits)
  moreover have "list_all plain_char ext"
    using ext by (auto simp: frame_extensions_def plain_char_def is_digit_def)
  moreover have "t \<le> u64_max"
  proof -
    have "millis \<noteq> []" "sequence \<noteq> []" using ok by (auto simp: frame_fields_ok_def)
    with ok time frame_time_Some [of seconds millis sequence t] show ?thesis
      by (simp add: frame_fields_ok_def)
  qed
  ultimately show ?thesis by (simp add: name)
qed

lemma generated_name_component:
  assumes "is_generated_frame_filename name"
  shows "CHR ''/'' \<notin> set name" "name \<noteq> []" "name \<noteq> ''.''" "name \<noteq> ''..''"
proof -
  from assms obtain t where parsed: "parse_generated_frame_filename name = Some t"
    by (auto simp: is_generated_frame_filename_def split: option.splits)
  then show "CHR ''/'' \<notin> set name"
    using accepted_name_plain [OF parsed] by (auto simp: list_all_iff plain_char_def is_digit_def)
  have "4 \<le> length name"
    using parsed by (rule parse_generated_frame_filename_Some) (auto simp: frame_extensions_def)
  then show "name \<noteq> []" "name \<noteq> ''.''" "name \<noteq> ''..''" by auto
qed

text \<open>Every name the parser accepts consists of lower-case letters, digits, dashes and
  dots only, so joining it to the capture directory can never leave that directory (no
  separator, drive colon or NUL), and the time it yields is a 64-bit value.\<close>

lemma accepted_names_are_plain:
  assumes "parse_generated_frame_filename filename = Some t"
  shows "list_all plain_char filename \<and> t \<le> u64_max"
  by (rule accepted_name_plain [OF assms])

text \<open>The movie generated for a UTC day bears a name that uploads and retention accept,
  stamped with the instant the day ends.\<close>

lemma output_name_parses:
  assumes "(day + 1) * 86400 * 1000 \<le> u64_max"
  shows "parse_generated_frame_filename (output_name day) = Some ((day + 1) * 86400 * 1000)"
proof -
  let ?nonce = "hex_encode (be_bytes 16 0x74696d656c61707365)"
  have hex: "is_lower_hex (hex_digit n)" if "unat n < 16" for n
    using nibble_cases [OF that]
    by (auto simp: is_lower_hex_def is_digit_def hex_digit_def hex_table_def)
  have "list_all is_lower_hex (hex_encode bs)" for bs
    by (induction bs) (auto simp: hex unat_high_nibble unat_low_nibble)
  then have nonce: "length ?nonce = 32" "list_all is_lower_hex ?nonce" by simp_all
  have zero: "decimal 0 = ''0''" by (simp add: decimal.simps digit_char_def char_of_def bit_Suc_0_iff)
  then have pads: "padded 3 0 = ''000''" "padded 6 0 = ''000000''"
    by (simp_all add: padded_def eval_nat_numeral)
  have name: "output_name day =
      frame_stem_text (decimal ((day + 1) * 86400)) (padded 3 0) (Some ?nonce) (padded 6 0) @ ''.mp4''"
    unfolding output_name_def frame_stem_text_def pads by simp
  have "frame_fields_ok (decimal ((day + 1) * 86400)) (padded 3 0) (Some ?nonce) (padded 6 0)"
    by (rule generated_fields_ok [OF _ nonce]) simp
  moreover have "frame_time (decimal ((day + 1) * 86400)) (padded 3 0) (padded 6 0)
      = Some ((day + 1) * 86400 * 1000 + 0)"
    by (rule frame_time_decimal) (use assms in auto)
  ultimately show ?thesis
    unfolding name parse_generated_frame_filename_def frame_stem_mp4
    by (simp add: split_on_frame_stem_text frame_parts_Some)
qed

end
