(* ===== verification/Paths.thy ===== *)
theory Paths
  imports FrameName "HOL-Library.List_Lexorder" "HOL-Library.Char_ord"
begin

text \<open>
  The operations of \<open>std::path::Path\<close> that the upload ledger applies to artifact paths,
  in their POSIX form (a separator is a slash, there are no drive prefixes), and the outside
  world the ledger reads: file metadata, canonical names, directory listings and file
  contents. A \<open>PathBuf\<close> is its text; comparing two of them compares their components.
\<close>

subsection \<open>Components\<close>

datatype component = RootDir | CurDir | ParentDir | Normal string

text \<open>Rust derives the order of components from the order of their constructors.\<close>

fun component_rank :: "component \<Rightarrow> nat" where
  "component_rank RootDir = 0"
| "component_rank CurDir = 1"
| "component_rank ParentDir = 2"
| "component_rank (Normal _) = 3"

fun component_text :: "component \<Rightarrow> string" where
  "component_text (Normal name) = name"
| "component_text _ = []"

instantiation component :: linorder
begin

definition less_eq_component :: "component \<Rightarrow> component \<Rightarrow> bool" where
  "less_eq_component a b \<longleftrightarrow> component_rank a < component_rank b
     \<or> component_rank a = component_rank b \<and> component_text a \<le> component_text b"

definition less_component :: "component \<Rightarrow> component \<Rightarrow> bool" where
  "less_component a b \<longleftrightarrow> a \<le> b \<and> \<not> b \<le> a"

instance
proof
  fix x y z :: component
  show "(x < y) = (x \<le> y \<and> \<not> y \<le> x)" by (simp add: less_component_def)
  show "x \<le> x" by (simp add: less_eq_component_def)
  show "x \<le> y \<Longrightarrow> y \<le> z \<Longrightarrow> x \<le> z" by (auto simp: less_eq_component_def)
  show "x \<le> y \<Longrightarrow> y \<le> x \<Longrightarrow> x = y"
    by (cases x; cases y) (auto simp: less_eq_component_def)
  show "x \<le> y \<or> y \<le> x" by (auto simp: less_eq_component_def)
qed

end

definition path_part :: "string \<Rightarrow> component" where
  "path_part p = (if p = ''..'' then ParentDir else Normal p)"

definition path_is_absolute :: "string \<Rightarrow> bool" where
  "path_is_absolute path = (case path of [] \<Rightarrow> False | c # _ \<Rightarrow> c = CHR ''/'')"

definition path_components :: "string \<Rightarrow> component list" where
  "path_components path =
     (let parts = filter (\<lambda>p. p \<noteq> []) (split_on (CHR ''/'') path) in
      if path_is_absolute path
      then RootDir # map path_part (filter (\<lambda>p. p \<noteq> ''.'') parts)
      else (case parts of [] \<Rightarrow> []
        | p # rest \<Rightarrow> (if p = ''.'' then CurDir else path_part p)
            # map path_part (filter (\<lambda>p. p \<noteq> ''.'') rest)))"

text \<open>\<open>a == b\<close> on paths, \<open>path.parent()\<close> and \<open>path.file_name()\<close>.\<close>

definition path_eq :: "string \<Rightarrow> string \<Rightarrow> bool" where
  "path_eq a b \<longleftrightarrow> path_components a = path_components b"

definition path_parent :: "string \<Rightarrow> component list option" where
  "path_parent path =
     (case rev (path_components path) of
        [] \<Rightarrow> None
      | RootDir # _ \<Rightarrow> None
      | _ # rest \<Rightarrow> Some (rev rest))"

definition path_file_name :: "string \<Rightarrow> string option" where
  "path_file_name path =
     (case rev (path_components path) of Normal name # _ \<Rightarrow> Some name | _ \<Rightarrow> None)"

text \<open>\<open>root.join(name)\<close> for a plain file name.\<close>

definition path_join :: "string \<Rightarrow> string \<Rightarrow> string" where
  "path_join root name =
     (if root \<noteq> [] \<and> last root \<noteq> CHR ''/'' then root @ ''/'' @ name else root @ name)"

subsection \<open>The file system\<close>

datatype file_kind = RegularFile | Symlink | OtherKind

datatype io_error = NotFound | OtherIo

text \<open>
  An opened file: what its metadata says on opening, the bytes a complete read returns, and
  the length its metadata reports after that read. Nothing ties the three together: another
  process may write to the file while it is read.
\<close>

record opened_file =
  of_kind :: file_kind
  of_len :: nat
  of_bytes :: "u8 list"
  of_final_len :: nat

text \<open>
  A directory entry: its name if it is UTF-8 text, and what its file type says. The entry's
  path is the listed directory joined with the name.
\<close>

record dir_entry =
  de_name :: "string option"
  de_kind :: "io_error + file_kind"

record filesystem =
  symlink_metadata :: "string \<Rightarrow> io_error + file_kind"
  canonicalize :: "string \<Rightarrow> io_error + string"
  open_for_read :: "string \<Rightarrow> io_error + opened_file"
  read_dir :: "string \<Rightarrow> io_error + (io_error + dir_entry) list"

subsection \<open>Joining a plain name\<close>

lemma path_components_join:
  assumes "path_is_absolute root" and "CHR ''/'' \<notin> set name" and "name \<noteq> []"
    and "name \<noteq> ''.''" and "name \<noteq> ''..''"
  shows "path_components (path_join root name) = path_components root @ [Normal name]"
proof -
  have split: "split_on (CHR ''/'') (r @ CHR ''/'' # s) = split_on (CHR ''/'') r @ split_on (CHR ''/'') s"
    for r s by (induction r) (auto split: list.splits simp: Cons_eq_append_conv)
  have one: "filter (\<lambda>p. p \<noteq> []) (split_on (CHR ''/'') name) = [name]"
    using assms by (simp add: split_on_no_sep)
  have parts: "filter (\<lambda>p. p \<noteq> []) (split_on (CHR ''/'') (path_join root name)) =
      filter (\<lambda>p. p \<noteq> []) (split_on (CHR ''/'') root) @ [name]"
  proof (cases "last root = CHR ''/''")
    case True
    with assms(1) obtain r where r: "root = r @ [CHR ''/'']"
      by (metis append_butlast_last_id list.simps(4) path_is_absolute_def)
    then have "split_on (CHR ''/'') root = split_on (CHR ''/'') r @ [[]]"
      using split [of r "[]"] by simp
    moreover have "path_join root name = r @ CHR ''/'' # name"
      by (simp add: path_join_def r)
    ultimately show ?thesis using split [of r name] one by simp
  next
    case False
    with assms(1) have "path_join root name = root @ CHR ''/'' # name"
      by (auto simp: path_join_def path_is_absolute_def split: list.splits)
    then show ?thesis using split [of root name] one by simp
  qed
  have "path_is_absolute (path_join root name)"
    using assms(1) by (auto simp: path_is_absolute_def path_join_def split: list.splits)
  then show ?thesis
    using assms parts by (simp add: path_components_def path_part_def Let_def)
qed

lemma path_join_child:
  assumes "path_is_absolute root" and "CHR ''/'' \<notin> set name" and "name \<noteq> []"
    and "name \<noteq> ''.''" and "name \<noteq> ''..''"
  shows "path_is_absolute (path_join root name)"
    and "path_parent (path_join root name) = Some (path_components root)"
    and "path_file_name (path_join root name) = Some name"
proof -
  show "path_is_absolute (path_join root name)"
    using assms(1) by (auto simp: path_is_absolute_def path_join_def split: list.splits)
  show "path_parent (path_join root name) = Some (path_components root)"
    and "path_file_name (path_join root name) = Some name"
    using path_components_join [OF assms] by (simp_all add: path_parent_def path_file_name_def)
qed

text \<open>A path is determined, up to path equality, by its parent and its file name.\<close>

lemma path_eqI:
  assumes "path_parent a = Some d" "path_parent b = Some d"
    and "path_file_name a = Some n" "path_file_name b = Some n"
  shows "path_eq a b"
proof -
  have "rev (path_components p) = Normal n # rev d" if "path_parent p = Some d" "path_file_name p = Some n"
    for p using that by (auto simp: path_parent_def path_file_name_def split: list.splits component.splits)
  then show ?thesis using assms by (metis path_eq_def rev_rev_ident)
qed

end
