(* ===== verification/RetentionPlan.thy ===== *)
theory RetentionPlan
  imports Paths "HOL-Library.Product_Lexorder" "HOL-Library.Multiset" "HOL-Library.Code_Target_Nat"
begin

text \<open>
  The planner of the retention worker (\<open>retention.rs\<close>): the policy read from the capture
  configuration, the candidates with their authorizations, the quotas, and
  \<open>plan_with_private_bytes\<close>, which chooses what to delete. The planner is compared with a
  declarative reference: it deletes the shortest oldest-first run of reclaimable artifacts that
  contains everything too old and satisfies the quotas that are known.
\<close>

subsection \<open>Policy\<close>

definition millis_per_day :: nat where
  "millis_per_day = 24 * 60 * 60 * 1000"

record capture_retention_config =
  cc_retention_days :: nat
  cc_retention_max_bytes :: "nat option"
  cc_retention_min_free_bytes :: "nat option"
  cc_keep_latest :: bool

record retention_policy =
  max_age_ms :: "nat option"
  max_managed_bytes :: "nat option"
  min_free_bytes :: "nat option"
  keep_latest :: bool

definition from_capture_config :: "capture_retention_config \<Rightarrow> retention_policy" where
  "from_capture_config config =
     \<lparr>max_age_ms = (if cc_retention_days config \<noteq> 0
        then Some (sat_mul_u64 (cc_retention_days config) millis_per_day) else None),
      max_managed_bytes = cc_retention_max_bytes config,
      min_free_bytes = cc_retention_min_free_bytes config,
      keep_latest = cc_keep_latest config\<rparr>"

definition has_byte_quota :: "retention_policy \<Rightarrow> bool" where
  "has_byte_quota policy \<longleftrightarrow> max_managed_bytes policy \<noteq> None \<or> min_free_bytes policy \<noteq> None"

definition retention_is_enabled :: "retention_policy \<Rightarrow> bool" where
  "retention_is_enabled policy \<longleftrightarrow> max_age_ms policy \<noteq> None \<or> has_byte_quota policy"

definition needs_free_space :: "retention_policy \<Rightarrow> bool" where
  "needs_free_space policy \<longleftrightarrow> min_free_bytes policy \<noteq> None"

subsection \<open>Artifacts and candidates\<close>

record managed_artifact =
  ma_path :: string
  ma_captured_at :: nat
  ma_file_size :: nat

datatype retention_classification = Reclaimable | Protected

record retention_authorization =
  classification :: retention_classification
  expected_file_size :: "nat option"
  expected_sha256 :: "u8 list option"

definition authorization_protected :: retention_authorization where
  "authorization_protected =
     \<lparr>classification = Protected, expected_file_size = None, expected_sha256 = None\<rparr>"

definition authorization_reclaimable :: "nat option \<Rightarrow> u8 list option \<Rightarrow> retention_authorization" where
  "authorization_reclaimable file_size sha256 =
     \<lparr>classification = Reclaimable, expected_file_size = file_size, expected_sha256 = sha256\<rparr>"

record retention_candidate =
  rc_path :: string
  rc_captured_at :: nat
  rc_file_size :: nat
  rc_authorization :: retention_authorization

definition is_reclaimable :: "retention_candidate \<Rightarrow> bool" where
  "is_reclaimable candidate \<longleftrightarrow> classification (rc_authorization candidate) = Reclaimable"

definition protect :: "retention_candidate \<Rightarrow> retention_candidate" where
  "protect candidate = candidate\<lparr>rc_authorization := authorization_protected\<rparr>"

subsection \<open>Quotas\<close>

definition quotas_satisfied :: "retention_policy \<Rightarrow> nat \<Rightarrow> nat option \<Rightarrow> bool" where
  "quotas_satisfied policy projected_managed_bytes projected_free_bytes \<longleftrightarrow>
     (case max_managed_bytes policy of None \<Rightarrow> True | Some maximum \<Rightarrow> projected_managed_bytes \<le> maximum)
     \<and> (case min_free_bytes policy of None \<Rightarrow> True
        | Some minimum \<Rightarrow> (case projected_free_bytes of None \<Rightarrow> False | Some free \<Rightarrow> minimum \<le> free))"

definition known_quotas_satisfied :: "retention_policy \<Rightarrow> nat \<Rightarrow> nat option \<Rightarrow> bool" where
  "known_quotas_satisfied policy projected_managed_bytes projected_free_bytes \<longleftrightarrow>
     (case max_managed_bytes policy of None \<Rightarrow> True | Some maximum \<Rightarrow> projected_managed_bytes \<le> maximum)
     \<and> (case (min_free_bytes policy, projected_free_bytes) of
          (Some minimum, Some free) \<Rightarrow> minimum \<le> free
        | _ \<Rightarrow> True)"

subsection \<open>The plan\<close>

record retention_plan =
  deletions :: "retention_candidate list"
  p_managed_bytes :: nat
  p_protected_bytes :: nat
  p_reclaimable_bytes :: nat
  planned_reclaim_bytes :: nat
  projected_managed_bytes :: nat
  projected_free_bytes :: "nat option"
  quota_blocked :: bool

text \<open>\<open>captured_at\<close> first, then the path, compared by its components.\<close>

definition candidate_key :: "retention_candidate \<Rightarrow> nat \<times> component list" where
  "candidate_key candidate = (rc_captured_at candidate, path_components (rc_path candidate))"

definition add_bytes :: "nat \<Rightarrow> retention_candidate list \<Rightarrow> nat" where
  "add_bytes start candidates = foldl (\<lambda>amount c. sat_add_u64 amount (rc_file_size c)) start candidates"

definition protect_latest :: "retention_candidate list \<Rightarrow> retention_candidate list" where
  "protect_latest candidates =
     (if candidates = [] then [] else butlast candidates @ [protect (last candidates)])"

definition too_old :: "retention_policy \<Rightarrow> nat \<Rightarrow> retention_candidate \<Rightarrow> bool" where
  "too_old policy now candidate =
     (case max_age_ms policy of None \<Rightarrow> False
      | Some max_age \<Rightarrow> rc_captured_at candidate \<le> now - max_age)"

text \<open>
  The second selection loop: it passes over what is selected or protected, stops as soon as the
  known quotas hold, and otherwise selects the next candidate.
\<close>

fun select_for_quota ::
  "retention_policy \<Rightarrow> nat \<Rightarrow> nat option \<Rightarrow> nat \<Rightarrow> (bool \<times> retention_candidate) list
     \<Rightarrow> bool list \<times> nat" where
  "select_for_quota policy managed free planned [] = ([], planned)"
| "select_for_quota policy managed free planned ((selected, c) # rest) =
     (if selected \<or> \<not> is_reclaimable c
      then (let (flags, amount) = select_for_quota policy managed free planned rest
            in (selected # flags, amount))
      else if known_quotas_satisfied policy (managed - planned)
                (map_option (\<lambda>bytes. sat_add_u64 bytes planned) free)
      then (selected # map fst rest, planned)
      else (let (flags, amount) =
                  select_for_quota policy managed free (sat_add_u64 planned (rc_file_size c)) rest
            in (True # flags, amount)))"

definition plan_with_private_bytes ::
  "retention_policy \<Rightarrow> nat \<Rightarrow> nat option \<Rightarrow> retention_candidate list \<Rightarrow> nat \<Rightarrow> retention_plan" where
  "plan_with_private_bytes policy now free candidates private_size =
     (let sorted = sort_key candidate_key candidates;
          managed = add_bytes private_size sorted;
          sorted = (if keep_latest policy then protect_latest sorted else sorted);
          protected = add_bytes private_size (filter (\<lambda>c. \<not> is_reclaimable c) sorted);
          reclaimable = managed - protected;
          selected = map (\<lambda>c. is_reclaimable c \<and> too_old policy now c) sorted;
          planned = add_bytes 0 (map snd (filter fst (zip selected sorted)));
          (selected, planned) = select_for_quota policy managed free planned (zip selected sorted);
          projected_managed = managed - planned;
          projected_free = map_option (\<lambda>bytes. sat_add_u64 bytes planned) free
      in \<lparr>deletions = map snd (filter fst (zip selected sorted)),
          p_managed_bytes = managed, p_protected_bytes = protected,
          p_reclaimable_bytes = reclaimable, planned_reclaim_bytes = planned,
          projected_managed_bytes = projected_managed, projected_free_bytes = projected_free,
          quota_blocked = (\<not> quotas_satisfied policy projected_managed projected_free)\<rparr>)"

subsection \<open>Sums\<close>

lemma add_bytes_Nil [simp]: "add_bytes start [] = start"
  by (simp add: add_bytes_def)

lemma add_bytes_Cons [simp]:
  "add_bytes start (c # cs) = add_bytes (sat_add_u64 start (rc_file_size c)) cs"
  by (simp add: add_bytes_def)

lemma add_bytes_append [simp]: "add_bytes start (xs @ ys) = add_bytes (add_bytes start xs) ys"
  by (simp add: add_bytes_def)

lemma add_bytes_sum:
  "start \<le> u64_max \<Longrightarrow> add_bytes start cs = min (start + sum_list (map rc_file_size cs)) u64_max"
  by (induction cs arbitrary: start) (auto simp: sat_add_u64_def min_def)

lemma sum_list_filter_partition:
  "sum_list (map f (filter P xs)) + sum_list (map f (filter (\<lambda>x. \<not> P x) xs)) = sum_list (map f xs :: nat list)"
  by (induction xs) auto

subsection \<open>What the loop selects\<close>

lemma candidate_key_le: "candidate_key a \<le> candidate_key b \<Longrightarrow> rc_captured_at a \<le> rc_captured_at b"
  by (auto simp: candidate_key_def)

lemma protect_fields [simp]:
  "rc_captured_at (protect c) = rc_captured_at c" "rc_file_size (protect c) = rc_file_size c"
  "candidate_key (protect c) = candidate_key c" "rc_path (protect c) = rc_path c"
  "\<not> is_reclaimable (protect c)"
  by (simp_all add: protect_def candidate_key_def is_reclaimable_def authorization_protected_def)

lemma protect_latest_keys [simp]:
  "map candidate_key (protect_latest cs) = map candidate_key cs"
  "map rc_file_size (protect_latest cs) = map rc_file_size cs"
  by (cases cs rule: rev_cases; simp add: protect_latest_def)+

lemma too_old_mono:
  "too_old policy now b \<Longrightarrow> rc_captured_at a \<le> rc_captured_at b \<Longrightarrow> too_old policy now a"
  by (auto simp: too_old_def split: option.splits)

text \<open>The deletions as a function of the flags.\<close>

abbreviation chosen :: "bool list \<Rightarrow> retention_candidate list \<Rightarrow> retention_candidate list" where
  "chosen flags cs \<equiv> map snd (filter fst (zip flags cs))"

text \<open>The quotas once the candidates of a list are gone.\<close>

definition enough_removed :: "retention_policy \<Rightarrow> nat \<Rightarrow> nat option \<Rightarrow> retention_candidate list \<Rightarrow> bool" where
  "enough_removed policy managed free removed \<longleftrightarrow>
     known_quotas_satisfied policy (managed - add_bytes 0 removed)
       (map_option (\<lambda>bytes. sat_add_u64 bytes (add_bytes 0 removed)) free)"

text \<open>
  On the candidates that are left to consider, none of them too old, the loop takes the shortest
  prefix of the reclaimable ones that satisfies the quotas.
\<close>

lemma select_for_quota_prefix:
  assumes "\<forall>(s, c) \<in> set rest. \<not> s" and "planned = add_bytes 0 before"
    and "select_for_quota policy managed free planned rest = (flags, amount)"
  shows "\<exists>n. chosen flags (map snd rest) = take n (filter is_reclaimable (map snd rest))
    \<and> n \<le> length (filter is_reclaimable (map snd rest))
    \<and> amount = add_bytes 0 (before @ chosen flags (map snd rest))
    \<and> (n = length (filter is_reclaimable (map snd rest))
       \<or> enough_removed policy managed free (before @ chosen flags (map snd rest)))
    \<and> (\<forall>m < n. \<not> enough_removed policy managed free
         (before @ take m (filter is_reclaimable (map snd rest))))"
  using assms
proof (induction rest arbitrary: planned before flags amount)
  case Nil
  then show ?case by auto
next
  case (Cons sc rest)
  obtain c where sc: "sc = (False, c)" using Cons.prems(1) by (cases sc) auto
  have rest: "\<forall>(s, c) \<in> set rest. \<not> s" using Cons.prems(1) by simp
  consider "\<not> is_reclaimable c"
    | "is_reclaimable c" "enough_removed policy managed free before"
    | "is_reclaimable c" "\<not> enough_removed policy managed free before" by blast
  then show ?case
  proof cases
    case 1
    obtain fs where fs: "select_for_quota policy managed free planned rest = (fs, amount)"
      "flags = False # fs"
      using Cons.prems(3) 1 by (auto simp: sc split: prod.splits)
    from Cons.IH [OF rest Cons.prems(2) fs(1)] show ?thesis using 1 by (simp add: sc fs(2))
  next
    case 2
    then have flags: "flags = False # map fst rest" "amount = planned"
      using Cons.prems(2,3) by (auto simp: sc enough_removed_def)
    have "chosen (map fst rest) (map snd rest) = []"
      using rest by (induction rest) auto
    then show ?thesis
      using 2 flags Cons.prems(2) by (intro exI [of _ 0]) (simp add: sc)
  next
    case 3
    define planned' where "planned' = sat_add_u64 planned (rc_file_size c)"
    obtain fs where fs: "select_for_quota policy managed free planned' rest = (fs, amount)"
      "flags = True # fs"
      using Cons.prems(2,3) 3 by (auto simp: sc enough_removed_def planned'_def split: prod.splits)
    have "planned' = add_bytes 0 (before @ [c])" by (simp add: planned'_def Cons.prems(2))
    from Cons.IH [OF rest this fs(1)] obtain n where n:
      "chosen fs (map snd rest) = take n (filter is_reclaimable (map snd rest))"
      "n \<le> length (filter is_reclaimable (map snd rest))"
      "amount = add_bytes 0 (before @ [c] @ chosen fs (map snd rest))"
      "n = length (filter is_reclaimable (map snd rest))
         \<or> enough_removed policy managed free (before @ [c] @ chosen fs (map snd rest))"
      "\<forall>m < n. \<not> enough_removed policy managed free
         (before @ [c] @ take m (filter is_reclaimable (map snd rest)))"
      unfolding append_assoc by blast
    have "\<not> enough_removed policy managed free
        (before @ take m (filter is_reclaimable (map snd (sc # rest))))" if "m < Suc n" for m
      using that 3 n(5) by (cases m) (auto simp: sc)
    then show ?thesis
      using 3 n by (intro exI [of _ "Suc n"]) (simp add: sc fs(2))
  qed
qed


subsection \<open>The reference\<close>

text \<open>
  The candidates in deletion order with the newest one protected if asked, the reclaimable ones
  among them, and what a set of deletions must achieve.
\<close>

definition retention_order :: "retention_policy \<Rightarrow> retention_candidate list \<Rightarrow> retention_candidate list" where
  "retention_order policy candidates =
     (let sorted = sort_key candidate_key candidates
      in if keep_latest policy then protect_latest sorted else sorted)"

definition reclaimable_order :: "retention_policy \<Rightarrow> retention_candidate list \<Rightarrow> retention_candidate list" where
  "reclaimable_order policy candidates = filter is_reclaimable (retention_order policy candidates)"

definition plan_goal ::
  "retention_policy \<Rightarrow> nat \<Rightarrow> nat \<Rightarrow> nat option \<Rightarrow> retention_candidate list
     \<Rightarrow> retention_candidate list \<Rightarrow> bool" where
  "plan_goal policy now managed free removed kept \<longleftrightarrow>
     list_all (\<lambda>c. \<not> too_old policy now c) kept
     \<and> (kept = [] \<or> enough_removed policy managed free removed)"

lemma retention_order_sorted: "sorted (map candidate_key (retention_order policy candidates))"
  by (simp add: retention_order_def Let_def)

lemma too_old_prefix:
  assumes "sorted (map candidate_key cs)"
  shows "filter (too_old policy now) cs @ filter (\<lambda>c. \<not> too_old policy now c) cs = cs"
  using assms
proof (induction cs)
  case (Cons c cs)
  show ?case
  proof (cases "too_old policy now c")
    case True
    then show ?thesis using Cons by simp
  next
    case False
    have "\<not> too_old policy now d" if "d \<in> set cs" for d
    proof
      assume "too_old policy now d"
      moreover have "candidate_key c \<le> candidate_key d" using that Cons.prems by simp
      ultimately show False using False too_old_mono candidate_key_le by blast
    qed
    then show ?thesis using False by simp
  qed
qed simp

lemma plan_goal_all: "plan_goal policy now managed free removed []"
  by (simp add: plan_goal_def)

text \<open>The loop leaves a stretch alone in which everything is selected or protected.\<close>

lemma select_for_quota_skip:
  assumes "\<forall>(s, c) \<in> set xs. s \<or> \<not> is_reclaimable c"
  shows "select_for_quota policy managed free planned (xs @ ys) =
    (let (flags, amount) = select_for_quota policy managed free planned ys
     in (map fst xs @ flags, amount))"
  using assms by (induction xs) (auto split: prod.splits)

lemma select_for_quota_length:
  "length (fst (select_for_quota policy managed free planned rest)) = length rest"
  by (induction policy managed free planned rest rule: select_for_quota.induct)
    (auto split: prod.splits)

lemma zip_map_fst: "zip (map f xs) xs = map (\<lambda>x. (f x, x)) xs"
  by (induction xs) auto

text \<open>The plan over the ordered candidates.\<close>

lemma plan_fields:
  fixes policy candidates private_size
  defines "S \<equiv> retention_order policy candidates"
    and "managed \<equiv> add_bytes private_size (sort_key candidate_key candidates)"
  assumes loop: "select_for_quota policy managed free
      (add_bytes 0 (chosen (map (\<lambda>c. is_reclaimable c \<and> too_old policy now c) S) S))
      (zip (map (\<lambda>c. is_reclaimable c \<and> too_old policy now c) S) S) = (flags, amount)"
  shows "plan_with_private_bytes policy now free candidates private_size =
    \<lparr>deletions = chosen flags S, p_managed_bytes = managed,
     p_protected_bytes = add_bytes private_size (filter (\<lambda>c. \<not> is_reclaimable c) S),
     p_reclaimable_bytes = managed - add_bytes private_size (filter (\<lambda>c. \<not> is_reclaimable c) S),
     planned_reclaim_bytes = amount, projected_managed_bytes = managed - amount,
     projected_free_bytes = map_option (\<lambda>bytes. sat_add_u64 bytes amount) free,
     quota_blocked = (\<not> quotas_satisfied policy (managed - amount)
       (map_option (\<lambda>bytes. sat_add_u64 bytes amount) free))\<rparr>"
proof -
  have S: "(if keep_latest policy then protect_latest (sort_key candidate_key candidates)
      else sort_key candidate_key candidates) = S"
    by (simp add: S_def retention_order_def Let_def)
  show ?thesis
    unfolding plan_with_private_bytes_def Let_def S managed_def [symmetric] loop by simp
qed

lemma plan_managed: "p_managed_bytes (plan_with_private_bytes policy now free candidates private_size)
    = add_bytes private_size (sort_key candidate_key candidates)"
  by (simp add: plan_with_private_bytes_def Let_def split: prod.split)

text \<open>The plan in terms of the candidates it deletes and those it considered and kept.\<close>

lemma plan_selection:
  fixes candidates policy now free
  defines "R \<equiv> reclaimable_order policy candidates"
  assumes plan: "plan = plan_with_private_bytes policy now free candidates private_size"
  shows "\<exists>n \<le> length R. deletions plan = take n R
    \<and> planned_reclaim_bytes plan = add_bytes 0 (take n R)
    \<and> plan_goal policy now (p_managed_bytes plan) free (take n R) (drop n R)
    \<and> (\<forall>m < n. \<not> plan_goal policy now (p_managed_bytes plan) free (take m R) (drop m R))"
proof -
  define S where "S = retention_order policy candidates"
  define managed where "managed = add_bytes private_size (sort_key candidate_key candidates)"
  define A where "A = filter (too_old policy now) S"
  define B where "B = filter (\<lambda>c. \<not> too_old policy now c) S"
  have S: "S = A @ B"
    using too_old_prefix [OF retention_order_sorted] by (simp add: A_def B_def S_def)
  have A: "\<forall>c \<in> set A. too_old policy now c" and B: "\<forall>c \<in> set B. \<not> too_old policy now c"
    by (simp_all add: A_def B_def)
  let ?f = "\<lambda>c. is_reclaimable c \<and> too_old policy now c"
  let ?RA = "filter is_reclaimable A" and ?RB = "filter is_reclaimable B"
  have R: "R = ?RA @ ?RB" by (simp add: R_def reclaimable_order_def S [symmetric] S_def)
      (simp add: S [unfolded S_def])
  have zA: "zip (map ?f A) A = map (\<lambda>c. (is_reclaimable c, c)) A" using A by (simp add: zip_map_fst)
  have zB: "zip (map ?f B) B = map (\<lambda>c. (False, c)) B" using B by (simp add: zip_map_fst)
  have chosenA: "chosen (map is_reclaimable A) A = ?RA"
    by (simp add: zip_map_fst filter_map comp_def)
  have expired: "chosen (map ?f S) S = ?RA"
    by (simp add: S zA zB filter_map comp_def)
  obtain flags amount where loop: "select_for_quota policy managed free (add_bytes 0 ?RA)
      (map (\<lambda>c. (False, c)) B) = (flags, amount)" by fastforce
  have len: "length flags = length B"
    using select_for_quota_length [of policy managed free "add_bytes 0 ?RA" "map (\<lambda>c. (False, c)) B"]
    by (simp add: loop)
  have whole: "select_for_quota policy managed free (add_bytes 0 ?RA) (zip (map ?f S) S)
      = (map is_reclaimable A @ flags, amount)"
    using select_for_quota_skip [of "map (\<lambda>c. (is_reclaimable c, c)) A" policy managed free
        "add_bytes 0 ?RA" "map (\<lambda>c. (False, c)) B"]
    by (simp add: S zA zB loop comp_def)
  note fields = plan_fields [where policy = policy and candidates = candidates and now = now
      and private_size = private_size and free = free and flags = "map is_reclaimable A @ flags" and amount = amount]
  have "select_for_quota policy (add_bytes private_size (sort_key candidate_key candidates)) free
      (add_bytes 0 (chosen (map ?f (retention_order policy candidates)) (retention_order policy candidates)))
      (zip (map ?f (retention_order policy candidates)) (retention_order policy candidates))
      = (map is_reclaimable A @ flags, amount)"
    using whole unfolding S_def [symmetric] managed_def [symmetric] expired .
  note fields = fields [OF this, folded S_def, folded managed_def]
  have del: "deletions plan = ?RA @ chosen flags B" and planned: "planned_reclaim_bytes plan = amount"
    and same: "p_managed_bytes plan = managed"
    unfolding plan fields using chosenA len by (simp_all add: S)
  have B_flags: "\<forall>(s, c) \<in> set (map (\<lambda>c. (False, c)) B). \<not> s" by auto
  have snd_B: "map snd (map (\<lambda>c. (False, c)) B) = B" by (simp add: comp_def)
  obtain n where n: "chosen flags B = take n ?RB" "n \<le> length ?RB"
    "amount = add_bytes 0 (?RA @ chosen flags B)"
    "n = length ?RB \<or> enough_removed policy managed free (?RA @ chosen flags B)"
    "\<forall>m < n. \<not> enough_removed policy managed free (?RA @ take m ?RB)"
    using select_for_quota_prefix [OF B_flags refl loop] unfolding snd_B by blast
  note n = n(1,2) n(3,4) [unfolded n(1)] n(5)
  let ?n = "length ?RA + n"
  have goal: "plan_goal policy now managed free (take ?n R) (drop ?n R)"
    using n(2,4) B by (auto simp: plan_goal_def R list_all_iff dest: in_set_dropD)
  have minimal: "\<not> plan_goal policy now managed free (take m R) (drop m R)" if m: "m < ?n" for m
  proof (cases "m < length ?RA")
    case True
    then have "?RA ! m \<in> set (drop m R)" by (simp add: R Cons_nth_drop_Suc [symmetric])
    moreover have "?RA ! m \<in> set A" using True by (meson filter_is_subset nth_mem subsetD)
    ultimately show ?thesis using A by (auto simp: plan_goal_def list_all_iff)
  next
    case False
    define k where "k = m - length ?RA"
    have k: "k < n" using False m by (simp add: k_def)
    moreover have "take m R = ?RA @ take k ?RB" "drop m R = drop k ?RB"
      using False by (simp_all add: R k_def)
    moreover have "drop k ?RB \<noteq> []" using k n(2) by simp
    ultimately show ?thesis using n(5) by (auto simp: plan_goal_def)
  qed
  show ?thesis
  proof (intro exI [of _ ?n] conjI allI impI)
    show "?n \<le> length R" using n(2) by (simp add: R)
    show "deletions plan = take ?n R" using del n(1) by (simp add: R)
    show "planned_reclaim_bytes plan = add_bytes 0 (take ?n R)" using planned n(3) by (simp add: R)
    show "plan_goal policy now (p_managed_bytes plan) free (take ?n R) (drop ?n R)"
      using goal same by simp
    show "\<not> plan_goal policy now (p_managed_bytes plan) free (take m R) (drop m R)" if "m < ?n" for m
      using minimal [OF that] same by simp
  qed
qed

subsection \<open>Properties of the plan\<close>

text \<open>C11: the planner's two selection passes compute exactly the declarative optimum: among the
  reclaimable artifacts, oldest first, it deletes the shortest run after which nothing that is
  kept is too old and either nothing reclaimable is left or the known quotas hold.\<close>

theorem plan_is_shortest_prefix:
  "deletions (plan_with_private_bytes policy now free candidates hidden) =
     take (LEAST n. plan_goal policy now
             (p_managed_bytes (plan_with_private_bytes policy now free candidates hidden)) free
             (take n (reclaimable_order policy candidates))
             (drop n (reclaimable_order policy candidates)))
       (reclaimable_order policy candidates)"
proof -
  let ?R = "reclaimable_order policy candidates"
  let ?goal = "\<lambda>n. plan_goal policy now
    (p_managed_bytes (plan_with_private_bytes policy now free candidates hidden)) free (take n ?R) (drop n ?R)"
  obtain n where del: "deletions (plan_with_private_bytes policy now free candidates hidden) = take n ?R"
    and goal: "?goal n" and least: "\<forall>m < n. \<not> ?goal m"
    using plan_selection [OF refl] by blast
  have "(LEAST n. ?goal n) = n"
    by (rule Least_equality) (use goal least not_less in blast)+
  then show ?thesis using del by simp
qed

lemma protect_latest_set:
  "c \<in> set (protect_latest cs) \<Longrightarrow> is_reclaimable c \<Longrightarrow> c \<in> set (butlast cs)"
  by (auto simp: protect_latest_def split: if_splits)

lemma plan_deletions:
  assumes "c \<in> set (deletions (plan_with_private_bytes policy now free candidates hidden))"
  shows "is_reclaimable c" and "c \<in> set candidates"
    and "keep_latest policy \<Longrightarrow> c \<in> set (butlast (sort_key candidate_key candidates))"
proof -
  have c: "c \<in> set (retention_order policy candidates)" "is_reclaimable c"
    using assms plan_selection [where policy = policy and now = now and free = free and candidates = candidates
        and private_size = hidden, OF refl]
    by (auto simp: reclaimable_order_def dest!: in_set_takeD)
  then show "is_reclaimable c" by simp
  show keep: "c \<in> set (butlast (sort_key candidate_key candidates))" if "keep_latest policy"
    using c that protect_latest_set by (simp add: retention_order_def Let_def)
  show "c \<in> set candidates"
    using c keep by (cases "keep_latest policy") (auto simp: retention_order_def Let_def dest: in_set_butlastD)
qed

text \<open>Recovery data is never planned for deletion: every planned deletion is one of the
  candidates, unchanged, with a reclaimable authorization; and if the newest is to be kept, a strictly
  newer candidate always remains.\<close>

lemma plan_spares_protected:
  assumes "c \<in> set (deletions (plan_with_private_bytes policy now free candidates hidden))"
    and "distinct (map candidate_key candidates)"
  shows "c \<in> set candidates \<and> classification (rc_authorization c) = Reclaimable
    \<and> (keep_latest policy \<longrightarrow> (\<exists>d \<in> set candidates. candidate_key c < candidate_key d))"
proof (intro conjI impI)
  note del = plan_deletions [OF assms(1)]
  show "c \<in> set candidates" "classification (rc_authorization c) = Reclaimable"
    using del(1,2) by (simp_all add: is_reclaimable_def)
  let ?cs = "sort_key candidate_key candidates"
  assume "keep_latest policy"
  then have c: "c \<in> set (butlast ?cs)" by (rule del(3))
  then have ne: "?cs \<noteq> []" by auto
  have split: "?cs = butlast ?cs @ [last ?cs]" using ne by simp
  have "sorted (map candidate_key ?cs)" by simp
  moreover have "distinct (map candidate_key ?cs)"
    using assms(2) by (simp add: distinct_map)
  ultimately have "sorted_wrt (<) (map candidate_key (butlast ?cs @ [last ?cs]))"
    using split by (metis strict_sorted_iff)
  then have "candidate_key c < candidate_key (last ?cs)"
    using c unfolding map_append sorted_wrt_append by auto
  moreover have "last ?cs \<in> set candidates" using last_in_set [OF ne] by simp
  ultimately show "\<exists>d \<in> set candidates. candidate_key c < candidate_key d" by blast
qed

lemma size_sum_order:
  "sum_list (map rc_file_size (retention_order policy candidates)) = sum_list (map rc_file_size candidates)"
proof -
  have "sum_list (map rc_file_size (sort_key candidate_key candidates)) = sum_list (map rc_file_size candidates)"
    by (metis mset_map mset_sort sum_mset_sum_list)
  then show ?thesis by (simp add: retention_order_def Let_def)
qed

text \<open>The byte accounting of a plan is exact as long as the sizes fit into 64 bits: the
  projections are the bytes that really remain, and the plan reports a blocked quota only if the
  quotas fail after the planned deletions and, unless the free space is unknown, nothing
  reclaimable would be left.\<close>

lemma plan_accounting_is_exact:
  fixes candidates
  assumes plan: "plan = plan_with_private_bytes policy now free candidates hidden"
    and fits: "hidden + sum_list (map rc_file_size candidates) \<le> u64_max"
  shows "p_managed_bytes plan = hidden + sum_list (map rc_file_size candidates)
    \<and> p_managed_bytes plan = p_protected_bytes plan + p_reclaimable_bytes plan
    \<and> planned_reclaim_bytes plan = sum_list (map rc_file_size (deletions plan))
    \<and> projected_managed_bytes plan + planned_reclaim_bytes plan = p_managed_bytes plan
    \<and> (quota_blocked plan \<and> (free = None \<longrightarrow> min_free_bytes policy = None)
         \<longrightarrow> deletions plan = reclaimable_order policy candidates)"
proof -
  let ?S = "retention_order policy candidates" and ?R = "reclaimable_order policy candidates"
  have S: "sum_list (map rc_file_size ?S) = sum_list (map rc_file_size candidates)" by (rule size_sum_order)
  have split: "sum_list (map rc_file_size ?R) + sum_list (map rc_file_size (filter (\<lambda>c. \<not> is_reclaimable c) ?S))
      = sum_list (map rc_file_size candidates)"
    unfolding reclaimable_order_def using sum_list_filter_partition S by metis
  obtain flags amount where loop: "select_for_quota policy (add_bytes hidden (sort_key candidate_key candidates)) free
      (add_bytes 0 (chosen (map (\<lambda>c. is_reclaimable c \<and> too_old policy now c) ?S) ?S))
      (zip (map (\<lambda>c. is_reclaimable c \<and> too_old policy now c) ?S) ?S) = (flags, amount)" by fastforce
  note fields = plan_fields [OF loop, folded plan]
  have "sum_list (map rc_file_size (sort_key candidate_key candidates)) = sum_list (map rc_file_size candidates)"
    by (metis mset_map mset_sort sum_mset_sum_list)
  then have managed: "p_managed_bytes plan = hidden + sum_list (map rc_file_size candidates)"
    using fits by (simp add: fields add_bytes_sum)
  have protected: "p_protected_bytes plan = hidden + sum_list (map rc_file_size (filter (\<lambda>c. \<not> is_reclaimable c) ?S))"
    using fits split by (simp add: fields add_bytes_sum)
  have reclaimable: "p_reclaimable_bytes plan = p_managed_bytes plan - p_protected_bytes plan"
    by (simp add: fields)
  obtain n where n: "deletions plan = take n ?R" "planned_reclaim_bytes plan = add_bytes 0 (take n ?R)"
    "plan_goal policy now (p_managed_bytes plan) free (take n ?R) (drop n ?R)"
    using plan_selection [OF plan] by blast
  have "sum_list (map rc_file_size (take n ?R)) \<le> sum_list (map rc_file_size ?R)"
    by (metis append_take_drop_id le_add1 map_append sum_list_append)
  then have planned: "planned_reclaim_bytes plan = sum_list (map rc_file_size (deletions plan))"
    "planned_reclaim_bytes plan \<le> sum_list (map rc_file_size ?R)"
    using fits split n by (simp_all add: add_bytes_sum)
  have projected: "projected_managed_bytes plan = p_managed_bytes plan - planned_reclaim_bytes plan"
    by (simp add: fields)
  have "deletions plan = ?R"
    if blocked: "quota_blocked plan" and known: "free = None \<longrightarrow> min_free_bytes policy = None"
  proof -
    have "\<not> quotas_satisfied policy (p_managed_bytes plan - planned_reclaim_bytes plan)
        (map_option (\<lambda>bytes. sat_add_u64 bytes (planned_reclaim_bytes plan)) free)"
      using blocked by (simp add: fields)
    then have "\<not> enough_removed policy (p_managed_bytes plan) free (take n ?R)"
      using known by (auto simp: enough_removed_def n(2) [symmetric] quotas_satisfied_def
          known_quotas_satisfied_def split: option.splits)
    then have "drop n ?R = []" using n(3) by (simp add: plan_goal_def)
    then show ?thesis by (simp add: n(1))
  qed
  then show ?thesis
    using managed protected reclaimable planned projected split by (intro conjI impI) linarith+
qed

definition demo_candidate :: "string \<Rightarrow> nat \<Rightarrow> nat \<Rightarrow> bool \<Rightarrow> retention_candidate" where
  "demo_candidate path at file_size free = \<lparr>rc_path = path, rc_captured_at = at, rc_file_size = file_size,
     rc_authorization = (if free then authorization_reclaimable (Some file_size) None
       else authorization_protected)\<rparr>"

definition demo_candidates :: "retention_candidate list" where
  "demo_candidates = [demo_candidate ''/c/b'' 20 5 True, demo_candidate ''/c/a'' 10 7 True,
     demo_candidate ''/c/d'' 40 3 True, demo_candidate ''/c/c'' 30 4 False]"

definition demo_policy :: retention_policy where
  "demo_policy = \<lparr>max_age_ms = Some 90, max_managed_bytes = Some 12, min_free_bytes = None, keep_latest = True\<rparr>"

lemma demo_plan:
  "deletions (plan_with_private_bytes demo_policy 100 None demo_candidates 2)
     = [demo_candidate ''/c/a'' 10 7 True, demo_candidate ''/c/b'' 20 5 True]"
  by code_simp

end
