(* ===== verification/Retention.thy ===== *)
theory Retention
  imports RetentionPlan FrameName
begin

text \<open>
  The retention worker (\<open>retention.rs\<close>): its bounded error report, the inventory of the
  capture directory and of the private video storage, the identity-checked deletion, the sweep
  that composes them with an authority, and the telemetry that suspends capture. The
  authority's contract is a locale; the sweep's safety is proved once inside it.
\<close>

subsection \<open>Bounded error reports\<close>

definition max_retention_error_messages :: nat where
  "max_retention_error_messages = 8"

definition max_retention_error_message_bytes :: nat where
  "max_retention_error_message_bytes = 1024"

text \<open>
  Text is the list of its UTF-8 bytes; \<open>is_char_boundary\<close> holds at both ends and before any
  byte that is not a continuation byte. The suffix is the three bytes of an ellipsis.
\<close>

definition is_char_boundary :: "string \<Rightarrow> nat \<Rightarrow> bool" where
  "is_char_boundary s i \<longleftrightarrow> i = 0 \<or> i = length s
     \<or> i < length s \<and> \<not> (128 \<le> (of_char (s ! i) :: nat) \<and> (of_char (s ! i) :: nat) < 192)"

definition ellipsis :: string where
  "ellipsis = map char_of [226 :: nat, 128, 166]"

fun boundary_before :: "string \<Rightarrow> nat \<Rightarrow> nat" where
  "boundary_before s 0 = 0"
| "boundary_before s (Suc n) = (if is_char_boundary s (Suc n) then Suc n else boundary_before s n)"

definition bounded_error_message :: "string \<Rightarrow> string" where
  "bounded_error_message message =
     (if length message \<le> max_retention_error_message_bytes then message
      else take (boundary_before message (max_retention_error_message_bytes - length ellipsis)) message
           @ ellipsis)"

record retention_errors =
  re_messages :: "string list"
  re_omitted :: nat

definition no_errors :: retention_errors where
  "no_errors = \<lparr>re_messages = [], re_omitted = 0\<rparr>"

definition errors_push :: "string \<Rightarrow> retention_errors \<Rightarrow> retention_errors" where
  "errors_push message errors =
     (if length (re_messages errors) = max_retention_error_messages
      then errors\<lparr>re_omitted := sat_add_u64 (re_omitted errors) 1\<rparr>
      else errors\<lparr>re_messages := re_messages errors @ [bounded_error_message message]\<rparr>)"

definition errors_is_empty :: "retention_errors \<Rightarrow> bool" where
  "errors_is_empty errors \<longleftrightarrow> re_messages errors = [] \<and> re_omitted errors = 0"

fun join_text :: "string \<Rightarrow> string list \<Rightarrow> string" where
  "join_text sep [] = []"
| "join_text sep [x] = x"
| "join_text sep (x # y # rest) = x @ sep @ join_text sep (y # rest)"

definition errors_finish :: "retention_errors \<Rightarrow> string option" where
  "errors_finish errors =
     (let messages = re_messages errors
            @ (if re_omitted errors \<noteq> 0
               then [decimal (re_omitted errors) @ '' additional retention error(s) omitted''] else [])
      in if messages = [] then None else Some (join_text ''; '' messages))"

subsection \<open>The volume\<close>

text \<open>
  What the operating system answers about the capture directory. The reparse bit exists on
  Windows only. \<open>v_mark\<close> answers the request to mark an opened file for deletion. The
  answers about free space may depend on what this process has deleted, which is recorded,
  oldest first, in \<open>v_deleted\<close>.
\<close>

datatype node_type = FileNode | DirectoryNode | LinkNode | OtherNode

record node_metadata =
  nm_type :: node_type
  nm_reparse :: bool
  nm_len :: nat

record disk_entry =
  en_name :: string
  en_text :: "string option"
  en_type :: "io_error + node_type"
  en_metadata :: "io_error + node_metadata"

record opened_artifact =
  oa_metadata :: "io_error + node_metadata"
  oa_contents :: "io_error + u8 list"

record volume =
  v_list :: "string \<Rightarrow> io_error + (io_error + disk_entry) list"
  v_lstat :: "string \<Rightarrow> io_error + node_metadata"
  v_open :: "string \<Rightarrow> io_error + opened_artifact"
  v_mark :: "string \<Rightarrow> io_error option"
  v_available :: "string list \<Rightarrow> string \<Rightarrow> io_error + nat"
  v_deleted :: "string list"

definition available_bytes :: "volume \<Rightarrow> string \<Rightarrow> io_error + nat" where
  "available_bytes vol directory = v_available vol (v_deleted vol) directory"

subsection \<open>Exact deletion\<close>

datatype exact_delete_outcome = ExactDeleted | ExactAlreadyAbsent

datatype deletion_outcome = Deleted | AlreadyAbsent | StillProtected

datatype retention_delete_error =
    UnsafeArtifact string
  | IdentityChanged string string
  | DeleteIo string string io_error

definition delete_error_text :: "(io_error \<Rightarrow> string) \<Rightarrow> retention_delete_error \<Rightarrow> string" where
  "delete_error_text io_text e =
     (case e of
        UnsafeArtifact path \<Rightarrow> ''refusing to delete a non-regular or reparse-point artifact: '' @ path
      | IdentityChanged path reason \<Rightarrow> ''artifact identity changed at '' @ path @ '': '' @ reason
      | DeleteIo operation path source \<Rightarrow>
          operation @ '' failed for '' @ path @ '': '' @ io_text source)"

text \<open>The checks made on the opened handle, up to marking it for deletion.\<close>

definition exact_delete_checks ::
  "(u8 list \<Rightarrow> u8 list) \<Rightarrow> retention_candidate \<Rightarrow> retention_authorization \<Rightarrow> opened_artifact
     \<Rightarrow> io_error option \<Rightarrow> retention_delete_error + unit" where
  "exact_delete_checks sha candidate expectation opened marked =
     (let path = rc_path candidate in
      rbind (case oa_metadata opened of
           Inl e \<Rightarrow> Inl (DeleteIo ''read opened artifact metadata'' path e)
         | Inr metadata \<Rightarrow> Inr metadata) (\<lambda>metadata.
      rbind (require (nm_type metadata = FileNode \<and> \<not> nm_reparse metadata)
               (UnsafeArtifact path)) (\<lambda>_.
      rbind (require (nm_len metadata = rc_file_size candidate)
               (IdentityChanged path (''inventory size was '' @ decimal (rc_file_size candidate)
                  @ '' bytes but the opened file is '' @ decimal (nm_len metadata) @ '' bytes''))) (\<lambda>_.
      rbind (case expected_file_size expectation of None \<Rightarrow> Inr ()
         | Some expected_size \<Rightarrow> require (nm_len metadata = expected_size)
               (IdentityChanged path (''authorized size was '' @ decimal expected_size
                  @ '' bytes but the opened file is '' @ decimal (nm_len metadata) @ '' bytes''))) (\<lambda>_.
      rbind (case expected_sha256 expectation of None \<Rightarrow> Inr ()
         | Some digest \<Rightarrow>
             (case oa_contents opened of
                Inl e \<Rightarrow> Inl (DeleteIo ''hash opened artifact'' path e)
              | Inr contents \<Rightarrow> require (sha contents = digest)
                  (IdentityChanged path ''SHA-256 digest no longer matches the authorized artifact''))) (\<lambda>_.
      (case marked of
         Some e \<Rightarrow> Inl (DeleteIo ''mark opened artifact for deletion'' path e)
       | None \<Rightarrow> Inr ())))))))"

definition system_delete_exact ::
  "(u8 list \<Rightarrow> u8 list) \<Rightarrow> retention_candidate \<Rightarrow> retention_authorization \<Rightarrow> volume
     \<Rightarrow> (retention_delete_error + exact_delete_outcome) \<times> volume" where
  "system_delete_exact sha candidate expectation vol =
     (case v_open vol (rc_path candidate) of
        Inl NotFound \<Rightarrow> (Inr ExactAlreadyAbsent, vol)
      | Inl e \<Rightarrow> (Inl (DeleteIo ''open artifact without following reparse points'' (rc_path candidate) e), vol)
      | Inr opened \<Rightarrow>
          (case exact_delete_checks sha candidate expectation opened (v_mark vol (rc_path candidate)) of
             Inl e \<Rightarrow> (Inl e, vol)
           | Inr _ \<Rightarrow> (Inr ExactDeleted,
               vol\<lparr>v_open := (v_open vol)(rc_path candidate := Inl NotFound),
                   v_deleted := v_deleted vol @ [rc_path candidate]\<rparr>)))"

subsection \<open>Inventory\<close>

datatype sweep_error =
    SweepIo string string io_error
  | ClassificationCount nat nat
  | Authority string
  | ClockBeforeUnixEpoch
  | ClockOutOfRange

definition sweep_error_text :: "(io_error \<Rightarrow> string) \<Rightarrow> sweep_error \<Rightarrow> string" where
  "sweep_error_text io_text e =
     (case e of
        SweepIo operation path source \<Rightarrow> operation @ '' failed for '' @ path @ '': '' @ io_text source
      | ClassificationCount expected actual \<Rightarrow> ''retention authority returned '' @ decimal actual
          @ '' classifications for an inventory of '' @ decimal expected @ '' artifacts''
      | Authority message \<Rightarrow> ''retention authority failed: '' @ message
      | ClockBeforeUnixEpoch \<Rightarrow> ''system clock is before the Unix epoch''
      | ClockOutOfRange \<Rightarrow> ''system clock is outside the supported millisecond range'')"

fun inventory_entries ::
  "string \<Rightarrow> (string \<Rightarrow> nat option) \<Rightarrow> (io_error + disk_entry) list
     \<Rightarrow> sweep_error + managed_artifact list" where
  "inventory_entries directory parse [] = Inr []"
| "inventory_entries directory parse (Inl e # rest) =
     Inl (SweepIo ''read capture directory entry'' directory e)"
| "inventory_entries directory parse (Inr entry # rest) =
     (case Option.bind (en_text entry) parse of
        None \<Rightarrow> inventory_entries directory parse rest
      | Some captured_at \<Rightarrow>
          (case en_type entry of
             Inl NotFound \<Rightarrow> inventory_entries directory parse rest
           | Inl e \<Rightarrow> Inl (SweepIo ''read capture artifact type'' (path_join directory (en_name entry)) e)
           | Inr kind \<Rightarrow>
               if kind \<noteq> FileNode then inventory_entries directory parse rest
               else (case en_metadata entry of
                  Inl NotFound \<Rightarrow> inventory_entries directory parse rest
                | Inl e \<Rightarrow> Inl (SweepIo ''read capture artifact metadata''
                                 (path_join directory (en_name entry)) e)
                | Inr metadata \<Rightarrow>
                    if nm_reparse metadata then inventory_entries directory parse rest
                    else rbind (inventory_entries directory parse rest) (\<lambda>artifacts.
                      Inr (\<lparr>ma_path = path_join directory (en_name entry),
                            ma_captured_at = captured_at, ma_file_size = nm_len metadata\<rparr> # artifacts)))))"

definition inventory_capture_directory ::
  "volume \<Rightarrow> string \<Rightarrow> (string \<Rightarrow> nat option) \<Rightarrow> sweep_error + managed_artifact list" where
  "inventory_capture_directory vol directory parse =
     (case v_list vol directory of
        Inl e \<Rightarrow> Inl (SweepIo ''read capture directory'' directory e)
      | Inr entries \<Rightarrow>
          rbind (inventory_entries directory parse entries) (\<lambda>inventory.
            Inr (sort_key (\<lambda>artifact. path_components (ma_path artifact)) inventory)))"

text \<open>
  The private video storage: \<open>remaining\<close> bounds the number of nodes and \<open>depth\<close> the nesting.
  \<open>private_count\<close> is the nested function \<open>count\<close>, \<open>private_children\<close> its loop.
\<close>

datatype private_error = PrivateIo io_error | ExceedsBounds | LinkedStorage | InvalidStorage

definition private_node_budget :: nat where
  "private_node_budget = 100000"

function private_count :: "volume \<Rightarrow> string \<Rightarrow> nat \<Rightarrow> nat \<Rightarrow> private_error + nat \<times> nat"
  and private_children ::
    "volume \<Rightarrow> string \<Rightarrow> nat \<Rightarrow> nat \<Rightarrow> nat \<Rightarrow> (io_error + disk_entry) list \<Rightarrow> private_error + nat \<times> nat" where
  "private_count vol path depth remaining =
     (if 4 < depth \<or> remaining = 0 then Inl ExceedsBounds
      else let remaining = remaining - 1 in
      case v_lstat vol path of
        Inl NotFound \<Rightarrow> Inr (0, remaining)
      | Inl e \<Rightarrow> Inl (PrivateIo e)
      | Inr metadata \<Rightarrow>
          if nm_type metadata = LinkNode \<or> nm_reparse metadata then Inl LinkedStorage
          else if nm_type metadata = FileNode then Inr (nm_len metadata, remaining)
          else if nm_type metadata \<noteq> DirectoryNode then Inl InvalidStorage
          else (case v_list vol path of
              Inl NotFound \<Rightarrow> Inr (0, remaining)
            | Inl e \<Rightarrow> Inl (PrivateIo e)
            | Inr entries \<Rightarrow> private_children vol path (depth + 1) remaining 0 entries))"
| "private_children vol path depth remaining bytes [] = Inr (bytes, remaining)"
| "private_children vol path depth remaining bytes (Inl e # rest) = Inl (PrivateIo e)"
| "private_children vol path depth remaining bytes (Inr entry # rest) =
     rbind (private_count vol (path_join path (en_name entry)) depth remaining) (\<lambda>(n, remaining).
       private_children vol path depth remaining (sat_add_u64 bytes n) rest)"
  by pat_completeness auto
termination
  by (relation "measures [\<lambda>x. case x of Inl (_, _, depth, _) \<Rightarrow> 6 - depth
        | Inr (_, _, depth, _, _, _) \<Rightarrow> 6 - depth,
      \<lambda>x. case x of Inl _ \<Rightarrow> 0 | Inr (_, _, _, _, _, entries) \<Rightarrow> Suc (length entries)]")
    auto

definition private_name :: "string \<Rightarrow> bool" where
  "private_name name \<longleftrightarrow>
     name = ''.autopiercam-timelapse''
     \<or> starts_with name ''.autopiercam-video-''
     \<or> starts_with name ''.frame-'' \<and> ends_with name ''.partial''"

fun private_roots ::
  "volume \<Rightarrow> string \<Rightarrow> nat \<Rightarrow> nat \<Rightarrow> (io_error + disk_entry) list \<Rightarrow> private_error + nat" where
  "private_roots vol directory remaining bytes [] = Inr bytes"
| "private_roots vol directory remaining bytes (Inl e # rest) = Inl (PrivateIo e)"
| "private_roots vol directory remaining bytes (Inr entry # rest) =
     (if private_name (en_name entry)
      then rbind (private_count vol (path_join directory (en_name entry)) 0 remaining) (\<lambda>(n, remaining).
             private_roots vol directory remaining (sat_add_u64 bytes n) rest)
      else private_roots vol directory remaining bytes rest)"

definition private_bytes :: "volume \<Rightarrow> string \<Rightarrow> private_error + nat" where
  "private_bytes vol directory =
     (case v_list vol directory of
        Inl e \<Rightarrow> Inl (PrivateIo e)
      | Inr entries \<Rightarrow> private_roots vol directory private_node_budget 0 entries)"

definition private_error_text :: "(io_error \<Rightarrow> string) \<Rightarrow> private_error \<Rightarrow> string" where
  "private_error_text io_text e =
     (case e of
        PrivateIo source \<Rightarrow> io_text source
      | ExceedsBounds \<Rightarrow> ''private video inventory exceeds bounds''
      | LinkedStorage \<Rightarrow> ''linked private video storage''
      | InvalidStorage \<Rightarrow> ''invalid private video storage'')"

subsection \<open>Telemetry\<close>

datatype retention_pressure = PressureOk | CleanupNeeded | Blocked

record retention_telemetry =
  t_swept_at :: nat
  t_managed_bytes :: nat
  t_protected_bytes :: nat
  t_reclaimable_bytes :: nat
  t_free_bytes :: "nat option"
  t_reclaimed_file_count :: nat
  t_reclaimed_bytes :: nat
  t_blocked_pressure :: bool
  t_pressure :: retention_pressure
  t_error :: "string option"

definition telemetry_failed :: "nat \<Rightarrow> retention_policy \<Rightarrow> nat option \<Rightarrow> string \<Rightarrow> retention_telemetry" where
  "telemetry_failed swept_at policy free_bytes message =
     \<lparr>t_swept_at = swept_at, t_managed_bytes = 0, t_protected_bytes = 0, t_reclaimable_bytes = 0,
      t_free_bytes = free_bytes, t_reclaimed_file_count = 0, t_reclaimed_bytes = 0,
      t_blocked_pressure = has_byte_quota policy,
      t_pressure = (if has_byte_quota policy then Blocked else CleanupNeeded),
      t_error = Some (bounded_error_message message)\<rparr>"

subsection \<open>Authorities\<close>

text \<open>
  A \<open>RetentionAuthority\<close> with its private state \<open>'a\<close>. \<open>delete_if_still_authorized\<close> receives the
  platform; here it acts on the volume.
\<close>

record 'a retention_authority =
  classify_inventory :: "managed_artifact list \<Rightarrow> 'a \<Rightarrow> (string + retention_authorization list) \<times> 'a"
  delete_if_still_authorized ::
    "retention_candidate \<Rightarrow> 'a \<Rightarrow> volume \<Rightarrow> (string + deletion_outcome) \<times> 'a \<times> volume"

definition protect_all_authority :: "unit retention_authority" where
  "protect_all_authority =
     \<lparr>classify_inventory = (\<lambda>inventory a.
        (Inr (replicate (length inventory) authorization_protected), a)),
      delete_if_still_authorized = (\<lambda>candidate a vol. (Inr StillProtected, a, vol))\<rparr>"

fun deletion_outcome_of :: "exact_delete_outcome \<Rightarrow> deletion_outcome" where
  "deletion_outcome_of ExactDeleted = Deleted"
| "deletion_outcome_of ExactAlreadyAbsent = AlreadyAbsent"

definition delete_through_platform ::
  "(u8 list \<Rightarrow> u8 list) \<Rightarrow> (io_error \<Rightarrow> string) \<Rightarrow> retention_candidate \<Rightarrow> volume
     \<Rightarrow> (string + deletion_outcome) \<times> volume" where
  "delete_through_platform sha io_text candidate vol =
     (case system_delete_exact sha candidate (rc_authorization candidate) vol of
        (Inl e, vol) \<Rightarrow> (Inl (delete_error_text io_text e), vol)
      | (Inr outcome, vol) \<Rightarrow> (Inr (deletion_outcome_of outcome), vol))"

definition local_only_authority ::
  "(u8 list \<Rightarrow> u8 list) \<Rightarrow> (io_error \<Rightarrow> string) \<Rightarrow> unit retention_authority" where
  "local_only_authority sha io_text =
     \<lparr>classify_inventory = (\<lambda>inventory a.
        (Inr (map (\<lambda>artifact. authorization_reclaimable (Some (ma_file_size artifact)) None) inventory), a)),
      delete_if_still_authorized = (\<lambda>candidate a vol.
        (case delete_through_platform sha io_text candidate vol of (r, vol) \<Rightarrow> (r, a, vol)))\<rparr>"

subsection \<open>The sweep\<close>

definition sweep_candidate ::
  "string list \<Rightarrow> managed_artifact \<Rightarrow> retention_authorization \<Rightarrow> retention_errors
     \<Rightarrow> retention_candidate \<times> retention_errors" where
  "sweep_candidate scheduled artifact authorization errors =
     (let authorization = (if list_ex (path_eq (ma_path artifact)) scheduled
            then authorization_protected else authorization);
          changed = (classification authorization = Reclaimable
            \<and> (case expected_file_size authorization of None \<Rightarrow> False
                | Some expected \<Rightarrow> expected \<noteq> ma_file_size artifact))
      in (\<lparr>rc_path = ma_path artifact, rc_captured_at = ma_captured_at artifact,
           rc_file_size = ma_file_size artifact,
           rc_authorization = (if changed then authorization_protected else authorization)\<rparr>,
          if changed then errors_push (''protecting '' @ ma_path artifact
            @ '' because its inventory size no longer matches the authorized size'') errors
          else errors))"

fun sweep_candidates ::
  "string list \<Rightarrow> (managed_artifact \<times> retention_authorization) list \<Rightarrow> retention_errors
     \<Rightarrow> retention_candidate list \<times> retention_errors" where
  "sweep_candidates scheduled [] errors = ([], errors)"
| "sweep_candidates scheduled ((artifact, authorization) # rest) errors =
     (let (candidate, errors) = sweep_candidate scheduled artifact authorization errors;
          (candidates, errors) = sweep_candidates scheduled rest errors
      in (candidate # candidates, errors))"

text \<open>The running totals of the deletion loop.\<close>

record sweep_totals =
  st_managed :: nat
  st_protected :: nat
  st_reclaimable :: nat
  st_reclaimed_files :: nat
  st_reclaimed :: nat
  st_unresolved :: nat
  st_errors :: retention_errors

definition count_deletion :: "retention_candidate \<Rightarrow> string + deletion_outcome \<Rightarrow> sweep_totals \<Rightarrow> sweep_totals" where
  "count_deletion candidate result totals =
     (let n = rc_file_size candidate in
      case result of
        Inr Deleted \<Rightarrow> totals\<lparr>st_managed := st_managed totals - n,
          st_reclaimable := st_reclaimable totals - n,
          st_reclaimed_files := sat_add_u64 (st_reclaimed_files totals) 1,
          st_reclaimed := sat_add_u64 (st_reclaimed totals) n\<rparr>
      | Inr AlreadyAbsent \<Rightarrow> totals\<lparr>st_managed := st_managed totals - n,
          st_reclaimable := st_reclaimable totals - n\<rparr>
      | Inr StillProtected \<Rightarrow> totals\<lparr>st_protected := sat_add_u64 (st_protected totals) n,
          st_reclaimable := st_reclaimable totals - n, st_unresolved := st_unresolved totals + 1\<rparr>
      | Inl message \<Rightarrow> totals\<lparr>st_unresolved := st_unresolved totals + 1,
          st_errors := errors_push (''retaining '' @ rc_path candidate
            @ '' after final authorization/deletion failed: '' @ message) (st_errors totals)\<rparr>)"

fun sweep_deletions ::
  "'a retention_authority \<Rightarrow> retention_candidate list \<Rightarrow> 'a \<Rightarrow> volume \<Rightarrow> sweep_totals
     \<Rightarrow> sweep_totals \<times> 'a \<times> volume" where
  "sweep_deletions authority [] a vol totals = (totals, a, vol)"
| "sweep_deletions authority (candidate # rest) a vol totals =
     (let (result, a, vol) = delete_if_still_authorized authority candidate a vol
      in sweep_deletions authority rest a vol (count_deletion candidate result totals))"

text \<open>Everything up to the plan; an error ends the sweep with failed telemetry.\<close>

definition sweep_plan ::
  "retention_policy \<Rightarrow> string \<Rightarrow> (string \<Rightarrow> nat option) \<Rightarrow> 'a retention_authority
     \<Rightarrow> (nat \<Rightarrow> string + string list) \<Rightarrow> (io_error \<Rightarrow> string) \<Rightarrow> nat \<Rightarrow> 'a \<Rightarrow> volume
     \<Rightarrow> ((nat option \<times> string) + (nat option \<times> retention_plan \<times> retention_errors)) \<times> 'a" where
  "sweep_plan policy directory parse authority protected_outputs io_text now a vol =
     (let (free, free_error) = (case available_bytes vol directory of
            Inr bytes \<Rightarrow> (Some bytes, None)
          | Inl e \<Rightarrow> (None, if needs_free_space policy
              then Some (''querying free space for '' @ directory @ '' failed: '' @ io_text e) else None))
      in case inventory_capture_directory vol directory parse of
        Inl e \<Rightarrow> (Inl (free, sweep_error_text io_text e), a)
      | Inr inventory \<Rightarrow>
          (case classify_inventory authority inventory a of
             (Inl e, a) \<Rightarrow> (Inl (free, sweep_error_text io_text (Authority e)), a)
           | (Inr authorizations, a) \<Rightarrow>
               if length authorizations \<noteq> length inventory
               then (Inl (free, sweep_error_text io_text
                       (ClassificationCount (length inventory) (length authorizations))), a)
               else (let errors = (case free_error of None \<Rightarrow> no_errors
                       | Some e \<Rightarrow> errors_push e no_errors)
                 in case protected_outputs now of
                      Inl e \<Rightarrow> (Inl (free, e), a)
                    | Inr scheduled \<Rightarrow>
                        (let (candidates, errors) =
                               sweep_candidates scheduled (zip inventory authorizations) errors
                         in case private_bytes vol directory of
                              Inl e \<Rightarrow> (Inl (free, ''counting private video storage failed: ''
                                         @ private_error_text io_text e), a)
                            | Inr hidden \<Rightarrow>
                                (Inr (free, plan_with_private_bytes policy now free candidates hidden,
                                   errors), a)))))"

definition sweep_retention ::
  "retention_policy \<Rightarrow> string \<Rightarrow> (string \<Rightarrow> nat option) \<Rightarrow> 'a retention_authority
     \<Rightarrow> (nat \<Rightarrow> string + string list) \<Rightarrow> (io_error \<Rightarrow> string) \<Rightarrow> sweep_error + nat \<Rightarrow> 'a \<Rightarrow> volume
     \<Rightarrow> retention_telemetry \<times> 'a \<times> volume" where
  "sweep_retention policy directory parse authority protected_outputs io_text clock a vol =
     (case clock of
        Inl e \<Rightarrow> (telemetry_failed 0 policy None (sweep_error_text io_text e), a, vol)
      | Inr now \<Rightarrow>
          (case sweep_plan policy directory parse authority protected_outputs io_text now a vol of
             (Inl (free, e), a) \<Rightarrow> (telemetry_failed now policy free e, a, vol)
           | (Inr (free, plan, errors), a) \<Rightarrow>
               (let (totals, a, vol) = sweep_deletions authority (deletions plan) a vol
                      \<lparr>st_managed = p_managed_bytes plan, st_protected = p_protected_bytes plan,
                       st_reclaimable = p_reclaimable_bytes plan, st_reclaimed_files = 0,
                       st_reclaimed = 0, st_unresolved = 0, st_errors = errors\<rparr>;
                    (free_bytes, errors) = (case available_bytes vol directory of
                        Inr bytes \<Rightarrow> (Some bytes, st_errors totals)
                      | Inl e \<Rightarrow>
                          if needs_free_space policy
                          then (None, errors_push (''verifying free space for '' @ directory
                                  @ '' after retention failed: '' @ io_text e) (st_errors totals))
                          else (map_option (\<lambda>bytes. sat_add_u64 bytes (st_reclaimed totals)) free,
                                st_errors totals));
                    blocked = (\<not> quotas_satisfied policy (st_managed totals) free_bytes)
                in (\<lparr>t_swept_at = now, t_managed_bytes = st_managed totals,
                     t_protected_bytes = st_protected totals,
                     t_reclaimable_bytes = st_reclaimable totals, t_free_bytes = free_bytes,
                     t_reclaimed_file_count = st_reclaimed_files totals,
                     t_reclaimed_bytes = st_reclaimed totals, t_blocked_pressure = blocked,
                     t_pressure = (if blocked then Blocked
                       else if st_unresolved totals \<noteq> 0
                            \<or> deletions plan = [] \<and> \<not> errors_is_empty errors then CleanupNeeded
                       else PressureOk),
                     t_error = errors_finish errors\<rparr>, a, vol))))"

subsection \<open>Admission of new video data and capture suspension\<close>

datatype video_space_error =
    RetentionStopped
  | VideoInventory sweep_error
  | VideoPrivate private_error
  | VideoProbe io_error
  | VideoStoragePressure

text \<open>
  The handles that the camera side shares with the worker: its stop flag, the flag that
  suspends capture, and the one-slot wake channel, whose receiver is gone once the worker's
  thread has ended.
\<close>

record retention_sink =
  rs_stop :: bool
  rs_suspended :: bool
  rs_queued :: nat
  rs_connected :: bool

datatype wake_result = WakeQueued | WakeCoalesced | WakeStopped

definition retention_wake_capacity :: nat where
  "retention_wake_capacity = 1"

definition capture_suspended :: "retention_sink \<Rightarrow> bool" where
  "capture_suspended sink \<longleftrightarrow> rs_suspended sink \<or> rs_stop sink"

definition try_wake :: "retention_sink \<Rightarrow> wake_result \<times> retention_sink" where
  "try_wake sink =
     (if rs_stop sink then (WakeStopped, sink)
      else if \<not> rs_connected sink then (WakeStopped, sink\<lparr>rs_stop := True\<rparr>)
      else if rs_queued sink < retention_wake_capacity
      then (WakeQueued, sink\<lparr>rs_queued := rs_queued sink + 1\<rparr>)
      else (WakeCoalesced, sink))"

definition video_space_check ::
  "retention_policy \<Rightarrow> string \<Rightarrow> (string \<Rightarrow> nat option) \<Rightarrow> volume \<Rightarrow> bool \<Rightarrow> nat
     \<Rightarrow> video_space_error + unit" where
  "video_space_check policy directory parse vol stopped additional =
     rbind (require (\<not> stopped) RetentionStopped) (\<lambda>_.
     if \<not> has_byte_quota policy then Inr ()
     else
       rbind (case inventory_capture_directory vol directory parse of
                Inl e \<Rightarrow> Inl (VideoInventory e) | Inr inventory \<Rightarrow> Inr inventory) (\<lambda>inventory.
       rbind (case private_bytes vol directory of
                Inl e \<Rightarrow> Inl (VideoPrivate e) | Inr hidden \<Rightarrow> Inr hidden) (\<lambda>hidden.
       let bytes = foldl (\<lambda>t artifact. sat_add_u64 t (ma_file_size artifact)) hidden inventory in
       rbind (if needs_free_space policy
              then (case available_bytes vol directory of Inl e \<Rightarrow> Inl (VideoProbe e) | Inr n \<Rightarrow> Inr (Some n))
              else Inr None) (\<lambda>free.
         require (quotas_satisfied policy (sat_add_u64 bytes additional)
                    (map_option (\<lambda>bytes. bytes - additional) free)) VideoStoragePressure))))"

definition check_video_space ::
  "retention_policy \<Rightarrow> string \<Rightarrow> (string \<Rightarrow> nat option) \<Rightarrow> volume \<Rightarrow> nat \<Rightarrow> retention_sink
     \<Rightarrow> (video_space_error + unit) \<times> retention_sink" where
  "check_video_space policy directory parse vol additional sink =
     (case video_space_check policy directory parse vol (rs_stop sink) additional of
        Inl e \<Rightarrow> (Inl e, snd (try_wake sink))
      | Inr u \<Rightarrow> (Inr u, sink))"

definition publish_retention_telemetry ::
  "retention_telemetry \<Rightarrow> retention_sink \<Rightarrow> retention_sink" where
  "publish_retention_telemetry telemetry sink = sink\<lparr>rs_suspended := t_blocked_pressure telemetry\<rparr>"

end
