(* ===== verification/RetentionSweep.thy ===== *)
theory RetentionSweep
  imports Retention
begin

text \<open>
  The safety of the retention sweep: the contract of an authority as a locale, what a sweep can
  remove under any authority that honours it, the identity check of a deletion, and the two
  authorities of \<open>retention.rs\<close> as interpretations.
\<close>

subsection \<open>The contract of an authority\<close>

text \<open>
  What a sweep relies on: an authority keeps its own invariant, and a file disappears only in a
  \<open>Deleted\<close> outcome for a candidate that the authority granted.
\<close>

locale retention_interface =
  fixes authority :: "'a retention_authority"
    and auth_inv :: "'a \<Rightarrow> bool"
    and granted :: "retention_candidate \<Rightarrow> bool"
  assumes classify_keeps:
      "auth_inv a \<Longrightarrow> classify_inventory authority inventory a = (r, a') \<Longrightarrow> auth_inv a'"
    and delete_keeps:
      "auth_inv a \<Longrightarrow> delete_if_still_authorized authority c a vol = (d, a', vol') \<Longrightarrow> auth_inv a'"
    and delete_grants:
      "auth_inv a \<Longrightarrow> delete_if_still_authorized authority c a vol = (d, a', vol') \<Longrightarrow>
         (d = Inr Deleted \<and> granted c \<and> v_deleted vol' = v_deleted vol @ [rc_path c])
         \<or> (d \<noteq> Inr Deleted \<and> v_deleted vol' = v_deleted vol)"
begin

lemma sweep_deletions_granted:
  assumes "auth_inv a" and "sweep_deletions authority cs a vol totals = (totals', a', vol')"
    and "st_reclaimed_files totals \<le> u64_max"
  shows "\<exists>ds. set ds \<subseteq> set cs \<and> (\<forall>c \<in> set ds. granted c)
    \<and> v_deleted vol' = v_deleted vol @ map rc_path ds
    \<and> st_reclaimed_files totals' = min (st_reclaimed_files totals + length ds) u64_max"
  using assms
proof (induction cs arbitrary: a vol totals)
  case Nil
  then show ?case by (auto intro: exI [of _ "[]"])
next
  case (Cons c cs)
  obtain d b v where step: "delete_if_still_authorized authority c a vol = (d, b, v)"
    using prod_cases3 by blast
  define counted where "counted = count_deletion c d totals"
  have rest: "sweep_deletions authority cs b v counted = (totals', a', vol')"
    using Cons.prems(2) by (simp add: step counted_def)
  have b: "auth_inv b" by (rule delete_keeps [OF Cons.prems(1) step])
  from delete_grants [OF Cons.prems(1) step] show ?case
  proof
    assume del: "d = Inr Deleted \<and> granted c \<and> v_deleted v = v_deleted vol @ [rc_path c]"
    then have "st_reclaimed_files counted = min (st_reclaimed_files totals + 1) u64_max"
      using Cons.prems(3) by (simp add: counted_def count_deletion_def sat_add_u64_def Let_def)
    with Cons.IH [OF b rest] Cons.prems(3) obtain ds where
      "set ds \<subseteq> set cs \<and> (\<forall>c \<in> set ds. granted c) \<and> v_deleted vol' = v_deleted v @ map rc_path ds
        \<and> st_reclaimed_files totals' = min (min (st_reclaimed_files totals + 1) u64_max + length ds) u64_max" by auto
    then show ?thesis using del by (intro exI [of _ "c # ds"]) (auto simp: min_def)
  next
    assume keep: "d \<noteq> Inr Deleted \<and> v_deleted v = v_deleted vol"
    then have "st_reclaimed_files counted = st_reclaimed_files totals"
      by (auto simp: counted_def count_deletion_def Let_def split: sum.splits deletion_outcome.splits)
    with Cons.IH [OF b rest] Cons.prems(3) keep show ?thesis by fastforce
  qed
qed

end

subsection \<open>The candidates of a sweep\<close>

lemma sweep_candidates_sound:
  assumes "sweep_candidates scheduled pairs errors = (candidates, errors')"
    and "c \<in> set candidates" and "is_reclaimable c"
  shows "\<exists>(artifact, authorization) \<in> set pairs.
    rc_path c = ma_path artifact \<and> rc_captured_at c = ma_captured_at artifact
    \<and> rc_file_size c = ma_file_size artifact \<and> rc_authorization c = authorization
    \<and> \<not> list_ex (path_eq (ma_path artifact)) scheduled
    \<and> expected_file_size authorization \<in> {None, Some (ma_file_size artifact)}"
  using assms
proof (induction pairs arbitrary: errors candidates errors')
  case (Cons pair pairs)
  obtain artifact authorization where pair: "pair = (artifact, authorization)" by (cases pair)
  obtain first e1 where first: "sweep_candidate scheduled artifact authorization errors = (first, e1)"
    by fastforce
  obtain others e2 where others: "sweep_candidates scheduled pairs e1 = (others, e2)" by fastforce
  from Cons.prems(1) have "candidates = first # others" by (simp add: pair first others)
  with Cons.prems(2) consider "c = first" | "c \<in> set others" by auto
  then show ?case
  proof cases
    case 1
    then have "c = fst (sweep_candidate scheduled artifact authorization errors)" by (simp add: first)
    then have "rc_path c = ma_path artifact \<and> rc_captured_at c = ma_captured_at artifact
      \<and> rc_file_size c = ma_file_size artifact \<and> rc_authorization c = authorization
      \<and> \<not> list_ex (path_eq (ma_path artifact)) scheduled
      \<and> expected_file_size authorization \<in> {None, Some (ma_file_size artifact)}"
      using Cons.prems(3)
      by (cases "expected_file_size authorization")
        (auto simp: sweep_candidate_def Let_def is_reclaimable_def authorization_protected_def
          split: if_splits)
    then show ?thesis by (auto simp: pair)
  next
    case 2
    from Cons.IH [OF others 2 Cons.prems(3)] show ?thesis by auto
  qed
qed simp

lemma sweep_candidates_paths:
  "sweep_candidates scheduled pairs errors = (candidates, errors') \<Longrightarrow>
     map (\<lambda>c. (rc_captured_at c, rc_path c)) candidates = map (\<lambda>(m, _). (ma_captured_at m, ma_path m)) pairs"
proof (induction pairs arbitrary: errors candidates errors')
  case (Cons pair pairs)
  then show ?case
    by (cases pair) (auto simp: sweep_candidate_def Let_def split: prod.splits)
qed simp

text \<open>What a successful planning phase has seen.\<close>

lemma sweep_plan_Inr:
  assumes "sweep_plan policy directory parse authority protected_outputs io_text now a vol
      = (Inr (free, plan, errors), a')"
  obtains inventory authorizations scheduled candidates hidden e0 where
    "inventory_capture_directory vol directory parse = Inr inventory"
    "classify_inventory authority inventory a = (Inr authorizations, a')"
    "length authorizations = length inventory" "protected_outputs now = Inr scheduled"
    "sweep_candidates scheduled (zip inventory authorizations) e0 = (candidates, errors)"
    "private_bytes vol directory = Inr hidden"
    "plan = plan_with_private_bytes policy now free candidates hidden"
  using assms unfolding sweep_plan_def Let_def
  by (auto split: prod.splits sum.splits if_splits)

lemma sweep_plan_state:
  assumes "sweep_plan policy directory parse authority protected_outputs io_text now a vol = (r, a')"
  obtains inventory c where "classify_inventory authority inventory a = (c, a')" | "a' = a"
  using assms unfolding sweep_plan_def Let_def
  by (auto split: prod.splits sum.splits if_splits)

text \<open>What a sweep removes, under any authority that honours the contract.\<close>

definition removable ::
  "string list \<Rightarrow> managed_artifact list \<Rightarrow> retention_authorization list \<Rightarrow> retention_candidate \<Rightarrow> bool" where
  "removable scheduled inventory authorizations c \<longleftrightarrow>
     (\<exists>(artifact, authorization) \<in> set (zip inventory authorizations).
        rc_path c = ma_path artifact \<and> rc_file_size c = ma_file_size artifact
        \<and> rc_authorization c = authorization \<and> classification authorization = Reclaimable
        \<and> \<not> list_ex (path_eq (ma_path artifact)) scheduled)"

context retention_interface
begin

lemma sweep_plan_keeps:
  assumes "auth_inv a"
    and "sweep_plan policy directory parse authority protected_outputs io_text now a vol = (r, a')"
  shows "auth_inv a'"
  using sweep_plan_state [OF assms(2)] assms(1) classify_keeps by metis

lemma sweep_granted:
  assumes inv: "auth_inv a"
    and sweep: "sweep_retention policy directory parse authority protected_outputs io_text clock a vol
      = (telemetry, a', vol')"
  shows "\<exists>ds. v_deleted vol' = v_deleted vol @ map rc_path ds
    \<and> t_reclaimed_file_count telemetry = min (length ds) u64_max
    \<and> (\<forall>c \<in> set ds. granted c)
    \<and> (ds \<noteq> [] \<longrightarrow> (\<exists>now inventory authorizations a1 scheduled.
         clock = Inr now \<and> inventory_capture_directory vol directory parse = Inr inventory
         \<and> classify_inventory authority inventory a = (Inr authorizations, a1)
         \<and> protected_outputs now = Inr scheduled
         \<and> (\<forall>c \<in> set ds. removable scheduled inventory authorizations c)))"
proof (cases clock)
  case (Inl e)
  then show ?thesis using sweep
    by (intro exI [of _ "[]"]) (auto simp: sweep_retention_def telemetry_failed_def)
next
  case (Inr now)
  obtain r a1 where plan_run:
    "sweep_plan policy directory parse authority protected_outputs io_text now a vol = (r, a1)"
    by fastforce
  have inv1: "auth_inv a1" by (rule sweep_plan_keeps [OF inv plan_run])
  show ?thesis
  proof (cases r)
    case (Inl p)
    then show ?thesis using sweep plan_run
      by (intro exI [of _ "[]"])
        (auto simp: sweep_retention_def Inr telemetry_failed_def split: prod.splits)
  next
    case plan_ok: (Inr p)
    obtain free plan errors where p: "p = (free, plan, errors)" by (cases p)
    obtain inventory authorizations scheduled candidates hidden e0 where parts:
      "inventory_capture_directory vol directory parse = Inr inventory"
      "classify_inventory authority inventory a = (Inr authorizations, a1)"
      "length authorizations = length inventory" "protected_outputs now = Inr scheduled"
      "sweep_candidates scheduled (zip inventory authorizations) e0 = (candidates, errors)"
      "plan = plan_with_private_bytes policy now free candidates hidden"
      using sweep_plan_Inr [OF plan_run [unfolded plan_ok p]] by metis
    define t0 where "t0 = \<lparr>st_managed = p_managed_bytes plan, st_protected = p_protected_bytes plan,
      st_reclaimable = p_reclaimable_bytes plan, st_reclaimed_files = 0, st_reclaimed = 0,
      st_unresolved = 0, st_errors = errors\<rparr>"
    obtain totals where run: "sweep_deletions authority (deletions plan) a1 vol t0 = (totals, a', vol')"
      and count: "t_reclaimed_file_count telemetry = st_reclaimed_files totals"
      using sweep plan_run
      by (auto simp: sweep_retention_def Inr plan_ok p t0_def [symmetric] Let_def split: prod.splits)
    have fits: "st_reclaimed_files t0 \<le> u64_max" by (simp add: t0_def)
    obtain ds where ds: "set ds \<subseteq> set (deletions plan)" "\<forall>c \<in> set ds. granted c"
      "v_deleted vol' = v_deleted vol @ map rc_path ds" "st_reclaimed_files totals = min (length ds) u64_max"
      using sweep_deletions_granted [OF inv1 run fits] by (auto simp: t0_def)
    have "removable scheduled inventory authorizations c" if "c \<in> set ds" for c
    proof -
      have c: "c \<in> set (deletions (plan_with_private_bytes policy now free candidates hidden))"
        using that ds(1) parts(6) by blast
      from sweep_candidates_sound [OF parts(5) plan_deletions(2) [OF c] plan_deletions(1) [OF c]]
        plan_deletions(1) [OF c]
      show ?thesis by (auto simp: removable_def is_reclaimable_def)
    qed
    then have "clock = Inr now \<and> inventory_capture_directory vol directory parse = Inr inventory
      \<and> classify_inventory authority inventory a = (Inr authorizations, a1)
      \<and> protected_outputs now = Inr scheduled
      \<and> (\<forall>c \<in> set ds. removable scheduled inventory authorizations c)"
      using parts(1,2,4) Inr by blast
    then show ?thesis using ds(2,3) ds(4) [folded count] by (intro exI [of _ ds]) blast
  qed
qed

end

subsection \<open>The deletion itself\<close>

lemma exact_delete_checks_Inr:
  assumes "exact_delete_checks sha c expectation f marked = Inr u"
  shows "\<exists>metadata. oa_metadata f = Inr metadata \<and> nm_type metadata = FileNode \<and> \<not> nm_reparse metadata
    \<and> nm_len metadata = rc_file_size c \<and> expected_file_size expectation \<in> {None, Some (rc_file_size c)}
    \<and> (\<forall>digest. expected_sha256 expectation = Some digest \<longrightarrow>
         (\<exists>contents. oa_contents f = Inr contents \<and> sha contents = digest))"
proof -
  obtain metadata where m: "oa_metadata f = Inr metadata"
    using assms by (cases "oa_metadata f") (auto simp: exact_delete_checks_def Let_def)
  show ?thesis
    using assms m
    by (cases "expected_file_size expectation"; cases "expected_sha256 expectation"; cases "oa_contents f")
      (auto simp: exact_delete_checks_def Let_def result_simps)
qed

lemma system_delete_exact_cases:
  assumes "system_delete_exact sha c expectation vol = (result, vol')"
  obtains (deleted) f u where "result = Inr ExactDeleted"
      "vol' = vol\<lparr>v_open := (v_open vol)(rc_path c := Inl NotFound), v_deleted := v_deleted vol @ [rc_path c]\<rparr>"
      "v_open vol (rc_path c) = Inr f"
      "exact_delete_checks sha c expectation f (v_mark vol (rc_path c)) = Inr u"
  | (kept) "result \<noteq> Inr ExactDeleted" "vol' = vol"
  using assms unfolding system_delete_exact_def
  by (cases "v_open vol (rc_path c)") (auto split: io_error.splits sum.splits)

text \<open>A deletion is bound to the identity that was authorized: a file disappears only if the
  opened handle is a regular file that is no reparse point, has the size of the inventory and of
  the authorization, and, for an uploaded artifact, the recorded SHA-256 digest; in every other
  case nothing is touched.\<close>

lemma deletion_is_identity_checked:
  assumes "system_delete_exact sha c expectation vol = (result, vol')"
  shows "(result = Inr ExactDeleted \<and> v_deleted vol' = v_deleted vol @ [rc_path c]
      \<and> (\<exists>file metadata. v_open vol (rc_path c) = Inr file \<and> oa_metadata file = Inr metadata
           \<and> nm_type metadata = FileNode \<and> \<not> nm_reparse metadata \<and> nm_len metadata = rc_file_size c
           \<and> expected_file_size expectation \<in> {None, Some (rc_file_size c)}
           \<and> (\<forall>digest. expected_sha256 expectation = Some digest \<longrightarrow>
                (\<exists>contents. oa_contents file = Inr contents \<and> sha contents = digest))))
    \<or> (result \<noteq> Inr ExactDeleted \<and> vol' = vol)"
  using assms
proof (cases rule: system_delete_exact_cases)
  case (deleted f u)
  with exact_delete_checks_Inr [OF deleted(4)] show ?thesis by auto
qed auto

definition demo_volume :: volume where
  "demo_volume = \<lparr>v_list = \<lambda>_. Inr [], v_lstat = \<lambda>_. Inl NotFound,
     v_open = (\<lambda>_. Inr \<lparr>oa_metadata = Inr \<lparr>nm_type = FileNode, nm_reparse = False, nm_len = 7\<rparr>,
                        oa_contents = Inr [1, 2]\<rparr>),
     v_mark = \<lambda>_. None, v_available = \<lambda>_ _. Inr 0, v_deleted = []\<rparr>"

lemma delete_through_platform_cases:
  assumes "delete_through_platform sha io_text c vol = (d, vol')"
  shows "(d = Inr Deleted \<and> v_deleted vol' = v_deleted vol @ [rc_path c])
    \<or> (d \<noteq> Inr Deleted \<and> v_deleted vol' = v_deleted vol)"
proof -
  obtain result v where run: "system_delete_exact sha c (rc_authorization c) vol = (result, v)" by fastforce
  then show ?thesis
  proof (cases rule: system_delete_exact_cases)
    case deleted
    then show ?thesis using assms run by (auto simp: delete_through_platform_def)
  next
    case kept
    then show ?thesis using assms run
      by (cases result; cases "projr result") (auto simp: delete_through_platform_def)
  qed
qed

interpretation protect_all: retention_interface protect_all_authority "\<lambda>_. True" "\<lambda>_. False"
  by unfold_locales (auto simp: protect_all_authority_def)

interpretation local_only: retention_interface "local_only_authority sha io_text" "\<lambda>_. True" "\<lambda>_. True"
  for sha io_text
proof (unfold_locales, goal_cases)
  case (3 a c vol d a' vol')
  then show ?case
    using delete_through_platform_cases [of sha io_text c vol d vol']
    by (auto simp: local_only_authority_def split: prod.splits)
qed auto

text \<open>When the owner of an upload ledger is unavailable, retention fails closed: under the
  protecting authority a sweep deletes nothing and says so, whatever the policy and the quotas
  demand.\<close>

lemma protected_sweep_deletes_nothing:
  assumes "sweep_retention policy directory parse protect_all_authority protected_outputs io_text clock a vol
    = (telemetry, a', vol')"
  shows "v_deleted vol' = v_deleted vol \<and> t_reclaimed_file_count telemetry = 0"
proof -
  obtain ds :: "retention_candidate list" where "v_deleted vol' = v_deleted vol @ map rc_path ds"
    "t_reclaimed_file_count telemetry = min (length ds) u64_max" "\<forall>c \<in> set ds. False"
    using protect_all.sweep_granted [OF TrueI assms] by blast
  then show ?thesis by (cases ds) auto
qed

end
