(* ===== verification/LedgerTypes.thy ===== *)
theory LedgerTypes
  imports Paths
begin

text \<open>
  The data of the durable upload ledger (\<open>upload_store.rs\<close>): its error type, job identities
  and states, the rows of its two main tables with the constraints of their
  \<open>CREATE TABLE\<close> statements, and the conversions between SQLite integers and Rust integers.
\<close>

subsection \<open>Errors\<close>

datatype upload_job_id = UploadJobId int

text \<open>\<open>#[derive(PartialOrd, Ord)]\<close> on the identifier.\<close>

instantiation upload_job_id :: linorder
begin

fun less_eq_upload_job_id :: "upload_job_id \<Rightarrow> upload_job_id \<Rightarrow> bool" where
  "less_eq_upload_job_id (UploadJobId a) (UploadJobId b) \<longleftrightarrow> a \<le> b"

fun less_upload_job_id :: "upload_job_id \<Rightarrow> upload_job_id \<Rightarrow> bool" where
  "less_upload_job_id (UploadJobId a) (UploadJobId b) \<longleftrightarrow> a < b"

instance
proof
  fix x y z :: upload_job_id
  show "(x < y) = (x \<le> y \<and> \<not> y \<le> x)" by (cases x; cases y) auto
  show "x \<le> x" by (cases x) simp
  show "x \<le> y \<Longrightarrow> y \<le> z \<Longrightarrow> x \<le> z" by (cases x; cases y; cases z) auto
  show "x \<le> y \<Longrightarrow> y \<le> x \<Longrightarrow> x = y" by (cases x; cases y) auto
  show "x \<le> y \<or> y \<le> x" by (cases x; cases y) auto
qed

end

fun job_id_value :: "upload_job_id \<Rightarrow> int" where
  "job_id_value (UploadJobId i) = i"

datatype sqlite_error =
    ConstraintCheck
  | ConstraintUnique
  | ConstraintDatatype
  | RaiseAbort string
  | QueryReturnedNoRows

datatype store_error =
    Sqlite sqlite_error
  | StoreIo io_error
  | LedgerLease
  | Randomness
  | Configuration string
  | MissingSchema
  | UnsupportedSchema int
  | InvalidSchema
  | CaptureRootMismatch
  | InvalidDestination
  | DestinationMismatch
  | AuthorizationIdentityMismatch
  | CaptureDirectoryNotAbsolute string
  | ArtifactPathNotAbsolute string
  | ArtifactOutsideCaptureRoot string
  | ArtifactIsSymlink string
  | ArtifactNotRegularFile string
  | InvalidArtifactFilename string
  | ArtifactIdentityConflict
  | TimestampOutOfRange nat
  | ArtifactSizeOutOfRange nat
  | CorruptInteger string int
  | CorruptState string
  | CorruptArtifactIdentity upload_job_id
  | UploadJobDeliveryBindingMismatch upload_job_id
  | InvalidJobId nat
  | InvalidTransition upload_job_id
  | AttemptCountOverflow upload_job_id
  | ReconcileCountOverflow
  | InvalidListPageSize
  | InvalidListCursor
  | StaleListCursor
  | ListCursorParametersMismatch
  | DuplicateListStateFilter
  | RequeueLedgerMismatch
  | RequeueJobNotFound
  | RequeueWrongState
  | RequeueStaleJobRevision
  | RequeueDeliveryBindingMismatch
  | RequeueArtifactUnavailable
  | RequeueArtifactChanged
  | JobRevisionOverflow upload_job_id
  | RequeueCountOverflow upload_job_id
  | CorruptPreactivationArtifact

subsection \<open>Job states\<close>

datatype upload_state = Pending | InProgress | Retrying | Completed | PermanentlyFailed

text \<open>The text stored in the \<open>state\<close> column.\<close>

fun state_text :: "upload_state \<Rightarrow> string" where
  "state_text Pending = ''pending''"
| "state_text InProgress = ''in_progress''"
| "state_text Retrying = ''retrying''"
| "state_text Completed = ''completed''"
| "state_text PermanentlyFailed = ''permanently_failed''"

definition state_from_database :: "string \<Rightarrow> store_error + upload_state" where
  "state_from_database value =
     (if value = ''pending'' then Inr Pending
      else if value = ''in_progress'' then Inr InProgress
      else if value = ''retrying'' then Inr Retrying
      else if value = ''completed'' then Inr Completed
      else if value = ''permanently_failed'' then Inr PermanentlyFailed
      else Inl (CorruptState value))"

fun cursor_code :: "upload_state \<Rightarrow> nat" where
  "cursor_code Pending = 1"
| "cursor_code InProgress = 2"
| "cursor_code Retrying = 3"
| "cursor_code Completed = 4"
| "cursor_code PermanentlyFailed = 5"

definition filter_bit :: "upload_state \<Rightarrow> u8" where
  "filter_bit s = push_bit (cursor_code s - 1) 1"

subsection \<open>Rows\<close>

record upload_job =
  j_id :: int
  j_artifact_path :: string
  j_filename :: string
  j_idempotency_key :: string
  j_file_size :: int
  j_sha256 :: "u8 list"
  j_delivery_binding :: "u8 list"
  j_state :: string
  j_attempt_count :: int
  j_next_attempt_at :: "int option"
  j_last_http_status :: "int option"
  j_last_error :: "string option"
  j_created_at :: int
  j_updated_at :: int
  j_completed_at :: "int option"
  j_last_failure_at :: "int option"
  j_job_revision :: int
  j_requeue_count :: int
  j_last_requeued_at :: "int option"

record upload_metadata =
  m_schema_signature :: string
  m_ledger_id :: "u8 list"
  m_ledger_revision :: int
  m_capture_root :: string
  m_destination :: string
  m_authorization :: "u8 list"
  m_pending :: int
  m_in_progress :: int
  m_retrying :: int
  m_completed :: int
  m_permanently_failed :: int
  m_last_success_at :: "int option"
  m_last_failure_at :: "int option"
  m_last_error :: "string option"

record ledger_db =
  db_meta :: upload_metadata
  db_preactivation :: "string list"
  db_jobs :: "upload_job list"

definition opt_nonneg :: "int option \<Rightarrow> bool" where
  "opt_nonneg v = (case v of None \<Rightarrow> True | Some x \<Rightarrow> 0 \<le> x)"

definition in_i64 :: "int \<Rightarrow> bool" where
  "in_i64 v \<longleftrightarrow> i64_min \<le> v \<and> v \<le> i64_max"

definition opt_in_i64 :: "int option \<Rightarrow> bool" where
  "opt_in_i64 v = (case v of None \<Rightarrow> True | Some x \<Rightarrow> in_i64 x)"

text \<open>The CHECK clauses of \<open>CREATE TABLE upload_jobs\<close>.\<close>

definition job_checks :: "upload_job \<Rightarrow> bool" where
  "job_checks r \<longleftrightarrow>
     0 \<le> j_file_size r
     \<and> length (j_sha256 r) = 32
     \<and> length (j_delivery_binding r) = 32
     \<and> j_state r \<in> {''pending'', ''in_progress'', ''retrying'', ''completed'', ''permanently_failed''}
     \<and> 0 \<le> j_attempt_count r
     \<and> opt_nonneg (j_next_attempt_at r)
     \<and> (case j_last_http_status r of None \<Rightarrow> True | Some s \<Rightarrow> 100 \<le> s \<and> s \<le> 599)
     \<and> 0 \<le> j_created_at r
     \<and> 0 \<le> j_updated_at r
     \<and> opt_nonneg (j_completed_at r)
     \<and> opt_nonneg (j_last_failure_at r)
     \<and> 1 \<le> j_job_revision r
     \<and> 0 \<le> j_requeue_count r
     \<and> opt_nonneg (j_last_requeued_at r)
     \<and> (j_state r = ''retrying'' \<longleftrightarrow> j_next_attempt_at r \<noteq> None)
     \<and> (j_state r = ''completed'' \<longleftrightarrow> j_completed_at r \<noteq> None)
     \<and> (j_requeue_count r = 0 \<and> j_last_requeued_at r = None
        \<or> 0 < j_requeue_count r \<and> j_last_requeued_at r \<noteq> None)"

text \<open>
  The INTEGER columns of a STRICT table hold 64-bit values; an addition that overflows becomes
  a REAL, which a STRICT INTEGER column refuses.
\<close>

definition job_in_range :: "upload_job \<Rightarrow> bool" where
  "job_in_range r \<longleftrightarrow>
     in_i64 (j_id r) \<and> in_i64 (j_file_size r) \<and> in_i64 (j_attempt_count r)
     \<and> opt_in_i64 (j_next_attempt_at r) \<and> opt_in_i64 (j_last_http_status r)
     \<and> in_i64 (j_created_at r) \<and> in_i64 (j_updated_at r) \<and> opt_in_i64 (j_completed_at r)
     \<and> opt_in_i64 (j_last_failure_at r) \<and> in_i64 (j_job_revision r)
     \<and> in_i64 (j_requeue_count r) \<and> opt_in_i64 (j_last_requeued_at r)"

definition check_job :: "upload_job \<Rightarrow> store_error + unit" where
  "check_job r =
     rbind (require (job_in_range r) (Sqlite ConstraintDatatype))
       (\<lambda>_. require (job_checks r) (Sqlite ConstraintCheck))"

text \<open>The CHECK clauses of \<open>CREATE TABLE upload_metadata\<close>, and the width of its columns.\<close>

definition meta_checks :: "upload_metadata \<Rightarrow> bool" where
  "meta_checks m \<longleftrightarrow>
     length (m_ledger_id m) = 16
     \<and> 0 \<le> m_ledger_revision m
     \<and> m_destination m \<noteq> []
     \<and> hd (m_destination m) \<noteq> CHR '' '' \<and> last (m_destination m) \<noteq> CHR '' ''
     \<and> length (m_authorization m) = 32
     \<and> 0 \<le> m_pending m \<and> 0 \<le> m_in_progress m \<and> 0 \<le> m_retrying m
     \<and> 0 \<le> m_completed m \<and> 0 \<le> m_permanently_failed m
     \<and> opt_nonneg (m_last_success_at m) \<and> opt_nonneg (m_last_failure_at m)"

definition meta_in_range :: "upload_metadata \<Rightarrow> bool" where
  "meta_in_range m \<longleftrightarrow>
     in_i64 (m_ledger_revision m) \<and> in_i64 (m_pending m) \<and> in_i64 (m_in_progress m)
     \<and> in_i64 (m_retrying m) \<and> in_i64 (m_completed m) \<and> in_i64 (m_permanently_failed m)
     \<and> opt_in_i64 (m_last_success_at m) \<and> opt_in_i64 (m_last_failure_at m)"

definition check_meta :: "upload_metadata \<Rightarrow> store_error + upload_metadata" where
  "check_meta m =
     rbind (require (meta_in_range m) (Sqlite ConstraintDatatype))
       (\<lambda>_. rbind (require (meta_checks m) (Sqlite ConstraintCheck)) (\<lambda>_. Inr m))"

subsection \<open>Integer conversions\<close>

definition unix_ms_to_database :: "nat \<Rightarrow> store_error + int" where
  "unix_ms_to_database value =
     (if int value \<le> i64_max then Inr (int value) else Inl (TimestampOutOfRange value))"

definition database_u64 :: "string \<Rightarrow> int \<Rightarrow> store_error + nat" where
  "database_u64 column value =
     (if 0 \<le> value then Inr (nat value) else Inl (CorruptInteger column value))"

definition optional_database_u64 :: "string \<Rightarrow> int option \<Rightarrow> store_error + nat option" where
  "optional_database_u64 column value =
     (case value of None \<Rightarrow> Inr None
      | Some v \<Rightarrow> rbind (database_u64 column v) (\<lambda>n. Inr (Some n)))"

definition optional_database_u16 :: "string \<Rightarrow> int option \<Rightarrow> store_error + nat option" where
  "optional_database_u16 column value =
     (case value of None \<Rightarrow> Inr None
      | Some v \<Rightarrow> if 0 \<le> v \<and> v \<le> 65535 then Inr (Some (nat v)) else Inl (CorruptInteger column v))"

definition job_id_from_database :: "int \<Rightarrow> store_error + upload_job_id" where
  "job_id_from_database value =
     (if 0 < value then Inr (UploadJobId value) else Inl (CorruptInteger ''id'' value))"

text \<open>\<open>UploadJobId::from_u64\<close> and \<open>UploadJobId::get\<close>, the operator's view of a job id.\<close>

definition job_id_from_u64 :: "nat \<Rightarrow> store_error + upload_job_id" where
  "job_id_from_u64 value =
     (if \<not> int value \<le> i64_max then Inl (InvalidJobId value)
      else if int value \<le> 0 then Inl (InvalidJobId value)
      else job_id_from_database (int value))"

definition job_id_get :: "upload_job_id \<Rightarrow> nat" where
  "job_id_get j = nat (job_id_value j)"

definition sha256_from_database :: "upload_job_id \<Rightarrow> u8 list \<Rightarrow> store_error + u8 list" where
  "sha256_from_database job_id value =
     (if length value = 32 then Inr value else Inl (CorruptArtifactIdentity job_id))"

definition checked_reconcile_increment :: "nat \<Rightarrow> store_error + nat" where
  "checked_reconcile_increment value = ok_or (checked_add_u64 value 1) ReconcileCountOverflow"

definition ensure_transition :: "nat \<Rightarrow> upload_job_id \<Rightarrow> store_error + unit" where
  "ensure_transition changed job_id = require (changed = 1) (InvalidTransition job_id)"

subsection \<open>Basic facts\<close>

lemma state_round_trip: "state_from_database (state_text s) = Inr s"
  by (cases s) (simp_all add: state_from_database_def)

lemma state_from_database_Inr: "state_from_database t = Inr s \<Longrightarrow> t = state_text s"
  by (auto simp: state_from_database_def split: if_splits)

interpretation state: codec "\<lambda>_. True" state_text
  "\<lambda>t. case state_from_database t of Inl _ \<Rightarrow> None | Inr s \<Rightarrow> Some s"
  by unfold_locales (simp add: state_round_trip)

lemma state_text_inject [simp]: "state_text a = state_text b \<longleftrightarrow> a = b"
  by (rule state.enc_inject) simp_all

lemma job_checks_state: "job_checks r \<Longrightarrow> \<exists>s. j_state r = state_text s"
  unfolding job_checks_def by (metis empty_iff insert_iff state_text.simps)

lemma check_job_Inr: "check_job r = Inr u \<longleftrightarrow> job_in_range r \<and> job_checks r"
  by (auto simp: check_job_def result_simps)

lemma check_meta_Inr: "check_meta m = Inr m' \<longleftrightarrow> m' = m \<and> meta_in_range m \<and> meta_checks m"
  by (auto simp: check_meta_def result_simps)

lemma unix_ms_to_database_Inr:
  "unix_ms_to_database v = Inr t \<longleftrightarrow> t = int v \<and> t \<le> i64_max"
  by (auto simp: unix_ms_to_database_def)

lemma job_id_from_database_Inr:
  "job_id_from_database v = Inr j \<longleftrightarrow> 0 < v \<and> j = UploadJobId v"
  by (auto simp: job_id_from_database_def)

lemma job_id_u64_round_trip:
  "job_id_from_u64 n = Inr j \<Longrightarrow> job_id_get j = n"
  by (auto simp: job_id_from_u64_def job_id_get_def job_id_from_database_def split: if_splits)

end
