(* ===== verification/LedgerSql.thy ===== *)
theory LedgerSql
  imports LedgerTypes
begin

text \<open>
  The statement level of the ledger: the aggregate, guard and immutability triggers of the
  schema, INSERT with its conflict clause and UPDATE with its row-by-row trigger firing, and
  the database invariant that every statement keeps: the counters of \<open>upload_metadata\<close> are
  the true counts, ids, paths and idempotency keys are unique, every row satisfies its
  constraints. The table is the list of its rows in rowid order.
\<close>

subsection \<open>Triggers\<close>

definition b2i :: "bool \<Rightarrow> int" where
  "b2i b = (if b then 1 else 0)"

text \<open>The \<open>CASE\<close> expressions that keep the latest timestamp and the error that goes with it.\<close>

definition is_latest :: "bool \<Rightarrow> int option \<Rightarrow> int option \<Rightarrow> bool" where
  "is_latest changed new previous =
     (changed \<and> (case new of None \<Rightarrow> False
        | Some n \<Rightarrow> (case previous of None \<Rightarrow> True | Some p \<Rightarrow> p \<le> n)))"

text \<open>\<open>upload_jobs_after_insert\<close>\<close>

definition after_insert_trigger :: "upload_job \<Rightarrow> upload_metadata \<Rightarrow> store_error + upload_metadata" where
  "after_insert_trigger new m =
     check_meta (m\<lparr>
       m_pending := m_pending m + b2i (j_state new = ''pending''),
       m_in_progress := m_in_progress m + b2i (j_state new = ''in_progress''),
       m_retrying := m_retrying m + b2i (j_state new = ''retrying''),
       m_completed := m_completed m + b2i (j_state new = ''completed''),
       m_permanently_failed := m_permanently_failed m + b2i (j_state new = ''permanently_failed''),
       m_ledger_revision := m_ledger_revision m + 1,
       m_last_success_at :=
         (if is_latest True (j_completed_at new) (m_last_success_at m)
          then j_completed_at new else m_last_success_at m),
       m_last_failure_at :=
         (if is_latest True (j_last_failure_at new) (m_last_failure_at m)
          then j_last_failure_at new else m_last_failure_at m),
       m_last_error :=
         (if is_latest True (j_last_failure_at new) (m_last_failure_at m)
          then j_last_error new else m_last_error m)\<rparr>)"

text \<open>\<open>upload_jobs_after_status_update\<close>\<close>

definition after_update_trigger ::
  "upload_job \<Rightarrow> upload_job \<Rightarrow> upload_metadata \<Rightarrow> store_error + upload_metadata" where
  "after_update_trigger old new m =
     check_meta (m\<lparr>
       m_pending := m_pending m - b2i (j_state old = ''pending'') + b2i (j_state new = ''pending''),
       m_in_progress := m_in_progress m
         - b2i (j_state old = ''in_progress'') + b2i (j_state new = ''in_progress''),
       m_retrying := m_retrying m - b2i (j_state old = ''retrying'') + b2i (j_state new = ''retrying''),
       m_completed := m_completed m - b2i (j_state old = ''completed'') + b2i (j_state new = ''completed''),
       m_permanently_failed := m_permanently_failed m
         - b2i (j_state old = ''permanently_failed'') + b2i (j_state new = ''permanently_failed''),
       m_ledger_revision := m_ledger_revision m + 1,
       m_last_success_at :=
         (if is_latest (j_completed_at new \<noteq> j_completed_at old) (j_completed_at new) (m_last_success_at m)
          then j_completed_at new else m_last_success_at m),
       m_last_failure_at :=
         (if is_latest (j_last_failure_at new \<noteq> j_last_failure_at old)
            (j_last_failure_at new) (m_last_failure_at m)
          then j_last_failure_at new else m_last_failure_at m),
       m_last_error :=
         (if is_latest (j_last_failure_at new \<noteq> j_last_failure_at old)
            (j_last_failure_at new) (m_last_failure_at m)
          then j_last_error new else m_last_error m)\<rparr>)"

text \<open>
  \<open>upload_jobs_identity_immutable\<close> fires when the statement assigns one of these columns,
  whatever the value; \<open>upload_jobs_revision_guard\<close> looks at the values.
\<close>

definition identity_columns :: "string set" where
  "identity_columns = {''artifact_path'', ''filename'', ''idempotency_key'', ''file_size'',
     ''sha256'', ''delivery_binding_sha256'', ''created_at_ms''}"

definition identity_trigger :: "string list \<Rightarrow> store_error + unit" where
  "identity_trigger columns =
     require (\<not> list_ex (\<lambda>c. c \<in> identity_columns) columns)
       (Sqlite (RaiseAbort ''upload artifact identity is immutable''))"

definition revision_guard_trigger :: "upload_job \<Rightarrow> upload_job \<Rightarrow> store_error + unit" where
  "revision_guard_trigger old new =
     require (\<not> j_job_revision new \<noteq> j_job_revision old + 1)
       (Sqlite (RaiseAbort ''upload job revision must increment exactly once''))"

text \<open>\<open>upload_jobs_no_delete\<close>: a DELETE that matches a row aborts.\<close>

definition sql_delete_jobs :: "(upload_job \<Rightarrow> bool) \<Rightarrow> ledger_db \<Rightarrow> store_error + ledger_db" where
  "sql_delete_jobs condition db =
     (if list_ex condition (db_jobs db)
      then Inl (Sqlite (RaiseAbort ''upload jobs are append-only''))
      else Inr db)"

subsection \<open>Statements\<close>

text \<open>
  UPDATE upload_jobs SET columns WHERE condition: for each matching row the BEFORE triggers
  (in the order of their creation), the row constraints and the AFTER trigger. Any failure
  aborts the whole statement. The result counts the changed rows.
\<close>

fun sql_update_rows ::
  "string list \<Rightarrow> (upload_job \<Rightarrow> bool) \<Rightarrow> (upload_job \<Rightarrow> upload_job) \<Rightarrow> upload_metadata
     \<Rightarrow> upload_job list \<Rightarrow> store_error + (upload_metadata \<times> upload_job list \<times> nat)" where
  "sql_update_rows columns condition assign m [] = Inr (m, [], 0)"
| "sql_update_rows columns condition assign m (r # rs) =
     (if condition r then
        rbind (revision_guard_trigger r (assign r)) (\<lambda>_.
        rbind (identity_trigger columns) (\<lambda>_.
        rbind (check_job (assign r)) (\<lambda>_.
        rbind (after_update_trigger r (assign r) m) (\<lambda>m'.
        rbind (sql_update_rows columns condition assign m' rs) (\<lambda>(m'', rs', n).
          Inr (m'', assign r # rs', Suc n))))))
      else
        rbind (sql_update_rows columns condition assign m rs) (\<lambda>(m', rs', n).
          Inr (m', r # rs', n)))"

definition sql_update_jobs ::
  "string list \<Rightarrow> (upload_job \<Rightarrow> bool) \<Rightarrow> (upload_job \<Rightarrow> upload_job) \<Rightarrow> ledger_db
     \<Rightarrow> store_error + (ledger_db \<times> nat)" where
  "sql_update_jobs columns condition assign db =
     rbind (sql_update_rows columns condition assign (db_meta db) (db_jobs db)) (\<lambda>(m, rows, n).
       Inr (db\<lparr>db_meta := m, db_jobs := rows\<rparr>, n))"

text \<open>
  The rowid SQLite assigns to a row inserted without one: one more than the largest in the
  table. (At the 64-bit maximum the engine would probe for a free id; the model reports the
  insertion as failed there.)
\<close>

definition next_rowid :: "upload_job list \<Rightarrow> int" where
  "next_rowid rows = fold (\<lambda>r acc. max acc (j_id r)) rows 0 + 1"

text \<open>INSERT ... ON CONFLICT(artifact_path) DO NOTHING\<close>

definition sql_insert_job :: "upload_job \<Rightarrow> ledger_db \<Rightarrow> store_error + (ledger_db \<times> nat)" where
  "sql_insert_job row db =
     (let new = row\<lparr>j_id := next_rowid (db_jobs db)\<rparr> in
      rbind (check_job new) (\<lambda>_.
        if list_ex (\<lambda>r. j_artifact_path r = j_artifact_path new) (db_jobs db) then Inr (db, 0)
        else rbind (require (\<not> list_ex (\<lambda>r. j_idempotency_key r = j_idempotency_key new) (db_jobs db))
                 (Sqlite ConstraintUnique)) (\<lambda>_.
             rbind (after_insert_trigger new (db_meta db)) (\<lambda>m.
               Inr (db\<lparr>db_meta := m, db_jobs := db_jobs db @ [new]\<rparr>, 1)))))"

subsection \<open>The database invariant\<close>

definition count_state :: "string \<Rightarrow> upload_job list \<Rightarrow> int" where
  "count_state s rows = int (length (filter (\<lambda>r. j_state r = s) rows))"

definition counters_exact :: "ledger_db \<Rightarrow> bool" where
  "counters_exact db \<longleftrightarrow>
     m_pending (db_meta db) = count_state ''pending'' (db_jobs db)
     \<and> m_in_progress (db_meta db) = count_state ''in_progress'' (db_jobs db)
     \<and> m_retrying (db_meta db) = count_state ''retrying'' (db_jobs db)
     \<and> m_completed (db_meta db) = count_state ''completed'' (db_jobs db)
     \<and> m_permanently_failed (db_meta db) = count_state ''permanently_failed'' (db_jobs db)"

definition ledger_inv :: "ledger_db \<Rightarrow> bool" where
  "ledger_inv db \<longleftrightarrow>
     sorted_wrt (<) (map j_id (db_jobs db))
     \<and> list_all (\<lambda>r. 0 < j_id r \<and> job_in_range r \<and> job_checks r) (db_jobs db)
     \<and> distinct (map j_artifact_path (db_jobs db))
     \<and> distinct (map j_idempotency_key (db_jobs db))
     \<and> counters_exact db
     \<and> meta_in_range (db_meta db) \<and> meta_checks (db_meta db)"

text \<open>What never changes about a row, and about the metadata.\<close>

definition job_identity ::
  "upload_job \<Rightarrow> int \<times> string \<times> string \<times> string \<times> int \<times> u8 list \<times> u8 list \<times> int" where
  "job_identity r = (j_id r, j_artifact_path r, j_filename r, j_idempotency_key r, j_file_size r,
     j_sha256 r, j_delivery_binding r, j_created_at r)"

definition meta_identity :: "upload_metadata \<Rightarrow> string \<times> u8 list \<times> string \<times> string" where
  "meta_identity m = (m_schema_signature m, m_ledger_id m, m_capture_root m, m_destination m)"

subsection \<open>Counting\<close>

lemma count_state_Nil [simp]: "count_state s [] = 0"
  by (simp add: count_state_def)

lemma count_state_Cons [simp]: "count_state s (r # rs) = b2i (j_state r = s) + count_state s rs"
  by (simp add: count_state_def b2i_def)

lemma count_state_append [simp]: "count_state s (rs @ qs) = count_state s rs + count_state s qs"
  by (simp add: count_state_def)

lemma count_state_nonneg [simp]: "0 \<le> count_state s rs"
  by (simp add: count_state_def)

lemma fold_max_ge:
  "a \<le> fold (\<lambda>r acc. max acc (f r)) rows (a :: int)"
  by (induction rows arbitrary: a) (auto intro: order_trans [OF max.cobounded1])

lemma fold_max_member:
  "r \<in> set rows \<Longrightarrow> f r \<le> fold (\<lambda>r acc. max acc (f r)) rows (a :: int)"
proof (induction rows arbitrary: a)
  case (Cons q rows)
  show ?case
  proof (cases "r = q")
    case True
    have "f r \<le> max a (f r)" by simp
    also have "\<dots> \<le> fold (\<lambda>r acc. max acc (f r)) rows (max a (f r))" by (rule fold_max_ge)
    finally show ?thesis by (simp add: True)
  next
    case False
    then show ?thesis using Cons by simp
  qed
qed simp

lemma next_rowid_greater: "r \<in> set rows \<Longrightarrow> j_id r < next_rowid rows"
  using fold_max_member [of r rows j_id 0] by (simp add: next_rowid_def)

lemma next_rowid_pos: "0 < next_rowid rows"
  using fold_max_ge [of 0 j_id rows] by (simp add: next_rowid_def)

subsection \<open>What a successful UPDATE does\<close>

lemma after_update_trigger_Inr:
  assumes "after_update_trigger old new m = Inr m'"
  shows "m_ledger_revision m' = m_ledger_revision m + 1"
    and "meta_identity m' = meta_identity m"
    and "m_authorization m' = m_authorization m"
    and "m_pending m' = m_pending m - b2i (j_state old = ''pending'') + b2i (j_state new = ''pending'')"
    and "m_in_progress m' = m_in_progress m
      - b2i (j_state old = ''in_progress'') + b2i (j_state new = ''in_progress'')"
    and "m_retrying m' = m_retrying m
      - b2i (j_state old = ''retrying'') + b2i (j_state new = ''retrying'')"
    and "m_completed m' = m_completed m
      - b2i (j_state old = ''completed'') + b2i (j_state new = ''completed'')"
    and "m_permanently_failed m' = m_permanently_failed m
      - b2i (j_state old = ''permanently_failed'') + b2i (j_state new = ''permanently_failed'')"
    and "meta_in_range m' \<and> meta_checks m'"
  using assms unfolding after_update_trigger_def check_meta_Inr
  by (simp_all add: meta_identity_def)

lemma after_insert_trigger_Inr:
  assumes "after_insert_trigger new m = Inr m'"
  shows "m_ledger_revision m' = m_ledger_revision m + 1"
    and "meta_identity m' = meta_identity m"
    and "m_authorization m' = m_authorization m"
    and "m_pending m' = m_pending m + b2i (j_state new = ''pending'')"
    and "m_in_progress m' = m_in_progress m + b2i (j_state new = ''in_progress'')"
    and "m_retrying m' = m_retrying m + b2i (j_state new = ''retrying'')"
    and "m_completed m' = m_completed m + b2i (j_state new = ''completed'')"
    and "m_permanently_failed m' = m_permanently_failed m + b2i (j_state new = ''permanently_failed'')"
    and "meta_in_range m' \<and> meta_checks m'"
  using assms unfolding after_insert_trigger_def check_meta_Inr
  by (simp_all add: meta_identity_def)

lemma sql_update_rows_ConsE:
  assumes "sql_update_rows columns condition assign m (r # rs) = Inr (m', rows', n)"
  obtains (hit) m1 rs' k where
      "condition r" "j_job_revision (assign r) = j_job_revision r + 1"
      "\<forall>c \<in> set columns. c \<notin> identity_columns"
      "job_in_range (assign r)" "job_checks (assign r)"
      "after_update_trigger r (assign r) m = Inr m1"
      "sql_update_rows columns condition assign m1 rs = Inr (m', rs', k)"
      "rows' = assign r # rs'" "n = Suc k"
  | (miss) rs' where "\<not> condition r"
      "sql_update_rows columns condition assign m rs = Inr (m', rs', n)" "rows' = r # rs'"
proof (cases "condition r")
  case True
  have "\<exists>m1 rs' k. j_job_revision (assign r) = j_job_revision r + 1
      \<and> (\<forall>c \<in> set columns. c \<notin> identity_columns)
      \<and> job_in_range (assign r) \<and> job_checks (assign r)
      \<and> after_update_trigger r (assign r) m = Inr m1
      \<and> sql_update_rows columns condition assign m1 rs = Inr (m', rs', k)
      \<and> rows' = assign r # rs' \<and> n = Suc k"
    using assms True
    by (auto simp: result_simps revision_guard_trigger_def identity_trigger_def check_job_Inr
        list_ex_iff split: prod.splits)
  then show thesis by (elim exE conjE) (rule hit [OF True])
next
  case False
  then have "\<exists>rs'. sql_update_rows columns condition assign m rs = Inr (m', rs', n) \<and> rows' = r # rs'"
    using assms by (auto simp: rbind_eq_Inr split: prod.splits)
  then show thesis by (elim exE conjE) (rule miss [OF False])
qed

text \<open>
  The effect of a successful statement, free of the trigger machinery: which rows it leaves,
  how the counters move, and that every changed row satisfies the constraints.
\<close>

lemma sql_update_rows_effect:
  "sql_update_rows columns condition assign m rows = Inr (m', rows', n) \<Longrightarrow>
     rows' = map (\<lambda>r. if condition r then assign r else r) rows
     \<and> n = length (filter condition rows)
     \<and> (\<forall>r \<in> set rows. condition r \<longrightarrow> job_in_range (assign r) \<and> job_checks (assign r)
          \<and> j_job_revision (assign r) = j_job_revision r + 1)
     \<and> (n \<noteq> 0 \<longrightarrow> (\<forall>c \<in> set columns. c \<notin> identity_columns))"
proof (induction rows arbitrary: m m' rows' n)
  case (Cons r rs)
  from Cons.prems show ?case
    by (cases rule: sql_update_rows_ConsE) (auto dest!: Cons.IH)
qed simp

lemma sql_update_rows_meta:
  "sql_update_rows columns condition assign m rows = Inr (m', rows', n) \<Longrightarrow>
     m_ledger_revision m' = m_ledger_revision m + int n
     \<and> meta_identity m' = meta_identity m \<and> m_authorization m' = m_authorization m
     \<and> (meta_in_range m \<and> meta_checks m \<longrightarrow> meta_in_range m' \<and> meta_checks m')"
proof (induction rows arbitrary: m m' rows' n)
  case (Cons r rs)
  from Cons.prems show ?case
  proof (cases rule: sql_update_rows_ConsE)
    case (hit m1 rs' k)
    then show ?thesis
      using after_update_trigger_Inr [OF hit(6)] Cons.IH [OF hit(7)] by simp
  next
    case (miss rs')
    then show ?thesis using Cons.IH by blast
  qed
qed simp

lemma sql_update_rows_counters:
  "sql_update_rows columns condition assign m rows = Inr (m', rows', n) \<Longrightarrow>
     m_pending m' - count_state ''pending'' rows' = m_pending m - count_state ''pending'' rows
     \<and> m_in_progress m' - count_state ''in_progress'' rows'
       = m_in_progress m - count_state ''in_progress'' rows
     \<and> m_retrying m' - count_state ''retrying'' rows' = m_retrying m - count_state ''retrying'' rows
     \<and> m_completed m' - count_state ''completed'' rows'
       = m_completed m - count_state ''completed'' rows
     \<and> m_permanently_failed m' - count_state ''permanently_failed'' rows'
       = m_permanently_failed m - count_state ''permanently_failed'' rows"
proof (induction rows arbitrary: m m' rows' n)
  case (Cons r rs)
  from Cons.prems show ?case
  proof (cases rule: sql_update_rows_ConsE)
    case (hit m1 rs' k)
    then show ?thesis
      using after_update_trigger_Inr(4-8) [OF hit(6)] Cons.IH [OF hit(7)] by simp
  next
    case (miss rs')
    then show ?thesis using Cons.IH [OF miss(2)] by simp
  qed
qed simp

lemma sql_update_rows_none:
  "\<forall>r \<in> set rows. \<not> condition r \<Longrightarrow>
     sql_update_rows columns condition assign m rows = Inr (m, rows, 0)"
  by (induction rows) auto

text \<open>A statement that matches exactly one row, and what it needs to succeed.\<close>

lemma sql_update_rows_one:
  assumes "\<forall>q \<in> set before. \<not> condition q" and "\<forall>q \<in> set after. \<not> condition q" and "condition r"
    and "j_job_revision (assign r) = j_job_revision r + 1"
    and "\<forall>c \<in> set columns. c \<notin> identity_columns"
    and "job_in_range (assign r)" and "job_checks (assign r)"
    and "after_update_trigger r (assign r) m = Inr m'"
  shows "sql_update_rows columns condition assign m (before @ r # after)
    = Inr (m', before @ assign r # after, 1)"
  using assms(1)
proof (induction before)
  case Nil
  have "check_job (assign r) = Inr ()" using assms(6,7) by (simp add: check_job_def)
  moreover have "identity_trigger columns = Inr ()"
    using assms(5) by (simp add: identity_trigger_def list_ex_iff)
  ultimately show ?case
    using assms(2-4,8) by (simp add: revision_guard_trigger_def sql_update_rows_none)
qed simp

text \<open>An UPDATE statement as a whole.\<close>

lemma sql_update_jobs_effect:
  assumes "sql_update_jobs columns condition assign db = Inr (db', n)"
  shows "db_jobs db' = map (\<lambda>r. if condition r then assign r else r) (db_jobs db)"
    and "n = length (filter condition (db_jobs db))"
    and "\<And>r. r \<in> set (db_jobs db) \<Longrightarrow> condition r \<Longrightarrow> job_in_range (assign r) \<and> job_checks (assign r)
          \<and> j_job_revision (assign r) = j_job_revision r + 1"
    and "m_ledger_revision (db_meta db') = m_ledger_revision (db_meta db) + int n"
    and "meta_identity (db_meta db') = meta_identity (db_meta db)"
    and "m_authorization (db_meta db') = m_authorization (db_meta db)"
    and "db_preactivation db' = db_preactivation db"
proof -
  from assms obtain m rows where
    rows: "sql_update_rows columns condition assign (db_meta db) (db_jobs db) = Inr (m, rows, n)"
    and db': "db' = db\<lparr>db_meta := m, db_jobs := rows\<rparr>"
    by (auto simp: sql_update_jobs_def result_simps)
  note facts = sql_update_rows_effect [OF rows] sql_update_rows_meta [OF rows]
  show "db_jobs db' = map (\<lambda>r. if condition r then assign r else r) (db_jobs db)"
    and "n = length (filter condition (db_jobs db))"
    and "\<And>r. r \<in> set (db_jobs db) \<Longrightarrow> condition r \<Longrightarrow> job_in_range (assign r) \<and> job_checks (assign r)
          \<and> j_job_revision (assign r) = j_job_revision r + 1"
    and "m_ledger_revision (db_meta db') = m_ledger_revision (db_meta db) + int n"
    and "meta_identity (db_meta db') = meta_identity (db_meta db)"
    and "m_authorization (db_meta db') = m_authorization (db_meta db)"
    and "db_preactivation db' = db_preactivation db"
    using facts by (simp_all add: db')
qed

lemma sql_update_jobs_none:
  assumes "sql_update_jobs columns condition assign db = Inr (db', 0)"
  shows "db' = db"
proof -
  have "filter condition (db_jobs db) = []"
    using sql_update_jobs_effect(2) [OF assms] by simp
  then have "sql_update_rows columns condition assign (db_meta db) (db_jobs db)
      = Inr (db_meta db, db_jobs db, 0)"
    by (intro sql_update_rows_none) (simp add: filter_empty_conv)
  then show ?thesis using assms by (simp add: sql_update_jobs_def)
qed

text \<open>
  A statement whose assignments leave the identity columns alone keeps the invariant.
\<close>

lemma sql_update_jobs_inv:
  assumes run: "sql_update_jobs columns condition assign db = Inr (db', n)"
    and inv: "ledger_inv db"
    and frame: "\<And>r. job_identity (assign r) = job_identity r"
  shows "ledger_inv db'"
proof -
  from run obtain m rows where
    rows: "sql_update_rows columns condition assign (db_meta db) (db_jobs db) = Inr (m, rows, n)"
    and db': "db' = db\<lparr>db_meta := m, db_jobs := rows\<rparr>"
    by (auto simp: sql_update_jobs_def result_simps)
  have jobs: "rows = map (\<lambda>r. if condition r then assign r else r) (db_jobs db)"
    and ok: "\<forall>r \<in> set (db_jobs db). condition r \<longrightarrow> job_in_range (assign r) \<and> job_checks (assign r)"
    using sql_update_rows_effect [OF rows] by auto
  have keys: "map j_id rows = map j_id (db_jobs db)"
    "map j_artifact_path rows = map j_artifact_path (db_jobs db)"
    "map j_idempotency_key rows = map j_idempotency_key (db_jobs db)"
    using frame by (auto simp: jobs job_identity_def)
  have "list_all (\<lambda>r. 0 < j_id r \<and> job_in_range r \<and> job_checks r) rows"
    using inv ok frame by (auto simp: ledger_inv_def jobs list_all_iff job_identity_def)
  moreover have "counters_exact db'"
    using sql_update_rows_counters [OF rows] inv by (simp add: db' counters_exact_def ledger_inv_def)
  moreover have "meta_in_range m \<and> meta_checks m"
    using sql_update_rows_meta [OF rows] inv by (simp add: ledger_inv_def)
  ultimately show ?thesis
    using inv keys by (simp add: ledger_inv_def db')
qed

subsection \<open>What a successful INSERT does\<close>

lemma sql_insert_job_effect:
  assumes "sql_insert_job row db = Inr (db', n)"
  shows "(n = 0 \<and> db' = db \<and> (\<exists>r \<in> set (db_jobs db). j_artifact_path r = j_artifact_path row))
    \<or> (n = 1 \<and> db_jobs db' = db_jobs db @ [row\<lparr>j_id := next_rowid (db_jobs db)\<rparr>]
       \<and> (\<forall>r \<in> set (db_jobs db). j_artifact_path r \<noteq> j_artifact_path row)
       \<and> (\<forall>r \<in> set (db_jobs db). j_idempotency_key r \<noteq> j_idempotency_key row)
       \<and> job_in_range (row\<lparr>j_id := next_rowid (db_jobs db)\<rparr>)
       \<and> job_checks (row\<lparr>j_id := next_rowid (db_jobs db)\<rparr>)
       \<and> after_insert_trigger (row\<lparr>j_id := next_rowid (db_jobs db)\<rparr>) (db_meta db) = Inr (db_meta db')
       \<and> db_preactivation db' = db_preactivation db)"
proof (cases "list_ex (\<lambda>r. j_artifact_path r = j_artifact_path row) (db_jobs db)")
  case True
  then show ?thesis
    using assms by (auto simp: sql_insert_job_def Let_def result_simps list_ex_iff)
next
  case False
  then show ?thesis
    using assms
    by (auto simp: sql_insert_job_def Let_def result_simps list_ex_iff check_job_Inr)
qed

lemma sql_insert_job_inv:
  assumes run: "sql_insert_job row db = Inr (db', n)" and inv: "ledger_inv db"
  shows "ledger_inv db'"
  using sql_insert_job_effect [OF run]
proof (elim disjE conjE)
  let ?new = "row\<lparr>j_id := next_rowid (db_jobs db)\<rparr>"
  assume jobs: "db_jobs db' = db_jobs db @ [?new]"
    and path: "\<forall>r \<in> set (db_jobs db). j_artifact_path r \<noteq> j_artifact_path row"
    and key: "\<forall>r \<in> set (db_jobs db). j_idempotency_key r \<noteq> j_idempotency_key row"
    and ok: "job_in_range ?new" "job_checks ?new"
    and trigger: "after_insert_trigger ?new (db_meta db) = Inr (db_meta db')"
  note meta = after_insert_trigger_Inr [OF trigger]
  have "sorted_wrt (<) (map j_id (db_jobs db'))"
    using inv next_rowid_greater by (auto simp: jobs sorted_wrt_append ledger_inv_def)
  moreover have "list_all (\<lambda>r. 0 < j_id r \<and> job_in_range r \<and> job_checks r) (db_jobs db')"
    using inv ok next_rowid_pos by (simp add: jobs ledger_inv_def)
  moreover have "distinct (map j_artifact_path (db_jobs db'))"
    "distinct (map j_idempotency_key (db_jobs db'))"
    using inv path key by (auto simp: jobs ledger_inv_def)
  moreover have "counters_exact db'"
    using inv meta(4-8) by (simp add: counters_exact_def ledger_inv_def jobs)
  ultimately show ?thesis using meta(9) by (simp add: ledger_inv_def)
qed (use inv in simp)

lemmas ledger_inv_simps = ledger_inv_def counters_exact_def list_all_iff

lemma ledger_inv_unique_id:
  assumes "ledger_inv db" "r \<in> set (db_jobs db)" "q \<in> set (db_jobs db)" "j_id r = j_id q"
  shows "r = q"
proof -
  have "distinct (map j_id (db_jobs db))"
    using assms(1) by (simp add: ledger_inv_def strict_sorted_iff)
  then show ?thesis using assms(2-4) by (simp add: distinct_map inj_on_def)
qed

lemma ledger_inv_unique_path:
  assumes "ledger_inv db" "r \<in> set (db_jobs db)" "q \<in> set (db_jobs db)"
    "j_artifact_path r = j_artifact_path q"
  shows "r = q"
  using assms by (auto simp: ledger_inv_def distinct_map inj_on_def)

end
