(* ===== verification/LedgerOps.thy ===== *)
theory LedgerOps
  imports LedgerSql
begin

text \<open>
  The operations of the open upload store (\<open>upload_store.rs\<close>): recording a finalized
  artifact, claiming due work, releasing or finishing a claim, the status snapshot, the
  reconciliation of the capture directory, and the two repairs made when a ledger is opened
  (authorization rotation and recovery of interrupted claims). \<open>sha\<close> stands for the SHA-256
  function of the \<open>sha2\<close> crate, \<open>fs\<close> for the operating system's view of the files.
\<close>

subsection \<open>The store\<close>

record upload_store =
  s_db :: ledger_db
  s_capture_root :: string
  s_ledger_id :: "u8 list"
  s_delivery_binding :: "u8 list"

abbreviation s_jobs :: "upload_store \<Rightarrow> upload_job list" where
  "s_jobs store \<equiv> db_jobs (s_db store)"

record claimed_upload =
  c_job_id :: upload_job_id
  c_artifact_path :: string
  c_filename :: string
  c_idempotency_key :: string
  c_file_size :: nat
  c_sha256 :: "u8 list"
  c_attempt_count :: nat

datatype record_disposition = Inserted | AlreadyRecorded

record artifact_values =
  av_artifact_path :: string
  av_filename :: string
  av_idempotency_key :: string
  av_file_size :: nat
  av_sha256 :: "u8 list"

subsection \<open>Delivery identity\<close>

definition authorization_fingerprint_domain :: "u8 list" where
  "authorization_fingerprint_domain =
     string_bytes ''autopiercam-upload-authorization-identity-v1'' @ [0]"

definition delivery_binding_domain :: "u8 list" where
  "delivery_binding_domain = string_bytes ''autopiercam-upload-delivery-binding-v1'' @ [0]"

definition authorization_derive :: "(u8 list \<Rightarrow> u8 list) \<Rightarrow> string \<Rightarrow> u8 list \<Rightarrow> u8 list" where
  "authorization_derive sha kind identity =
     sha (authorization_fingerprint_domain @ string_bytes kind @ [0] @ identity)"

definition authorization_anonymous :: "(u8 list \<Rightarrow> u8 list) \<Rightarrow> u8 list" where
  "authorization_anonymous sha = authorization_derive sha ''anonymous'' []"

definition authorization_for_bearer_token :: "(u8 list \<Rightarrow> u8 list) \<Rightarrow> string \<Rightarrow> u8 list" where
  "authorization_for_bearer_token sha token = authorization_derive sha ''bearer'' (string_bytes token)"

definition delivery_binding_derive ::
  "(u8 list \<Rightarrow> u8 list) \<Rightarrow> string \<Rightarrow> u8 list \<Rightarrow> u8 list" where
  "delivery_binding_derive sha destination authorization =
     sha (delivery_binding_domain @ be_bytes 8 (length destination)
       @ string_bytes destination @ authorization)"

definition delivery_binding_from_database ::
  "upload_job_id \<Rightarrow> u8 list \<Rightarrow> store_error + u8 list" where
  "delivery_binding_from_database job_id value =
     (if length value = 32 then Inr value else Inl (CorruptArtifactIdentity job_id))"

subsection \<open>Validation of stored identities\<close>

definition stored_identity_ok :: "string \<Rightarrow> string \<Rightarrow> string \<Rightarrow> u8 list \<Rightarrow> string \<Rightarrow> bool" where
  "stored_identity_ok path filename stored_key sha256 capture_root \<longleftrightarrow>
     path_is_absolute path
     \<and> path_parent path = Some (path_components capture_root)
     \<and> path_file_name path = Some filename
     \<and> is_generated_frame_filename filename
     \<and> stored_key = idempotency_key filename sha256"

definition validate_stored_identity ::
  "upload_job_id \<Rightarrow> string \<Rightarrow> string \<Rightarrow> string \<Rightarrow> u8 list \<Rightarrow> string \<Rightarrow> store_error + string" where
  "validate_stored_identity job_id artifact_path filename stored_key sha256 capture_root =
     (if stored_identity_ok artifact_path filename stored_key sha256 capture_root
      then Inr artifact_path else Inl (CorruptArtifactIdentity job_id))"

definition validate_preactivation_artifact_path :: "string \<Rightarrow> string \<Rightarrow> store_error + string" where
  "validate_preactivation_artifact_path artifact_path capture_root =
     (if path_is_absolute artifact_path
         \<and> path_parent artifact_path = Some (path_components capture_root)
         \<and> (case path_file_name artifact_path of None \<Rightarrow> False
            | Some name \<Rightarrow> is_generated_frame_filename name)
      then Inr artifact_path else Inl CorruptPreactivationArtifact)"

subsection \<open>Recording an artifact\<close>

definition io_err :: "io_error + 'a \<Rightarrow> store_error + 'a" where
  "io_err r = (case r of Inl e \<Rightarrow> Inl (StoreIo e) | Inr x \<Rightarrow> Inr x)"

definition artifact_values_read ::
  "filesystem \<Rightarrow> (u8 list \<Rightarrow> u8 list) \<Rightarrow> string \<Rightarrow> string \<Rightarrow> store_error + artifact_values" where
  "artifact_values_read fs sha path capture_root =
     rbind (require (path_is_absolute path) (ArtifactPathNotAbsolute path)) (\<lambda>_.
     rbind (io_err (symlink_metadata fs path)) (\<lambda>kind.
     rbind (require (kind \<noteq> Symlink) (ArtifactIsSymlink path)) (\<lambda>_.
     rbind (require (kind = RegularFile) (ArtifactNotRegularFile path)) (\<lambda>_.
     rbind (io_err (canonicalize fs path)) (\<lambda>canonical.
     rbind (require (path_parent canonical = Some (path_components capture_root))
              (ArtifactOutsideCaptureRoot canonical)) (\<lambda>_.
     rbind (ok_or (case path_file_name canonical of None \<Rightarrow> None
                   | Some name \<Rightarrow> if is_generated_frame_filename name then Some name else None)
              (InvalidArtifactFilename canonical)) (\<lambda>filename.
     rbind (io_err (open_for_read fs canonical)) (\<lambda>file.
     rbind (require (of_kind file = RegularFile) (ArtifactNotRegularFile canonical)) (\<lambda>_.
       let sha256 = sha (of_bytes file) in
       Inr \<lparr>av_artifact_path = canonical, av_filename = filename,
            av_idempotency_key = idempotency_key filename sha256,
            av_file_size = of_len file, av_sha256 = sha256\<rparr>)))))))))"

definition new_job :: "artifact_values \<Rightarrow> u8 list \<Rightarrow> int \<Rightarrow> upload_job" where
  "new_job values binding recorded_at =
     \<lparr>j_id = 0, j_artifact_path = av_artifact_path values, j_filename = av_filename values,
      j_idempotency_key = av_idempotency_key values, j_file_size = int (av_file_size values),
      j_sha256 = av_sha256 values, j_delivery_binding = binding, j_state = ''pending'',
      j_attempt_count = 0, j_next_attempt_at = None, j_last_http_status = None,
      j_last_error = None, j_created_at = recorded_at, j_updated_at = recorded_at,
      j_completed_at = None, j_last_failure_at = None, j_job_revision = 1,
      j_requeue_count = 0, j_last_requeued_at = None\<rparr>"

definition record_artifact ::
  "filesystem \<Rightarrow> (u8 list \<Rightarrow> u8 list) \<Rightarrow> string \<Rightarrow> nat \<Rightarrow> upload_store
     \<Rightarrow> store_error + (upload_job_id \<times> record_disposition) \<times> upload_store" where
  "record_artifact fs sha artifact_path recorded_at_unix_ms store =
     rbind (artifact_values_read fs sha artifact_path (s_capture_root store)) (\<lambda>values.
     rbind (unix_ms_to_database recorded_at_unix_ms) (\<lambda>recorded_at.
     rbind (require (int (av_file_size values) \<le> i64_max)
              (ArtifactSizeOutOfRange (av_file_size values))) (\<lambda>_.
     rbind (sql_insert_job (new_job values (s_delivery_binding store) recorded_at) (s_db store))
       (\<lambda>(db, inserted).
     rbind (ok_or (find (\<lambda>r. j_artifact_path r = av_artifact_path values) (db_jobs db))
              (Sqlite QueryReturnedNoRows)) (\<lambda>existing.
     rbind (require (\<not> (inserted = 0
              \<and> (j_filename existing \<noteq> av_filename values
                 \<or> j_idempotency_key existing \<noteq> av_idempotency_key values
                 \<or> j_file_size existing \<noteq> int (av_file_size values)
                 \<or> j_sha256 existing \<noteq> av_sha256 values)))
              ArtifactIdentityConflict) (\<lambda>_.
     rbind (job_id_from_database (j_id existing)) (\<lambda>job_id.
       Inr ((job_id, if inserted = 1 then Inserted else AlreadyRecorded),
            store\<lparr>s_db := db\<rparr>))))))))"

subsection \<open>Claiming due work\<close>

text \<open>\<open>COALESCE(next_attempt_at_ms, created_at_ms)\<close>\<close>

definition due_at :: "upload_job \<Rightarrow> int" where
  "due_at r = (case j_next_attempt_at r of Some t \<Rightarrow> t | None \<Rightarrow> j_created_at r)"

definition waiting :: "upload_job \<Rightarrow> bool" where
  "waiting r \<longleftrightarrow> j_state r = ''pending'' \<or> j_state r = ''retrying''"

definition due_before :: "upload_job \<Rightarrow> upload_job \<Rightarrow> bool" where
  "due_before r q \<longleftrightarrow> due_at r < due_at q \<or> due_at r = due_at q \<and> j_id r \<le> j_id q"

text \<open>\<open>ORDER BY COALESCE(next_attempt_at_ms, created_at_ms), id LIMIT 1\<close>\<close>

fun first_due :: "upload_job list \<Rightarrow> upload_job option" where
  "first_due [] = None"
| "first_due (r # rs) =
     (case first_due rs of None \<Rightarrow> Some r | Some q \<Rightarrow> if due_before r q then Some r else Some q)"

definition into_claim :: "upload_job_id \<Rightarrow> string \<Rightarrow> u8 list \<Rightarrow> upload_job \<Rightarrow> store_error + claimed_upload" where
  "into_claim job_id capture_root current_delivery_binding raw =
     rbind (sha256_from_database job_id (j_sha256 raw)) (\<lambda>sha256.
     rbind (delivery_binding_from_database job_id (j_delivery_binding raw)) (\<lambda>binding.
     rbind (require (binding = current_delivery_binding) (UploadJobDeliveryBindingMismatch job_id)) (\<lambda>_.
     rbind (validate_stored_identity job_id (j_artifact_path raw) (j_filename raw)
              (j_idempotency_key raw) sha256 capture_root) (\<lambda>artifact_path.
     rbind (database_u64 ''file_size'' (j_file_size raw)) (\<lambda>file_size.
     rbind (database_u64 ''attempt_count'' (j_attempt_count raw)) (\<lambda>attempt_count.
       Inr \<lparr>c_job_id = job_id, c_artifact_path = artifact_path, c_filename = j_filename raw,
            c_idempotency_key = j_idempotency_key raw, c_file_size = file_size,
            c_sha256 = sha256, c_attempt_count = attempt_count\<rparr>))))))"

definition claim_due ::
  "nat \<Rightarrow> upload_store \<Rightarrow> store_error + claimed_upload option \<times> upload_store" where
  "claim_due now_unix_ms store =
     rbind (unix_ms_to_database now_unix_ms) (\<lambda>now.
       case first_due (filter (\<lambda>r. waiting r \<and> due_at r \<le> now) (s_jobs store)) of
         None \<Rightarrow> Inr (None, store)
       | Some candidate \<Rightarrow>
           rbind (job_id_from_database (j_id candidate)) (\<lambda>job_id.
           rbind (into_claim job_id (s_capture_root store) (s_delivery_binding store) candidate) (\<lambda>claim.
           rbind (ok_or (if int (c_attempt_count claim) \<le> i64_max
                         then checked_add_i64 (int (c_attempt_count claim)) 1 else None)
                    (AttemptCountOverflow job_id)) (\<lambda>next_attempt_count.
           rbind (sql_update_jobs
                    [''state'', ''attempt_count'', ''next_attempt_at_ms'', ''updated_at_ms'', ''job_revision'']
                    (\<lambda>r. j_id r = job_id_value job_id \<and> waiting r \<and> due_at r \<le> now)
                    (\<lambda>r. r\<lparr>j_state := ''in_progress'', j_attempt_count := next_attempt_count,
                           j_next_attempt_at := None, j_updated_at := now,
                           j_job_revision := j_job_revision r + 1\<rparr>)
                    (s_db store)) (\<lambda>(db, changed).
           rbind (require (changed = 1) (InvalidTransition job_id)) (\<lambda>_.
           rbind (database_u64 ''attempt_count'' next_attempt_count) (\<lambda>attempt_count.
             Inr (Some (claim\<lparr>c_attempt_count := attempt_count\<rparr>), store\<lparr>s_db := db\<rparr>))))))))"

subsection \<open>Finishing a claim\<close>

definition attempt_count_to_database :: "claimed_upload \<Rightarrow> store_error + int" where
  "attempt_count_to_database claim =
     (if int (c_attempt_count claim) \<le> i64_max then Inr (int (c_attempt_count claim))
      else Inl (AttemptCountOverflow (c_job_id claim)))"

text \<open>\<open>WHERE id = ? AND state = 'in_progress' AND attempt_count = ?\<close>\<close>

definition claim_matches :: "claimed_upload \<Rightarrow> int \<Rightarrow> upload_job \<Rightarrow> bool" where
  "claim_matches claim attempt_count r \<longleftrightarrow>
     j_id r = job_id_value (c_job_id claim) \<and> j_state r = ''in_progress''
     \<and> j_attempt_count r = attempt_count"

definition release_claim ::
  "claimed_upload \<Rightarrow> nat \<Rightarrow> upload_store \<Rightarrow> store_error + upload_store" where
  "release_claim claim now_unix_ms store =
     rbind (unix_ms_to_database now_unix_ms) (\<lambda>now.
     rbind (attempt_count_to_database claim) (\<lambda>attempt_count.
     rbind (sql_update_jobs
              [''state'', ''next_attempt_at_ms'', ''updated_at_ms'', ''job_revision'']
              (claim_matches claim attempt_count)
              (\<lambda>r. r\<lparr>j_state := ''pending'', j_next_attempt_at := None, j_updated_at := now,
                     j_job_revision := j_job_revision r + 1\<rparr>)
              (s_db store)) (\<lambda>(db, changed).
     rbind (ensure_transition changed (c_job_id claim)) (\<lambda>_.
       Inr (store\<lparr>s_db := db\<rparr>)))))"

definition mark_retrying ::
  "claimed_upload \<Rightarrow> nat \<Rightarrow> nat \<Rightarrow> nat option \<Rightarrow> string option \<Rightarrow> upload_store
     \<Rightarrow> store_error + upload_store" where
  "mark_retrying claim failed_at_unix_ms next_attempt_at_unix_ms http_status err store =
     rbind (unix_ms_to_database failed_at_unix_ms) (\<lambda>failed_at.
     rbind (unix_ms_to_database next_attempt_at_unix_ms) (\<lambda>next_attempt_at.
     rbind (attempt_count_to_database claim) (\<lambda>attempt_count.
     rbind (sql_update_jobs
              [''state'', ''next_attempt_at_ms'', ''last_http_status'', ''last_error'',
               ''updated_at_ms'', ''last_failure_at_ms'', ''job_revision'']
              (claim_matches claim attempt_count)
              (\<lambda>r. r\<lparr>j_state := ''retrying'', j_next_attempt_at := Some next_attempt_at,
                     j_last_http_status := map_option int http_status, j_last_error := err,
                     j_updated_at := failed_at, j_last_failure_at := Some failed_at,
                     j_job_revision := j_job_revision r + 1\<rparr>)
              (s_db store)) (\<lambda>(db, changed).
     rbind (ensure_transition changed (c_job_id claim)) (\<lambda>_.
       Inr (store\<lparr>s_db := db\<rparr>))))))"

definition mark_completed ::
  "claimed_upload \<Rightarrow> nat \<Rightarrow> nat \<Rightarrow> upload_store \<Rightarrow> store_error + upload_store" where
  "mark_completed claim completed_at_unix_ms http_status store =
     rbind (unix_ms_to_database completed_at_unix_ms) (\<lambda>completed_at.
     rbind (attempt_count_to_database claim) (\<lambda>attempt_count.
     rbind (sql_update_jobs
              [''state'', ''next_attempt_at_ms'', ''last_http_status'', ''updated_at_ms'',
               ''completed_at_ms'', ''job_revision'']
              (claim_matches claim attempt_count)
              (\<lambda>r. r\<lparr>j_state := ''completed'', j_next_attempt_at := None,
                     j_last_http_status := Some (int http_status), j_updated_at := completed_at,
                     j_completed_at := Some completed_at, j_job_revision := j_job_revision r + 1\<rparr>)
              (s_db store)) (\<lambda>(db, changed).
     rbind (ensure_transition changed (c_job_id claim)) (\<lambda>_.
       Inr (store\<lparr>s_db := db\<rparr>)))))"

definition mark_permanently_failed ::
  "claimed_upload \<Rightarrow> nat \<Rightarrow> nat option \<Rightarrow> string option \<Rightarrow> upload_store
     \<Rightarrow> store_error + upload_store" where
  "mark_permanently_failed claim failed_at_unix_ms http_status err store =
     rbind (unix_ms_to_database failed_at_unix_ms) (\<lambda>failed_at.
     rbind (attempt_count_to_database claim) (\<lambda>attempt_count.
     rbind (sql_update_jobs
              [''state'', ''next_attempt_at_ms'', ''last_http_status'', ''last_error'',
               ''updated_at_ms'', ''last_failure_at_ms'', ''job_revision'']
              (claim_matches claim attempt_count)
              (\<lambda>r. r\<lparr>j_state := ''permanently_failed'', j_next_attempt_at := None,
                     j_last_http_status := map_option int http_status, j_last_error := err,
                     j_updated_at := failed_at, j_last_failure_at := Some failed_at,
                     j_job_revision := j_job_revision r + 1\<rparr>)
              (s_db store)) (\<lambda>(db, changed).
     rbind (ensure_transition changed (c_job_id claim)) (\<lambda>_.
       Inr (store\<lparr>s_db := db\<rparr>)))))"

end
