(* ===== verification/LedgerStatus.thy ===== *)
theory LedgerStatus
  imports LedgerOps
begin

text \<open>
  The status snapshot of the ledger, which reads the trigger-maintained counters instead of
  scanning the jobs, and the reconciliation of the capture directory, which records every
  finalized artifact that a crash left between publication and recording.
\<close>

subsection \<open>Snapshot\<close>

record upload_store_snapshot =
  sn_pending :: nat
  sn_in_progress :: nat
  sn_retrying :: nat
  sn_completed :: nat
  sn_permanently_failed :: nat
  sn_last_success_at :: "nat option"
  sn_last_failure_at :: "nat option"
  sn_last_error :: "string option"
  sn_next_due_at :: "nat option"

text \<open>\<open>SELECT MIN(COALESCE(next_attempt_at_ms, created_at_ms)) ... WHERE state IN (...)\<close>\<close>

definition min_due :: "upload_job list \<Rightarrow> int option" where
  "min_due rows =
     fold (\<lambda>r acc. case acc of None \<Rightarrow> Some (due_at r) | Some t \<Rightarrow> Some (min t (due_at r)))
       (filter waiting rows) None"

definition snapshot :: "upload_store \<Rightarrow> store_error + upload_store_snapshot" where
  "snapshot store =
     (let m = db_meta (s_db store) in
      rbind (database_u64 ''pending count'' (m_pending m)) (\<lambda>pending.
      rbind (database_u64 ''in-progress count'' (m_in_progress m)) (\<lambda>in_progress.
      rbind (database_u64 ''retrying count'' (m_retrying m)) (\<lambda>retrying.
      rbind (database_u64 ''completed count'' (m_completed m)) (\<lambda>completed.
      rbind (database_u64 ''permanently-failed count'' (m_permanently_failed m)) (\<lambda>failed.
      rbind (optional_database_u64 ''last_success_at_ms'' (m_last_success_at m)) (\<lambda>success_at.
      rbind (optional_database_u64 ''last_failure_at_ms'' (m_last_failure_at m)) (\<lambda>failure_at.
      rbind (optional_database_u64 ''next due time'' (min_due (s_jobs store))) (\<lambda>next_due.
        Inr \<lparr>sn_pending = pending, sn_in_progress = in_progress, sn_retrying = retrying,
             sn_completed = completed, sn_permanently_failed = failed,
             sn_last_success_at = success_at, sn_last_failure_at = failure_at,
             sn_last_error = m_last_error m, sn_next_due_at = next_due\<rparr>)))))))))"

subsection \<open>Reconciliation\<close>

record reconcile_result =
  rr_examined :: nat
  rr_eligible :: nat
  rr_inserted :: nat
  rr_already_recorded :: nat

definition is_preactivation_artifact :: "upload_store \<Rightarrow> string \<Rightarrow> bool" where
  "is_preactivation_artifact store artifact_path =
     list_ex (\<lambda>p. p = artifact_path) (db_preactivation (s_db store))"

definition recorded_job_id :: "upload_store \<Rightarrow> string \<Rightarrow> store_error + upload_job_id option" where
  "recorded_job_id store artifact_path =
     (case find (\<lambda>r. j_artifact_path r = artifact_path) (s_jobs store) of
        None \<Rightarrow> Inr None
      | Some r \<Rightarrow> rbind (job_id_from_database (j_id r)) (\<lambda>j. Inr (Some j)))"

text \<open>The directory pass: counts, and the paths that must be recorded.\<close>

fun reconcile_scan ::
  "upload_store \<Rightarrow> reconcile_result \<Rightarrow> (io_error + dir_entry) list
     \<Rightarrow> store_error + (reconcile_result \<times> string list)" where
  "reconcile_scan store result [] = Inr (result, [])"
| "reconcile_scan store result (entry # rest) =
     rbind (io_err entry) (\<lambda>entry.
     rbind (checked_reconcile_increment (rr_examined result)) (\<lambda>examined.
     let result = result\<lparr>rr_examined := examined\<rparr> in
     case de_name entry of None \<Rightarrow> reconcile_scan store result rest
     | Some filename \<Rightarrow>
         let path = path_join (s_capture_root store) filename in
         if \<not> is_generated_frame_filename filename then reconcile_scan store result rest
         else if is_preactivation_artifact store path then reconcile_scan store result rest
         else rbind (recorded_job_id store path) (\<lambda>recorded.
           if recorded \<noteq> None then
             rbind (checked_reconcile_increment (rr_eligible result)) (\<lambda>eligible.
             rbind (checked_reconcile_increment (rr_already_recorded result)) (\<lambda>already.
               reconcile_scan store
                 (result\<lparr>rr_eligible := eligible, rr_already_recorded := already\<rparr>) rest))
           else rbind (io_err (de_kind entry)) (\<lambda>kind.
             if kind \<noteq> RegularFile then reconcile_scan store result rest
             else rbind (checked_reconcile_increment (rr_eligible result)) (\<lambda>eligible.
               rbind (reconcile_scan store (result\<lparr>rr_eligible := eligible\<rparr>) rest)
                 (\<lambda>(result', paths). Inr (result', path # paths)))))))"

text \<open>
  The recording pass commits one insertion after the other: an error leaves the earlier ones
  in place, so the store is returned beside the outcome.
\<close>

fun reconcile_record ::
  "filesystem \<Rightarrow> (u8 list \<Rightarrow> u8 list) \<Rightarrow> nat \<Rightarrow> string list \<Rightarrow> reconcile_result \<Rightarrow> upload_store
     \<Rightarrow> upload_store \<times> (store_error + reconcile_result)" where
  "reconcile_record fs sha now [] result store = (store, Inr result)"
| "reconcile_record fs sha now (path # paths) result store =
     (case record_artifact fs sha path now store of
        Inl e \<Rightarrow> (store, Inl e)
      | Inr ((_, disposition), store') \<Rightarrow>
          (case disposition of
             Inserted \<Rightarrow>
               (case checked_reconcile_increment (rr_inserted result) of
                  Inl e \<Rightarrow> (store', Inl e)
                | Inr n \<Rightarrow> reconcile_record fs sha now paths (result\<lparr>rr_inserted := n\<rparr>) store')
           | AlreadyRecorded \<Rightarrow>
               (case checked_reconcile_increment (rr_already_recorded result) of
                  Inl e \<Rightarrow> (store', Inl e)
                | Inr n \<Rightarrow> reconcile_record fs sha now paths (result\<lparr>rr_already_recorded := n\<rparr>) store')))"

definition reconcile_capture_directory ::
  "filesystem \<Rightarrow> (u8 list \<Rightarrow> u8 list) \<Rightarrow> nat \<Rightarrow> upload_store
     \<Rightarrow> upload_store \<times> (store_error + reconcile_result)" where
  "reconcile_capture_directory fs sha recorded_at_unix_ms store =
     (case rbind (unix_ms_to_database recorded_at_unix_ms) (\<lambda>_.
           rbind (io_err (read_dir fs (s_capture_root store))) (\<lambda>entries.
             reconcile_scan store
               \<lparr>rr_examined = 0, rr_eligible = 0, rr_inserted = 0, rr_already_recorded = 0\<rparr> entries)) of
        Inl e \<Rightarrow> (store, Inl e)
      | Inr (result, eligible_paths) \<Rightarrow>
          reconcile_record fs sha recorded_at_unix_ms (sort_key path_components eligible_paths)
            result store)"

end
