(* ===== verification/LedgerOpen.thy ===== *)
theory LedgerOpen
  imports LedgerStatus
begin

text \<open>
  Opening an upload ledger (\<open>UploadStore::open\<close>): creating the schema of an empty database
  with the inventory of captures that predate it, or verifying an existing one, rotating the
  authorization identity of a drained ledger, and recovering the claims that the previous
  process left in progress. The database file is its header, its schema objects and, once
  created, its ledger.
\<close>

record database_file =
  f_user_version :: int
  f_application_id :: int
  f_objects :: "(string \<times> string \<times> string) list"
  f_ledger :: "ledger_db option"

text \<open>What the SQLite connection, the ledger lease and the random source answer.\<close>

record open_env =
  e_lease :: bool
  e_journal_mode :: string
  e_synchronous :: int
  e_locking_mode :: string
  e_random :: "u8 list option"

definition schema_version :: int where
  "schema_version = 4"

definition application_id :: int where
  "application_id = 0x41504355"

definition schema_signature :: string where
  "schema_signature =
     ''autopiercam-upload-ledger-v4-operator-pagination-requeue-delivery-binding-revisions-20260828''"

subsection \<open>Text helpers\<close>

definition is_space :: "char \<Rightarrow> bool" where
  "is_space c \<longleftrightarrow> (let v = of_char c :: nat in v = 32 \<or> 9 \<le> v \<and> v \<le> 13)"

definition trim :: "string \<Rightarrow> string" where
  "trim s = rev (dropWhile is_space (rev (dropWhile is_space s)))"

definition ascii_lower :: "char \<Rightarrow> char" where
  "ascii_lower c = (let v = of_char c :: nat in if 65 \<le> v \<and> v \<le> 90 then char_of (v + 32) else c)"

definition eq_ignore_ascii_case :: "string \<Rightarrow> string \<Rightarrow> bool" where
  "eq_ignore_ascii_case a b \<longleftrightarrow> map ascii_lower a = map ascii_lower b"

fun split_whitespace_aux :: "string \<Rightarrow> string \<Rightarrow> string list" where
  "split_whitespace_aux word [] = (if word = [] then [] else [word])"
| "split_whitespace_aux word (c # cs) =
     (if is_space c then (if word = [] then [] else [word]) @ split_whitespace_aux [] cs
      else split_whitespace_aux (word @ [c]) cs)"

definition split_whitespace :: "string \<Rightarrow> string list" where
  "split_whitespace s = split_whitespace_aux [] s"

fun join_words :: "string list \<Rightarrow> string" where
  "join_words [] = []"
| "join_words [w] = w"
| "join_words (w # ws) = w @ '' '' @ join_words ws"

definition normalize_sql :: "string \<Rightarrow> string" where
  "normalize_sql sql =
     rev (dropWhile (\<lambda>c. c = CHR '';'') (rev (join_words (split_whitespace sql))))"

subsection \<open>Connection settings\<close>

definition configure_durability :: "open_env \<Rightarrow> store_error + unit" where
  "configure_durability env =
     rbind (require (eq_ignore_ascii_case (e_journal_mode env) ''wal'') (Configuration ''journal_mode=WAL''))
       (\<lambda>_. require (e_synchronous env = 2) (Configuration ''synchronous=FULL''))"

definition acquire_exclusive_ownership :: "open_env \<Rightarrow> store_error + unit" where
  "acquire_exclusive_ownership env =
     require (eq_ignore_ascii_case (e_locking_mode env) ''exclusive'')
       (Configuration ''locking_mode=EXCLUSIVE'')"

subsection \<open>Creating a ledger\<close>

text \<open>\<open>name NOT LIKE 'sqlite_%'\<close>: LIKE ignores ASCII case and its underscore is any character.\<close>

definition user_object :: "string \<times> string \<times> string \<Rightarrow> bool" where
  "user_object entry =
     (case entry of (_, name, _) \<Rightarrow>
        \<not> (7 \<le> length name \<and> eq_ignore_ascii_case (take 6 name) ''sqlite''))"

definition database_is_completely_empty :: "database_file \<Rightarrow> bool" where
  "database_is_completely_empty file \<longleftrightarrow>
     f_application_id file = 0
     \<and> length (filter user_object (f_objects file)) = 0"

fun inventory_scan :: "string \<Rightarrow> (io_error + dir_entry) list \<Rightarrow> store_error + string list" where
  "inventory_scan root [] = Inr []"
| "inventory_scan root (entry # rest) =
     rbind (io_err entry) (\<lambda>entry.
     case de_name entry of None \<Rightarrow> inventory_scan root rest
     | Some filename \<Rightarrow>
         if \<not> is_generated_frame_filename filename then inventory_scan root rest
         else rbind (io_err (de_kind entry)) (\<lambda>kind.
           if kind \<noteq> RegularFile then inventory_scan root rest
           else rbind (inventory_scan root rest) (\<lambda>paths. Inr (path_join root filename # paths))))"

definition inventory_generated_artifacts :: "filesystem \<Rightarrow> string \<Rightarrow> store_error + string list" where
  "inventory_generated_artifacts fs capture_root =
     rbind (io_err (read_dir fs capture_root)) (\<lambda>entries.
     rbind (inventory_scan capture_root entries) (\<lambda>artifacts. Inr (remdups_adj (sort artifacts))))"

definition initial_metadata :: "string \<Rightarrow> string \<Rightarrow> u8 list \<Rightarrow> u8 list \<Rightarrow> upload_metadata" where
  "initial_metadata capture_root destination authorization ledger_id =
     \<lparr>m_schema_signature = schema_signature, m_ledger_id = ledger_id, m_ledger_revision = 0,
      m_capture_root = capture_root, m_destination = destination, m_authorization = authorization,
      m_pending = 0, m_in_progress = 0, m_retrying = 0, m_completed = 0, m_permanently_failed = 0,
      m_last_success_at = None, m_last_failure_at = None, m_last_error = None\<rparr>"

text \<open>\<open>schema\<close> is the list of (kind, name, SQL text) of the ten schema constants of the source.\<close>

definition create_schema ::
  "(string \<times> string \<times> string) list \<Rightarrow> string \<Rightarrow> string \<Rightarrow> u8 list \<Rightarrow> u8 list \<Rightarrow> string list
     \<Rightarrow> database_file \<Rightarrow> store_error + database_file" where
  "create_schema schema capture_root destination authorization ledger_id preactivation file =
     rbind (check_meta (initial_metadata capture_root destination authorization ledger_id)) (\<lambda>meta.
     rbind (require (distinct preactivation) (Sqlite ConstraintUnique)) (\<lambda>_.
     rbind (require (list_all (\<lambda>p. p \<noteq> []) preactivation) (Sqlite ConstraintCheck)) (\<lambda>_.
       Inr \<lparr>f_user_version = schema_version, f_application_id = application_id,
            f_objects = f_objects file @ schema,
            f_ledger = Some \<lparr>db_meta = meta, db_preactivation = preactivation, db_jobs = []\<rparr>\<rparr>)))"

subsection \<open>Verifying a ledger\<close>

fun verify_objects ::
  "(string \<times> string \<times> string) list \<Rightarrow> (string \<times> string \<times> string) list \<Rightarrow> store_error + unit" where
  "verify_objects objects [] = Inr ()"
| "verify_objects objects ((kind, name, expected) # rest) =
     (case find (\<lambda>(k, n, _). k = kind \<and> n = name) objects of
        None \<Rightarrow> Inl MissingSchema
      | Some (_, _, actual) \<Rightarrow>
          if normalize_sql actual \<noteq> normalize_sql expected then Inl InvalidSchema
          else verify_objects objects rest)"

definition verify_schema ::
  "(string \<times> string \<times> string) list \<Rightarrow> string \<Rightarrow> string \<Rightarrow> database_file \<Rightarrow> store_error + ledger_db" where
  "verify_schema schema capture_root destination file =
     rbind (require (f_application_id file = application_id) InvalidSchema) (\<lambda>_.
     rbind (require (length (filter user_object (f_objects file)) = 10)
              InvalidSchema) (\<lambda>_.
     rbind (verify_objects (f_objects file) schema) (\<lambda>_.
     rbind (ok_or (f_ledger file) (Sqlite QueryReturnedNoRows)) (\<lambda>ledger.
     let m = db_meta ledger in
     rbind (require (\<not> (m_schema_signature m \<noteq> schema_signature \<or> length (m_ledger_id m) \<noteq> 16
              \<or> m_ledger_revision m < 0 \<or> length (m_authorization m) \<noteq> 32)) InvalidSchema) (\<lambda>_.
     rbind (require (m_capture_root m = capture_root) CaptureRootMismatch) (\<lambda>_.
     rbind (require (m_destination m = destination) DestinationMismatch) (\<lambda>_.
       Inr ledger)))))))"

subsection \<open>Rotation and recovery\<close>

text \<open>\<open>WHERE state IN ('pending', 'in_progress', 'retrying')\<close>\<close>

definition live_job :: "upload_job \<Rightarrow> bool" where
  "live_job r \<longleftrightarrow> j_state r = ''pending'' \<or> j_state r = ''in_progress'' \<or> j_state r = ''retrying''"

fun unrecorded_scan ::
  "string \<Rightarrow> ledger_db \<Rightarrow> (io_error + dir_entry) list \<Rightarrow> store_error + bool" where
  "unrecorded_scan root db [] = Inr False"
| "unrecorded_scan root db (entry # rest) =
     rbind (io_err entry) (\<lambda>entry.
     case de_name entry of None \<Rightarrow> unrecorded_scan root db rest
     | Some filename \<Rightarrow>
         if \<not> is_generated_frame_filename filename then unrecorded_scan root db rest
         else if list_ex (\<lambda>p. p = path_join root filename) (db_preactivation db)
              \<or> list_ex (\<lambda>r. j_artifact_path r = path_join root filename) (db_jobs db)
         then unrecorded_scan root db rest
         else rbind (io_err (de_kind entry)) (\<lambda>kind.
           if kind = RegularFile then Inr True else unrecorded_scan root db rest))"

definition has_unrecorded_reconcilable_artifact ::
  "filesystem \<Rightarrow> string \<Rightarrow> ledger_db \<Rightarrow> store_error + bool" where
  "has_unrecorded_reconcilable_artifact fs capture_root db =
     rbind (io_err (read_dir fs capture_root)) (\<lambda>entries. unrecorded_scan capture_root db entries)"

definition rotate_authorization_if_drained ::
  "filesystem \<Rightarrow> string \<Rightarrow> u8 list \<Rightarrow> ledger_db \<Rightarrow> store_error + ledger_db" where
  "rotate_authorization_if_drained fs capture_root authorization db =
     (if m_authorization (db_meta db) \<noteq> authorization then
        rbind (if list_ex live_job (db_jobs db) then Inr True
               else has_unrecorded_reconcilable_artifact fs capture_root db) (\<lambda>blocked.
        rbind (require (\<not> blocked) AuthorizationIdentityMismatch) (\<lambda>_.
        rbind (check_meta ((db_meta db)\<lparr>m_authorization := authorization,
                 m_ledger_revision := m_ledger_revision (db_meta db) + 1\<rparr>)) (\<lambda>m.
          Inr (db\<lparr>db_meta := m\<rparr>))))
      else Inr db)"

definition recover_interrupted_jobs :: "ledger_db \<Rightarrow> store_error + ledger_db" where
  "recover_interrupted_jobs db =
     rbind (sql_update_jobs [''state'', ''next_attempt_at_ms'', ''job_revision'']
              (\<lambda>r. j_state r = ''in_progress'')
              (\<lambda>r. r\<lparr>j_state := ''pending'', j_next_attempt_at := None,
                     j_job_revision := j_job_revision r + 1\<rparr>) db)
       (\<lambda>(db', _). Inr db')"

subsection \<open>Opening\<close>

definition canonical_capture_root :: "filesystem \<Rightarrow> string \<Rightarrow> store_error + string" where
  "canonical_capture_root fs path =
     rbind (require (path_is_absolute path) (CaptureDirectoryNotAbsolute path)) (\<lambda>_.
       io_err (canonicalize fs path))"

definition normalize_destination :: "(string \<Rightarrow> string option) \<Rightarrow> string \<Rightarrow> store_error + string" where
  "normalize_destination normalize_upload_endpoint destination =
     ok_or (normalize_upload_endpoint (trim destination)) InvalidDestination"

definition prepare_database ::
  "open_env \<Rightarrow> filesystem \<Rightarrow> (string \<times> string \<times> string) list \<Rightarrow> string \<Rightarrow> string \<Rightarrow> u8 list
     \<Rightarrow> database_file \<Rightarrow> store_error + database_file" where
  "prepare_database env fs schema root destination authorization file =
     (if f_user_version file = 0 \<and> database_is_completely_empty file then
        rbind (configure_durability env) (\<lambda>_.
        rbind (inventory_generated_artifacts fs root) (\<lambda>preactivation.
        rbind (ok_or (e_random env) Randomness) (\<lambda>ledger_id.
          create_schema schema root destination authorization ledger_id preactivation file)))
      else if f_user_version file = 0 then Inl MissingSchema
      else if f_user_version file = schema_version then
        rbind (configure_durability env) (\<lambda>_. Inr file)
      else Inl (UnsupportedSchema (f_user_version file)))"

text \<open>
  The database file is returned beside the outcome: a later failure leaves the schema that was
  created, or the authorization that was rotated, in place.
\<close>

definition open_store ::
  "open_env \<Rightarrow> filesystem \<Rightarrow> (u8 list \<Rightarrow> u8 list) \<Rightarrow> (string \<Rightarrow> string option)
     \<Rightarrow> (string \<times> string \<times> string) list \<Rightarrow> string \<Rightarrow> string \<Rightarrow> u8 list \<Rightarrow> database_file
     \<Rightarrow> database_file \<times> (store_error + upload_store)" where
  "open_store env fs sha endpoint schema capture_directory destination authorization file =
     (case rbind (require (e_lease env) LedgerLease) (\<lambda>_.
           rbind (canonical_capture_root fs capture_directory) (\<lambda>root.
           rbind (normalize_destination endpoint destination) (\<lambda>dest. Inr (root, dest)))) of
        Inl e \<Rightarrow> (file, Inl e)
      | Inr (root, dest) \<Rightarrow>
          (case prepare_database env fs schema root dest authorization file of
             Inl e \<Rightarrow> (file, Inl e)
           | Inr file1 \<Rightarrow>
               (case rbind (acquire_exclusive_ownership env) (\<lambda>_. verify_schema schema root dest file1) of
                  Inl e \<Rightarrow> (file1, Inl e)
                | Inr ledger1 \<Rightarrow>
                    (case rotate_authorization_if_drained fs root authorization ledger1 of
                       Inl e \<Rightarrow> (file1, Inl e)
                     | Inr ledger2 \<Rightarrow>
                         (case recover_interrupted_jobs ledger2 of
                            Inl e \<Rightarrow> (file1\<lparr>f_ledger := Some ledger2\<rparr>, Inl e)
                          | Inr ledger3 \<Rightarrow>
                              (file1\<lparr>f_ledger := Some ledger3\<rparr>,
                               if length (m_ledger_id (db_meta ledger3)) = 16
                               then Inr \<lparr>s_db = ledger3, s_capture_root = root,
                                    s_ledger_id = m_ledger_id (db_meta ledger3),
                                    s_delivery_binding = delivery_binding_derive sha dest authorization\<rparr>
                               else Inl InvalidSchema))))))"

end
