(* ===== verification/LedgerRows.thy ===== *)
theory LedgerRows
  imports LedgerOps
begin

text \<open>
  The operator's view of a job row (\<open>UploadListItem\<close>), with every check its decoder makes, and
  the requeue of a permanently failed job after its local bytes were verified again.
\<close>

subsection \<open>List items\<close>

record upload_list_item =
  li_job_id :: upload_job_id
  li_artifact_path :: string
  li_filename :: string
  li_file_size :: nat
  li_sha256 :: "u8 list"
  li_state :: upload_state
  li_attempt_count :: nat
  li_next_attempt_at :: "nat option"
  li_last_http_status :: "nat option"
  li_last_error :: "string option"
  li_created_at :: nat
  li_updated_at :: nat
  li_completed_at :: "nat option"
  li_last_failure_at :: "nat option"
  li_job_revision :: nat
  li_requeue_count :: nat
  li_last_requeued_at :: "nat option"
  li_delivery_binding_is_current :: bool

definition into_list_item ::
  "string \<Rightarrow> u8 list \<Rightarrow> upload_job \<Rightarrow> store_error + upload_list_item" where
  "into_list_item capture_root current_delivery_binding raw =
     rbind (job_id_from_database (j_id raw)) (\<lambda>job_id.
     rbind (sha256_from_database job_id (j_sha256 raw)) (\<lambda>sha256.
     rbind (delivery_binding_from_database job_id (j_delivery_binding raw)) (\<lambda>binding.
     rbind (validate_stored_identity job_id (j_artifact_path raw) (j_filename raw)
              (j_idempotency_key raw) sha256 capture_root) (\<lambda>artifact_path.
     rbind (database_u64 ''file_size'' (j_file_size raw)) (\<lambda>file_size.
     rbind (state_from_database (j_state raw)) (\<lambda>state.
     rbind (database_u64 ''attempt_count'' (j_attempt_count raw)) (\<lambda>attempt_count.
     rbind (optional_database_u64 ''next_attempt_at_ms'' (j_next_attempt_at raw)) (\<lambda>next_attempt_at.
     rbind (optional_database_u16 ''last_http_status'' (j_last_http_status raw)) (\<lambda>last_http_status.
     rbind (database_u64 ''created_at_ms'' (j_created_at raw)) (\<lambda>created_at.
     rbind (database_u64 ''updated_at_ms'' (j_updated_at raw)) (\<lambda>updated_at.
     rbind (optional_database_u64 ''completed_at_ms'' (j_completed_at raw)) (\<lambda>completed_at.
     rbind (optional_database_u64 ''last_failure_at_ms'' (j_last_failure_at raw)) (\<lambda>last_failure_at.
     rbind (database_u64 ''job_revision'' (j_job_revision raw)) (\<lambda>job_revision.
     rbind (database_u64 ''requeue_count'' (j_requeue_count raw)) (\<lambda>requeue_count.
     rbind (optional_database_u64 ''last_requeued_at_ms'' (j_last_requeued_at raw)) (\<lambda>last_requeued_at.
       Inr \<lparr>li_job_id = job_id, li_artifact_path = artifact_path, li_filename = j_filename raw,
            li_file_size = file_size, li_sha256 = sha256, li_state = state,
            li_attempt_count = attempt_count, li_next_attempt_at = next_attempt_at,
            li_last_http_status = last_http_status, li_last_error = j_last_error raw,
            li_created_at = created_at, li_updated_at = updated_at,
            li_completed_at = completed_at, li_last_failure_at = last_failure_at,
            li_job_revision = job_revision, li_requeue_count = requeue_count,
            li_last_requeued_at = last_requeued_at,
            li_delivery_binding_is_current = (binding = current_delivery_binding)\<rparr>))))))))))))))))"

definition collect_list_items ::
  "string \<Rightarrow> u8 list \<Rightarrow> upload_job list \<Rightarrow> store_error + upload_list_item list" where
  "collect_list_items capture_root current_delivery_binding rows =
     collect_results (into_list_item capture_root current_delivery_binding) rows"

subsection \<open>Requeue\<close>

record requeue_request =
  rq_ledger_id :: "u8 list"
  rq_job_id :: upload_job_id
  rq_expected_job_revision :: nat

record requeue_outcome =
  ro_ledger_revision :: nat
  ro_job :: upload_list_item

definition unavailable_or_io :: "io_error + 'a \<Rightarrow> store_error + 'a" where
  "unavailable_or_io r =
     (case r of Inr x \<Rightarrow> Inr x
      | Inl NotFound \<Rightarrow> Inl RequeueArtifactUnavailable
      | Inl e \<Rightarrow> Inl (StoreIo e))"

definition open_verified_requeue_artifact ::
  "filesystem \<Rightarrow> (u8 list \<Rightarrow> u8 list) \<Rightarrow> string \<Rightarrow> nat \<Rightarrow> u8 list \<Rightarrow> store_error + opened_file" where
  "open_verified_requeue_artifact fs sha path expected_size expected_sha256 =
     rbind (unavailable_or_io (symlink_metadata fs path)) (\<lambda>kind.
     rbind (require (\<not> (kind = Symlink \<or> kind \<noteq> RegularFile)) RequeueArtifactUnavailable) (\<lambda>_.
     rbind (unavailable_or_io (canonicalize fs path)) (\<lambda>canonical.
     rbind (require (path_eq canonical path) RequeueArtifactUnavailable) (\<lambda>_.
     rbind (unavailable_or_io (open_for_read fs path)) (\<lambda>file.
     rbind (require (of_kind file = RegularFile) RequeueArtifactUnavailable) (\<lambda>_.
     rbind (require (of_len file = expected_size) RequeueArtifactChanged) (\<lambda>_.
     rbind (require (\<not> (of_final_len file \<noteq> expected_size \<or> sha (of_bytes file) \<noteq> expected_sha256))
              RequeueArtifactChanged) (\<lambda>_.
       Inr file))))))))"

definition requeue_permanently_failed ::
  "filesystem \<Rightarrow> (u8 list \<Rightarrow> u8 list) \<Rightarrow> requeue_request \<Rightarrow> nat \<Rightarrow> upload_store
     \<Rightarrow> store_error + requeue_outcome \<times> upload_store" where
  "requeue_permanently_failed fs sha request requeued_at_unix_ms store =
     rbind (require (rq_ledger_id request = s_ledger_id store) RequeueLedgerMismatch) (\<lambda>_.
     rbind (unix_ms_to_database requeued_at_unix_ms) (\<lambda>requeued_at.
     rbind (ok_or (if int (rq_expected_job_revision request) \<le> i64_max
                   then Some (int (rq_expected_job_revision request)) else None)
              RequeueStaleJobRevision) (\<lambda>expected_job_revision.
     rbind (ok_or (find (\<lambda>r. j_id r = job_id_value (rq_job_id request)) (s_jobs store))
              RequeueJobNotFound) (\<lambda>raw.
     rbind (require (j_state raw = ''permanently_failed'') RequeueWrongState) (\<lambda>_.
     rbind (require (j_job_revision raw = expected_job_revision) RequeueStaleJobRevision) (\<lambda>_.
     rbind (delivery_binding_from_database (rq_job_id request) (j_delivery_binding raw)) (\<lambda>binding.
     rbind (require (binding = s_delivery_binding store) RequeueDeliveryBindingMismatch) (\<lambda>_.
     rbind (sha256_from_database (rq_job_id request) (j_sha256 raw)) (\<lambda>sha256.
     rbind (validate_stored_identity (rq_job_id request) (j_artifact_path raw) (j_filename raw)
              (j_idempotency_key raw) sha256 (s_capture_root store)) (\<lambda>artifact_path.
     rbind (database_u64 ''file_size'' (j_file_size raw)) (\<lambda>file_size.
     rbind (open_verified_requeue_artifact fs sha artifact_path file_size sha256) (\<lambda>verified_file.
     rbind (ok_or (checked_add_i64 (j_job_revision raw) 1) (JobRevisionOverflow (rq_job_id request)))
       (\<lambda>next_job_revision.
     rbind (ok_or (checked_add_i64 (j_requeue_count raw) 1) (RequeueCountOverflow (rq_job_id request)))
       (\<lambda>next_requeue_count.
     rbind (sql_update_jobs
              [''state'', ''next_attempt_at_ms'', ''updated_at_ms'', ''job_revision'',
               ''requeue_count'', ''last_requeued_at_ms'']
              (\<lambda>r. j_id r = job_id_value (rq_job_id request) \<and> j_state r = ''permanently_failed''
                 \<and> j_job_revision r = expected_job_revision
                 \<and> j_delivery_binding r = s_delivery_binding store
                 \<and> m_ledger_id (db_meta (s_db store)) = s_ledger_id store)
              (\<lambda>r. r\<lparr>j_state := ''pending'', j_next_attempt_at := None, j_updated_at := requeued_at,
                     j_job_revision := next_job_revision, j_requeue_count := next_requeue_count,
                     j_last_requeued_at := Some requeued_at\<rparr>)
              (s_db store)) (\<lambda>(db, changed).
     rbind (require (changed = 1) RequeueStaleJobRevision) (\<lambda>_.
     rbind (ok_or (find (\<lambda>r. j_id r = job_id_value (rq_job_id request)) (db_jobs db))
              (Sqlite QueryReturnedNoRows)) (\<lambda>updated.
     rbind (into_list_item (s_capture_root store) (s_delivery_binding store) updated) (\<lambda>job.
     rbind (database_u64 ''ledger_revision'' (m_ledger_revision (db_meta db))) (\<lambda>ledger_revision.
       Inr (\<lparr>ro_ledger_revision = ledger_revision, ro_job = job\<rparr>, store\<lparr>s_db := db\<rparr>))))))))))))))))))))"

end
