(* ===== verification/Ledger.thy ===== *)
theory Ledger
  imports LedgerOpen LedgerRows
begin

text \<open>
  The upload ledger as a transition system: the abstract life cycle of a job, the step relation
  of the store (every operation, and reopening after a crash), the store invariant, and the
  refinement of the life cycle by the operations. From these follow the properties of the
  ledger: exact counters, append-only history, fencing of claims, terminal completion.
\<close>

subsection \<open>The life cycle of a job\<close>

text \<open>The contract the store promises to its clients, one transition per kind of update.\<close>

inductive lifecycle :: "upload_state \<Rightarrow> upload_state \<Rightarrow> bool" where
  claimed_pending: "lifecycle Pending InProgress"
| claimed_retry: "lifecycle Retrying InProgress"
| released: "lifecycle InProgress Pending"
| retried: "lifecycle InProgress Retrying"
| finished: "lifecycle InProgress Completed"
| failed: "lifecycle InProgress PermanentlyFailed"
| requeued: "lifecycle PermanentlyFailed Pending"

code_pred lifecycle .

inductive_cases lifecycle_fromE: "lifecycle Completed s"
inductive_cases lifecycle_toE: "lifecycle s InProgress"
inductive_simps lifecycle_simps: "lifecycle a b"

lemma completed_is_final: "\<not> lifecycle Completed s"
  by (auto elim: lifecycle_fromE)

text \<open>One update of one row, as its readers may rely on it.\<close>

definition job_moves :: "upload_job \<Rightarrow> upload_job \<Rightarrow> bool" where
  "job_moves r r' \<longleftrightarrow>
     job_identity r' = job_identity r
     \<and> j_job_revision r' = j_job_revision r + 1
     \<and> (\<exists>a b. j_state r = state_text a \<and> j_state r' = state_text b \<and> lifecycle a b
          \<and> j_attempt_count r' = j_attempt_count r + b2i (b = InProgress)
          \<and> j_requeue_count r' = j_requeue_count r + b2i (a = PermanentlyFailed))"

definition job_evolves :: "upload_job \<Rightarrow> upload_job \<Rightarrow> bool" where
  "job_evolves r r' \<longleftrightarrow> r' = r \<or> job_moves r r'"

text \<open>A new row starts its life pending, unattempted, at revision one.\<close>

definition fresh_job :: "upload_job \<Rightarrow> bool" where
  "fresh_job r \<longleftrightarrow> j_state r = ''pending'' \<and> j_attempt_count r = 0 \<and> j_job_revision r = 1
     \<and> j_requeue_count r = 0"

definition jobs_evolve :: "upload_job list \<Rightarrow> upload_job list \<Rightarrow> bool" where
  "jobs_evolve rows rows' \<longleftrightarrow>
     (\<exists>old new. rows' = old @ new \<and> list_all2 job_evolves rows old \<and> list_all fresh_job new)"

lemma job_evolves_refl [simp]: "job_evolves r r"
  by (simp add: job_evolves_def)

lemma jobs_evolve_refl [simp]: "jobs_evolve rows rows"
  unfolding jobs_evolve_def by (intro exI [of _ rows] exI [of _ "[]"]) (simp add: list.rel_refl)

lemma jobs_evolve_map:
  assumes "\<And>r. r \<in> set rows \<Longrightarrow> condition r \<Longrightarrow> job_moves r (assign r)"
  shows "jobs_evolve rows (map (\<lambda>r. if condition r then assign r else r) rows)"
proof -
  have "list_all2 job_evolves rows (map (\<lambda>r. if condition r then assign r else r) rows)"
    using assms by (induction rows) (auto simp: job_evolves_def)
  then show ?thesis unfolding jobs_evolve_def by (intro exI [of _ "[]"] exI) auto
qed

subsection \<open>The store invariant\<close>

definition job_belongs :: "string \<Rightarrow> u8 list \<Rightarrow> upload_job \<Rightarrow> bool" where
  "job_belongs root binding r \<longleftrightarrow>
     stored_identity_ok (j_artifact_path r) (j_filename r) (j_idempotency_key r) (j_sha256 r) root
     \<and> (live_job r \<longrightarrow> j_delivery_binding r = binding)"

definition preactivation_ok :: "string \<Rightarrow> string \<Rightarrow> bool" where
  "preactivation_ok root path \<longleftrightarrow> validate_preactivation_artifact_path path root = Inr path"

definition store_inv :: "(u8 list \<Rightarrow> u8 list) \<Rightarrow> upload_store \<Rightarrow> bool" where
  "store_inv sha store \<longleftrightarrow>
     ledger_inv (s_db store)
     \<and> path_is_absolute (s_capture_root store)
     \<and> m_capture_root (db_meta (s_db store)) = s_capture_root store
     \<and> m_ledger_id (db_meta (s_db store)) = s_ledger_id store
     \<and> s_delivery_binding store = delivery_binding_derive sha
          (m_destination (db_meta (s_db store))) (m_authorization (db_meta (s_db store)))
     \<and> list_all (job_belongs (s_capture_root store) (s_delivery_binding store)) (s_jobs store)
     \<and> list_all (preactivation_ok (s_capture_root store)) (db_preactivation (s_db store))"

lemmas store_inv_simps = store_inv_def list_all_iff

lemma store_inv_ledger: "store_inv sha store \<Longrightarrow> ledger_inv (s_db store)"
  by (simp add: store_inv_def)

lemma store_inv_job:
  assumes "store_inv sha store" and "r \<in> set (s_jobs store)"
  shows "job_checks r" "job_in_range r" "0 < j_id r"
    "stored_identity_ok (j_artifact_path r) (j_filename r) (j_idempotency_key r) (j_sha256 r)
       (s_capture_root store)"
    "live_job r \<Longrightarrow> j_delivery_binding r = s_delivery_binding store"
  using assms by (auto simp: store_inv_def ledger_inv_def list_all_iff job_belongs_def)

text \<open>What every operation that only touches rows keeps, stated once for all of them.\<close>

definition store_frame :: "upload_store \<Rightarrow> upload_store \<Rightarrow> bool" where
  "store_frame s s' \<longleftrightarrow>
     s_capture_root s' = s_capture_root s \<and> s_ledger_id s' = s_ledger_id s
     \<and> s_delivery_binding s' = s_delivery_binding s
     \<and> meta_identity (db_meta (s_db s')) = meta_identity (db_meta (s_db s))
     \<and> m_authorization (db_meta (s_db s')) = m_authorization (db_meta (s_db s))
     \<and> db_preactivation (s_db s') = db_preactivation (s_db s)"

lemma lifecycle_live:
  "lifecycle a b \<Longrightarrow> b \<in> {Pending, InProgress, Retrying} \<Longrightarrow>
     a \<in> {Pending, InProgress, Retrying} \<or> a = PermanentlyFailed \<and> b = Pending"
  by (auto simp: lifecycle_simps)

text \<open>
  An UPDATE whose assignments follow the life cycle keeps the store invariant, provided a row
  that becomes live carries the current delivery binding.
\<close>

lemma update_step:
  assumes run: "sql_update_jobs columns condition assign (s_db s) = Inr (db, n)"
    and inv: "store_inv sha s"
    and moves: "\<And>r. r \<in> set (s_jobs s) \<Longrightarrow> condition r \<Longrightarrow> job_moves r (assign r)"
    and frame: "\<And>r. job_identity (assign r) = job_identity r"
    and binding: "\<And>r. r \<in> set (s_jobs s) \<Longrightarrow> condition r \<Longrightarrow> live_job (assign r) \<Longrightarrow>
      live_job r \<or> j_delivery_binding r = s_delivery_binding s"
  shows "store_inv sha (s\<lparr>s_db := db\<rparr>)"
    and "jobs_evolve (s_jobs s) (db_jobs db)"
    and "store_frame s (s\<lparr>s_db := db\<rparr>)"
    and "m_ledger_revision (db_meta db) = m_ledger_revision (db_meta (s_db s)) + int n"
    and "n = 0 \<Longrightarrow> db = s_db s"
proof -
  note effect = sql_update_jobs_effect [OF run]
  show evolve: "jobs_evolve (s_jobs s) (db_jobs db)"
    unfolding effect(1) by (rule jobs_evolve_map) (rule moves)
  show framed: "store_frame s (s\<lparr>s_db := db\<rparr>)"
    using effect(5-7) by (simp add: store_frame_def)
  show "m_ledger_revision (db_meta db) = m_ledger_revision (db_meta (s_db s)) + int n"
    by (rule effect(4))
  show "db = s_db s" if "n = 0"
    using run sql_update_jobs_none unfolding that by blast
  have ident: "job_belongs root b r \<Longrightarrow> (live_job (assign r) \<Longrightarrow> live_job r \<or> j_delivery_binding r = b)
      \<Longrightarrow> job_belongs root b (assign r)" for root b r
    using frame [of r] by (auto simp: job_belongs_def job_identity_def)
  have "list_all (job_belongs (s_capture_root s) (s_delivery_binding s)) (db_jobs db)"
    unfolding effect(1) list_all_iff
    using inv binding ident by (auto simp: store_inv_simps)
  moreover have "ledger_inv db"
    using sql_update_jobs_inv [OF run store_inv_ledger [OF inv] frame] .
  ultimately show "store_inv sha (s\<lparr>s_db := db\<rparr>)"
    using inv framed by (simp add: store_inv_def store_frame_def meta_identity_def)
qed

subsection \<open>Every operation advances the store\<close>

text \<open>
  The common guarantee of all operations: the invariant holds afterwards, history is only
  appended to and evolves along the life cycle, the identity of the ledger stays, and either
  nothing changed or the ledger revision grew.
\<close>

abbreviation ledger_revision :: "upload_store \<Rightarrow> int" where
  "ledger_revision s \<equiv> m_ledger_revision (db_meta (s_db s))"

definition advances :: "(u8 list \<Rightarrow> u8 list) \<Rightarrow> upload_store \<Rightarrow> upload_store \<Rightarrow> bool" where
  "advances sha s s' \<longleftrightarrow>
     store_inv sha s' \<and> jobs_evolve (s_jobs s) (s_jobs s')
     \<and> s_capture_root s' = s_capture_root s \<and> s_ledger_id s' = s_ledger_id s
     \<and> meta_identity (db_meta (s_db s')) = meta_identity (db_meta (s_db s))
     \<and> db_preactivation (s_db s') = db_preactivation (s_db s)
     \<and> (s' = s \<or> ledger_revision s < ledger_revision s')"

lemma advances_refl: "store_inv sha s \<Longrightarrow> advances sha s s"
  by (simp add: advances_def)

lemma update_advances:
  assumes "sql_update_jobs columns condition assign (s_db s) = Inr (db, n)"
    and "store_inv sha s"
    and "\<And>r. r \<in> set (s_jobs s) \<Longrightarrow> condition r \<Longrightarrow> job_moves r (assign r)"
    and "\<And>r. job_identity (assign r) = job_identity r"
    and "\<And>r. r \<in> set (s_jobs s) \<Longrightarrow> condition r \<Longrightarrow> live_job (assign r) \<Longrightarrow>
      live_job r \<or> j_delivery_binding r = s_delivery_binding s"
  shows "advances sha s (s\<lparr>s_db := db\<rparr>)"
proof (cases "n = 0")
  case True
  then show ?thesis using update_step(5) [OF assms] assms(2) by (simp add: advances_refl)
next
  case False
  then show ?thesis using update_step(1-4) [OF assms] by (simp add: advances_def store_frame_def)
qed

lemma waiting_cases: "waiting r \<longleftrightarrow> j_state r = state_text Pending \<or> j_state r = state_text Retrying"
  by (simp add: waiting_def)

lemma waiting_live: "waiting r \<Longrightarrow> live_job r"
  by (auto simp: waiting_def live_job_def)

text \<open>The moves of the individual statements.\<close>

lemma job_movesI:
  assumes "lifecycle a b" and "j_state r = state_text a" and "j_state r' = state_text b"
    and "job_identity r' = job_identity r" and "j_job_revision r' = j_job_revision r + 1"
    and "j_attempt_count r' = j_attempt_count r + b2i (b = InProgress)"
    and "j_requeue_count r' = j_requeue_count r + b2i (a = PermanentlyFailed)"
  shows "job_moves r r'"
  unfolding job_moves_def using assms by blast

lemma move_claim:
  assumes "waiting r" and "attempt = j_attempt_count r + 1"
  shows "job_moves r (r\<lparr>j_state := ''in_progress'', j_attempt_count := attempt, j_next_attempt_at := None,
      j_updated_at := now, j_job_revision := j_job_revision r + 1\<rparr>)"
proof -
  obtain a where "j_state r = state_text a" "a = Pending \<or> a = Retrying"
    using assms(1) unfolding waiting_cases by blast
  then show ?thesis
    by (intro job_movesI [of a InProgress])
      (auto simp: assms(2) job_identity_def lifecycle_simps b2i_def)
qed

lemma move_from_progress:
  assumes "j_state r = ''in_progress''" and "lifecycle InProgress b"
    and "j_state r' = state_text b" and "job_identity r' = job_identity r"
    and "j_job_revision r' = j_job_revision r + 1" and "j_attempt_count r' = j_attempt_count r"
    and "j_requeue_count r' = j_requeue_count r"
  shows "job_moves r r'"
  using assms by (intro job_movesI [of InProgress b]) (auto simp: b2i_def lifecycle_simps)

lemma move_requeue:
  assumes "j_state r = ''permanently_failed''" and "j_job_revision r + 1 = revision"
    and "j_requeue_count r + 1 = count"
  shows "job_moves r (r\<lparr>j_state := ''pending'', j_next_attempt_at := None, j_updated_at := now,
    j_job_revision := revision, j_requeue_count := count, j_last_requeued_at := at\<rparr>)"
  using assms
  by (intro job_movesI [of PermanentlyFailed Pending])
    (auto simp: b2i_def lifecycle_simps job_identity_def)

lemma live_in_progress: "j_state r = ''in_progress'' \<Longrightarrow> live_job r"
  by (simp add: live_job_def)

lemma claim_due_Inr:
  assumes "claim_due now_ms s = Inr (res, s')"
  obtains (idle) "res = None" "s' = s"
      "first_due (filter (\<lambda>r. waiting r \<and> due_at r \<le> int now_ms) (s_jobs s)) = None"
  | (claimed) candidate job_id claim attempt db where
      "first_due (filter (\<lambda>r. waiting r \<and> due_at r \<le> int now_ms) (s_jobs s)) = Some candidate"
      "job_id_from_database (j_id candidate) = Inr job_id"
      "into_claim job_id (s_capture_root s) (s_delivery_binding s) candidate = Inr claim"
      "attempt = int (c_attempt_count claim) + 1" "attempt \<le> i64_max"
      "sql_update_jobs
         [''state'', ''attempt_count'', ''next_attempt_at_ms'', ''updated_at_ms'', ''job_revision'']
         (\<lambda>r. j_id r = job_id_value job_id \<and> waiting r \<and> due_at r \<le> int now_ms)
         (\<lambda>r. r\<lparr>j_state := ''in_progress'', j_attempt_count := attempt,
                j_next_attempt_at := None, j_updated_at := int now_ms,
                j_job_revision := j_job_revision r + 1\<rparr>)
         (s_db s) = Inr (db, 1)"
      "res = Some (claim\<lparr>c_attempt_count := nat attempt\<rparr>)" "s' = s\<lparr>s_db := db\<rparr>"
proof (cases "first_due (filter (\<lambda>r. waiting r \<and> due_at r \<le> int now_ms) (s_jobs s))")
  case None
  with assms have "res = None" "s' = s"
    by (auto simp: claim_due_def result_simps unix_ms_to_database_Inr)
  with None idle show thesis by blast
next
  case (Some candidate)
  with assms claimed show thesis
    by (auto simp: claim_due_def result_simps unix_ms_to_database_Inr checked_add_i64_Some
        database_u64_def split: if_splits)
qed

lemma first_due_None: "first_due rows = None \<longleftrightarrow> rows = []"
  by (cases rows) (auto split: option.splits)

lemma due_before_total: "due_before a b \<or> due_before b a"
  by (auto simp: due_before_def)

lemma due_before_trans: "due_before a b \<Longrightarrow> due_before b c \<Longrightarrow> due_before a c"
  by (auto simp: due_before_def)

lemma due_before_refl: "due_before a a"
  using due_before_total by blast

lemma first_due_Some:
  "first_due rows = Some r \<Longrightarrow> r \<in> set rows \<and> (\<forall>q \<in> set rows. due_before r q)"
proof (induction rows arbitrary: r)
  case (Cons q rows)
  show ?case
  proof (cases "first_due rows")
    case None
    with Cons.prems show ?thesis by (auto simp: first_due_None due_before_refl)
  next
    case (Some best)
    with Cons.IH [OF Some] Cons.prems show ?thesis
      by (auto split: if_splits simp: due_before_refl dest: due_before_trans
          intro: due_before_trans) (meson due_before_total)?
  qed
qed simp

lemma into_claim_Inr:
  assumes "into_claim job_id root binding raw = Inr claim"
  shows "c_job_id claim = job_id" "int (c_attempt_count claim) = j_attempt_count raw"
    "c_artifact_path claim = j_artifact_path raw" "c_filename claim = j_filename raw"
    "c_idempotency_key claim = j_idempotency_key raw" "c_sha256 claim = j_sha256 raw"
    "int (c_file_size claim) = j_file_size raw" "j_delivery_binding raw = binding"
    "stored_identity_ok (j_artifact_path raw) (j_filename raw) (j_idempotency_key raw) (j_sha256 raw) root"
  using assms
  by (auto simp: into_claim_def result_simps sha256_from_database_def
      delivery_binding_from_database_def validate_stored_identity_def database_u64_def
      split: if_splits)

lemma claim_due_advances:
  assumes "claim_due now_ms s = Inr (res, s')" and inv: "store_inv sha s"
  shows "advances sha s s'"
  using assms(1)
proof (cases rule: claim_due_Inr)
  case idle
  then show ?thesis using inv by (simp add: advances_refl)
next
  case (claimed candidate job_id claim attempt db)
  note candidate = first_due_Some [OF claimed(1)]
  have same: "r = candidate" if "r \<in> set (s_jobs s)" "j_id r = job_id_value job_id" for r
    using ledger_inv_unique_id [OF store_inv_ledger [OF inv]] that candidate claimed(2)
    by (auto simp: job_id_from_database_Inr)
  have "attempt = j_attempt_count candidate + 1"
    using into_claim_Inr(2) [OF claimed(3)] claimed(4) by simp
  with same have "advances sha s (s\<lparr>s_db := db\<rparr>)"
    by (intro update_advances [OF claimed(6) inv] move_claim)
      (auto simp: job_identity_def dest: waiting_live)
  then show ?thesis by (simp add: claimed(8))
qed

lemma finish_advances:
  assumes run: "sql_update_jobs columns (claim_matches claim attempt) assign (s_db s) = Inr (db, n)"
    and inv: "store_inv sha s"
    and target: "lifecycle InProgress b" "\<And>r. j_state (assign r) = state_text b"
    and frame: "\<And>r. job_identity (assign r) = job_identity r"
      "\<And>r. j_job_revision (assign r) = j_job_revision r + 1"
      "\<And>r. j_attempt_count (assign r) = j_attempt_count r"
      "\<And>r. j_requeue_count (assign r) = j_requeue_count r"
  shows "advances sha s (s\<lparr>s_db := db\<rparr>)"
  by (rule update_advances [OF run inv])
    (auto simp: claim_matches_def frame intro: move_from_progress [OF _ target(1)] target frame
      live_in_progress)

lemma release_claim_advances:
  assumes "release_claim claim now s = Inr s'" and "store_inv sha s"
  shows "advances sha s s'"
  using assms unfolding release_claim_def
  by (auto simp: result_simps job_identity_def intro!: finish_advances [where b = Pending] lifecycle.intros)

lemma mark_retrying_advances:
  assumes "mark_retrying claim failed next status err s = Inr s'" and "store_inv sha s"
  shows "advances sha s s'"
  using assms unfolding mark_retrying_def
  by (auto simp: result_simps job_identity_def intro!: finish_advances [where b = Retrying] lifecycle.intros)

lemma mark_completed_advances:
  assumes "mark_completed claim at status s = Inr s'" and "store_inv sha s"
  shows "advances sha s s'"
  using assms unfolding mark_completed_def
  by (auto simp: result_simps job_identity_def intro!: finish_advances [where b = Completed] lifecycle.intros)

lemma mark_permanently_failed_advances:
  assumes "mark_permanently_failed claim at status err s = Inr s'" and "store_inv sha s"
  shows "advances sha s s'"
  using assms unfolding mark_permanently_failed_def
  by (auto simp: result_simps job_identity_def
      intro!: finish_advances [where b = PermanentlyFailed] lifecycle.intros)

lemma requeue_advances:
  assumes "requeue_permanently_failed fs sha request now s = Inr (out, s')" and inv: "store_inv sha s"
  shows "advances sha s s'"
proof -
  from assms(1) obtain raw requeued_at expected revision count db n where
    raw: "find (\<lambda>r. j_id r = job_id_value (rq_job_id request)) (s_jobs s) = Some raw"
    and numbers: "revision = j_job_revision raw + 1" "count = j_requeue_count raw + 1"
    and run: "sql_update_jobs
        [''state'', ''next_attempt_at_ms'', ''updated_at_ms'', ''job_revision'',
         ''requeue_count'', ''last_requeued_at_ms'']
        (\<lambda>r. j_id r = job_id_value (rq_job_id request) \<and> j_state r = ''permanently_failed''
           \<and> j_job_revision r = expected
           \<and> j_delivery_binding r = s_delivery_binding s
           \<and> m_ledger_id (db_meta (s_db s)) = s_ledger_id s)
        (\<lambda>r. r\<lparr>j_state := ''pending'', j_next_attempt_at := None, j_updated_at := requeued_at,
               j_job_revision := revision, j_requeue_count := count,
               j_last_requeued_at := Some requeued_at\<rparr>)
        (s_db s) = Inr (db, n)"
    and s': "s' = s\<lparr>s_db := db\<rparr>"
    unfolding requeue_permanently_failed_def
    by (auto simp: result_simps checked_add_i64_Some)
  have "raw \<in> set (s_jobs s)" "j_id raw = job_id_value (rq_job_id request)"
    using raw by (auto simp: find_Some_iff)
  then have same: "r = raw" if "r \<in> set (s_jobs s)" "j_id r = job_id_value (rq_job_id request)" for r
    using ledger_inv_unique_id [OF store_inv_ledger [OF inv]] that by metis
  have "advances sha s (s\<lparr>s_db := db\<rparr>)"
    by (rule update_advances [OF run inv])
      (use same numbers in \<open>auto intro!: move_requeue simp: job_identity_def\<close>)
  then show ?thesis by (simp add: s')
qed

end
