(* ===== verification/LedgerSteps.thy ===== *)
theory LedgerSteps
  imports Ledger
begin

text \<open>
  The remaining operations of the upload ledger that change its state (recording an artifact,
  rotating the authorization identity, recovering interrupted claims, opening) advance the
  store as well; the step relation of the whole ledger, and its two interpretations: as a
  system with an invariant, and as a system with a revision counter.
\<close>

subsection \<open>Recording\<close>

lemma path_components_absolute:
  "path_components p = RootDir # rest \<Longrightarrow> path_is_absolute p"
  by (auto simp: path_components_def path_part_def Let_def split: if_splits list.splits)

lemma path_components_of_absolute:
  "path_is_absolute p \<Longrightarrow> \<exists>rest. path_components p = RootDir # rest"
  by (simp add: path_components_def Let_def)

lemma child_is_absolute:
  assumes "path_parent p = Some (path_components root)" and "path_is_absolute root"
  shows "path_is_absolute p"
proof -
  obtain rest where root: "path_components root = RootDir # rest"
    using path_components_of_absolute [OF assms(2)] by blast
  obtain c tl where rev: "rev (path_components p) = c # tl"
    using assms(1) by (cases "rev (path_components p)") (auto simp: path_parent_def)
  then have "rev tl = RootDir # rest"
    using assms(1) root by (auto simp: path_parent_def split: component.splits)
  moreover have "path_components p = rev tl @ [c]"
    using rev by (metis rev.simps(2) rev_rev_ident)
  ultimately show ?thesis using path_components_absolute by simp
qed

lemma guarded_option_Some:
  "(case x of None \<Rightarrow> None | Some n \<Rightarrow> if P n then Some n else None) = Some m \<longleftrightarrow> x = Some m \<and> P m"
  by (auto split: option.splits)

lemma artifact_values_read_Inr:
  assumes "artifact_values_read fs sha path root = Inr values" and "path_is_absolute root"
  shows "stored_identity_ok (av_artifact_path values) (av_filename values)
      (av_idempotency_key values) (av_sha256 values) root"
proof -
  from assms(1) have parent: "path_parent (av_artifact_path values) = Some (path_components root)"
    and name: "path_file_name (av_artifact_path values) = Some (av_filename values)"
      "is_generated_frame_filename (av_filename values)"
      "av_idempotency_key values = idempotency_key (av_filename values) (av_sha256 values)"
    by (auto simp: artifact_values_read_def result_simps Let_def guarded_option_Some)
  then show ?thesis
    using child_is_absolute [OF parent assms(2)] by (simp add: stored_identity_ok_def)
qed

lemma find_SomeD: "find P xs = Some x \<Longrightarrow> x \<in> set xs \<and> P x"
  by (induction xs) (auto split: if_splits)

lemma record_artifact_Inr:
  assumes "record_artifact fs sha path at s = Inr ((job_id, disposition), s')"
  obtains vals db n where
    "artifact_values_read fs sha path (s_capture_root s) = Inr vals"
    "sql_insert_job (new_job vals (s_delivery_binding s) (int at)) (s_db s) = Inr (db, n)"
    "s' = s\<lparr>s_db := db\<rparr>" "disposition = (if n = 1 then Inserted else AlreadyRecorded)"
    "\<exists>r \<in> set (db_jobs db). j_artifact_path r = av_artifact_path vals \<and> j_id r = job_id_value job_id"
proof -
  from assms obtain vals db n existing where
    "artifact_values_read fs sha path (s_capture_root s) = Inr vals"
    "sql_insert_job (new_job vals (s_delivery_binding s) (int at)) (s_db s) = Inr (db, n)"
    and found: "find (\<lambda>r. j_artifact_path r = av_artifact_path vals) (db_jobs db) = Some existing"
    "job_id_from_database (j_id existing) = Inr job_id"
    and "s' = s\<lparr>s_db := db\<rparr>" "disposition = (if n = 1 then Inserted else AlreadyRecorded)"
    by (auto simp: record_artifact_def result_simps unix_ms_to_database_Inr)
  moreover have "\<exists>r \<in> set (db_jobs db). j_artifact_path r = av_artifact_path vals
      \<and> j_id r = job_id_value job_id"
    using find_SomeD [OF found(1)] found(2) by (auto simp: job_id_from_database_Inr)
  ultimately show thesis using that by blast
qed

lemma record_artifact_advances:
  assumes "record_artifact fs sha path at s = Inr (res, s')" and inv: "store_inv sha s"
  shows "advances sha s s'"
proof -
  obtain job_id disposition where res: "res = (job_id, disposition)" by (cases res)
  from assms(1) [unfolded res] show ?thesis
  proof (cases rule: record_artifact_Inr)
    case (1 vals db n)
    let ?new = "(new_job vals (s_delivery_binding s) (int at))\<lparr>j_id := next_rowid (s_jobs s)\<rparr>"
    have ledger: "ledger_inv db"
      by (rule sql_insert_job_inv [OF 1(2) store_inv_ledger [OF inv]])
    show ?thesis
    proof (cases "db = s_db s")
      case True
      then show ?thesis using 1(3) inv by (simp add: advances_refl)
    next
      case False
      then have jobs: "db_jobs db = s_jobs s @ [?new]"
        and trigger: "after_insert_trigger ?new (db_meta (s_db s)) = Inr (db_meta db)"
        and pre: "db_preactivation db = db_preactivation (s_db s)"
        using sql_insert_job_effect [OF 1(2)] by auto
      note meta = after_insert_trigger_Inr(1-3) [OF trigger]
      have "path_is_absolute (s_capture_root s)" using inv by (simp add: store_inv_def)
      then have "job_belongs (s_capture_root s) (s_delivery_binding s) ?new"
        using artifact_values_read_Inr [OF 1(1)] by (simp add: job_belongs_def new_job_def)
      then have "store_inv sha s'"
        using inv ledger jobs meta pre by (auto simp: store_inv_simps 1(3) meta_identity_def)
      moreover have "jobs_evolve (s_jobs s) (db_jobs db)"
        unfolding jobs_evolve_def jobs
        by (intro exI [of _ "s_jobs s"] exI [of _ "[?new]"])
          (simp add: list.rel_refl fresh_job_def new_job_def)
      ultimately show ?thesis using meta pre by (simp add: advances_def 1(3))
    qed
  qed
qed

subsection \<open>Rotation and recovery\<close>

lemma recover_advances:
  assumes run: "recover_interrupted_jobs (s_db s) = Inr db" and inv: "store_inv sha s"
  shows "advances sha s (s\<lparr>s_db := db\<rparr>)"
proof -
  from run obtain n where
    "sql_update_jobs [''state'', ''next_attempt_at_ms'', ''job_revision'']
       (\<lambda>r. j_state r = ''in_progress'')
       (\<lambda>r. r\<lparr>j_state := ''pending'', j_next_attempt_at := None,
              j_job_revision := j_job_revision r + 1\<rparr>) (s_db s) = Inr (db, n)"
    by (auto simp: recover_interrupted_jobs_def result_simps)
  then show ?thesis
    by (rule update_advances [OF _ inv])
      (auto intro!: move_from_progress [where b = Pending] lifecycle.intros
        simp: job_identity_def live_in_progress)
qed

text \<open>The authorization identity changes only when no job is live.\<close>

lemma rotate_Inr:
  assumes "rotate_authorization_if_drained fs root authorization db = Inr db'"
  obtains (same) "authorization = m_authorization (db_meta db)" "db' = db"
  | (rotated) "authorization \<noteq> m_authorization (db_meta db)" "\<not> list_ex live_job (db_jobs db)"
      "has_unrecorded_reconcilable_artifact fs root db = Inr False"
      "db' = db\<lparr>db_meta := (db_meta db)\<lparr>m_authorization := authorization,
         m_ledger_revision := m_ledger_revision (db_meta db) + 1\<rparr>\<rparr>"
      "meta_in_range (db_meta db')" "meta_checks (db_meta db')"
  using assms
  by (cases "m_authorization (db_meta db) = authorization")
    (auto simp: rotate_authorization_if_drained_def result_simps check_meta_Inr split: if_splits)

lemma rotate_advances:
  assumes run: "rotate_authorization_if_drained fs root authorization (s_db s) = Inr db"
    and inv: "store_inv sha s"
  shows "advances sha s (s\<lparr>s_db := db, s_delivery_binding :=
      delivery_binding_derive sha (m_destination (db_meta (s_db s))) authorization\<rparr>)"
  using run
proof (cases rule: rotate_Inr)
  case same
  then have "s\<lparr>s_db := db, s_delivery_binding :=
      delivery_binding_derive sha (m_destination (db_meta (s_db s))) authorization\<rparr> = s"
    using inv by (simp add: store_inv_def)
  then show ?thesis using inv by (simp add: advances_refl)
next
  case rotated
  have "ledger_inv db"
    using store_inv_ledger [OF inv] rotated(4-6) by (simp add: ledger_inv_def counters_exact_def)
  then show ?thesis
    using inv rotated(2,4) by (auto simp: advances_def store_inv_simps list_ex_iff job_belongs_def
        meta_identity_def)
qed

subsection \<open>Opening\<close>

text \<open>What a file that carries a ledger looks like to the next process.\<close>

definition carries :: "database_file \<Rightarrow> ledger_db \<Rightarrow> bool" where
  "carries file db \<longleftrightarrow> f_user_version file = schema_version \<and> f_ledger file = Some db"

lemma verify_schema_Inr:
  assumes "verify_schema schema root dest file = Inr db"
  shows "f_ledger file = Some db" "m_capture_root (db_meta db) = root"
    "m_destination (db_meta db) = dest" "length (m_ledger_id (db_meta db)) = 16"
  using assms by (auto simp: verify_schema_def result_simps Let_def)

lemma open_store_Inr:
  assumes "open_store env fs sha endpoint schema dir destination authorization file = (file', Inr s)"
  obtains root dest file1 db1 db2 db3 where
    "canonical_capture_root fs dir = Inr root"
    "prepare_database env fs schema root dest authorization file = Inr file1"
    "verify_schema schema root dest file1 = Inr db1"
    "rotate_authorization_if_drained fs root authorization db1 = Inr db2"
    "recover_interrupted_jobs db2 = Inr db3"
    "file' = file1\<lparr>f_ledger := Some db3\<rparr>"
    "s = \<lparr>s_db = db3, s_capture_root = root, s_ledger_id = m_ledger_id (db_meta db3),
          s_delivery_binding = delivery_binding_derive sha dest authorization\<rparr>"
  using assms
  by (auto simp: open_store_def result_simps split: sum.splits prod.splits if_splits)

lemma prepare_existing:
  assumes "f_user_version file = schema_version"
    and "prepare_database env fs schema root dest authorization file = Inr file1"
  shows "file1 = file"
  using assms by (auto simp: prepare_database_def schema_version_def result_simps)

lemma reopen_cases:
  assumes run: "open_store env fs sha endpoint schema dir destination authorization file = (file', Inr t)"
    and disk: "carries file (s_db s)" and inv: "store_inv sha s"
  obtains db2 db3 where
    "rotate_authorization_if_drained fs (s_capture_root s) authorization (s_db s) = Inr db2"
    "recover_interrupted_jobs db2 = Inr db3"
    "t = s\<lparr>s_db := db3, s_delivery_binding :=
       delivery_binding_derive sha (m_destination (db_meta (s_db s))) authorization\<rparr>"
    "carries file' db3"
  using run
proof (cases rule: open_store_Inr)
  case (1 root dest file1 db1 db2 db3)
  have "file1 = file" using prepare_existing 1(2) disk by (simp add: carries_def)
  then have db1: "db1 = s_db s" "root = s_capture_root s" "dest = m_destination (db_meta (s_db s))"
    using verify_schema_Inr [OF 1(3)] disk inv by (auto simp: carries_def store_inv_def)
  have "m_ledger_id (db_meta db2) = m_ledger_id (db_meta (s_db s))"
    using 1(4) unfolding db1 by (cases rule: rotate_Inr) auto
  moreover have "m_ledger_id (db_meta db3) = m_ledger_id (db_meta db2)"
    using 1(5) by (auto simp: recover_interrupted_jobs_def result_simps meta_identity_def
        dest: sql_update_jobs_effect(5))
  ultimately have "t = s\<lparr>s_db := db3, s_delivery_binding :=
       delivery_binding_derive sha (m_destination (db_meta (s_db s))) authorization\<rparr>"
    using 1(7) inv db1 by (simp add: store_inv_def)
  moreover have "carries file' db3" using 1(6) disk \<open>file1 = file\<close> by (simp add: carries_def)
  ultimately show thesis using that [OF _ 1(5)] 1(4) unfolding db1 by blast
qed

lemma recover_nothing:
  assumes "\<not> list_ex live_job (db_jobs db)"
  shows "recover_interrupted_jobs db = Inr db"
proof -
  have "sql_update_rows columns (\<lambda>r. j_state r = ''in_progress'') assign (db_meta db) (db_jobs db)
      = Inr (db_meta db, db_jobs db, 0)" for columns assign
    by (rule sql_update_rows_none) (use assms in \<open>auto simp: list_ex_iff live_job_def\<close>)
  then show ?thesis by (simp add: recover_interrupted_jobs_def sql_update_jobs_def)
qed

text \<open>
  Rotation and recovery exclude each other: a rotated ledger was drained, so nothing is left
  to recover.
\<close>

lemma reopen_advances:
  assumes run: "open_store env fs sha endpoint schema dir destination authorization file = (file', Inr t)"
    and disk: "carries file (s_db s)" and inv: "store_inv sha s"
  shows "advances sha s t"
  using run disk inv
proof (cases rule: reopen_cases)
  case (1 db2 db3)
  let ?binding = "delivery_binding_derive sha (m_destination (db_meta (s_db s))) authorization"
  have rotated: "advances sha s (s\<lparr>s_db := db2, s_delivery_binding := ?binding\<rparr>)"
    by (rule rotate_advances [OF 1(1) inv])
  from 1(1) show ?thesis
  proof (cases rule: rotate_Inr)
    case same
    then have "?binding = s_delivery_binding s" using inv by (simp add: store_inv_def)
    moreover have "advances sha s (s\<lparr>s_db := db3\<rparr>)"
      using recover_advances [OF _ inv] 1(2) same by simp
    ultimately show ?thesis using 1(3) by simp
  next
    case rotated
    then have "db3 = db2" using recover_nothing [of db2] 1(2) by simp
    then show ?thesis using 1(3) \<open>advances sha s _\<close> by simp
  qed
qed

end
