(* ===== verification/LedgerArtifacts.thy ===== *)
theory LedgerArtifacts
  imports LedgerOps
begin

text \<open>
  The private copy of a claimed artifact (\<open>snapshot_claimed_artifact\<close>): the bytes that will be
  sent are copied into an anonymous file and verified against the claim before any network
  traffic, through a bounded copy loop that tolerates short reads and a growing source.
\<close>

datatype artifact_verification =
    Missing
  | SymlinkFound
  | NotRegularFile
  | SizeMismatch nat nat
  | Sha256Mismatch "u8 list" "u8 list"

datatype snapshotted_artifact = Verified "u8 list" | Rejected artifact_verification

definition copy_buffer_len :: nat where
  "copy_buffer_len = 65536"

text \<open>
  \<open>copy_and_hash_snapshot\<close>: \<open>rd copied\<close> is the operating system's choice for the read at that
  offset, \<open>None\<close> an error and \<open>Some n\<close> a read of \<open>n\<close> bytes, cut to what fits and to what the
  source holds; a read of a nonempty source into a nonempty buffer delivers at least one byte.
  \<open>written\<close> is what the snapshot file and the hasher have received.
\<close>

function copy_and_hash_loop ::
  "(nat \<Rightarrow> nat option) \<Rightarrow> nat \<Rightarrow> nat \<Rightarrow> u8 list \<Rightarrow> u8 list \<Rightarrow> store_error + (nat \<times> u8 list)" where
  "copy_and_hash_loop rd expected_size copied written source =
     (let read_limit = min (sat_add_u64 (expected_size - copied) 1) copy_buffer_len in
      case rd copied of None \<Rightarrow> Inl (StoreIo OtherIo)
      | Some offered \<Rightarrow>
          let count = (if source = [] then 0 else max 1 (min offered (min read_limit (length source)))) in
          if count = 0 then Inr (copied, written)
          else let copied' = sat_add_u64 copied count in
            if expected_size < copied' then Inr (copied', written)
            else copy_and_hash_loop rd expected_size copied' (written @ take count source)
                   (drop count source))"
  by pat_completeness auto
termination
proof (relation "measure (\<lambda>(rd, expected, copied, written, source). length source)", goal_cases)
  case 1
  show ?case by simp
next
  case (2 rd expected copied written source limit offered count copied')
  from 2(3,4) have "source \<noteq> []" "0 < count" by (cases "source = []"; simp)+
  then show ?case by simp
qed

declare copy_and_hash_loop.simps [simp del]

definition copy_and_hash_snapshot ::
  "(nat \<Rightarrow> nat option) \<Rightarrow> (u8 list \<Rightarrow> u8 list) \<Rightarrow> nat \<Rightarrow> u8 list
     \<Rightarrow> store_error + (nat \<times> u8 list \<times> u8 list)" where
  "copy_and_hash_snapshot rd sha expected_size source =
     rbind (copy_and_hash_loop rd expected_size 0 [] source) (\<lambda>(copied, written).
       Inr (copied, sha written, written))"

definition snapshot_claimed_artifact ::
  "filesystem \<Rightarrow> (nat \<Rightarrow> nat option) \<Rightarrow> (u8 list \<Rightarrow> u8 list) \<Rightarrow> claimed_upload
     \<Rightarrow> store_error + snapshotted_artifact" where
  "snapshot_claimed_artifact fs rd sha claim =
     (case symlink_metadata fs (c_artifact_path claim) of
        Inl NotFound \<Rightarrow> Inr (Rejected Missing)
      | Inl e \<Rightarrow> Inl (StoreIo e)
      | Inr Symlink \<Rightarrow> Inr (Rejected SymlinkFound)
      | Inr OtherKind \<Rightarrow> Inr (Rejected NotRegularFile)
      | Inr RegularFile \<Rightarrow>
          (case open_for_read fs (c_artifact_path claim) of
             Inl NotFound \<Rightarrow> Inr (Rejected Missing)
           | Inl e \<Rightarrow> Inl (StoreIo e)
           | Inr file \<Rightarrow>
               if of_kind file \<noteq> RegularFile then Inr (Rejected NotRegularFile)
               else if of_len file \<noteq> c_file_size claim
               then Inr (Rejected (SizeMismatch (c_file_size claim) (of_len file)))
               else rbind (copy_and_hash_snapshot rd sha (c_file_size claim) (of_bytes file))
                 (\<lambda>(actual_size, actual, bytes).
                   if actual_size \<noteq> c_file_size claim
                   then Inr (Rejected (SizeMismatch (c_file_size claim) actual_size))
                   else if actual \<noteq> c_sha256 claim
                   then Inr (Rejected (Sha256Mismatch (c_sha256 claim) actual))
                   else Inr (Verified bytes))))"

subsection \<open>The copy loop\<close>

lemma copy_loop_result:
  "copy_and_hash_loop rd expected copied written source = Inr (n, out) \<Longrightarrow>
     copied = length written \<Longrightarrow> copied \<le> expected \<Longrightarrow> expected < u64_max \<Longrightarrow>
     length out \<le> expected \<and> (\<exists>k. out = written @ take k source)
     \<and> (n \<le> expected \<longrightarrow> out = written @ source \<and> n = length out)
     \<and> (expected < n \<longrightarrow> expected < length written + length source)"
proof (induction rd expected copied written source rule: copy_and_hash_loop.induct)
  case (1 rd expected copied written source)
  define limit where "limit = min (sat_add_u64 (expected - copied) 1) copy_buffer_len"
  have "rd copied \<noteq> None"
  proof
    assume "rd copied = None"
    then have "copy_and_hash_loop rd expected copied written source = Inl (StoreIo OtherIo)"
      by (simp add: copy_and_hash_loop.simps [of rd expected copied] Let_def)
    with "1.prems"(1) show False by simp
  qed
  then obtain offered where rd: "rd copied = Some offered" by blast
  show ?case
  proof (cases "source = []")
    case True
    then have "copy_and_hash_loop rd expected copied written source = Inr (copied, written)"
      by (simp add: copy_and_hash_loop.simps [of rd expected copied] Let_def rd)
    with "1.prems" True show ?thesis by simp
  next
    case False
    define count where "count = max 1 (min offered (min limit (length source)))"
    have count: "0 < count" "count \<le> length source"
      using False by (auto simp: count_def Suc_le_eq)
    have "1 \<le> limit" using "1.prems" by (simp add: limit_def sat_add_u64_def copy_buffer_len_def u64_max_def)
    then have small: "count \<le> expected - copied + 1"
      unfolding count_def limit_def sat_add_u64_def by linarith
    have eq: "(if source = [] then 0 else max 1 (min offered (min limit (length source)))) = count"
      by (simp add: \<open>source \<noteq> []\<close> count_def)
    have step: "copy_and_hash_loop rd expected copied written source =
        (if expected < sat_add_u64 copied count then Inr (sat_add_u64 copied count, written)
         else copy_and_hash_loop rd expected (sat_add_u64 copied count) (written @ take count source)
                (drop count source))"
      unfolding copy_and_hash_loop.simps [of rd expected copied written source] Let_def rd option.case
        limit_def [symmetric] eq
      using count by simp
    have add: "sat_add_u64 copied count = copied + count"
      using small "1.prems" by (simp add: sat_add_u64_def)
    show ?thesis
    proof (cases "expected < copied + count")
      case True
      then have "n = copied + count" "out = written" using "1.prems"(1) step add by auto
      then show ?thesis
        using True "1.prems" count by (auto intro!: exI [of _ 0])
    next
      case False
      then have rec: "copy_and_hash_loop rd expected (copied + count) (written @ take count source)
          (drop count source) = Inr (n, out)"
        using "1.prems"(1) step add by simp
      have len: "copied + count = length (written @ take count source)"
        using "1.prems"(2) count by simp
      have "length out \<le> expected
          \<and> (\<exists>k. out = (written @ take count source) @ take k (drop count source))
          \<and> (n \<le> expected \<longrightarrow> out = (written @ take count source) @ drop count source \<and> n = length out)
          \<and> (expected < n \<longrightarrow> expected < length (written @ take count source) + length (drop count source))"
        using "1.IH" [OF limit_def rd eq [symmetric] _ refl] rec len False count add "1.prems"(4)
        by simp (metis length_append)
      note parts = this
      from parts obtain k where "out = written @ take (count + k) source"
        by (auto simp: take_add)
      moreover have whole: "(written @ take count source) @ drop count source = written @ source"
        by simp
      have "n \<le> expected \<longrightarrow> out = written @ source \<and> n = length out"
        using parts unfolding whole by blast
      moreover have "expected < n \<longrightarrow> expected < length written + length source"
        using parts count by simp
      ultimately show ?thesis using parts by blast
    qed
  qed
qed

text \<open>What the anonymous file holds when the copy is complete.\<close>

lemma copy_and_hash_snapshot_Inr:
  assumes "copy_and_hash_snapshot rd sha expected source = Inr (n, digest, bytes)"
    and "expected < u64_max"
  shows "digest = sha bytes" and "length bytes \<le> expected"
    and "n \<le> expected \<Longrightarrow> bytes = source \<and> n = length source"
    and "expected < n \<Longrightarrow> expected < length source"
proof -
  from assms(1) have loop: "copy_and_hash_loop rd expected 0 [] source = Inr (n, bytes)"
    and "digest = sha bytes"
    by (auto simp: copy_and_hash_snapshot_def rbind_eq_Inr)
  with copy_loop_result [OF loop] assms(2)
  show "digest = sha bytes" "length bytes \<le> expected"
    "n \<le> expected \<Longrightarrow> bytes = source \<and> n = length source"
    "expected < n \<Longrightarrow> expected < length source"
    by auto
qed

text \<open>The bytes that are about to be sent for a claim are exactly what was read from the
  artifact, have the size and the SHA-256 digest the ledger recorded, and were taken from a
  regular file that is not a symbolic link.\<close>

lemma verified_snapshot_matches_claim:
  assumes "snapshot_claimed_artifact fs rd sha claim = Inr (Verified bytes)"
    and "c_file_size claim < u64_max"
  shows "sha bytes = c_sha256 claim \<and> length bytes = c_file_size claim
    \<and> symlink_metadata fs (c_artifact_path claim) = Inr RegularFile
    \<and> (\<exists>file. open_for_read fs (c_artifact_path claim) = Inr file \<and> of_bytes file = bytes)"
proof -
  from assms(1) obtain f where kind: "symlink_metadata fs (c_artifact_path claim) = Inr RegularFile"
    and opened: "open_for_read fs (c_artifact_path claim) = Inr f"
    and copy: "copy_and_hash_snapshot rd sha (c_file_size claim) (of_bytes f)
      = Inr (c_file_size claim, c_sha256 claim, bytes)"
    by (auto simp: snapshot_claimed_artifact_def rbind_eq_Inr
        split: sum.splits io_error.splits file_kind.splits if_splits)
  from copy_and_hash_snapshot_Inr [OF copy assms(2)] kind opened show ?thesis by auto
qed

text \<open>Whatever the file does while it is copied, the private snapshot never holds more
  bytes than the claim recorded, and a source longer than that is noticed.\<close>

lemma copy_is_bounded:
  assumes "copy_and_hash_snapshot rd sha expected source = Inr (n, digest, bytes)"
    and "expected < u64_max"
  shows "length bytes \<le> expected \<and> digest = sha bytes
    \<and> (n = expected \<longrightarrow> bytes = source) \<and> (expected < length source \<longrightarrow> expected < n)"
  using copy_and_hash_snapshot_Inr [OF assms] by (metis le_refl not_less)

end
