(* ===== verification/LedgerSystem.thy ===== *)
theory LedgerSystem
  imports LedgerSteps LedgerArtifacts
begin

text \<open>
  The upload ledger as a whole: its initial states (what opening an empty database yields), its
  step relation (every operation of an open store, and a new process opening the same file),
  and the two interpretations of the shared interfaces on it.
\<close>

subsection \<open>Transitions\<close>

text \<open>
  An initial store is one that \<open>UploadStore::open\<close> made of an empty database. The operating
  system's canonical names are absolute, as \<open>std::fs::canonicalize\<close> documents.
\<close>

inductive ledger_init :: "(u8 list \<Rightarrow> u8 list) \<Rightarrow> upload_store \<Rightarrow> bool" for sha where
  opened: "f_user_version file = 0 \<Longrightarrow> database_is_completely_empty file \<Longrightarrow>
     \<forall>p q. canonicalize fs p = Inr q \<longrightarrow> path_is_absolute q \<Longrightarrow>
     open_store env fs sha endpoint schema dir destination authorization file = (file', Inr s) \<Longrightarrow>
     ledger_init sha s"

inductive ledger_step :: "(u8 list \<Rightarrow> u8 list) \<Rightarrow> upload_store \<Rightarrow> upload_store \<Rightarrow> bool" for sha where
  recorded: "record_artifact fs sha path now s = Inr (res, s') \<Longrightarrow> ledger_step sha s s'"
| claimed: "claim_due now s = Inr (claim, s') \<Longrightarrow> ledger_step sha s s'"
| released: "release_claim held now s = Inr s' \<Longrightarrow> ledger_step sha s s'"
| retried: "mark_retrying held now next status err s = Inr s' \<Longrightarrow> ledger_step sha s s'"
| finished: "mark_completed held now http s = Inr s' \<Longrightarrow> ledger_step sha s s'"
| failed: "mark_permanently_failed held now status err s = Inr s' \<Longrightarrow> ledger_step sha s s'"
| requeued: "requeue_permanently_failed fs sha request now s = Inr (out, s') \<Longrightarrow> ledger_step sha s s'"
| reopened: "carries file (s_db s) \<Longrightarrow>
     open_store env fs sha endpoint schema dir destination authorization file = (file', Inr s') \<Longrightarrow>
     ledger_step sha s s'"

abbreviation ledger_steps :: "(u8 list \<Rightarrow> u8 list) \<Rightarrow> upload_store \<Rightarrow> upload_store \<Rightarrow> bool" where
  "ledger_steps sha \<equiv> (ledger_step sha)\<^sup>*\<^sup>*"

lemma ledger_step_advances: "ledger_step sha s t \<Longrightarrow> store_inv sha s \<Longrightarrow> advances sha s t"
  by (induction rule: ledger_step.induct)
    (blast intro: record_artifact_advances claim_due_advances release_claim_advances
      mark_retrying_advances mark_completed_advances mark_permanently_failed_advances
      requeue_advances reopen_advances)+

subsection \<open>Initial stores\<close>

lemma inventory_scan_ok:
  "inventory_scan root entries = Inr paths \<Longrightarrow> path_is_absolute root \<Longrightarrow> p \<in> set paths \<Longrightarrow>
   preactivation_ok root p"
proof (induction root entries arbitrary: paths rule: inventory_scan.induct)
  case (2 root entry rest)
  show ?case
  proof (cases entry)
    case (Inr e)
    show ?thesis
    proof (cases "de_name e")
      case (Some filename)
      show ?thesis
      proof (cases "is_generated_frame_filename filename \<and> de_kind e = Inr RegularFile")
        case True
        then have "preactivation_ok root (path_join root filename)"
          using path_join_child [of root filename] 2 generated_name_component [of filename]
          by (simp add: preactivation_ok_def validate_preactivation_artifact_path_def)
        then show ?thesis using True 2 Inr Some by (auto simp: io_err_def result_simps)
      qed (use 2 Inr Some in \<open>auto simp: io_err_def result_simps split: if_splits sum.splits\<close>)
    qed (use 2 Inr in \<open>auto simp: io_err_def\<close>)
  qed (use 2 in \<open>auto simp: io_err_def\<close>)
qed simp

lemma inventory_ok:
  assumes "inventory_generated_artifacts fs root = Inr paths" and "path_is_absolute root"
  shows "list_all (preactivation_ok root) paths"
  using assms inventory_scan_ok
  by (auto simp: inventory_generated_artifacts_def result_simps list_all_iff)

lemma created_ledger:
  assumes "create_schema schema root dest authorization ledger_id preactivation file = Inr file'"
  shows "\<exists>meta. f_ledger file' = Some \<lparr>db_meta = meta, db_preactivation = preactivation, db_jobs = []\<rparr>
     \<and> meta = initial_metadata root dest authorization ledger_id
     \<and> meta_in_range meta \<and> meta_checks meta \<and> f_user_version file' = schema_version"
  using assms by (auto simp: create_schema_def result_simps check_meta_Inr)

lemma ledger_init_inv:
  assumes "ledger_init sha s"
  shows "store_inv sha s \<and> s_jobs s = [] \<and> ledger_revision s = 0"
  using assms
proof cases
  case (opened f fs env endpoint schema dir destination authorization f')
  from opened(4) show ?thesis
  proof (cases rule: open_store_Inr)
    case (1 root dest f1 db1 db2 db3)
    have root: "path_is_absolute root"
      using 1(1) opened(3) by (auto simp: canonical_capture_root_def result_simps io_err_def
          split: sum.splits)
    from 1(2) opened(1,2) obtain preactivation ledger_id where
      pre: "inventory_generated_artifacts fs root = Inr preactivation"
      and create: "create_schema schema root dest authorization ledger_id preactivation f = Inr f1"
      by (auto simp: prepare_database_def result_simps)
    let ?meta = "initial_metadata root dest authorization ledger_id"
    have db1: "db1 = \<lparr>db_meta = ?meta, db_preactivation = preactivation, db_jobs = []\<rparr>"
      and meta: "meta_in_range ?meta" "meta_checks ?meta"
      using created_ledger [OF create] verify_schema_Inr(1) [OF 1(3)] by auto
    have "db2 = db1" using 1(4) by (auto simp: rotate_authorization_if_drained_def db1 initial_metadata_def)
    moreover have "db3 = db2" using 1(5) recover_nothing [of db2] by (simp add: \<open>db2 = db1\<close> db1)
    ultimately have s: "s = \<lparr>s_db = db1, s_capture_root = root, s_ledger_id = m_ledger_id ?meta,
          s_delivery_binding = delivery_binding_derive sha dest authorization\<rparr>"
      using 1(7) by (simp add: db1)
    have "ledger_inv db1"
      using meta by (simp add: db1 ledger_inv_def counters_exact_def initial_metadata_def)
    then show ?thesis
      using root inventory_ok [OF pre root]
      by (simp add: s store_inv_def db1 initial_metadata_def)
  qed
qed

subsection \<open>The shared interfaces\<close>

interpretation ledger: step_system "ledger_init sha" "ledger_step sha" "store_inv sha" for sha
  by unfold_locales
    (auto dest: ledger_init_inv ledger_step_advances simp: advances_def)

interpretation ledger_rev: revisioned_system "ledger_init sha" "ledger_step sha" "store_inv sha"
  "\<lambda>s. ledger_revision s" for sha
  by unfold_locales (auto dest: ledger_step_advances simp: advances_def)

subsection \<open>Histories\<close>

definition history :: "upload_store \<Rightarrow> upload_store \<Rightarrow> bool" where
  "history s t \<longleftrightarrow>
     length (s_jobs s) \<le> length (s_jobs t)
     \<and> (\<forall>i < length (s_jobs s). job_moves\<^sup>*\<^sup>* (s_jobs s ! i) (s_jobs t ! i))
     \<and> s_capture_root t = s_capture_root s \<and> s_ledger_id t = s_ledger_id s
     \<and> meta_identity (db_meta (s_db t)) = meta_identity (db_meta (s_db s))
     \<and> db_preactivation (s_db t) = db_preactivation (s_db s)"

lemma history_refl: "history s s"
  by (simp add: history_def)

lemma history_trans: "history a b \<Longrightarrow> history b c \<Longrightarrow> history a c"
  unfolding history_def by (auto intro: rtranclp_trans)

lemma advances_history:
  assumes "advances sha s t"
  shows "history s t"
proof -
  from assms obtain old new where jobs: "s_jobs t = old @ new" "list_all2 job_evolves (s_jobs s) old"
    by (auto simp: advances_def jobs_evolve_def)
  then have len: "length old = length (s_jobs s)" by (simp add: list_all2_lengthD)
  moreover have "job_moves\<^sup>*\<^sup>* (s_jobs s ! i) (s_jobs t ! i)" if "i < length (s_jobs s)" for i
    using list_all2_nthD [OF jobs(2) that] that len
    by (auto simp: jobs(1) nth_append job_evolves_def)
  ultimately show ?thesis using assms by (simp add: history_def advances_def jobs(1))
qed

lemma steps_history: "ledger_steps sha s t \<Longrightarrow> store_inv sha s \<Longrightarrow> history s t"
  by (rule ledger.steps_mono [where R = history])
    (auto intro: history_refl history_trans advances_history ledger_step_advances)

text \<open>A property of a single row that its moves keep survives every history.\<close>

lemma history_keeps:
  assumes "history s t" and "i < length (s_jobs s)"
    and "\<And>r q. job_moves r q \<Longrightarrow> P r \<Longrightarrow> P q" and "P (s_jobs s ! i)"
  shows "P (s_jobs t ! i)"
proof -
  have "P q" if "job_moves\<^sup>*\<^sup>* r q" "P r" for r q
    using that by (induction rule: rtranclp_induct) (auto intro: assms(3))
  then show ?thesis using assms by (auto simp: history_def)
qed

lemma moves_identity: "job_moves r q \<Longrightarrow> job_identity q = job_identity r"
  by (simp add: job_moves_def)

end
