(* ===== verification/LedgerDemo.thy ===== *)
theory LedgerDemo
  imports LedgerSystem "HOL-Library.Code_Target_Nat"
begin

text \<open>
  One concrete ledger, on which the general theorems are exercised: a capture directory with
  one finalized frame, opened on an empty database; the frame recorded, claimed, completed.
\<close>

definition demo_root :: string where
  "demo_root = ''/c''"

definition demo_path :: string where
  "demo_path = ''/c/frame-7-123-000001.jpg''"

definition demo_digest :: "u8 list" where
  "demo_digest = replicate 32 7"

abbreviation demo_sha :: "u8 list \<Rightarrow> u8 list" where
  "demo_sha \<equiv> (\<lambda>_. demo_digest)"

definition demo_file :: opened_file where
  "demo_file = \<lparr>of_kind = RegularFile, of_len = 2, of_bytes = [1, 2], of_final_len = 2\<rparr>"

definition demo_fs :: filesystem where
  "demo_fs = \<lparr>symlink_metadata = \<lambda>_. Inr RegularFile,
     canonicalize = \<lambda>p. if path_is_absolute p then Inr p else Inl NotFound,
     open_for_read = \<lambda>_. Inr demo_file, read_dir = \<lambda>_. Inr []\<rparr>"

definition demo_env :: open_env where
  "demo_env = \<lparr>e_lease = True, e_journal_mode = ''WAL'', e_synchronous = 2,
     e_locking_mode = ''exclusive'', e_random = Some (replicate 16 9)\<rparr>"

definition demo_schema :: "(string \<times> string \<times> string) list" where
  "demo_schema = map (\<lambda>i. (''table'', decimal i, ''create'')) [0..<10]"

definition demo_empty :: database_file where
  "demo_empty = \<lparr>f_user_version = 0, f_application_id = 0, f_objects = [], f_ledger = None\<rparr>"

definition demo_meta :: upload_metadata where
  "demo_meta = initial_metadata demo_root ''https://u/'' demo_digest (replicate 16 9)"

definition demo_store :: upload_store where
  "demo_store = \<lparr>s_db = \<lparr>db_meta = demo_meta, db_preactivation = [], db_jobs = []\<rparr>,
     s_capture_root = demo_root, s_ledger_id = replicate 16 9, s_delivery_binding = demo_digest\<rparr>"

definition demo_open :: "database_file \<times> (store_error + upload_store)" where
  "demo_open = open_store demo_env demo_fs demo_sha Some demo_schema demo_root ''https://u/''
     demo_digest demo_empty"

lemma demo_open_result: "snd demo_open = Inr demo_store"
  by code_simp

lemma demo_open_file: "f_user_version (fst demo_open) = 4 \<and> f_ledger (fst demo_open) = Some (s_db demo_store)"
  by code_simp

lemma demo_init: "ledger_init demo_sha demo_store"
proof (rule ledger_init.opened)
  show "open_store demo_env demo_fs demo_sha Some demo_schema demo_root ''https://u/''
     demo_digest demo_empty = (fst demo_open, Inr demo_store)"
    using demo_open_result by (simp add: demo_open_def prod_eq_iff)
qed (auto simp: demo_empty_def demo_fs_def database_is_completely_empty_def split: if_splits)

text \<open>The frame is recorded at time 10, claimed at time 20 and completed at time 30.\<close>

definition demo_name :: string where
  "demo_name = ''frame-7-123-000001.jpg''"

definition demo_key :: string where
  "demo_key = idempotency_prefix @ concat (replicate 32 ''07'') @ ''-'' @ demo_name"

definition demo_job :: upload_job where
  "demo_job = \<lparr>j_id = 1, j_artifact_path = demo_path, j_filename = demo_name,
     j_idempotency_key = demo_key, j_file_size = 2, j_sha256 = demo_digest,
     j_delivery_binding = demo_digest, j_state = ''pending'', j_attempt_count = 0,
     j_next_attempt_at = None, j_last_http_status = None, j_last_error = None,
     j_created_at = 10, j_updated_at = 10, j_completed_at = None, j_last_failure_at = None,
     j_job_revision = 1, j_requeue_count = 0, j_last_requeued_at = None\<rparr>"

definition with_jobs :: "upload_metadata \<Rightarrow> upload_job list \<Rightarrow> upload_store" where
  "with_jobs m jobs = \<lparr>s_db = \<lparr>db_meta = m, db_preactivation = [], db_jobs = jobs\<rparr>,
     s_capture_root = demo_root, s_ledger_id = replicate 16 9, s_delivery_binding = demo_digest\<rparr>"

definition demo_recorded :: upload_store where
  "demo_recorded = with_jobs (demo_meta\<lparr>m_ledger_revision := 1, m_pending := 1\<rparr>) [demo_job]"

definition demo_claim :: claimed_upload where
  "demo_claim = \<lparr>c_job_id = UploadJobId 1, c_artifact_path = demo_path, c_filename = demo_name,
     c_idempotency_key = demo_key, c_file_size = 2, c_sha256 = demo_digest, c_attempt_count = 1\<rparr>"

definition demo_held :: upload_job where
  "demo_held = demo_job\<lparr>j_state := ''in_progress'', j_attempt_count := 1, j_updated_at := 20,
     j_job_revision := 2\<rparr>"

definition demo_claimed :: upload_store where
  "demo_claimed = with_jobs (demo_meta\<lparr>m_ledger_revision := 2, m_in_progress := 1\<rparr>) [demo_held]"

definition demo_done :: upload_job where
  "demo_done = demo_held\<lparr>j_state := ''completed'', j_last_http_status := Some 200,
     j_updated_at := 30, j_completed_at := Some 30, j_job_revision := 3\<rparr>"

definition demo_done_meta :: upload_metadata where
  "demo_done_meta = demo_meta\<lparr>m_ledger_revision := 3, m_completed := 1, m_last_success_at := Some 30\<rparr>"

definition demo_completed :: upload_store where
  "demo_completed = with_jobs demo_done_meta [demo_done]"

definition demo_failed :: upload_store where
  "demo_failed = with_jobs (demo_meta\<lparr>m_ledger_revision := 3, m_permanently_failed := 1,
       m_last_failure_at := Some 30\<rparr>)
     [demo_held\<lparr>j_state := ''permanently_failed'', j_last_http_status := Some 400,
        j_updated_at := 30, j_last_failure_at := Some 30, j_job_revision := 3\<rparr>]"

lemma demo_record_runs:
  "record_artifact demo_fs demo_sha demo_path 10 demo_store
     = Inr ((UploadJobId 1, Inserted), demo_recorded)"
  by code_simp

lemma demo_claim_runs: "claim_due 20 demo_recorded = Inr (Some demo_claim, demo_claimed)"
  by code_simp

lemma demo_complete_runs: "mark_completed demo_claim 30 200 demo_claimed = Inr demo_completed"
  by code_simp

lemma demo_fail_runs:
  "mark_permanently_failed demo_claim 30 (Some 400) None demo_claimed = Inr demo_failed"
  by code_simp

text \<open>A second frame is recorded after the first one was completed.\<close>

definition demo_more :: upload_store where
  "demo_more = with_jobs (demo_done_meta\<lparr>m_ledger_revision := 4, m_pending := 1\<rparr>)
     [demo_done, demo_job\<lparr>j_id := 2, j_artifact_path := ''/c/frame-8-123-000002.jpg'',
        j_filename := ''frame-8-123-000002.jpg'',
        j_idempotency_key := idempotency_prefix @ concat (replicate 32 ''07'') @ ''-frame-8-123-000002.jpg'',
        j_created_at := 40, j_updated_at := 40\<rparr>]"

lemma demo_more_runs:
  "record_artifact demo_fs demo_sha ''/c/frame-8-123-000002.jpg'' 40 demo_completed
     = Inr ((UploadJobId 2, Inserted), demo_more)"
  by code_simp

text \<open>The process dies while the claim is held, and the next one opens the same ledger.\<close>

definition demo_crash_file :: database_file where
  "demo_crash_file = \<lparr>f_user_version = 4, f_application_id = application_id,
     f_objects = demo_schema, f_ledger = Some (s_db demo_claimed)\<rparr>"

definition demo_reopen :: "database_file \<times> (store_error + upload_store)" where
  "demo_reopen = open_store demo_env demo_fs demo_sha Some demo_schema demo_root ''https://u/''
     demo_digest demo_crash_file"

definition demo_reopened :: upload_store where
  "demo_reopened = with_jobs (demo_meta\<lparr>m_ledger_revision := 3, m_pending := 1\<rparr>)
     [demo_held\<lparr>j_state := ''pending'', j_job_revision := 3\<rparr>]"

lemma demo_reopen_runs: "snd demo_reopen = Inr demo_reopened"
  by code_simp

lemma demo_crash_carries: "carries demo_crash_file (s_db demo_claimed)"
  by (simp add: carries_def demo_crash_file_def schema_version_def)

lemma demo_reopen_step: "ledger_step demo_sha demo_claimed demo_reopened"
proof (rule ledger_step.reopened [OF demo_crash_carries])
  show "open_store demo_env demo_fs demo_sha Some demo_schema demo_root ''https://u/''
     demo_digest demo_crash_file = (fst demo_reopen, Inr demo_reopened)"
    using demo_reopen_runs by (simp add: demo_reopen_def prod_eq_iff)
qed

lemma demo_steps:
  "ledger_steps demo_sha demo_store demo_recorded"
  "ledger_steps demo_sha demo_recorded demo_claimed"
  "ledger_steps demo_sha demo_claimed demo_completed"
  "ledger_steps demo_sha demo_claimed demo_failed"
  "ledger_steps demo_sha demo_completed demo_more"
  "ledger_steps demo_sha demo_claimed demo_reopened"
  using demo_record_runs demo_claim_runs demo_complete_runs demo_fail_runs demo_more_runs
    demo_reopen_step
  by (blast intro: ledger_step.intros)+

lemma demo_inv:
  "store_inv demo_sha demo_store" "store_inv demo_sha demo_recorded" "store_inv demo_sha demo_claimed"
  "store_inv demo_sha demo_completed" "store_inv demo_sha demo_failed"
  "store_inv demo_sha demo_more" "store_inv demo_sha demo_reopened"
  using ledger_init_inv [OF demo_init] demo_steps by (blast intro: ledger.steps_inv)+

end
