(* ===== verification/LedgerTheorems.thy ===== *)
theory LedgerTheorems
  imports LedgerDemo
begin

text \<open>
  What the upload ledger guarantees to the rest of the agent, over every reachable state.
\<close>

subsection \<open>Counters and the snapshot\<close>

lemma fold_min_due:
  "fold (\<lambda>r acc. case acc of None \<Rightarrow> Some (f r) | Some t \<Rightarrow> Some (min t (f r))) rows (Some (a :: int))
     = Some (Min (insert a (f ` set rows)))"
proof (induction rows arbitrary: a)
  case (Cons r rows)
  have "Min (insert (min a (f r)) (f ` set rows)) = Min (insert a (insert (f r) (f ` set rows)))"
    by (cases "f ` set rows = {}") (auto simp: min.assoc)
  then show ?case using Cons by simp
qed simp

lemma min_due_eq:
  "min_due rows = (if \<exists>r \<in> set rows. waiting r
     then Some (Min (due_at ` {r \<in> set rows. waiting r})) else None)"
proof (cases "filter waiting rows")
  case Nil
  then show ?thesis by (simp add: min_due_def filter_empty_conv)
next
  case (Cons q qs)
  then have "{r \<in> set rows. waiting r} = set (q # qs)" by (metis set_filter)
  moreover from Cons have "\<exists>r \<in> set rows. waiting r" by (metis filter_empty_conv list.discI)
  ultimately show ?thesis using Cons by (simp add: min_due_def fold_min_due)
qed

lemma job_checks_due: "job_checks r \<Longrightarrow> 0 \<le> due_at r"
  by (auto simp: job_checks_def due_at_def opt_nonneg_def split: option.splits)

lemma min_due_nonneg:
  assumes "\<forall>r \<in> set rows. job_checks r" and "min_due rows = Some t"
  shows "0 \<le> t"
proof -
  have "finite {r \<in> set rows. waiting r}" by simp
  moreover from assms(2) have t: "t = Min (due_at ` {r \<in> set rows. waiting r})"
    and "\<exists>r \<in> set rows. waiting r" by (auto simp: min_due_eq split: if_splits)
  then have "{r \<in> set rows. waiting r} \<noteq> {}" by auto
  ultimately show ?thesis using assms(1) job_checks_due by (auto simp: t)
qed

lemma optional_u64_ok: "opt_nonneg v \<Longrightarrow> optional_database_u64 c v = Inr (map_option nat v)"
  by (cases v) (auto simp: optional_database_u64_def opt_nonneg_def database_u64_def)

definition in_state :: "upload_state \<Rightarrow> upload_store \<Rightarrow> nat" where
  "in_state st s = length (filter (\<lambda>r. j_state r = state_text st) (s_jobs s))"

lemma snapshot_runs:
  assumes "store_inv sha s"
  shows "\<exists>sn. snapshot s = Inr sn \<and> sn_pending sn = in_state Pending s
    \<and> sn_in_progress sn = in_state InProgress s \<and> sn_retrying sn = in_state Retrying s
    \<and> sn_completed sn = in_state Completed s
    \<and> sn_permanently_failed sn = in_state PermanentlyFailed s
    \<and> sn_next_due_at sn = map_option nat (min_due (s_jobs s))"
proof -
  let ?m = "db_meta (s_db s)"
  have inv: "ledger_inv (s_db s)" by (rule store_inv_ledger [OF assms])
  then have counts: "m_pending ?m = int (in_state Pending s)"
    "m_in_progress ?m = int (in_state InProgress s)" "m_retrying ?m = int (in_state Retrying s)"
    "m_completed ?m = int (in_state Completed s)"
    "m_permanently_failed ?m = int (in_state PermanentlyFailed s)"
    by (simp_all add: ledger_inv_def counters_exact_def count_state_def in_state_def)
  have "opt_nonneg (m_last_success_at ?m)" "opt_nonneg (m_last_failure_at ?m)"
    using inv by (simp_all add: ledger_inv_def meta_checks_def)
  moreover have "opt_nonneg (min_due (s_jobs s))"
    using min_due_nonneg [of "s_jobs s"] inv
    by (auto simp: opt_nonneg_def ledger_inv_def list_all_iff split: option.splits)
  ultimately show ?thesis
    by (simp add: snapshot_def Let_def counts database_u64_def optional_u64_ok)
qed

text \<open>C2: in every state the ledger can reach, the status snapshot succeeds and its counters,
  which only triggers maintain, are exactly the numbers of jobs in each state; the next due
  time is the earliest one among the waiting jobs.\<close>

theorem snapshot_counts_are_exact:
  assumes "ledger_init sha s" and "ledger_steps sha s t"
  shows "\<exists>sn. snapshot t = Inr sn
    \<and> sn_pending sn = in_state Pending t \<and> sn_in_progress sn = in_state InProgress t
    \<and> sn_retrying sn = in_state Retrying t \<and> sn_completed sn = in_state Completed t
    \<and> sn_permanently_failed sn = in_state PermanentlyFailed t
    \<and> sn_next_due_at sn = (if \<exists>r \<in> set (s_jobs t). waiting r
         then Some (nat (Min (due_at ` {r \<in> set (s_jobs t). waiting r}))) else None)"
  using snapshot_runs [OF ledger.reachable_inv [OF assms]] by (auto simp: min_due_eq)

theorem snapshot_counts_are_exact_witness:
  "\<exists>sn. snapshot demo_recorded = Inr sn \<and> sn_pending sn = in_state Pending demo_recorded
     \<and> sn_completed sn = in_state Completed demo_recorded"
  using snapshot_counts_are_exact [OF demo_init demo_steps(1)] by blast

subsection \<open>Append-only history\<close>

text \<open>C3: the ledger never loses or rewrites a job: whatever happens, including restarts, every
  recorded job keeps its place, its id, path, name, idempotency key, size, digest, delivery
  binding and creation time, and the state it is in was reached from its earlier one along the
  transitions of the life cycle only.\<close>

theorem jobs_are_never_lost:
  assumes "ledger_init sha s0" and "ledger_steps sha s0 s" and "ledger_steps sha s t"
    and "i < length (s_jobs s)"
  shows "i < length (s_jobs t)
    \<and> job_identity (s_jobs t ! i) = job_identity (s_jobs s ! i)
    \<and> j_job_revision (s_jobs s ! i) \<le> j_job_revision (s_jobs t ! i)
    \<and> (\<exists>a b. j_state (s_jobs s ! i) = state_text a \<and> j_state (s_jobs t ! i) = state_text b
         \<and> lifecycle\<^sup>*\<^sup>* a b)"
proof -
  have inv: "store_inv sha s" by (rule ledger.reachable_inv [OF assms(1,2)])
  note hist = steps_history [OF assms(3) inv]
  let ?r = "s_jobs s ! i"
  let ?P = "\<lambda>q. job_identity q = job_identity ?r \<and> j_job_revision ?r \<le> j_job_revision q
    \<and> (\<exists>a b. j_state ?r = state_text a \<and> j_state q = state_text b \<and> lifecycle\<^sup>*\<^sup>* a b)"
  have "?r \<in> set (s_jobs s)" using assms(4) by simp
  then obtain a where "j_state ?r = state_text a"
    using job_checks_state store_inv_job(1) [OF inv] by blast
  then have "?P ?r" by auto
  moreover have "?P q'" if "job_moves q q'" "?P q" for q q'
    using that by (auto simp: job_moves_def intro: rtranclp.rtrancl_into_rtrancl)
  ultimately have "?P (s_jobs t ! i)" using history_keeps [OF hist assms(4), of ?P] by blast
  then show ?thesis using hist assms(4) by (auto simp: history_def)
qed

lemma demo_reach: "ledger_steps demo_sha demo_store demo_claimed"
  "ledger_steps demo_sha demo_store demo_completed" "ledger_steps demo_sha demo_store demo_failed"
  using demo_steps by (blast intro: rtranclp_trans)+

theorem jobs_are_never_lost_witness:
  "job_identity (s_jobs demo_completed ! 0) = job_identity (s_jobs demo_claimed ! 0)"
proof -
  have "0 < length (s_jobs demo_claimed)" by code_simp
  from jobs_are_never_lost [OF demo_init demo_reach(1) demo_steps(3) this] show ?thesis by blast
qed

lemma completed_row_frozen:
  assumes inv: "store_inv sha s" and steps: "ledger_steps sha s t"
    and i: "i < length (s_jobs s)" and final: "j_state (s_jobs s ! i) = ''completed''"
  shows "i < length (s_jobs t) \<and> s_jobs t ! i = s_jobs s ! i"
proof -
  note hist = steps_history [OF steps inv]
  have frozen: "\<not> job_moves r q" if "j_state r = ''completed''" for r q
    using that completed_is_final
    by (auto simp: job_moves_def) (metis state_text.simps(4) state_text_inject)
  have "s_jobs t ! i = s_jobs s ! i"
    by (rule history_keeps [OF hist i]) (use frozen final in auto)
  then show ?thesis using hist i by (auto simp: history_def)
qed

text \<open>Completion is final: once a job is completed its row never changes again.\<close>

lemma completed_jobs_never_change:
  assumes "ledger_init sha s0" and "ledger_steps sha s0 s" and "ledger_steps sha s t"
    and "i < length (s_jobs s)" and "j_state (s_jobs s ! i) = ''completed''"
  shows "i < length (s_jobs t) \<and> s_jobs t ! i = s_jobs s ! i"
  by (rule completed_row_frozen [OF ledger.reachable_inv [OF assms(1,2)] assms(3-5)])

subsection \<open>Fencing\<close>

text \<open>A claim is valid as long as its row is in progress at its attempt count.\<close>

definition claim_valid :: "claimed_upload \<Rightarrow> upload_store \<Rightarrow> bool" where
  "claim_valid claim s \<longleftrightarrow> (\<exists>r \<in> set (s_jobs s). claim_matches claim (int (c_attempt_count claim)) r)"

text \<open>A row that has passed the attempt of a claim never matches it again.\<close>

definition spent :: "claimed_upload \<Rightarrow> upload_job \<Rightarrow> bool" where
  "spent claim r \<longleftrightarrow> j_id r = job_id_value (c_job_id claim)
     \<and> (int (c_attempt_count claim) < j_attempt_count r
        \<or> int (c_attempt_count claim) = j_attempt_count r \<and> j_state r \<noteq> ''in_progress'')"

lemma spent_moves: "job_moves r q \<Longrightarrow> spent claim r \<Longrightarrow> spent claim q"
  by (auto simp: job_moves_def spent_def job_identity_def lifecycle_simps b2i_def)

lemma not_valid_if_spent:
  assumes "store_inv sha s" and "r \<in> set (s_jobs s)" and "spent claim r"
  shows "\<not> claim_valid claim s"
proof
  assume "claim_valid claim s"
  then obtain q where "q \<in> set (s_jobs s)" "claim_matches claim (int (c_attempt_count claim)) q"
    by (auto simp: claim_valid_def)
  moreover from this have "q = r"
    using ledger_inv_unique_id [OF store_inv_ledger [OF assms(1)]] assms(2,3)
    by (auto simp: claim_matches_def spent_def)
  ultimately show False using assms(3) by (auto simp: claim_matches_def spent_def)
qed

lemma claim_due_moves:
  assumes "claim_due now s = Inr (Some claim, s')" and inv: "store_inv sha s"
  obtains i where "i < length (s_jobs s)" "j_id (s_jobs s ! i) = job_id_value (c_job_id claim)"
    "waiting (s_jobs s ! i)" "due_at (s_jobs s ! i) \<le> int now"
    "\<forall>r \<in> set (s_jobs s). waiting r \<longrightarrow> due_at r \<le> int now \<longrightarrow> due_before (s_jobs s ! i) r"
    "int (c_attempt_count claim) = j_attempt_count (s_jobs s ! i) + 1"
    "s_jobs s' = (s_jobs s)[i := (s_jobs s ! i)\<lparr>j_state := ''in_progress'',
       j_attempt_count := j_attempt_count (s_jobs s ! i) + 1, j_next_attempt_at := None,
       j_updated_at := int now, j_job_revision := j_job_revision (s_jobs s ! i) + 1\<rparr>]"
    "claim_matches claim (int (c_attempt_count claim)) (s_jobs s' ! i)"
    "c_artifact_path claim = j_artifact_path (s_jobs s ! i)"
    "c_filename claim = j_filename (s_jobs s ! i)" "c_sha256 claim = j_sha256 (s_jobs s ! i)"
    "int (c_file_size claim) = j_file_size (s_jobs s ! i)"
    "c_idempotency_key claim = j_idempotency_key (s_jobs s ! i)"
  using assms(1)
proof (cases rule: claim_due_Inr)
  case (claimed candidate job_id claim0 attempt db)
  have cand: "candidate \<in> set (s_jobs s)" "waiting candidate" "due_at candidate \<le> int now"
    and first: "\<forall>r \<in> set (s_jobs s). waiting r \<longrightarrow> due_at r \<le> int now \<longrightarrow> due_before candidate r"
    using first_due_Some [OF claimed(1)] by auto
  then obtain i where i: "i < length (s_jobs s)" "s_jobs s ! i = candidate"
    by (auto simp: in_set_conv_nth)
  have id: "job_id_value job_id = j_id candidate"
    using claimed(2) by (auto simp: job_id_from_database_Inr)
  note fields = into_claim_Inr [OF claimed(3)]
  have attempt: "attempt = j_attempt_count candidate + 1" using fields(2) claimed(4) by simp
  have claim: "claim = claim0\<lparr>c_attempt_count := nat attempt\<rparr>" using claimed(7) by simp
  have "0 \<le> attempt" using claimed(4) by simp
  then have count: "int (c_attempt_count claim) = j_attempt_count candidate + 1"
    by (simp add: claim attempt)
  let ?assign = "\<lambda>r. r\<lparr>j_state := ''in_progress'', j_attempt_count := attempt,
                j_next_attempt_at := None, j_updated_at := int now,
                j_job_revision := j_job_revision r + 1\<rparr>"
  have uniq: "k = i" if "k < length (s_jobs s)" "j_id (s_jobs s ! k) = j_id candidate" for k
  proof -
    have "distinct (map j_id (s_jobs s))"
      using store_inv_ledger [OF inv] by (simp add: ledger_inv_def strict_sorted_iff)
    then show ?thesis using that i by (auto simp: distinct_conv_nth)
  qed
  have at_i: "j_id (s_jobs s ! k) = j_id candidate \<longleftrightarrow> k = i" if "k < length (s_jobs s)" for k
    using uniq [OF that] i(2) by metis
  have jobs: "s_jobs s' = (s_jobs s)[i := ?assign candidate]"
  proof (rule nth_equalityI)
    have eq: "s_jobs s' = map (\<lambda>r. if j_id r = job_id_value job_id \<and> waiting r \<and> due_at r \<le> int now
        then ?assign r else r) (s_jobs s)"
      using sql_update_jobs_effect(1) [OF claimed(6)] by (simp add: claimed(8))
    show "length (s_jobs s') = length ((s_jobs s)[i := ?assign candidate])" by (simp add: eq)
    fix k assume "k < length (s_jobs s')"
    then have k: "k < length (s_jobs s)" by (simp add: eq)
    show "s_jobs s' ! k = (s_jobs s)[i := ?assign candidate] ! k"
    proof (cases "k = i")
      case True
      then show ?thesis using i cand id by (simp add: eq)
    next
      case False
      then show ?thesis using at_i [OF k] k id by (simp add: eq)
    qed
  qed
  then have "claim_matches claim (int (c_attempt_count claim)) (s_jobs s' ! i)"
    using i id count fields(1) by (simp add: claim_matches_def claim attempt)
  with jobs show thesis
    using that [of i] i cand first id count fields by (simp add: claim attempt)
qed (simp add: claim_due_def)

lemma row_by_id:
  assumes "store_inv sha s" and "ledger_steps sha s t" and "i < length (s_jobs s)"
  shows "i < length (s_jobs t)" "j_id (s_jobs t ! i) = j_id (s_jobs s ! i)"
    "spent claim (s_jobs s ! i) \<Longrightarrow> spent claim (s_jobs t ! i)"
proof -
  note hist = steps_history [OF assms(2,1)]
  show "i < length (s_jobs t)" using hist assms(3) by (simp add: history_def)
  show "j_id (s_jobs t ! i) = j_id (s_jobs s ! i)"
    by (rule history_keeps [OF hist assms(3), of "\<lambda>q. j_id q = j_id (s_jobs s ! i)"])
      (auto dest: moves_identity simp: job_identity_def)
  show "spent claim (s_jobs t ! i)" if "spent claim (s_jobs s ! i)"
    using history_keeps [OF hist assms(3)] that spent_moves by blast
qed

lemma finish_needs_valid:
  assumes "sql_update_jobs columns (claim_matches claim (int (c_attempt_count claim))) assign (s_db s)
      = Inr (db, n)" and "ensure_transition n job = Inr u"
  shows "claim_valid claim s"
proof -
  have "length (filter (claim_matches claim (int (c_attempt_count claim))) (s_jobs s)) = 1"
    using sql_update_jobs_effect(2) [OF assms(1)] assms(2)
    by (simp add: ensure_transition_def result_simps)
  then have "filter (claim_matches claim (int (c_attempt_count claim))) (s_jobs s) \<noteq> []" by auto
  then show ?thesis by (auto simp: claim_valid_def filter_empty_conv)
qed

lemma attempt_count_Inr:
  "attempt_count_to_database claim = Inr a \<longleftrightarrow> a = int (c_attempt_count claim) \<and> a \<le> i64_max"
  by (auto simp: attempt_count_to_database_def)

lemma finishing_needs_valid:
  "release_claim claim at s = Inr s' \<Longrightarrow> claim_valid claim s"
  "mark_retrying claim at next status err s = Inr s' \<Longrightarrow> claim_valid claim s"
  "mark_completed claim at http s = Inr s' \<Longrightarrow> claim_valid claim s"
  "mark_permanently_failed claim at status err s = Inr s' \<Longrightarrow> claim_valid claim s"
  unfolding release_claim_def mark_retrying_def mark_completed_def mark_permanently_failed_def
  by (auto simp: result_simps attempt_count_Inr dest: finish_needs_valid)

text \<open>C1: claims are fenced: once a claim is no longer valid (it was finished, released, or
  given back by the recovery of a restart), no later state makes it valid again, and none of
  the four operations that finish a claim accepts it, so a stale worker cannot disturb a job
  that somebody else holds.\<close>

theorem spent_claims_stay_spent:
  assumes "ledger_init sha s0" and "ledger_steps sha s0 s"
    and "claim_due now s = Inr (Some claim, s1)"
    and "ledger_steps sha s1 s2" and "\<not> claim_valid claim s2" and "ledger_steps sha s2 s3"
  shows "\<not> claim_valid claim s3
    \<and> release_claim claim at s3 \<noteq> Inr s4
    \<and> mark_retrying claim at next status err s3 \<noteq> Inr s4
    \<and> mark_completed claim at http s3 \<noteq> Inr s4
    \<and> mark_permanently_failed claim at status err s3 \<noteq> Inr s4"
proof -
  have inv: "store_inv sha s" by (rule ledger.reachable_inv [OF assms(1,2)])
  from assms(3) inv obtain i where i: "i < length (s_jobs s)"
    "j_id (s_jobs s ! i) = job_id_value (c_job_id claim)"
    and jobs: "length (s_jobs s1) = length (s_jobs s)"
    and held: "claim_matches claim (int (c_attempt_count claim)) (s_jobs s1 ! i)"
    by (rule claim_due_moves) auto
  have step: "ledger_steps sha s s1" using assms(3) by (blast intro: ledger_step.claimed)
  have inv1: "store_inv sha s1" by (rule ledger.steps_inv [OF step inv])
  have inv2: "store_inv sha s2" by (rule ledger.steps_inv [OF assms(4) inv1])
  have inv3: "store_inv sha s3" by (rule ledger.steps_inv [OF assms(6) inv2])
  have i1: "i < length (s_jobs s1)" using i jobs by simp
  note at2 = row_by_id [OF inv1 assms(4) i1]
  let ?Q = "\<lambda>r. j_id r = job_id_value (c_job_id claim)
    \<and> int (c_attempt_count claim) \<le> j_attempt_count r"
  have "?Q (s_jobs s2 ! i)"
  proof (rule history_keeps [OF steps_history [OF assms(4) inv1] i1])
    show "?Q (s_jobs s1 ! i)" using held by (simp add: claim_matches_def)
    show "\<And>r q. job_moves r q \<Longrightarrow> ?Q r \<Longrightarrow> ?Q q"
      by (auto simp: job_moves_def job_identity_def b2i_def)
  qed
  moreover have "\<not> claim_matches claim (int (c_attempt_count claim)) (s_jobs s2 ! i)"
    using assms(5) at2(1) by (auto simp: claim_valid_def)
  ultimately have "spent claim (s_jobs s2 ! i)" by (auto simp: spent_def claim_matches_def)
  then have "spent claim (s_jobs s3 ! i)" "i < length (s_jobs s3)"
    using row_by_id [OF inv2 assms(6) at2(1)] by blast+
  then have "\<not> claim_valid claim s3" using not_valid_if_spent [OF inv3 nth_mem] by simp
  then show ?thesis by (auto dest: finishing_needs_valid)
qed

theorem spent_claims_stay_spent_witness:
  "\<not> claim_valid demo_claim demo_completed
     \<and> mark_permanently_failed demo_claim 50 None None demo_more \<noteq> Inr demo_failed"
proof -
  have gone: "\<not> claim_valid demo_claim demo_completed" by code_simp
  from spent_claims_stay_spent [OF demo_init demo_steps(1) demo_claim_runs demo_steps(3) gone
      demo_steps(5)] gone
  show ?thesis by blast
qed

text \<open>No two claims the ledger ever hands out carry the same pair of job id and attempt
  number, which is the token that the finishing operations check.\<close>

lemma claim_tokens_are_unique:
  assumes "ledger_init sha s0" and "ledger_steps sha s0 s"
    and first: "claim_due now s = Inr (Some claim, s1)"
    and between: "ledger_steps sha s1 s2"
    and second: "claim_due later s2 = Inr (Some claim', s3)"
  shows "\<not> (c_job_id claim = c_job_id claim' \<and> c_attempt_count claim = c_attempt_count claim')"
proof
  assume same: "c_job_id claim = c_job_id claim' \<and> c_attempt_count claim = c_attempt_count claim'"
  have inv: "store_inv sha s" by (rule ledger.reachable_inv [OF assms(1,2)])
  have inv1: "store_inv sha s1"
    using ledger.steps_inv [OF _ inv] first by (blast intro: ledger_step.claimed)
  have inv2: "store_inv sha s2" by (rule ledger.steps_inv [OF between inv1])
  from first inv obtain i where i: "i < length (s_jobs s1)"
    and held: "claim_matches claim (int (c_attempt_count claim)) (s_jobs s1 ! i)"
    by (rule claim_due_moves) auto
  from second inv2 obtain k where k: "k < length (s_jobs s2)"
    "j_id (s_jobs s2 ! k) = job_id_value (c_job_id claim')"
    "int (c_attempt_count claim') = j_attempt_count (s_jobs s2 ! k) + 1"
    by (rule claim_due_moves)
  let ?Q = "\<lambda>r. j_id r = job_id_value (c_job_id claim)
    \<and> int (c_attempt_count claim) \<le> j_attempt_count r"
  have "?Q (s_jobs s2 ! i)"
  proof (rule history_keeps [OF steps_history [OF between inv1] i])
    show "?Q (s_jobs s1 ! i)" using held by (simp add: claim_matches_def)
    show "\<And>r q. job_moves r q \<Longrightarrow> ?Q r \<Longrightarrow> ?Q q"
      by (auto simp: job_moves_def job_identity_def b2i_def)
  qed
  moreover have "s_jobs s2 ! i = s_jobs s2 ! k"
    using ledger_inv_unique_id [OF store_inv_ledger [OF inv2]] k same \<open>?Q (s_jobs s2 ! i)\<close>
      row_by_id(1) [OF inv1 between i] by simp
  ultimately show False using k same by simp
qed

text \<open>The claim lost in a crash is handed out again, with the next attempt number.\<close>

definition demo_reclaim :: "store_error + claimed_upload option \<times> upload_store" where
  "demo_reclaim = claim_due 60 demo_reopened"

lemma demo_reclaim_runs:
  "\<exists>s. claim_due 60 demo_reopened = Inr (Some (demo_claim\<lparr>c_attempt_count := 2\<rparr>), s)"
proof -
  have "(case demo_reclaim of Inr (c, _) \<Rightarrow> c = Some (demo_claim\<lparr>c_attempt_count := 2\<rparr>) | _ \<Rightarrow> False)"
    by code_simp
  then show ?thesis by (auto simp: demo_reclaim_def split: sum.splits)
qed

subsection \<open>Claiming due work\<close>

text \<open>A claim takes the waiting job whose due time is earliest (the smaller id among equals),
  moves that row alone to in progress with the next attempt number, and describes exactly the
  artifact the row was recorded for.\<close>

lemma claim_takes_earliest_due:
  assumes "ledger_init sha s0" and "ledger_steps sha s0 s"
    and "claim_due now s = Inr (Some claim, s')"
  shows "\<exists>i < length (s_jobs s). let r = s_jobs s ! i in
      waiting r \<and> due_at r \<le> int now
      \<and> (\<forall>q \<in> set (s_jobs s). waiting q \<and> due_at q \<le> int now \<longrightarrow> due_before r q)
      \<and> s_jobs s' = (s_jobs s)[i := r\<lparr>j_state := ''in_progress'',
            j_attempt_count := j_attempt_count r + 1, j_next_attempt_at := None,
            j_updated_at := int now, j_job_revision := j_job_revision r + 1\<rparr>]
      \<and> job_id_value (c_job_id claim) = j_id r
      \<and> c_artifact_path claim = j_artifact_path r \<and> c_filename claim = j_filename r
      \<and> c_idempotency_key claim = j_idempotency_key r \<and> c_sha256 claim = j_sha256 r
      \<and> int (c_file_size claim) = j_file_size r
      \<and> int (c_attempt_count claim) = j_attempt_count r + 1"
proof -
  have inv: "store_inv sha s" by (rule ledger.reachable_inv [OF assms(1,2)])
  from assms(3) inv show ?thesis
    by (rule claim_due_moves) (auto simp: Let_def)
qed

lemma into_claim_runs:
  assumes inv: "store_inv sha s" and r: "r \<in> set (s_jobs s)" "live_job r"
  shows "\<exists>claim. into_claim (UploadJobId (j_id r)) (s_capture_root s) (s_delivery_binding s) r = Inr claim
    \<and> int (c_attempt_count claim) = j_attempt_count r"
  using store_inv_job [OF inv r(1)] r(2)
  by (auto simp: into_claim_def sha256_from_database_def delivery_binding_from_database_def
      validate_stored_identity_def database_u64_def job_checks_def)

lemma state_count_le: "count_state st rows \<le> int (length rows)"
  by (simp add: count_state_def)

lemma claim_check_runs:
  assumes "job_in_range r" "job_checks r" and "waiting r" and "0 \<le> now" "now \<le> i64_max"
    and "j_attempt_count r < i64_max" "j_job_revision r < i64_max"
  shows "job_in_range (r\<lparr>j_state := ''in_progress'', j_attempt_count := j_attempt_count r + 1,
      j_next_attempt_at := None, j_updated_at := now, j_job_revision := j_job_revision r + 1\<rparr>)"
    and "job_checks (r\<lparr>j_state := ''in_progress'', j_attempt_count := j_attempt_count r + 1,
      j_next_attempt_at := None, j_updated_at := now, j_job_revision := j_job_revision r + 1\<rparr>)"
  using assms
  by (auto simp: job_in_range_def job_checks_def in_i64_def opt_in_i64_def opt_nonneg_def i64_min_def
      waiting_def split: option.splits)

lemma claim_trigger_runs:
  assumes "ledger_inv db" and r: "r \<in> set (db_jobs db)" "waiting r"
    and "m_ledger_revision (db_meta db) < i64_max" "int (length (db_jobs db)) < i64_max"
    and q: "j_state q = ''in_progress''" "j_completed_at q = j_completed_at r"
      "j_last_failure_at q = j_last_failure_at r"
  shows "\<exists>m'. after_update_trigger r q (db_meta db) = Inr m'"
proof -
  have count: "1 \<le> count_state st (db_jobs db)" if "j_state r = st" for st
  proof -
    obtain before after where "db_jobs db = before @ r # after" using r(1) by (meson split_list)
    then show ?thesis using that count_state_nonneg [of st before] count_state_nonneg [of st after]
      by (simp add: b2i_def)
  qed
  have above: "- 9223372036854775808 \<le> count_state st (db_jobs db)" for st
    by (rule order_trans [OF _ count_state_nonneg]) simp
  have bound: "count_state st (db_jobs db) < i64_max" for st
    using state_count_le [of st "db_jobs db"] assms(5) by simp
  have "meta_in_range (db_meta db)" "meta_checks (db_meta db)" and c: "counters_exact db"
    using assms(1) by (simp_all add: ledger_inv_def)
  then show ?thesis
    using r(2) assms(4) count bound [of "''in_progress''"]
    by (auto simp: after_update_trigger_def check_meta_def above q is_latest_def waiting_def
        meta_in_range_def meta_checks_def in_i64_def i64_min_def counters_exact_def b2i_def)
qed

lemma split_at:
  assumes "ledger_inv db" "r \<in> set (db_jobs db)"
  obtains before after where "db_jobs db = before @ r # after"
    "\<And>q. q \<in> set before \<union> set after \<Longrightarrow> j_id q \<noteq> j_id r"
proof -
  from assms(2) obtain before after where split: "db_jobs db = before @ r # after"
    by (meson split_list)
  have "distinct (map j_id (db_jobs db))"
    using assms(1) by (simp add: ledger_inv_def strict_sorted_iff)
  then have "\<And>q. q \<in> set before \<union> set after \<Longrightarrow> j_id q \<noteq> j_id r"
    unfolding split by (auto simp: image_iff)
  then show thesis using split that by blast
qed

text \<open>Due work is never stuck: in every reachable state with a waiting job that is due, a
  claim succeeds (no integrity check of the ledger refuses it), as long as the 64-bit counters
  of the ledger have not reached their end.\<close>

lemma due_work_can_be_claimed:
  assumes "ledger_init sha s0" and "ledger_steps sha s0 s" and "int now \<le> i64_max"
    and due: "\<exists>r \<in> set (s_jobs s). waiting r \<and> due_at r \<le> int now"
    and "m_ledger_revision (db_meta (s_db s)) < i64_max" "int (length (s_jobs s)) < i64_max"
    and room: "\<forall>r \<in> set (s_jobs s). j_attempt_count r < i64_max \<and> j_job_revision r < i64_max"
  shows "\<exists>claim s'. claim_due now s = Inr (Some claim, s')"
proof -
  have inv: "store_inv sha s" by (rule ledger.reachable_inv [OF assms(1,2)])
  have "filter (\<lambda>r. waiting r \<and> due_at r \<le> int now) (s_jobs s) \<noteq> []"
    using due by (auto simp: filter_empty_conv)
  then obtain c where first: "first_due (filter (\<lambda>r. waiting r \<and> due_at r \<le> int now) (s_jobs s)) = Some c"
    using first_due_None by (cases "first_due (filter (\<lambda>r. waiting r \<and> due_at r \<le> int now) (s_jobs s))") auto
  then have c: "c \<in> set (s_jobs s)" "waiting c" "due_at c \<le> int now"
    using first_due_Some [OF first] by auto
  note row = store_inv_job [OF inv c(1)]
  obtain claim where claim: "into_claim (UploadJobId (j_id c)) (s_capture_root s)
      (s_delivery_binding s) c = Inr claim" "int (c_attempt_count claim) = j_attempt_count c"
    using into_claim_runs [OF inv c(1) waiting_live [OF c(2)]] by blast
  let ?q = "c\<lparr>j_state := ''in_progress'', j_attempt_count := j_attempt_count c + 1,
      j_next_attempt_at := None, j_updated_at := int now, j_job_revision := j_job_revision c + 1\<rparr>"
  obtain m' where trigger: "after_update_trigger c ?q (db_meta (s_db s)) = Inr m'"
    using claim_trigger_runs [OF store_inv_ledger [OF inv] c(1,2) assms(5,6), of ?q] by auto
  obtain before after where split: "s_jobs s = before @ c # after"
    and others: "\<And>q. q \<in> set before \<union> set after \<Longrightarrow> j_id q \<noteq> j_id c"
    using split_at [OF store_inv_ledger [OF inv] c(1)] by blast
  have room_c: "j_attempt_count c < i64_max" "j_job_revision c < i64_max" using room c(1) by auto
  let ?columns = "[''state'', ''attempt_count'', ''next_attempt_at_ms'', ''updated_at_ms'', ''job_revision'']"
  let ?condition = "\<lambda>r. j_id r = j_id c \<and> waiting r \<and> due_at r \<le> int now"
  let ?assign = "\<lambda>r. r\<lparr>j_state := ''in_progress'', j_attempt_count := j_attempt_count c + 1,
      j_next_attempt_at := None, j_updated_at := int now, j_job_revision := j_job_revision r + 1\<rparr>"
  have "sql_update_rows ?columns ?condition ?assign (db_meta (s_db s)) (before @ c # after)
      = Inr (m', before @ ?assign c # after, 1)"
  proof (rule sql_update_rows_one)
    show "job_in_range (?assign c)" "job_checks (?assign c)"
      using claim_check_runs [OF row(2,1) c(2), of "int now"] assms(3) room_c by simp_all
    show "after_update_trigger c (?assign c) (db_meta (s_db s)) = Inr m'" by (rule trigger)
  qed (use others c in \<open>auto simp: identity_columns_def\<close>)
  then have "\<exists>db. sql_update_jobs ?columns ?condition ?assign (s_db s) = Inr (db, 1)"
    by (simp add: sql_update_jobs_def split)
  then obtain db where run: "sql_update_jobs ?columns ?condition ?assign (s_db s) = Inr (db, 1)" ..
  have "j_attempt_count c \<le> i64_max" "checked_add_i64 (j_attempt_count c) 1 = Some (j_attempt_count c + 1)"
    "0 \<le> j_attempt_count c"
    using room_c row(1) by (auto simp: checked_add_i64_def i64_min_def job_checks_def)
  then show ?thesis
    using row(3) assms(3) first claim run
    by (simp add: claim_due_def unix_ms_to_database_def job_id_from_database_def database_u64_def)
qed

end
