(* ===== verification/LedgerList.thy ===== *)
theory LedgerList
  imports LedgerTheorems LedgerRows "HOL-Library.Multiset"
begin

text \<open>
  The operator's listing of the ledger (\<open>list_jobs\<close>): newest first, filtered by state, in pages
  that are chained by authenticated cursors. A cursor binds the ledger, its revision, the
  newest job at the time, the last job shown, the filter and the page size.
\<close>

subsection \<open>Cursors\<close>

definition list_cursor_domain :: "u8 list" where
  "list_cursor_domain = string_bytes ''autopiercam-upload-list-cursor-v1'' @ [0]"

definition list_cursor_ledger_domain :: "u8 list" where
  "list_cursor_ledger_domain = string_bytes ''autopiercam-upload-list-ledger-v1'' @ [0]"

definition list_cursor_prefix :: string where
  "list_cursor_prefix = ''apcu1_''"

definition list_cursor_payload_length :: nat where
  "list_cursor_payload_length = 35"

definition list_cursor_mac_length :: nat where
  "list_cursor_mac_length = 16"

definition list_cursor_encoded_length :: nat where
  "list_cursor_encoded_length = length list_cursor_prefix
     + (list_cursor_payload_length + list_cursor_mac_length) * 2"

definition all_upload_state_filter_mask :: u8 where
  "all_upload_state_filter_mask = 31"

definition max_upload_list_page_size :: nat where
  "max_upload_list_page_size = 100"

record decoded_cursor =
  dc_ledger_tag :: "u8 list"
  dc_ledger_revision :: nat
  dc_high_water_id :: nat
  dc_before_id :: nat
  dc_filter_mask :: u8
  dc_page_size :: nat

definition list_cursor_ledger_tag :: "(u8 list \<Rightarrow> u8 list) \<Rightarrow> u8 list \<Rightarrow> u8 list" where
  "list_cursor_ledger_tag sha ledger_id = take 8 (sha (list_cursor_ledger_domain @ ledger_id))"

definition list_cursor_mac :: "(u8 list \<Rightarrow> u8 list) \<Rightarrow> u8 list \<Rightarrow> u8 list \<Rightarrow> u8 list" where
  "list_cursor_mac sha ledger_id payload =
     take list_cursor_mac_length (sha (list_cursor_domain @ ledger_id @ payload))"

definition list_cursor_payload ::
  "(u8 list \<Rightarrow> u8 list) \<Rightarrow> u8 list \<Rightarrow> nat \<Rightarrow> nat \<Rightarrow> nat \<Rightarrow> u8 \<Rightarrow> nat \<Rightarrow> u8 list" where
  "list_cursor_payload sha ledger_id revision high_water_id before_id filter_mask page_size =
     list_cursor_ledger_tag sha ledger_id @ be_bytes 8 revision @ be_bytes 8 high_water_id
       @ be_bytes 8 before_id @ [filter_mask] @ be_bytes 2 page_size"

definition encode_list_cursor ::
  "(u8 list \<Rightarrow> u8 list) \<Rightarrow> u8 list \<Rightarrow> nat \<Rightarrow> nat \<Rightarrow> nat \<Rightarrow> u8 \<Rightarrow> nat \<Rightarrow> string" where
  "encode_list_cursor sha ledger_id revision high_water_id before_id filter_mask page_size =
     (let payload = list_cursor_payload sha ledger_id revision high_water_id before_id
                      filter_mask page_size in
      list_cursor_prefix @ hex_encode payload @ hex_encode (list_cursor_mac sha ledger_id payload))"

definition decode_list_cursor ::
  "(u8 list \<Rightarrow> u8 list) \<Rightarrow> string \<Rightarrow> u8 list \<Rightarrow> store_error + decoded_cursor" where
  "decode_list_cursor sha cursor ledger_id =
     rbind (require (\<not> (length cursor \<noteq> list_cursor_encoded_length
              \<or> \<not> starts_with cursor list_cursor_prefix)) InvalidListCursor) (\<lambda>_.
     rbind (ok_or (hex_decode_exact (list_cursor_payload_length + list_cursor_mac_length)
              (drop (length list_cursor_prefix) cursor)) InvalidListCursor) (\<lambda>bytes.
     let payload = take list_cursor_payload_length bytes;
         supplied_mac = drop list_cursor_payload_length bytes;
         ledger_tag = take 8 payload in
     rbind (require (ledger_tag = list_cursor_ledger_tag sha ledger_id) StaleListCursor) (\<lambda>_.
     rbind (require (constant_time_equal supplied_mac (list_cursor_mac sha ledger_id payload))
              InvalidListCursor) (\<lambda>_.
     let filter_mask = payload ! 32 in
     rbind (require (\<not> (filter_mask = 0 \<or> filter_mask AND NOT all_upload_state_filter_mask \<noteq> 0))
              InvalidListCursor) (\<lambda>_.
       Inr \<lparr>dc_ledger_tag = ledger_tag,
            dc_ledger_revision = from_be_bytes (take 8 (drop 8 payload)),
            dc_high_water_id = from_be_bytes (take 8 (drop 16 payload)),
            dc_before_id = from_be_bytes (take 8 (drop 24 payload)),
            dc_filter_mask = filter_mask,
            dc_page_size = from_be_bytes (take 2 (drop 33 payload))\<rparr>)))))"

fun mask_of_states :: "u8 \<Rightarrow> upload_state list \<Rightarrow> store_error + u8" where
  "mask_of_states bits [] = Inr bits"
| "mask_of_states bits (state # states) =
     (if bits AND filter_bit state \<noteq> 0 then Inl DuplicateListStateFilter
      else mask_of_states (bits OR filter_bit state) states)"

definition canonical_state_filter_mask :: "upload_state list \<Rightarrow> store_error + u8" where
  "canonical_state_filter_mask states =
     (if states = [] then Inr all_upload_state_filter_mask else mask_of_states 0 states)"

subsection \<open>Listing\<close>

record upload_list_page =
  lp_ledger_id :: "u8 list"
  lp_ledger_revision :: nat
  lp_jobs :: "upload_list_item list"
  lp_next_cursor :: "string option"

text \<open>The \<open>CASE state\<close> expression of the query.\<close>

definition state_case_bit :: "string \<Rightarrow> u8" where
  "state_case_bit state =
     (if state = ''pending'' then 1 else if state = ''in_progress'' then 2
      else if state = ''retrying'' then 4 else if state = ''completed'' then 8
      else if state = ''permanently_failed'' then 16 else 0)"

text \<open>\<open>COALESCE((SELECT MAX(id) FROM upload_jobs), 0)\<close>\<close>

definition max_job_id :: "upload_job list \<Rightarrow> int" where
  "max_job_id rows = (case rows of [] \<Rightarrow> 0 | r # rs \<Rightarrow> fold (\<lambda>r acc. max acc (j_id r)) rs (j_id r))"

text \<open>\<open>SELECT ... WHERE ... ORDER BY id DESC LIMIT ?\<close>\<close>

definition list_query :: "int \<Rightarrow> int option \<Rightarrow> u8 \<Rightarrow> nat \<Rightarrow> upload_job list \<Rightarrow> upload_job list" where
  "list_query high_water before_id filter_mask limit rows =
     take limit (sort_key (\<lambda>r. - j_id r)
       (filter (\<lambda>r. j_id r \<le> high_water
          \<and> (case before_id of None \<Rightarrow> True | Some b \<Rightarrow> j_id r < b)
          \<and> filter_mask AND state_case_bit (j_state r) \<noteq> 0) rows))"

definition cursor_position ::
  "(u8 list \<Rightarrow> u8 list) \<Rightarrow> u8 list \<Rightarrow> nat \<Rightarrow> nat \<Rightarrow> u8 \<Rightarrow> nat \<Rightarrow> string option
     \<Rightarrow> store_error + nat \<times> nat" where
  "cursor_position sha ledger_id revision current_high_water filter_mask page_size cursor =
     (case cursor of
        None \<Rightarrow> Inr (current_high_water, u64_max)
      | Some c \<Rightarrow>
          rbind (decode_list_cursor sha c ledger_id) (\<lambda>decoded.
          rbind (require (\<not> (dc_ledger_tag decoded \<noteq> list_cursor_ledger_tag sha ledger_id
                   \<or> dc_ledger_revision decoded \<noteq> revision)) StaleListCursor) (\<lambda>_.
          rbind (require (\<not> (dc_filter_mask decoded \<noteq> filter_mask \<or> dc_page_size decoded \<noteq> page_size))
                   ListCursorParametersMismatch) (\<lambda>_.
          rbind (require (\<not> (dc_high_water_id decoded = 0 \<or> dc_before_id decoded = 0
                   \<or> dc_before_id decoded > dc_high_water_id decoded
                   \<or> dc_high_water_id decoded > current_high_water)) InvalidListCursor) (\<lambda>_.
            Inr (dc_high_water_id decoded, dc_before_id decoded))))))"

text \<open>The page itself: one row more than asked for tells whether there is another page.\<close>

definition list_page ::
  "(u8 list \<Rightarrow> u8 list) \<Rightarrow> upload_store \<Rightarrow> u8 list \<Rightarrow> nat \<Rightarrow> nat \<Rightarrow> int option \<Rightarrow> u8 \<Rightarrow> nat
     \<Rightarrow> store_error + upload_list_page" where
  "list_page sha store ledger_id revision high_water before_database filter_mask page_size =
     rbind (collect_list_items (s_capture_root store) (s_delivery_binding store)
              (list_query (int high_water) before_database filter_mask (page_size + 1) (s_jobs store)))
       (\<lambda>items.
     let has_more = page_size < length items;
         jobs = (if has_more then take page_size items else items);
         next_cursor = (if has_more
           then Some (encode_list_cursor sha ledger_id revision high_water
                        (job_id_get (li_job_id (last jobs))) filter_mask page_size)
           else None) in
       Inr \<lparr>lp_ledger_id = ledger_id, lp_ledger_revision = revision, lp_jobs = jobs,
            lp_next_cursor = next_cursor\<rparr>)"

definition list_jobs ::
  "(u8 list \<Rightarrow> u8 list) \<Rightarrow> upload_state list \<Rightarrow> nat \<Rightarrow> string option \<Rightarrow> upload_store
     \<Rightarrow> store_error + upload_list_page" where
  "list_jobs sha state_filters page_size cursor store =
     rbind (require (\<not> (page_size = 0 \<or> page_size > max_upload_list_page_size)) InvalidListPageSize)
       (\<lambda>_.
     let ledger_id = m_ledger_id (db_meta (s_db store)) in
     rbind (require (length ledger_id = 16) InvalidSchema) (\<lambda>_.
     rbind (require (ledger_id = s_ledger_id store) InvalidSchema) (\<lambda>_.
     rbind (database_u64 ''ledger_revision'' (m_ledger_revision (db_meta (s_db store)))) (\<lambda>revision.
     rbind (database_u64 ''high-water id'' (max_job_id (s_jobs store))) (\<lambda>current_high_water.
     rbind (canonical_state_filter_mask state_filters) (\<lambda>filter_mask.
     rbind (cursor_position sha ledger_id revision current_high_water filter_mask page_size cursor)
       (\<lambda>(high_water, before_id).
     rbind (require (int high_water \<le> i64_max) InvalidListCursor) (\<lambda>_.
     rbind (if cursor \<noteq> None
            then rbind (require (int before_id \<le> i64_max) InvalidListCursor)
                   (\<lambda>_. Inr (Some (int before_id)))
            else Inr None) (\<lambda>before_database.
       list_page sha store ledger_id revision high_water before_database filter_mask page_size)))))))))"

subsection \<open>The cursor codec\<close>

definition cursor_ok :: "decoded_cursor \<Rightarrow> bool" where
  "cursor_ok c \<longleftrightarrow> dc_ledger_revision c \<le> u64_max \<and> dc_high_water_id c \<le> u64_max
     \<and> dc_before_id c \<le> u64_max \<and> dc_page_size c < 65536
     \<and> dc_filter_mask c \<noteq> 0 \<and> dc_filter_mask c AND NOT all_upload_state_filter_mask = 0"

lemma payload_parts:
  fixes rv hw bf pg :: nat and mk :: u8
  assumes "length tag = 8"
  defines "p \<equiv> tag @ be_bytes 8 rv @ be_bytes 8 hw @ be_bytes 8 bf @ [mk] @ be_bytes 2 pg"
  shows "length p = 35" "take 8 p = tag" "p ! 32 = mk"
    "take 8 (drop 8 p) = be_bytes 8 rv" "take 8 (drop 16 p) = be_bytes 8 hw"
    "take 8 (drop 24 p) = be_bytes 8 bf" "take 2 (drop 33 p) = be_bytes 2 pg"
  using assms by (simp_all add: p_def nth_append)

lemma decode_encode_cursor:
  assumes digest: "\<forall>bytes. length (sha bytes) = 32"
    and ok: "rv \<le> u64_max" "hw \<le> u64_max" "bf \<le> u64_max" "pg < 65536"
      "mk \<noteq> 0" "mk AND NOT all_upload_state_filter_mask = 0"
  shows "decode_list_cursor sha (encode_list_cursor sha ledger_id rv hw bf mk pg) ledger_id
    = Inr \<lparr>dc_ledger_tag = list_cursor_ledger_tag sha ledger_id, dc_ledger_revision = rv,
        dc_high_water_id = hw, dc_before_id = bf, dc_filter_mask = mk, dc_page_size = pg\<rparr>"
proof -
  let ?p = "list_cursor_payload sha ledger_id rv hw bf mk pg"
  let ?mac = "list_cursor_mac sha ledger_id ?p"
  have tag: "length (list_cursor_ledger_tag sha ledger_id) = 8"
    using digest by (simp add: list_cursor_ledger_tag_def)
  note parts = payload_parts [OF tag, of rv hw bf mk pg, folded list_cursor_payload_def]
  have mac_len: "length ?mac = 16" using digest by (simp add: list_cursor_mac_def list_cursor_mac_length_def)
  have written: "encode_list_cursor sha ledger_id rv hw bf mk pg
      = list_cursor_prefix @ hex_encode (?p @ ?mac)"
    by (simp add: encode_list_cursor_def Let_def hex_encode_def)
  have len: "length (?p @ ?mac) = 51" using parts(1) mac_len by simp
  have "hex_decode_exact 51 (hex_encode (?p @ ?mac)) = Some (?p @ ?mac)"
    using hex_decode_encode [of "?p @ ?mac"] len by simp
  then have bytes: "hex_decode_exact (list_cursor_payload_length + list_cursor_mac_length)
      (drop (length list_cursor_prefix) (encode_list_cursor sha ledger_id rv hw bf mk pg)) = Some (?p @ ?mac)"
    by (simp add: written list_cursor_payload_length_def list_cursor_mac_length_def)
  have shape: "length (encode_list_cursor sha ledger_id rv hw bf mk pg) = list_cursor_encoded_length"
    "starts_with (encode_list_cursor sha ledger_id rv hw bf mk pg) list_cursor_prefix"
    using len by (simp_all add: written list_cursor_encoded_length_def list_cursor_payload_length_def
        list_cursor_mac_length_def starts_with_def)
  have be: "from_be_bytes (be_bytes 8 x) = x" if "x \<le> u64_max" for x
    using that by (intro from_be_bytes_be_bytes) (simp add: u64_max_def)
  have be2: "from_be_bytes (be_bytes 2 pg) = pg"
    using ok(4) by (intro from_be_bytes_be_bytes) simp
  show ?thesis
    unfolding decode_list_cursor_def bytes
    using parts shape ok be be2
    by (simp add: list_cursor_payload_length_def constant_time_equal_iff Let_def nth_append)
qed

text \<open>Over any digest of 32 bytes, cursors form a codec; distinct positions have distinct cursors.\<close>

interpretation list_cursor: codec
  "\<lambda>c. (\<forall>bytes. length (sha bytes) = 32) \<and> cursor_ok c
     \<and> dc_ledger_tag c = list_cursor_ledger_tag sha ledger_id"
  "\<lambda>c. encode_list_cursor sha ledger_id (dc_ledger_revision c) (dc_high_water_id c)
     (dc_before_id c) (dc_filter_mask c) (dc_page_size c)"
  "\<lambda>text. case decode_list_cursor sha text ledger_id of Inl _ \<Rightarrow> None | Inr c \<Rightarrow> Some c"
  for sha ledger_id
  by unfold_locales (simp add: decode_encode_cursor cursor_ok_def)

subsection \<open>Filters\<close>

lemma filter_bit_values:
  "filter_bit Pending = 1" "filter_bit InProgress = 2" "filter_bit Retrying = 4"
  "filter_bit Completed = 8" "filter_bit PermanentlyFailed = 16"
  by (simp_all add: filter_bit_def)

lemma state_case_bit_text: "state_case_bit (state_text st) = filter_bit st"
  by (cases st) (simp_all add: state_case_bit_def filter_bit_values)

lemma filter_bits_disjoint: "filter_bit a AND filter_bit b \<noteq> 0 \<longleftrightarrow> a = b"
  by (cases a; cases b; simp add: filter_bit_values)

lemma filter_bit_in_all: "filter_bit a AND NOT all_upload_state_filter_mask = 0"
  "filter_bit a AND all_upload_state_filter_mask \<noteq> 0" "filter_bit a \<noteq> 0"
  by (cases a; simp add: filter_bit_values all_upload_state_filter_mask_def)+

lemma and_or_zero: "(a OR b) AND c = 0 \<longleftrightarrow> a AND c = 0 \<and> b AND c = (0 :: u8)"
  by (simp add: bit.conj_disj_distrib2 or_eq_0_iff)

lemma mask_of_states_Inr:
  "mask_of_states bits states = Inr mk \<Longrightarrow>
     (\<forall>st. mk AND filter_bit st \<noteq> 0 \<longleftrightarrow> bits AND filter_bit st \<noteq> 0 \<or> st \<in> set states)
     \<and> (bits AND NOT all_upload_state_filter_mask = 0 \<longrightarrow> mk AND NOT all_upload_state_filter_mask = 0)
     \<and> (bits \<noteq> 0 \<or> states \<noteq> [] \<longrightarrow> mk \<noteq> 0)"
proof (induction states arbitrary: bits)
  case (Cons st states)
  then have "mask_of_states (bits OR filter_bit st) states = Inr mk"
    by (auto split: if_splits)
  from Cons.IH [OF this] show ?case
    using filter_bits_disjoint filter_bit_in_all by (auto simp: and_or_zero or_eq_0_iff)
qed simp

lemma canonical_mask_Inr:
  assumes "canonical_state_filter_mask states = Inr mk"
  shows "mk \<noteq> 0" "mk AND NOT all_upload_state_filter_mask = 0"
    "mk AND filter_bit st \<noteq> 0 \<longleftrightarrow> states = [] \<or> st \<in> set states"
proof -
  have "mk \<noteq> 0 \<and> mk AND NOT all_upload_state_filter_mask = 0
    \<and> (mk AND filter_bit st \<noteq> 0 \<longleftrightarrow> states = [] \<or> st \<in> set states)"
  proof (cases "states = []")
    case True
    then have "mk = all_upload_state_filter_mask" using assms by (simp add: canonical_state_filter_mask_def)
    then show ?thesis using True filter_bit_in_all(2) [of st]
      by (simp add: all_upload_state_filter_mask_def and.commute)
  next
    case False
    then have "mask_of_states 0 states = Inr mk" using assms by (simp add: canonical_state_filter_mask_def)
    from mask_of_states_Inr [OF this] False show ?thesis by auto
  qed
  then show "mk \<noteq> 0" "mk AND NOT all_upload_state_filter_mask = 0"
    "mk AND filter_bit st \<noteq> 0 \<longleftrightarrow> states = [] \<or> st \<in> set states" by auto
qed

subsection \<open>The query on a sound ledger\<close>

text \<open>All matching rows, newest first.\<close>

definition matching :: "upload_state list \<Rightarrow> upload_store \<Rightarrow> upload_job list" where
  "matching states s = rev (filter (\<lambda>r. states = [] \<or> (\<exists>st \<in> set states. j_state r = state_text st)) (s_jobs s))"

lemma matching_sorted:
  assumes "store_inv sha s"
  shows "sorted_wrt (\<lambda>a b. j_id b < j_id a) (matching states s)"
proof -
  have "sorted_wrt (\<lambda>a b. j_id a < j_id b) (s_jobs s)"
    using store_inv_ledger [OF assms] by (simp add: ledger_inv_def sorted_wrt_map)
  then show ?thesis by (simp add: matching_def sorted_wrt_rev sorted_wrt_filter)
qed

lemma sort_key_descending:
  assumes "sorted_wrt (\<lambda>a b. j_id a < j_id b) rows"
  shows "sort_key (\<lambda>r. - j_id r) rows = rev rows"
proof -
  have "sorted_wrt (\<lambda>a b. - j_id a < - j_id b) (rev rows)"
    using assms by (simp add: sorted_wrt_rev)
  then have srt: "sorted (map (\<lambda>r. - j_id r) (rev rows))" and "distinct (map (\<lambda>r. - j_id r) (rev rows))"
    using strict_sorted_iff [of "map (\<lambda>r. - j_id r) (rev rows)"] by (auto simp: sorted_wrt_map)
  then have "inj_on (\<lambda>r. - j_id r) (set rows)" by (simp add: distinct_map)
  then show ?thesis by (intro sort_key_inj_key_eq) (use srt in simp_all)
qed

lemma mask_matches:
  assumes "canonical_state_filter_mask states = Inr mk" and "job_checks r"
  shows "mk AND state_case_bit (j_state r) \<noteq> 0
    \<longleftrightarrow> states = [] \<or> (\<exists>st \<in> set states. j_state r = state_text st)"
proof -
  obtain st where st: "j_state r = state_text st" using job_checks_state [OF assms(2)] by blast
  show ?thesis
    unfolding st state_case_bit_text canonical_mask_Inr(3) [OF assms(1)] by auto
qed

lemma list_query_eq:
  assumes inv: "store_inv sha s" and mk: "canonical_state_filter_mask states = Inr mk"
    and "\<forall>r \<in> set (s_jobs s). j_id r \<le> hw"
  shows "list_query hw before_id mk limit (s_jobs s)
    = take limit (filter (\<lambda>r. case before_id of None \<Rightarrow> True | Some b \<Rightarrow> j_id r < b) (matching states s))"
proof -
  let ?P = "\<lambda>r. j_id r \<le> hw \<and> (case before_id of None \<Rightarrow> True | Some b \<Rightarrow> j_id r < b)
          \<and> mk AND state_case_bit (j_state r) \<noteq> 0"
  have "sorted_wrt (\<lambda>a b. j_id a < j_id b) (s_jobs s)"
    using store_inv_ledger [OF inv] by (simp add: ledger_inv_def sorted_wrt_map)
  then have "sorted_wrt (\<lambda>a b. j_id a < j_id b) (filter ?P (s_jobs s))"
    by (rule sorted_wrt_filter)
  then have "sort_key (\<lambda>r. - j_id r) (filter ?P (s_jobs s)) = rev (filter ?P (s_jobs s))"
    by (rule sort_key_descending)
  moreover have "filter ?P (s_jobs s) = filter (\<lambda>r. (case before_id of None \<Rightarrow> True | Some b \<Rightarrow> j_id r < b)
      \<and> (states = [] \<or> (\<exists>st \<in> set states. j_state r = state_text st))) (s_jobs s)"
    using assms(3) mask_matches [OF mk store_inv_job(1) [OF inv]]
    by (intro filter_cong) auto
  ultimately show ?thesis
    by (simp add: list_query_def matching_def rev_filter conj_commute)
qed

lemma filter_below:
  assumes "sorted_wrt (\<lambda>a b. j_id b < j_id a) rows" and "k < length rows"
  shows "filter (\<lambda>r. j_id r < j_id (rows ! k)) rows = drop (Suc k) rows"
  using assms
proof (induction rows arbitrary: k)
  case (Cons a rows)
  show ?case
  proof (cases k)
    case 0
    then show ?thesis using Cons.prems by (auto intro!: filter_True)
  next
    case (Suc i)
    with Cons.prems have i: "i < length rows" and mem: "rows ! i \<in> set rows" by simp_all
    have "\<forall>y \<in> set rows. j_id y < j_id a" using Cons.prems(1) by simp
    with mem have less: "j_id (rows ! i) < j_id a" by blast
    have "filter (\<lambda>r. j_id r < j_id (rows ! i)) rows = drop (Suc i) rows"
      using Cons.IH [OF _ i] Cons.prems(1) by simp
    with less Suc show ?thesis by simp
  qed
qed simp

lemma max_job_id_ge:
  assumes "r \<in> set rows"
  shows "j_id r \<le> max_job_id rows"
  using assms fold_max_member [of r _ j_id] fold_max_ge [of _ j_id]
  by (cases rows) (auto simp: max_job_id_def)

lemma max_job_id_member: "rows \<noteq> [] \<Longrightarrow> \<exists>r \<in> set rows. max_job_id rows = j_id r"
proof -
  have "fold (\<lambda>r acc. max acc (j_id r)) rows a = a
      \<or> (\<exists>r \<in> set rows. fold (\<lambda>r acc. max acc (j_id r)) rows a = j_id r)" for rows a
    by (induction rows arbitrary: a) (auto simp: max_def)
  then show "rows \<noteq> [] \<Longrightarrow> ?thesis" by (cases rows) (fastforce simp: max_job_id_def)+
qed

subsection \<open>Items\<close>

lemma into_list_item_runs:
  assumes inv: "store_inv sha s" and r: "r \<in> set (s_jobs s)"
  shows "\<exists>item. into_list_item (s_capture_root s) (s_delivery_binding s) r = Inr item
    \<and> li_job_id item = UploadJobId (j_id r) \<and> li_artifact_path item = j_artifact_path r
    \<and> state_text (li_state item) = j_state r \<and> int (li_job_revision item) = j_job_revision r
    \<and> int (li_file_size item) = j_file_size r \<and> li_sha256 item = j_sha256 r"
proof -
  note row = store_inv_job [OF inv r]
  obtain st where st: "j_state r = state_text st" using job_checks_state [OF row(1)] by blast
  have "opt_nonneg v \<Longrightarrow> optional_database_u64 c v = Inr (map_option nat v)" for c v
    by (rule optional_u64_ok)
  moreover have "optional_database_u16 c (j_last_http_status r)
      = Inr (map_option nat (j_last_http_status r))" for c
    using row(1) by (auto simp: optional_database_u16_def job_checks_def split: option.splits)
  ultimately show ?thesis
    using row(1,3,4)
    by (auto simp: into_list_item_def job_id_from_database_def sha256_from_database_def
        delivery_binding_from_database_def validate_stored_identity_def database_u64_def
        job_checks_def st state_round_trip)
qed

definition item_of :: "upload_store \<Rightarrow> upload_job \<Rightarrow> upload_list_item" where
  "item_of s r = (case into_list_item (s_capture_root s) (s_delivery_binding s) r of Inr x \<Rightarrow> x)"

lemma item_of:
  assumes "store_inv sha s" and "r \<in> set (s_jobs s)"
  shows "into_list_item (s_capture_root s) (s_delivery_binding s) r = Inr (item_of s r)"
    "li_job_id (item_of s r) = UploadJobId (j_id r)"
    "li_artifact_path (item_of s r) = j_artifact_path r"
    "state_text (li_state (item_of s r)) = j_state r"
    "int (li_job_revision (item_of s r)) = j_job_revision r"
    "int (li_file_size (item_of s r)) = j_file_size r" "li_sha256 (item_of s r) = j_sha256 r"
  using into_list_item_runs [OF assms] by (auto simp: item_of_def)

lemma collect_items_runs:
  assumes "store_inv sha s" and "set rows \<subseteq> set (s_jobs s)"
  shows "collect_list_items (s_capture_root s) (s_delivery_binding s) rows = Inr (map (item_of s) rows)"
  unfolding collect_list_items_def
  by (rule collect_results_total) (use assms item_of in auto)

lemma matching_subset: "set (matching states s) \<subseteq> set (s_jobs s)"
  by (auto simp: matching_def)

subsection \<open>Pages\<close>

lemma store_numbers:
  assumes "store_inv sha s"
  shows "0 \<le> ledger_revision s" "ledger_revision s \<le> i64_max"
    "0 \<le> max_job_id (s_jobs s)" "max_job_id (s_jobs s) \<le> i64_max"
    "length (m_ledger_id (db_meta (s_db s))) = 16"
    "m_ledger_id (db_meta (s_db s)) = s_ledger_id s"
proof -
  have "meta_in_range (db_meta (s_db s))" "meta_checks (db_meta (s_db s))"
    using store_inv_ledger [OF assms] by (simp_all add: ledger_inv_def)
  then show "0 \<le> ledger_revision s" "ledger_revision s \<le> i64_max"
    "length (m_ledger_id (db_meta (s_db s))) = 16"
    by (simp_all add: meta_in_range_def meta_checks_def in_i64_def)
  show "m_ledger_id (db_meta (s_db s)) = s_ledger_id s" using assms by (simp add: store_inv_def)
  show "0 \<le> max_job_id (s_jobs s)" "max_job_id (s_jobs s) \<le> i64_max"
    using max_job_id_member [of "s_jobs s"] store_inv_job(2,3) [OF assms]
    by (cases "s_jobs s"; force simp: max_job_id_def [of "[]"] i64_max_def job_in_range_def in_i64_def)+
qed

lemma list_jobs_run:
  assumes inv: "store_inv sha s" and page: "0 < page" "page \<le> 100"
    and mk: "canonical_state_filter_mask states = Inr mk"
    and pos: "cursor_position sha (s_ledger_id s) (nat (ledger_revision s)) (nat (max_job_id (s_jobs s)))
      mk page cursor = Inr (hw, bf)"
    and fits: "int hw \<le> i64_max" "cursor \<noteq> None \<longrightarrow> int bf \<le> i64_max"
  defines "rows \<equiv> list_query (int hw) (if cursor = None then None else Some (int bf)) mk (page + 1) (s_jobs s)"
  shows "list_jobs sha states page cursor s = Inr \<lparr>lp_ledger_id = s_ledger_id s,
      lp_ledger_revision = nat (ledger_revision s), lp_jobs = map (item_of s) (take page rows),
      lp_next_cursor = (if page < length rows
        then Some (encode_list_cursor sha (s_ledger_id s) (nat (ledger_revision s)) hw
               (nat (j_id (rows ! (page - 1)))) mk page) else None)\<rparr>"
proof -
  note nums = store_numbers [OF inv]
  have "set rows \<subseteq> set (s_jobs s)"
    by (auto simp: rows_def list_query_def dest: in_set_takeD)
  then have items: "collect_list_items (s_capture_root s) (s_delivery_binding s) rows
      = Inr (map (item_of s) rows)"
    by (rule collect_items_runs [OF inv])
  have lastid: "job_id_get (li_job_id (last (take page (map (item_of s) rows))))
      = nat (j_id (rows ! (page - 1)))" if "page < length rows"
  proof -
    have "rows ! (page - 1) \<in> set rows" using that page by simp
    then have "rows ! (page - 1) \<in> set (s_jobs s)" using \<open>set rows \<subseteq> _\<close> by blast
    moreover have "last (take page (map (item_of s) rows)) = item_of s (rows ! (page - 1))"
      using that page by (subst last_conv_nth) auto
    ultimately show ?thesis using item_of(2) [OF inv] by (simp add: job_id_get_def)
  qed
  define b where "b = (if cursor = None then None else Some (int bf))"
  have before: "(if cursor \<noteq> None
            then rbind (require (int bf \<le> i64_max) InvalidListCursor) (\<lambda>_. Inr (Some (int bf)))
            else Inr None) = Inr b"
    using fits(2) by (auto simp: b_def)
  have query: "list_query (int hw) b mk (page + 1) (s_jobs s) = rows" by (simp add: rows_def b_def)
  have "list_jobs sha states page cursor s
      = list_page sha s (s_ledger_id s) (nat (ledger_revision s)) hw b mk page"
    unfolding list_jobs_def Let_def nums(6)
    using page nums(1,3) nums(5) [unfolded nums(6)] mk pos fits(1) before
    by (simp add: max_upload_list_page_size_def database_u64_def)
  then show ?thesis
    using lastid by (simp only: list_page_def query items rbind_simps Let_def length_map take_map)
      (simp add: take_map)
qed

definition page_from ::
  "(u8 list \<Rightarrow> u8 list) \<Rightarrow> upload_store \<Rightarrow> upload_state list \<Rightarrow> u8 \<Rightarrow> nat \<Rightarrow> nat \<Rightarrow> upload_list_page" where
  "page_from sha s states mk page k =
     \<lparr>lp_ledger_id = s_ledger_id s, lp_ledger_revision = nat (ledger_revision s),
      lp_jobs = map (item_of s) (take page (drop k (matching states s))),
      lp_next_cursor = (if k + page < length (matching states s)
        then Some (encode_list_cursor sha (s_ledger_id s) (nat (ledger_revision s))
               (nat (max_job_id (s_jobs s))) (nat (j_id (matching states s ! (k + page - 1)))) mk page)
        else None)\<rparr>"

lemma page_first:
  assumes inv: "store_inv sha s" and page: "0 < page" "page \<le> 100"
    and mk: "canonical_state_filter_mask states = Inr mk"
  shows "list_jobs sha states page None s = Inr (page_from sha s states mk page 0)"
proof -
  note nums = store_numbers [OF inv]
  have "list_query (max_job_id (s_jobs s)) None mk (page + 1) (s_jobs s)
      = take (page + 1) (matching states s)"
    using list_query_eq [OF inv mk, of "max_job_id (s_jobs s)" None] max_job_id_ge by simp
  then show ?thesis
    using list_jobs_run [OF inv page mk, of None "nat (max_job_id (s_jobs s))" u64_max] nums page
    by (auto simp: cursor_position_def page_from_def min_def)
qed

lemma page_next:
  assumes inv: "store_inv sha s" and page: "0 < page" "page \<le> 100"
    and mk: "canonical_state_filter_mask states = Inr mk"
    and digest: "\<forall>bytes. length (sha bytes) = 32"
    and k: "k < length (matching states s)"
  shows "list_jobs sha states page (Some (encode_list_cursor sha (s_ledger_id s)
      (nat (ledger_revision s)) (nat (max_job_id (s_jobs s)))
      (nat (j_id (matching states s ! k))) mk page)) s
    = Inr (page_from sha s states mk page (Suc k))"
proof -
  note nums = store_numbers [OF inv]
  let ?r = "matching states s ! k"
  let ?hw = "nat (max_job_id (s_jobs s))"
  have r: "?r \<in> set (s_jobs s)" using nth_mem [OF k] matching_subset by blast
  have id: "0 < j_id ?r" "j_id ?r \<le> max_job_id (s_jobs s)"
    using store_inv_job(3) [OF inv r] max_job_id_ge [OF r] by auto
  have le: "int n \<le> i64_max \<Longrightarrow> n \<le> u64_max" for n by (simp add: i64_max_def u64_max_def)
  have "list_query (max_job_id (s_jobs s)) (Some (j_id ?r)) mk (page + 1) (s_jobs s)
      = take (page + 1) (drop (Suc k) (matching states s))"
    using list_query_eq [OF inv mk, of "max_job_id (s_jobs s)" "Some (j_id ?r)"] max_job_id_ge
      filter_below [OF matching_sorted [OF inv] k] by simp
  moreover have "cursor_position sha (s_ledger_id s) (nat (ledger_revision s)) ?hw mk page
      (Some (encode_list_cursor sha (s_ledger_id s) (nat (ledger_revision s)) ?hw (nat (j_id ?r)) mk page))
      = Inr (?hw, nat (j_id ?r))"
    using decode_encode_cursor [OF digest, of "nat (ledger_revision s)" ?hw "nat (j_id ?r)" page mk]
      nums id page canonical_mask_Inr(1,2) [OF mk] le
    by (simp add: cursor_position_def)
  ultimately show ?thesis
    using list_jobs_run [OF inv page mk, of _ ?hw "nat (j_id ?r)"] nums id page
    by (auto simp: page_from_def min_def nth_drop)
qed

text \<open>The pages an operator sees by following cursors from the start.\<close>

inductive page_chain ::
  "(u8 list \<Rightarrow> u8 list) \<Rightarrow> upload_store \<Rightarrow> upload_state list \<Rightarrow> nat \<Rightarrow> nat \<Rightarrow> upload_list_page \<Rightarrow> bool"
  for sha s states page where
  start: "list_jobs sha states page None s = Inr p \<Longrightarrow> page_chain sha s states page 0 p"
| follow: "page_chain sha s states page n p \<Longrightarrow> lp_next_cursor p = Some c \<Longrightarrow>
     list_jobs sha states page (Some c) s = Inr q \<Longrightarrow> page_chain sha s states page (Suc n) q"

lemma page_chain_pages:
  assumes inv: "store_inv sha s" and page: "0 < page" "page \<le> 100"
    and mk: "canonical_state_filter_mask states = Inr mk"
    and digest: "\<forall>bytes. length (sha bytes) = 32"
  shows "page_chain sha s states page n p \<Longrightarrow> p = page_from sha s states mk page (n * page)"
proof (induction rule: page_chain.induct)
  case (start p)
  then show ?case using page_first [OF inv page mk] by simp
next
  case (follow n p c q)
  let ?k = "n * page + page - 1"
  have k: "?k < length (matching states s)" "Suc ?k = Suc n * page"
    using follow.hyps(2) page by (auto simp: follow.IH page_from_def split: if_splits)
  have "c = encode_list_cursor sha (s_ledger_id s) (nat (ledger_revision s))
      (nat (max_job_id (s_jobs s))) (nat (j_id (matching states s ! ?k))) mk page"
    using follow.hyps(2) by (auto simp: follow.IH page_from_def split: if_splits)
  then show ?case
    using follow.hyps(3) page_next [OF inv page mk digest k(1)] k(2) by simp
qed

text \<open>C4: pagination is complete and exact: while the ledger is unchanged, following the cursors
  from the first page shows every job in the wanted states exactly once, newest first, page by
  page; every cursor handed out is accepted, and the last page is the one without a cursor.\<close>

theorem pagination_is_complete:
  assumes "ledger_init sha s0" and "ledger_steps sha s0 s"
    and digest: "\<forall>bytes. length (sha bytes) = 32"
    and page: "0 < page" "page \<le> 100" and mk: "canonical_state_filter_mask states = Inr mk"
  shows "(\<exists>p. page_chain sha s states page 0 p)
    \<and> (\<forall>n p. page_chain sha s states page n p \<longrightarrow>
          lp_jobs p = map (item_of s) (take page (drop (n * page) (matching states s)))
          \<and> (lp_next_cursor p = None \<longleftrightarrow> length (matching states s) \<le> Suc n * page)
          \<and> (lp_next_cursor p \<noteq> None \<longrightarrow> (\<exists>q. page_chain sha s states page (Suc n) q)))"
proof -
  have inv: "store_inv sha s" by (rule ledger.reachable_inv [OF assms(1,2)])
  have "\<exists>q. page_chain sha s states page (Suc n) q"
    if chain: "page_chain sha s states page n p" and more: "lp_next_cursor p \<noteq> None" for n p
  proof -
    note p = page_chain_pages [OF inv page mk digest chain]
    let ?k = "n * page + page - 1"
    from more have k: "?k < length (matching states s)"
      and c: "lp_next_cursor p = Some (encode_list_cursor sha (s_ledger_id s) (nat (ledger_revision s))
        (nat (max_job_id (s_jobs s))) (nat (j_id (matching states s ! ?k))) mk page)"
      using page by (auto simp: p page_from_def split: if_splits)
    show ?thesis
      using page_chain.follow [OF chain c page_next [OF inv page mk digest k]] by blast
  qed
  moreover have "\<exists>p. page_chain sha s states page 0 p"
    using page_first [OF inv page mk] page_chain.start by blast
  moreover have "lp_jobs p = map (item_of s) (take page (drop (n * page) (matching states s)))
      \<and> (lp_next_cursor p = None \<longleftrightarrow> length (matching states s) \<le> Suc n * page)"
    if "page_chain sha s states page n p" for n p
    unfolding page_chain_pages [OF inv page mk digest that] by (auto simp: page_from_def)
  ultimately show ?thesis by blast
qed

theorem pagination_is_complete_witness:
  "\<exists>p. page_chain demo_sha demo_more [Completed] 1 0 p"
proof -
  have reach: "ledger_steps demo_sha demo_store demo_more"
    using demo_steps by (blast intro: rtranclp_trans)
  have digest: "\<forall>bytes. length (demo_sha bytes) = 32" by (simp add: demo_digest_def)
  have mk: "canonical_state_filter_mask [Completed] = Inr 8"
    by (simp add: canonical_state_filter_mask_def filter_bit_values)
  show ?thesis
    using pagination_is_complete [OF demo_init reach digest _ _ mk, of 1] by simp
qed

subsection \<open>Stale cursors\<close>

lemma list_jobs_cursor:
  assumes inv: "store_inv sha s" and run: "list_jobs sha states page cursor s = Inr p"
    and next_c: "lp_next_cursor p = Some c"
  obtains hw bf mk where
    "c = encode_list_cursor sha (s_ledger_id s) (nat (ledger_revision s)) hw bf mk page"
    "int hw \<le> i64_max" "int bf \<le> i64_max" "canonical_state_filter_mask states = Inr mk"
    "0 < page" "page \<le> 100"
proof -
  note nums = store_numbers [OF inv]
  from run obtain mk hw b where mk: "canonical_state_filter_mask states = Inr mk"
    and hw: "int hw \<le> i64_max" and page: "0 < page" "page \<le> 100"
    and listed: "list_page sha s (s_ledger_id s) (nat (ledger_revision s)) hw b mk page = Inr p"
    using nums(1) unfolding list_jobs_def Let_def nums(6)
    by (auto simp: result_simps max_upload_list_page_size_def database_u64_def split: prod.splits)
  let ?rows = "list_query (int hw) b mk (page + 1) (s_jobs s)"
  have sub: "set ?rows \<subseteq> set (s_jobs s)" by (auto simp: list_query_def dest: in_set_takeD)
  note items = collect_items_runs [OF inv sub]
  from listed [unfolded list_page_def items rbind_simps] next_c have more: "page < length ?rows"
    and c: "c = encode_list_cursor sha (s_ledger_id s) (nat (ledger_revision s)) hw
        (job_id_get (li_job_id (last (take page (map (item_of s) ?rows))))) mk page"
    by (auto simp: Let_def split: if_splits)
  have "last (take page ?rows) \<in> set (take page ?rows)"
    using more page by (intro last_in_set) auto
  then have mem: "last (take page ?rows) \<in> set (s_jobs s)" using sub by (auto dest: in_set_takeD)
  have "last (take page (map (item_of s) ?rows)) = item_of s (last (take page ?rows))"
    using more page by (subst take_map) (intro last_map, auto)
  then have "int (job_id_get (li_job_id (last (take page (map (item_of s) ?rows))))) \<le> i64_max"
    using item_of(2) [OF inv mem] store_inv_job(2,3) [OF inv mem]
    by (simp add: job_id_get_def job_in_range_def in_i64_def)
  then show thesis using that [OF c hw _ mk page] by blast
qed

text \<open>A listing never mixes two states of the ledger: once anything changed after a page was
  handed out, the page's cursor is refused as stale, whatever filter and page size it is used
  with.\<close>

lemma stale_cursors_are_refused:
  assumes "ledger_init sha s0" and "ledger_steps sha s0 s"
    and digest: "\<forall>bytes. length (sha bytes) = 32"
    and "list_jobs sha states page cursor s = Inr p" and "lp_next_cursor p = Some c"
    and steps: "ledger_steps sha s t" and changed: "t \<noteq> s"
    and "0 < page'" "page' \<le> 100" and "canonical_state_filter_mask states' = Inr mk'"
  shows "list_jobs sha states' page' (Some c) t = Inl StaleListCursor"
proof -
  have inv: "store_inv sha s" by (rule ledger.reachable_inv [OF assms(1,2)])
  have inv': "store_inv sha t" by (rule ledger.steps_inv [OF steps inv])
  from list_jobs_cursor [OF inv assms(4,5)] obtain hw bf mk where
    c: "c = encode_list_cursor sha (s_ledger_id s) (nat (ledger_revision s)) hw bf mk page"
    and fits: "int hw \<le> i64_max" "int bf \<le> i64_max" "canonical_state_filter_mask states = Inr mk"
      "page \<le> 100" by blast
  note nums = store_numbers [OF inv] and nums' = store_numbers [OF inv']
  have id: "s_ledger_id t = s_ledger_id s"
    using steps_history [OF steps inv] by (simp add: history_def)
  have "ledger_revision s < ledger_revision t"
    using ledger_rev.steps_revision [OF steps inv] changed by auto
  then have newer: "nat (ledger_revision s) \<noteq> nat (ledger_revision t)" using nums by simp
  have le: "int n \<le> i64_max \<Longrightarrow> n \<le> u64_max" for n by (simp add: i64_max_def u64_max_def)
  have "decode_list_cursor sha c (s_ledger_id s)
    = Inr \<lparr>dc_ledger_tag = list_cursor_ledger_tag sha (s_ledger_id s),
        dc_ledger_revision = nat (ledger_revision s), dc_high_water_id = hw, dc_before_id = bf,
        dc_filter_mask = mk, dc_page_size = page\<rparr>"
    unfolding c
    by (rule decode_encode_cursor [OF digest])
      (use nums fits le canonical_mask_Inr(1,2) [OF fits(3)] in auto)
  then have "cursor_position sha (s_ledger_id t) (nat (ledger_revision t))
      (nat (max_job_id (s_jobs t))) mk' page' (Some c) = Inl StaleListCursor"
    using newer by (simp add: cursor_position_def id)
  then show ?thesis
    unfolding list_jobs_def Let_def nums'(6)
    using assms(8-10) nums'(1,3) nums'(5) [unfolded nums'(6)]
    by (simp add: max_upload_list_page_size_def database_u64_def)
qed

text \<open>Two jobs in pages of one: the cursor of the first page dies with the next claim.\<close>

definition demo_page :: "store_error + upload_list_page" where
  "demo_page = list_jobs demo_sha [] 1 None demo_more"

definition demo_cursor :: string where
  "demo_cursor = (case demo_page of Inr p \<Rightarrow> the (lp_next_cursor p))"

lemma demo_page_runs: "\<exists>p. demo_page = Inr p \<and> lp_next_cursor p = Some demo_cursor"
proof -
  have "(case demo_page of Inl _ \<Rightarrow> False | Inr p \<Rightarrow> lp_next_cursor p \<noteq> None)" by code_simp
  then obtain p where p: "demo_page = Inr p" "lp_next_cursor p \<noteq> None" using ok_case by blast
  obtain c where c: "lp_next_cursor p = Some c" using p(2) by blast
  have "demo_cursor = c" unfolding demo_cursor_def p(1) by (simp add: c)
  with p(1) c show ?thesis by blast
qed

definition demo_again :: "store_error + claimed_upload option \<times> upload_store" where
  "demo_again = claim_due 90 demo_more"

lemma demo_again_runs: "\<exists>c t. demo_again = Inr (c, t) \<and> ledger_revision t = 5"
proof -
  have "(case demo_again of Inr (c, t) \<Rightarrow> ledger_revision t = 5 | _ \<Rightarrow> False)" by code_simp
  then show ?thesis by (auto split: sum.splits)
qed

end
