(* ===== verification/LedgerRetention.thy ===== *)
theory LedgerRetention
  imports LedgerList
begin

text \<open>
  What the ledger tells the retention worker: the classification of every recorded or inherited
  artifact (\<open>retention_snapshot\<close>), the recheck made immediately before a deletion
  (\<open>retention_still_authorized\<close>), and the complete audit of the persisted rows
  (\<open>verify_persisted_v4_rows\<close>) that maintenance runs on a ledger.
\<close>

subsection \<open>Classification\<close>

datatype retention_binding =
    RetainCompleted upload_job_id nat nat "u8 list"
  | RetainPreactivation
  | RetainProtected

record retention_entry =
  re_artifact_path :: string
  re_binding :: retention_binding

definition retention_job_entry :: "upload_list_item \<Rightarrow> retention_entry" where
  "retention_job_entry job =
     \<lparr>re_artifact_path = li_artifact_path job,
      re_binding = (if li_state job = Completed
        then RetainCompleted (li_job_id job) (li_job_revision job) (li_file_size job) (li_sha256 job)
        else RetainProtected)\<rparr>"

text \<open>
  The second pass adds the inherited artifacts; \<open>recorded\<close> is the set of paths seen so far,
  compared as paths.
\<close>

fun retention_preactivation ::
  "string \<Rightarrow> component list list \<Rightarrow> string list \<Rightarrow> store_error + retention_entry list" where
  "retention_preactivation root recorded [] = Inr []"
| "retention_preactivation root recorded (path # paths) =
     rbind (validate_preactivation_artifact_path path root) (\<lambda>path.
       if path_components path \<in> set recorded then retention_preactivation root recorded paths
       else rbind (retention_preactivation root (path_components path # recorded) paths) (\<lambda>entries.
         Inr (\<lparr>re_artifact_path = path, re_binding = RetainPreactivation\<rparr> # entries)))"

definition retention_snapshot :: "upload_store \<Rightarrow> store_error + retention_entry list" where
  "retention_snapshot store =
     rbind (collect_list_items (s_capture_root store) (s_delivery_binding store)
              (sort_key j_id (s_jobs store))) (\<lambda>jobs.
     rbind (retention_preactivation (s_capture_root store)
              (map (\<lambda>job. path_components (li_artifact_path job)) jobs)
              (sort (db_preactivation (s_db store)))) (\<lambda>inherited.
       Inr (sort_key (\<lambda>entry. path_components (re_artifact_path entry))
              (map retention_job_entry jobs @ inherited))))"

subsection \<open>The recheck before deletion\<close>

definition retention_still_authorized :: "retention_entry \<Rightarrow> upload_store \<Rightarrow> store_error + bool" where
  "retention_still_authorized entry store =
     (case re_binding entry of
        RetainCompleted job_id job_revision file_size sha256 \<Rightarrow>
          rbind (require (int job_revision \<le> i64_max) (CorruptInteger ''job_revision'' i64_min)) (\<lambda>_.
          rbind (require (int file_size \<le> i64_max) (CorruptInteger ''file_size'' i64_min)) (\<lambda>_.
            Inr (list_ex (\<lambda>r. j_id r = job_id_value job_id
                   \<and> j_artifact_path r = re_artifact_path entry
                   \<and> j_state r = ''completed'' \<and> j_job_revision r = int job_revision
                   \<and> j_file_size r = int file_size \<and> j_sha256 r = sha256) (s_jobs store))))
      | RetainPreactivation \<Rightarrow>
          Inr (list_ex (\<lambda>p. p = re_artifact_path entry) (db_preactivation (s_db store))
               \<and> \<not> list_ex (\<lambda>r. j_artifact_path r = re_artifact_path entry) (s_jobs store))
      | RetainProtected \<Rightarrow> Inr False)"

subsection \<open>The audit\<close>

fun verify_preactivation_paths :: "string \<Rightarrow> string list \<Rightarrow> store_error + unit" where
  "verify_preactivation_paths root [] = Inr ()"
| "verify_preactivation_paths root (path # paths) =
     rbind (validate_preactivation_artifact_path path root) (\<lambda>_. verify_preactivation_paths root paths)"

definition verify_persisted_preactivation_paths :: "string \<Rightarrow> ledger_db \<Rightarrow> store_error + unit" where
  "verify_persisted_preactivation_paths root db =
     verify_preactivation_paths root (sort (db_preactivation db))"

fun verify_identities :: "string \<Rightarrow> upload_job list \<Rightarrow> store_error + unit" where
  "verify_identities root [] = Inr ()"
| "verify_identities root (r # rows) =
     rbind (job_id_from_database (j_id r)) (\<lambda>job_id.
     rbind (sha256_from_database job_id (j_sha256 r)) (\<lambda>sha256.
     rbind (validate_stored_identity job_id (j_artifact_path r) (j_filename r)
              (j_idempotency_key r) sha256 root) (\<lambda>_.
       verify_identities root rows)))"

definition verify_persisted_artifact_identities :: "string \<Rightarrow> ledger_db \<Rightarrow> store_error + unit" where
  "verify_persisted_artifact_identities root db =
     rbind (verify_identities root (sort_key j_id (db_jobs db))) (\<lambda>_.
       verify_persisted_preactivation_paths root db)"

fun verify_rows :: "string \<Rightarrow> u8 list \<Rightarrow> upload_job list \<Rightarrow> store_error + unit" where
  "verify_rows root binding [] = Inr ()"
| "verify_rows root binding (r # rows) =
     rbind (into_list_item root binding r) (\<lambda>job.
       if \<not> li_delivery_binding_is_current job \<and> li_state job \<in> {Pending, InProgress, Retrying}
       then Inl (UploadJobDeliveryBindingMismatch (li_job_id job))
       else verify_rows root binding rows)"

definition verify_persisted_v4_rows ::
  "(u8 list \<Rightarrow> u8 list) \<Rightarrow> string \<Rightarrow> ledger_db \<Rightarrow> store_error + unit" where
  "verify_persisted_v4_rows sha root db =
     rbind (require (length (m_authorization (db_meta db)) = 32) InvalidSchema) (\<lambda>_.
     rbind (verify_rows root
              (delivery_binding_derive sha (m_destination (db_meta db)) (m_authorization (db_meta db)))
              (sort_key j_id (db_jobs db))) (\<lambda>_.
       verify_persisted_preactivation_paths root db))"

definition verify_canonical_upload_destination ::
  "(string \<Rightarrow> string option) \<Rightarrow> string \<Rightarrow> store_error + unit" where
  "verify_canonical_upload_destination normalize_upload_endpoint destination =
     rbind (ok_or (normalize_upload_endpoint destination) InvalidDestination) (\<lambda>normalized.
       require (normalized = destination) InvalidDestination)"

subsection \<open>The recheck is safe\<close>

lemma authorized_jobs_completed:
  assumes inv: "store_inv sha s"
    and yes: "retention_still_authorized entry s = Inr True"
    and r: "r \<in> set (s_jobs s)" "j_artifact_path r = re_artifact_path entry"
  shows "j_state r = ''completed''"
proof (cases "re_binding entry")
  case (RetainCompleted job_id job_revision file_size sha256)
  with yes obtain q where q: "q \<in> set (s_jobs s)" "j_artifact_path q = re_artifact_path entry"
    "j_state q = ''completed''"
    by (auto simp: retention_still_authorized_def result_simps list_ex_iff)
  have "q = r" using ledger_inv_unique_path [OF store_inv_ledger [OF inv] q(1) r(1)] q(2) r(2) by simp
  with q(3) show ?thesis by simp
next
  case RetainPreactivation
  then show ?thesis using yes r by (auto simp: retention_still_authorized_def list_ex_iff)
next
  case RetainProtected
  then show ?thesis using yes by (simp add: retention_still_authorized_def)
qed

text \<open>Nothing that still has to be sent is ever released for deletion: whatever entry the
  retention worker presents, in every reachable state the recheck answers yes only if every
  job recorded for that path is completed.\<close>

lemma unsent_artifacts_are_protected:
  assumes "ledger_init sha s0" and "ledger_steps sha s0 s"
    and yes: "retention_still_authorized entry s = Inr True"
    and r: "r \<in> set (s_jobs s)" "j_artifact_path r = re_artifact_path entry"
  shows "j_state r = ''completed''"
  using authorized_jobs_completed [OF ledger.reachable_inv [OF assms(1,2)] yes r] .

definition demo_sent :: retention_entry where
  "demo_sent = \<lparr>re_artifact_path = demo_path, re_binding = RetainCompleted (UploadJobId 1) 3 2 demo_digest\<rparr>"

subsection \<open>The snapshot\<close>

lemma sort_key_ids:
  assumes "store_inv sha s"
  shows "sort_key j_id (s_jobs s) = s_jobs s"
  using store_inv_ledger [OF assms]
  by (intro sort_key_id_if_sorted) (simp add: ledger_inv_def strict_sorted_iff)

lemma retention_preactivation_runs:
  assumes "\<forall>p \<in> set paths. preactivation_ok root p"
  shows "\<exists>entries. retention_preactivation root recorded paths = Inr entries
    \<and> (\<forall>e \<in> set entries. re_binding e = RetainPreactivation \<and> re_artifact_path e \<in> set paths
         \<and> path_components (re_artifact_path e) \<notin> set recorded)"
  using assms
proof (induction paths arbitrary: recorded)
  case (Cons p paths)
  then have p: "validate_preactivation_artifact_path p root = Inr p"
    and rest: "\<forall>p \<in> set paths. preactivation_ok root p"
    by (simp_all add: preactivation_ok_def)
  show ?case
  proof (cases "path_components p \<in> set recorded")
    case True
    then show ?thesis using Cons.IH [OF rest, of recorded] p by auto
  next
    case False
    then show ?thesis using Cons.IH [OF rest, of "path_components p # recorded"] p by auto
  qed
qed simp

lemma store_inv_preactivation:
  "store_inv sha s \<Longrightarrow> p \<in> set (db_preactivation (s_db s)) \<Longrightarrow> preactivation_ok (s_capture_root s) p"
  by (simp add: store_inv_simps)

lemma retention_snapshot_runs:
  assumes inv: "store_inv sha s"
  obtains inherited where
    "retention_preactivation (s_capture_root s)
        (map (\<lambda>job. path_components (li_artifact_path job)) (map (item_of s) (s_jobs s)))
        (sort (db_preactivation (s_db s))) = Inr inherited"
    "retention_snapshot s = Inr (sort_key (\<lambda>entry. path_components (re_artifact_path entry))
       (map (\<lambda>r. retention_job_entry (item_of s r)) (s_jobs s) @ inherited))"
    "\<forall>e \<in> set inherited. re_binding e = RetainPreactivation
       \<and> re_artifact_path e \<in> set (db_preactivation (s_db s))
       \<and> (\<forall>r \<in> set (s_jobs s). j_artifact_path r \<noteq> re_artifact_path e)"
proof -
  let ?seen = "map (\<lambda>job. path_components (li_artifact_path job)) (map (item_of s) (s_jobs s))"
  obtain inherited where inherited:
    "retention_preactivation (s_capture_root s) ?seen (sort (db_preactivation (s_db s))) = Inr inherited"
    "\<forall>e \<in> set inherited. re_binding e = RetainPreactivation
       \<and> re_artifact_path e \<in> set (sort (db_preactivation (s_db s)))
       \<and> path_components (re_artifact_path e) \<notin> set ?seen"
    using retention_preactivation_runs [of "sort (db_preactivation (s_db s))" "s_capture_root s" ?seen]
      store_inv_preactivation [OF inv] by auto
  have items: "collect_list_items (s_capture_root s) (s_delivery_binding s) (s_jobs s)
      = Inr (map (item_of s) (s_jobs s))"
    by (rule collect_items_runs [OF inv subset_refl])
  have "retention_snapshot s = Inr (sort_key (\<lambda>entry. path_components (re_artifact_path entry))
       (map (\<lambda>r. retention_job_entry (item_of s r)) (s_jobs s) @ inherited))"
    unfolding retention_snapshot_def sort_key_ids [OF inv] items
    using inherited(1) by (simp add: comp_def)
  moreover have "\<forall>e \<in> set inherited. \<forall>r \<in> set (s_jobs s). j_artifact_path r \<noteq> re_artifact_path e"
  proof (intro ballI notI)
    fix e r assume e: "e \<in> set inherited" and r: "r \<in> set (s_jobs s)"
      and "j_artifact_path r = re_artifact_path e"
    then have "path_components (re_artifact_path e) = path_components (li_artifact_path (item_of s r))"
      using item_of(3) [OF inv r] by simp
    then have "path_components (re_artifact_path e) \<in> set ?seen" using r by auto
    then show False using inherited(2) e by blast
  qed
  ultimately show thesis using that inherited by auto
qed

lemma completed_entry_authorized:
  assumes inv: "store_inv sha s" and r: "r \<in> set (s_jobs s)" "j_state r = ''completed''"
  shows "retention_job_entry (item_of s r) = \<lparr>re_artifact_path = j_artifact_path r,
      re_binding = RetainCompleted (UploadJobId (j_id r)) (nat (j_job_revision r))
        (nat (j_file_size r)) (j_sha256 r)\<rparr>"
proof -
  note item = item_of [OF inv r(1)]
  have "li_state (item_of s r) = Completed"
    using item(4) r(2) by (cases "li_state (item_of s r)") simp_all
  moreover have "li_job_revision (item_of s r) = nat (j_job_revision r)"
    "li_file_size (item_of s r) = nat (j_file_size r)" using item(5,6) by simp_all
  ultimately show ?thesis using item(2,3,7) by (simp add: retention_job_entry_def)
qed

lemma uncompleted_entry_protected:
  assumes inv: "store_inv sha s" and r: "r \<in> set (s_jobs s)" "j_state r \<noteq> ''completed''"
  shows "re_binding (retention_job_entry (item_of s r)) = RetainProtected"
  using item_of(4) [OF inv r(1)] r(2)
  by (cases "li_state (item_of s r)") (simp_all add: retention_job_entry_def)

text \<open>The classification is complete and lasting: in every reachable state the retention
  snapshot succeeds, lists every recorded job, and calls a job's artifact reclaimable exactly
  if the job is completed; and that verdict is final, since the recheck confirms it in every
  later state of the ledger, restarts included.\<close>

lemma completed_artifacts_stay_reclaimable:
  assumes "ledger_init sha s0" and "ledger_steps sha s0 s" and "ledger_steps sha s t"
  shows "\<exists>entries. retention_snapshot s = Inr entries
    \<and> (\<forall>r \<in> set (s_jobs s). \<exists>e \<in> set entries. re_artifact_path e = j_artifact_path r
         \<and> (re_binding e = RetainProtected \<longleftrightarrow> j_state r \<noteq> ''completed''))
    \<and> (\<forall>e \<in> set entries. \<forall>j v n d. re_binding e = RetainCompleted j v n d \<longrightarrow>
         retention_still_authorized e t = Inr True)"
proof -
  have inv: "store_inv sha s" by (rule ledger.reachable_inv [OF assms(1,2)])
  obtain inherited where snap: "retention_snapshot s = Inr (sort_key (\<lambda>entry. path_components (re_artifact_path entry))
       (map (\<lambda>r. retention_job_entry (item_of s r)) (s_jobs s) @ inherited))"
    and pre: "\<forall>e \<in> set inherited. re_binding e = RetainPreactivation"
    using retention_snapshot_runs [OF inv] by metis
  let ?entries = "sort_key (\<lambda>entry. path_components (re_artifact_path entry))
       (map (\<lambda>r. retention_job_entry (item_of s r)) (s_jobs s) @ inherited)"
  have "\<exists>e \<in> set ?entries. re_artifact_path e = j_artifact_path r
         \<and> (re_binding e = RetainProtected \<longleftrightarrow> j_state r \<noteq> ''completed'')"
    if r: "r \<in> set (s_jobs s)" for r
  proof (rule bexI [of _ "retention_job_entry (item_of s r)"])
    show "retention_job_entry (item_of s r) \<in> set ?entries" using r by simp
    show "re_artifact_path (retention_job_entry (item_of s r)) = j_artifact_path r
      \<and> (re_binding (retention_job_entry (item_of s r)) = RetainProtected \<longleftrightarrow> j_state r \<noteq> ''completed'')"
      using completed_entry_authorized [OF inv r] uncompleted_entry_protected [OF inv r]
        item_of(3) [OF inv r]
      by (cases "j_state r = ''completed''") (simp_all add: retention_job_entry_def)
  qed
  moreover have "retention_still_authorized e t = Inr True"
    if e: "e \<in> set ?entries" "re_binding e = RetainCompleted j v n d" for e j v n d
  proof -
    from e pre obtain r where r: "r \<in> set (s_jobs s)" "e = retention_job_entry (item_of s r)" by auto
    then have done_r: "j_state r = ''completed''"
      using uncompleted_entry_protected [OF inv r(1)] e(2) by auto
    note entry = completed_entry_authorized [OF inv r(1) done_r]
    obtain i where i: "i < length (s_jobs s)" "s_jobs s ! i = r" using r(1) by (auto simp: in_set_conv_nth)
    have "s_jobs t ! i = r" "i < length (s_jobs t)"
      using completed_row_frozen [OF inv assms(3) i(1)] i(2) done_r by auto
    then have "r \<in> set (s_jobs t)" by (metis nth_mem)
    moreover have "0 \<le> j_job_revision r" "j_job_revision r \<le> i64_max" "0 \<le> j_file_size r" "j_file_size r \<le> i64_max"
      using store_inv_job(1,2) [OF inv r(1)] by (auto simp: job_checks_def job_in_range_def in_i64_def)
    ultimately show ?thesis
      using done_r by (auto simp: r(2) entry retention_still_authorized_def list_ex_iff)
  qed
  ultimately show ?thesis unfolding snap by blast
qed

subsection \<open>The audit on reachable ledgers\<close>

lemma verify_preactivation_paths_ok:
  "\<forall>p \<in> set paths. preactivation_ok root p \<Longrightarrow> verify_preactivation_paths root paths = Inr ()"
  by (induction paths) (auto simp: preactivation_ok_def)

lemma verify_rows_ok:
  assumes "\<And>r. r \<in> set rows \<Longrightarrow> \<exists>job. into_list_item root binding r = Inr job
    \<and> (li_state job \<in> {Pending, InProgress, Retrying} \<longrightarrow> li_delivery_binding_is_current job)"
  shows "verify_rows root binding rows = Inr ()"
  using assms by (induction rows) fastforce+

lemma into_list_item_current:
  "into_list_item root binding r = Inr item \<Longrightarrow>
     li_delivery_binding_is_current item \<longleftrightarrow> j_delivery_binding r = binding"
  by (auto simp: into_list_item_def result_simps delivery_binding_from_database_def split: if_splits)

lemma item_binding:
  assumes inv: "store_inv sha s" and r: "r \<in> set (s_jobs s)"
    and live: "li_state (item_of s r) \<in> {Pending, InProgress, Retrying}"
  shows "li_delivery_binding_is_current (item_of s r)"
proof -
  have "live_job r" using live item_of(4) [OF inv r] by (auto simp: live_job_def)
  then have "j_delivery_binding r = s_delivery_binding s" using store_inv_job(5) [OF inv r] by simp
  then show ?thesis
    using into_list_item_current [OF item_of(1) [OF inv r]] by simp
qed

lemma verify_identities_ok:
  assumes "\<And>r. r \<in> set rows \<Longrightarrow> 0 < j_id r \<and> job_checks r
    \<and> stored_identity_ok (j_artifact_path r) (j_filename r) (j_idempotency_key r) (j_sha256 r) root"
  shows "verify_identities root rows = Inr ()"
  using assms
  by (induction rows) (auto simp: job_id_from_database_def sha256_from_database_def
      validate_stored_identity_def job_checks_def)

lemma audit_accepts_invariant:
  assumes inv: "store_inv sha s"
  shows "verify_persisted_v4_rows sha (s_capture_root s) (s_db s) = Inr ()
    \<and> verify_persisted_artifact_identities (s_capture_root s) (s_db s) = Inr ()"
proof -
  have paths: "verify_persisted_preactivation_paths (s_capture_root s) (s_db s) = Inr ()"
    unfolding verify_persisted_preactivation_paths_def
    by (rule verify_preactivation_paths_ok) (use store_inv_preactivation [OF inv] in simp)
  have binding: "delivery_binding_derive sha (m_destination (db_meta (s_db s)))
      (m_authorization (db_meta (s_db s))) = s_delivery_binding s"
    using inv by (simp add: store_inv_def)
  have "length (m_authorization (db_meta (s_db s))) = 32"
    using store_inv_ledger [OF inv] by (simp add: ledger_inv_def meta_checks_def)
  moreover have "verify_rows (s_capture_root s) (s_delivery_binding s) (s_jobs s) = Inr ()"
    by (rule verify_rows_ok) (use item_of(1) [OF inv] item_binding [OF inv] in blast)
  moreover have "verify_identities (s_capture_root s) (s_jobs s) = Inr ()"
    by (rule verify_identities_ok) (use store_inv_job [OF inv] in blast)
  ultimately show ?thesis
    by (simp add: verify_persisted_v4_rows_def verify_persisted_artifact_identities_def binding
        sort_key_ids [OF inv] paths)
qed

text \<open>C7: the maintenance audit never raises a false alarm: on every ledger that the operations
  of the store can produce, the complete row decoder, the identity check and the check of the
  inherited paths all succeed.\<close>

theorem audit_accepts_reachable_ledgers:
  assumes "ledger_init sha s0" and "ledger_steps sha s0 s"
  shows "verify_persisted_v4_rows sha (s_capture_root s) (s_db s) = Inr ()
    \<and> verify_persisted_artifact_identities (s_capture_root s) (s_db s) = Inr ()"
  using audit_accepts_invariant [OF ledger.reachable_inv [OF assms]] .

theorem audit_accepts_reachable_ledgers_witness:
  "verify_persisted_v4_rows demo_sha demo_root (s_db demo_completed) = Inr ()"
  using audit_accepts_reachable_ledgers [OF demo_init demo_reach(2)]
  by (simp add: demo_completed_def with_jobs_def)

end
