(* ===== verification/UploadRetention.thy ===== *)
theory UploadRetention
  imports RetentionSweep LedgerRetention
begin

text \<open>
  The retention authority of the upload worker (\<open>UploadRetentionAuthority\<close> in \<open>upload.rs\<close>): it
  classifies the inventory from the ledger, remembers which entry made an artifact reclaimable,
  and rechecks that entry under the ledger's lock before it lets the platform delete. The ledger
  belongs to the upload threads, which go on using it between two acquisitions of the lock.
\<close>

subsection \<open>The authority\<close>

text \<open>
  \<open>ua_store i\<close> is the ledger as the authority finds it when it takes the store's lock for the
  \<open>i\<close>-th time, \<open>None\<close> if the lock is poisoned by then; \<open>ua_publish i\<close> tells whether the publication
  lock is usable at that time. \<open>ua_classified\<close> is the map behind its own lock, keyed by path.
\<close>

record upload_authority =
  ua_store :: "nat \<Rightarrow> upload_store option"
  ua_publish :: "nat \<Rightarrow> bool"
  ua_locks :: nat
  ua_classified :: "(component list \<Rightarrow> retention_entry option) option"

definition upload_authority_new :: "(nat \<Rightarrow> upload_store option) \<Rightarrow> (nat \<Rightarrow> bool) \<Rightarrow> upload_authority" where
  "upload_authority_new stores publish =
     \<lparr>ua_store = stores, ua_publish = publish, ua_locks = 0, ua_classified = Some Map.empty\<rparr>"

definition by_canonical_path :: "retention_entry list \<Rightarrow> component list \<Rightarrow> retention_entry option" where
  "by_canonical_path entries = map_of (rev (map (\<lambda>entry. (path_components (re_artifact_path entry), entry)) entries))"

definition binding_authorization :: "retention_binding \<Rightarrow> managed_artifact \<Rightarrow> retention_authorization" where
  "binding_authorization binding artifact =
     (case binding of
        RetainCompleted _ _ file_size sha256 \<Rightarrow> authorization_reclaimable (Some file_size) (Some sha256)
      | RetainPreactivation \<Rightarrow> authorization_reclaimable (Some (ma_file_size artifact)) None
      | RetainProtected \<Rightarrow> authorization_protected)"

fun upload_classify ::
  "filesystem \<Rightarrow> (component list \<Rightarrow> retention_entry option) \<Rightarrow> managed_artifact list
     \<Rightarrow> (component list \<Rightarrow> retention_entry option)
     \<Rightarrow> retention_authorization list \<times> (component list \<Rightarrow> retention_entry option)" where
  "upload_classify fs by_path [] classified = ([], classified)"
| "upload_classify fs by_path (artifact # rest) classified =
     (case (case canonicalize fs (ma_path artifact) of
              Inl _ \<Rightarrow> None | Inr path \<Rightarrow> by_path (path_components path)) of
        None \<Rightarrow> (let (authorizations, classified) = upload_classify fs by_path rest classified
                 in (authorization_protected # authorizations, classified))
      | Some entry \<Rightarrow>
          (let authorization = binding_authorization (re_binding entry) artifact;
               classified = (if classification authorization = Reclaimable
                 then classified(path_components (ma_path artifact) \<mapsto> entry) else classified);
               (authorizations, classified) = upload_classify fs by_path rest classified
           in (authorization # authorizations, classified)))"

definition upload_classify_inventory ::
  "filesystem \<Rightarrow> (store_error \<Rightarrow> string) \<Rightarrow> managed_artifact list \<Rightarrow> upload_authority
     \<Rightarrow> (string + retention_authorization list) \<times> upload_authority" where
  "upload_classify_inventory fs store_text inventory a =
     (let a' = a\<lparr>ua_locks := ua_locks a + 1\<rparr> in
      case ua_store a (ua_locks a) of
        None \<Rightarrow> (Inl ''the upload ledger lock was poisoned'', a')
      | Some store \<Rightarrow>
          (case retention_snapshot store of
             Inl e \<Rightarrow> (Inl (store_text e), a')
           | Inr entries \<Rightarrow>
               (case ua_classified a of
                  None \<Rightarrow> (Inl ''the retention classification lock was poisoned'', a')
                | Some _ \<Rightarrow>
                    (let (authorizations, classified) =
                           upload_classify fs (by_canonical_path entries) inventory Map.empty
                     in (Inr authorizations, a'\<lparr>ua_classified := Some classified\<rparr>)))))"

definition upload_delete_if_still_authorized ::
  "(u8 list \<Rightarrow> u8 list) \<Rightarrow> (io_error \<Rightarrow> string) \<Rightarrow> (store_error \<Rightarrow> string) \<Rightarrow> retention_candidate
     \<Rightarrow> upload_authority \<Rightarrow> volume \<Rightarrow> (string + deletion_outcome) \<times> upload_authority \<times> volume" where
  "upload_delete_if_still_authorized sha io_text store_text candidate a vol =
     (case ua_classified a of
        None \<Rightarrow> (Inl ''the retention classification lock was poisoned'', a, vol)
      | Some classified \<Rightarrow>
          (let key = path_components (rc_path candidate);
               a1 = a\<lparr>ua_classified := Some (classified(key := None))\<rparr>
           in case classified key of
                None \<Rightarrow> (Inr StillProtected, a1, vol)
              | Some entry \<Rightarrow>
                  if \<not> ua_publish a (ua_locks a)
                  then (Inl ''the upload telemetry publication lock was poisoned'', a1, vol)
                  else (let a2 = a1\<lparr>ua_locks := ua_locks a + 1\<rparr> in
                    case ua_store a (ua_locks a) of
                      None \<Rightarrow> (Inl ''the upload ledger lock was poisoned'', a2, vol)
                    | Some store \<Rightarrow>
                        (case retention_still_authorized entry store of
                           Inl e \<Rightarrow> (Inl (store_text e), a2, vol)
                         | Inr False \<Rightarrow> (Inr StillProtected, a2, vol)
                         | Inr True \<Rightarrow>
                             (case delete_through_platform sha io_text candidate vol of
                                (result, vol) \<Rightarrow> (result, a2, vol))))))"

definition upload_retention_authority ::
  "(u8 list \<Rightarrow> u8 list) \<Rightarrow> (io_error \<Rightarrow> string) \<Rightarrow> (store_error \<Rightarrow> string) \<Rightarrow> filesystem
     \<Rightarrow> upload_authority retention_authority" where
  "upload_retention_authority sha io_text store_text fs =
     \<lparr>classify_inventory = upload_classify_inventory fs store_text,
      delete_if_still_authorized = upload_delete_if_still_authorized sha io_text store_text\<rparr>"

subsection \<open>The authority honours the contract\<close>

text \<open>A path whose canonical name is that of a ledger entry.\<close>

definition canonical_of :: "filesystem \<Rightarrow> string \<Rightarrow> string \<Rightarrow> bool" where
  "canonical_of fs path artifact_path \<longleftrightarrow>
     (\<exists>q canon. path_eq q path \<and> canonicalize fs q = Inr canon \<and> path_eq canon artifact_path)"

definition classified_ok :: "filesystem \<Rightarrow> (component list \<Rightarrow> retention_entry option) \<Rightarrow> bool" where
  "classified_ok fs classified \<longleftrightarrow>
     (\<forall>path entry. classified (path_components path) = Some entry \<longrightarrow>
        canonical_of fs path (re_artifact_path entry))"

definition upload_auth_inv ::
  "filesystem \<Rightarrow> (nat \<Rightarrow> upload_store option) \<Rightarrow> upload_authority \<Rightarrow> bool" where
  "upload_auth_inv fs stores a \<longleftrightarrow> ua_store a = stores
     \<and> (\<forall>classified. ua_classified a = Some classified \<longrightarrow> classified_ok fs classified)"

definition upload_granted ::
  "filesystem \<Rightarrow> (nat \<Rightarrow> upload_store option) \<Rightarrow> retention_candidate \<Rightarrow> bool" where
  "upload_granted fs stores c \<longleftrightarrow>
     (\<exists>i store entry. stores i = Some store \<and> retention_still_authorized entry store = Inr True
        \<and> canonical_of fs (rc_path c) (re_artifact_path entry))"

lemma by_canonical_path_key:
  assumes "by_canonical_path entries key = Some entry"
  shows "path_components (re_artifact_path entry) = key"
  using map_of_SomeD [OF assms [unfolded by_canonical_path_def]] by auto

lemma upload_classify_ok:
  assumes "upload_classify fs (by_canonical_path entries) inventory classified = (authorizations, classified')"
    and "classified_ok fs classified"
  shows "classified_ok fs classified'"
  using assms
proof (induction inventory arbitrary: classified authorizations)
  case (Cons artifact rest)
  let ?found = "case canonicalize fs (ma_path artifact) of
    Inl _ \<Rightarrow> None | Inr path \<Rightarrow> by_canonical_path entries (path_components path)"
  show ?case
  proof (cases ?found)
    case None
    then show ?thesis using Cons by (auto split: prod.splits)
  next
    case (Some entry)
    then obtain path where canon: "canonicalize fs (ma_path artifact) = Inr path"
      and entry: "by_canonical_path entries (path_components path) = Some entry"
      by (auto split: sum.splits)
    have key: "path_eq path (re_artifact_path entry)"
      using by_canonical_path_key [OF entry] by (simp add: path_eq_def)
    have extended: "classified_ok fs (classified(path_components (ma_path artifact) \<mapsto> entry))"
      using Cons.prems(2) canon key
      by (auto simp: classified_ok_def canonical_of_def path_eq_def)
    obtain cl as where rest: "upload_classify fs (by_canonical_path entries) rest cl = (as, classified')"
      and cl: "cl = classified \<or> cl = classified(path_components (ma_path artifact) \<mapsto> entry)"
      using Cons.prems(1) Some by (auto simp: Let_def split: prod.splits if_splits)
    from cl extended Cons.prems(2) have "classified_ok fs cl" by auto
    from Cons.IH [OF rest this] show ?thesis .
  qed
qed simp

interpretation upload: retention_interface "upload_retention_authority sha io_text store_text fs"
  "upload_auth_inv fs stores" "upload_granted fs stores" for sha io_text store_text fs stores
proof (unfold_locales, goal_cases)
  case (1 a inventory r a')
  have empty: "classified_ok fs Map.empty" by (simp add: classified_ok_def)
  show ?case
    using 1 upload_classify_ok [OF _ empty]
    by (auto simp: upload_retention_authority_def upload_classify_inventory_def upload_auth_inv_def Let_def
        split: option.splits sum.splits prod.splits)
next
  case (2 a c vol d a' vol')
  then show ?case
    by (auto simp: upload_retention_authority_def upload_delete_if_still_authorized_def upload_auth_inv_def
        classified_ok_def Let_def split: option.splits sum.splits prod.splits if_splits bool.splits)
next
  case (3 a c vol d a' vol')
  show ?case
  proof (cases "\<exists>classified entry store. ua_classified a = Some classified
      \<and> classified (path_components (rc_path c)) = Some entry \<and> ua_publish a (ua_locks a)
      \<and> ua_store a (ua_locks a) = Some store \<and> retention_still_authorized entry store = Inr True")
    case True
    then obtain classified entry store where found: "ua_classified a = Some classified"
      "classified (path_components (rc_path c)) = Some entry" "ua_publish a (ua_locks a)"
      "ua_store a (ua_locks a) = Some store" "retention_still_authorized entry store = Inr True" by blast
    have "upload_granted fs stores c"
      using 3(1) found unfolding upload_granted_def upload_auth_inv_def classified_ok_def by blast
    moreover have "delete_through_platform sha io_text c vol = (d, vol')"
      using 3(2) found by (auto simp: upload_retention_authority_def upload_delete_if_still_authorized_def
          Let_def split: prod.splits)
    ultimately show ?thesis using delete_through_platform_cases by blast
  next
    case False
    then have "d \<noteq> Inr Deleted \<and> vol' = vol"
      using 3(2) by (auto simp: upload_retention_authority_def upload_delete_if_still_authorized_def
          Let_def split: option.splits sum.splits prod.splits if_splits bool.splits)
    then show ?thesis by simp
  qed
qed


definition demo_disk :: volume where
  "demo_disk = \<lparr>v_list = (\<lambda>_. Inr [Inr \<lparr>en_name = demo_name, en_text = Some demo_name,
       en_type = Inr FileNode, en_metadata = Inr \<lparr>nm_type = FileNode, nm_reparse = False, nm_len = 2\<rparr>\<rparr>]),
     v_lstat = \<lambda>_. Inl NotFound,
     v_open = (\<lambda>_. Inr \<lparr>oa_metadata = Inr \<lparr>nm_type = FileNode, nm_reparse = False, nm_len = 2\<rparr>,
                        oa_contents = Inr [1, 2]\<rparr>),
     v_mark = \<lambda>_. None, v_available = \<lambda>_ _. Inr 0, v_deleted = []\<rparr>"

abbreviation demo_cleanup :: "retention_telemetry \<times> upload_authority \<times> volume" where
  "demo_cleanup \<equiv> sweep_retention
     \<lparr>max_age_ms = Some 5, max_managed_bytes = None, min_free_bytes = None, keep_latest = False\<rparr>
     demo_root parse_generated_frame_filename
     (upload_retention_authority demo_sha (\<lambda>_. []) (\<lambda>_. []) demo_fs) (\<lambda>_. Inr []) (\<lambda>_. []) (Inr 1000000)
     (upload_authority_new (\<lambda>_. Some demo_completed) (\<lambda>_. True)) demo_disk"

lemma demo_cleanup_deletes: "v_deleted (snd (snd demo_cleanup)) = [demo_path]"
  by code_simp


end
