(* ===== verification/Upload.thy ===== *)
theory Upload
  imports LedgerRetention
begin

text \<open>
  The upload worker (\<open>upload.rs\<close>): how an HTTP attempt is classified, when it is retried, and the
  critical sections in which the worker and its clients change the ledger and publish telemetry.
  Durations are milliseconds. The HTTP agent, the header syntax and the observer callback are
  parameters.
\<close>

unbundle bit_operations_syntax

subsection \<open>Constants\<close>

definition max_idle_poll :: nat where "max_idle_poll = 100"

definition max_retry_delay :: nat where "max_retry_delay = 5 * 60 * 1000"

definition retry_delays :: "nat list" where
  "retry_delays = [1000, 2000, 5000, 10000, 30000, 60000, max_retry_delay]"

definition fnv_offset_basis :: "64 word" where "fnv_offset_basis = 0xcbf29ce484222325"

definition fnv_prime :: "64 word" where "fnv_prime = 0x100000001b3"

definition missing_artifact_error :: string where
  "missing_artifact_error = ''artifact file is missing''"

definition unopenable_artifact_error :: string where
  "unopenable_artifact_error = ''artifact file could not be opened or verified''"

definition symlink_artifact_error :: string where
  "symlink_artifact_error = ''artifact path became a symbolic link''"

definition non_file_artifact_error :: string where
  "non_file_artifact_error = ''artifact path is not a regular file''"

definition artifact_size_changed_error :: string where
  "artifact_size_changed_error = ''artifact file size changed after it was recorded''"

definition artifact_content_changed_error :: string where
  "artifact_content_changed_error = ''artifact file content changed after it was recorded''"

definition invalid_header_error :: string where
  "invalid_header_error = ''artifact metadata cannot be represented as HTTP headers''"

definition transport_error :: string where
  "transport_error = ''HTTP transport failed''"

definition retryable_http_error :: string where
  "retryable_http_error = ''HTTP endpoint requested a retry''"

definition permanent_http_error :: string where
  "permanent_http_error = ''HTTP endpoint rejected the artifact''"

definition retry_time_error :: string where
  "retry_time_error = ''retry time cannot be represented safely''"

subsection \<open>Classifying an attempt\<close>

datatype attempt_outcome =
    AttemptSuccess nat
  | AttemptRetry "nat option" "nat option" string
  | AttemptPermanent "nat option" string

definition classify_status :: "nat \<Rightarrow> nat option \<Rightarrow> attempt_outcome" where
  "classify_status status retry_after =
     (if 200 \<le> status \<and> status \<le> 299 then AttemptSuccess status
      else if status \<in> {408, 425, 429} \<or> 500 \<le> status \<and> status \<le> 599
      then AttemptRetry (Some status) retry_after retryable_http_error
      else AttemptPermanent (Some status) permanent_http_error)"

text \<open>
  The argument is the text of the \<open>Retry-After\<close> header, if there is one and it is text. A
  decimal number of seconds is accepted, capped at five minutes; a date is ignored.
\<close>

definition parse_retry_after :: "string option \<Rightarrow> nat option" where
  "parse_retry_after header =
     (case header of None \<Rightarrow> None
      | Some raw \<Rightarrow>
          let value = trim raw in
          if value = [] \<or> \<not> list_all is_digit value then None
          else Some (1000 * min (foldl (\<lambda>current c. sat_add_u64 (sat_mul_u64 current 10) (digit_value c)) 0 value)
                              (max_retry_delay div 1000)))"

record http_request =
  rq_content_type :: string
  rq_content_length :: string
  rq_filename :: string
  rq_idempotency_key :: string
  rq_authorization :: "string option"
  rq_body :: "u8 list"

datatype http_result = HttpResponse nat "string option" | HttpStatusError nat | HttpFailure

definition upload_request :: "string option \<Rightarrow> claimed_upload \<Rightarrow> u8 list \<Rightarrow> http_request" where
  "upload_request authorization claim body =
     \<lparr>rq_content_type =
        (if ends_with (c_filename claim) ''.png'' then ''image/png''
         else if ends_with (c_filename claim) ''.mp4'' then ''video/mp4''
         else ''image/jpeg''),
      rq_content_length = decimal (c_file_size claim),
      rq_filename = c_filename claim, rq_idempotency_key = c_idempotency_key claim,
      rq_authorization = authorization, rq_body = body\<rparr>"

definition upload_artifact ::
  "filesystem \<Rightarrow> (nat \<Rightarrow> nat option) \<Rightarrow> (u8 list \<Rightarrow> u8 list) \<Rightarrow> (string \<Rightarrow> bool)
     \<Rightarrow> string option \<Rightarrow> (http_request \<Rightarrow> http_result) \<Rightarrow> claimed_upload \<Rightarrow> attempt_outcome" where
  "upload_artifact fs rd sha header_ok authorization agent claim =
     (case snapshot_claimed_artifact fs rd sha claim of
        Inr (Verified body) \<Rightarrow>
          (if \<not> header_ok (c_filename claim) then AttemptPermanent None invalid_header_error
           else if \<not> header_ok (c_idempotency_key claim) then AttemptPermanent None invalid_header_error
           else (case agent (upload_request authorization claim body) of
               HttpResponse status header \<Rightarrow> classify_status status (parse_retry_after header)
             | HttpStatusError status \<Rightarrow> classify_status status None
             | HttpFailure \<Rightarrow> AttemptRetry None None transport_error))
      | Inr (Rejected Missing) \<Rightarrow> AttemptPermanent None missing_artifact_error
      | Inr (Rejected SymlinkFound) \<Rightarrow> AttemptPermanent None symlink_artifact_error
      | Inr (Rejected NotRegularFile) \<Rightarrow> AttemptPermanent None non_file_artifact_error
      | Inr (Rejected (SizeMismatch _ _)) \<Rightarrow> AttemptPermanent None artifact_size_changed_error
      | Inr (Rejected (Sha256Mismatch _ _)) \<Rightarrow> AttemptPermanent None artifact_content_changed_error
      | Inl _ \<Rightarrow> AttemptRetry None None unopenable_artifact_error)"

subsection \<open>Retry times\<close>

definition fnv1a :: "u8 list \<Rightarrow> 64 word" where
  "fnv1a bytes = foldl (\<lambda>hash byte. (hash XOR ucast byte) * fnv_prime) fnv_offset_basis bytes"

definition mix64 :: "64 word \<Rightarrow> 64 word" where
  "mix64 value =
     (let value = value XOR drop_bit 30 value;
          value = value * 0xbf58476d1ce4e5b9;
          value = value XOR drop_bit 27 value;
          value = value * 0x94d049bb133111eb
      in value XOR drop_bit 31 value)"

definition retry_delay :: "nat list \<Rightarrow> nat \<Rightarrow> 64 word \<Rightarrow> nat option \<Rightarrow> nat" where
  "retry_delay schedule attempt_count jitter_seed retry_after =
     (let retry_index = attempt_count - 1;
          base = schedule ! min retry_index (length schedule - 1);
          mixed = mix64 (jitter_seed XOR of_nat retry_index);
          jitter_percent = 80 + unat (mixed mod 41);
          jittered_ms = base * jitter_percent div 100;
          retry_after_ms = min (case retry_after of None \<Rightarrow> 0 | Some ms \<Rightarrow> ms) max_retry_delay
      in min (max jittered_ms retry_after_ms) max_retry_delay)"

definition wait_until_due :: "nat option \<Rightarrow> nat \<Rightarrow> nat" where
  "wait_until_due next_due now =
     min (case next_due of None \<Rightarrow> max_idle_poll | Some due \<Rightarrow> due - now) max_idle_poll"

subsection \<open>Telemetry and errors\<close>

record upload_telemetry =
  ut_pending :: nat
  ut_active :: nat
  ut_retrying :: nat
  ut_completed :: nat
  ut_permanently_failed :: nat
  ut_last_success :: "nat option"
  ut_last_failure :: "nat option"
  ut_last_error :: "string option"

definition telemetry_from :: "upload_store_snapshot \<Rightarrow> upload_telemetry" where
  "telemetry_from s =
     \<lparr>ut_pending = sn_pending s, ut_active = sn_in_progress s, ut_retrying = sn_retrying s,
      ut_completed = sn_completed s, ut_permanently_failed = sn_permanently_failed s,
      ut_last_success = sn_last_success_at s, ut_last_failure = sn_last_failure_at s,
      ut_last_error = sn_last_error s\<rparr>"

datatype upload_error =
    UploadStoreFailure store_error
  | InvalidWakeCapacity
  | StoreLockPoisoned
  | PublishLockPoisoned
  | UploadClockBeforeUnixEpoch
  | UploadClockOutOfRange
  | ObserverPanicked
  | UploadThreadStart
  | UploadWorkerPanicked

text \<open>
  What the two locks protect: the store, and the order in which telemetry reaches the observer.
  A critical section runs without interruption. \<open>upload_locks\<close> says whether a lock is poisoned when it is
  taken, \<open>observe\<close> whether the observer returns normally.
\<close>

record upload_shared =
  us_store :: upload_store
  us_published :: "upload_telemetry list"

record upload_locks =
  lk_publish :: bool
  lk_store :: bool

definition notify_observer ::
  "(upload_telemetry \<Rightarrow> bool) \<Rightarrow> upload_telemetry \<Rightarrow> upload_shared \<Rightarrow> upload_shared \<times> (upload_error + unit)" where
  "notify_observer observe telemetry sh =
     (sh\<lparr>us_published := us_published sh @ [telemetry]\<rparr>, require (observe telemetry) ObserverPanicked)"

definition take_locks :: "upload_locks \<Rightarrow> upload_error + unit" where
  "take_locks locks =
     rbind (require (lk_publish locks) PublishLockPoisoned) (\<lambda>_.
       require (lk_store locks) StoreLockPoisoned)"

text \<open>
  The shape of every critical section: take the locks, run a store operation, read the snapshot,
  and publish it. The store keeps what the operation committed even if a later step fails.
\<close>

definition publish_snapshot ::
  "(upload_telemetry \<Rightarrow> bool) \<Rightarrow> upload_shared \<Rightarrow> upload_shared \<times> (upload_error + unit)" where
  "publish_snapshot observe sh =
     (case snapshot (us_store sh) of
        Inl e \<Rightarrow> (sh, Inl (UploadStoreFailure e))
      | Inr s \<Rightarrow> notify_observer observe (telemetry_from s) sh)"

definition claim_and_publish ::
  "upload_locks \<Rightarrow> (upload_telemetry \<Rightarrow> bool) \<Rightarrow> nat \<Rightarrow> upload_shared
     \<Rightarrow> upload_shared \<times> (upload_error + claimed_upload option \<times> nat option)" where
  "claim_and_publish locks observe now sh =
     (case take_locks locks of Inl e \<Rightarrow> (sh, Inl e)
      | Inr _ \<Rightarrow>
          (case claim_due now (us_store sh) of
             Inl e \<Rightarrow> (sh, Inl (UploadStoreFailure e))
           | Inr (claim, store) \<Rightarrow>
               (let sh = sh\<lparr>us_store := store\<rparr> in
                case snapshot store of
                  Inl e \<Rightarrow> (sh, Inl (UploadStoreFailure e))
                | Inr s \<Rightarrow>
                    if claim = None then (sh, Inr (claim, sn_next_due_at s))
                    else (case notify_observer observe (telemetry_from s) sh of
                        (sh, Inl e) \<Rightarrow> (sh, Inl e)
                      | (sh, Inr _) \<Rightarrow> (sh, Inr (claim, sn_next_due_at s))))))"

definition release_and_publish ::
  "upload_locks \<Rightarrow> (upload_telemetry \<Rightarrow> bool) \<Rightarrow> claimed_upload \<Rightarrow> nat \<Rightarrow> upload_shared
     \<Rightarrow> upload_shared \<times> (upload_error + unit)" where
  "release_and_publish locks observe claim claim_time sh =
     (case take_locks locks of Inl e \<Rightarrow> (sh, Inl e)
      | Inr _ \<Rightarrow>
          (case release_claim claim claim_time (us_store sh) of
             Inl e \<Rightarrow> (sh, Inl (UploadStoreFailure e))
           | Inr store \<Rightarrow> publish_snapshot observe (sh\<lparr>us_store := store\<rparr>)))"

text \<open>
  The store operation for an outcome: the new store, and an error that is returned after the
  operation was committed (the retry time that cannot be represented).
\<close>

definition persist_outcome ::
  "nat list \<Rightarrow> claimed_upload \<Rightarrow> attempt_outcome \<Rightarrow> nat \<Rightarrow> upload_store
     \<Rightarrow> upload_error + upload_store \<times> upload_error option" where
  "persist_outcome schedule claim outcome finished_at store =
     (case outcome of
        AttemptSuccess status \<Rightarrow>
          (case mark_completed claim finished_at status store of
             Inl e \<Rightarrow> Inl (UploadStoreFailure e) | Inr store \<Rightarrow> Inr (store, None))
      | AttemptPermanent status err \<Rightarrow>
          (case mark_permanently_failed claim finished_at status (Some err) store of
             Inl e \<Rightarrow> Inl (UploadStoreFailure e) | Inr store \<Rightarrow> Inr (store, None))
      | AttemptRetry status retry_after err \<Rightarrow>
          (let delay = retry_delay schedule (c_attempt_count claim)
                 (fnv1a (string_bytes (c_idempotency_key claim))) retry_after
           in case checked_add_u64 finished_at delay of
                None \<Rightarrow>
                  (case mark_permanently_failed claim finished_at status (Some retry_time_error) store of
                     Inl e \<Rightarrow> Inl (UploadStoreFailure e)
                   | Inr store \<Rightarrow> Inr (store, Some UploadClockOutOfRange))
              | Some next_attempt_at \<Rightarrow>
                  (case mark_retrying claim finished_at next_attempt_at status (Some err) store of
                     Inl e \<Rightarrow> Inl (UploadStoreFailure e) | Inr store \<Rightarrow> Inr (store, None))))"

definition persist_outcome_and_publish ::
  "upload_locks \<Rightarrow> (upload_telemetry \<Rightarrow> bool) \<Rightarrow> nat list \<Rightarrow> claimed_upload \<Rightarrow> attempt_outcome \<Rightarrow> nat
     \<Rightarrow> upload_shared \<Rightarrow> upload_shared \<times> (upload_error + unit)" where
  "persist_outcome_and_publish locks observe schedule claim outcome finished_at sh =
     (case take_locks locks of Inl e \<Rightarrow> (sh, Inl e)
      | Inr _ \<Rightarrow>
          (case persist_outcome schedule claim outcome finished_at (us_store sh) of
             Inl e \<Rightarrow> (sh, Inl e)
           | Inr (store, Some e) \<Rightarrow> (sh\<lparr>us_store := store\<rparr>, Inl e)
           | Inr (store, None) \<Rightarrow> publish_snapshot observe (sh\<lparr>us_store := store\<rparr>)))"

definition record_and_publish ::
  "filesystem \<Rightarrow> (u8 list \<Rightarrow> u8 list) \<Rightarrow> upload_locks \<Rightarrow> (upload_telemetry \<Rightarrow> bool) \<Rightarrow> upload_error + nat
     \<Rightarrow> string \<Rightarrow> upload_shared \<Rightarrow> upload_shared \<times> (upload_error + record_disposition)" where
  "record_and_publish fs sha locks observe clock path sh =
     (case clock of Inl e \<Rightarrow> (sh, Inl e)
      | Inr now \<Rightarrow>
          (case take_locks locks of Inl e \<Rightarrow> (sh, Inl e)
           | Inr _ \<Rightarrow>
               (case record_artifact fs sha path now (us_store sh) of
                  Inl e \<Rightarrow> (sh, Inl (UploadStoreFailure e))
                | Inr ((_, disposition), store) \<Rightarrow>
                    (case publish_snapshot observe (sh\<lparr>us_store := store\<rparr>) of
                       (sh, Inl e) \<Rightarrow> (sh, Inl e)
                     | (sh, Inr _) \<Rightarrow> (sh, Inr disposition)))))"

text \<open>The critical section of an operator's requeue.\<close>

definition requeue_and_publish ::
  "filesystem \<Rightarrow> (u8 list \<Rightarrow> u8 list) \<Rightarrow> upload_locks \<Rightarrow> (upload_telemetry \<Rightarrow> bool) \<Rightarrow> requeue_request
     \<Rightarrow> nat \<Rightarrow> upload_shared \<Rightarrow> upload_shared \<times> (upload_error + requeue_outcome)" where
  "requeue_and_publish fs sha locks observe request now sh =
     (case take_locks locks of Inl e \<Rightarrow> (sh, Inl e)
      | Inr _ \<Rightarrow>
          (case requeue_permanently_failed fs sha request now (us_store sh) of
             Inl e \<Rightarrow> (sh, Inl (UploadStoreFailure e))
           | Inr (result, store) \<Rightarrow>
               (case publish_snapshot observe (sh\<lparr>us_store := store\<rparr>) of
                  (sh, Inl e) \<Rightarrow> (sh, Inl e)
                | (sh, Inr _) \<Rightarrow> (sh, Inr result))))"

end
