(* ===== verification/LedgerRestart.thy ===== *)
theory LedgerRestart
  imports LedgerTheorems
begin

text \<open>
  What happens around a restart of the agent: reopening the ledger, reconciling it with the
  capture directory, recording an artifact again, requeueing a failed one, and the use of the
  ledger revision as evidence that nothing changed.
\<close>

subsection \<open>Reopening\<close>

definition recovered_job :: "upload_job \<Rightarrow> upload_job" where
  "recovered_job r =
     (if j_state r = ''in_progress''
      then r\<lparr>j_state := ''pending'', j_next_attempt_at := None, j_job_revision := j_job_revision r + 1\<rparr>
      else r)"

lemma recover_jobs:
  assumes "recover_interrupted_jobs db = Inr db'"
  shows "db_jobs db' = map recovered_job (db_jobs db)"
  using assms by (auto simp: recover_interrupted_jobs_def result_simps recovered_job_def
      dest!: sql_update_jobs_effect(1))

lemma reopen_effect:
  assumes run: "open_store env fs sha endpoint schema dir destination authorization file = (file', Inr t)"
    and disk: "carries file (s_db s)" and inv: "store_inv sha s"
  shows "s_jobs t = map recovered_job (s_jobs s)" "carries file' (s_db t)"
    "authorization \<noteq> m_authorization (db_meta (s_db s)) \<Longrightarrow>
       \<not> list_ex live_job (s_jobs s) \<and> s_jobs t = s_jobs s"
proof -
  from run disk inv obtain db2 db3 where
    rotate: "rotate_authorization_if_drained fs (s_capture_root s) authorization (s_db s) = Inr db2"
    and recover: "recover_interrupted_jobs db2 = Inr db3"
    and t: "t = s\<lparr>s_db := db3, s_delivery_binding :=
       delivery_binding_derive sha (m_destination (db_meta (s_db s))) authorization\<rparr>"
    and carried: "carries file' db3"
    by (rule reopen_cases)
  have jobs2: "db_jobs db2 = s_jobs s" using rotate by (cases rule: rotate_Inr) auto
  show jobs: "s_jobs t = map recovered_job (s_jobs s)"
    using recover_jobs [OF recover] by (simp add: t jobs2)
  show "carries file' (s_db t)" using t carried by simp
  show "\<not> list_ex live_job (s_jobs s) \<and> s_jobs t = s_jobs s"
    if "authorization \<noteq> m_authorization (db_meta (s_db s))"
    using rotate
  proof (cases rule: rotate_Inr)
    case same
    then show ?thesis using that by simp
  next
    case rotated
    then have "recover_interrupted_jobs db2 = Inr db2"
      by (intro recover_nothing) (simp add: jobs2)
    then show ?thesis using rotated(2) recover t jobs2 by simp
  qed
qed

text \<open>C5: a restart gives back exactly the interrupted claims: after opening the ledger of any
  reachable state, no job is in progress, the jobs that were are pending with their attempt
  count kept, every other row is untouched, and the file carries what the store shows. If the
  authorization identity changed, no job was live.\<close>

theorem reopening_recovers_claims:
  assumes "ledger_init sha s0" and "ledger_steps sha s0 s" and "carries file (s_db s)"
    and "open_store env fs sha endpoint schema dir destination authorization file = (file', Inr t)"
  shows "in_state InProgress t = 0
    \<and> s_jobs t = map recovered_job (s_jobs s) \<and> carries file' (s_db t)
    \<and> (authorization \<noteq> m_authorization (db_meta (s_db s)) \<longrightarrow> \<not> list_ex live_job (s_jobs s))"
proof -
  have inv: "store_inv sha s" by (rule ledger.reachable_inv [OF assms(1,2)])
  note effect = reopen_effect [OF assms(4,3) inv]
  have "in_state InProgress t = 0"
    by (auto simp: in_state_def effect(1) recovered_job_def filter_empty_conv)
  then show ?thesis using effect by blast
qed

theorem reopening_recovers_claims_witness:
  "in_state InProgress demo_reopened = 0 \<and> s_jobs demo_reopened = map recovered_job (s_jobs demo_claimed)"
  using reopening_recovers_claims [OF demo_init demo_reach(1) demo_crash_carries, of demo_env demo_fs
      Some demo_schema demo_root "''https://u/''" demo_digest "fst demo_reopen" demo_reopened]
    demo_reopen_runs
  by (simp add: demo_reopen_def prod_eq_iff)

text \<open>An attempt to open an existing ledger that fails, for whatever reason, leaves its
  database file exactly as it was.\<close>

lemma failed_open_changes_nothing:
  assumes "ledger_init sha s0" and "ledger_steps sha s0 s" and "carries file (s_db s)"
    and run: "open_store env fs sha endpoint schema dir destination authorization file = (file', Inl err)"
  shows "file' = file"
proof -
  have inv: "store_inv sha s" by (rule ledger.reachable_inv [OF assms(1,2)])
  have id: "length (m_ledger_id (db_meta (s_db s))) = 16"
    using store_inv_ledger [OF inv] by (simp add: ledger_inv_def meta_checks_def)
  have same: "file1 = file" if "prepare_database env fs schema root dest authorization file = Inr file1"
    for root dest file1 using prepare_existing [OF _ that] assms(3) by (simp add: carries_def)
  have verified: "db1 = s_db s" if "verify_schema schema root dest file = Inr db1" for root dest db1
    using verify_schema_Inr(1) [OF that] assms(3) by (simp add: carries_def)
  have drained: "db2 = s_db s \<or> recover_interrupted_jobs db2 = Inr db2"
    if "rotate_authorization_if_drained fs root authorization (s_db s) = Inr db2" for root db2
    using that by (cases rule: rotate_Inr) (auto intro: recover_nothing)
  have keeps: "m_ledger_id (db_meta db3) = m_ledger_id (db_meta db2)"
    if "recover_interrupted_jobs db2 = Inr db3" for db2 db3
    using that by (auto simp: recover_interrupted_jobs_def result_simps meta_identity_def
        dest: sql_update_jobs_effect(5))
  have rotated_id: "m_ledger_id (db_meta db2) = m_ledger_id (db_meta (s_db s))"
    if "rotate_authorization_if_drained fs root authorization (s_db s) = Inr db2" for root db2
    using that by (cases rule: rotate_Inr) auto
  have "file\<lparr>f_ledger := Some (s_db s)\<rparr> = file" using assms(3) by (simp add: carries_def)
  then show ?thesis
    using run drained keeps rotated_id id
    by (auto simp: open_store_def result_simps split: sum.splits prod.splits if_splits
        dest!: same verified) fastforce+
qed

subsection \<open>The revision as a token\<close>

text \<open>The ledger revision is evidence: two reachable states of one ledger with the same
  revision are the same state, and the revision never goes back, so a cursor or a confirmation
  token bound to a revision is stale exactly when something changed.\<close>

lemma unchanged_revision_unchanged_ledger:
  assumes "ledger_init sha s0" and "ledger_steps sha s0 s" and "ledger_steps sha s t"
  shows "ledger_revision s \<le> ledger_revision t \<and> (ledger_revision t = ledger_revision s \<longleftrightarrow> t = s)"
proof -
  have inv: "store_inv sha s" by (rule ledger.reachable_inv [OF assms(1,2)])
  show ?thesis
    using ledger_rev.revision_mono [OF assms(3) inv]
      ledger_rev.same_revision_same_state [OF assms(3) inv] by auto
qed

subsection \<open>Recording\<close>

lemma insert_existing:
  assumes "job_in_range (row\<lparr>j_id := next_rowid (db_jobs db)\<rparr>)" "job_checks row"
    and "r \<in> set (db_jobs db)" "j_artifact_path r = j_artifact_path row"
  shows "sql_insert_job row db = Inr (db, 0)"
proof -
  have "job_checks (row\<lparr>j_id := next_rowid (db_jobs db)\<rparr>) = job_checks row"
    by (cases row) (simp only: job_checks_def upload_job.simps upload_job.update_convs)
  then have "check_job (row\<lparr>j_id := next_rowid (db_jobs db)\<rparr>) = Inr ()"
    using assms(1,2) by (simp add: check_job_Inr)
  then show ?thesis using assms(3,4) by (auto simp: sql_insert_job_def Let_def list_ex_iff)
qed

lemma find_unique:
  assumes "r \<in> set xs" "P r" and "\<And>q. q \<in> set xs \<Longrightarrow> P q \<Longrightarrow> q = r"
  shows "find P xs = Some r"
proof (cases "find P xs")
  case None
  then show ?thesis using assms(1,2) by (simp add: find_None_iff)
next
  case (Some x)
  then show ?thesis using find_SomeD [OF Some] assms(3) by blast
qed

lemma history_row:
  assumes "history s t" and "r \<in> set (s_jobs s)"
  obtains r' where "r' \<in> set (s_jobs t)" "job_identity r' = job_identity r"
proof -
  obtain i where i: "i < length (s_jobs s)" "s_jobs s ! i = r"
    using assms(2) by (auto simp: in_set_conv_nth)
  have "job_identity (s_jobs t ! i) = job_identity r"
    by (rule history_keeps [OF assms(1) i(1)]) (use i(2) in \<open>auto dest: moves_identity\<close>)
  moreover have "s_jobs t ! i \<in> set (s_jobs t)" using assms(1) i(1) by (simp add: history_def)
  ultimately show thesis using that by blast
qed

text \<open>What a successful recording leaves: a row that carries the values read.\<close>

lemma record_artifact_row:
  assumes "record_artifact fs sha path now s = Inr ((job_id, d), s')"
  obtains vals r where "artifact_values_read fs sha path (s_capture_root s) = Inr vals"
    "r \<in> set (s_jobs s')" "j_artifact_path r = av_artifact_path vals" "j_id r = job_id_value job_id"
    "j_filename r = av_filename vals" "j_idempotency_key r = av_idempotency_key vals"
    "j_file_size r = int (av_file_size vals)" "j_sha256 r = av_sha256 vals"
    "store_inv sha s \<Longrightarrow> job_id = UploadJobId (j_id r)" "int (av_file_size vals) \<le> i64_max"
proof -
  from assms obtain vals db n existing where
    vals: "artifact_values_read fs sha path (s_capture_root s) = Inr vals"
    and run: "sql_insert_job (new_job vals (s_delivery_binding s) (int now)) (s_db s) = Inr (db, n)"
    and found: "find (\<lambda>r. j_artifact_path r = av_artifact_path vals) (db_jobs db) = Some existing"
      "job_id_from_database (j_id existing) = Inr job_id"
    and same: "n = 0 \<Longrightarrow> j_filename existing = av_filename vals
        \<and> j_idempotency_key existing = av_idempotency_key vals
        \<and> j_file_size existing = int (av_file_size vals) \<and> j_sha256 existing = av_sha256 vals"
    and s': "s' = s\<lparr>s_db := db\<rparr>" and size: "int (av_file_size vals) \<le> i64_max"
    by (auto simp: record_artifact_def result_simps unix_ms_to_database_Inr)
  note existing = find_SomeD [OF found(1)]
  have "j_filename existing = av_filename vals
        \<and> j_idempotency_key existing = av_idempotency_key vals
        \<and> j_file_size existing = int (av_file_size vals) \<and> j_sha256 existing = av_sha256 vals"
  proof (cases "n = 0")
    case False
    then have "n = 1" "db_jobs db = s_jobs s @ [(new_job vals (s_delivery_binding s) (int now))
          \<lparr>j_id := next_rowid (s_jobs s)\<rparr>]"
      "\<forall>r \<in> set (s_jobs s). j_artifact_path r \<noteq> av_artifact_path vals"
      using sql_insert_job_effect [OF run] by (auto simp: new_job_def)
    then show ?thesis using existing by (auto simp: new_job_def)
  qed (use same in simp)
  then show thesis
    using that [OF vals, of existing] existing found(2) size
    by (auto simp: s' job_id_from_database_Inr)
qed

text \<open>Recording is idempotent across the whole life of the ledger: an artifact whose file is
  still what it was when it was recorded is found again under the same job id, whatever
  happened in between and whatever the clock says, and nothing is written.\<close>

lemma recording_is_idempotent:
  assumes "ledger_init sha s0" and "ledger_steps sha s0 s" and digest: "\<forall>bytes. length (sha bytes) = 32"
    and first: "record_artifact fs sha path now s = Inr ((job_id, d), s1)"
    and between: "ledger_steps sha s1 s2"
    and room: "\<forall>r \<in> set (s_jobs s2). j_id r < i64_max" and later: "int later \<le> i64_max"
  shows "record_artifact fs sha path later s2 = Inr ((job_id, AlreadyRecorded), s2)"
proof -
  have inv: "store_inv sha s" by (rule ledger.reachable_inv [OF assms(1,2)])
  have step: "ledger_steps sha s s1" using first by (blast intro: ledger_step.recorded)
  have inv1: "store_inv sha s1" by (rule ledger.steps_inv [OF step inv])
  have inv2: "store_inv sha s2" by (rule ledger.steps_inv [OF between inv1])
  note hist = steps_history [OF between inv1] steps_history [OF step inv]
  from first obtain vals r where vals: "artifact_values_read fs sha path (s_capture_root s) = Inr vals"
    and r: "r \<in> set (s_jobs s1)" "j_artifact_path r = av_artifact_path vals"
      "j_filename r = av_filename vals" "j_idempotency_key r = av_idempotency_key vals"
      "j_file_size r = int (av_file_size vals)" "j_sha256 r = av_sha256 vals"
    and id: "j_id r = job_id_value job_id" and size: "int (av_file_size vals) \<le> i64_max"
    by (rule record_artifact_row) auto
  obtain q where q: "q \<in> set (s_jobs s2)" "job_identity q = job_identity r"
    using history_row [OF hist(1) r(1)] by blast
  have root: "s_capture_root s2 = s_capture_root s" using hist by (simp add: history_def)
  let ?row = "new_job vals (s_delivery_binding s2) (int later)"
  have path: "j_artifact_path q = av_artifact_path vals"
    using q(2) r(2) by (simp add: job_identity_def)
  have "length (j_sha256 r) = 32"
    using store_inv_job(1) [OF inv1 r(1)] by (simp add: job_checks_def)
  then have sha_len: "length (av_sha256 vals) = 32" by (simp add: r(6))
  have "next_rowid (s_jobs s2) \<le> i64_max"
  proof -
    have "fold (\<lambda>r acc. max acc (j_id r)) rows a < i64_max"
      if "\<forall>r \<in> set rows. j_id r < i64_max" "a < i64_max" for rows a
      using that by (induction rows arbitrary: a) auto
    from this [OF room, of 0] show ?thesis by (simp add: next_rowid_def i64_max_def)
  qed
  then have in_range: "job_in_range (?row\<lparr>j_id := next_rowid (s_jobs s2)\<rparr>)"
    using next_rowid_pos [of "s_jobs s2"] size later
    by (simp add: job_in_range_def new_job_def in_i64_def opt_in_i64_def i64_min_def i64_max_def)
  have "length (s_delivery_binding s2) = 32"
    using inv2 digest by (simp add: store_inv_def delivery_binding_derive_def)
  then have "job_checks ?row"
    using sha_len later by (simp add: job_checks_def new_job_def opt_nonneg_def)
  then have "sql_insert_job ?row (s_db s2) = Inr (s_db s2, 0)"
    using in_range q(1) path by (intro insert_existing) (auto simp: new_job_def)
  moreover have "find (\<lambda>x. j_artifact_path x = av_artifact_path vals) (s_jobs s2) = Some q"
  proof (rule find_unique)
    fix x assume "x \<in> set (s_jobs s2)" "j_artifact_path x = av_artifact_path vals"
    then show "x = q"
      using ledger_inv_unique_path [OF store_inv_ledger [OF inv2] _ q(1)] path by simp
  qed (use q(1) path in simp_all)
  moreover have "job_id_from_database (j_id q) = Inr job_id"
    using store_inv_job(3) [OF inv2 q(1)] q(2) id
    by (cases job_id) (auto simp: job_id_from_database_Inr job_identity_def)
  ultimately show ?thesis
    using vals root size later q(2) r
    by (simp add: record_artifact_def unix_ms_to_database_def job_identity_def)
qed

subsection \<open>Requeueing\<close>

lemma open_verified_Inr:
  assumes "open_verified_requeue_artifact fs sha path sz digest = Inr f"
  shows "open_for_read fs path = Inr f" "of_kind f = RegularFile" "of_len f = sz"
    "of_final_len f = sz" "sha (of_bytes f) = digest"
    "symlink_metadata fs path = Inr RegularFile"
proof -
  have io: "unavailable_or_io r = Inr x \<longleftrightarrow> r = Inr x" for r :: "io_error + 'b" and x
    by (auto simp: unavailable_or_io_def split: sum.splits io_error.splits)
  show "open_for_read fs path = Inr f" "of_kind f = RegularFile" "of_len f = sz"
    "of_final_len f = sz" "sha (of_bytes f) = digest"
    "symlink_metadata fs path = Inr RegularFile"
    using assms by (auto simp: open_verified_requeue_artifact_def result_simps io)
qed

lemma requeue_Inr:
  assumes "requeue_permanently_failed fs sha request now s = Inr (out, s')"
  obtains raw sz f db where
    "rq_ledger_id request = s_ledger_id s" "int now \<le> i64_max"
    "find (\<lambda>r. j_id r = job_id_value (rq_job_id request)) (s_jobs s) = Some raw"
    "j_state raw = ''permanently_failed''"
    "j_job_revision raw = int (rq_expected_job_revision request)"
    "j_delivery_binding raw = s_delivery_binding s"
    "int sz = j_file_size raw"
    "open_verified_requeue_artifact fs sha (j_artifact_path raw) sz (j_sha256 raw) = Inr f"
    "sql_update_jobs
        [''state'', ''next_attempt_at_ms'', ''updated_at_ms'', ''job_revision'',
         ''requeue_count'', ''last_requeued_at_ms'']
        (\<lambda>r. j_id r = job_id_value (rq_job_id request) \<and> j_state r = ''permanently_failed''
           \<and> j_job_revision r = int (rq_expected_job_revision request)
           \<and> j_delivery_binding r = s_delivery_binding s
           \<and> m_ledger_id (db_meta (s_db s)) = s_ledger_id s)
        (\<lambda>r. r\<lparr>j_state := ''pending'', j_next_attempt_at := None, j_updated_at := int now,
               j_job_revision := j_job_revision raw + 1, j_requeue_count := j_requeue_count raw + 1,
               j_last_requeued_at := Some (int now)\<rparr>)
        (s_db s) = Inr (db, 1)"
    "s' = s\<lparr>s_db := db\<rparr>"
    "int (ro_ledger_revision out) = m_ledger_revision (db_meta db)"
proof -
  have digest: "sha256_from_database j v = Inr d \<longleftrightarrow> length v = 32 \<and> d = v" for j v d
    by (auto simp: sha256_from_database_def)
  have binding: "delivery_binding_from_database j v = Inr d \<longleftrightarrow> length v = 32 \<and> d = v" for j v d
    by (auto simp: delivery_binding_from_database_def)
  have ident: "validate_stored_identity j p f k d r = Inr q \<Longrightarrow> q = p" for j p f k d r q
    by (auto simp: validate_stored_identity_def split: if_splits)
  have num: "database_u64 c v = Inr u \<longleftrightarrow> 0 \<le> v \<and> u = nat v" for c v u
    by (auto simp: database_u64_def)
  show thesis
    using assms unfolding requeue_permanently_failed_def
    by (auto simp: result_simps checked_add_i64_Some unix_ms_to_database_Inr digest binding num
        split: if_splits dest!: ident intro!: that)
qed

text \<open>C6: requeueing is fully fenced: it succeeds only on the ledger it was meant for, only for a
  permanently failed job at the expected revision under the current delivery binding, and only
  after the local file was read again and still had the recorded size and digest; it then
  changes that row alone, to pending, counts the requeue and advances the ledger revision by one.\<close>

theorem requeue_is_fenced:
  assumes "ledger_init sha s0" and "ledger_steps sha s0 s"
    and run: "requeue_permanently_failed fs sha request now s = Inr (out, s')"
  shows "rq_ledger_id request = s_ledger_id s
    \<and> (\<exists>i f. i < length (s_jobs s) \<and> j_id (s_jobs s ! i) = job_id_value (rq_job_id request)
        \<and> j_state (s_jobs s ! i) = ''permanently_failed''
        \<and> j_job_revision (s_jobs s ! i) = int (rq_expected_job_revision request)
        \<and> j_delivery_binding (s_jobs s ! i) = s_delivery_binding s
        \<and> open_for_read fs (j_artifact_path (s_jobs s ! i)) = Inr f
        \<and> int (of_len f) = j_file_size (s_jobs s ! i)
        \<and> sha (of_bytes f) = j_sha256 (s_jobs s ! i)
        \<and> s_jobs s' = (s_jobs s)[i := (s_jobs s ! i)\<lparr>j_state := ''pending'',
             j_next_attempt_at := None, j_updated_at := int now,
             j_job_revision := j_job_revision (s_jobs s ! i) + 1,
             j_requeue_count := j_requeue_count (s_jobs s ! i) + 1,
             j_last_requeued_at := Some (int now)\<rparr>])
    \<and> ledger_revision s' = ledger_revision s + 1
    \<and> int (ro_ledger_revision out) = ledger_revision s'"
  using run
proof (cases rule: requeue_Inr)
  case (1 raw sz f db)
  have inv: "store_inv sha s" by (rule ledger.reachable_inv [OF assms(1,2)])
  note raw = find_SomeD [OF 1(3)]
  obtain i where i: "i < length (s_jobs s)" "s_jobs s ! i = raw"
    using raw by (auto simp: in_set_conv_nth)
  have distinct: "distinct (map j_id (s_jobs s))"
    using store_inv_ledger [OF inv] by (simp add: ledger_inv_def strict_sorted_iff)
  have ledger: "m_ledger_id (db_meta (s_db s)) = s_ledger_id s" using inv by (simp add: store_inv_def)
  let ?assign = "\<lambda>r. r\<lparr>j_state := ''pending'', j_next_attempt_at := None, j_updated_at := int now,
               j_job_revision := j_job_revision raw + 1, j_requeue_count := j_requeue_count raw + 1,
               j_last_requeued_at := Some (int now)\<rparr>"
  have "s_jobs s' = (s_jobs s)[i := ?assign raw]"
  proof (rule nth_equalityI)
    note eq = sql_update_jobs_effect(1) [OF 1(9)]
    show "length (s_jobs s') = length ((s_jobs s)[i := ?assign raw])" by (simp add: eq 1(10))
    fix k assume "k < length (s_jobs s')"
    then have k: "k < length (s_jobs s)" by (simp add: eq 1(10))
    show "s_jobs s' ! k = (s_jobs s)[i := ?assign raw] ! k"
    proof (cases "k = i")
      case True
      then show ?thesis using i raw 1(4-6) ledger by (simp add: eq 1(10))
    next
      case False
      then have "j_id (s_jobs s ! k) \<noteq> j_id raw"
        using distinct k i by (metis distinct_conv_nth length_map nth_map)
      then show ?thesis using False k raw by (simp add: eq 1(10))
    qed
  qed
  moreover have "ledger_revision s' = ledger_revision s + 1"
    using sql_update_jobs_effect(4) [OF 1(9)] by (simp add: 1(10))
  ultimately show ?thesis
    using 1 i raw open_verified_Inr [OF 1(8)] by (intro conjI exI [of _ i] exI [of _ f]) auto
qed

definition demo_request :: requeue_request where
  "demo_request = \<lparr>rq_ledger_id = replicate 16 9, rq_job_id = UploadJobId 1, rq_expected_job_revision = 3\<rparr>"

definition demo_requeue :: "store_error + requeue_outcome \<times> upload_store" where
  "demo_requeue = requeue_permanently_failed demo_fs demo_sha demo_request 70 demo_failed"

lemma demo_requeue_runs: "\<exists>out s'. demo_requeue = Inr (out, s')"
proof -
  have "(case demo_requeue of Inr _ \<Rightarrow> True | _ \<Rightarrow> False)" by code_simp
  then show ?thesis by (auto split: sum.splits)
qed

theorem requeue_is_fenced_witness:
  "\<exists>out s'. demo_requeue = Inr (out, s') \<and> ledger_revision s' = ledger_revision demo_failed + 1
     \<and> rq_ledger_id demo_request = s_ledger_id demo_failed"
proof -
  obtain out s' where run: "demo_requeue = Inr (out, s')" using demo_requeue_runs by blast
  then have "requeue_permanently_failed demo_fs demo_sha demo_request 70 demo_failed = Inr (out, s')"
    by (simp add: demo_requeue_def)
  from requeue_is_fenced [OF demo_init demo_reach(3) this] run show ?thesis by blast
qed

subsection \<open>Reconciliation\<close>

definition reconcilable :: "upload_store \<Rightarrow> string \<Rightarrow> dir_entry \<Rightarrow> bool" where
  "reconcilable s name e \<longleftrightarrow> de_name e = Some name \<and> is_generated_frame_filename name
     \<and> de_kind e = Inr RegularFile
     \<and> \<not> is_preactivation_artifact s (path_join (s_capture_root s) name)"

definition recorded_as :: "filesystem \<Rightarrow> upload_store \<Rightarrow> string \<Rightarrow> bool" where
  "recorded_as fs s path \<longleftrightarrow> (\<exists>r \<in> set (s_jobs s). j_artifact_path r = path
     \<or> canonicalize fs path = Inr (j_artifact_path r))"

lemma recorded_job_id_Some:
  "recorded_job_id s path = Inr (Some j) \<Longrightarrow> recorded_as fs s path"
  by (auto simp: recorded_job_id_def recorded_as_def result_simps split: option.splits
      dest: find_SomeD)

lemma increment_Inr: "checked_reconcile_increment n = Inr k \<longleftrightarrow> k = Suc n \<and> Suc n \<le> u64_max"
  by (auto simp: checked_reconcile_increment_def checked_add_u64_def result_simps split: if_splits)

lemma reconcile_scan_Cons:
  assumes "reconcile_scan s result (entry # rest) = Inr (result', paths)"
  obtains e result1 paths1 where "entry = Inr e"
    "reconcile_scan s result1 rest = Inr (result', paths1)"
    "rr_examined result1 = Suc (rr_examined result)" "rr_inserted result1 = rr_inserted result"
    "rr_eligible result1 + length paths1 + rr_already_recorded result
       = rr_eligible result + length paths + rr_already_recorded result1"
    "set paths1 \<subseteq> set paths"
    "\<forall>name. reconcilable s name e \<longrightarrow>
       recorded_as fs s (path_join (s_capture_root s) name) \<or> path_join (s_capture_root s) name \<in> set paths"
proof -
  from assms obtain e where e: "entry = Inr e" by (cases entry) (auto simp: io_err_def)
  show thesis
  proof (cases "de_name e")
    case None
    with assms e show thesis
      by (intro that [of e "result\<lparr>rr_examined := Suc (rr_examined result)\<rparr>" paths])
        (auto simp: io_err_def result_simps increment_Inr Let_def reconcilable_def)
  next
    case (Some name)
    let ?path = "path_join (s_capture_root s) name"
    let ?r1 = "result\<lparr>rr_examined := Suc (rr_examined result)\<rparr>"
    show thesis
    proof (cases "is_generated_frame_filename name \<and> \<not> is_preactivation_artifact s ?path")
      case False
      with assms e Some show thesis
        by (intro that [of e ?r1 paths])
          (auto simp: io_err_def result_simps increment_Inr Let_def reconcilable_def split: if_splits)
    next
      case True
      from assms e Some True obtain recorded where rec: "recorded_job_id s ?path = Inr recorded"
        by (auto simp: io_err_def result_simps increment_Inr Let_def)
      show thesis
      proof (cases recorded)
        case (Some j)
        with assms e \<open>de_name e = Some name\<close> True rec show thesis
          by (intro that [of e "?r1\<lparr>rr_eligible := Suc (rr_eligible result),
              rr_already_recorded := Suc (rr_already_recorded result)\<rparr>" paths])
            (auto simp: io_err_def result_simps increment_Inr Let_def reconcilable_def
              dest: recorded_job_id_Some)
      next
        case None
        note unrecorded = this
        from assms e Some True rec None obtain kind where kind: "de_kind e = Inr kind"
          by (cases "de_kind e") (auto simp: io_err_def result_simps increment_Inr Let_def)
        show thesis
        proof (cases "kind = RegularFile")
          case False
          with assms e Some True rec None kind show thesis
            by (intro that [of e ?r1 paths])
              (auto simp: io_err_def result_simps increment_Inr Let_def reconcilable_def)
        next
          case True
          from assms e Some \<open>is_generated_frame_filename name \<and> _\<close> rec unrecorded kind True
          obtain paths1 where "paths = ?path # paths1"
            "reconcile_scan s (?r1\<lparr>rr_eligible := Suc (rr_eligible result)\<rparr>) rest = Inr (result', paths1)"
            by (auto simp: io_err_def result_simps increment_Inr Let_def)
          with e Some show thesis
            by (intro that [of e "?r1\<lparr>rr_eligible := Suc (rr_eligible result)\<rparr>" paths1])
              (auto simp: reconcilable_def)
        qed
      qed
    qed
  qed
qed

lemma reconcile_scan_result:
  assumes "reconcile_scan s result entries = Inr (result', paths)"
  shows "rr_examined result' = rr_examined result + length entries
    \<and> rr_inserted result' = rr_inserted result
    \<and> rr_eligible result' + rr_already_recorded result
        = rr_eligible result + rr_already_recorded result' + length paths
    \<and> (\<forall>e name. Inr e \<in> set entries \<longrightarrow> reconcilable s name e \<longrightarrow>
        recorded_as fs s (path_join (s_capture_root s) name) \<or> path_join (s_capture_root s) name \<in> set paths)"
  using assms
proof (induction entries arbitrary: result paths)
  case (Cons entry rest)
  from Cons.prems obtain e result1 paths1 where one: "entry = Inr e"
    "reconcile_scan s result1 rest = Inr (result', paths1)"
    "rr_examined result1 = Suc (rr_examined result)" "rr_inserted result1 = rr_inserted result"
    "rr_eligible result1 + length paths1 + rr_already_recorded result
       = rr_eligible result + length paths + rr_already_recorded result1"
    "set paths1 \<subseteq> set paths"
    "\<forall>name. reconcilable s name e \<longrightarrow>
       recorded_as fs s (path_join (s_capture_root s) name) \<or> path_join (s_capture_root s) name \<in> set paths"
    by (rule reconcile_scan_Cons [where fs = fs]) blast
  from Cons.IH [OF one(2)] one(1,3-7) show ?case by auto
qed simp

lemma recorded_as_kept:
  assumes "store_inv sha s" and "ledger_steps sha s t" and "recorded_as fs s path"
  shows "recorded_as fs t path"
proof -
  from assms(3) obtain r where r: "r \<in> set (s_jobs s)"
    "j_artifact_path r = path \<or> canonicalize fs path = Inr (j_artifact_path r)"
    by (auto simp: recorded_as_def)
  obtain q where "q \<in> set (s_jobs t)" "job_identity q = job_identity r"
    using history_row [OF steps_history [OF assms(2,1)] r(1)] by blast
  then show ?thesis using r(2) by (auto simp: recorded_as_def job_identity_def intro!: bexI [of _ q])
qed

lemma reconcile_record_steps:
  "reconcile_record fs sha now paths result s = (t, res) \<Longrightarrow> ledger_steps sha s t"
proof (induction paths arbitrary: result s)
  case (Cons path paths)
  show ?case
  proof (cases "record_artifact fs sha path now s")
    case (Inr b)
    obtain j d s1 where b: "b = ((j, d), s1)" by (cases b) auto
    have "ledger_steps sha s s1" using Inr b by (blast intro: ledger_step.recorded)
    moreover have "t = s1 \<or> (\<exists>result'. reconcile_record fs sha now paths result' s1 = (t, res))"
      using Cons.prems Inr b by (auto split: record_disposition.splits sum.splits)
    ultimately show ?thesis using Cons.IH by (auto intro: rtranclp_trans)
  qed (use Cons.prems in auto)
qed simp

lemma recorded_now:
  assumes "record_artifact fs sha path now s = Inr ((j, d), t)"
  shows "recorded_as fs t path"
proof -
  from assms obtain vals r where vals: "artifact_values_read fs sha path (s_capture_root s) = Inr vals"
    and "r \<in> set (s_jobs t)" "j_artifact_path r = av_artifact_path vals"
    by (rule record_artifact_row)
  moreover have "canonicalize fs path = Inr (av_artifact_path vals)"
    using vals by (auto simp: artifact_values_read_def result_simps io_err_def Let_def
        split: sum.splits)
  ultimately show ?thesis by (auto simp: recorded_as_def intro!: bexI [of _ r])
qed

lemma reconcile_record_result:
  "reconcile_record fs sha now paths result s = (t, Inr result') \<Longrightarrow> store_inv sha s \<Longrightarrow>
     (\<forall>path \<in> set paths. recorded_as fs t path)
     \<and> rr_examined result' = rr_examined result \<and> rr_eligible result' = rr_eligible result
     \<and> rr_inserted result' + rr_already_recorded result'
         = rr_inserted result + rr_already_recorded result + length paths"
proof (induction paths arbitrary: result s)
  case (Cons path paths)
  from Cons.prems(1) obtain j d s1 where rec: "record_artifact fs sha path now s = Inr ((j, d), s1)"
    by (auto split: sum.splits)
  have step: "ledger_steps sha s s1" using rec by (blast intro: ledger_step.recorded)
  have inv1: "store_inv sha s1" by (rule ledger.steps_inv [OF step Cons.prems(2)])
  from Cons.prems(1) rec obtain result1 where
    rest: "reconcile_record fs sha now paths result1 s1 = (t, Inr result')"
    and "rr_examined result1 = rr_examined result" "rr_eligible result1 = rr_eligible result"
      "rr_inserted result1 + rr_already_recorded result1
         = Suc (rr_inserted result + rr_already_recorded result)"
    by (auto simp: increment_Inr split: record_disposition.splits sum.splits)
  moreover have "recorded_as fs t path"
    using recorded_as_kept [OF inv1 reconcile_record_steps [OF rest] recorded_now [OF rec]] .
  ultimately show ?case using Cons.IH [OF rest inv1] by auto
qed simp

text \<open>Reconciliation closes the crash gap: after it succeeds, every finalized artifact that the
  directory listing named as a regular file and that does not predate the ledger is recorded,
  it got there through ordinary recordings only, and the counts it reports add up.\<close>

lemma reconciliation_covers_directory:
  assumes "ledger_init sha s0" and "ledger_steps sha s0 s"
    and "read_dir fs (s_capture_root s) = Inr entries"
    and run: "reconcile_capture_directory fs sha now s = (t, Inr result)"
  shows "ledger_steps sha s t
    \<and> rr_examined result = length entries
    \<and> rr_eligible result = rr_inserted result + rr_already_recorded result
    \<and> (\<forall>e name. Inr e \<in> set entries \<and> reconcilable s name e \<longrightarrow>
         recorded_as fs t (path_join (s_capture_root s) name))"
proof -
  have inv: "store_inv sha s" by (rule ledger.reachable_inv [OF assms(1,2)])
  let ?zero = "\<lparr>rr_examined = 0, rr_eligible = 0, rr_inserted = 0, rr_already_recorded = 0\<rparr>"
  from run assms(3) obtain result1 paths where
    scan: "reconcile_scan s ?zero entries = Inr (result1, paths)"
    and rec: "reconcile_record fs sha now (sort_key path_components paths) result1 s = (t, Inr result)"
    by (auto simp: reconcile_capture_directory_def result_simps io_err_def
        split: sum.splits prod.splits)
  note steps = reconcile_record_steps [OF rec]
  note finished = reconcile_record_result [OF rec inv]
  note scanned = reconcile_scan_result [OF scan, of fs]
  have "recorded_as fs t (path_join (s_capture_root s) name)"
    if "Inr e \<in> set entries" "reconcilable s name e" for e name
  proof -
    have "recorded_as fs s (path_join (s_capture_root s) name) \<or> path_join (s_capture_root s) name \<in> set paths"
      using scanned that by blast
    then show ?thesis using finished recorded_as_kept [OF inv steps] by auto
  qed
  then show ?thesis using steps finished scanned by auto
qed

definition demo_dir_fs :: filesystem where
  "demo_dir_fs = demo_fs\<lparr>read_dir := \<lambda>_. Inr [Inr \<lparr>de_name = Some demo_name, de_kind = Inr RegularFile\<rparr>]\<rparr>"

definition demo_reconcile :: "upload_store \<times> (store_error + reconcile_result)" where
  "demo_reconcile = reconcile_capture_directory demo_dir_fs demo_sha 80 demo_store"

lemma demo_reconcile_runs:
  "snd demo_reconcile = Inr \<lparr>rr_examined = 1, rr_eligible = 1, rr_inserted = 1, rr_already_recorded = 0\<rparr>"
  by code_simp

end
