(* ===== verification/UploadWorker.thy ===== *)
theory UploadWorker
  imports Upload LedgerRestart
begin

text \<open>
  The upload service (\<open>UploadWorker\<close>, \<open>UploadSink\<close>, \<open>upload_loop\<close>): its start on a database file,
  the worker's loop cut at the points where other threads can intervene, the clients that record
  and requeue, and shutdown. The service refines the ledger: whatever the threads do together is
  a run of ledger steps on the shared store. Its own invariant is the worker's exclusive hold on
  the one job that is in progress.
\<close>

subsection \<open>State\<close>

text \<open>
  \<open>Claimed\<close> is the point after a claim where the stop flag is looked at again, \<open>Uploading\<close> the
  HTTP attempt, during which no lock is held, and \<open>Persisted\<close> the last look at the stop flag.
\<close>

datatype worker_phase =
    LoopTop
  | WaitingForWake nat
  | Claimed claimed_upload nat
  | Uploading claimed_upload nat
  | Persisted
  | LoopReturned "upload_error option"
  | ThreadEnded "upload_error option"

record upload_service =
  sv_shared :: upload_shared
  sv_stop :: bool
  sv_queued :: nat
  sv_capacity :: nat
  sv_connected :: bool
  sv_phase :: worker_phase

datatype enqueue_result = EnqueueRecorded | EnqueueAlreadyRecorded | EnqueueWorkerStopped

datatype wake_reception = WakeReceived | WakeTimedOut | WakeSendersGone

subsection \<open>Start\<close>

definition start_with_transport ::
  "nat \<Rightarrow> upload_error + nat \<Rightarrow> open_env \<Rightarrow> filesystem \<Rightarrow> (u8 list \<Rightarrow> u8 list)
     \<Rightarrow> (string \<Rightarrow> string option) \<Rightarrow> (string \<times> string \<times> string) list \<Rightarrow> string \<Rightarrow> string \<Rightarrow> u8 list
     \<Rightarrow> (upload_telemetry \<Rightarrow> bool) \<Rightarrow> database_file
     \<Rightarrow> database_file \<times> (upload_error + upload_service)" where
  "start_with_transport wake_capacity clock env fs sha endpoint schema dir destination authorization
     observe file =
     (if wake_capacity = 0 then (file, Inl InvalidWakeCapacity)
      else (case clock of Inl e \<Rightarrow> (file, Inl e)
        | Inr now \<Rightarrow>
            (case open_store env fs sha endpoint schema dir destination authorization file of
               (file, Inl e) \<Rightarrow> (file, Inl (UploadStoreFailure e))
             | (file, Inr store) \<Rightarrow>
                 (case reconcile_capture_directory fs sha now store of
                    (store, Inl e) \<Rightarrow> (file\<lparr>f_ledger := Some (s_db store)\<rparr>, Inl (UploadStoreFailure e))
                  | (store, Inr _) \<Rightarrow>
                      (file\<lparr>f_ledger := Some (s_db store)\<rparr>,
                       (case publish_snapshot observe \<lparr>us_store = store, us_published = []\<rparr> of
                          (sh, Inl e) \<Rightarrow> Inl e
                        | (sh, Inr _) \<Rightarrow>
                            Inr \<lparr>sv_shared = sh, sv_stop = False, sv_queued = 0,
                                 sv_capacity = wake_capacity, sv_connected = True,
                                 sv_phase = LoopTop\<rparr>))))))"

subsection \<open>The loop\<close>

definition loop_top ::
  "upload_locks \<Rightarrow> (upload_telemetry \<Rightarrow> bool) \<Rightarrow> upload_error + nat \<Rightarrow> upload_service \<Rightarrow> upload_service" where
  "loop_top locks observe clock sv =
     (if sv_stop sv then sv\<lparr>sv_phase := LoopReturned None\<rparr>
      else (case clock of Inl e \<Rightarrow> sv\<lparr>sv_phase := LoopReturned (Some e)\<rparr>
        | Inr claim_time \<Rightarrow>
            (case claim_and_publish locks observe claim_time (sv_shared sv) of
               (sh, Inl e) \<Rightarrow> sv\<lparr>sv_shared := sh, sv_phase := LoopReturned (Some e)\<rparr>
             | (sh, Inr (None, next_due)) \<Rightarrow>
                 sv\<lparr>sv_shared := sh, sv_phase := WaitingForWake (wait_until_due next_due claim_time)\<rparr>
             | (sh, Inr (Some claim, _)) \<Rightarrow>
                 sv\<lparr>sv_shared := sh, sv_phase := Claimed claim claim_time\<rparr>)))"

definition loop_wait :: "wake_reception \<Rightarrow> upload_service \<Rightarrow> upload_service" where
  "loop_wait received sv =
     (case received of
        WakeReceived \<Rightarrow> sv\<lparr>sv_queued := sv_queued sv - 1, sv_phase := LoopTop\<rparr>
      | WakeTimedOut \<Rightarrow> sv\<lparr>sv_phase := LoopTop\<rparr>
      | WakeSendersGone \<Rightarrow> sv\<lparr>sv_phase := LoopReturned None\<rparr>)"

definition loop_claimed ::
  "upload_locks \<Rightarrow> (upload_telemetry \<Rightarrow> bool) \<Rightarrow> claimed_upload \<Rightarrow> nat \<Rightarrow> upload_service \<Rightarrow> upload_service" where
  "loop_claimed locks observe claim claim_time sv =
     (if sv_stop sv
      then (case release_and_publish locks observe claim claim_time (sv_shared sv) of
          (sh, Inl e) \<Rightarrow> sv\<lparr>sv_shared := sh, sv_phase := LoopReturned (Some e)\<rparr>
        | (sh, Inr _) \<Rightarrow> sv\<lparr>sv_shared := sh, sv_phase := LoopReturned None\<rparr>)
      else sv\<lparr>sv_phase := Uploading claim claim_time\<rparr>)"

definition loop_persist ::
  "upload_locks \<Rightarrow> (upload_telemetry \<Rightarrow> bool) \<Rightarrow> nat list \<Rightarrow> attempt_outcome \<Rightarrow> upload_error + nat
     \<Rightarrow> claimed_upload \<Rightarrow> nat \<Rightarrow> upload_service \<Rightarrow> upload_service" where
  "loop_persist locks observe schedule outcome clock claim claim_time sv =
     (let (finished_at, clock_error) =
            (case clock of Inr now \<Rightarrow> (now, None) | Inl e \<Rightarrow> (claim_time, Some e))
      in case persist_outcome_and_publish locks observe schedule claim outcome finished_at (sv_shared sv) of
           (sh, Inl e) \<Rightarrow> sv\<lparr>sv_shared := sh, sv_phase := LoopReturned (Some e)\<rparr>
         | (sh, Inr _) \<Rightarrow>
             (case clock_error of
                Some e \<Rightarrow> sv\<lparr>sv_shared := sh, sv_phase := LoopReturned (Some e)\<rparr>
              | None \<Rightarrow> sv\<lparr>sv_shared := sh, sv_phase := Persisted\<rparr>))"

definition loop_persisted :: "upload_service \<Rightarrow> upload_service" where
  "loop_persisted sv = sv\<lparr>sv_phase := (if sv_stop sv then LoopReturned None else LoopTop)\<rparr>"

text \<open>\<open>StopOnDrop\<close> runs as the thread ends; its receiver goes with it.\<close>

definition upload_stop_on_drop :: "upload_error option \<Rightarrow> upload_service \<Rightarrow> upload_service" where
  "upload_stop_on_drop result sv =
     sv\<lparr>sv_stop := True, sv_connected := False, sv_phase := ThreadEnded result\<rparr>"

subsection \<open>Clients\<close>

text \<open>\<open>wake_sender.try_send(())\<close>: \<open>None\<close> when the receiver is gone, else whether it was queued.\<close>

definition wake_try_send :: "upload_service \<Rightarrow> bool option \<times> upload_service" where
  "wake_try_send sv =
     (if \<not> sv_connected sv then (None, sv)
      else if sv_queued sv < sv_capacity sv then (Some True, sv\<lparr>sv_queued := sv_queued sv + 1\<rparr>)
      else (Some False, sv))"

definition upload_request_stop :: "upload_service \<Rightarrow> upload_service" where
  "upload_request_stop sv = snd (wake_try_send (sv\<lparr>sv_stop := True\<rparr>))"

definition try_enqueue ::
  "filesystem \<Rightarrow> (u8 list \<Rightarrow> u8 list) \<Rightarrow> upload_locks \<Rightarrow> (upload_telemetry \<Rightarrow> bool) \<Rightarrow> upload_error + nat
     \<Rightarrow> string \<Rightarrow> upload_service \<Rightarrow> upload_service \<times> (upload_error + enqueue_result)" where
  "try_enqueue fs sha locks observe clock path sv =
     (case record_and_publish fs sha locks observe clock path (sv_shared sv) of
        (sh, Inl e) \<Rightarrow> (upload_request_stop (sv\<lparr>sv_shared := sh\<rparr>), Inl e)
      | (sh, Inr disposition) \<Rightarrow>
          (let sv = sv\<lparr>sv_shared := sh\<rparr> in
           if sv_stop sv then (sv, Inr EnqueueWorkerStopped)
           else (case wake_try_send sv of
               (None, sv) \<Rightarrow> (sv\<lparr>sv_stop := True\<rparr>, Inr EnqueueWorkerStopped)
             | (Some _, sv) \<Rightarrow>
                 (sv, Inr (case disposition of Inserted \<Rightarrow> EnqueueRecorded
                   | AlreadyRecorded \<Rightarrow> EnqueueAlreadyRecorded)))))"

text \<open>The service part of an operator's requeue: the critical section, then the wake.\<close>

definition requeue_and_wake ::
  "filesystem \<Rightarrow> (u8 list \<Rightarrow> u8 list) \<Rightarrow> upload_locks \<Rightarrow> (upload_telemetry \<Rightarrow> bool) \<Rightarrow> requeue_request
     \<Rightarrow> nat \<Rightarrow> upload_service \<Rightarrow> upload_service \<times> (upload_error + requeue_outcome \<times> bool)" where
  "requeue_and_wake fs sha locks observe request now sv =
     (case requeue_and_publish fs sha locks observe request now (sv_shared sv) of
        (sh, Inl e) \<Rightarrow> (sv\<lparr>sv_shared := sh\<rparr>, Inl e)
      | (sh, Inr result) \<Rightarrow>
          (let sv = sv\<lparr>sv_shared := sh\<rparr> in
           if sv_stop sv then (sv, Inr (result, False))
           else (case wake_try_send sv of
               (None, sv) \<Rightarrow> (sv\<lparr>sv_stop := True\<rparr>, Inr (result, False))
             | (Some _, sv) \<Rightarrow> (sv, Inr (result, True)))))"

subsection \<open>The service as a transition system\<close>

inductive service_step :: "(u8 list \<Rightarrow> u8 list) \<Rightarrow> upload_service \<Rightarrow> upload_service \<Rightarrow> bool" for sha where
  top: "sv_phase sv = LoopTop \<Longrightarrow> service_step sha sv (loop_top locks observe clock sv)"
| wait: "sv_phase sv = WaitingForWake ms \<Longrightarrow> service_step sha sv (loop_wait received sv)"
| claimed: "sv_phase sv = Claimed claim t \<Longrightarrow>
    service_step sha sv (loop_claimed locks observe claim t sv)"
| attempted: "sv_phase sv = Uploading claim t \<Longrightarrow>
    outcome = upload_artifact fs rd sha header_ok authorization agent claim \<Longrightarrow>
    service_step sha sv (loop_persist locks observe retry_delays outcome clock claim t sv)"
| persisted: "sv_phase sv = Persisted \<Longrightarrow> service_step sha sv (loop_persisted sv)"
| ended: "sv_phase sv = LoopReturned result \<Longrightarrow> service_step sha sv (upload_stop_on_drop result sv)"
| enqueued: "try_enqueue fs sha locks observe clock path sv = (sv', r) \<Longrightarrow> service_step sha sv sv'"
| requeued: "requeue_and_wake fs sha locks observe request now sv = (sv', q) \<Longrightarrow> service_step sha sv sv'"
| stopped: "service_step sha sv (upload_request_stop sv)"

inductive_cases service_stepE: "service_step sha sv sv'"

text \<open>A started service: on an empty database, or on the file a previous process left.\<close>

inductive service_init :: "(u8 list \<Rightarrow> u8 list) \<Rightarrow> upload_service \<Rightarrow> bool" for sha where
  first: "f_user_version file = 0 \<Longrightarrow> database_is_completely_empty file \<Longrightarrow>
     \<forall>p q. canonicalize fs p = Inr q \<longrightarrow> path_is_absolute q \<Longrightarrow>
     start_with_transport capacity clock env fs sha endpoint schema dir destination authorization
       observe file = (file', Inr sv) \<Longrightarrow>
     service_init sha sv"
| again: "ledger_init sha s0 \<Longrightarrow> ledger_steps sha s0 s \<Longrightarrow> carries file (s_db s) \<Longrightarrow>
     start_with_transport capacity clock env fs sha endpoint schema dir destination authorization
       observe file = (file', Inr sv) \<Longrightarrow>
     service_init sha sv"

abbreviation sv_store :: "upload_service \<Rightarrow> upload_store" where
  "sv_store sv \<equiv> us_store (sv_shared sv)"

subsection \<open>Critical sections are ledger steps\<close>

lemma notify_observer_store [simp]: "us_store (fst (notify_observer observe t sh)) = us_store sh"
  by (simp add: notify_observer_def)

lemma publish_snapshot_store [simp]: "us_store (fst (publish_snapshot observe sh)) = us_store sh"
  by (simp add: publish_snapshot_def split: sum.splits)

lemma claim_and_publish_store:
  assumes "claim_and_publish locks observe now sh = (sh', r)"
  obtains (same) "us_store sh' = us_store sh" "\<not> (\<exists>c d. r = Inr (Some c, d))"
  | (claimed) claim where "claim_due now (us_store sh) = Inr (Some claim, us_store sh')"
      "(\<exists>d. r = Inr (Some claim, d)) \<or> (\<exists>e. r = Inl e)"
proof (cases "take_locks locks")
  case (Inl e)
  then show thesis using assms same by (auto simp: claim_and_publish_def)
next
  case (Inr u)
  show thesis
  proof (cases "claim_due now (us_store sh)")
    case (Inl e)
    then show thesis using assms same Inr by (auto simp: claim_and_publish_def)
  next
    case run: (Inr p)
    obtain claim store where p: "p = (claim, store)" by (cases p)
    show thesis
    proof (cases claim)
      case None
      then have "store = us_store sh" using run p by (auto elim: claim_due_Inr)
      then show thesis using assms same Inr run p None
        by (auto simp: claim_and_publish_def Let_def split: sum.splits)
    next
      case (Some c)
      have "us_store sh' = store"
        using assms Inr run p Some
        by (auto simp: claim_and_publish_def Let_def notify_observer_def split: sum.splits prod.splits)
      moreover have "(\<exists>d. r = Inr (Some c, d)) \<or> (\<exists>e. r = Inl e)"
        using assms Inr run p Some
        by (auto simp: claim_and_publish_def Let_def split: sum.splits prod.splits)
      ultimately show thesis using claimed run p Some by simp
    qed
  qed
qed

lemma publish_snapshot_same: "publish_snapshot observe sh = (sh', r) \<Longrightarrow> us_store sh' = us_store sh"
  using publish_snapshot_store [of observe sh] by simp

lemma release_and_publish_store:
  assumes "release_and_publish locks observe claim t sh = (sh', r)"
  shows "us_store sh' = us_store sh \<and> (\<exists>e. r = Inl e)
    \<or> release_claim claim t (us_store sh) = Inr (us_store sh')"
proof (cases "take_locks locks")
  case (Inl e)
  then have "sh' = sh" "r = Inl e" using assms by (simp_all add: release_and_publish_def)
  then show ?thesis by blast
next
  case (Inr u)
  then show ?thesis using assms
    by (auto simp: release_and_publish_def split: sum.splits dest: publish_snapshot_same)
qed

definition finishes :: "claimed_upload \<Rightarrow> upload_store \<Rightarrow> upload_store \<Rightarrow> bool" where
  "finishes claim s s' \<longleftrightarrow>
     (\<exists>now status. mark_completed claim now status s = Inr s')
     \<or> (\<exists>now status err. mark_permanently_failed claim now status err s = Inr s')
     \<or> (\<exists>now next status err. mark_retrying claim now next status err s = Inr s')"

lemma persist_outcome_finishes:
  "persist_outcome schedule claim outcome finished_at s = Inr (s', e) \<Longrightarrow> finishes claim s s'"
  by (auto simp: persist_outcome_def finishes_def Let_def
      split: attempt_outcome.splits sum.splits option.splits)

lemma persist_and_publish_store:
  assumes "persist_outcome_and_publish locks observe schedule claim outcome finished_at sh = (sh', r)"
  shows "us_store sh' = us_store sh \<and> (\<exists>e. r = Inl e) \<or> finishes claim (us_store sh) (us_store sh')"
proof (cases "take_locks locks")
  case (Inl e)
  then have "sh' = sh" "r = Inl e" using assms by (simp_all add: persist_outcome_and_publish_def)
  then show ?thesis by blast
next
  case (Inr u)
  then show ?thesis using assms
    by (auto simp: persist_outcome_and_publish_def split: sum.splits prod.splits option.splits
        dest!: publish_snapshot_same dest: persist_outcome_finishes)
qed

lemma record_and_publish_store:
  assumes "record_and_publish fs sha locks observe clock path sh = (sh', r)"
  shows "us_store sh' = us_store sh
    \<or> (\<exists>now out. record_artifact fs sha path now (us_store sh) = Inr (out, us_store sh'))"
  using assms
  by (auto simp: record_and_publish_def split: sum.splits prod.splits dest!: publish_snapshot_same)

lemma requeue_and_publish_store:
  assumes "requeue_and_publish fs sha locks observe request now sh = (sh', r)"
  shows "us_store sh' = us_store sh
    \<or> (\<exists>out. requeue_permanently_failed fs sha request now (us_store sh) = Inr (out, us_store sh'))"
  using assms
  by (auto simp: requeue_and_publish_def split: sum.splits prod.splits dest!: publish_snapshot_same)

lemma wake_try_send_shared [simp]: "sv_shared (snd (wake_try_send sv)) = sv_shared sv"
  "sv_phase (snd (wake_try_send sv)) = sv_phase sv"
  by (simp_all add: wake_try_send_def)

lemma wake_try_send_same:
  "wake_try_send sv = (r, sv') \<Longrightarrow> sv_shared sv' = sv_shared sv \<and> sv_phase sv' = sv_phase sv"
  using wake_try_send_shared [of sv] by simp

lemma upload_request_stop_shared [simp]: "sv_shared (upload_request_stop sv) = sv_shared sv"
  "sv_phase (upload_request_stop sv) = sv_phase sv"
  by (simp_all add: upload_request_stop_def)

lemma try_enqueue_shared:
  assumes "try_enqueue fs sha locks observe clock path sv = (sv', r)"
  shows "sv_phase sv' = sv_phase sv"
    and "sv_store sv' = sv_store sv
      \<or> (\<exists>now out. record_artifact fs sha path now (sv_store sv) = Inr (out, sv_store sv'))"
proof -
  obtain sh q where run: "record_and_publish fs sha locks observe clock path (sv_shared sv) = (sh, q)"
    by fastforce
  have "sv_shared sv' = sh \<and> sv_phase sv' = sv_phase sv"
    using assms run
    by (auto simp: try_enqueue_def Let_def split: sum.splits if_splits option.splits prod.splits
        dest!: wake_try_send_same)
  then show "sv_phase sv' = sv_phase sv"
    and "sv_store sv' = sv_store sv
      \<or> (\<exists>now out. record_artifact fs sha path now (sv_store sv) = Inr (out, sv_store sv'))"
    using record_and_publish_store [OF run] by auto
qed

lemma requeue_and_wake_shared:
  assumes "requeue_and_wake fs sha locks observe request now sv = (sv', r)"
  shows "sv_phase sv' = sv_phase sv"
    and "sv_store sv' = sv_store sv
      \<or> (\<exists>out. requeue_permanently_failed fs sha request now (sv_store sv) = Inr (out, sv_store sv'))"
proof -
  obtain sh q where run: "requeue_and_publish fs sha locks observe request now (sv_shared sv) = (sh, q)"
    by fastforce
  have "sv_shared sv' = sh \<and> sv_phase sv' = sv_phase sv"
    using assms run
    by (auto simp: requeue_and_wake_def Let_def split: sum.splits if_splits option.splits prod.splits
        dest!: wake_try_send_same)
  then show "sv_phase sv' = sv_phase sv"
    and "sv_store sv' = sv_store sv
      \<or> (\<exists>out. requeue_permanently_failed fs sha request now (sv_store sv) = Inr (out, sv_store sv'))"
    using requeue_and_publish_store [OF run] by auto
qed

subsection \<open>The invariant of the worker\<close>

text \<open>
  Nothing is in progress, or exactly the claim the worker holds is: \<open>only_claim\<close> says that its
  row matches and that no other row is in progress.
\<close>

definition progress_free :: "upload_store \<Rightarrow> bool" where
  "progress_free s \<longleftrightarrow> (\<forall>r \<in> set (s_jobs s). j_state r \<noteq> ''in_progress'')"

definition only_claim :: "claimed_upload \<Rightarrow> upload_store \<Rightarrow> bool" where
  "only_claim claim s \<longleftrightarrow> claim_valid claim s
     \<and> (\<forall>r \<in> set (s_jobs s). j_state r = ''in_progress'' \<longrightarrow>
          claim_matches claim (int (c_attempt_count claim)) r)"

definition service_inv :: "(u8 list \<Rightarrow> u8 list) \<Rightarrow> upload_service \<Rightarrow> bool" where
  "service_inv sha sv \<longleftrightarrow> store_inv sha (sv_store sv)
     \<and> (case sv_phase sv of
          Claimed claim t \<Rightarrow> only_claim claim (sv_store sv)
        | Uploading claim t \<Rightarrow> only_claim claim (sv_store sv)
        | LoopReturned _ \<Rightarrow> True
        | ThreadEnded _ \<Rightarrow> True
        | _ \<Rightarrow> progress_free (sv_store sv))"

lemma claim_due_only:
  assumes "claim_due now s = Inr (Some claim, s')" and "store_inv sha s" and "progress_free s"
  shows "only_claim claim s'"
proof -
  from claim_due_moves [OF assms(1,2)] obtain i where i: "i < length (s_jobs s)"
    "claim_matches claim (int (c_attempt_count claim)) (s_jobs s' ! i)"
    and jobs: "\<exists>q. s_jobs s' = (s_jobs s)[i := q]" by metis
  then have len: "i < length (s_jobs s')" by auto
  have "claim_matches claim (int (c_attempt_count claim)) r"
    if r: "r \<in> set (s_jobs s')" "j_state r = ''in_progress''" for r
  proof -
    obtain k where k: "k < length (s_jobs s')" "r = s_jobs s' ! k" using r(1) by (auto simp: in_set_conv_nth)
    have "k = i"
    proof (rule ccontr)
      assume "k \<noteq> i"
      then have "r = s_jobs s ! k" "k < length (s_jobs s)" using jobs k by auto
      then have "r \<in> set (s_jobs s)" by simp
      then show False using assms(3) r(2) by (simp add: progress_free_def)
    qed
    then show ?thesis using i(2) k(2) by simp
  qed
  moreover have "claim_valid claim s'" using i(2) len nth_mem by (auto simp: claim_valid_def)
  ultimately show ?thesis by (simp add: only_claim_def)
qed

lemma finishing_update:
  assumes run: "sql_update_jobs columns (claim_matches claim (int (c_attempt_count claim))) assign (s_db s) = Inr (db, n)"
    and only: "only_claim claim s" and out: "\<And>r. j_state (assign r) \<noteq> ''in_progress''"
  shows "progress_free (s\<lparr>s_db := db\<rparr>)"
  using sql_update_jobs_effect(1) [OF run] only out
  by (auto simp: progress_free_def only_claim_def)

lemma release_frees:
  "release_claim claim now s = Inr s' \<Longrightarrow> only_claim claim s \<Longrightarrow> progress_free s'"
  by (auto simp: release_claim_def result_simps attempt_count_Inr intro: finishing_update)

lemma finishes_frees: "finishes claim s s' \<Longrightarrow> only_claim claim s \<Longrightarrow> progress_free s'"
  by (auto simp: finishes_def mark_completed_def mark_permanently_failed_def mark_retrying_def
      result_simps attempt_count_Inr intro: finishing_update)

text \<open>Recording and requeueing leave every row that is in progress alone.\<close>

definition progress_same :: "upload_store \<Rightarrow> upload_store \<Rightarrow> bool" where
  "progress_same s s' \<longleftrightarrow>
     filter (\<lambda>r. j_state r = ''in_progress'') (s_jobs s')
       = filter (\<lambda>r. j_state r = ''in_progress'') (s_jobs s)"

lemma progress_same_set:
  assumes "progress_same s s'"
  shows "r \<in> set (s_jobs s') \<and> j_state r = ''in_progress'' \<longleftrightarrow>
    r \<in> set (s_jobs s) \<and> j_state r = ''in_progress''"
proof -
  have "r \<in> set (filter (\<lambda>r. j_state r = ''in_progress'') (s_jobs s'))
      \<longleftrightarrow> r \<in> set (filter (\<lambda>r. j_state r = ''in_progress'') (s_jobs s))"
    using assms by (simp add: progress_same_def)
  then show ?thesis by auto
qed

lemma progress_same_keeps:
  assumes "progress_same s s'"
  shows "progress_free s \<Longrightarrow> progress_free s'" and "only_claim claim s \<Longrightarrow> only_claim claim s'"
  using progress_same_set [OF assms]
  by (auto simp: progress_free_def only_claim_def claim_valid_def claim_matches_def)

lemma filter_map_outside:
  "\<forall>r \<in> set xs. c r \<longrightarrow> \<not> P r \<and> \<not> P (f r) \<Longrightarrow>
     filter P (map (\<lambda>r. if c r then f r else r) xs) = filter P xs"
  by (induction xs) auto

lemma record_same:
  assumes "record_artifact fs sha path now s = Inr (out, s')"
  shows "progress_same s s'"
proof -
  obtain job_id disposition where "out = (job_id, disposition)" by (cases out)
  with assms have "record_artifact fs sha path now s = Inr ((job_id, disposition), s')" by simp
  then show ?thesis
  proof (cases rule: record_artifact_Inr)
    case (1 vals db n)
    then show ?thesis using sql_insert_job_effect [OF 1(2)]
      by (auto simp: progress_same_def new_job_def)
  qed
qed

lemma requeue_same:
  assumes "requeue_permanently_failed fs sha request now s = Inr (out, s')"
  shows "progress_same s s'"
  using assms
proof (cases rule: requeue_Inr)
  case (1 raw sz f db)
  show ?thesis
    unfolding progress_same_def 1(10) using sql_update_jobs_effect(1) [OF 1(9)]
    by (simp add: filter_map_outside)
qed

subsection \<open>Start and steps\<close>

lemma reconcile_record_runs:
  "reconcile_record fs sha now paths result s = (s', r) \<Longrightarrow>
     ledger_steps sha s s' \<and> progress_same s s'"
proof (induction paths arbitrary: result s)
  case (Cons path paths)
  show ?case
  proof (cases "record_artifact fs sha path now s")
    case (Inl e)
    then show ?thesis using Cons.prems by (simp add: progress_same_def)
  next
    case (Inr p)
    obtain job_id disposition t where p: "p = ((job_id, disposition), t)" by (metis prod.collapse)
    have one: "ledger_step sha s t" "progress_same s t"
      using Inr p by (auto intro: ledger_step.recorded record_same)
    have "s' = t \<or> (\<exists>result. reconcile_record fs sha now paths result t = (s', r))"
      using Cons.prems by (auto simp: Inr p split: record_disposition.splits sum.splits)
    then show ?thesis
    proof
      assume "s' = t"
      with one show ?thesis by auto
    next
      assume "\<exists>result. reconcile_record fs sha now paths result t = (s', r)"
      then have "ledger_steps sha t s'" "progress_same t s'" using Cons.IH by blast+
      with one show ?thesis by (auto simp: progress_same_def intro: converse_rtranclp_into_rtranclp)
    qed
  qed
qed (simp add: progress_same_def)

lemma reconcile_runs:
  assumes "reconcile_capture_directory fs sha now s = (s', r)"
  shows "ledger_steps sha s s' \<and> progress_same s s'"
  using assms reconcile_record_runs
  by (auto simp: reconcile_capture_directory_def progress_same_def split: sum.splits prod.splits)

lemma start_with_transport_Inr:
  assumes "start_with_transport capacity clock env fs sha endpoint schema dir destination authorization
      observe file = (file', Inr sv)"
  obtains file1 s1 where
    "open_store env fs sha endpoint schema dir destination authorization file = (file1, Inr s1)"
    "ledger_steps sha s1 (sv_store sv)" "progress_same s1 (sv_store sv)" "sv_phase sv = LoopTop"
  using assms
  by (auto simp: start_with_transport_def split: if_splits sum.splits prod.splits
      dest!: publish_snapshot_same reconcile_runs)

lemma service_init_reach:
  assumes "service_init sha sv"
  shows "\<exists>s0. ledger_init sha s0 \<and> ledger_steps sha s0 (sv_store sv)"
    and "sv_phase sv = LoopTop \<and> progress_free (sv_store sv)"
proof -
  have "(\<exists>s0. ledger_init sha s0 \<and> ledger_steps sha s0 (sv_store sv))
      \<and> sv_phase sv = LoopTop \<and> progress_free (sv_store sv)"
    using assms
  proof cases
    case (first f fs capacity clock env endpoint schema dir destination authorization observe f')
    from first(4) show ?thesis
    proof (cases rule: start_with_transport_Inr)
      case (1 f1 s1)
      have init: "ledger_init sha s1" by (rule ledger_init.opened [OF first(1-3) 1(1)])
      then have "progress_free s1" using ledger_init_inv by (simp add: progress_free_def)
      then show ?thesis using init 1 progress_same_keeps(1) by blast
    qed
  next
    case (again s0 s f capacity clock env fs endpoint schema dir destination authorization observe f')
    from again(4) show ?thesis
    proof (cases rule: start_with_transport_Inr)
      case (1 f1 s1)
      have inv: "store_inv sha s" by (rule ledger.reachable_inv [OF again(1,2)])
      have "ledger_step sha s s1" by (rule ledger_step.reopened [OF again(3) 1(1)])
      then have "ledger_steps sha s0 (sv_store sv)"
        using again(2) 1(2) by (meson rtranclp.rtrancl_into_rtrancl rtranclp_trans)
      moreover have "progress_free s1"
        using reopen_effect(1) [OF 1(1) again(3) inv] by (auto simp: progress_free_def recovered_job_def)
      ultimately show ?thesis using again(1) 1(3,4) progress_same_keeps(1) by blast
    qed
  qed
  then show "\<exists>s0. ledger_init sha s0 \<and> ledger_steps sha s0 (sv_store sv)"
    and "sv_phase sv = LoopTop \<and> progress_free (sv_store sv)" by blast+
qed

lemma finishes_step: "finishes claim s s' \<Longrightarrow> ledger_step sha s s'"
  by (auto simp: finishes_def intro: ledger_step.intros)

text \<open>One step of the service: a run of the ledger, and the worker's hold on its claim.\<close>

lemma service_step_effect:
  assumes "service_step sha sv sv'"
  shows "ledger_steps sha (sv_store sv) (sv_store sv')"
    and "service_inv sha sv \<Longrightarrow> service_inv sha sv'"
proof -
  have "ledger_steps sha (sv_store sv) (sv_store sv') \<and> (service_inv sha sv \<longrightarrow>
      (case sv_phase sv' of
          Claimed claim t \<Rightarrow> only_claim claim (sv_store sv')
        | Uploading claim t \<Rightarrow> only_claim claim (sv_store sv')
        | LoopReturned _ \<Rightarrow> True
        | ThreadEnded _ \<Rightarrow> True
        | _ \<Rightarrow> progress_free (sv_store sv')))"
    using assms
  proof cases
    case (top locks observe clock)
    show ?thesis
    proof (cases "sv_stop sv \<or> (\<exists>e. clock = Inl e)")
      case True
      then show ?thesis using top by (auto simp: loop_top_def)
    next
      case False
      then obtain now where now: "clock = Inr now" "\<not> sv_stop sv" by (cases clock) auto
      obtain sh r where run: "claim_and_publish locks observe now (sv_shared sv) = (sh, r)" by fastforce
      then show ?thesis
      proof (cases rule: claim_and_publish_store)
        case same
        then show ?thesis using top now run
          by (auto simp: loop_top_def service_inv_def split: sum.splits option.splits)
      next
        case (claimed claim)
        then have "ledger_step sha (sv_store sv) (us_store sh)" by (auto intro: ledger_step.claimed)
        then show ?thesis using top now run claimed claim_due_only [OF claimed(1)]
          by (auto simp: loop_top_def service_inv_def)
      qed
    qed
  next
    case (wait ms received)
    then show ?thesis by (auto simp: loop_wait_def service_inv_def split: wake_reception.splits)
  next
    case (claimed claim t locks observe)
    show ?thesis
    proof (cases "sv_stop sv")
      case True
      obtain sh r where run: "release_and_publish locks observe claim t (sv_shared sv) = (sh, r)" by fastforce
      have "ledger_steps sha (sv_store sv) (us_store sh)"
        using release_and_publish_store [OF run] by (auto intro: ledger_step.released)
      then show ?thesis using claimed True run by (auto simp: loop_claimed_def split: sum.splits)
    next
      case False
      then show ?thesis using claimed by (simp add: loop_claimed_def service_inv_def)
    qed
  next
    case (attempted claim t outcome fs rd header_ok authorization agent locks observe clock)
    obtain at e where at: "(case clock of Inr now \<Rightarrow> (now, None) | Inl e \<Rightarrow> (t, Some e)) = (at, e)" by fastforce
    obtain sh r where run: "persist_outcome_and_publish locks observe retry_delays claim outcome at (sv_shared sv)
        = (sh, r)" by fastforce
    have "ledger_steps sha (sv_store sv) (us_store sh)"
      using persist_and_publish_store [OF run] finishes_step by fastforce
    then show ?thesis using attempted at run persist_and_publish_store [OF run] finishes_frees
      by (auto simp: loop_persist_def service_inv_def split: sum.splits option.splits)
  next
    case persisted
    then show ?thesis by (auto simp: loop_persisted_def service_inv_def)
  next
    case (ended result)
    then show ?thesis by (auto simp: upload_stop_on_drop_def)
  next
    case (enqueued fs locks observe clock path r)
    note effect = try_enqueue_shared [OF enqueued]
    have "sv_store sv' = sv_store sv \<or> ledger_step sha (sv_store sv) (sv_store sv')
        \<and> progress_same (sv_store sv) (sv_store sv')"
      using effect(2) by (auto intro: ledger_step.recorded record_same)
    then show ?thesis using effect(1) progress_same_keeps
      by (auto simp: service_inv_def split: worker_phase.splits)
  next
    case (requeued fs locks observe request now r)
    note effect = requeue_and_wake_shared [OF requeued]
    have "sv_store sv' = sv_store sv \<or> ledger_step sha (sv_store sv) (sv_store sv')
        \<and> progress_same (sv_store sv) (sv_store sv')"
      using effect(2) by (auto intro: ledger_step.requeued requeue_same)
    then show ?thesis using effect(1) progress_same_keeps
      by (auto simp: service_inv_def split: worker_phase.splits)
  next
    case stopped
    then show ?thesis by (auto simp: service_inv_def split: worker_phase.splits)
  qed
  note facts = this
  then show steps: "ledger_steps sha (sv_store sv) (sv_store sv')" by blast
  show "service_inv sha sv'" if "service_inv sha sv"
  proof -
    have "store_inv sha (sv_store sv)" using that by (simp add: service_inv_def)
    then have "store_inv sha (sv_store sv')" using ledger.steps_inv [OF steps] by blast
    then show ?thesis using facts that by (simp add: service_inv_def)
  qed
qed

interpretation service: step_system "service_init sha" "service_step sha" "service_inv sha" for sha
proof (unfold_locales, goal_cases)
  case (1 sv)
  from service_init_reach [OF 1] obtain s0 where
    "ledger_init sha s0" "ledger_steps sha s0 (sv_store sv)"
    and top: "sv_phase sv = LoopTop" "progress_free (sv_store sv)" by blast
  then have "store_inv sha (sv_store sv)" by (blast intro: ledger.reachable_inv)
  with top show ?case by (simp add: service_inv_def)
next
  case (2 sv sv')
  then show ?case by (rule service_step_effect(2))
qed

interpretation upload_service: refinement "ledger_init sha" "ledger_step sha" "store_inv sha"
  "service_init sha" "service_step sha" "\<lambda>sv. us_store (sv_shared sv)" for sha
  by unfold_locales (auto dest: service_init_reach(1) service_step_effect(1))


text \<open>C15: the worker owns what is in progress: as long as its loop runs, no job is in progress
  except the one it holds a claim for, and that claim is valid, so no other thread can have taken,
  released or finished it.\<close>

theorem worker_owns_progress:
  assumes "service_init sha sv0" and "(service_step sha)\<^sup>*\<^sup>* sv0 sv"
  shows "(sv_phase sv \<in> {LoopTop, Persisted} \<longrightarrow> in_state InProgress (sv_store sv) = 0)
    \<and> (\<forall>claim t. sv_phase sv \<in> {Claimed claim t, Uploading claim t} \<longrightarrow>
         claim_valid claim (sv_store sv) \<and> in_state InProgress (sv_store sv) = 1)"
proof -
  have inv: "service_inv sha sv" by (rule service.reachable_inv [OF assms])
  have none: "in_state InProgress s = 0" if "progress_free s" for s
    using that by (simp add: in_state_def progress_free_def)
  have one: "in_state InProgress s = 1" if "only_claim claim s" "store_inv sha s" for claim s
  proof -
    note held = that
    from held(1) obtain r where r: "r \<in> set (s_jobs s)"
      and match: "claim_matches claim (int (c_attempt_count claim)) r"
      and others: "\<forall>q \<in> set (s_jobs s). j_state q = ''in_progress'' \<longrightarrow>
        claim_matches claim (int (c_attempt_count claim)) q"
      by (auto simp: only_claim_def claim_valid_def)
    obtain before after where split: "s_jobs s = before @ r # after"
      and ids: "\<And>q. q \<in> set before \<union> set after \<Longrightarrow> j_id q \<noteq> j_id r"
      using split_at [OF store_inv_ledger [OF held(2)] r] by blast
    have "\<forall>q \<in> set before \<union> set after. j_state q \<noteq> ''in_progress''"
      using others ids match by (auto simp: split claim_matches_def)
    then show ?thesis using match by (auto simp: in_state_def split claim_matches_def)
  qed
  show ?thesis using inv none one
    by (auto simp: service_inv_def only_claim_def)
qed

end
