(* ===== verification/UploadOutcomes.thy ===== *)
theory UploadOutcomes
  imports UploadWorker
begin

text \<open>
  How an upload attempt ends: the statements that record its outcome succeed while the claim is
  held, the delay before a retry is bounded, and the one outcome the ledger refuses. The theory
  closes with a concrete run of the service on which its properties are exercised.
\<close>

subsection \<open>Outcomes are recorded\<close>

lemma finish_trigger_runs:
  assumes inv: "ledger_inv db" and r: "r \<in> set (db_jobs db)" "j_state r = ''in_progress''"
    and room: "m_ledger_revision (db_meta db) < i64_max" "int (length (db_jobs db)) < i64_max"
    and q: "job_in_range q" "job_checks q" "j_state q \<noteq> ''in_progress''"
  shows "\<exists>m'. after_update_trigger r q (db_meta db) = Inr m'"
proof -
  obtain before after where split: "db_jobs db = before @ r # after" using r(1) by (meson split_list)
  have count: "1 \<le> count_state ''in_progress'' (db_jobs db)"
    using r(2) count_state_nonneg [of "''in_progress''" before] count_state_nonneg [of "''in_progress''" after]
    by (simp add: b2i_def split)
  have above: "- 9223372036854775808 \<le> count_state st (db_jobs db)" for st
    by (rule order_trans [OF _ count_state_nonneg]) simp
  have bound: "count_state st (db_jobs db) < i64_max" for st
    using state_count_le [of st "db_jobs db"] room(2) by simp
  have times: "opt_nonneg (j_completed_at q)" "opt_nonneg (j_last_failure_at q)"
    "opt_in_i64 (j_completed_at q)" "opt_in_i64 (j_last_failure_at q)"
    using q by (simp_all add: job_checks_def job_in_range_def)
  have "meta_in_range (db_meta db)" "meta_checks (db_meta db)" and c: "counters_exact db"
    using inv by (simp_all add: ledger_inv_def)
  moreover have "count_state st (db_jobs db) + 1 \<le> i64_max" "count_state st (db_jobs db) \<le> i64_max"
    "- 9223372036854775808 \<le> count_state st (db_jobs db) + 1" for st
    using bound [of st] above [of st] by linarith+
  moreover have "- 9223372036854775808 \<le> count_state ''in_progress'' (db_jobs db) - 1"
    "count_state ''in_progress'' (db_jobs db) - 1 \<le> i64_max" "0 \<le> count_state ''in_progress'' (db_jobs db) - 1"
    using count bound [of "''in_progress''"] by linarith+
  ultimately show ?thesis
    using r(2) q(3) room(1) times
    by (simp add: after_update_trigger_def check_meta_Inr above
        meta_in_range_def meta_checks_def in_i64_def i64_min_def counters_exact_def b2i_def)
      (use bound [of "''in_progress''"] in linarith)
qed

lemma finish_runs:
  assumes inv: "store_inv sha s" and r: "r \<in> set (s_jobs s)"
    and match: "claim_matches claim (int (c_attempt_count claim)) r"
    and room: "ledger_revision s < i64_max" "int (length (s_jobs s)) < i64_max"
    and assign: "job_in_range (assign r)" "job_checks (assign r)" "j_state (assign r) \<noteq> ''in_progress''"
      "j_job_revision (assign r) = j_job_revision r + 1"
    and columns: "\<forall>c \<in> set columns. c \<notin> identity_columns"
  shows "\<exists>db. sql_update_jobs columns (claim_matches claim (int (c_attempt_count claim))) assign (s_db s)
      = Inr (db, 1) \<and> assign r \<in> set (db_jobs db)"
proof -
  have state: "j_state r = ''in_progress''" using match by (simp add: claim_matches_def)
  obtain m' where trigger: "after_update_trigger r (assign r) (db_meta (s_db s)) = Inr m'"
    using finish_trigger_runs [OF store_inv_ledger [OF inv] r state room assign(1-3)] by blast
  obtain before after where split: "s_jobs s = before @ r # after"
    and others: "\<And>q. q \<in> set before \<union> set after \<Longrightarrow> j_id q \<noteq> j_id r"
    using split_at [OF store_inv_ledger [OF inv] r] by blast
  have "sql_update_rows columns (claim_matches claim (int (c_attempt_count claim))) assign
      (db_meta (s_db s)) (before @ r # after) = Inr (m', before @ assign r # after, 1)"
    by (rule sql_update_rows_one)
      (use others match assign columns trigger in \<open>auto simp: claim_matches_def\<close>)
  then show ?thesis by (simp add: sql_update_jobs_def split)
qed

lemma attempt_count_runs:
  assumes "store_inv sha s" and "r \<in> set (s_jobs s)"
    and "claim_matches claim (int (c_attempt_count claim)) r"
  shows "attempt_count_to_database claim = Inr (int (c_attempt_count claim))"
  using store_inv_job(2) [OF assms(1,2)] assms(3)
  by (auto simp: attempt_count_to_database_def claim_matches_def job_in_range_def in_i64_def)

text \<open>The three ways an attempt ends, and the row each leaves.\<close>

definition recordable :: "nat option \<Rightarrow> bool" where
  "recordable status \<longleftrightarrow> (case status of None \<Rightarrow> True | Some st \<Rightarrow> 100 \<le> st \<and> st \<le> 599)"

definition completed_row :: "nat \<Rightarrow> nat \<Rightarrow> upload_job \<Rightarrow> upload_job" where
  "completed_row at status r = r\<lparr>j_state := ''completed'', j_next_attempt_at := None,
     j_last_http_status := Some (int status), j_updated_at := int at, j_completed_at := Some (int at),
     j_job_revision := j_job_revision r + 1\<rparr>"

definition failed_row :: "nat \<Rightarrow> nat option \<Rightarrow> string option \<Rightarrow> upload_job \<Rightarrow> upload_job" where
  "failed_row at status err r = r\<lparr>j_state := ''permanently_failed'', j_next_attempt_at := None,
     j_last_http_status := map_option int status, j_last_error := err, j_updated_at := int at,
     j_last_failure_at := Some (int at), j_job_revision := j_job_revision r + 1\<rparr>"

definition retrying_row :: "nat \<Rightarrow> nat \<Rightarrow> nat option \<Rightarrow> string option \<Rightarrow> upload_job \<Rightarrow> upload_job" where
  "retrying_row at next status err r = r\<lparr>j_state := ''retrying'', j_next_attempt_at := Some (int next),
     j_last_http_status := map_option int status, j_last_error := err, j_updated_at := int at,
     j_last_failure_at := Some (int at), j_job_revision := j_job_revision r + 1\<rparr>"

lemmas outcome_rows = completed_row_def failed_row_def retrying_row_def

lemma outcome_rows_ok:
  assumes "job_in_range r" "job_checks r" and "j_state r = ''in_progress''"
    and "j_job_revision r < i64_max" and "int at \<le> i64_max" and "recordable status"
  shows "job_in_range (failed_row at status err r)" and "job_checks (failed_row at status err r)"
    and "status = Some st \<Longrightarrow> job_in_range (completed_row at st r)"
    and "status = Some st \<Longrightarrow> job_checks (completed_row at st r)"
    and "int next \<le> i64_max \<Longrightarrow> job_in_range (retrying_row at next status err r)"
    and "int next \<le> i64_max \<Longrightarrow> job_checks (retrying_row at next status err r)"
  using assms
  by (auto simp: outcome_rows job_in_range_def job_checks_def in_i64_def opt_in_i64_def opt_nonneg_def
      i64_min_def i64_max_def recordable_def split: option.splits)

definition failure_columns :: "string list" where
  "failure_columns = [''state'', ''next_attempt_at_ms'', ''last_http_status'', ''last_error'',
     ''updated_at_ms'', ''last_failure_at_ms'', ''job_revision'']"

definition success_columns :: "string list" where
  "success_columns = [''state'', ''next_attempt_at_ms'', ''last_http_status'', ''updated_at_ms'',
     ''completed_at_ms'', ''job_revision'']"

text \<open>A finishing statement whose update changes one row succeeds.\<close>

lemma marks_after_update:
  assumes at: "int at \<le> i64_max"
    and count: "attempt_count_to_database claim = Inr (int (c_attempt_count claim))"
  shows "sql_update_jobs failure_columns (claim_matches claim (int (c_attempt_count claim)))
      (failed_row at status err) (s_db s) = Inr (db, 1) \<Longrightarrow>
      mark_permanently_failed claim at status err s = Inr (s\<lparr>s_db := db\<rparr>)"
    and "sql_update_jobs success_columns (claim_matches claim (int (c_attempt_count claim)))
      (completed_row at st) (s_db s) = Inr (db, 1) \<Longrightarrow>
      mark_completed claim at st s = Inr (s\<lparr>s_db := db\<rparr>)"
    and "sql_update_jobs failure_columns (claim_matches claim (int (c_attempt_count claim)))
      (retrying_row at next status err) (s_db s) = Inr (db, 1) \<Longrightarrow> int next \<le> i64_max \<Longrightarrow>
      mark_retrying claim at next status err s = Inr (s\<lparr>s_db := db\<rparr>)"
  using at count
  unfolding mark_permanently_failed_def mark_completed_def mark_retrying_def failure_columns_def
    success_columns_def failed_row_def [abs_def] completed_row_def [abs_def] retrying_row_def [abs_def]
  by (simp_all add: unix_ms_to_database_def ensure_transition_def)

lemma marks_run:
  assumes inv: "store_inv sha s" and r: "r \<in> set (s_jobs s)"
    and match: "claim_matches claim (int (c_attempt_count claim)) r"
    and room: "ledger_revision s < i64_max" "int (length (s_jobs s)) < i64_max" "j_job_revision r < i64_max"
    and at: "int at \<le> i64_max" and status: "recordable status"
  shows "\<exists>s'. mark_permanently_failed claim at status err s = Inr s' \<and> failed_row at status err r \<in> set (s_jobs s')"
    and "status = Some st \<Longrightarrow> \<exists>s'. mark_completed claim at st s = Inr s' \<and> completed_row at st r \<in> set (s_jobs s')"
    and "int next \<le> i64_max \<Longrightarrow> \<exists>s'. mark_retrying claim at next status err s = Inr s'
      \<and> retrying_row at next status err r \<in> set (s_jobs s')"
proof -
  note row = store_inv_job [OF inv r]
  have state: "j_state r = ''in_progress''" using match by (simp add: claim_matches_def)
  note ok = outcome_rows_ok [OF row(2,1) state room(3) at status]
  note marks = marks_after_update [OF at attempt_count_runs [OF inv r match]]
  have columns: "\<forall>c \<in> set failure_columns. c \<notin> identity_columns" "\<forall>c \<in> set success_columns. c \<notin> identity_columns"
    by (simp_all add: identity_columns_def failure_columns_def success_columns_def)
  note runs = finish_runs [OF inv r match room(1,2)]
  obtain db where "sql_update_jobs failure_columns (claim_matches claim (int (c_attempt_count claim)))
      (failed_row at status err) (s_db s) = Inr (db, 1)" "failed_row at status err r \<in> set (db_jobs db)"
    using runs [where assign = "failed_row at status err", OF ok(1,2) _ _ columns(1)]
    by (auto simp: failed_row_def)
  then show "\<exists>s'. mark_permanently_failed claim at status err s = Inr s' \<and> failed_row at status err r \<in> set (s_jobs s')"
    using marks(1) by force
  show "\<exists>s'. mark_completed claim at st s = Inr s' \<and> completed_row at st r \<in> set (s_jobs s')" if st: "status = Some st"
  proof -
    obtain db where "sql_update_jobs success_columns (claim_matches claim (int (c_attempt_count claim)))
        (completed_row at st) (s_db s) = Inr (db, 1)" "completed_row at st r \<in> set (db_jobs db)"
      using runs [where assign = "completed_row at st", OF ok(3,4) [OF st] _ _ columns(2)]
      by (auto simp: completed_row_def)
    then show ?thesis using marks(2) by force
  qed
  show "\<exists>s'. mark_retrying claim at next status err s = Inr s' \<and> retrying_row at next status err r \<in> set (s_jobs s')"
    if later: "int next \<le> i64_max"
  proof -
    obtain db where "sql_update_jobs failure_columns (claim_matches claim (int (c_attempt_count claim)))
        (retrying_row at next status err) (s_db s) = Inr (db, 1)" "retrying_row at next status err r \<in> set (db_jobs db)"
      using runs [where assign = "retrying_row at next status err", OF ok(5,6) [OF later] _ _ columns(1)]
      by (auto simp: retrying_row_def)
    then show ?thesis using marks(3) [OF _ later] by force
  qed
qed

subsection \<open>Retry times\<close>

lemma jitter_range: "80 + unat ((x :: 64 word) mod 41) \<in> {80..120}"
proof -
  have "unat (x mod 41) = unat x mod 41" by (simp add: unat_mod)
  then show ?thesis by simp
qed

text \<open>Every retry is spaced as documented: the delay lies within twenty per cent of the step of
  the schedule for that attempt, is never longer than five minutes, and honours what the server
  asked for up to that limit.\<close>

lemma retry_delay_is_bounded:
  "let base = retry_delays ! min (attempt_count - 1) 6;
       delay = retry_delay retry_delays attempt_count seed retry_after
   in delay \<le> 300000 \<and> min (base * 80 div 100) 300000 \<le> delay
      \<and> (case retry_after of None \<Rightarrow> delay \<le> base * 120 div 100 | Some ms \<Rightarrow> min ms 300000 \<le> delay)"
proof -
  define base where "base = retry_delays ! min (attempt_count - 1) 6"
  define percent where "percent = 80 + unat (mix64 (seed XOR of_nat (attempt_count - 1)) mod 41)"
  have percent: "80 \<le> percent" "percent \<le> 120"
    using jitter_range by (auto simp: percent_def)
  have len: "length retry_delays - 1 = 6" by (simp add: retry_delays_def)
  have delay: "retry_delay retry_delays attempt_count seed retry_after =
      min (max (base * percent div 100) (min (case retry_after of None \<Rightarrow> 0 | Some ms \<Rightarrow> ms) max_retry_delay))
        max_retry_delay"
    unfolding retry_delay_def Let_def len base_def percent_def ..
  have low: "base * 80 div 100 \<le> base * percent div 100" and high: "base * percent div 100 \<le> base * 120 div 100"
    by (intro div_le_mono mult_le_mono2 percent)+
  have max: "max_retry_delay = 300000" by (simp add: max_retry_delay_def)
  show ?thesis
    unfolding Let_def base_def [symmetric] delay max using low high
    by (cases retry_after) auto
qed

lemma retry_delay_le: "retry_delay schedule n seed after \<le> max_retry_delay"
  by (simp add: retry_delay_def Let_def)

subsection \<open>The end of an attempt\<close>

fun outcome_status :: "attempt_outcome \<Rightarrow> nat option" where
  "outcome_status (AttemptSuccess status) = Some status"
| "outcome_status (AttemptRetry status _ _) = status"
| "outcome_status (AttemptPermanent status _) = status"

fun outcome_state :: "attempt_outcome \<Rightarrow> upload_state" where
  "outcome_state (AttemptSuccess _) = Completed"
| "outcome_state (AttemptRetry _ _ _) = Retrying"
| "outcome_state (AttemptPermanent _ _) = PermanentlyFailed"

lemma held_row:
  assumes inv: "service_inv sha sv" and phase: "sv_phase sv = Uploading claim t"
  obtains r where "r \<in> set (s_jobs (sv_store sv))" "claim_matches claim (int (c_attempt_count claim)) r"
    "only_claim claim (sv_store sv)" "store_inv sha (sv_store sv)"
  using assms by (auto simp: service_inv_def only_claim_def claim_valid_def)

text \<open>C16: no attempt is forgotten: when an attempt ends, with any outcome whose HTTP status is below
  600, the claim is still valid and the outcome is recorded, so the job is completed, failed or
  waiting for its retry and no job is left in progress; the only conditions are the ends of the
  64-bit clocks and counters.\<close>

theorem attempt_is_recorded:
  assumes "service_init sha sv0" and "(service_step sha)\<^sup>*\<^sup>* sv0 sv"
    and phase: "sv_phase sv = Uploading claim t"
    and status: "recordable (outcome_status outcome)"
    and at: "int (at + max_retry_delay) \<le> i64_max"
    and room: "ledger_revision (sv_store sv) < i64_max" "int (length (s_jobs (sv_store sv))) < i64_max"
      "\<forall>r \<in> set (s_jobs (sv_store sv)). j_job_revision r < i64_max"
  shows "\<exists>s'. persist_outcome retry_delays claim outcome at (sv_store sv) = Inr (s', None)
    \<and> in_state InProgress s' = 0
    \<and> (\<exists>r \<in> set (s_jobs s'). j_id r = job_id_value (c_job_id claim)
         \<and> j_state r = state_text (outcome_state outcome)
         \<and> j_last_http_status r = map_option int (outcome_status outcome))"
proof -
  let ?s = "sv_store sv"
  have inv: "service_inv sha sv" by (rule service.reachable_inv [OF assms(1,2)])
  from held_row [OF inv phase] obtain r where r: "r \<in> set (s_jobs ?s)"
    and match: "claim_matches claim (int (c_attempt_count claim)) r"
    and only: "only_claim claim ?s" and store: "store_inv sha ?s" by blast
  have now: "int at \<le> i64_max" and revision: "j_job_revision r < i64_max" using at room(3) r by auto
  have id: "j_id r = job_id_value (c_job_id claim)" using match by (simp add: claim_matches_def)
  note run = marks_run [OF store r match room(1,2) revision now status]
  have "\<exists>s'. persist_outcome retry_delays claim outcome at ?s = Inr (s', None)
      \<and> (\<exists>r \<in> set (s_jobs s'). j_id r = job_id_value (c_job_id claim)
         \<and> j_state r = state_text (outcome_state outcome)
         \<and> j_last_http_status r = map_option int (outcome_status outcome))"
  proof (cases outcome)
    case (AttemptSuccess st)
    obtain s' where "mark_completed claim at st ?s = Inr s'" "completed_row at st r \<in> set (s_jobs s')"
      using run(2) [of st] AttemptSuccess by auto
    then show ?thesis using AttemptSuccess id
      by (auto simp: persist_outcome_def completed_row_def intro!: bexI [of _ "completed_row at st r"])
  next
    case (AttemptPermanent st err)
    obtain s' where "mark_permanently_failed claim at st (Some err) ?s = Inr s'"
      "failed_row at st (Some err) r \<in> set (s_jobs s')"
      using run(1) [of "Some err"] AttemptPermanent by auto
    then show ?thesis using AttemptPermanent id
      by (auto simp: persist_outcome_def failed_row_def intro!: bexI [of _ "failed_row at st (Some err) r"])
  next
    case (AttemptRetry st retry_after err)
    define delay where "delay = retry_delay retry_delays (c_attempt_count claim)
      (fnv1a (string_bytes (c_idempotency_key claim))) retry_after"
    have "delay \<le> max_retry_delay" unfolding delay_def by (rule retry_delay_le)
    then have later: "int (at + delay) \<le> i64_max" using at by linarith
    then have sum: "checked_add_u64 at delay = Some (at + delay)"
      by (simp add: checked_add_u64_def i64_max_def u64_max_def)
    obtain s' where "mark_retrying claim at (at + delay) st (Some err) ?s = Inr s'"
      "retrying_row at (at + delay) st (Some err) r \<in> set (s_jobs s')"
      using run(3) [OF later, of "Some err"] AttemptRetry by auto
    then show ?thesis using AttemptRetry id sum
      by (auto simp: persist_outcome_def delay_def [symmetric] retrying_row_def
          intro!: bexI [of _ "retrying_row at (at + delay) st (Some err) r"])
  qed
  then obtain s' where s': "persist_outcome retry_delays claim outcome at ?s = Inr (s', None)"
    "\<exists>r \<in> set (s_jobs s'). j_id r = job_id_value (c_job_id claim)
         \<and> j_state r = state_text (outcome_state outcome)
         \<and> j_last_http_status r = map_option int (outcome_status outcome)" by blast
  have "progress_free s'" by (rule finishes_frees [OF persist_outcome_finishes [OF s'(1)] only])
  then have "in_state InProgress s' = 0" by (simp add: in_state_def progress_free_def)
  with s' show ?thesis by blast
qed

subsection \<open>A status the ledger cannot hold\<close>

lemma update_refused:
  assumes "ledger_inv (s_db s)" and r: "r \<in> set (s_jobs s)"
    and match: "condition r" and others: "\<And>q. condition q \<Longrightarrow> j_id q = j_id r"
    and "j_job_revision (assign r) = j_job_revision r + 1" and "\<forall>c \<in> set columns. c \<notin> identity_columns"
    and "job_in_range (assign r)" and "\<not> job_checks (assign r)"
  shows "sql_update_jobs columns condition assign (s_db s) = Inl (Sqlite ConstraintCheck)"
proof -
  obtain before after where split: "s_jobs s = before @ r # after"
    and ids: "\<And>q. q \<in> set before \<union> set after \<Longrightarrow> j_id q \<noteq> j_id r"
    using split_at [OF assms(1) r] by blast
  have "sql_update_rows columns condition assign m (r # after) = Inl (Sqlite ConstraintCheck)" for m
  proof -
    have "check_job (assign r) = Inl (Sqlite ConstraintCheck)" using assms(7,8) by (simp add: check_job_def)
    moreover have "identity_trigger columns = Inr ()"
      using assms(6) by (simp add: identity_trigger_def list_ex_iff)
    ultimately show ?thesis using match assms(5) by (simp add: revision_guard_trigger_def)
  qed
  moreover have "\<forall>q \<in> set before. \<not> condition q" using others ids by blast
  ultimately have "sql_update_rows columns condition assign m (before @ r # after)
      = Inl (Sqlite ConstraintCheck)" for m
    by (induction before) auto
  then show ?thesis by (simp add: sql_update_jobs_def split)
qed

text \<open>C17: an HTTP status of 600 or more, which HTTP libraries deliver, ends the upload thread: the
  classification calls it a permanent failure, but the row constraint refuses the status, so the
  loop returns with a database error and leaves the job in progress, to be claimed again, with
  the same result, after the next restart.\<close>

theorem unrecordable_status_ends_worker:
  assumes "service_init sha sv0" and "(service_step sha)\<^sup>*\<^sup>* sv0 sv"
    and phase: "sv_phase sv = Uploading claim t"
    and status: "600 \<le> status" "status \<le> 999" and at: "int at \<le> i64_max"
    and locks: "take_locks locks = Inr ()"
    and room: "\<forall>r \<in> set (s_jobs (sv_store sv)). j_job_revision r < i64_max"
  shows "loop_persist locks observe retry_delays (classify_status status retry_after) (Inr at) claim t sv
    = sv\<lparr>sv_phase := LoopReturned (Some (UploadStoreFailure (Sqlite ConstraintCheck)))\<rparr>"
proof -
  let ?s = "sv_store sv"
  have inv: "service_inv sha sv" by (rule service.reachable_inv [OF assms(1,2)])
  from held_row [OF inv phase] obtain r where r: "r \<in> set (s_jobs ?s)"
    and match: "claim_matches claim (int (c_attempt_count claim)) r" and store: "store_inv sha ?s" by blast
  note row = store_inv_job [OF store r]
  let ?row = "failed_row at (Some status) (Some permanent_http_error)"
  have bad: "\<not> job_checks (?row r)" and range: "job_in_range (?row r)"
    using status row(2) at room r
    by (auto simp: failed_row_def job_checks_def job_in_range_def in_i64_def opt_in_i64_def i64_min_def i64_max_def)
  have "sql_update_jobs failure_columns (claim_matches claim (int (c_attempt_count claim))) ?row (s_db ?s)
      = Inl (Sqlite ConstraintCheck)"
    by (rule update_refused [where assign = ?row and condition = "claim_matches claim (int (c_attempt_count claim))",
          OF store_inv_ledger [OF store] r match _ _ _ range bad])
      (use match in \<open>auto simp: claim_matches_def failed_row_def failure_columns_def identity_columns_def\<close>)
  then have "mark_permanently_failed claim at (Some status) (Some permanent_http_error) ?s
      = Inl (Sqlite ConstraintCheck)"
    unfolding failure_columns_def failed_row_def [abs_def] mark_permanently_failed_def
    using at attempt_count_runs [OF store r match] by (simp add: unix_ms_to_database_def)
  moreover have "classify_status status retry_after = AttemptPermanent (Some status) permanent_http_error"
    using status by (auto simp: classify_status_def)
  ultimately show ?thesis
    by (simp add: loop_persist_def persist_outcome_and_publish_def locks persist_outcome_def)
qed

subsection \<open>A run of the service\<close>

definition demo_locks :: upload_locks where
  "demo_locks = \<lparr>lk_publish = True, lk_store = True\<rparr>"

definition demo_service :: "database_file \<times> (upload_error + upload_service)" where
  "demo_service = start_with_transport 1 (Inr 5) demo_env demo_fs demo_sha Some demo_schema demo_root
     ''https://u/'' demo_digest (\<lambda>_. True) demo_empty"

definition demo_state :: "upload_store \<Rightarrow> upload_telemetry list \<Rightarrow> nat \<Rightarrow> worker_phase \<Rightarrow> upload_service" where
  "demo_state store published queued phase =
     \<lparr>sv_shared = \<lparr>us_store = store, us_published = published\<rparr>, sv_stop = False, sv_queued = queued,
      sv_capacity = 1, sv_connected = True, sv_phase = phase\<rparr>"

definition demo_report :: "nat \<Rightarrow> nat \<Rightarrow> upload_telemetry" where
  "demo_report pending active =
     \<lparr>ut_pending = pending, ut_active = active, ut_retrying = 0, ut_completed = 0, ut_permanently_failed = 0,
      ut_last_success = None, ut_last_failure = None, ut_last_error = None\<rparr>"

definition demo_started :: upload_service where
  "demo_started = demo_state demo_store [demo_report 0 0] 0 LoopTop"

lemma demo_service_starts: "snd demo_service = Inr demo_started"
  by code_simp

lemma demo_service_init: "service_init demo_sha demo_started"
proof (rule service_init.first)
  show "start_with_transport 1 (Inr 5) demo_env demo_fs demo_sha Some demo_schema demo_root
     ''https://u/'' demo_digest (\<lambda>_. True) demo_empty = (fst demo_service, Inr demo_started)"
    using demo_service_starts by (simp add: demo_service_def prod_eq_iff)
qed (auto simp: demo_empty_def demo_fs_def database_is_completely_empty_def split: if_splits)

definition demo_waiting :: upload_service where
  "demo_waiting = demo_state demo_recorded [demo_report 0 0, demo_report 1 0] 1 LoopTop"

definition demo_holding :: "worker_phase \<Rightarrow> upload_service" where
  "demo_holding phase = demo_state demo_claimed [demo_report 0 0, demo_report 1 0, demo_report 0 1] 1 phase"

definition demo_sending :: upload_service where
  "demo_sending = demo_holding (Uploading demo_claim 20)"

lemma demo_service_runs:
  "try_enqueue demo_fs demo_sha demo_locks (\<lambda>_. True) (Inr 10) demo_path demo_started
     = (demo_waiting, Inr EnqueueRecorded)"
  "loop_top demo_locks (\<lambda>_. True) (Inr 20) demo_waiting = demo_holding (Claimed demo_claim 20)"
  by code_simp+

lemma demo_sending_run: "(service_step demo_sha)\<^sup>*\<^sup>* demo_started demo_sending"
proof -
  have "service_step demo_sha demo_started demo_waiting"
    by (rule service_step.enqueued) (rule demo_service_runs(1))
  moreover have "service_step demo_sha demo_waiting (demo_holding (Claimed demo_claim 20))"
    unfolding demo_service_runs(2) [symmetric]
    by (rule service_step.top) (simp add: demo_waiting_def demo_state_def)
  moreover have "loop_claimed demo_locks (\<lambda>_. True) demo_claim 20 (demo_holding (Claimed demo_claim 20)) = demo_sending"
    by (simp add: loop_claimed_def demo_holding_def demo_state_def demo_sending_def)
  then have "service_step demo_sha (demo_holding (Claimed demo_claim 20)) demo_sending"
    using service_step.claimed [of "demo_holding (Claimed demo_claim 20)" demo_claim 20 demo_sha demo_locks]
    by (simp add: demo_holding_def demo_state_def) metis
  ultimately show ?thesis by (meson converse_rtranclp_into_rtranclp rtranclp.rtrancl_refl)
qed

lemma demo_sending_phase: "sv_phase demo_sending = Uploading demo_claim 20"
  by (simp add: demo_sending_def demo_holding_def demo_state_def)

lemma demo_sending_room:
  "ledger_revision (sv_store demo_sending) < i64_max" "int (length (s_jobs (sv_store demo_sending))) < i64_max"
  "\<forall>r \<in> set (s_jobs (sv_store demo_sending)). j_job_revision r < i64_max"
  by (simp_all add: demo_sending_def demo_holding_def demo_state_def demo_claimed_def with_jobs_def
      demo_held_def i64_max_def)


theorem worker_owns_progress_witness:
  "claim_valid demo_claim (sv_store demo_sending) \<and> in_state InProgress (sv_store demo_sending) = 1"
  using worker_owns_progress [OF demo_service_init demo_sending_run] demo_sending_phase by blast

theorem attempt_is_recorded_witness:
  "\<exists>s'. persist_outcome retry_delays demo_claim (classify_status 503 (Some 7000)) 30 (sv_store demo_sending)
      = Inr (s', None) \<and> in_state InProgress s' = 0"
proof -
  have "recordable (outcome_status (classify_status 503 (Some 7000)))"
    by (simp add: classify_status_def recordable_def)
  moreover have "int (30 + max_retry_delay) \<le> i64_max" by (simp add: max_retry_delay_def i64_max_def)
  ultimately show ?thesis
    using attempt_is_recorded [OF demo_service_init demo_sending_run demo_sending_phase _ _ demo_sending_room]
    by blast
qed

theorem unrecordable_status_ends_worker_witness:
  "sv_phase (loop_persist demo_locks (\<lambda>_. True) retry_delays (classify_status 600 None) (Inr 30) demo_claim 20
     demo_sending) = LoopReturned (Some (UploadStoreFailure (Sqlite ConstraintCheck)))"
  using unrecordable_status_ends_worker [OF demo_service_init demo_sending_run demo_sending_phase _ _ _ _
      demo_sending_room(3), of 600 30 demo_locks "\<lambda>_. True" None]
  by (simp add: i64_max_def take_locks_def demo_locks_def)

end
