(* ===== verification/Unicode.thy ===== *)
theory Unicode
  imports FrameName
begin

text \<open>
  Rust's \<open>str\<close> seen through its characters. A string of the model is its UTF-8 bytes; \<open>chars\<close>
  decodes the scalar values, on which \<open>char::is_whitespace\<close> and \<open>char::is_control\<close> are defined.
\<close>

definition continuation :: "string \<Rightarrow> nat" where
  "continuation s = (case s of [] \<Rightarrow> 0 | c # _ \<Rightarrow> (of_char c :: nat) mod 64)"

fun chars :: "string \<Rightarrow> nat list" where
  "chars [] = []"
| "chars (c # cs) =
     (let lead = (of_char c :: nat) in
      if lead < 128 then lead # chars cs
      else if lead < 224 then (lead mod 32 * 64 + continuation cs) # chars (drop 1 cs)
      else if lead < 240
        then ((lead mod 16 * 64 + continuation cs) * 64 + continuation (drop 1 cs)) # chars (drop 2 cs)
      else (((lead mod 8 * 64 + continuation cs) * 64 + continuation (drop 1 cs)) * 64
              + continuation (drop 2 cs)) # chars (drop 3 cs))"

definition char_is_whitespace :: "nat \<Rightarrow> bool" where
  "char_is_whitespace c \<longleftrightarrow>
     9 \<le> c \<and> c \<le> 13 \<or> c \<in> {32, 133, 160, 5760} \<or> 8192 \<le> c \<and> c \<le> 8202
     \<or> c \<in> {8232, 8233, 8239, 8287, 12288}"

definition char_is_control :: "nat \<Rightarrow> bool" where
  "char_is_control c \<longleftrightarrow> c < 32 \<or> 127 \<le> c \<and> c < 160"

text \<open>The characters of \<open>s.trim()\<close>.\<close>

definition trimmed :: "string \<Rightarrow> nat list" where
  "trimmed s = rev (dropWhile char_is_whitespace (rev (dropWhile char_is_whitespace (chars s))))"

definition is_ascii_char :: "char \<Rightarrow> bool" where
  "is_ascii_char c \<longleftrightarrow> (of_char c :: nat) < 128"

lemma chars_ascii: "list_all is_ascii_char s \<Longrightarrow> chars s = map of_char s"
  by (induction s) (auto simp: is_ascii_char_def)

lemma trimmed_empty: "trimmed s = [] \<longleftrightarrow> list_all char_is_whitespace (chars s)"
proof -
  have "dropWhile P (rev (dropWhile P xs)) = [] \<longleftrightarrow> list_all P xs" for P and xs :: "nat list"
    by (auto simp: list_all_iff dropWhile_eq_Nil_conv dest: set_dropWhileD)
      (metis (no_types, lifting) dropWhile_eq_Nil_conv hd_dropWhile hd_in_set list.set_sel(1))
  then show ?thesis by (simp add: trimmed_def)
qed

end
