(* ===== verification/Protocol.thy ===== *)
theory Protocol
  imports Unicode
begin

text \<open>
  The messages of the control protocol (\<open>autopiercam-protocol\<close>) and their validation: requests
  and responses, the upload administration messages, preview metadata, and the completeness
  check of full configuration replacements.
\<close>

subsection \<open>Constants\<close>

definition protocol_version :: nat where "protocol_version = 1"
definition max_frame_size :: nat where "max_frame_size = 1024 * 1024"
definition preview_protocol_version :: nat where "preview_protocol_version = 1"
definition max_preview_metadata_size :: nat where "max_preview_metadata_size = 4 * 1024"
definition max_preview_jpeg_size :: nat where "max_preview_jpeg_size = 4 * 1024 * 1024"
definition preview_max_dimension :: nat where "preview_max_dimension = 1920"
definition preview_max_pixels :: nat where "preview_max_pixels = 3686400"
definition upload_list_default_page_size :: nat where "upload_list_default_page_size = 50"
definition upload_list_max_page_size :: nat where "upload_list_max_page_size = 100"
definition upload_list_max_state_filters :: nat where "upload_list_max_state_filters = 5"
definition upload_cursor_max_bytes :: nat where "upload_cursor_max_bytes = 512"
definition upload_ledger_id_max_bytes :: nat where "upload_ledger_id_max_bytes = 128"
definition upload_filename_max_bytes :: nat where "upload_filename_max_bytes = 255"
definition upload_error_max_bytes :: nat where "upload_error_max_bytes = 2048"
definition upload_job_id_max :: nat where "upload_job_id_max = nat i64_max"

lemmas protocol_limits = protocol_version_def max_frame_size_def preview_protocol_version_def
  max_preview_metadata_size_def max_preview_jpeg_size_def preview_max_dimension_def
  preview_max_pixels_def upload_list_max_page_size_def upload_list_max_state_filters_def
  upload_cursor_max_bytes_def upload_ledger_id_max_bytes_def upload_filename_max_bytes_def
  upload_error_max_bytes_def upload_job_id_max_def

subsection \<open>Requests and responses\<close>

datatype request_method =
    StatusGet | CamerasList | ConfigGet | ConfigReplace | CapturePause | CaptureResume | CaptureNow
  | ArtifactsList | UploadsList | UploadsRequeue | AgentShutdown | SharingGet | SharingConfigure
  | SharingPair | SharingForget

text \<open>The names on the wire, and those shown by \<open>Display\<close>.\<close>

fun method_wire_name :: "request_method \<Rightarrow> string" where
  "method_wire_name StatusGet = ''status.get''"
| "method_wire_name CamerasList = ''cameras.list''"
| "method_wire_name ConfigGet = ''config.get''"
| "method_wire_name ConfigReplace = ''config.replace''"
| "method_wire_name CapturePause = ''capture.pause''"
| "method_wire_name CaptureResume = ''capture.resume''"
| "method_wire_name CaptureNow = ''capture.now''"
| "method_wire_name ArtifactsList = ''artifacts.list''"
| "method_wire_name UploadsList = ''uploads.list''"
| "method_wire_name UploadsRequeue = ''uploads.requeue''"
| "method_wire_name AgentShutdown = ''agent.shutdown''"
| "method_wire_name SharingGet = ''sharing.get''"
| "method_wire_name SharingConfigure = ''sharing.configure''"
| "method_wire_name SharingPair = ''sharing.pair''"
| "method_wire_name SharingForget = ''sharing.forget''"

fun method_display :: "request_method \<Rightarrow> string" where
  "method_display StatusGet = ''status.get''"
| "method_display CamerasList = ''cameras.list''"
| "method_display ConfigGet = ''config.get''"
| "method_display ConfigReplace = ''config.replace''"
| "method_display CapturePause = ''capture.pause''"
| "method_display CaptureResume = ''capture.resume''"
| "method_display CaptureNow = ''capture.now''"
| "method_display ArtifactsList = ''artifacts.list''"
| "method_display UploadsList = ''uploads.list''"
| "method_display UploadsRequeue = ''uploads.requeue''"
| "method_display AgentShutdown = ''agent.shutdown''"
| "method_display SharingGet = ''sharing.get''"
| "method_display SharingConfigure = ''sharing.configure''"
| "method_display SharingPair = ''sharing.pair''"
| "method_display SharingForget = ''sharing.forget''"

text \<open>\<open>serde_json::Value\<close>: a number keeps its text, an object its fields.\<close>

datatype json =
    JNull
  | JBool bool
  | JNumber string
  | JString string
  | JArray "json list"
  | JObject "(string \<times> json) list"

record protocol_request =
  rq_version :: nat
  rq_request_id :: string
  rq_method :: request_method
  rq_payload :: json

record error_body =
  eb_code :: string
  eb_message :: string
  eb_details :: "json option"

record protocol_response =
  rs_version :: nat
  rs_request_id :: string
  rs_result :: "json option"
  rs_error :: "error_body option"

datatype validation_error =
    UnsupportedVersion nat nat
  | EmptyRequestId
  | InvalidResponseInvariant
  | EmptyErrorCode
  | EmptyErrorMessage

definition request_new :: "string \<Rightarrow> request_method \<Rightarrow> protocol_request" where
  "request_new request_id m =
     \<lparr>rq_version = protocol_version, rq_request_id = request_id, rq_method = m, rq_payload = JObject []\<rparr>"

definition with_payload :: "json \<Rightarrow> protocol_request \<Rightarrow> protocol_request" where
  "with_payload payload r = r\<lparr>rq_payload := payload\<rparr>"

definition validate_envelope :: "nat \<Rightarrow> string \<Rightarrow> validation_error + unit" where
  "validate_envelope version request_id =
     (if version \<noteq> protocol_version then Inl (UnsupportedVersion version protocol_version)
      else if trimmed request_id = [] then Inl EmptyRequestId
      else Inr ())"

definition request_validate :: "protocol_request \<Rightarrow> validation_error + unit" where
  "request_validate r = validate_envelope (rq_version r) (rq_request_id r)"

definition error_body_new :: "string \<Rightarrow> string \<Rightarrow> error_body" where
  "error_body_new code message = \<lparr>eb_code = code, eb_message = message, eb_details = None\<rparr>"

definition with_details :: "json \<Rightarrow> error_body \<Rightarrow> error_body" where
  "with_details details e = e\<lparr>eb_details := Some details\<rparr>"

definition error_body_validate :: "error_body \<Rightarrow> validation_error + unit" where
  "error_body_validate e =
     (if trimmed (eb_code e) = [] then Inl EmptyErrorCode
      else if trimmed (eb_message e) = [] then Inl EmptyErrorMessage
      else Inr ())"

definition response_success :: "string \<Rightarrow> json \<Rightarrow> protocol_response" where
  "response_success request_id result =
     \<lparr>rs_version = protocol_version, rs_request_id = request_id, rs_result = Some result, rs_error = None\<rparr>"

definition response_failure :: "string \<Rightarrow> error_body \<Rightarrow> protocol_response" where
  "response_failure request_id error =
     \<lparr>rs_version = protocol_version, rs_request_id = request_id, rs_result = None, rs_error = Some error\<rparr>"

definition response_validate :: "protocol_response \<Rightarrow> validation_error + unit" where
  "response_validate r =
     rbind (validate_envelope (rs_version r) (rs_request_id r)) (\<lambda>_.
       (case (rs_result r, rs_error r) of
          (Some _, None) \<Rightarrow> Inr ()
        | (None, Some error) \<Rightarrow> error_body_validate error
        | _ \<Rightarrow> Inl InvalidResponseInvariant))"

lemma request_new_valid:
  "request_validate (with_payload p (request_new i m)) = Inr () \<longleftrightarrow> trimmed i \<noteq> []"
  by (simp add: request_validate_def validate_envelope_def with_payload_def request_new_def)

lemma response_validate_Inr:
  "response_validate r = Inr () \<longleftrightarrow> rs_version r = protocol_version \<and> trimmed (rs_request_id r) \<noteq> []
     \<and> (rs_error r = None \<and> rs_result r \<noteq> None
        \<or> rs_result r = None \<and> (\<exists>e. rs_error r = Some e \<and> trimmed (eb_code e) \<noteq> [] \<and> trimmed (eb_message e) \<noteq> []))"
  by (auto simp: response_validate_def validate_envelope_def error_body_validate_def
      split: option.splits if_splits)

lemma method_names: "method_display m = method_wire_name m"
  by (cases m) simp_all

lemma method_wire_name_inject: "method_wire_name a = method_wire_name b \<longleftrightarrow> a = b"
  by (cases a; cases b; simp)

subsection \<open>Upload administration messages\<close>

datatype upload_job_state =
  JobPending | JobInProgress | JobRetrying | JobCompleted | JobPermanentlyFailed

record upload_list_request =
  lr_states :: "upload_job_state list"
  lr_page_size :: nat
  lr_cursor :: "string option"

record upload_job_summary =
  js_job_id :: nat
  js_job_revision :: nat
  js_filename :: string
  js_state :: upload_job_state
  js_file_size :: nat
  js_attempt_count :: nat
  js_requeue_count :: nat
  js_created_at :: nat
  js_updated_at :: nat
  js_next_attempt_at :: "nat option"
  js_completed_at :: "nat option"
  js_last_failure_at :: "nat option"
  js_last_requeued_at :: "nat option"
  js_last_http_status :: "nat option"
  js_last_error :: "string option"
  js_requeue_eligible :: bool

record upload_list_response =
  lx_ledger_id :: string
  lx_jobs :: "upload_job_summary list"
  lx_next_cursor :: "string option"

record upload_requeue_request =
  qr_ledger_id :: string
  qr_job_id :: nat
  qr_expected_job_revision :: nat

record upload_requeue_result =
  qx_job :: upload_job_summary
  qx_worker_notified :: bool

datatype admin_invalid =
    InvalidPageSize nat nat
  | TooManyStateFilters nat nat
  | DuplicateStateFilter upload_job_state
  | InvalidCursorText string
  | InvalidLedgerIdText string
  | InvalidJobNumber nat
  | ZeroJobRevision
  | InvalidFilename string
  | InvalidNextAttemptForState
  | InvalidCompletionForState
  | InvalidRequeueHistory
  | InvalidRequeueEligibility
  | InvalidHttpStatus nat
  | InvalidLastError string
  | TooManyJobs nat nat
  | DuplicateJobId nat

definition upload_list_request_default :: upload_list_request where
  "upload_list_request_default =
     \<lparr>lr_states = [], lr_page_size = upload_list_default_page_size, lr_cursor = None\<rparr>"

definition bounded_text_reason :: "string \<Rightarrow> nat \<Rightarrow> string option" where
  "bounded_text_reason value max_bytes =
     (if value = [] then Some ''must not be empty''
      else if length value > max_bytes
        then Some (''is '' @ decimal (length value) @ '' bytes; maximum is '' @ decimal max_bytes)
      else if list_ex char_is_control (chars value) then Some ''must not contain control characters''
      else None)"

definition validate_bounded_upload_text ::
  "string \<Rightarrow> string \<Rightarrow> nat \<Rightarrow> (string \<Rightarrow> admin_invalid) \<Rightarrow> admin_invalid + unit" where
  "validate_bounded_upload_text value field max_bytes error =
     (case bounded_text_reason value max_bytes of
        Some reason \<Rightarrow> Inl (error (field @ '' '' @ reason))
      | None \<Rightarrow> Inr ())"

definition validate_opaque_upload_token ::
  "string \<Rightarrow> string \<Rightarrow> nat \<Rightarrow> (string \<Rightarrow> admin_invalid) \<Rightarrow> admin_invalid + unit" where
  "validate_opaque_upload_token token field max_bytes error =
     validate_bounded_upload_text token field max_bytes error"

definition validate_upload_ledger_id :: "string \<Rightarrow> admin_invalid + unit" where
  "validate_upload_ledger_id ledger_id =
     validate_opaque_upload_token ledger_id ''ledger_id'' upload_ledger_id_max_bytes InvalidLedgerIdText"

definition validate_upload_filename :: "string \<Rightarrow> admin_invalid + unit" where
  "validate_upload_filename filename =
     rbind (validate_bounded_upload_text filename ''filename'' upload_filename_max_bytes InvalidFilename)
       (\<lambda>_. if filename = ''.'' \<or> filename = ''..'' \<or> CHR ''/'' \<in> set filename
              \<or> CHR 0x5C \<in> set filename \<or> CHR '':'' \<in> set filename
            then Inl (InvalidFilename ''must be a base filename, not a path'')
            else Inr ())"

fun check_distinct_states :: "upload_job_state list \<Rightarrow> upload_job_state list \<Rightarrow> admin_invalid + unit" where
  "check_distinct_states prior [] = Inr ()"
| "check_distinct_states prior (state # states) =
     (if state \<in> set prior then Inl (DuplicateStateFilter state)
      else check_distinct_states (prior @ [state]) states)"

definition validate_cursor :: "string \<Rightarrow> string option \<Rightarrow> admin_invalid + unit" where
  "validate_cursor field cursor =
     (case cursor of None \<Rightarrow> Inr ()
      | Some c \<Rightarrow> validate_opaque_upload_token c field upload_cursor_max_bytes InvalidCursorText)"

definition list_request_validate :: "upload_list_request \<Rightarrow> admin_invalid + unit" where
  "list_request_validate r =
     (if \<not> (1 \<le> lr_page_size r \<and> lr_page_size r \<le> upload_list_max_page_size)
      then Inl (InvalidPageSize (lr_page_size r) upload_list_max_page_size)
      else if length (lr_states r) > upload_list_max_state_filters
      then Inl (TooManyStateFilters (length (lr_states r)) upload_list_max_state_filters)
      else rbind (check_distinct_states [] (lr_states r)) (\<lambda>_. validate_cursor ''cursor'' (lr_cursor r)))"

definition summary_validate :: "upload_job_summary \<Rightarrow> admin_invalid + unit" where
  "summary_validate j =
     (if \<not> (1 \<le> js_job_id j \<and> js_job_id j \<le> upload_job_id_max) then Inl (InvalidJobNumber (js_job_id j))
      else if js_job_revision j = 0 then Inl ZeroJobRevision
      else rbind (validate_upload_filename (js_filename j)) (\<lambda>_.
        if (js_state j = JobRetrying) \<noteq> (js_next_attempt_at j \<noteq> None) then Inl InvalidNextAttemptForState
        else if (js_state j = JobCompleted) \<noteq> (js_completed_at j \<noteq> None) then Inl InvalidCompletionForState
        else if (js_requeue_count j > 0) \<noteq> (js_last_requeued_at j \<noteq> None) then Inl InvalidRequeueHistory
        else if js_requeue_eligible j \<and> js_state j \<noteq> JobPermanentlyFailed then Inl InvalidRequeueEligibility
        else rbind (case js_last_http_status j of
            Some status \<Rightarrow>
              if \<not> (100 \<le> status \<and> status \<le> 599) then Inl (InvalidHttpStatus status)
              else Inr ()
          | None \<Rightarrow> Inr ()) (\<lambda>_.
          case js_last_error j of
            Some error \<Rightarrow>
              validate_bounded_upload_text error ''last_error'' upload_error_max_bytes InvalidLastError
          | None \<Rightarrow> Inr ())))"


fun check_jobs :: "upload_job_summary list \<Rightarrow> upload_job_summary list \<Rightarrow> admin_invalid + unit" where
  "check_jobs prior [] = Inr ()"
| "check_jobs prior (job # jobs) =
     rbind (summary_validate job) (\<lambda>_.
       if list_ex (\<lambda>p. js_job_id p = js_job_id job) prior then Inl (DuplicateJobId (js_job_id job))
       else check_jobs (prior @ [job]) jobs)"

definition list_response_validate :: "upload_list_response \<Rightarrow> admin_invalid + unit" where
  "list_response_validate r =
     rbind (validate_upload_ledger_id (lx_ledger_id r)) (\<lambda>_.
       if length (lx_jobs r) > upload_list_max_page_size
       then Inl (TooManyJobs (length (lx_jobs r)) upload_list_max_page_size)
       else rbind (check_jobs [] (lx_jobs r)) (\<lambda>_. validate_cursor ''next_cursor'' (lx_next_cursor r)))"

definition requeue_request_validate :: "upload_requeue_request \<Rightarrow> admin_invalid + unit" where
  "requeue_request_validate r =
     rbind (validate_upload_ledger_id (qr_ledger_id r)) (\<lambda>_.
       if \<not> (1 \<le> qr_job_id r \<and> qr_job_id r \<le> upload_job_id_max) then Inl (InvalidJobNumber (qr_job_id r))
       else if qr_expected_job_revision r = 0 then Inl ZeroJobRevision
       else Inr ())"

definition requeue_result_validate :: "upload_requeue_result \<Rightarrow> admin_invalid + unit" where
  "requeue_result_validate r = summary_validate (qx_job r)"

lemma bounded_text_Inr [result_simps]:
  "validate_bounded_upload_text v field n error = Inr u \<longleftrightarrow>
     v \<noteq> [] \<and> length v \<le> n \<and> \<not> list_ex char_is_control (chars v)"
  by (auto simp: validate_bounded_upload_text_def bounded_text_reason_def)

lemma check_jobs_Inr:
  "check_jobs prior jobs = Inr () \<longleftrightarrow> (\<forall>j \<in> set jobs. summary_validate j = Inr ())
     \<and> distinct (map js_job_id jobs) \<and> js_job_id ` set prior \<inter> js_job_id ` set jobs = {}"
proof (induction jobs arbitrary: prior)
  case (Cons j jobs)
  have "js_job_id j \<in> js_job_id ` set prior \<longleftrightarrow> list_ex (\<lambda>p. js_job_id p = js_job_id j) prior"
    by (auto simp: list_ex_iff intro: rev_image_eqI)
  then show ?case using Cons.IH [of "prior @ [j]"] by (auto simp: result_simps)
qed simp

lemma check_distinct_states_Inr:
  "check_distinct_states prior states = Inr () \<longleftrightarrow> distinct states \<and> set prior \<inter> set states = {}"
  by (induction states arbitrary: prior) auto

subsection \<open>Configuration replacements\<close>

text \<open>The fields of an object, \<open>as_object\<close>, and the lookup of one of them.\<close>

fun as_object :: "json \<Rightarrow> (string \<times> json) list option" where
  "as_object (JObject members) = Some members"
| "as_object _ = None"

fun complete_fields ::
  "(json \<Rightarrow> json \<Rightarrow> string \<Rightarrow> string + unit) \<Rightarrow> (string \<times> json) list \<Rightarrow> string
     \<Rightarrow> (string \<times> json) list \<Rightarrow> string + unit" where
  "complete_fields shape actual path [] = Inr ()"
| "complete_fields shape actual path ((name, expected) # rest) =
     (let child = path @ ''.'' @ name in
      case map_of actual name of
        None \<Rightarrow> Inl (''missing required field '' @ child)
      | Some value \<Rightarrow> rbind (shape value expected child) (\<lambda>_. complete_fields shape actual path rest))"

lemma complete_fields_cong [fundef_cong]:
  assumes "actual = actual'" "path = path'" "members = members'"
    and "\<And>v name e p. (name, e) \<in> set members' \<Longrightarrow> shape v e p = shape' v e p"
  shows "complete_fields shape actual path members = complete_fields shape' actual' path' members'"
  using assms(4) unfolding assms(1-3)
proof (induction members')
  case (Cons m members')
  obtain name e where m: "m = (name, e)" by (cases m)
  have "complete_fields shape actual' path' members' = complete_fields shape' actual' path' members'"
    by (rule Cons.IH) (use Cons.prems in auto)
  moreover have "shape v e p = shape' v e p" for v p using Cons.prems m by auto
  ultimately show ?case by (simp add: m Let_def split: option.split)
qed simp

function require_complete_shape :: "json \<Rightarrow> json \<Rightarrow> string \<Rightarrow> string + unit" where
  "require_complete_shape actual template path =
     (case as_object template of None \<Rightarrow> Inr ()
      | Some expected_fields \<Rightarrow>
          (case as_object actual of None \<Rightarrow> Inl (''field '' @ path @ '' must be an object'')
           | Some actual_fields \<Rightarrow> complete_fields require_complete_shape actual_fields path expected_fields))"
  by pat_completeness auto
termination
proof (relation "measure (\<lambda>(_, template, _). size template)", goal_cases)
  case (2 actual template path expected_fields actual_fields v name e p)
  then have "template = JObject expected_fields" by (cases template) auto
  moreover have "size e < size_list (size_prod (\<lambda>_. 0) size) expected_fields"
    using 2(3) by (induction expected_fields) auto
  ultimately show ?case by simp
qed simp

declare require_complete_shape.simps [simp del]

text \<open>What the check promises: \<open>actual\<close> has every field path of the template.\<close>

inductive has_shape :: "json \<Rightarrow> json \<Rightarrow> bool" where
  leaf: "as_object template = None \<Longrightarrow> has_shape actual template"
| object: "as_object template = Some members \<Longrightarrow> as_object actual = Some found \<Longrightarrow>
    (\<And>name e. (name, e) \<in> set members \<Longrightarrow> \<exists>v. map_of found name = Some v \<and> has_shape v e) \<Longrightarrow>
    has_shape actual template"

inductive_simps has_shape_object: "has_shape actual (JObject members)"

lemma complete_fields_Inr:
  "complete_fields shape actual path members = Inr () \<longleftrightarrow>
     (\<forall>(name, e) \<in> set members. \<exists>v. map_of actual name = Some v \<and> shape v e (path @ ''.'' @ name) = Inr ())"
  by (induction members) (auto simp: Let_def result_simps split: option.splits)

lemma require_complete_shape_iff:
  "require_complete_shape actual template path = Inr () \<longleftrightarrow> has_shape actual template"
proof (induction actual template path rule: require_complete_shape.induct)
  case (1 actual template path)
  show ?case
  proof (cases template)
    case (JObject members)
    show ?thesis
    proof (cases "as_object actual")
      case None
      then show ?thesis using JObject
        by (subst require_complete_shape.simps) (simp add: has_shape_object)
    next
      case (Some found)
      have IH: "require_complete_shape v e p = Inr () \<longleftrightarrow> has_shape v e" if "(name, e) \<in> set members" for v name e p
        using 1 [of members found] JObject Some that by simp
      have "require_complete_shape actual template path = Inr ()
          \<longleftrightarrow> (\<forall>(name, e) \<in> set members. \<exists>v. map_of found name = Some v \<and> has_shape v e)"
        using JObject Some IH
        by (subst require_complete_shape.simps) (fastforce simp: complete_fields_Inr)
      also have "\<dots> \<longleftrightarrow> has_shape actual template" using JObject Some by (auto simp: has_shape_object)
      finally show ?thesis .
    qed
  qed (subst require_complete_shape.simps, simp add: has_shape.leaf)+
qed

subsection \<open>Preview metadata\<close>

datatype preview_content_type = ImageJpeg

datatype preview_mode = PreviewUnknown | PreviewDay | PreviewNight

record preview_metadata =
  pm_version :: nat
  pm_session_generation :: nat
  pm_sequence :: nat
  pm_captured_at :: nat
  pm_width :: nat
  pm_height :: nat
  pm_exposure_us :: "int option"
  pm_gain :: "int option"
  pm_content_type :: preview_content_type
  pm_mode :: preview_mode
  pm_dropped_frames :: nat

datatype preview_invalid =
    PreviewUnsupportedVersion nat nat
  | ZeroDimensions
  | DimensionsTooLarge nat nat nat
  | PixelCountTooLarge nat nat
  | InvalidExposure
  | InvalidGain

definition preview_validate :: "preview_metadata \<Rightarrow> preview_invalid + unit" where
  "preview_validate m =
     (if pm_version m \<noteq> preview_protocol_version
      then Inl (PreviewUnsupportedVersion (pm_version m) preview_protocol_version)
      else if pm_width m = 0 \<or> pm_height m = 0 then Inl ZeroDimensions
      else if pm_width m > preview_max_dimension \<or> pm_height m > preview_max_dimension
      then Inl (DimensionsTooLarge (pm_width m) (pm_height m) preview_max_dimension)
      else if pm_width m * pm_height m > preview_max_pixels
      then Inl (PixelCountTooLarge (pm_width m * pm_height m) preview_max_pixels)
      else if (case pm_exposure_us m of None \<Rightarrow> False | Some exposure \<Rightarrow> exposure \<le> 0) then Inl InvalidExposure
      else if (case pm_gain m of None \<Rightarrow> False | Some gain \<Rightarrow> gain < 0) then Inl InvalidGain
      else Inr ())"

text \<open>
  The pixel limit is the square of the edge limit, so after the edge check it never applies:
  it guards against a change of one constant without the other.
\<close>

lemma pixel_limit_implied:
  assumes "pm_width m \<le> preview_max_dimension" "pm_height m \<le> preview_max_dimension"
  shows "pm_width m * pm_height m \<le> preview_max_pixels"
  using mult_le_mono [OF assms] by (simp add: protocol_limits)

end
