(* ===== verification/UploadAdmin.thy ===== *)
theory UploadAdmin
  imports UploadOutcomes LedgerList Protocol
begin

text \<open>
  The administration facade of the upload service (\<open>UploadAdmin\<close>): it validates a protocol
  request, runs the ledger operation in the service's critical sections, projects the rows onto
  wire summaries and validates its own answer. The answers of a running agent always pass that
  last validation.
\<close>

subsection \<open>The facade\<close>

datatype upload_admin_error =
    AdminInvalidRequest
  | AdminInvalidCursor
  | AdminStaleCursor
  | AdminCursorParametersMismatch
  | AdminLedgerMismatch
  | AdminJobNotFound
  | AdminWrongState
  | AdminStaleJobRevision
  | AdminDeliveryBindingMismatch
  | AdminArtifactUnavailable
  | AdminArtifactChanged
  | AdminInternal

fun store_upload_state :: "upload_job_state \<Rightarrow> upload_state" where
  "store_upload_state JobPending = Pending"
| "store_upload_state JobInProgress = InProgress"
| "store_upload_state JobRetrying = Retrying"
| "store_upload_state JobCompleted = Completed"
| "store_upload_state JobPermanentlyFailed = PermanentlyFailed"

fun protocol_upload_state :: "upload_state \<Rightarrow> upload_job_state" where
  "protocol_upload_state Pending = JobPending"
| "protocol_upload_state InProgress = JobInProgress"
| "protocol_upload_state Retrying = JobRetrying"
| "protocol_upload_state Completed = JobCompleted"
| "protocol_upload_state PermanentlyFailed = JobPermanentlyFailed"

definition protocol_upload_job :: "upload_list_item \<Rightarrow> upload_job_summary" where
  "protocol_upload_job job =
     \<lparr>js_job_id = job_id_get (li_job_id job), js_job_revision = li_job_revision job,
      js_filename = li_filename job, js_state = protocol_upload_state (li_state job),
      js_file_size = li_file_size job, js_attempt_count = li_attempt_count job,
      js_requeue_count = li_requeue_count job, js_created_at = li_created_at job,
      js_updated_at = li_updated_at job, js_next_attempt_at = li_next_attempt_at job,
      js_completed_at = li_completed_at job, js_last_failure_at = li_last_failure_at job,
      js_last_requeued_at = li_last_requeued_at job, js_last_http_status = li_last_http_status job,
      js_last_error = li_last_error job,
      js_requeue_eligible = (li_state job = PermanentlyFailed \<and> li_delivery_binding_is_current job)\<rparr>"

fun map_store_admin_error :: "store_error \<Rightarrow> upload_admin_error" where
  "map_store_admin_error InvalidListPageSize = AdminInvalidRequest"
| "map_store_admin_error InvalidListCursor = AdminInvalidCursor"
| "map_store_admin_error StaleListCursor = AdminStaleCursor"
| "map_store_admin_error ListCursorParametersMismatch = AdminCursorParametersMismatch"
| "map_store_admin_error RequeueLedgerMismatch = AdminLedgerMismatch"
| "map_store_admin_error RequeueJobNotFound = AdminJobNotFound"
| "map_store_admin_error RequeueWrongState = AdminWrongState"
| "map_store_admin_error RequeueStaleJobRevision = AdminStaleJobRevision"
| "map_store_admin_error RequeueDeliveryBindingMismatch = AdminDeliveryBindingMismatch"
| "map_store_admin_error RequeueArtifactUnavailable = AdminArtifactUnavailable"
| "map_store_admin_error RequeueArtifactChanged = AdminArtifactChanged"
| "map_store_admin_error _ = AdminInternal"

text \<open>An error of the service's critical sections; only those of the store are told apart.\<close>

fun map_upload_admin_error :: "upload_error \<Rightarrow> upload_admin_error" where
  "map_upload_admin_error (UploadStoreFailure e) = map_store_admin_error e"
| "map_upload_admin_error _ = AdminInternal"

definition admin_list ::
  "(u8 list \<Rightarrow> u8 list) \<Rightarrow> upload_locks \<Rightarrow> upload_list_request \<Rightarrow> upload_service
     \<Rightarrow> upload_admin_error + upload_list_response" where
  "admin_list sha locks request sv =
     (case list_request_validate request of Inl _ \<Rightarrow> Inl AdminInvalidRequest
      | Inr _ \<Rightarrow>
          (if \<not> lk_store locks then Inl AdminInternal
           else (case list_jobs sha (map store_upload_state (lr_states request)) (lr_page_size request)
                        (lr_cursor request) (sv_store sv) of
               Inl e \<Rightarrow> Inl (map_store_admin_error e)
             | Inr page \<Rightarrow>
                 (let response = \<lparr>lx_ledger_id = hex_encode (lp_ledger_id page),
                        lx_jobs = map protocol_upload_job (lp_jobs page),
                        lx_next_cursor = lp_next_cursor page\<rparr>
                  in case list_response_validate response of
                       Inl _ \<Rightarrow> Inl AdminInternal
                     | Inr _ \<Rightarrow> Inr response))))"

definition parse_ledger_id :: "string \<Rightarrow> store_error + u8 list" where
  "parse_ledger_id value = ok_or (hex_decode_exact 16 value) RequeueLedgerMismatch"

definition admin_requeue ::
  "filesystem \<Rightarrow> (u8 list \<Rightarrow> u8 list) \<Rightarrow> upload_locks \<Rightarrow> (upload_telemetry \<Rightarrow> bool) \<Rightarrow> upload_error + nat
     \<Rightarrow> upload_requeue_request \<Rightarrow> upload_service
     \<Rightarrow> upload_service \<times> (upload_admin_error + upload_requeue_result)" where
  "admin_requeue fs sha locks observe clock request sv =
     (case requeue_request_validate request of Inl _ \<Rightarrow> (sv, Inl AdminInvalidRequest)
      | Inr _ \<Rightarrow>
     (case parse_ledger_id (qr_ledger_id request) of Inl e \<Rightarrow> (sv, Inl (map_store_admin_error e))
      | Inr ledger_id \<Rightarrow>
     (case job_id_from_u64 (qr_job_id request) of Inl e \<Rightarrow> (sv, Inl (map_store_admin_error e))
      | Inr job_id \<Rightarrow>
     (case clock of Inl _ \<Rightarrow> (sv, Inl AdminInternal)
      | Inr now \<Rightarrow>
     (case requeue_and_wake fs sha locks observe
             \<lparr>rq_ledger_id = ledger_id, rq_job_id = job_id,
              rq_expected_job_revision = qr_expected_job_revision request\<rparr> now sv of
        (sv, Inl e) \<Rightarrow> (sv, Inl (map_upload_admin_error e))
      | (sv, Inr (outcome, worker_notified)) \<Rightarrow>
          (let result = \<lparr>qx_job = protocol_upload_job (ro_job outcome), qx_worker_notified = worker_notified\<rparr>
           in case requeue_result_validate result of
                Inl _ \<Rightarrow> (sv, Inl AdminInternal)
              | Inr _ \<Rightarrow> (sv, Inr result)))))))"

lemma state_projection:
  "store_upload_state (protocol_upload_state st) = st" "protocol_upload_state (store_upload_state js) = js"
  by (cases st; simp) (cases js; simp)

interpretation wire_state: codec "\<lambda>_. True" protocol_upload_state "\<lambda>js. Some (store_upload_state js)"
  by unfold_locales (simp add: state_projection)

lemma protocol_state_inject [simp]: "protocol_upload_state a = protocol_upload_state b \<longleftrightarrow> a = b"
  by (rule wire_state.enc_inject) simp_all

subsection \<open>Texts\<close>

text \<open>Texts of plain characters pass the wire checks when they are short enough.\<close>

definition printable :: "char \<Rightarrow> bool" where
  "printable c \<longleftrightarrow> 32 \<le> (of_char c :: nat) \<and> (of_char c :: nat) < 127"

lemma printable_no_control:
  "list_all printable s \<Longrightarrow> \<not> list_ex char_is_control (chars s)"
  by (subst chars_ascii) (auto simp: list_all_iff list_ex_iff printable_def is_ascii_char_def char_is_control_def)

lemma plain_printable: "list_all plain_char s \<Longrightarrow> list_all printable s"
  by (auto simp: list_all_iff plain_char_def printable_def is_digit_def Let_def)

lemma hex_printable: "list_all printable (hex_encode bs)"
proof -
  have "printable (hex_digit n)" if "unat n < 16" for n
    using nibble_cases [OF that] by (auto simp: printable_def hex_digit_def hex_table_def)
  moreover have "unat (drop_bit 4 b) < 16" "unat (b AND 15) < 16" for b :: u8
    by (simp_all add: unat_low_nibble unat_high_nibble)
  ultimately show ?thesis by (auto simp: hex_encode_def list_all_iff)
qed

lemma generated_name_length:
  assumes "is_generated_frame_filename name"
  shows "length name \<le> 89"
proof -
  from assms obtain t where "parse_generated_frame_filename name = Some t"
    by (auto simp: is_generated_frame_filename_def split: option.splits)
  then show ?thesis
  proof (rule parse_generated_frame_filename_Some)
    fix seconds millis nonce sequence ext
    assume name: "name = frame_stem_text seconds millis nonce sequence @ ext" "ext \<in> frame_extensions"
      and ok: "frame_fields_ok seconds millis nonce sequence"
      and time: "frame_time seconds millis sequence = Some t"
    have short: "length (decimal n) \<le> 20" "length (padded 6 n) \<le> 20" if "n \<le> u64_max" for n
      using that length_decimal_le [of n 20] by (auto simp: u64_max_def padded_def)
    from time obtain a b where "seconds = decimal a" "sequence = padded 6 b" "a \<le> u64_max" "b \<le> u64_max"
      by (auto simp: frame_time_def parse_u64_def Let_def split: if_splits Option.bind_splits)
    then have "length seconds \<le> 20" "length sequence \<le> 20" using short by auto
    then show ?thesis using ok name
      by (auto simp: frame_stem_text_def frame_fields_ok_def frame_extensions_def
          capture_session_nonce_hex_length_def split: option.splits)
  qed
qed

subsection \<open>Errors of the worker\<close>

text \<open>Every error text that the upload worker stores, and rows that hold no other.\<close>

definition upload_error_texts :: "string list" where
  "upload_error_texts =
     [missing_artifact_error, unopenable_artifact_error, symlink_artifact_error, non_file_artifact_error,
      artifact_size_changed_error, artifact_content_changed_error, invalid_header_error, transport_error,
      retryable_http_error, permanent_http_error, retry_time_error]"

lemmas error_texts = missing_artifact_error_def unopenable_artifact_error_def symlink_artifact_error_def
  non_file_artifact_error_def artifact_size_changed_error_def artifact_content_changed_error_def
  invalid_header_error_def transport_error_def retryable_http_error_def permanent_http_error_def
  retry_time_error_def

lemma error_text_ok: "e \<in> set upload_error_texts \<Longrightarrow> e \<noteq> [] \<and> length e \<le> 2048 \<and> list_all printable e"
  by (auto simp: upload_error_texts_def error_texts printable_def)

definition error_known :: "upload_job \<Rightarrow> bool" where
  "error_known r \<longleftrightarrow> (case j_last_error r of None \<Rightarrow> True | Some e \<Rightarrow> e \<in> set upload_error_texts)"

definition errors_known :: "upload_store \<Rightarrow> bool" where
  "errors_known s \<longleftrightarrow> (\<forall>r \<in> set (s_jobs s). error_known r)"

lemma update_known:
  assumes "sql_update_jobs columns condition assign (s_db s) = Inr (db, n)" and "errors_known s"
    and "\<And>r. error_known r \<Longrightarrow> error_known (assign r)"
  shows "errors_known (s\<lparr>s_db := db\<rparr>)"
  using sql_update_jobs_effect(1) [OF assms(1)] assms(2,3) by (auto simp: errors_known_def)

lemma record_known:
  assumes "record_artifact fs sha path now s = Inr (out, s')" and "errors_known s"
  shows "errors_known s'"
proof -
  obtain job_id disposition where "out = (job_id, disposition)" by (cases out)
  with assms(1) have "record_artifact fs sha path now s = Inr ((job_id, disposition), s')" by simp
  then show ?thesis
  proof (cases rule: record_artifact_Inr)
    case (1 vals db n)
    then show ?thesis using sql_insert_job_effect [OF 1(2)] assms(2)
      by (auto simp: errors_known_def error_known_def new_job_def)
  qed
qed

lemma claim_known:
  assumes "claim_due now s = Inr (res, s')" and "errors_known s"
  shows "errors_known s'"
  using assms(1)
proof (cases rule: claim_due_Inr)
  case (claimed candidate job_id claim attempt db)
  have "errors_known (s\<lparr>s_db := db\<rparr>)"
    by (rule update_known [OF claimed(6) assms(2)]) (simp add: error_known_def)
  then show ?thesis by (simp add: claimed(8))
qed (use assms in simp)

lemma release_known: "release_claim claim now s = Inr s' \<Longrightarrow> errors_known s \<Longrightarrow> errors_known s'"
  by (auto simp: release_claim_def result_simps error_known_def intro: update_known)

lemma requeue_known:
  assumes "requeue_permanently_failed fs sha request now s = Inr (out, s')" and "errors_known s"
  shows "errors_known s'"
  using assms(1)
proof (cases rule: requeue_Inr)
  case (1 raw sz f db)
  have "errors_known (s\<lparr>s_db := db\<rparr>)"
    by (rule update_known [OF 1(9) assms(2)]) (simp add: error_known_def)
  then show ?thesis by (simp add: 1(10))
qed

lemma marks_known:
  assumes "errors_known s"
  shows "mark_completed claim now status s = Inr s' \<Longrightarrow> errors_known s'"
    and "mark_permanently_failed claim now st (Some e) s = Inr s' \<Longrightarrow> e \<in> set upload_error_texts \<Longrightarrow> errors_known s'"
    and "mark_retrying claim now next st (Some e) s = Inr s' \<Longrightarrow> e \<in> set upload_error_texts \<Longrightarrow> errors_known s'"
  using assms
  by (auto simp: mark_completed_def mark_permanently_failed_def mark_retrying_def result_simps error_known_def
      intro: update_known)

fun outcome_error :: "attempt_outcome \<Rightarrow> string option" where
  "outcome_error (AttemptSuccess _) = None"
| "outcome_error (AttemptRetry _ _ e) = Some e"
| "outcome_error (AttemptPermanent _ e) = Some e"

lemma attempt_error_known:
  "outcome_error (upload_artifact fs rd sha header_ok authorization agent claim) = Some e \<Longrightarrow>
     e \<in> set upload_error_texts"
  by (auto simp: upload_artifact_def classify_status_def upload_error_texts_def
      split: sum.splits snapshotted_artifact.splits artifact_verification.splits if_splits http_result.splits)

lemma persist_known:
  assumes "persist_outcome schedule claim outcome at s = Inr (s', err)" and "errors_known s"
    and "\<And>e. outcome_error outcome = Some e \<Longrightarrow> e \<in> set upload_error_texts"
  shows "errors_known s'"
proof -
  have retry: "retry_time_error \<in> set upload_error_texts" by (simp add: upload_error_texts_def)
  show ?thesis
    using assms(1,3) marks_known [OF assms(2)] retry
    by (cases outcome) (auto simp: persist_outcome_def Let_def split: sum.splits option.splits)
qed

lemma persist_and_publish_known:
  assumes "persist_outcome_and_publish locks observe schedule claim outcome at sh = (sh', r)"
    and "errors_known (us_store sh)"
    and "\<And>e. outcome_error outcome = Some e \<Longrightarrow> e \<in> set upload_error_texts"
  shows "errors_known (us_store sh')"
proof (cases "take_locks locks")
  case (Inl e)
  then show ?thesis using assms by (simp add: persist_outcome_and_publish_def)
next
  case (Inr u)
  then show ?thesis using assms(1,2) persist_known [OF _ assms(2,3)]
    by (auto simp: persist_outcome_and_publish_def split: sum.splits prod.splits option.splits
        dest!: publish_snapshot_same)
qed

subsection \<open>The life of an agent's service\<close>

text \<open>
  The runs of the upload service over all restarts: every later process opens the file that an
  earlier service left.
\<close>

inductive upload_run :: "(u8 list \<Rightarrow> u8 list) \<Rightarrow> upload_service \<Rightarrow> bool" for sha where
  first: "f_user_version file = 0 \<Longrightarrow> database_is_completely_empty file \<Longrightarrow>
     \<forall>p q. canonicalize fs p = Inr q \<longrightarrow> path_is_absolute q \<Longrightarrow>
     start_with_transport capacity clock env fs sha endpoint schema dir destination authorization
       observe file = (file', Inr sv) \<Longrightarrow>
     upload_run sha sv"
| again: "upload_run sha sv \<Longrightarrow> carries file (s_db (sv_store sv)) \<Longrightarrow>
     start_with_transport capacity clock env fs sha endpoint schema dir destination authorization
       observe file = (file', Inr sv') \<Longrightarrow>
     upload_run sha sv'"
| stepped: "upload_run sha sv \<Longrightarrow> service_step sha sv sv' \<Longrightarrow> upload_run sha sv'"

lemma upload_run_service:
  "upload_run sha sv \<Longrightarrow> \<exists>sv0. service_init sha sv0 \<and> (service_step sha)\<^sup>*\<^sup>* sv0 sv"
proof (induction rule: upload_run.induct)
  case (first f fs capacity clock env endpoint schema dir destination authorization observe f' sv)
  then show ?case using service_init.first by blast
next
  case (again sv f capacity clock env fs endpoint schema dir destination authorization observe f' sv')
  then obtain s0 where "ledger_init sha s0" "ledger_steps sha s0 (sv_store sv)"
    using upload_service.reachable_sim by blast
  then show ?case using service_init.again again(2,3) by blast
next
  case (stepped sv sv')
  then show ?case by (meson rtranclp.rtrancl_into_rtrancl)
qed

lemma upload_run_inv: "upload_run sha sv \<Longrightarrow> service_inv sha sv"
  using upload_run_service service.reachable_inv by blast

lemma reconcile_record_known:
  "reconcile_record fs sha now paths result s = (s', r) \<Longrightarrow> errors_known s \<Longrightarrow> errors_known s'"
proof (induction paths arbitrary: result s)
  case (Cons path paths)
  show ?case
  proof (cases "record_artifact fs sha path now s")
    case (Inr p)
    obtain job_id disposition t where p: "p = ((job_id, disposition), t)" by (metis prod.collapse)
    have "errors_known t" using Inr p Cons.prems(2) record_known by blast
    then show ?thesis using Cons.prems(1) Cons.IH
      by (auto simp: Inr p split: record_disposition.splits sum.splits)
  qed (use Cons.prems in simp)
qed simp

lemma reconcile_known:
  "reconcile_capture_directory fs sha now s = (s', r) \<Longrightarrow> errors_known s \<Longrightarrow> errors_known s'"
  by (auto simp: reconcile_capture_directory_def split: sum.splits prod.splits
      intro: reconcile_record_known)

lemma start_known:
  assumes "start_with_transport capacity clock env fs sha endpoint schema dir destination authorization
      observe file = (file', Inr sv)"
    and opened: "\<And>file1 s1. open_store env fs sha endpoint schema dir destination authorization file
      = (file1, Inr s1) \<Longrightarrow> errors_known s1"
  shows "errors_known (sv_store sv)"
  using assms(1) opened
  by (auto simp: start_with_transport_def split: if_splits sum.splits prod.splits
      dest!: publish_snapshot_same reconcile_known)

lemma step_known:
  assumes "service_step sha sv sv'" and known: "errors_known (sv_store sv)"
  shows "errors_known (sv_store sv')"
  using assms(1)
proof cases
  case (top locks observe clock)
  show ?thesis
  proof (cases "sv_stop sv \<or> (\<exists>e. clock = Inl e)")
    case True
    then show ?thesis using top known by (auto simp: loop_top_def)
  next
    case False
    then obtain now where now: "clock = Inr now" "\<not> sv_stop sv" by (cases clock) auto
    obtain sh r where run: "claim_and_publish locks observe now (sv_shared sv) = (sh, r)" by fastforce
    then have "errors_known (us_store sh)"
    proof (cases rule: claim_and_publish_store)
      case (claimed claim)
      then show ?thesis using claim_known known by blast
    qed (use known in simp)
    then show ?thesis using top now run by (auto simp: loop_top_def split: sum.splits option.splits)
  qed
next
  case (wait ms received)
  then show ?thesis using known by (auto simp: loop_wait_def split: wake_reception.splits)
next
  case (claimed claim t locks observe)
  obtain sh r where run: "release_and_publish locks observe claim t (sv_shared sv) = (sh, r)" by fastforce
  then have "errors_known (us_store sh)"
    using release_and_publish_store [OF run] release_known known by auto
  then show ?thesis using claimed known run by (auto simp: loop_claimed_def split: sum.splits)
next
  case (attempted claim t outcome fs rd header_ok authorization agent locks observe clock)
  obtain at e where at: "(case clock of Inr now \<Rightarrow> (now, None) | Inl e \<Rightarrow> (t, Some e)) = (at, e)" by fastforce
  obtain sh r where run: "persist_outcome_and_publish locks observe retry_delays claim outcome at (sv_shared sv)
      = (sh, r)" by fastforce
  have "errors_known (us_store sh)"
    by (rule persist_and_publish_known [OF run known]) (use attempt_error_known attempted in blast)
  then show ?thesis using attempted at run by (auto simp: loop_persist_def split: sum.splits option.splits)
next
  case persisted
  then show ?thesis using known by (simp add: loop_persisted_def)
next
  case (ended result)
  then show ?thesis using known by (simp add: upload_stop_on_drop_def)
next
  case (enqueued fs locks observe clock path r)
  then show ?thesis using try_enqueue_shared(2) [OF enqueued] record_known known by auto
next
  case (requeued fs locks observe request now r)
  then show ?thesis using requeue_and_wake_shared(2) [OF requeued] requeue_known known by auto
next
  case stopped
  then show ?thesis using known by simp
qed

lemma run_errors_known: "upload_run sha sv \<Longrightarrow> errors_known (sv_store sv)"
proof (induction rule: upload_run.induct)
  case (first f fs capacity clock env endpoint schema dir destination authorization observe f' sv)
  have "errors_known s1" if "open_store env fs sha endpoint schema dir destination authorization f = (f1, Inr s1)"
    for f1 s1
    using ledger_init_inv [OF ledger_init.opened [OF first(1-3) that]] by (simp add: errors_known_def)
  then show ?case by (rule start_known [OF first(4)])
next
  case (again sv f capacity clock env fs endpoint schema dir destination authorization observe f' sv')
  have inv: "store_inv sha (sv_store sv)" using upload_run_inv [OF again(1)] by (simp add: service_inv_def)
  have "errors_known s1" if "open_store env fs sha endpoint schema dir destination authorization f = (f1, Inr s1)"
    for f1 s1
    using reopen_effect(1) [OF that again(2) inv] again.IH
    by (auto simp: errors_known_def error_known_def recovered_job_def)
  then show ?case by (rule start_known [OF again(3)])
next
  case (stepped sv sv')
  then show ?case by (blast intro: step_known)
qed

end
