(* ===== verification/UploadAdminTheorems.thy ===== *)
theory UploadAdminTheorems
  imports UploadAdmin
begin

text \<open>
  Every row of a running agent has a valid wire summary, so the facade's answers always pass its
  own validation: an operator never sees an internal error that the state of the ledger caused.
\<close>

subsection \<open>Rows have valid summaries\<close>

lemma item_fields:
  assumes "store_inv sha s" and "r \<in> set (s_jobs s)"
  shows "li_filename (item_of s r) = j_filename r"
    "li_next_attempt_at (item_of s r) = map_option nat (j_next_attempt_at r)"
    "li_completed_at (item_of s r) = map_option nat (j_completed_at r)"
    "li_last_requeued_at (item_of s r) = map_option nat (j_last_requeued_at r)"
    "li_last_http_status (item_of s r) = map_option nat (j_last_http_status r)"
    "li_last_error (item_of s r) = j_last_error r"
    "li_requeue_count (item_of s r) = nat (j_requeue_count r)"
proof -
  note row = store_inv_job [OF assms]
  note run = item_of(1) [OF assms]
  have opt: "opt_nonneg v \<Longrightarrow> optional_database_u64 c v = Inr (map_option nat v)" for c v
    by (rule optional_u64_ok)
  have nonneg: "opt_nonneg (j_next_attempt_at r)" "opt_nonneg (j_completed_at r)" "opt_nonneg (j_last_requeued_at r)"
    using row(1) by (simp_all add: job_checks_def)
  show "li_filename (item_of s r) = j_filename r"
    "li_last_error (item_of s r) = j_last_error r"
    using run by (auto simp: into_list_item_def result_simps dest!: sym [of _ "item_of s r"])
  show "li_next_attempt_at (item_of s r) = map_option nat (j_next_attempt_at r)"
    "li_completed_at (item_of s r) = map_option nat (j_completed_at r)"
    "li_last_requeued_at (item_of s r) = map_option nat (j_last_requeued_at r)"
    using run nonneg by (auto simp: into_list_item_def result_simps opt dest!: sym [of _ "item_of s r"])
  show "li_last_http_status (item_of s r) = map_option nat (j_last_http_status r)"
    using run by (auto simp: into_list_item_def result_simps optional_database_u16_def split: option.splits if_splits
        dest!: sym [of _ "item_of s r"])
  show "li_requeue_count (item_of s r) = nat (j_requeue_count r)"
    using run by (auto simp: into_list_item_def result_simps database_u64_def split: if_splits
        dest!: sym [of _ "item_of s r"])
qed

lemma generated_filename_valid:
  assumes "is_generated_frame_filename name"
  shows "validate_upload_filename name = Inr ()"
proof -
  from assms obtain t where "parse_generated_frame_filename name = Some t"
    by (auto simp: is_generated_frame_filename_def split: option.splits)
  then have plain: "list_all plain_char name" using accepted_name_plain by blast
  moreover have "CHR ''/'' \<notin> set name" "CHR 0x5C \<notin> set name" "CHR '':'' \<notin> set name"
    using plain by (auto simp: list_all_iff plain_char_def is_digit_def)
  ultimately show ?thesis
    using generated_name_component [OF assms] generated_name_length [OF assms]
      printable_no_control [OF plain_printable]
    by (simp add: validate_upload_filename_def validate_bounded_upload_text_def bounded_text_reason_def
        upload_filename_max_bytes_def)
qed

lemma row_summary_valid:
  assumes inv: "store_inv sha s" and r: "r \<in> set (s_jobs s)" and known: "error_known r"
  shows "summary_validate (protocol_upload_job (item_of s r)) = Inr ()"
proof -
  note row = store_inv_job [OF inv r]
  note item = item_of(2,4,5) [OF inv r] item_fields [OF inv r]
  have name: "validate_upload_filename (j_filename r) = Inr ()"
    using row(4) by (intro generated_filename_valid) (simp add: job_belongs_def stored_identity_ok_def)
  have states: "li_state (item_of s r) = Retrying \<longleftrightarrow> j_next_attempt_at r \<noteq> None"
    "li_state (item_of s r) = Completed \<longleftrightarrow> j_completed_at r \<noteq> None"
    using row(1) item(2) state_text_inject [of "li_state (item_of s r)"]
    by (metis job_checks_def state_text.simps)+
  have requeued: "(0 < nat (j_requeue_count r)) = (j_last_requeued_at r \<noteq> None)"
    using row(1) by (auto simp: job_checks_def)
  have status: "100 \<le> nat st \<and> nat st \<le> 599" if "j_last_http_status r = Some st" for st
    using row(1) that by (auto simp: job_checks_def)
  have error: "validate_bounded_upload_text e ''last_error'' upload_error_max_bytes InvalidLastError = Inr ()"
    if "j_last_error r = Some e" for e
    using known that error_text_ok [of e] printable_no_control [of e]
    by (simp add: error_known_def validate_bounded_upload_text_def bounded_text_reason_def upload_error_max_bytes_def)
  have id: "1 \<le> job_id_get (li_job_id (item_of s r))" "job_id_get (li_job_id (item_of s r)) \<le> upload_job_id_max"
    using row(2,3) item(1) by (auto simp: job_id_get_def upload_job_id_max_def job_in_range_def in_i64_def i64_max_def)
  have revision: "li_job_revision (item_of s r) \<noteq> 0"
    using row(1) item(3) by (auto simp: job_checks_def)
  show ?thesis
    unfolding summary_validate_def protocol_upload_job_def
    using name states requeued status error id revision
      protocol_state_inject [of "li_state (item_of s r)" Retrying]
      protocol_state_inject [of "li_state (item_of s r)" Completed]
      protocol_state_inject [of "li_state (item_of s r)" PermanentlyFailed]
    by (auto simp: item(4-) split: option.splits)
qed

subsection \<open>Pages are valid\<close>

lemma list_jobs_page:
  assumes inv: "store_inv sha s" and run: "list_jobs sha states page cursor s = Inr p"
    and digest: "\<forall>bytes. length (sha bytes) = 32"
  obtains rows where "lp_jobs p = map (item_of s) rows" "set rows \<subseteq> set (s_jobs s)" "distinct (map j_id rows)"
    "length rows \<le> page" "lp_ledger_id p = s_ledger_id s" "length (s_ledger_id s) = 16"
    "\<And>c. lp_next_cursor p = Some c \<Longrightarrow> length c = 108 \<and> list_all printable c"
proof -
  note nums = store_numbers [OF inv]
  from run obtain mk hw b where
    listed: "list_page sha s (s_ledger_id s) (nat (ledger_revision s)) hw b mk page = Inr p"
    using nums(1) unfolding list_jobs_def Let_def nums(6)
    by (auto simp: result_simps database_u64_def split: prod.splits)
  let ?rows = "list_query (int hw) b mk (page + 1) (s_jobs s)"
  have sub: "set ?rows \<subseteq> set (s_jobs s)" by (auto simp: list_query_def dest: in_set_takeD)
  have dist: "distinct (map j_id ?rows)"
  proof -
    have ids: "distinct (map j_id (s_jobs s))"
      using store_inv_ledger [OF inv] by (auto simp: ledger_inv_def strict_sorted_iff)
    have "distinct (map j_id (sort_key (\<lambda>r. - j_id r) (filter P (s_jobs s))))" for P
    proof -
      have "distinct (map j_id (filter P (s_jobs s)))" using ids by (simp add: distinct_map_filter)
      then show ?thesis by (auto simp: distinct_map inj_on_def)
    qed
    then show ?thesis by (simp add: list_query_def flip: take_map)
  qed
  note items = collect_items_runs [OF inv sub]
  let ?shown = "if page < length ?rows then take page ?rows else ?rows"
  have "set ?shown \<subseteq> set ?rows" by (auto dest: in_set_takeD)
  with sub have "set ?shown \<subseteq> set (s_jobs s)" by blast
  moreover have "lp_jobs p = map (item_of s) ?shown"
    using listed [unfolded list_page_def items rbind_simps] by (auto simp: Let_def take_map)
  moreover have "distinct (map j_id ?shown)" using dist by (auto simp flip: take_map)
  moreover have "length ?shown \<le> page" by auto
  moreover have "lp_ledger_id p = s_ledger_id s"
    using listed [unfolded list_page_def items rbind_simps] by (auto simp: Let_def)
  moreover have "length c = 108 \<and> list_all printable c" if "lp_next_cursor p = Some c" for c
  proof -
    from listed [unfolded list_page_def items rbind_simps] that obtain rv bf where
      c: "c = encode_list_cursor sha (s_ledger_id s) rv hw bf mk page"
      by (auto simp: Let_def split: if_splits)
    have tag: "length (list_cursor_ledger_tag sha (s_ledger_id s)) = 8"
      using digest by (simp add: list_cursor_ledger_tag_def)
    have "length (list_cursor_payload sha (s_ledger_id s) rv hw bf mk page) = 35"
      using payload_parts(1) [OF tag] by (simp add: list_cursor_payload_def)
    moreover have "length (list_cursor_mac sha (s_ledger_id s) x) = 16" for x
      using digest by (simp add: list_cursor_mac_def list_cursor_mac_length_def)
    ultimately show ?thesis
      using hex_printable
      by (auto simp: c encode_list_cursor_def Let_def list_cursor_prefix_def length_hex_encode printable_def)
  qed
  ultimately show thesis using that nums(5,6) by metis
qed

lemma mask_of_states_distinct:
  assumes "distinct states" and "\<forall>st \<in> set states. bits AND filter_bit st = 0"
  shows "\<exists>mk. mask_of_states bits states = Inr mk"
  using assms
proof (induction states arbitrary: bits)
  case (Cons st states)
  have "(bits OR filter_bit st) AND filter_bit q = 0" if "q \<in> set states" for q
    using Cons.prems that filter_bits_disjoint [of st q] by (auto simp: and_or_zero)
  then show ?case using Cons by auto
qed simp

lemma decode_list_cursor_Inl:
  "decode_list_cursor sha c ledger_id = Inl e \<Longrightarrow> e = InvalidListCursor \<or> e = StaleListCursor"
  by (auto simp: decode_list_cursor_def Let_def result_simps)

lemma list_jobs_Inl:
  assumes inv: "store_inv sha s" and run: "list_jobs sha states page cursor s = Inl e"
    and page: "1 \<le> page" "page \<le> 100" and states: "distinct states"
  shows "cursor \<noteq> None \<and> e \<in> {InvalidListCursor, StaleListCursor, ListCursorParametersMismatch}"
proof -
  note nums = store_numbers [OF inv]
  have mask: "\<exists>mk. canonical_state_filter_mask states = Inr mk"
    using mask_of_states_distinct [OF states, of 0] by (simp add: canonical_state_filter_mask_def)
  have runs: "list_page sha s (s_ledger_id s) rv hw b mk page \<noteq> Inl q" for rv hw b mk q
  proof -
    have "set (list_query (int hw) b mk (page + 1) (s_jobs s)) \<subseteq> set (s_jobs s)"
      by (auto simp: list_query_def dest: in_set_takeD)
    from collect_items_runs [OF inv this] show ?thesis by (auto simp: list_page_def Let_def)
  qed
  have pos: "cursor \<noteq> None \<and> q \<in> {InvalidListCursor, StaleListCursor, ListCursorParametersMismatch}"
    if "cursor_position sha (s_ledger_id s) rv hw mk page cursor = Inl q" for rv hw mk q
    using that decode_list_cursor_Inl
    by (auto simp: cursor_position_def result_simps split: option.splits dest!: decode_list_cursor_Inl)
  have first: "cursor_position sha (s_ledger_id s) rv hw mk page None = Inr (hw, u64_max)" for rv hw mk
    by (simp add: cursor_position_def)
  show ?thesis
    using run page mask pos nums(1,3,4) nums(5) [unfolded nums(6)] first runs
    unfolding list_jobs_def Let_def nums(6)
    by (cases cursor) (auto simp: result_simps max_upload_list_page_size_def database_u64_def split: prod.splits if_splits)
qed

text \<open>C21: an operator's listing always succeeds or says what is wrong with the question: in every
  state of a running agent, over all restarts, a valid request is answered by a response that
  passes its own validation and shows rows of the ledger, or refused because of its cursor; a
  request without a cursor is never refused. The row data can always be put on the wire.\<close>

theorem listing_is_always_representable:
  assumes run: "upload_run sha sv" and digest: "\<forall>bytes. length (sha bytes) = 32"
    and request: "list_request_validate request = Inr ()" and lock: "lk_store locks"
  shows "case admin_list sha locks request sv of
      Inl e \<Rightarrow> lr_cursor request \<noteq> None
        \<and> e \<in> {AdminInvalidCursor, AdminStaleCursor, AdminCursorParametersMismatch}
    | Inr response \<Rightarrow> list_response_validate response = Inr ()
        \<and> (\<exists>rows. set rows \<subseteq> set (s_jobs (sv_store sv))
              \<and> lx_jobs response = map (\<lambda>r. protocol_upload_job (item_of (sv_store sv) r)) rows)"
proof -
  let ?s = "sv_store sv"
  let ?states = "map store_upload_state (lr_states request)"
  have inv: "store_inv sha ?s" using upload_run_inv [OF run] by (simp add: service_inv_def)
  have known: "errors_known ?s" by (rule run_errors_known [OF run])
  have page: "1 \<le> lr_page_size request" "lr_page_size request \<le> 100" and "distinct (lr_states request)"
    using request by (auto simp: list_request_validate_def result_simps check_distinct_states_Inr
        protocol_limits split: if_splits)
  then have states: "distinct ?states"
    by (simp add: distinct_map inj_on_def) (metis state_projection(2))
  show ?thesis
  proof (cases "list_jobs sha ?states (lr_page_size request) (lr_cursor request) ?s")
    case (Inl e)
    from list_jobs_Inl [OF inv this page states] show ?thesis
      using Inl request lock by (auto simp: admin_list_def)
  next
    case (Inr p)
    from list_jobs_page [OF inv Inr digest] obtain rows where
      rows: "lp_jobs p = map (item_of ?s) rows" "set rows \<subseteq> set (s_jobs ?s)" "distinct (map j_id rows)"
        "length rows \<le> lr_page_size request" "lp_ledger_id p = s_ledger_id ?s" "length (s_ledger_id ?s) = 16"
      and cursor: "\<And>c. lp_next_cursor p = Some c \<Longrightarrow> length c = 108 \<and> list_all printable c" by metis
    let ?response = "\<lparr>lx_ledger_id = hex_encode (lp_ledger_id p),
        lx_jobs = map protocol_upload_job (lp_jobs p), lx_next_cursor = lp_next_cursor p\<rparr>"
    have ids: "js_job_id (protocol_upload_job (item_of ?s r)) = nat (j_id r)" "0 < j_id r" if "r \<in> set rows" for r
      using rows(2) that item_of(2) [OF inv] store_inv_job(3) [OF inv]
      by (auto simp: protocol_upload_job_def job_id_get_def)
    have "map js_job_id (lx_jobs ?response) = map (\<lambda>r. nat (j_id r)) rows"
      using ids by (simp add: rows(1))
    moreover have "distinct (map (\<lambda>r. nat (j_id r)) rows)"
    proof -
      have "nat (j_id x) = nat (j_id y) \<longleftrightarrow> j_id x = j_id y" if "x \<in> set rows" "y \<in> set rows" for x y
        using ids(2) [OF that(1)] ids(2) [OF that(2)] by linarith
      then show ?thesis using rows(3) by (auto simp: distinct_map inj_on_def)
    qed
    moreover have "\<forall>j \<in> set (lx_jobs ?response). summary_validate j = Inr ()"
      using rows(2) row_summary_valid [OF inv] known by (auto simp: rows(1) errors_known_def)
    ultimately have jobs: "check_jobs [] (lx_jobs ?response) = Inr ()" by (simp add: check_jobs_Inr)
    have "length (hex_encode (lp_ledger_id p)) = 32" using rows(5,6) by simp
    then have "hex_encode (lp_ledger_id p) \<noteq> []" by fastforce
    then have "validate_upload_ledger_id (hex_encode (lp_ledger_id p)) = Inr ()"
      using rows(5,6) printable_no_control [OF hex_printable] length_hex_encode [of "lp_ledger_id p"]
      by (auto simp: validate_upload_ledger_id_def validate_opaque_upload_token_def result_simps
          upload_ledger_id_max_bytes_def)
    moreover have "validate_cursor ''next_cursor'' (lp_next_cursor p) = Inr ()"
    proof (cases "lp_next_cursor p")
      case (Some c)
      then show ?thesis using cursor [OF Some] printable_no_control [of c]
        by (auto simp: validate_cursor_def validate_opaque_upload_token_def result_simps upload_cursor_max_bytes_def)
    qed (simp add: validate_cursor_def)
    ultimately have "list_response_validate ?response = Inr ()"
      using jobs rows(4) page by (simp add: list_response_validate_def rows(1) upload_list_max_page_size_def)
    then show ?thesis using Inr request lock rows(1,2)
      by (auto simp: admin_list_def Let_def)
  qed
qed

subsection \<open>Requeue\<close>

lemma requeued_item:
  assumes "requeue_permanently_failed fs sha request now s = Inr (out, s')" and "store_inv sha s'"
  shows "\<exists>r \<in> set (s_jobs s'). ro_job out = item_of s' r"
proof -
  from assms(1) obtain db r where
    s': "s' = s\<lparr>s_db := db\<rparr>" and found: "find (\<lambda>r. j_id r = job_id_value (rq_job_id request)) (db_jobs db) = Some r"
    and item: "into_list_item (s_capture_root s) (s_delivery_binding s) r = Inr (ro_job out)"
    unfolding requeue_permanently_failed_def by (auto simp: result_simps)
  then have "r \<in> set (s_jobs s')" using find_SomeD by fastforce
  moreover have "into_list_item (s_capture_root s') (s_delivery_binding s') r = Inr (ro_job out)"
    using item by (simp add: s')
  ultimately have "r \<in> set (s_jobs s')" "ro_job out = item_of s' r"
    using item_of(1) [OF assms(2)] by auto
  then show ?thesis by blast
qed

text \<open>An operator who is told that a requeue failed can rely on it: as long as the telemetry
  observer works, every error answer leaves the ledger as it was, in particular the answer of a
  committed requeue always passes the facade's own validation.\<close>

lemma failed_requeue_changes_nothing:
  assumes run: "upload_run sha sv"
    and answer: "admin_requeue fs sha locks (\<lambda>_. True) clock request sv = (sv', Inl e)"
  shows "sv_store sv' = sv_store sv"
proof (rule ccontr)
  assume changed: "sv_store sv' \<noteq> sv_store sv"
  from answer changed obtain rq now out sv1 where
    wake: "requeue_and_wake fs sha locks (\<lambda>_. True) rq now sv = (sv1, out)" and sv': "sv' = sv1"
    and out: "(\<exists>e. out = Inl e) \<or> (\<exists>outcome w. out = Inr (outcome, w)
      \<and> requeue_result_validate \<lparr>qx_job = protocol_upload_job (ro_job outcome), qx_worker_notified = w\<rparr> \<noteq> Inr ())"
    by (auto simp: admin_requeue_def Let_def split: sum.splits prod.splits)
  have step: "service_step sha sv sv1" by (rule service_step.requeued [OF wake])
  have run1: "upload_run sha sv1" by (rule upload_run.stepped [OF run step])
  have inv1: "store_inv sha (sv_store sv1)" using upload_run_inv [OF run1] by (simp add: service_inv_def)
  have "\<exists>sh result. requeue_and_publish fs sha locks (\<lambda>_. True) rq now (sv_shared sv) = (sh, Inr result)
      \<and> requeue_permanently_failed fs sha rq now (sv_store sv) = Inr (result, us_store sh) \<and> us_store sh = sv_store sv1
      \<and> (\<exists>w. out = Inr (result, w))"
  proof -
    obtain sh r where critical: "requeue_and_publish fs sha locks (\<lambda>_. True) rq now (sv_shared sv) = (sh, r)"
      by fastforce
    have store: "us_store sh = sv_store sv1"
      using wake critical by (auto simp: requeue_and_wake_def Let_def split: sum.splits if_splits option.splits prod.splits
          dest!: wake_try_send_same)
    then have "us_store sh \<noteq> sv_store sv" using changed sv' by simp
    then obtain result where ran0: "take_locks locks = Inr ()"
      "requeue_permanently_failed fs sha rq now (sv_store sv) = Inr (result, us_store sh)"
      using critical by (auto simp: requeue_and_publish_def split: sum.splits prod.splits dest!: publish_snapshot_same)
    moreover have "store_inv sha (us_store sh)" using inv1 store by simp
    then obtain sn where "snapshot (us_store sh) = Inr sn" using snapshot_runs by blast
    then have "publish_snapshot (\<lambda>_. True) ((sv_shared sv)\<lparr>us_store := us_store sh\<rparr>)
        = (((sv_shared sv)\<lparr>us_store := us_store sh\<rparr>)
            \<lparr>us_published := us_published (sv_shared sv) @ [telemetry_from sn]\<rparr>, Inr ())"
      by (simp add: publish_snapshot_def notify_observer_def)
    ultimately have "r = Inr result" using critical by (simp add: requeue_and_publish_def)
    then show ?thesis using critical ran0(2) store wake
      by (auto simp: requeue_and_wake_def Let_def split: if_splits option.splits prod.splits)
  qed
  then obtain result w where ran: "requeue_permanently_failed fs sha rq now (sv_store sv) = Inr (result, sv_store sv1)"
    and ok: "out = Inr (result, w)" by metis
  obtain r where r: "r \<in> set (s_jobs (sv_store sv1))" "ro_job result = item_of (sv_store sv1) r"
    using requeued_item [OF ran inv1] by blast
  have "error_known r" using run_errors_known [OF run1] r(1) by (simp add: errors_known_def)
  then have "summary_validate (protocol_upload_job (ro_job result)) = Inr ()"
    using row_summary_valid [OF inv1 r(1)] r(2) by simp
  then show False using out ok by (auto simp: requeue_result_validate_def)
qed

subsection \<open>On a running service\<close>

lemma demo_upload_run: "upload_run demo_sha demo_sending"
proof -
  have start: "upload_run demo_sha demo_started"
  proof (rule upload_run.first)
    show "start_with_transport 1 (Inr 5) demo_env demo_fs demo_sha Some demo_schema demo_root
       ''https://u/'' demo_digest (\<lambda>_. True) demo_empty = (fst demo_service, Inr demo_started)"
      using demo_service_starts by (simp add: demo_service_def prod_eq_iff)
  qed (auto simp: demo_empty_def demo_fs_def database_is_completely_empty_def split: if_splits)
  from demo_sending_run show ?thesis
    by (induction rule: rtranclp_induct) (auto intro: start upload_run.stepped)
qed

theorem listing_is_always_representable_witness:
  "\<exists>response. admin_list demo_sha demo_locks upload_list_request_default demo_sending = Inr response
    \<and> list_response_validate response = Inr ()"
proof -
  have "\<forall>bytes. length (demo_sha bytes) = 32" by (simp add: demo_digest_def)
  moreover have "list_request_validate upload_list_request_default = Inr ()" by code_simp
  moreover have "lk_store demo_locks" "lr_cursor upload_list_request_default = None"
    by (simp_all add: demo_locks_def upload_list_request_default_def)
  ultimately show ?thesis
    using listing_is_always_representable [OF demo_upload_run, of upload_list_request_default demo_locks]
    by (auto split: sum.splits)
qed

end
