(* ===== verification/ProtocolFraming.thy ===== *)
theory ProtocolFraming
  imports Protocol Bytes Paths "HOL-Library.Stream"
begin

text \<open>
  The framing of the control and preview protocols: length-prefixed messages, written to any
  \<open>Write\<close> and read back from any \<open>Read\<close>. A reader is the infinite stream of answers its calls
  will get, so an operating system that splits the bytes at will, or interrupts a call, is part
  of the model. The JSON codec (\<open>serde_json\<close>) is a pair of parameters.
\<close>

subsection \<open>Readers and writers\<close>

datatype read_answer = Got "u8 list" | Interrupted | ReadError io_error

text \<open>One call of \<open>reader.read(&mut buf)\<close> with a buffer of \<open>n\<close> bytes; what does not fit stays behind.\<close>

definition read_once :: "nat \<Rightarrow> read_answer stream \<Rightarrow> read_answer \<times> read_answer stream" where
  "read_once n s =
     (case shd s of
        Got bytes \<Rightarrow> (Got (take n bytes), if length bytes \<le> n then stl s else Got (drop n bytes) ## stl s)
      | answer \<Rightarrow> (answer, stl s))"

datatype fill_stop = EndOfStream nat | ReadFailed io_error

text \<open>
  \<open>while received < buffer.len() { match reader.read(&mut buffer[received..]) ... }\<close>: the loop
  that all four readers share. It has no bound on interrupted calls, so it may not return.
\<close>

partial_function (option) fill_loop ::
  "nat \<Rightarrow> u8 list \<Rightarrow> read_answer stream \<Rightarrow> ((fill_stop + u8 list) \<times> read_answer stream) option" where
  "fill_loop n buffer s =
     (if n \<le> length buffer then Some (Inr buffer, s)
      else (case read_once (n - length buffer) s of
          (Got [], s) \<Rightarrow> Some (Inl (EndOfStream (length buffer)), s)
        | (Got bytes, s) \<Rightarrow> fill_loop n (buffer @ bytes) s
        | (Interrupted, s) \<Rightarrow> fill_loop n buffer s
        | (ReadError e, s) \<Rightarrow> Some (Inl (ReadFailed e), s)))"

text \<open>\<open>impl Write for Vec<u8>\<close>, the writer of the tests and of in-memory encoders.\<close>

definition vec_write :: "u8 list \<Rightarrow> u8 list \<Rightarrow> u8 list \<times> (io_error + unit)" where
  "vec_write bytes w = (w @ bytes, Inr ())"

definition to_le_bytes :: "nat \<Rightarrow> u8 list" where
  "to_le_bytes n = rev (be_bytes 4 n)"

definition from_le_bytes :: "u8 list \<Rightarrow> nat" where
  "from_le_bytes bytes = from_be_bytes (rev bytes)"

subsection \<open>Control frames\<close>

datatype 'j frame_error =
    FrameIo io_error
  | TruncatedLength nat
  | TruncatedPayload nat nat
  | FrameTooLarge nat nat
  | FrameJson 'j
  | FrameInvalid validation_error

definition write_frame ::
  "('m \<Rightarrow> validation_error + unit) \<Rightarrow> ('m \<Rightarrow> 'j + u8 list) \<Rightarrow> (u8 list \<Rightarrow> 'w \<Rightarrow> 'w \<times> (io_error + unit))
     \<Rightarrow> 'm \<Rightarrow> 'w \<Rightarrow> 'w \<times> ('j frame_error + unit)" where
  "write_frame validate_message to_vec write_all message writer =
     (case validate_message message of Inl e \<Rightarrow> (writer, Inl (FrameInvalid e))
      | Inr _ \<Rightarrow>
          (case to_vec message of Inl e \<Rightarrow> (writer, Inl (FrameJson e))
           | Inr encoded \<Rightarrow>
               if length encoded > max_frame_size
               then (writer, Inl (FrameTooLarge (length encoded) max_frame_size))
               else (case write_all (to_le_bytes (length encoded)) writer of
                   (writer, Inl e) \<Rightarrow> (writer, Inl (FrameIo e))
                 | (writer, Inr _) \<Rightarrow>
                     (case write_all encoded writer of
                        (writer, Inl e) \<Rightarrow> (writer, Inl (FrameIo e))
                      | (writer, Inr _) \<Rightarrow> (writer, Inr ())))))"

definition read_length_prefix ::
  "read_answer stream \<Rightarrow> (('j frame_error + u8 list option) \<times> read_answer stream) option" where
  "read_length_prefix s =
     (case fill_loop 4 [] s of None \<Rightarrow> None
      | Some (Inr prefix, s) \<Rightarrow> Some (Inr (Some prefix), s)
      | Some (Inl (EndOfStream received), s) \<Rightarrow>
          Some (if received = 0 then Inr None else Inl (TruncatedLength received), s)
      | Some (Inl (ReadFailed e), s) \<Rightarrow> Some (Inl (FrameIo e), s))"

definition read_payload ::
  "nat \<Rightarrow> read_answer stream \<Rightarrow> (('j frame_error + u8 list) \<times> read_answer stream) option" where
  "read_payload n s =
     (case fill_loop n [] s of None \<Rightarrow> None
      | Some (Inr payload, s) \<Rightarrow> Some (Inr payload, s)
      | Some (Inl (EndOfStream received), s) \<Rightarrow> Some (Inl (TruncatedPayload n received), s)
      | Some (Inl (ReadFailed e), s) \<Rightarrow> Some (Inl (FrameIo e), s))"

definition read_frame ::
  "('m \<Rightarrow> validation_error + unit) \<Rightarrow> (u8 list \<Rightarrow> 'j + 'm) \<Rightarrow> read_answer stream
     \<Rightarrow> (('j frame_error + 'm option) \<times> read_answer stream) option" where
  "read_frame validate_message from_slice s =
     (case read_length_prefix s of None \<Rightarrow> None
      | Some (Inl e, s) \<Rightarrow> Some (Inl e, s)
      | Some (Inr None, s) \<Rightarrow> Some (Inr None, s)
      | Some (Inr (Some prefix), s) \<Rightarrow>
          (let size = from_le_bytes prefix in
           if size > max_frame_size then Some (Inl (FrameTooLarge size max_frame_size), s)
           else (case read_payload size s of None \<Rightarrow> None
             | Some (Inl e, s) \<Rightarrow> Some (Inl e, s)
             | Some (Inr payload, s) \<Rightarrow>
                 (case from_slice payload of Inl e \<Rightarrow> Some (Inl (FrameJson e), s)
                  | Inr message \<Rightarrow>
                      (case validate_message message of Inl e \<Rightarrow> Some (Inl (FrameInvalid e), s)
                       | Inr _ \<Rightarrow> Some (Inr (Some message), s))))))"

text \<open>The four entry points: \<open>ProtocolMessage\<close> for requests and for responses.\<close>

definition write_request ::
  "(protocol_request \<Rightarrow> 'j + u8 list) \<Rightarrow> (u8 list \<Rightarrow> 'w \<Rightarrow> 'w \<times> (io_error + unit)) \<Rightarrow> protocol_request
     \<Rightarrow> 'w \<Rightarrow> 'w \<times> ('j frame_error + unit)" where
  "write_request = write_frame request_validate"

definition read_request ::
  "(u8 list \<Rightarrow> 'j + protocol_request) \<Rightarrow> read_answer stream
     \<Rightarrow> (('j frame_error + protocol_request option) \<times> read_answer stream) option" where
  "read_request = read_frame request_validate"

definition write_response ::
  "(protocol_response \<Rightarrow> 'j + u8 list) \<Rightarrow> (u8 list \<Rightarrow> 'w \<Rightarrow> 'w \<times> (io_error + unit)) \<Rightarrow> protocol_response
     \<Rightarrow> 'w \<Rightarrow> 'w \<times> ('j frame_error + unit)" where
  "write_response = write_frame response_validate"

definition read_response ::
  "(u8 list \<Rightarrow> 'j + protocol_response) \<Rightarrow> read_answer stream
     \<Rightarrow> (('j frame_error + protocol_response option) \<times> read_answer stream) option" where
  "read_response = read_frame response_validate"

subsection \<open>Preview frames\<close>

datatype preview_part = MetadataPart | JpegPart

datatype 'j preview_frame_error =
    PreviewIo io_error
  | TruncatedMetadataLength nat
  | TruncatedJpegLength nat
  | ZeroMetadataLength
  | ZeroJpegLength
  | MetadataTooLarge nat nat
  | JpegTooLarge nat nat
  | TruncatedMetadata nat nat
  | TruncatedJpeg nat nat
  | MetadataJson 'j
  | MetadataInvalid preview_invalid
  | InvalidJpegMarkers

record preview_frame =
  pf_metadata :: preview_metadata
  pf_jpeg :: "u8 list"

definition validate_preview_jpeg :: "u8 list \<Rightarrow> 'j preview_frame_error + unit" where
  "validate_preview_jpeg jpeg =
     (if jpeg = [] then Inl ZeroJpegLength
      else if length jpeg > max_preview_jpeg_size then Inl (JpegTooLarge (length jpeg) max_preview_jpeg_size)
      else if take 2 jpeg \<noteq> [0xFF, 0xD8] \<or> take 2 (rev jpeg) \<noteq> [0xD9, 0xFF] then Inl InvalidJpegMarkers
      else Inr ())"

fun write_parts ::
  "(u8 list \<Rightarrow> 'w \<Rightarrow> 'w \<times> (io_error + unit)) \<Rightarrow> u8 list list \<Rightarrow> 'w \<Rightarrow> 'w \<times> ('j preview_frame_error + unit)" where
  "write_parts write_all [] writer = (writer, Inr ())"
| "write_parts write_all (part # parts) writer =
     (case write_all part writer of
        (writer, Inl e) \<Rightarrow> (writer, Inl (PreviewIo e))
      | (writer, Inr _) \<Rightarrow> write_parts write_all parts writer)"

definition write_preview_frame ::
  "(preview_metadata \<Rightarrow> 'j + u8 list) \<Rightarrow> (u8 list \<Rightarrow> 'w \<Rightarrow> 'w \<times> (io_error + unit)) \<Rightarrow> preview_metadata
     \<Rightarrow> u8 list \<Rightarrow> 'w \<Rightarrow> 'w \<times> ('j preview_frame_error + unit)" where
  "write_preview_frame to_vec write_all metadata jpeg writer =
     (case preview_validate metadata of Inl e \<Rightarrow> (writer, Inl (MetadataInvalid e))
      | Inr _ \<Rightarrow>
          (case to_vec metadata of Inl e \<Rightarrow> (writer, Inl (MetadataJson e))
           | Inr encoded \<Rightarrow>
               if encoded = [] then (writer, Inl ZeroMetadataLength)
               else if length encoded > max_preview_metadata_size
               then (writer, Inl (MetadataTooLarge (length encoded) max_preview_metadata_size))
               else (case validate_preview_jpeg jpeg of Inl e \<Rightarrow> (writer, Inl e)
                 | Inr _ \<Rightarrow>
                     write_parts write_all
                       [to_le_bytes (length encoded), encoded, to_le_bytes (length jpeg), jpeg] writer)))"

definition read_preview_length_prefix ::
  "preview_part \<Rightarrow> read_answer stream
     \<Rightarrow> (('j preview_frame_error + u8 list option) \<times> read_answer stream) option" where
  "read_preview_length_prefix part s =
     (case fill_loop 4 [] s of None \<Rightarrow> None
      | Some (Inr prefix, s) \<Rightarrow> Some (Inr (Some prefix), s)
      | Some (Inl (EndOfStream received), s) \<Rightarrow>
          Some (if received = 0 \<and> part = MetadataPart then Inr None
            else Inl (case part of MetadataPart \<Rightarrow> TruncatedMetadataLength received
              | JpegPart \<Rightarrow> TruncatedJpegLength received), s)
      | Some (Inl (ReadFailed e), s) \<Rightarrow> Some (Inl (PreviewIo e), s))"

definition read_preview_payload ::
  "preview_part \<Rightarrow> nat \<Rightarrow> read_answer stream
     \<Rightarrow> (('j preview_frame_error + u8 list) \<times> read_answer stream) option" where
  "read_preview_payload part n s =
     (case fill_loop n [] s of None \<Rightarrow> None
      | Some (Inr payload, s) \<Rightarrow> Some (Inr payload, s)
      | Some (Inl (EndOfStream received), s) \<Rightarrow>
          Some (Inl (case part of MetadataPart \<Rightarrow> TruncatedMetadata n received
            | JpegPart \<Rightarrow> TruncatedJpeg n received), s)
      | Some (Inl (ReadFailed e), s) \<Rightarrow> Some (Inl (PreviewIo e), s))"

text \<open>
  The outcome of reading a preview frame: \<open>Ok(Some(_))\<close>, \<open>Ok(None)\<close>, \<open>Err(_)\<close>, or the panic of
  the \<open>expect\<close> on the JPEG length, which is shown never to happen.
\<close>

datatype 'j preview_outcome =
    PreviewRead preview_frame
  | PreviewEnd
  | PreviewFailed "'j preview_frame_error"
  | PreviewPanicked

definition read_preview_jpeg ::
  "preview_metadata \<Rightarrow> read_answer stream \<Rightarrow> ('j preview_outcome \<times> read_answer stream) option" where
  "read_preview_jpeg metadata s =
     (case read_preview_length_prefix JpegPart s of None \<Rightarrow> None
      | Some (Inl e, s) \<Rightarrow> Some (PreviewFailed e, s)
      | Some (Inr None, s) \<Rightarrow> Some (PreviewPanicked, s)
      | Some (Inr (Some prefix), s) \<Rightarrow>
          (let size = from_le_bytes prefix in
           if size = 0 then Some (PreviewFailed ZeroJpegLength, s)
           else if size > max_preview_jpeg_size
           then Some (PreviewFailed (JpegTooLarge size max_preview_jpeg_size), s)
           else (case read_preview_payload JpegPart size s of None \<Rightarrow> None
             | Some (Inl e, s) \<Rightarrow> Some (PreviewFailed e, s)
             | Some (Inr jpeg, s) \<Rightarrow>
                 (case validate_preview_jpeg jpeg of Inl e \<Rightarrow> Some (PreviewFailed e, s)
                  | Inr _ \<Rightarrow> Some (PreviewRead \<lparr>pf_metadata = metadata, pf_jpeg = jpeg\<rparr>, s)))))"

definition read_preview_frame ::
  "(u8 list \<Rightarrow> 'j + preview_metadata) \<Rightarrow> read_answer stream
     \<Rightarrow> ('j preview_outcome \<times> read_answer stream) option" where
  "read_preview_frame from_slice s =
     (case read_preview_length_prefix MetadataPart s of None \<Rightarrow> None
      | Some (Inl e, s) \<Rightarrow> Some (PreviewFailed e, s)
      | Some (Inr None, s) \<Rightarrow> Some (PreviewEnd, s)
      | Some (Inr (Some prefix), s) \<Rightarrow>
          (let size = from_le_bytes prefix in
           if size = 0 then Some (PreviewFailed ZeroMetadataLength, s)
           else if size > max_preview_metadata_size
           then Some (PreviewFailed (MetadataTooLarge size max_preview_metadata_size), s)
           else (case read_preview_payload MetadataPart size s of None \<Rightarrow> None
             | Some (Inl e, s) \<Rightarrow> Some (PreviewFailed e, s)
             | Some (Inr encoded, s) \<Rightarrow>
                 (case from_slice encoded of Inl e \<Rightarrow> Some (PreviewFailed (MetadataJson e), s)
                  | Inr metadata \<Rightarrow>
                      (case preview_validate metadata of Inl e \<Rightarrow> Some (PreviewFailed (MetadataInvalid e), s)
                       | Inr _ \<Rightarrow> read_preview_jpeg metadata s)))))"

subsection \<open>Little-endian prefixes\<close>

lemma le_length [simp]: "length (to_le_bytes n) = 4"
  by (simp add: to_le_bytes_def)

lemma le_round_trip: "n < 4294967296 \<Longrightarrow> from_le_bytes (to_le_bytes n) = n"
  by (simp add: to_le_bytes_def from_le_bytes_def from_be_bytes_be_bytes)

interpretation le: codec "\<lambda>n. n < 4294967296" to_le_bytes "\<lambda>bs. Some (from_le_bytes bs)"
  by unfold_locales (simp add: le_round_trip)

subsection \<open>The filling loop\<close>

text \<open>
  A delivery is a finite run of answers without errors: nonempty chunks and interrupted calls.
  \<open>delivered\<close> are its bytes.
\<close>

definition delivery :: "read_answer list \<Rightarrow> bool" where
  "delivery answers \<longleftrightarrow> (\<forall>a \<in> set answers. a = Interrupted \<or> (\<exists>bytes. a = Got bytes \<and> bytes \<noteq> []))"

fun delivered :: "read_answer list \<Rightarrow> u8 list" where
  "delivered [] = []"
| "delivered (Got bytes # answers) = bytes @ delivered answers"
| "delivered (_ # answers) = delivered answers"

lemma delivery_Cons [simp]:
  "delivery (a # answers) \<longleftrightarrow> (a = Interrupted \<or> (\<exists>bytes. a = Got bytes \<and> bytes \<noteq> [])) \<and> delivery answers"
  "delivery []"
  by (auto simp: delivery_def)

lemma fill_loop_full: "n \<le> length buffer \<Longrightarrow> fill_loop n buffer s = Some (Inr buffer, s)"
  by (subst fill_loop.simps) simp

lemma fill_loop_interrupted:
  "length buffer < n \<Longrightarrow> shd s = Interrupted \<Longrightarrow> fill_loop n buffer s = fill_loop n buffer (stl s)"
  by (subst fill_loop.simps) (simp add: read_once_def)

lemma fill_loop_end:
  "length buffer < n \<Longrightarrow> shd s = Got [] \<Longrightarrow> fill_loop n buffer s = Some (Inl (EndOfStream (length buffer)), stl s)"
  by (subst fill_loop.simps) (simp add: read_once_def)

lemma fill_loop_error:
  "length buffer < n \<Longrightarrow> shd s = ReadError e \<Longrightarrow> fill_loop n buffer s = Some (Inl (ReadFailed e), stl s)"
  by (subst fill_loop.simps) (simp add: read_once_def)

lemma fill_loop_got:
  assumes "length buffer < n" "shd s = Got bytes" "bytes \<noteq> []"
  shows "fill_loop n buffer s =
    (if length bytes \<le> n - length buffer then fill_loop n (buffer @ bytes) (stl s)
     else Some (Inr (buffer @ take (n - length buffer) bytes), Got (drop (n - length buffer) bytes) ## stl s))"
proof -
  obtain b bs where taken: "take (n - length buffer) bytes = b # bs"
    using assms(1,3) by (cases bytes; cases "n - length buffer") auto
  have "fill_loop n buffer s = fill_loop n (buffer @ take (n - length buffer) bytes)
      (if length bytes \<le> n - length buffer then stl s else Got (drop (n - length buffer) bytes) ## stl s)"
    using assms(1,2) taken by (subst fill_loop.simps) (simp add: read_once_def)
  then show ?thesis using assms(1) by (auto simp: fill_loop_full)
qed

text \<open>Enough bytes: the buffer is filled with exactly the next ones, and nothing else is consumed.\<close>

lemma fill_loop_delivery:
  assumes "delivery answers" "length buffer \<le> n" "n - length buffer \<le> length (delivered answers)"
  shows "\<exists>left. fill_loop n buffer (answers @- t) =
      Some (Inr (buffer @ take (n - length buffer) (delivered answers)), left @- t)
    \<and> delivery left \<and> delivered left = drop (n - length buffer) (delivered answers)"
  using assms
proof (induction answers arbitrary: buffer)
  case Nil
  then show ?case by (auto simp: fill_loop_full intro!: exI [of _ "[]"])
next
  case (Cons a answers)
  show ?case
  proof (cases "length buffer = n")
    case True
    then show ?thesis using Cons.prems by (auto simp: fill_loop_full intro!: exI [of _ "a # answers"])
  next
    case False
    then have room: "length buffer < n" using Cons.prems by simp
    show ?thesis
    proof (cases a)
      case (Got bytes)
      then have nonempty: "bytes \<noteq> []" using Cons.prems by simp
      show ?thesis
      proof (cases "length bytes \<le> n - length buffer")
        case True
        then show ?thesis
          using Cons.IH [of "buffer @ bytes"] Cons.prems room Got nonempty
          by (auto simp: fill_loop_got)
      next
        case more: False
        let ?left = "Got (drop (n - length buffer) bytes) # answers"
        show ?thesis using Cons.prems room Got nonempty more
          by (intro exI [of _ ?left]) (auto simp: fill_loop_got)
      qed
    next
      case Interrupted
      then show ?thesis using Cons.IH [of buffer] Cons.prems room by (auto simp: fill_loop_interrupted)
    next
      case (ReadError e)
      then show ?thesis using Cons.prems by simp
    qed
  qed
qed

text \<open>Too few bytes before the end of the stream: the count of those received is reported.\<close>

lemma fill_loop_short:
  assumes "delivery answers" "length buffer + length (delivered answers) < n" "shd t = Got []"
  shows "fill_loop n buffer (answers @- t) =
    Some (Inl (EndOfStream (length buffer + length (delivered answers))), stl t)"
  using assms
proof (induction answers arbitrary: buffer)
  case Nil
  then show ?case by (simp add: fill_loop_end)
next
  case (Cons a answers)
  then show ?case
    by (cases a) (auto simp: fill_loop_interrupted fill_loop_got)
qed

text \<open>
  The loop returns for every reader that is not interrupted forever, and leaves such a reader.
\<close>

definition responsive :: "read_answer stream \<Rightarrow> bool" where
  "responsive s \<longleftrightarrow> (\<forall>k. \<exists>j \<ge> k. s !! j \<noteq> Interrupted)"

lemma responsive_stl: "responsive s \<Longrightarrow> responsive (stl s)"
  unfolding responsive_def
proof
  fix k
  assume "\<forall>k. \<exists>j \<ge> k. s !! j \<noteq> Interrupted"
  then obtain j where "j \<ge> Suc k" "s !! j \<noteq> Interrupted" by blast
  then show "\<exists>j \<ge> k. stl s !! j \<noteq> Interrupted"
    by (intro exI [of _ "j - 1"]) (cases j; simp)
qed

lemma responsive_SCons: "responsive s \<Longrightarrow> responsive (a ## s)"
  unfolding responsive_def
proof
  fix k
  assume "\<forall>k. \<exists>j \<ge> k. s !! j \<noteq> Interrupted"
  then obtain j where "j \<ge> k" "s !! j \<noteq> Interrupted" by blast
  then show "\<exists>j \<ge> k. (a ## s) !! j \<noteq> Interrupted"
    by (intro exI [of _ "Suc j"]) simp
qed

lemma fill_loop_returns:
  assumes "responsive s"
  shows "\<exists>r left. fill_loop n buffer s = Some (r, left) \<and> responsive left"
proof -
  obtain j where "s !! j \<noteq> Interrupted" using assms unfolding responsive_def by blast
  then show ?thesis using assms
  proof (induction "n - length buffer" arbitrary: buffer s j rule: less_induct)
    case less
    note outer = less.hyps
    from less.prems show ?case
    proof (induction j arbitrary: s rule: less_induct)
      case (less j)
      show ?case
      proof (cases "length buffer < n")
        case False
        then show ?thesis using less.prems by (simp add: fill_loop_full)
      next
        case room: True
        show ?thesis
        proof (cases "shd s")
          case (Got bytes)
          show ?thesis
          proof (cases "bytes = [] \<or> length bytes > n - length buffer")
            case True
            then show ?thesis using room Got less.prems
              by (cases "bytes = []") (auto simp: fill_loop_end fill_loop_got responsive_stl responsive_SCons)
          next
            case False
            obtain i where "stl s !! i \<noteq> Interrupted"
              using responsive_stl [OF less.prems(2)] unfolding responsive_def by blast
            then have "\<exists>r left. fill_loop n (buffer @ bytes) (stl s) = Some (r, left) \<and> responsive left"
              using outer [of "buffer @ bytes" "stl s" i] room False responsive_stl [OF less.prems(2)]
              by (cases bytes) auto
            then show ?thesis using room Got False by (simp add: fill_loop_got)
          qed
        next
          case Interrupted
          then obtain i where "j = Suc i" using less.prems(1) by (cases j) auto
          then show ?thesis
            using less.IH [of i "stl s"] less.prems room Interrupted responsive_stl
            by (simp add: fill_loop_interrupted)
        next
          case (ReadError e)
          then show ?thesis using room less.prems by (simp add: fill_loop_error responsive_stl)
        qed
      qed
    qed
  qed
qed

end
