(* ===== verification/ProtocolTheorems.thy ===== *)
theory ProtocolTheorems
  imports ProtocolFraming "HOL-Library.Code_Target_Nat"
begin

text \<open>
  What the framing promises, for every way in which the bytes may arrive: a message written is
  the message read, with nothing of the next one consumed; a stream that ends inside a message
  is told from one that ends between messages; and a reader that is not interrupted forever
  always gets an answer.
\<close>

subsection \<open>Written bytes\<close>

lemma max_sizes_fit: "n \<le> max_preview_jpeg_size \<Longrightarrow> n < 4294967296" "n \<le> max_frame_size \<Longrightarrow> n < 4294967296"
  "n \<le> max_preview_metadata_size \<Longrightarrow> n < 4294967296"
  by (simp_all add: protocol_limits)

lemma write_frame_Inr:
  assumes "write_frame validate enc vec_write m w = (w', Inr ())"
  obtains encoded where "validate m = Inr ()" "enc m = Inr encoded" "length encoded \<le> max_frame_size"
    "w' = w @ to_le_bytes (length encoded) @ encoded"
  using assms by (auto simp: write_frame_def vec_write_def split: sum.splits if_splits)

lemma fill_chunk:
  assumes "delivery answers" "delivered answers = chunk @ rest" "length chunk = n"
  obtains left where "fill_loop n [] (answers @- t) = Some (Inr chunk, left @- t)"
    "delivery left" "delivered left = rest"
  using fill_loop_delivery [of answers "[]" n t] assms by auto

lemma read_prefix_chunk:
  assumes "delivery answers" "delivered answers = to_le_bytes k @ rest"
  obtains left where "read_length_prefix (answers @- t) = Some (Inr (Some (to_le_bytes k)), left @- t)"
    "delivery left" "delivered left = rest"
proof -
  from fill_chunk [OF assms le_length, of t] obtain left where
    "fill_loop 4 [] (answers @- t) = Some (Inr (to_le_bytes k), left @- t)"
    and left: "delivery left" "delivered left = rest" by blast
  then show thesis by (intro that [OF _ left]) (simp add: read_length_prefix_def)
qed

text \<open>C18: what is written is what is read: however the operating system splits the bytes of a
  message into reads, and however often it interrupts them, the reader returns the message that was
  written and consumes its bytes and no others, so the next message follows intact.\<close>

theorem frame_round_trip:
  fixes from_slice :: "u8 list \<Rightarrow> 'j + 'm"
  assumes written: "write_frame validate to_vec vec_write message w = (w', Inr ())"
    and json: "\<forall>encoded. to_vec message = Inr encoded \<longrightarrow> from_slice encoded = Inr message"
  shows "\<exists>frame. w' = w @ frame \<and>
    (\<forall>answers t rest. delivery answers \<and> delivered answers = frame @ rest \<longrightarrow>
      (\<exists>left. read_frame validate from_slice (answers @- t) = Some (Inr (Some message), left @- t)
        \<and> delivery left \<and> delivered left = rest))"
proof -
  from write_frame_Inr [OF written] obtain encoded where
    valid: "validate message = Inr ()" and encoded: "to_vec message = Inr encoded"
    and size: "length encoded \<le> max_frame_size"
    and w': "w' = w @ to_le_bytes (length encoded) @ encoded" by blast
  have "\<exists>left. read_frame validate from_slice (answers @- t) = Some (Inr (Some message), left @- t)
      \<and> delivery left \<and> delivered left = rest"
    if arrives: "delivery answers" "delivered answers = (to_le_bytes (length encoded) @ encoded) @ rest"
    for answers t rest
  proof -
    have "delivered answers = to_le_bytes (length encoded) @ encoded @ rest" using arrives by simp
    from read_prefix_chunk [OF arrives(1) this, of t] obtain middle where
      prefix: "(read_length_prefix (answers @- t) :: (('j frame_error + _) \<times> _) option)
        = Some (Inr (Some (to_le_bytes (length encoded))), middle @- t)"
      and middle: "delivery middle" "delivered middle = encoded @ rest" by metis
    from fill_chunk [OF middle refl, of t] obtain left where
      "fill_loop (length encoded) [] (middle @- t) = Some (Inr encoded, left @- t)"
      and left: "delivery left" "delivered left = rest" by blast
    then have "(read_payload (length encoded) (middle @- t) :: (('j frame_error + _) \<times> _) option)
        = Some (Inr encoded, left @- t)"
      by (simp add: read_payload_def)
    then show ?thesis using prefix size valid json [rule_format, OF encoded] left
      by (intro exI [of _ left]) (simp add: read_frame_def le_round_trip max_sizes_fit)
  qed
  then show ?thesis using w' by blast
qed

text \<open>A stream that ends inside a message is never mistaken for the end of the conversation: with
  no byte of a message the reader reports the clean end, and with a proper part of one it reports
  exactly how much of the prefix or of the payload has arrived.\<close>

lemma truncation_is_reported:
  fixes from_slice :: "u8 list \<Rightarrow> 'j + 'm"
  assumes written: "write_frame validate to_vec vec_write message w = (w @ frame, Inr ())"
    and arrives: "delivery answers" "delivered answers = take k frame" "k < length frame"
    and ends: "shd t = Got []"
  shows "read_frame validate from_slice (answers @- t) =
    Some (if k = 0 then Inr None
      else if k < 4 then Inl (TruncatedLength k)
      else Inl (TruncatedPayload (length frame - 4) (k - 4)), stl t)"
proof -
  from write_frame_Inr [OF written] obtain encoded where
    size: "length encoded \<le> max_frame_size"
    and frame: "frame = to_le_bytes (length encoded) @ encoded" by auto
  show ?thesis
  proof (cases "k < 4")
    case True
    then have "length (delivered answers) = k" using arrives by simp
    then have "fill_loop 4 [] (answers @- t) = Some (Inl (EndOfStream k), stl t)"
      using fill_loop_short [of answers "[]" 4 t] arrives(1) ends True by simp
    then show ?thesis using True by (simp add: read_frame_def read_length_prefix_def)
  next
    case False
    then have "delivered answers = to_le_bytes (length encoded) @ take (k - 4) encoded"
      using arrives(2) frame by simp
    from read_prefix_chunk [OF arrives(1) this, of t] obtain middle where
      prefix: "(read_length_prefix (answers @- t) :: (('j frame_error + _) \<times> _) option)
        = Some (Inr (Some (to_le_bytes (length encoded))), middle @- t)"
      and middle: "delivery middle" "delivered middle = take (k - 4) encoded" by metis
    have "length (delivered middle) = k - 4" "k - 4 < length encoded"
      using middle(2) arrives(3) frame False by auto
    then have "fill_loop (length encoded) [] (middle @- t) = Some (Inl (EndOfStream (k - 4)), stl t)"
      using fill_loop_short [of middle "[]" "length encoded" t] middle(1) ends by simp
    then have "(read_payload (length encoded) (middle @- t) :: (('j frame_error + _) \<times> _) option)
        = Some (Inl (TruncatedPayload (length encoded) (k - 4)), stl t)"
      by (simp add: read_payload_def)
    then show ?thesis using prefix size frame False
      by (simp add: read_frame_def le_round_trip max_sizes_fit)
  qed
qed

subsection \<open>Preview frames\<close>

lemma write_preview_frame_Inr:
  assumes "write_preview_frame enc vec_write metadata jpeg w = (w', Inr ())"
  obtains encoded where "preview_validate metadata = Inr ()" "enc metadata = Inr encoded"
    "encoded \<noteq> []" "length encoded \<le> max_preview_metadata_size"
    "validate_preview_jpeg jpeg = (Inr () :: 'j preview_frame_error + unit)"
    "w' = w @ to_le_bytes (length encoded) @ encoded @ to_le_bytes (length jpeg) @ jpeg"
proof -
  have any: "validate_preview_jpeg jpeg = (Inr () :: 'j preview_frame_error + unit)"
    if "validate_preview_jpeg jpeg = (Inr () :: 'k preview_frame_error + unit)"
    using that by (auto simp: validate_preview_jpeg_def split: if_splits)
  show thesis using assms
    by (auto simp: write_preview_frame_def vec_write_def split: sum.splits if_splits
        intro!: that dest: any)
qed

text \<open>C19: the preview connection has the same guarantee: the frame read is the frame written, metadata
  and image, under any splitting and interruption of the bytes.\<close>

theorem preview_round_trip:
  fixes from_slice :: "u8 list \<Rightarrow> 'j + preview_metadata"
  assumes written: "write_preview_frame to_vec vec_write metadata jpeg w = (w', Inr ())"
    and json: "\<forall>encoded. to_vec metadata = Inr encoded \<longrightarrow> from_slice encoded = Inr metadata"
  shows "\<exists>frame. w' = w @ frame \<and>
    (\<forall>answers t rest. delivery answers \<and> delivered answers = frame @ rest \<longrightarrow>
      (\<exists>left. read_preview_frame from_slice (answers @- t)
          = Some (PreviewRead \<lparr>pf_metadata = metadata, pf_jpeg = jpeg\<rparr>, left @- t)
        \<and> delivery left \<and> delivered left = rest))"
proof -
  from write_preview_frame_Inr [OF written] obtain encoded where
    valid: "preview_validate metadata = Inr ()" and encoded: "to_vec metadata = Inr encoded"
    and size: "encoded \<noteq> []" "length encoded \<le> max_preview_metadata_size"
    and image: "validate_preview_jpeg jpeg = (Inr () :: 'j preview_frame_error + unit)"
    and w': "w' = w @ to_le_bytes (length encoded) @ encoded @ to_le_bytes (length jpeg) @ jpeg" by metis
  have jpeg_size: "jpeg \<noteq> []" "length jpeg \<le> max_preview_jpeg_size"
    using image by (auto simp: validate_preview_jpeg_def split: if_splits)
  let ?parts = "to_le_bytes (length encoded) @ encoded @ to_le_bytes (length jpeg) @ jpeg"
  have "\<exists>left. read_preview_frame from_slice (answers @- t)
          = Some (PreviewRead \<lparr>pf_metadata = metadata, pf_jpeg = jpeg\<rparr>, left @- t)
        \<and> delivery left \<and> delivered left = rest"
    if arrives: "delivery answers" "delivered answers = ?parts @ rest" for answers t rest
  proof -
    have "delivered answers = to_le_bytes (length encoded) @ encoded @ to_le_bytes (length jpeg) @ jpeg @ rest"
      using arrives by simp
    from fill_chunk [OF arrives(1) this le_length, of t] obtain a where
      a: "fill_loop 4 [] (answers @- t) = Some (Inr (to_le_bytes (length encoded)), a @- t)"
      "delivery a" "delivered a = encoded @ to_le_bytes (length jpeg) @ jpeg @ rest" .
    from fill_chunk [OF a(2,3) refl, of t] obtain b where
      b: "fill_loop (length encoded) [] (a @- t) = Some (Inr encoded, b @- t)"
      "delivery b" "delivered b = to_le_bytes (length jpeg) @ jpeg @ rest" .
    from fill_chunk [OF b(2,3) le_length, of t] obtain c where
      c: "fill_loop 4 [] (b @- t) = Some (Inr (to_le_bytes (length jpeg)), c @- t)"
      "delivery c" "delivered c = jpeg @ rest" .
    from fill_chunk [OF c(2,3) refl, of t] obtain d where
      d: "fill_loop (length jpeg) [] (c @- t) = Some (Inr jpeg, d @- t)" "delivery d" "delivered d = rest" .
    have tail: "(read_preview_jpeg metadata (b @- t) :: ('j preview_outcome \<times> _) option)
        = Some (PreviewRead \<lparr>pf_metadata = metadata, pf_jpeg = jpeg\<rparr>, d @- t)"
      using c(1) d(1) jpeg_size image
      by (simp add: read_preview_jpeg_def read_preview_length_prefix_def read_preview_payload_def
          le_round_trip max_sizes_fit)
    have "read_preview_frame from_slice (answers @- t)
        = Some (PreviewRead \<lparr>pf_metadata = metadata, pf_jpeg = jpeg\<rparr>, d @- t)"
      using a(1) b(1) size valid json [rule_format, OF encoded] tail
      by (simp add: read_preview_frame_def read_preview_length_prefix_def read_preview_payload_def
          le_round_trip max_sizes_fit)
    with d show ?thesis by blast
  qed
  then show ?thesis using w' by blast
qed

lemma read_preview_prefix_jpeg:
  "read_preview_length_prefix JpegPart s \<noteq> Some (Inr None, s')"
  by (auto simp: read_preview_length_prefix_def split: option.splits sum.splits fill_stop.splits)

lemma preview_never_panics: "read_preview_frame dec s \<noteq> Some (PreviewPanicked, s')"
  using read_preview_prefix_jpeg
  by (fastforce simp: read_preview_frame_def read_preview_jpeg_def Let_def
      split: option.splits sum.splits if_splits)

subsection \<open>Termination\<close>

definition returns :: "('r \<times> read_answer stream) option \<Rightarrow> bool" where
  "returns x \<longleftrightarrow> (\<exists>r left. x = Some (r, left) \<and> responsive left)"

lemma returns_Some [simp]: "returns (Some (r, left)) \<longleftrightarrow> responsive left"
  by (simp add: returns_def)

lemma returns_case:
  assumes "returns x" and "\<And>r left. responsive left \<Longrightarrow> returns (f r left)"
  shows "returns (case x of None \<Rightarrow> None | Some p \<Rightarrow> (case p of (r, s) \<Rightarrow> f r s))"
  using assms by (auto simp: returns_def)

lemma fill_loop_returning: "responsive s \<Longrightarrow> returns (fill_loop n buffer s)"
  using fill_loop_returns [of s n buffer] by (simp add: returns_def)

lemma part_readers_return:
  assumes "responsive s"
  shows "returns (read_length_prefix s)" "returns (read_payload n s)"
    "returns (read_preview_length_prefix part s)" "returns (read_preview_payload part n s)"
  unfolding read_length_prefix_def read_payload_def read_preview_length_prefix_def read_preview_payload_def
  by (rule returns_case [OF fill_loop_returning [OF assms]],
      simp split: sum.split fill_stop.split)+

lemma fill_loop_interrupted_forever:
  "fill_loop n buffer s = Some r \<Longrightarrow> length buffer < n \<Longrightarrow> s \<noteq> sconst Interrupted"
proof (induction rule: fill_loop.raw_induct [rotated 1, consumes 1])
  case (1 loop n buffer s r)
  show ?case
  proof
    assume s: "s = sconst Interrupted"
    then have "read_once (n - length buffer) s = (Interrupted, s)" by (simp add: read_once_def)
    then have "loop n buffer s = Some r" using 1(2,3) by simp
    then show False using 1(1,3) s by blast
  qed
qed

lemma read_frame_returns:
  assumes "responsive s"
  shows "returns (read_frame validate dec s)"
  unfolding read_frame_def
proof (rule returns_case [OF part_readers_return(1) [OF assms]], goal_cases)
  case (1 r left)
  show ?case
  proof (cases r)
    case (Inr prefix)
    show ?thesis
    proof (cases prefix)
      case (Some bytes)
      show ?thesis using 1 Inr Some
        by (auto simp: Let_def split: sum.split intro!: returns_case [OF part_readers_return(2)])
    qed (use 1 Inr in simp)
  qed (use 1 in simp)
qed

lemma read_preview_jpeg_returns:
  assumes "responsive s"
  shows "returns (read_preview_jpeg metadata s)"
  unfolding read_preview_jpeg_def
proof (rule returns_case [OF part_readers_return(3) [OF assms]], goal_cases)
  case (1 r left)
  show ?case
  proof (cases r)
    case (Inr prefix)
    show ?thesis
    proof (cases prefix)
      case (Some bytes)
      show ?thesis using 1 Inr Some
        by (auto simp: Let_def split: sum.split intro!: returns_case [OF part_readers_return(4)])
    qed (use 1 Inr in simp)
  qed (use 1 in simp)
qed

lemma read_preview_frame_returns:
  assumes "responsive s"
  shows "returns (read_preview_frame dec s)"
  unfolding read_preview_frame_def
proof (rule returns_case [OF part_readers_return(3) [OF assms]], goal_cases)
  case (1 r left)
  show ?case
  proof (cases r)
    case (Inr prefix)
    show ?thesis
    proof (cases prefix)
      case (Some bytes)
      show ?thesis using 1 Inr Some
        by (auto simp: Let_def read_preview_jpeg_returns split: sum.split intro!: returns_case [OF part_readers_return(4)])
    qed (use 1 Inr in simp)
  qed (use 1 in simp)
qed

text \<open>C20: the readers terminate: for every stream of answers that is not interrupted for ever both
  return, whatever bytes, errors and interruptions it holds, and leave such a stream for the next
  call; a stream that is interrupted for ever is the only reason for one not to return.\<close>

theorem readers_terminate:
  fixes from_slice :: "u8 list \<Rightarrow> 'j + 'm"
  assumes "responsive s"
  shows "(\<exists>r left. read_frame validate from_slice s = Some (r, left) \<and> responsive left)
    \<and> (\<exists>r left. read_preview_frame from_json s = Some (r, left) \<and> responsive left
        \<and> r \<noteq> PreviewPanicked)
    \<and> read_frame validate from_slice (sconst Interrupted) = None"
proof -
  have "fill_loop 4 [] (sconst Interrupted) = None"
    using fill_loop_interrupted_forever [of 4 "[]" "sconst Interrupted"]
    by (cases "fill_loop 4 [] (sconst Interrupted)") auto
  then have "read_frame validate from_slice (sconst Interrupted) = None"
    by (simp add: read_frame_def read_length_prefix_def)
  then show ?thesis
    using read_frame_returns [OF assms, of validate from_slice]
      read_preview_frame_returns [OF assms, of from_json] preview_never_panics [of from_json s]
    by (auto simp: returns_def)
qed

subsection \<open>A conversation\<close>

definition demo_request :: protocol_request where
  "demo_request = request_new ''r1'' StatusGet"

definition demo_metadata :: preview_metadata where
  "demo_metadata = \<lparr>pm_version = 1, pm_session_generation = 1, pm_sequence = 1, pm_captured_at = 5,
     pm_width = 640, pm_height = 480, pm_exposure_us = Some 20, pm_gain = None,
     pm_content_type = ImageJpeg, pm_mode = PreviewDay, pm_dropped_frames = 0\<rparr>"

text \<open>Any codec would do; this one knows a single document, \<open>{}\<close>.\<close>

definition demo_encode :: "'m \<Rightarrow> unit + u8 list" where
  "demo_encode _ = Inr [0x7B, 0x7D]"

definition demo_decode :: "'m \<Rightarrow> u8 list \<Rightarrow> unit + 'm" where
  "demo_decode m bytes = (if bytes = [0x7B, 0x7D] then Inr m else Inl ())"

lemma demo_written:
  "write_request demo_encode vec_write demo_request [] = ([2, 0, 0, 0, 0x7B, 0x7D], Inr ())"
  "write_preview_frame demo_encode vec_write demo_metadata [0xFF, 0xD8, 0xFF, 0xD9] []
     = ([2, 0, 0, 0, 0x7B, 0x7D, 4, 0, 0, 0, 0xFF, 0xD8, 0xFF, 0xD9], Inr ())"
  by code_simp+

definition demo_end :: "read_answer stream" where
  "demo_end = sconst (Got [])"

lemma demo_end_shd: "shd demo_end = Got []"
  by (simp add: demo_end_def)

text \<open>The prefix split after one byte, an interruption, and the next message in the same chunk.\<close>

theorem frame_round_trip_witness:
  "\<exists>left. read_request (demo_decode demo_request)
      ([Got [2], Interrupted, Got [0, 0, 0, 0x7B, 0x7D, 9]] @- demo_end)
    = Some (Inr (Some demo_request), left @- demo_end) \<and> delivered left = [9]"
proof -
  have "\<forall>encoded. demo_encode demo_request = Inr encoded \<longrightarrow> demo_decode demo_request encoded = Inr demo_request"
    by (auto simp: demo_encode_def demo_decode_def)
  from frame_round_trip [where from_slice = "demo_decode demo_request", OF demo_written(1) [unfolded write_request_def] this]
  obtain frame where frame: "[2, 0, 0, 0, 0x7B, 0x7D] = [] @ frame"
    and read: "\<forall>answers t rest. delivery answers \<and> delivered answers = frame @ rest \<longrightarrow>
      (\<exists>left. read_frame request_validate (demo_decode demo_request) (answers @- t)
        = Some (Inr (Some demo_request), left @- t) \<and> delivery left \<and> delivered left = rest)" by (elim exE conjE)
  show ?thesis unfolding read_request_def
    using read [rule_format, of "[Got [2], Interrupted, Got [0, 0, 0, 0x7B, 0x7D, 9]]" "[9]" demo_end] frame
    by (auto simp del: shift.simps)
qed

theorem preview_round_trip_witness:
  "\<exists>left. read_preview_frame (demo_decode demo_metadata)
      ([Got [2, 0, 0, 0, 0x7B], Got [0x7D, 4, 0, 0, 0, 0xFF], Interrupted, Got [0xD8, 0xFF, 0xD9]] @- demo_end)
    = Some (PreviewRead \<lparr>pf_metadata = demo_metadata, pf_jpeg = [0xFF, 0xD8, 0xFF, 0xD9]\<rparr>, left @- demo_end)"
proof -
  have "\<forall>encoded. demo_encode demo_metadata = Inr encoded \<longrightarrow> demo_decode demo_metadata encoded = Inr demo_metadata"
    by (auto simp: demo_encode_def demo_decode_def)
  from preview_round_trip [where from_slice = "demo_decode demo_metadata", OF demo_written(2) this]
  obtain frame where frame: "[2, 0, 0, 0, 0x7B, 0x7D, 4, 0, 0, 0, 0xFF, 0xD8, 0xFF, 0xD9] = [] @ frame"
    and read: "\<forall>answers t rest. delivery answers \<and> delivered answers = frame @ rest \<longrightarrow>
      (\<exists>left. read_preview_frame (demo_decode demo_metadata) (answers @- t)
        = Some (PreviewRead \<lparr>pf_metadata = demo_metadata, pf_jpeg = [0xFF, 0xD8, 0xFF, 0xD9]\<rparr>, left @- t)
        \<and> delivery left \<and> delivered left = rest)" by (elim exE conjE)
  show ?thesis
    using read [rule_format, of "[Got [2, 0, 0, 0, 0x7B], Got [0x7D, 4, 0, 0, 0, 0xFF], Interrupted, Got [0xD8, 0xFF, 0xD9]]"
        "[]" demo_end] frame
    by (auto simp del: shift.simps)
qed

lemma end_is_responsive: "responsive (demo_end)"
  by (auto simp: responsive_def demo_end_def)

theorem readers_terminate_witness:
  "\<exists>r left. read_request (demo_decode demo_request) (demo_end) = Some (r, left) \<and> responsive left"
  unfolding read_request_def
  using readers_terminate [OF end_is_responsive, of request_validate "demo_decode demo_request"] by blast

end
