(* ===== verification/RetentionWorker.thy ===== *)
theory RetentionWorker
  imports RetentionSweep
begin

text \<open>
  The retention thread (\<open>RetentionWorker\<close>, \<open>retention_loop\<close>): the bounded error report of a
  sweep, and the loop as a transition system that interleaves with the capture side's wakes and
  the owner's stop request. Its invariant says when capture may run and that a stop is followed
  by a complete sweep.
\<close>

subsection \<open>The error report is bounded\<close>

lemma boundary_before_le: "boundary_before s n \<le> n"
  by (induction n) auto

lemma boundary_before_boundary: "is_char_boundary s (boundary_before s n)"
  by (induction n) (auto simp: is_char_boundary_def)

lemma bounded_error_message_length: "length (bounded_error_message m) \<le> max_retention_error_message_bytes"
  using boundary_before_le [of m "max_retention_error_message_bytes - length ellipsis"]
  by (simp add: bounded_error_message_def max_retention_error_message_bytes_def ellipsis_def)

definition errors_ok :: "retention_errors \<Rightarrow> bool" where
  "errors_ok errors \<longleftrightarrow> length (re_messages errors) \<le> max_retention_error_messages
     \<and> (\<forall>m \<in> set (re_messages errors). length m \<le> max_retention_error_message_bytes)
     \<and> re_omitted errors \<le> u64_max"

lemma no_errors_ok: "errors_ok no_errors"
  by (simp add: errors_ok_def no_errors_def)

lemma errors_push_ok: "errors_ok errors \<Longrightarrow> errors_ok (errors_push m errors)"
  using bounded_error_message_length [of m] by (auto simp: errors_ok_def errors_push_def)

lemma length_join_text:
  "\<forall>m \<in> set ms. length m \<le> b \<Longrightarrow> length (join_text sep ms) \<le> length ms * (b + length sep)"
  by (induction sep ms rule: join_text.induct) auto

lemma length_join_text_last:
  "ms \<noteq> [] \<Longrightarrow> length (join_text sep (ms @ [m])) = length (join_text sep ms) + length sep + length m"
  by (induction sep ms rule: join_text.induct) auto

definition report_bound :: nat where
  "report_bound = 8 * (1024 + 2) + 2 + 20 + 38"

lemma omitted_length:
  assumes "n \<le> u64_max"
  shows "length (decimal n @ '' additional retention error(s) omitted'') \<le> 20 + 38"
proof -
  have "n < 10 ^ 20" using assms by (simp add: u64_max_def)
  then have "length (decimal n) \<le> 20" using length_decimal_le [of n 20] by simp
  then show ?thesis by simp
qed

lemma errors_finish_bound:
  assumes ok: "errors_ok errors" and fin: "errors_finish errors = Some report"
  shows "length report \<le> report_bound"
proof -
  let ?ms = "re_messages errors"
  let ?last = "decimal (re_omitted errors) @ '' additional retention error(s) omitted''"
  have "length (join_text ''; '' ?ms) \<le> length ?ms * (max_retention_error_message_bytes + length ''; '')"
    using ok by (intro length_join_text) (simp add: errors_ok_def)
  also have "\<dots> \<le> 8 * (1024 + 2)"
    using ok by (simp add: errors_ok_def max_retention_error_messages_def max_retention_error_message_bytes_def)
  finally have ms: "length (join_text ''; '' ?ms) \<le> 8 * (1024 + 2)" .
  have last: "length ?last \<le> 20 + 38" using ok by (intro omitted_length) (simp add: errors_ok_def)
  show ?thesis
  proof (cases "re_omitted errors = 0")
    case True
    then have "report = join_text ''; '' ?ms"
      using fin by (simp add: errors_finish_def Let_def split: if_splits)
    then show ?thesis using ms by (simp add: report_bound_def)
  next
    case False
    then have r: "report = join_text ''; '' (?ms @ [?last])"
      using fin by (simp add: errors_finish_def Let_def)
    show ?thesis
    proof (cases "?ms = []")
      case True
      have "report = ?last" unfolding r True by simp
      then have "length report = length ?last" by (rule arg_cong)
      then show ?thesis using last by (simp add: report_bound_def)
    next
      case False
      then have "length report = length (join_text ''; '' ?ms) + length ''; '' + length ?last"
        unfolding r by (rule length_join_text_last)
      then show ?thesis using ms last by (simp add: report_bound_def)
    qed
  qed
qed

lemma sweep_candidate_ok:
  "sweep_candidate scheduled artifact authorization errors = (c, errors') \<Longrightarrow> errors_ok errors \<Longrightarrow>
     errors_ok errors'"
  by (auto simp: sweep_candidate_def Let_def errors_push_ok split: if_splits)

lemma sweep_candidates_ok:
  "sweep_candidates scheduled pairs errors = (cs, errors') \<Longrightarrow> errors_ok errors \<Longrightarrow> errors_ok errors'"
proof (induction pairs arbitrary: errors cs errors')
  case (Cons pair pairs)
  obtain artifact authorization where pair: "pair = (artifact, authorization)" by (cases pair)
  obtain c e1 where one: "sweep_candidate scheduled artifact authorization errors = (c, e1)" by fastforce
  obtain others e2 where more: "sweep_candidates scheduled pairs e1 = (others, e2)" by fastforce
  have "errors' = e2" using Cons.prems(1) by (simp add: pair one more)
  then show ?case using Cons.IH [OF more] sweep_candidate_ok [OF one Cons.prems(2)] by simp
qed simp

lemma count_deletion_ok:
  "errors_ok (st_errors totals) \<Longrightarrow> errors_ok (st_errors (count_deletion c d totals))"
  by (auto simp: count_deletion_def Let_def errors_push_ok split: sum.splits deletion_outcome.splits)

lemma sweep_deletions_ok:
  "sweep_deletions authority cs a vol totals = (totals', a', vol') \<Longrightarrow> errors_ok (st_errors totals) \<Longrightarrow>
     errors_ok (st_errors totals')"
  by (induction cs arbitrary: a vol totals) (auto simp: count_deletion_ok split: prod.splits)

lemma sweep_plan_ok:
  assumes "sweep_plan policy directory parse authority protected_outputs io_text now a vol
      = (Inr (free, plan, errors), a')"
  shows "errors_ok errors"
  using assms unfolding sweep_plan_def Let_def
  by (auto simp: errors_push_ok no_errors_ok split: prod.splits sum.splits if_splits
      dest!: sweep_candidates_ok)

text \<open>The shape of a sweep's result.\<close>

lemma sweep_result:
  assumes "sweep_retention policy directory parse authority protected_outputs io_text clock a vol
      = (telemetry, a', vol')"
  obtains (failed) now free e where "telemetry = telemetry_failed now policy free e"
  | (swept) errors where "errors_ok errors" "t_error telemetry = errors_finish errors"
      "t_blocked_pressure telemetry
         \<longleftrightarrow> \<not> quotas_satisfied policy (t_managed_bytes telemetry) (t_free_bytes telemetry)"
proof (cases clock)
  case (Inl e)
  then show thesis using assms failed by (auto simp: sweep_retention_def)
next
  case (Inr now)
  obtain r a1 where run:
    "sweep_plan policy directory parse authority protected_outputs io_text now a vol = (r, a1)" by fastforce
  show thesis
  proof (cases r)
    case (Inl p)
    then show thesis using assms run failed by (auto simp: sweep_retention_def Inr split: prod.splits)
  next
    case ok: (Inr p)
    obtain free plan errors where p: "p = (free, plan, errors)" by (cases p)
    have e: "errors_ok errors" by (rule sweep_plan_ok [OF run [unfolded ok p]])
    define t0 where "t0 = \<lparr>st_managed = p_managed_bytes plan, st_protected = p_protected_bytes plan,
      st_reclaimable = p_reclaimable_bytes plan, st_reclaimed_files = 0, st_reclaimed = 0,
      st_unresolved = 0, st_errors = errors\<rparr>"
    obtain totals a2 v2 where loop: "sweep_deletions authority (deletions plan) a1 vol t0 = (totals, a2, v2)"
      using prod_cases3 by blast
    have t: "errors_ok (st_errors totals)" using sweep_deletions_ok [OF loop] e by (simp add: t0_def)
    obtain free_bytes errors' where after: "(case available_bytes v2 directory of
          Inr bytes \<Rightarrow> (Some bytes, st_errors totals)
        | Inl e \<Rightarrow> if needs_free_space policy
            then (None, errors_push (''verifying free space for '' @ directory
                    @ '' after retention failed: '' @ io_text e) (st_errors totals))
            else (map_option (\<lambda>bytes. sat_add_u64 bytes (st_reclaimed totals)) free, st_errors totals))
        = (free_bytes, errors')" by fastforce
    have "errors_ok errors'"
      using after t by (auto simp: errors_push_ok split: sum.splits if_splits)
    then show thesis
      using assms run loop after swept
      by (auto simp: sweep_retention_def Inr ok p t0_def [symmetric] Let_def split: prod.splits)
  qed
qed

text \<open>Whatever goes wrong during a sweep, and however often, the report it publishes is at
  most 8,270 bytes long.\<close>

lemma sweep_report_is_bounded:
  assumes "sweep_retention policy directory parse authority protected_outputs io_text clock a vol
      = (telemetry, a', vol')"
    and "t_error telemetry = Some report"
  shows "length report \<le> 8270"
  using assms(1)
proof (cases rule: sweep_result)
  case (failed now free e)
  then show ?thesis
    using assms(2) bounded_error_message_length [of e]
    by (auto simp: telemetry_failed_def max_retention_error_message_bytes_def)
next
  case (swept errors)
  then show ?thesis using errors_finish_bound [of errors report] assms(2) by (simp add: report_bound_def)
qed

lemma sweep_blocked:
  assumes "sweep_retention policy directory parse authority protected_outputs io_text clock a vol
      = (telemetry, a', vol')"
    and "\<not> t_blocked_pressure telemetry"
  shows "quotas_satisfied policy (t_managed_bytes telemetry) (t_free_bytes telemetry)"
  using assms(1)
proof (cases rule: sweep_result)
  case (failed now free e)
  then show ?thesis using assms(2)
    by (simp add: telemetry_failed_def has_byte_quota_def quotas_satisfied_def)
qed (use assms(2) in simp)

definition demo_unreadable :: volume where
  "demo_unreadable = demo_volume\<lparr>v_list := \<lambda>_. Inl OtherIo\<rparr>"

subsection \<open>The loop\<close>

text \<open>
  \<open>AwaitWake\<close> is the blocking receive, \<open>Sweeping b\<close> a sweep that found the stop flag \<open>b\<close> when it
  began, \<open>Swept b\<close> the check after it, \<open>Returned b\<close> the end of \<open>retention_loop\<close> (by a stop request,
  or because every sender is gone), and \<open>ThreadGone\<close> the state after the exit guard has run.
\<close>

datatype loop_phase =
    AwaitWake
  | Awake
  | Sweeping bool
  | Swept bool
  | FinalSweep
  | Returned bool
  | ThreadGone bool

datatype wake_event = WokenUp bool | WakeTimeout | WakeDisconnected

record retention_worker =
  w_sink :: retention_sink
  w_phase :: loop_phase
  w_last :: retention_telemetry
  w_last_began_stopped :: bool

definition start_with_runtime :: "retention_telemetry \<Rightarrow> retention_worker" where
  "start_with_runtime first =
     \<lparr>w_sink = publish_retention_telemetry first
        \<lparr>rs_stop = False, rs_suspended = True, rs_queued = 0, rs_connected = True\<rparr>,
      w_phase = AwaitWake, w_last = first, w_last_began_stopped = False\<rparr>"

text \<open>
  \<open>recv_timeout\<close> and the draining loop: \<open>WokenUp gone\<close> is a wake after which the queue is drained
  and \<open>gone\<close> tells whether draining found the channel disconnected.
\<close>

definition loop_receive :: "wake_event \<Rightarrow> retention_worker \<Rightarrow> retention_worker" where
  "loop_receive event w =
     (case event of
        WokenUp gone \<Rightarrow> w\<lparr>w_sink := (w_sink w)\<lparr>rs_queued := 0\<rparr>,
          w_phase := (if gone then Returned False else Awake)\<rparr>
      | WakeTimeout \<Rightarrow> w\<lparr>w_phase := Awake\<rparr>
      | WakeDisconnected \<Rightarrow> w\<lparr>w_phase := Returned False\<rparr>)"

definition loop_begin_sweep :: "retention_worker \<Rightarrow> retention_worker" where
  "loop_begin_sweep w = w\<lparr>w_phase := Sweeping (rs_stop (w_sink w))\<rparr>"

definition loop_publish :: "retention_telemetry \<Rightarrow> retention_worker \<Rightarrow> retention_worker" where
  "loop_publish telemetry w =
     (let w = w\<lparr>w_sink := publish_retention_telemetry telemetry (w_sink w), w_last := telemetry\<rparr>
      in case w_phase w of
           Sweeping b \<Rightarrow> w\<lparr>w_phase := Swept b, w_last_began_stopped := b\<rparr>
         | _ \<Rightarrow> w\<lparr>w_phase := Returned True, w_last_began_stopped := True\<rparr>)"

definition loop_check_stop :: "bool \<Rightarrow> retention_worker \<Rightarrow> retention_worker" where
  "loop_check_stop stopping_before_sweep w =
     w\<lparr>w_phase := (if rs_stop (w_sink w)
         then if stopping_before_sweep then Returned True else FinalSweep
         else AwaitWake)\<rparr>"

text \<open>\<open>RetentionStopOnDrop\<close>, and the owner's \<open>stop_and_join_inner\<close> up to the join.\<close>

definition stop_on_drop :: "retention_worker \<Rightarrow> retention_worker" where
  "stop_on_drop w =
     w\<lparr>w_sink := (w_sink w)\<lparr>rs_suspended := True, rs_stop := True, rs_connected := False\<rparr>,
       w_phase := ThreadGone (w_phase w = Returned True)\<rparr>"

definition request_stop :: "retention_worker \<Rightarrow> retention_worker" where
  "request_stop w =
     (let sink = (w_sink w)\<lparr>rs_suspended := True, rs_stop := True\<rparr>
      in w\<lparr>w_sink := (if rs_connected sink \<and> rs_queued sink < retention_wake_capacity
             then sink\<lparr>rs_queued := rs_queued sink + 1\<rparr> else sink)\<rparr>)"

inductive worker_step ::
  "retention_policy \<Rightarrow> 'a retention_authority \<Rightarrow> retention_worker \<Rightarrow> retention_worker \<Rightarrow> bool"
  for policy authority where
  receive: "w_phase w = AwaitWake \<Longrightarrow> worker_step policy authority w (loop_receive event w)"
| begin_sweep: "w_phase w = Awake \<Longrightarrow> worker_step policy authority w (loop_begin_sweep w)"
| publish: "w_phase w = Sweeping b \<or> w_phase w = FinalSweep \<Longrightarrow>
    sweep_retention policy directory parse authority protected_outputs io_text clock a vol
      = (telemetry, a', vol') \<Longrightarrow>
    worker_step policy authority w (loop_publish telemetry w)"
| check: "w_phase w = Swept b \<Longrightarrow> worker_step policy authority w (loop_check_stop b w)"
| exit_guard: "w_phase w = Returned b \<Longrightarrow> worker_step policy authority w (stop_on_drop w)"
| wake: "try_wake (w_sink w) = (r, sink) \<Longrightarrow> worker_step policy authority w (w\<lparr>w_sink := sink\<rparr>)"
| video: "check_video_space policy directory parse vol additional (w_sink w) = (v, sink) \<Longrightarrow>
    worker_step policy authority w (w\<lparr>w_sink := sink\<rparr>)"
| stop: "worker_step policy authority w (request_stop w)"

inductive_cases worker_stepE: "worker_step policy authority w w'"

definition worker_init :: "retention_policy \<Rightarrow> 'a retention_authority \<Rightarrow> retention_worker \<Rightarrow> bool" where
  "worker_init policy authority w \<longleftrightarrow>
     (\<exists>directory parse protected_outputs io_text clock a vol first a' vol'.
        sweep_retention policy directory parse authority protected_outputs io_text clock a vol
          = (first, a', vol') \<and> w = start_with_runtime first)"

definition worker_inv :: "retention_policy \<Rightarrow> retention_worker \<Rightarrow> bool" where
  "worker_inv policy w \<longleftrightarrow>
     (\<not> t_blocked_pressure (w_last w) \<longrightarrow>
        quotas_satisfied policy (t_managed_bytes (w_last w)) (t_free_bytes (w_last w)))
     \<and> (\<not> capture_suspended (w_sink w) \<longrightarrow> \<not> t_blocked_pressure (w_last w))
     \<and> rs_queued (w_sink w) \<le> retention_wake_capacity
     \<and> (case w_phase w of
          Sweeping b \<Rightarrow> b \<longrightarrow> rs_stop (w_sink w)
        | Swept b \<Rightarrow> (b \<longrightarrow> rs_stop (w_sink w)) \<and> w_last_began_stopped w = b
        | FinalSweep \<Rightarrow> rs_stop (w_sink w)
        | Returned b \<Rightarrow> b \<longrightarrow> rs_stop (w_sink w) \<and> w_last_began_stopped w
        | ThreadGone b \<Rightarrow> rs_stop (w_sink w) \<and> (b \<longrightarrow> w_last_began_stopped w)
        | _ \<Rightarrow> True)"

lemma try_wake_keeps:
  assumes "try_wake sink = (r, sink')" and "rs_queued sink \<le> retention_wake_capacity"
  shows "rs_suspended sink' = rs_suspended sink" and "rs_stop sink \<Longrightarrow> rs_stop sink'"
    and "rs_queued sink' \<le> retention_wake_capacity"
  using assms by (auto simp: try_wake_def split: if_splits)

lemma worker_inv_sink:
  assumes inv: "worker_inv policy w" and wake: "try_wake (w_sink w) = (r, sink)"
  shows "worker_inv policy (w\<lparr>w_sink := sink\<rparr>)"
proof -
  have "rs_queued (w_sink w) \<le> retention_wake_capacity" using inv by (simp add: worker_inv_def)
  note keeps = try_wake_keeps [OF wake this]
  then show ?thesis
    using inv by (auto simp: worker_inv_def capture_suspended_def split: loop_phase.splits)
qed

lemma worker_step_inv:
  assumes step: "worker_step policy authority w w'" and inv: "worker_inv policy w"
  shows "worker_inv policy w'"
  using step
proof (cases rule: worker_step.cases)
  case (receive event)
  then show ?thesis using inv
    by (cases event) (auto simp: worker_inv_def loop_receive_def capture_suspended_def)
next
  case begin_sweep
  then show ?thesis using inv by (auto simp: worker_inv_def loop_begin_sweep_def)
next
  case (publish b directory parse protected_outputs io_text clock a vol telemetry a' vol')
  then show ?thesis using inv sweep_blocked [OF publish(3)]
    by (auto simp: worker_inv_def loop_publish_def publish_retention_telemetry_def capture_suspended_def)
next
  case (check b)
  then show ?thesis using inv by (auto simp: worker_inv_def loop_check_stop_def)
next
  case (exit_guard b)
  then show ?thesis using inv by (auto simp: worker_inv_def stop_on_drop_def capture_suspended_def)
next
  case (wake r sink)
  then show ?thesis using worker_inv_sink [OF inv] by simp
next
  case (video directory parse vol additional v sink)
  then have "sink = w_sink w \<or> sink = snd (try_wake (w_sink w))"
    by (auto simp: check_video_space_def split: sum.splits)
  then show ?thesis using worker_inv_sink [OF inv] inv video(1) by (cases "try_wake (w_sink w)") auto
next
  case stop
  then show ?thesis using inv
    by (auto simp: worker_inv_def request_stop_def Let_def capture_suspended_def split: loop_phase.splits)
qed

interpretation worker: step_system "worker_init policy authority" "worker_step policy authority" "worker_inv policy"
  for policy authority
proof (unfold_locales, goal_cases)
  case (1 w)
  then show ?case
    using sweep_blocked
    by (fastforce simp: worker_init_def start_with_runtime_def worker_inv_def
        publish_retention_telemetry_def capture_suspended_def retention_wake_capacity_def)
next
  case (2 w w')
  then show ?case by (rule worker_step_inv)
qed

text \<open>C12: capture runs only inside its quotas: in every state the retention thread, the capture
  side and the owner can reach together, if capture is not suspended then the last published
  sweep found the byte quotas satisfied.\<close>

theorem capture_runs_within_quotas:
  assumes "worker_init policy authority w0" and "(worker_step policy authority)\<^sup>*\<^sup>* w0 w"
    and "\<not> capture_suspended (w_sink w)"
  shows "quotas_satisfied policy (t_managed_bytes (w_last w)) (t_free_bytes (w_last w))"
  using worker.reachable_inv [OF assms(1,2)] assms(3) by (simp add: worker_inv_def)

text \<open>C13: once the thread is gone capture stays suspended, and if it ended because of a stop
  request, the last sweep it published had begun after that request, so it saw every file that
  was written before.\<close>

theorem stop_is_followed_by_a_sweep:
  assumes "worker_init policy authority w0" and "(worker_step policy authority)\<^sup>*\<^sup>* w0 w"
    and "w_phase w = ThreadGone stopped"
  shows "capture_suspended (w_sink w) \<and> (stopped \<longrightarrow> w_last_began_stopped w)"
  using worker.reachable_inv [OF assms(1,2)] assms(3) by (simp add: worker_inv_def capture_suspended_def)

subsection \<open>A run of the thread\<close>

definition demo_telemetry :: retention_telemetry where
  "demo_telemetry = \<lparr>t_swept_at = 5, t_managed_bytes = 0, t_protected_bytes = 0,
     t_reclaimable_bytes = 0, t_free_bytes = Some 0, t_reclaimed_file_count = 0,
     t_reclaimed_bytes = 0, t_blocked_pressure = False, t_pressure = PressureOk, t_error = None\<rparr>"

lemma demo_sweep:
  "sweep_retention demo_policy ''/c'' (\<lambda>_. None) protect_all_authority (\<lambda>_. Inr []) (\<lambda>_. []) (Inr 5) ()
     demo_volume = (demo_telemetry, (), demo_volume)"
proof -
  have plan: "plan_with_private_bytes demo_policy 5 (Some 0) [] 0 =
      \<lparr>deletions = [], p_managed_bytes = 0, p_protected_bytes = 0, p_reclaimable_bytes = 0,
       planned_reclaim_bytes = 0, projected_managed_bytes = 0, projected_free_bytes = Some 0,
       quota_blocked = False\<rparr>"
    by code_simp
  have avail: "available_bytes demo_volume ''/c'' = Inr 0"
    by (simp add: available_bytes_def demo_volume_def)
  have inventory: "inventory_capture_directory demo_volume ''/c'' (\<lambda>_. None) = Inr []"
    by (simp add: inventory_capture_directory_def demo_volume_def)
  have hidden: "private_bytes demo_volume ''/c'' = Inr 0"
    by (simp add: private_bytes_def demo_volume_def)
  have "sweep_plan demo_policy ''/c'' (\<lambda>_. None) protect_all_authority (\<lambda>_. Inr []) (\<lambda>_. []) 5 () demo_volume
      = (Inr (Some 0, plan_with_private_bytes demo_policy 5 (Some 0) [] 0, no_errors), ())"
    by (simp add: sweep_plan_def avail inventory hidden protect_all_authority_def)
  moreover have "quotas_satisfied demo_policy 0 (Some 0)"
    by (simp add: quotas_satisfied_def demo_policy_def)
  ultimately show ?thesis
    by (simp add: sweep_retention_def plan avail demo_telemetry_def
        errors_is_empty_def errors_finish_def no_errors_def)
qed

definition demo_worker :: retention_worker where
  "demo_worker = start_with_runtime demo_telemetry"

lemma demo_worker_init: "worker_init demo_policy protect_all_authority demo_worker"
  unfolding worker_init_def demo_worker_def using demo_sweep by blast

theorem capture_runs_within_quotas_witness:
  "\<not> capture_suspended (w_sink demo_worker)
   \<and> quotas_satisfied demo_policy (t_managed_bytes (w_last demo_worker)) (t_free_bytes (w_last demo_worker))"
proof -
  have runs: "\<not> capture_suspended (w_sink demo_worker)"
    by (simp add: demo_worker_def start_with_runtime_def capture_suspended_def
        publish_retention_telemetry_def demo_telemetry_def)
  with capture_runs_within_quotas [OF demo_worker_init rtranclp.rtrancl_refl] show ?thesis by blast
qed

definition demo_stopped :: retention_worker where
  "demo_stopped = stop_on_drop (loop_check_stop True (loop_publish demo_telemetry
     (loop_begin_sweep (loop_receive (WokenUp False) (request_stop demo_worker)))))"

lemmas demo_worker_simps = demo_stopped_def demo_worker_def stop_on_drop_def loop_check_stop_def
  loop_publish_def loop_begin_sweep_def loop_receive_def request_stop_def start_with_runtime_def
  publish_retention_telemetry_def Let_def retention_wake_capacity_def

lemma demo_worker_run: "(worker_step demo_policy protect_all_authority)\<^sup>*\<^sup>* demo_worker demo_stopped"
proof -
  let ?step = "worker_step demo_policy protect_all_authority"
  let ?w1 = "request_stop demo_worker"
  let ?w2 = "loop_receive (WokenUp False) ?w1"
  let ?w3 = "loop_begin_sweep ?w2"
  let ?w4 = "loop_publish demo_telemetry ?w3"
  let ?w5 = "loop_check_stop True ?w4"
  have "?step demo_worker ?w1" by (rule worker_step.stop)
  moreover have "?step ?w1 ?w2" by (rule worker_step.receive) (simp add: demo_worker_simps)
  moreover have "?step ?w2 ?w3" by (rule worker_step.begin_sweep) (simp add: demo_worker_simps)
  moreover have "?step ?w3 ?w4"
    by (rule worker_step.publish [OF _ demo_sweep, of _ True]) (simp add: demo_worker_simps)
  moreover have "?step ?w4 ?w5" by (rule worker_step.check) (simp add: demo_worker_simps)
  moreover have "?step ?w5 demo_stopped" unfolding demo_stopped_def
    by (rule worker_step.exit_guard [of _ True]) (simp add: demo_worker_simps)
  ultimately show ?thesis by (meson converse_rtranclp_into_rtranclp rtranclp.rtrancl_refl)
qed

theorem stop_is_followed_by_a_sweep_witness:
  "w_phase demo_stopped = ThreadGone True \<and> capture_suspended (w_sink demo_stopped)
   \<and> w_last_began_stopped demo_stopped"
proof -
  have gone: "w_phase demo_stopped = ThreadGone True" by (simp add: demo_worker_simps)
  with stop_is_followed_by_a_sweep [OF demo_worker_init demo_worker_run gone] show ?thesis by blast
qed

end
