(* ===== verification/Triggers.thy ===== *)
theory Triggers
  imports Unicode
begin

text \<open>
  The sharing scheduler (\<open>autopiercam-chatstronomy/src/triggers.rs\<close>): which completed frames are
  offered to the hub, and when. Periodic slots, bursts after observed changes and telescope
  events, and the one image reserved after a mount slew. Nothing here commands the camera.
\<close>

subsection \<open>Time, frames and rules\<close>

text \<open>\<open>Instant\<close> and \<open>Duration\<close> are nanoseconds of a monotonic clock; wall-clock times are milliseconds.\<close>

definition from_secs :: "nat \<Rightarrow> nat" where
  "from_secs s = s * 1000000000"

record shared_frame =
  fr_conservative_start :: "nat option"
  fr_session :: nat
  fr_sequence :: nat
  fr_captured_at :: nat
  fr_exposure_us :: "int option"
  fr_gain :: "int option"
  fr_mode :: string
  fr_jpeg :: "u8 list"

record telescope_context =
  tc_telescope_id :: int
  tc_telescope_name :: string
  tc_target_name :: "string option"
  tc_occurred_at :: string

record trigger_rules =
  tr_interval_minutes :: nat
  tr_scene_changes :: bool
  tr_day_night :: bool
  tr_telescope_events :: bool
  tr_burst_count :: nat
  tr_spacing_seconds :: nat

text \<open>The operator's consent (\<open>Preferences\<close>), as far as the scheduler depends on it.\<close>

record sharing_preferences =
  sp_scene_changes :: bool
  sp_day_night :: bool
  sp_interval_minutes :: nat
  sp_telescope_events :: bool
  sp_burst_count :: nat
  sp_spacing_seconds :: nat

definition local_rules :: "sharing_preferences \<Rightarrow> trigger_rules" where
  "local_rules p =
     \<lparr>tr_interval_minutes = sp_interval_minutes p, tr_scene_changes = sp_scene_changes p,
      tr_day_night = sp_day_night p, tr_telescope_events = sp_telescope_events p,
      tr_burst_count = sp_burst_count p, tr_spacing_seconds = sp_spacing_seconds p\<rparr>"

definition allowed_by :: "trigger_rules \<Rightarrow> sharing_preferences \<Rightarrow> bool" where
  "allowed_by r p \<longleftrightarrow>
     tr_interval_minutes r \<le> 1440
     \<and> (tr_interval_minutes r = 0
        \<or> sp_interval_minutes p > 0 \<and> tr_interval_minutes r \<ge> sp_interval_minutes p)
     \<and> (\<not> tr_scene_changes r \<or> sp_scene_changes p)
     \<and> (\<not> tr_day_night r \<or> sp_day_night p)
     \<and> (\<not> tr_telescope_events r \<or> sp_telescope_events p)
     \<and> 1 \<le> tr_burst_count r \<and> tr_burst_count r \<le> sp_burst_count p
     \<and> sp_spacing_seconds p \<le> tr_spacing_seconds r \<and> tr_spacing_seconds r \<le> 600"

subsection \<open>Captions\<close>

text \<open>\<open>text.chars().take(n).collect()\<close> on UTF-8 bytes.\<close>

definition char_width :: "char \<Rightarrow> nat" where
  "char_width c =
     (let lead = (of_char c :: nat) in
      if lead < 128 then 1 else if lead < 224 then 2 else if lead < 240 then 3 else 4)"

fun take_chars :: "nat \<Rightarrow> string \<Rightarrow> string" where
  "take_chars n [] = []"
| "take_chars n (c # cs) =
     (if n = 0 then []
      else c # take (char_width c - 1) cs @ take_chars (n - 1) (drop (char_width c - 1) cs))"

definition middle_dot :: string where
  "middle_dot = [CHR '' '', CHR 0xC2, CHR 0xB7, CHR '' '']"

definition caption :: "telescope_context \<Rightarrow> string \<Rightarrow> string" where
  "caption context summary =
     take_chars 300 (summary @ (case tc_target_name context of
         Some target \<Rightarrow> middle_dot @ tc_telescope_name context @ middle_dot @ ''Target: '' @ target
       | None \<Rightarrow> middle_dot @ tc_telescope_name context))"

subsection \<open>Telescope events\<close>

datatype telescope_event =
    SlewStarted
  | SlewCompleted
  | SequenceStarted
  | SequenceFinished
  | Action string
  | Operation string string

definition parse_event :: "string \<Rightarrow> telescope_event option" where
  "parse_event event =
     (if event = ''mount_slew_started'' then Some SlewStarted
      else if event = ''mount_slewed'' then Some SlewCompleted
      else if event = ''sequence_started'' then Some SequenceStarted
      else if event = ''sequence_finished'' then Some SequenceFinished
      else None)"

definition action_descriptions :: "(string \<times> string) list" where
  "action_descriptions =
     [(''target_changed'', ''target changed''),
      (''autofocus_started'', ''autofocus started''),
      (''autofocus_completed'', ''autofocus completed''),
      (''autofocus_failed'', ''autofocus failed''),
      (''mount_parked'', ''mount parked''),
      (''mount_unparked'', ''mount unparked''),
      (''meridian_flip_started'', ''meridian flip started''),
      (''meridian_flip_completed'', ''meridian flip completed''),
      (''guiding_started'', ''guiding started''),
      (''guiding_stopped'', ''guiding stopped''),
      (''guiding_dithered'', ''guiding dithered''),
      (''rotator_move_started'', ''rotator move started''),
      (''rotator_moved'', ''rotator moved''),
      (''filter_changed'', ''filter changed''),
      (''focuser_moved'', ''focuser moved'')]"

definition operation_phases :: "(string \<times> string) list" where
  "operation_phases =
     [(''_started'', ''started''), (''_completed'', ''completed''), (''_ended'', ''ended''),
      (''_failed'', ''failed'')]"

definition operation_descriptions :: "(string \<times> string) list" where
  "operation_descriptions =
     [(''camera_cooling'', ''camera cooling''),
      (''camera_warming'', ''camera warming''),
      (''time_wait'', ''time wait''),
      (''astronomical_wait'', ''astronomical wait''),
      (''safety_wait'', ''safety wait''),
      (''condition_wait'', ''condition wait''),
      (''manual_wait'', ''manual wait''),
      (''sequence_slew'', ''sequence slew''),
      (''mount_center'', ''mount centering''),
      (''plate_solve'', ''plate solving'')]"

fun find_phase :: "string \<Rightarrow> (string \<times> string) list \<Rightarrow> (string \<times> string) option" where
  "find_phase event [] = None"
| "find_phase event ((suffix, phase) # rest) =
     (case strip_suffix suffix event of Some base \<Rightarrow> Some (base, phase) | None \<Rightarrow> find_phase event rest)"

definition parse_context_event :: "string \<Rightarrow> telescope_event option" where
  "parse_context_event event =
     (case parse_event event of Some e \<Rightarrow> Some e
      | None \<Rightarrow>
          (case map_of action_descriptions event of Some description \<Rightarrow> Some (Action description)
           | None \<Rightarrow>
               (case find_phase event operation_phases of None \<Rightarrow> None
                | Some (base, phase) \<Rightarrow>
                    map_option (\<lambda>description. Operation description phase)
                      (map_of operation_descriptions base))))"

fun event_description :: "telescope_event \<Rightarrow> string" where
  "event_description SlewStarted = ''mount slew started''"
| "event_description SlewCompleted = ''mount slew completed''"
| "event_description SequenceStarted = ''sequence started''"
| "event_description SequenceFinished = ''sequence finished''"
| "event_description (Action description) = description"
| "event_description (Operation description phase) = description @ '' '' @ phase"

subsection \<open>Periodic slots\<close>

record periodic_schedule =
  pd_interval_ms :: nat
  pd_next_ms :: nat

definition periodic_default :: periodic_schedule where
  "periodic_default = \<lparr>pd_interval_ms = 0, pd_next_ms = 0\<rparr>"

definition next_boundary :: "nat \<Rightarrow> nat \<Rightarrow> nat" where
  "next_boundary interval_ms wall_ms =
     (if interval_ms = 0 then u64_max
      else sat_mul_u64 (sat_add_u64 (wall_ms div interval_ms) 1) interval_ms)"

definition periodic_configure :: "nat \<Rightarrow> nat \<Rightarrow> periodic_schedule \<Rightarrow> periodic_schedule" where
  "periodic_configure minutes wall_ms p =
     (let interval = minutes * 60000 in
      if interval \<noteq> pd_interval_ms p
      then \<lparr>pd_interval_ms = interval, pd_next_ms = next_boundary interval wall_ms\<rparr>
      else p)"

definition periodic_due :: "nat \<Rightarrow> periodic_schedule \<Rightarrow> bool \<times> periodic_schedule" where
  "periodic_due wall_ms p =
     (if pd_interval_ms p = 0 \<or> wall_ms < pd_next_ms p then (False, p)
      else (True, p\<lparr>pd_next_ms := next_boundary (pd_interval_ms p) wall_ms\<rparr>))"

subsection \<open>The scheduler\<close>

record trigger_burst =
  bu_kind :: string
  bu_summary :: string
  bu_telescope :: "telescope_event option"
  bu_context :: "telescope_context option"
  bu_total :: nat
  bu_session :: nat
  bu_after_sequence :: nat
  bu_remaining :: nat
  bu_due :: nat
  bu_deadline :: nat

record slew_finish =
  sf_session :: nat
  sf_after_sequence :: nat
  sf_after_unix_ms :: nat
  sf_deadline :: nat
  sf_context :: "telescope_context option"

record trigger_scheduler =
  sc_slew_finish :: "slew_finish option"
  sc_finish_ready :: bool
  sc_last_queued_at :: "nat option"
  sc_rules :: trigger_rules
  sc_burst :: "trigger_burst option"
  sc_last_queued :: "(nat \<times> nat) option"

definition scheduler_new :: "trigger_rules \<Rightarrow> trigger_scheduler" where
  "scheduler_new rules =
     \<lparr>sc_slew_finish = None, sc_finish_ready = False, sc_last_queued_at = None, sc_rules = rules,
      sc_burst = None, sc_last_queued = None\<rparr>"

fun same_source :: "telescope_context option \<Rightarrow> telescope_context option \<Rightarrow> bool" where
  "same_source None None = True"
| "same_source (Some left) (Some right) = (tc_telescope_id left = tc_telescope_id right)"
| "same_source _ _ = False"

text \<open>\<open>burst_count - 1\<close> does not underflow: accepted rules and local preferences have at least one image.\<close>

definition trigger ::
  "string \<Rightarrow> string \<Rightarrow> shared_frame \<Rightarrow> nat \<Rightarrow> bool \<Rightarrow> trigger_scheduler \<Rightarrow> trigger_scheduler" where
  "trigger kind summary frame now wait_new s =
     (if sc_burst s \<noteq> None then s
      else s\<lparr>sc_burst := Some
        \<lparr>bu_kind = kind, bu_summary = summary, bu_telescope = None, bu_context = None,
         bu_total = tr_burst_count (sc_rules s), bu_session = fr_session frame,
         bu_after_sequence = (if wait_new then fr_sequence frame else fr_sequence frame - 1),
         bu_remaining = tr_burst_count (sc_rules s), bu_due = now,
         bu_deadline = now + from_secs (180 + tr_spacing_seconds (sc_rules s) * (tr_burst_count (sc_rules s) - 1))\<rparr>\<rparr>)"

text \<open>The time allowed for the image after a slew: four exposures and three minutes, within bounds.\<close>

definition slew_seconds :: "shared_frame \<Rightarrow> nat" where
  "slew_seconds frame =
     (let exposure_us = (case fr_exposure_us frame of None \<Rightarrow> 60000000
            | Some v \<Rightarrow> if 0 \<le> v then nat v else 60000000);
          exposure_seconds = (exposure_us + 999999) div 1000000
      in min (max (sat_add_u64 (sat_mul_u64 exposure_seconds 4) 180) 300) 3600)"

definition slew_completed ::
  "telescope_context option \<Rightarrow> shared_frame \<Rightarrow> nat \<Rightarrow> nat \<Rightarrow> trigger_scheduler \<Rightarrow> trigger_scheduler" where
  "slew_completed context frame now wall_ms s =
     (if (case sc_slew_finish s of None \<Rightarrow> False
          | Some pending \<Rightarrow> now < sf_deadline pending \<and> \<not> same_source (sf_context pending) context)
      then s
      else if (case sc_slew_finish s of None \<Rightarrow> True
          | Some p \<Rightarrow> sf_session p \<noteq> fr_session frame \<or> sf_deadline p \<le> now)
      then s\<lparr>sc_slew_finish := Some
        \<lparr>sf_session = fr_session frame, sf_after_sequence = fr_sequence frame, sf_after_unix_ms = wall_ms,
         sf_deadline = now + from_secs (slew_seconds frame), sf_context = context\<rparr>\<rparr>
      else s)"

text \<open>A burst that lost its session or missed its deadline is dropped.\<close>

definition drop_stale_burst :: "shared_frame \<Rightarrow> nat \<Rightarrow> trigger_scheduler \<Rightarrow> trigger_scheduler" where
  "drop_stale_burst frame now s =
     (if (case sc_burst s of None \<Rightarrow> False
          | Some b \<Rightarrow> bu_session b \<noteq> fr_session frame \<or> bu_deadline b \<le> now)
      then s\<lparr>sc_burst := None\<rparr> else s)"

definition telescope_burst ::
  "telescope_event \<Rightarrow> telescope_context option \<Rightarrow> shared_frame \<Rightarrow> nat \<Rightarrow> trigger_scheduler
     \<Rightarrow> trigger_scheduler" where
  "telescope_burst event context frame now s =
     (let s = drop_stale_burst frame now s in
      case sc_burst s of
        None \<Rightarrow>
          (let s = trigger ''telescope_event'' [] frame now True s in
           s\<lparr>sc_burst := map_option (\<lambda>b. b\<lparr>bu_telescope := Some event, bu_context := context\<rparr>) (sc_burst s)\<rparr>)
      | Some b \<Rightarrow>
          if bu_context b = None \<and> context = None
             \<and> (case bu_telescope b of None \<Rightarrow> False | Some previous \<Rightarrow> previous \<noteq> event)
          then s\<lparr>sc_burst := Some (b\<lparr>bu_telescope := Some event, bu_after_sequence := fr_sequence frame\<rparr>)\<rparr>
          else s)"

definition telescope_trigger_with_context ::
  "string \<Rightarrow> telescope_context option \<Rightarrow> shared_frame \<Rightarrow> nat \<Rightarrow> nat \<Rightarrow> trigger_scheduler
     \<Rightarrow> trigger_scheduler" where
  "telescope_trigger_with_context event context frame now wall_ms s =
     (case (if context \<noteq> None then parse_context_event event else parse_event event) of
        None \<Rightarrow> s
      | Some event \<Rightarrow>
          if event = SlewCompleted then slew_completed context frame now wall_ms s
          else telescope_burst event context frame now
            (if event = SlewStarted \<and> (case sc_slew_finish s of None \<Rightarrow> True
                 | Some pending \<Rightarrow> same_source (sf_context pending) context)
             then s\<lparr>sc_slew_finish := None\<rparr> else s))"

definition telescope_trigger ::
  "string \<Rightarrow> shared_frame \<Rightarrow> nat \<Rightarrow> nat \<Rightarrow> trigger_scheduler \<Rightarrow> trigger_scheduler" where
  "telescope_trigger event frame now wall_ms s = telescope_trigger_with_context event None frame now wall_ms s"

definition drop_stale_finish :: "shared_frame \<Rightarrow> nat \<Rightarrow> trigger_scheduler \<Rightarrow> trigger_scheduler" where
  "drop_stale_finish frame now s =
     (if (case sc_slew_finish s of None \<Rightarrow> False
          | Some p \<Rightarrow> sf_session p \<noteq> fr_session frame \<or> sf_deadline p \<le> now)
      then s\<lparr>sc_slew_finish := None\<rparr> else s)"

text \<open>Whether the frame is the image reserved after a slew.\<close>

definition finish_due :: "shared_frame \<Rightarrow> nat \<Rightarrow> nat \<Rightarrow> trigger_scheduler \<Rightarrow> slew_finish \<Rightarrow> bool" where
  "finish_due frame now wall_ms s p \<longleftrightarrow>
     sf_after_sequence p < fr_sequence frame
     \<and> (case sc_last_queued_at s of None \<Rightarrow> True
        | Some at \<Rightarrow> from_secs (tr_spacing_seconds (sc_rules s)) \<le> now - at)
     \<and> sc_last_queued s \<noteq> Some (fr_session frame, fr_sequence frame)
     \<and> (case fr_conservative_start frame of None \<Rightarrow> False
        | Some start \<Rightarrow> sf_after_unix_ms p < start \<and> start \<le> wall_ms)
     \<and> wall_ms - fr_captured_at frame \<le> 120000
     \<and> fr_captured_at frame \<le> wall_ms"

definition burst_due :: "shared_frame \<Rightarrow> nat \<Rightarrow> nat \<Rightarrow> trigger_scheduler \<Rightarrow> trigger_burst \<Rightarrow> bool" where
  "burst_due frame now wall_ms s b \<longleftrightarrow>
     bu_due b \<le> now
     \<and> sc_last_queued s \<noteq> Some (fr_session frame, fr_sequence frame)
     \<and> bu_after_sequence b < fr_sequence frame
     \<and> wall_ms - fr_captured_at frame \<le> 120000
     \<and> fr_captured_at frame \<le> sat_add_u64 wall_ms 30000"

definition post_slew_summary :: string where
  "post_slew_summary =
     ''Pier camera: Post-slew image after mount slew completed (exposure timing estimated)''"

definition burst_summary :: "trigger_burst \<Rightarrow> string" where
  "burst_summary b =
     (let summary = (case bu_telescope b of
            Some event \<Rightarrow>
              (let index = bu_total b - bu_remaining b + 1;
                   label = (if index = 1 then ''Update'' else ''Follow-up'')
               in ''Pier camera: '' @ label @ '' after '' @ event_description event
                    @ '' (image '' @ decimal index @ '' of '' @ decimal (bu_total b) @ '')'')
          | None \<Rightarrow> bu_summary b)
      in case bu_context b of Some context \<Rightarrow> caption context summary | None \<Rightarrow> summary)"

definition due_burst ::
  "shared_frame \<Rightarrow> nat \<Rightarrow> nat \<Rightarrow> bool \<Rightarrow> trigger_scheduler \<Rightarrow> trigger_scheduler \<times> (string \<times> string) option" where
  "due_burst frame now wall_ms slot s =
     (let s = drop_stale_burst frame now s;
          s = (if slot \<and> sc_burst s = None
               then (let s = trigger ''periodic'' ''Scheduled pier-camera image'' frame now False s in
                     s\<lparr>sc_burst := map_option (\<lambda>b. b\<lparr>bu_remaining := 1\<rparr>) (sc_burst s)\<rparr>)
               else s)
      in (s, case sc_burst s of None \<Rightarrow> None
             | Some b \<Rightarrow> if burst_due frame now wall_ms s b then Some (bu_kind b, burst_summary b) else None))"

definition due ::
  "shared_frame option \<Rightarrow> nat \<Rightarrow> nat \<Rightarrow> periodic_schedule \<Rightarrow> trigger_scheduler
     \<Rightarrow> trigger_scheduler \<times> periodic_schedule \<times> (string \<times> string) option" where
  "due frame now wall_ms periodic s =
     (let (slot, periodic) = periodic_due wall_ms periodic;
          s = s\<lparr>sc_finish_ready := False\<rparr>
      in case frame of
           None \<Rightarrow> (s\<lparr>sc_burst := None, sc_slew_finish := None\<rparr>, periodic, None)
         | Some frame \<Rightarrow>
             (let s = drop_stale_finish frame now s in
              case sc_slew_finish s of
                Some p \<Rightarrow>
                  if finish_due frame now wall_ms s p
                  then (s\<lparr>sc_finish_ready := True\<rparr>, periodic,
                        Some (''telescope_event'', case sf_context p of
                            None \<Rightarrow> post_slew_summary | Some context \<Rightarrow> caption context post_slew_summary))
                  else (case due_burst frame now wall_ms slot s of (s, offer) \<Rightarrow> (s, periodic, offer))
              | None \<Rightarrow> (case due_burst frame now wall_ms slot s of (s, offer) \<Rightarrow> (s, periodic, offer))))"

text \<open>The frame \<open>due\<close> offered was encoded and queued for the hub.\<close>

definition queued :: "shared_frame \<Rightarrow> nat \<Rightarrow> trigger_scheduler \<Rightarrow> trigger_scheduler" where
  "queued frame now s =
     (let s = s\<lparr>sc_last_queued := Some (fr_session frame, fr_sequence frame), sc_last_queued_at := Some now\<rparr> in
      if sc_finish_ready s
      then (let finished = sc_slew_finish s;
                s = s\<lparr>sc_finish_ready := False, sc_slew_finish := None\<rparr>
            in if (case sc_burst s of None \<Rightarrow> False | Some b \<Rightarrow> bu_telescope b = Some SlewStarted)
                  \<and> same_source (Option.bind (sc_burst s) bu_context) (Option.bind finished sf_context)
               then s\<lparr>sc_burst := None\<rparr> else s)
      else (case sc_burst s of None \<Rightarrow> s
        | Some b \<Rightarrow>
            (let remaining = bu_remaining b - 1 in
             if remaining = 0 then s\<lparr>sc_burst := None\<rparr>
             else s\<lparr>sc_burst := Some (b\<lparr>bu_remaining := remaining, bu_after_sequence := fr_sequence frame,
                    bu_due := now + from_secs (tr_spacing_seconds (sc_rules s))\<rparr>)\<rparr>)))"

end
