(* ===== verification/TriggersTheorems.thy ===== *)
theory TriggersTheorems
  imports Triggers "HOL-Library.Product_Lexorder" "HOL-Library.Code_Target_Nat"
begin

text \<open>
  The scheduler in use: a transition system of the calls the connection makes, over a source of
  frames that only moves forward. Its invariant gives that no frame is shared twice, that the
  image after a slew was really exposed after it, and that the counters of a burst are sound.
\<close>

subsection \<open>Runs of the scheduler\<close>

abbreviation frame_key :: "shared_frame \<Rightarrow> nat \<times> nat" where
  "frame_key f \<equiv> (fr_session f, fr_sequence f)"

text \<open>
  A run keeps the newest frame of the source, the slew completions reported so far (with the
  newest frame and the wall time of the report) and the shared images.
\<close>

record slew_report =
  rp_frame :: shared_frame
  rp_wall_ms :: nat
  rp_context :: "telescope_context option"

record shared_image =
  im_frame :: shared_frame
  im_wall_ms :: nat
  im_after_slew :: bool
  im_offer :: "string \<times> string"

record sharing_run =
  rn_scheduler :: trigger_scheduler
  rn_periodic :: periodic_schedule
  rn_newest :: "nat \<times> nat"
  rn_reports :: "slew_report list"
  rn_shared :: "shared_image list"

definition reports_slew :: "string \<Rightarrow> bool" where
  "reports_slew event \<longleftrightarrow> event = ''mount_slewed''"

inductive share_step :: "sharing_run \<Rightarrow> sharing_run \<Rightarrow> bool" where
  observed: "rn_newest r \<le> frame_key f \<Longrightarrow>
    share_step r (r\<lparr>rn_newest := frame_key f, rn_scheduler := trigger kind summary f now False (rn_scheduler r)\<rparr>)"
| telescope: "rn_newest r \<le> frame_key f \<Longrightarrow>
    share_step r (r\<lparr>rn_newest := frame_key f,
      rn_reports := rn_reports r @
        (if reports_slew event then [\<lparr>rp_frame = f, rp_wall_ms = wall_ms, rp_context = ctx\<rparr>] else []),
      rn_scheduler := telescope_trigger_with_context event ctx f now wall_ms (rn_scheduler r)\<rparr>)"
| idle: "due None now wall_ms (rn_periodic r) (rn_scheduler r) = (s, p, offer) \<Longrightarrow>
    share_step r (r\<lparr>rn_scheduler := s, rn_periodic := p\<rparr>)"
| skipped: "rn_newest r \<le> frame_key f \<Longrightarrow>
    due (Some f) now wall_ms (rn_periodic r) (rn_scheduler r) = (s, p, offer) \<Longrightarrow>
    share_step r (r\<lparr>rn_newest := frame_key f, rn_scheduler := s, rn_periodic := p\<rparr>)"
| sharing: "rn_newest r \<le> frame_key f \<Longrightarrow>
    due (Some f) now wall_ms (rn_periodic r) (rn_scheduler r) = (s, p, Some offer) \<Longrightarrow>
    share_step r (r\<lparr>rn_newest := frame_key f, rn_scheduler := queued f later s, rn_periodic := p,
      rn_shared := rn_shared r @ [\<lparr>im_frame = f, im_wall_ms = wall_ms, im_after_slew = sc_finish_ready s,
        im_offer = offer\<rparr>]\<rparr>)"

text \<open>A connection starts with accepted rules and whatever slots the periodic schedule remembers.\<close>

inductive share_init :: "sharing_run \<Rightarrow> bool" where
  started: "1 \<le> tr_burst_count rules \<Longrightarrow>
    share_init \<lparr>rn_scheduler = scheduler_new rules, rn_periodic = p, rn_newest = newest,
      rn_reports = [], rn_shared = []\<rparr>"

subsection \<open>What the operations keep\<close>

definition burst_sound :: "trigger_scheduler \<Rightarrow> bool" where
  "burst_sound s \<longleftrightarrow> 1 \<le> tr_burst_count (sc_rules s) \<and> (case sc_burst s of None \<Rightarrow> True
     | Some b \<Rightarrow> 1 \<le> bu_remaining b \<and> bu_remaining b \<le> bu_total b \<and> bu_total b = tr_burst_count (sc_rules s))"

text \<open>The pending slew image stems from a report, of the session it waits for.\<close>

definition finish_reported :: "slew_report list \<Rightarrow> trigger_scheduler \<Rightarrow> bool" where
  "finish_reported reports s \<longleftrightarrow> (case sc_slew_finish s of None \<Rightarrow> True
     | Some p \<Rightarrow> \<exists>q \<in> set reports. sf_session p = fr_session (rp_frame q)
         \<and> sf_after_sequence p = fr_sequence (rp_frame q) \<and> sf_after_unix_ms p = rp_wall_ms q
         \<and> sf_context p = rp_context q)"

lemma trigger_keeps:
  "sc_slew_finish (trigger kind summary f now w s) = sc_slew_finish s"
  "sc_last_queued (trigger kind summary f now w s) = sc_last_queued s"
  "sc_rules (trigger kind summary f now w s) = sc_rules s"
  "burst_sound s \<Longrightarrow> burst_sound (trigger kind summary f now w s)"
  by (simp_all add: trigger_def burst_sound_def)

lemma drop_stale_keeps:
  "sc_slew_finish (drop_stale_burst f now s) = sc_slew_finish s"
  "sc_last_queued (drop_stale_burst f now s) = sc_last_queued s"
  "burst_sound s \<Longrightarrow> burst_sound (drop_stale_burst f now s)"
  "sc_last_queued (drop_stale_finish f now s) = sc_last_queued s"
  "sc_burst (drop_stale_finish f now s) = sc_burst s"
  "sc_rules (drop_stale_finish f now s) = sc_rules s"
  "burst_sound s \<Longrightarrow> burst_sound (drop_stale_finish f now s)"
  "sc_finish_ready (drop_stale_burst f now s) = sc_finish_ready s"
  "sc_finish_ready (drop_stale_finish f now s) = sc_finish_ready s"
  "finish_reported reports s \<Longrightarrow> finish_reported reports (drop_stale_finish f now s)"
  by (auto simp: drop_stale_burst_def drop_stale_finish_def burst_sound_def finish_reported_def split: option.splits)

lemma slew_completed_keeps:
  assumes "finish_reported reports s" and "burst_sound s"
  shows "finish_reported (reports @ [\<lparr>rp_frame = f, rp_wall_ms = wall, rp_context = context\<rparr>])
      (slew_completed context f now wall s)"
    and "burst_sound (slew_completed context f now wall s)"
    and "sc_last_queued (slew_completed context f now wall s) = sc_last_queued s"
  using assms
  by (auto simp: slew_completed_def finish_reported_def burst_sound_def split: option.splits)

lemma telescope_burst_keeps:
  "sc_slew_finish (telescope_burst event context f now s) = sc_slew_finish s"
  "sc_last_queued (telescope_burst event context f now s) = sc_last_queued s"
  "burst_sound s \<Longrightarrow> burst_sound (telescope_burst event context f now s)"
proof -
  have *: "burst_sound t \<Longrightarrow> burst_sound (t\<lparr>sc_burst := map_option (\<lambda>b. b\<lparr>bu_telescope := e, bu_context := c\<rparr>) (sc_burst t)\<rparr>)"
    for t e c by (auto simp: burst_sound_def split: option.splits)
  show "sc_slew_finish (telescope_burst event context f now s) = sc_slew_finish s"
    "sc_last_queued (telescope_burst event context f now s) = sc_last_queued s"
    by (simp_all add: telescope_burst_def Let_def trigger_keeps drop_stale_keeps split: option.splits)
  assume "burst_sound s"
  then have sound: "burst_sound (drop_stale_burst f now s)" by (rule drop_stale_keeps)
  show "burst_sound (telescope_burst event context f now s)"
  proof (cases "sc_burst (drop_stale_burst f now s)")
    case None
    then show ?thesis using * [OF trigger_keeps(4) [OF sound]] by (simp add: telescope_burst_def Let_def)
  next
    case (Some b)
    then show ?thesis using sound by (simp add: telescope_burst_def Let_def burst_sound_def split: option.splits)
  qed
qed

lemma telescope_trigger_keeps:
  assumes "finish_reported reports s" and "burst_sound s"
    and s'_def: "s' = telescope_trigger_with_context event context f now wall s"
  shows "finish_reported (reports @ (if reports_slew event then [\<lparr>rp_frame = f, rp_wall_ms = wall, rp_context = context\<rparr>] else [])) s'
    \<and> burst_sound s' \<and> sc_last_queued s' = sc_last_queued s"
proof -
  have slewed: "(if context \<noteq> None then parse_context_event event else parse_event event) = Some SlewCompleted \<longleftrightarrow>
      reports_slew event"
    by (auto simp: parse_context_event_def parse_event_def reports_slew_def split: option.splits)
  have weaken: "finish_reported reports t \<Longrightarrow> finish_reported (reports @ more) t" for more t
    by (auto simp: finish_reported_def split: option.splits)
  have cleared: "finish_reported reports (s\<lparr>sc_slew_finish := None\<rparr>)" "burst_sound (s\<lparr>sc_slew_finish := None\<rparr>)"
    using assms(2) by (auto simp: finish_reported_def burst_sound_def split: option.splits)
  have same: "finish_reported reports (telescope_burst e context f now t) = finish_reported reports t" for e t
    by (simp add: finish_reported_def telescope_burst_keeps)
  define parsed where "parsed = (if context \<noteq> None then parse_context_event event else parse_event event)"
  show "finish_reported (reports @ (if reports_slew event then [\<lparr>rp_frame = f, rp_wall_ms = wall, rp_context = context\<rparr>] else [])) s'
    \<and> burst_sound s' \<and> sc_last_queued s' = sc_last_queued s"
  proof (cases parsed)
    case None
    then have "s' = s" by (simp add: s'_def telescope_trigger_with_context_def parsed_def)
    then show ?thesis using assms(1,2) weaken by simp
  next
    case (Some e)
    define t where "t = (if e = SlewStarted \<and> (case sc_slew_finish s of None \<Rightarrow> True
                 | Some pending \<Rightarrow> same_source (sf_context pending) context)
             then s\<lparr>sc_slew_finish := None\<rparr> else s)"
    have t: "finish_reported reports t" "burst_sound t" "sc_last_queued t = sc_last_queued s"
      using assms(1,2) cleared by (auto simp: t_def)
    show ?thesis
    proof (cases "e = SlewCompleted")
      case True
      then have "reports_slew event" "s' = slew_completed context f now wall s"
        using slewed Some by (auto simp: s'_def telescope_trigger_with_context_def parsed_def)
      then show ?thesis using slew_completed_keeps [OF assms(1,2)] by simp
    next
      case False
      then have "\<not> reports_slew event" "s' = telescope_burst e context f now t"
        using slewed Some by (auto simp: s'_def telescope_trigger_with_context_def parsed_def t_def)
      then show ?thesis using t by (simp add: same telescope_burst_keeps)
    qed
  qed
qed

lemma due_burst_keeps:
  assumes "due_burst f now wall slot s = (s', offer)" and "burst_sound s"
  shows "burst_sound s'" "sc_slew_finish s' = sc_slew_finish s" "sc_last_queued s' = sc_last_queued s"
    "sc_finish_ready s' = sc_finish_ready s"
    "offer \<noteq> None \<Longrightarrow> (\<exists>b. sc_burst s' = Some b \<and> burst_due f now wall s' b)"
proof -
  have sound: "burst_sound (drop_stale_burst f now s)" by (rule drop_stale_keeps(3) [OF assms(2)])
  have one: "burst_sound (t\<lparr>sc_burst := map_option (\<lambda>b. b\<lparr>bu_remaining := Suc 0\<rparr>) (sc_burst t)\<rparr>)"
    if "burst_sound t" for t using that by (auto simp: burst_sound_def split: option.splits)
  show "burst_sound s'"
    using assms(1) sound one [OF trigger_keeps(4) [OF sound]]
    by (auto simp: due_burst_def Let_def split: if_splits)
  show "sc_slew_finish s' = sc_slew_finish s" "sc_last_queued s' = sc_last_queued s"
    using assms(1) by (auto simp: due_burst_def Let_def trigger_keeps drop_stale_keeps split: if_splits)
  show "sc_finish_ready s' = sc_finish_ready s"
    using assms(1) by (auto simp: due_burst_def Let_def trigger_def drop_stale_keeps split: if_splits)
  show "\<exists>b. sc_burst s' = Some b \<and> burst_due f now wall s' b" if "offer \<noteq> None"
    using assms(1) that by (auto simp: due_burst_def Let_def split: if_splits option.splits)
qed

lemma due_keeps:
  assumes "due (Some f) now wall p s = (s', p', offer)" and "burst_sound s" and "finish_reported reports s"
  shows "burst_sound s'" "finish_reported reports s'" "sc_last_queued s' = sc_last_queued s"
    "p' = snd (periodic_due wall p)"
    "offer \<noteq> None \<Longrightarrow> \<not> sc_finish_ready s' \<Longrightarrow> \<exists>b. sc_burst s' = Some b \<and> burst_due f now wall s' b"
    "sc_finish_ready s' \<Longrightarrow> \<exists>q. sc_slew_finish s' = Some q \<and> finish_due f now wall s' q
       \<and> sf_session q = fr_session f \<and> now < sf_deadline q"
proof -
  obtain slot where slot: "periodic_due wall p = (slot, p')"
    using assms(1) by (auto simp: due_def Let_def split: prod.splits option.splits if_splits)
  define t where "t = drop_stale_finish f now (s\<lparr>sc_finish_ready := False\<rparr>)"
  have t: "burst_sound t" "finish_reported reports t" "sc_last_queued t = sc_last_queued s" "\<not> sc_finish_ready t"
    using assms(2,3) by (auto simp: t_def drop_stale_finish_def burst_sound_def finish_reported_def split: option.splits)
  have fresh: "sf_session q = fr_session f \<and> now < sf_deadline q" if "sc_slew_finish t = Some q" for q
    using that by (auto simp: t_def drop_stale_finish_def split: if_splits option.splits)
  consider (finish) q where "sc_slew_finish t = Some q" "finish_due f now wall t q"
      "s' = t\<lparr>sc_finish_ready := True\<rparr>"
    | (burst) "due_burst f now wall slot t = (s', offer)"
    using assms(1) slot unfolding due_def t_def [symmetric]
    by (auto simp: Let_def t_def [symmetric] split: option.splits if_splits prod.splits)
  then have "burst_sound s' \<and> finish_reported reports s' \<and> sc_last_queued s' = sc_last_queued s
    \<and> (offer \<noteq> None \<longrightarrow> \<not> sc_finish_ready s' \<longrightarrow> (\<exists>b. sc_burst s' = Some b \<and> burst_due f now wall s' b))
    \<and> (sc_finish_ready s' \<longrightarrow> (\<exists>q. sc_slew_finish s' = Some q \<and> finish_due f now wall s' q
       \<and> sf_session q = fr_session f \<and> now < sf_deadline q))"
  proof cases
    case (finish q)
    then have "finish_due f now wall s' q" by (auto simp: finish_due_def split: option.splits)
    moreover have "burst_sound s'" "finish_reported reports s'"
      using finish(3) t by (auto simp: burst_sound_def finish_reported_def split: option.splits)
    ultimately show ?thesis using finish t fresh by auto
  next
    case burst
    note keeps = due_burst_keeps [OF burst t(1)]
    then show ?thesis using t by (auto simp: finish_reported_def)
  qed
  then show "burst_sound s'" "finish_reported reports s'" "sc_last_queued s' = sc_last_queued s"
    "offer \<noteq> None \<Longrightarrow> \<not> sc_finish_ready s' \<Longrightarrow> \<exists>b. sc_burst s' = Some b \<and> burst_due f now wall s' b"
    "sc_finish_ready s' \<Longrightarrow> \<exists>q. sc_slew_finish s' = Some q \<and> finish_due f now wall s' q
       \<and> sf_session q = fr_session f \<and> now < sf_deadline q" by blast+
  show "p' = snd (periodic_due wall p)" using slot by simp
qed

lemma queued_keeps:
  assumes "burst_sound s" and "finish_reported reports s"
  shows "burst_sound (queued f now s)" "finish_reported reports (queued f now s)"
    "sc_last_queued (queued f now s) = Some (frame_key f)"
  using assms
  by (auto simp: queued_def Let_def burst_sound_def finish_reported_def split: option.splits)

subsection \<open>The invariant\<close>

definition share_inv :: "sharing_run \<Rightarrow> bool" where
  "share_inv r \<longleftrightarrow>
     burst_sound (rn_scheduler r)
     \<and> finish_reported (rn_reports r) (rn_scheduler r)
     \<and> sc_last_queued (rn_scheduler r)
         = (if rn_shared r = [] then None else Some (frame_key (im_frame (last (rn_shared r)))))
     \<and> sorted_wrt (\<lambda>a b. frame_key (im_frame a) < frame_key (im_frame b)) (rn_shared r)
     \<and> (\<forall>i \<in> set (rn_shared r). frame_key (im_frame i) \<le> rn_newest r)
     \<and> (\<forall>i \<in> set (rn_shared r). im_after_slew i \<longrightarrow> (\<exists>q \<in> set (rn_reports r).
          fr_session (im_frame i) = fr_session (rp_frame q)
          \<and> fr_sequence (rp_frame q) < fr_sequence (im_frame i)
          \<and> (\<exists>start. fr_conservative_start (im_frame i) = Some start \<and> rp_wall_ms q < start
               \<and> start \<le> im_wall_ms i)))
     \<and> (\<forall>i \<in> set (rn_shared r). im_wall_ms i - fr_captured_at (im_frame i) \<le> 120000)"

lemma share_init_inv: "share_init r \<Longrightarrow> share_inv r"
  by (induction rule: share_init.induct)
    (simp add: share_inv_def scheduler_new_def burst_sound_def finish_reported_def)

lemma older_shared:
  "share_inv r \<Longrightarrow> rn_newest r \<le> k \<Longrightarrow> i \<in> set (rn_shared r) \<Longrightarrow> frame_key (im_frame i) \<le> k"
  by (auto simp: share_inv_def intro: order_trans)

lemma share_step_inv:
  assumes "share_step r r'" and inv: "share_inv r"
  shows "share_inv r'"
  using assms(1)
proof cases
  case (observed f kind summary now)
  then show ?thesis using inv older_shared [OF inv observed(2)] trigger_keeps
    by (auto simp: share_inv_def finish_reported_def)
next
  case (telescope f event wall_ms ctx now)
  have sound: "burst_sound (rn_scheduler r)" "finish_reported (rn_reports r) (rn_scheduler r)"
    using inv by (simp_all add: share_inv_def)
  note keeps = telescope_trigger_keeps [OF sound(2,1) refl]
  show ?thesis unfolding telescope(1) using inv older_shared [OF inv telescope(2)] keeps
    by (simp add: share_inv_def) blast
next
  case (idle now wall_ms s p offer)
  then have "s = (rn_scheduler r)\<lparr>sc_finish_ready := False, sc_burst := None, sc_slew_finish := None\<rparr>"
    by (auto simp: due_def Let_def split: prod.splits)
  then show ?thesis using inv idle(1) by (auto simp: share_inv_def burst_sound_def finish_reported_def)
next
  case (skipped f now wall_ms s p offer)
  have sound: "burst_sound (rn_scheduler r)" "finish_reported (rn_reports r) (rn_scheduler r)"
    using inv by (simp_all add: share_inv_def)
  note keeps = due_keeps [OF skipped(3) sound]
  show ?thesis unfolding skipped(1) using inv older_shared [OF inv skipped(2)] keeps(1-3)
    by (simp add: share_inv_def)
next
  case (sharing f now wall_ms s p offer later)
  have sound: "burst_sound (rn_scheduler r)" "finish_reported (rn_reports r) (rn_scheduler r)"
    using inv by (simp_all add: share_inv_def)
  note keeps = due_keeps [OF sharing(3) sound]
  let ?image = "\<lparr>im_frame = f, im_wall_ms = wall_ms, im_after_slew = sc_finish_ready s, im_offer = offer\<rparr>"
  have fresh: "sc_last_queued s \<noteq> Some (frame_key f) \<and> wall_ms - fr_captured_at f \<le> 120000"
    using keeps(5,6) by (auto simp: finish_due_def burst_due_def)
  have newer: "frame_key (im_frame i) < frame_key f" if i: "i \<in> set (rn_shared r)" for i
  proof -
    have "rn_shared r \<noteq> []" using i by auto
    then obtain before l where split: "rn_shared r = before @ [l]" by (metis rev_exhaust)
    have "frame_key (im_frame l) \<noteq> frame_key f"
      using fresh keeps(3) inv by (auto simp: share_inv_def split)
    moreover have "frame_key (im_frame l) \<le> frame_key f"
      by (rule older_shared [OF inv sharing(2)]) (simp add: split)
    moreover have "i = l \<or> frame_key (im_frame i) < frame_key (im_frame l)"
      using inv i unfolding share_inv_def split by (auto simp: sorted_wrt_append)
    ultimately show ?thesis by (metis order_le_less order_less_trans)
  qed
  have slew: "\<exists>q \<in> set (rn_reports r). fr_session f = fr_session (rp_frame q)
      \<and> fr_sequence (rp_frame q) < fr_sequence f
      \<and> (\<exists>start. fr_conservative_start f = Some start \<and> rp_wall_ms q < start \<and> start \<le> wall_ms)"
    if ready: "sc_finish_ready s"
  proof -
    obtain p where p: "sc_slew_finish s = Some p" "finish_due f now wall_ms s p" "sf_session p = fr_session f"
      using keeps(6) [OF ready] by blast
    then obtain q where "q \<in> set (rn_reports r)" "sf_session p = fr_session (rp_frame q)"
      "sf_after_sequence p = fr_sequence (rp_frame q)" "sf_after_unix_ms p = rp_wall_ms q"
      using keeps(2) by (auto simp: finish_reported_def)
    then show ?thesis using p(2,3) by (auto simp: finish_due_def split: option.splits)
  qed
  show ?thesis unfolding sharing(1)
    using inv older_shared [OF inv sharing(2)] queued_keeps [OF keeps(1,2), of f later] fresh newer slew
    by (auto simp: share_inv_def sorted_wrt_append)
qed

interpretation sharing: step_system share_init share_step share_inv
  by unfold_locales (blast intro: share_init_inv share_step_inv)+

subsection \<open>Properties\<close>

text \<open>C22: no completed frame is shared twice by a connection: the frames it queues for the hub are
  strictly newer one after the other, however triggers, slew events and periodic slots interleave,
  and none is older than two minutes when it is chosen.\<close>

theorem no_frame_is_shared_twice:
  assumes "share_init r0" and "share_step\<^sup>*\<^sup>* r0 r"
  shows "sorted_wrt (\<lambda>a b. frame_key (im_frame a) < frame_key (im_frame b)) (rn_shared r)
    \<and> (\<forall>i \<in> set (rn_shared r). im_wall_ms i - fr_captured_at (im_frame i) \<le> 120000)"
  using sharing.reachable_inv [OF assms] by (simp add: share_inv_def)

text \<open>An image captioned as taken after a slew was exposed after it: its session had reported the
  end of a slew, it is a later frame than the newest one at that report, and even the conservative
  estimate of the start of its exposure lies after the report.\<close>

lemma post_slew_image_follows_slew:
  assumes "share_init r0" and "share_step\<^sup>*\<^sup>* r0 r"
    and "i \<in> set (rn_shared r)" and "im_after_slew i"
  shows "\<exists>q \<in> set (rn_reports r). fr_session (im_frame i) = fr_session (rp_frame q)
    \<and> fr_sequence (rp_frame q) < fr_sequence (im_frame i)
    \<and> (\<exists>start. fr_conservative_start (im_frame i) = Some start \<and> rp_wall_ms q < start
         \<and> start \<le> im_wall_ms i)"
  using sharing.reachable_inv [OF assms(1,2)] assms(3,4) by (simp add: share_inv_def)

text \<open>The counters of a burst never underflow, and captions number its images from 1 to the total.\<close>

lemma burst_counters_are_sound:
  assumes "share_init r0" and "share_step\<^sup>*\<^sup>* r0 r" and "sc_burst (rn_scheduler r) = Some b"
  shows "1 \<le> bu_remaining b \<and> bu_total b - bu_remaining b + 1 \<in> {1..tr_burst_count (sc_rules (rn_scheduler r))}"
  using sharing.reachable_inv [OF assms(1,2)] assms(3) by (auto simp: share_inv_def burst_sound_def)

subsection \<open>Periodic slots\<close>

text \<open>The slots that fire when the schedule is asked at the given wall times, whatever their order.\<close>

fun fired_slots :: "nat list \<Rightarrow> periodic_schedule \<Rightarrow> nat list" where
  "fired_slots [] p = []"
| "fired_slots (wall # walls) p =
     (case periodic_due wall p of
        (fires, p') \<Rightarrow> (if fires then [wall div pd_interval_ms p] else []) @ fired_slots walls p')"

lemma periodic_due_interval: "pd_interval_ms (snd (periodic_due wall p)) = pd_interval_ms p"
  by (simp add: periodic_due_def)

lemma next_boundary_after:
  assumes "0 < i" and "wall + i \<le> u64_max"
  shows "next_boundary i wall = (wall div i + 1) * i"
proof -
  have "wall div i * i \<le> wall" by (rule div_times_less_eq_dividend)
  then have "wall div i * i + i \<le> u64_max" using assms by linarith
  then have "(wall div i + 1) * i \<le> u64_max" by (simp add: add_mult_distrib)
  moreover have "wall div i + 1 \<le> (wall div i + 1) * i"
    using mult_le_mono2 [of 1 i "wall div i + 1"] assms(1) by simp
  ultimately have "wall div i + 1 \<le> u64_max" by linarith
  then show ?thesis using assms(1) \<open>(wall div i + 1) * i \<le> u64_max\<close>
    by (simp add: next_boundary_def sat_add_u64_def sat_mul_u64_def min_def)
qed

lemma fired_slots_above:
  assumes "0 < pd_interval_ms p" and "\<forall>wall \<in> set walls. wall + pd_interval_ms p \<le> u64_max"
    and "k * pd_interval_ms p \<le> pd_next_ms p"
  shows "(\<forall>slot \<in> set (fired_slots walls p). k \<le> slot) \<and> sorted_wrt (<) (fired_slots walls p)"
  using assms
proof (induction walls arbitrary: p k)
  case (Cons wall walls)
  let ?i = "pd_interval_ms p"
  show ?case
  proof (cases "wall < pd_next_ms p")
    case True
    then have "periodic_due wall p = (False, p)" by (simp add: periodic_due_def)
    then show ?thesis using Cons.IH [of p k] Cons.prems by simp
  next
    case False
    let ?p = "p\<lparr>pd_next_ms := (wall div ?i + 1) * ?i\<rparr>"
    have fires: "periodic_due wall p = (True, ?p)"
      using False Cons.prems next_boundary_after [of ?i wall] by (simp add: periodic_due_def)
    have "(\<forall>slot \<in> set (fired_slots walls ?p). Suc (wall div ?i) \<le> slot) \<and> sorted_wrt (<) (fired_slots walls ?p)"
    proof (rule Cons.IH)
      show "0 < pd_interval_ms ?p" "\<forall>wall \<in> set walls. wall + pd_interval_ms ?p \<le> u64_max"
        using Cons.prems(1,2) by simp_all
    qed simp
    moreover have "k \<le> wall div ?i"
    proof -
      have "k * ?i \<le> wall" using Cons.prems(3) False by linarith
      then show ?thesis using Cons.prems(1) by (simp add: less_eq_div_iff_mult_less_eq)
    qed
    ultimately show ?thesis using fires by fastforce
  qed
qed simp

text \<open>C23: a periodic slot fires at most once, and slots fire in order: over any sequence of wall-clock
  readings, with the clock set back and forth at will, the slots that fire are strictly increasing,
  so missed slots coalesce and setting the clock back never repeats one.\<close>

theorem periodic_slots_fire_once:
  assumes "0 < pd_interval_ms p" and "\<forall>wall \<in> set walls. wall + pd_interval_ms p \<le> u64_max"
  shows "sorted_wrt (<) (fired_slots walls p)"
  using fired_slots_above [OF assms, of 0] by simp

subsection \<open>A session\<close>

definition demo_frame :: "nat \<Rightarrow> nat \<Rightarrow> shared_frame" where
  "demo_frame sequence captured =
     \<lparr>fr_conservative_start = Some (captured - 1000), fr_session = 1, fr_sequence = sequence,
      fr_captured_at = captured, fr_exposure_us = Some 500000, fr_gain = None, fr_mode = ''day'',
      fr_jpeg = [0xFF, 0xD8, 0xFF, 0xD9]\<rparr>"

definition demo_rules :: trigger_rules where
  "demo_rules = \<lparr>tr_interval_minutes = 0, tr_scene_changes = True, tr_day_night = True,
     tr_telescope_events = True, tr_burst_count = 2, tr_spacing_seconds = 60\<rparr>"

definition demo_run :: "trigger_scheduler \<Rightarrow> nat \<Rightarrow> slew_report list \<Rightarrow> shared_image list \<Rightarrow> sharing_run" where
  "demo_run s sequence reports images =
     \<lparr>rn_scheduler = s, rn_periodic = periodic_default, rn_newest = (1, sequence), rn_reports = reports,
      rn_shared = images\<rparr>"

definition demo_report :: slew_report where
  "demo_report = \<lparr>rp_frame = demo_frame 5 100000, rp_wall_ms = 100500, rp_context = None\<rparr>"

definition demo_pending :: trigger_scheduler where
  "demo_pending = telescope_trigger_with_context ''mount_slewed'' None (demo_frame 5 100000) 7 100500
     (scheduler_new demo_rules)"

definition demo_ready :: trigger_scheduler where
  "demo_ready = fst (due (Some (demo_frame 6 110000)) 20 110200 periodic_default demo_pending)"

definition demo_image :: shared_image where
  "demo_image = \<lparr>im_frame = demo_frame 6 110000, im_wall_ms = 110200, im_after_slew = True,
     im_offer = (''telescope_event'', post_slew_summary)\<rparr>"

lemma demo_due:
  "due (Some (demo_frame 6 110000)) 20 110200 periodic_default demo_pending
     = (demo_ready, periodic_default, Some (''telescope_event'', post_slew_summary))"
  "sc_finish_ready demo_ready"
  by code_simp+

lemma demo_sharing:
  "share_init (demo_run (scheduler_new demo_rules) 5 [] [])"
  "share_step\<^sup>*\<^sup>* (demo_run (scheduler_new demo_rules) 5 [] [])
     (demo_run (queued (demo_frame 6 110000) 30 demo_ready) 6 [demo_report] [demo_image])"
proof -
  show "share_init (demo_run (scheduler_new demo_rules) 5 [] [])"
    unfolding demo_run_def by (rule share_init.started) (simp add: demo_rules_def)
  have "share_step (demo_run (scheduler_new demo_rules) 5 [] []) (demo_run demo_pending 5 [demo_report] [])"
    using share_step.telescope [where r = "demo_run (scheduler_new demo_rules) 5 [] []"
        and f = "demo_frame 5 100000" and event = "''mount_slewed''" and wall_ms = 100500 and ctx = None and now = 7]
    by (simp add: demo_run_def reports_slew_def demo_report_def demo_pending_def demo_frame_def)
  moreover have "share_step (demo_run demo_pending 5 [demo_report] [])
      (demo_run (queued (demo_frame 6 110000) 30 demo_ready) 6 [demo_report] [demo_image])"
    using share_step.sharing [of "demo_run demo_pending 5 [demo_report] []" "demo_frame 6 110000" 20 110200
        demo_ready periodic_default _ 30] demo_due
    by (simp add: demo_run_def demo_image_def demo_frame_def)
  ultimately show "share_step\<^sup>*\<^sup>* (demo_run (scheduler_new demo_rules) 5 [] [])
     (demo_run (queued (demo_frame 6 110000) 30 demo_ready) 6 [demo_report] [demo_image])"
    by (meson converse_rtranclp_into_rtranclp rtranclp.rtrancl_refl)
qed

theorem no_frame_is_shared_twice_witness:
  "im_wall_ms demo_image - fr_captured_at (im_frame demo_image) \<le> 120000"
  using no_frame_is_shared_twice [OF demo_sharing] by (simp add: demo_run_def)

theorem periodic_slots_fire_once_witness:
  "sorted_wrt (<) (fired_slots [150000, 130000, 190000] \<lparr>pd_interval_ms = 60000, pd_next_ms = 120000\<rparr>)
    \<and> fired_slots [150000, 130000, 190000] \<lparr>pd_interval_ms = 60000, pd_next_ms = 120000\<rparr> = [2, 3]"
proof -
  have "sorted_wrt (<) (fired_slots [150000, 130000, 190000] \<lparr>pd_interval_ms = 60000, pd_next_ms = 120000\<rparr>)"
    by (rule periodic_slots_fire_once) (simp_all add: u64_max_def)
  moreover have "fired_slots [150000, 130000, 190000] \<lparr>pd_interval_ms = 60000, pd_next_ms = 120000\<rparr> = [2, 3]"
    by code_simp
  ultimately show ?thesis by blast
qed

end
