(* ===== verification/HubProtocol.thy ===== *)
theory HubProtocol
  imports Triggers
begin

text \<open>
  The messages of the sharing hub (\<open>autopiercam-chatstronomy/src/protocol.rs\<close>) and the checks made
  before any of them is acted upon: sizes, versions, identifiers, telescope context and its
  freshness. The JSON decoder and the calendar of the \<open>time\<close> crate are parameters.
\<close>

subsection \<open>Versions and limits\<close>

definition hub_protocol_version :: nat where "hub_protocol_version = 1"
definition trigger_protocol_version :: nat where "trigger_protocol_version = 2"
definition context_protocol_version :: nat where "context_protocol_version = 3"
definition observation_protocol_version :: nat where "observation_protocol_version = 4"
definition max_wire_bytes :: nat where "max_wire_bytes = 720 * 1024"
definition max_jpeg_bytes :: nat where "max_jpeg_bytes = 512 * 1024"
definition timelapse_safety_ceiling :: nat where "timelapse_safety_ceiling = 512 * 1024 * 1024"

definition timelapse_limit :: "nat \<Rightarrow> nat" where
  "timelapse_limit advertised = min advertised timelapse_safety_ceiling"

subsection \<open>Timestamps\<close>

definition text_slice :: "nat \<Rightarrow> nat \<Rightarrow> string \<Rightarrow> string" where
  "text_slice a b s = take (b - a) (drop a s)"

definition all_digits :: "string \<Rightarrow> bool" where
  "all_digits s = list_all is_digit s"

fun split_once :: "char \<Rightarrow> string \<Rightarrow> (string \<times> string) option" where
  "split_once sep [] = None"
| "split_once sep (c # cs) =
     (if c = sep then Some ([], cs)
      else map_option (\<lambda>(a, b). (c # a, b)) (split_once sep cs))"

text \<open>The digits after the seconds, as nanoseconds.\<close>

definition clock_nanos :: "string \<Rightarrow> nat option" where
  "clock_nanos clock =
     (if length clock > 8
      then (if text_slice 8 9 clock \<noteq> ''.'' then None
            else (let fraction = drop 9 clock in
                  if fraction = [] \<or> length fraction > 9 \<or> \<not> all_digits fraction then None
                  else Some (decimal_value fraction * 10 ^ (9 - length fraction))))
      else Some 0)"

text \<open>
  \<open>calendar\<close> is the \<open>time\<close> crate: the Unix time in milliseconds of a date and a time of day, if
  both exist.
\<close>

definition utc_milliseconds ::
  "(nat \<Rightarrow> nat \<Rightarrow> nat \<Rightarrow> nat \<Rightarrow> nat \<Rightarrow> nat \<Rightarrow> nat \<Rightarrow> int option) \<Rightarrow> string \<Rightarrow> int option" where
  "utc_milliseconds calendar text =
     Option.bind (or_else (strip_suffix ''Z'' text) (strip_suffix ''+00:00'' text)) (\<lambda>value.
     if \<not> list_all is_ascii_char value \<or> \<not> (19 \<le> length value \<and> length value \<le> 29) then None
     else Option.bind (split_once (CHR ''T'') value) (\<lambda>(date, clock).
       if length date \<noteq> 10 \<or> text_slice 4 5 date \<noteq> ''-'' \<or> text_slice 7 8 date \<noteq> ''-''
          \<or> length clock < 8 \<or> text_slice 2 3 clock \<noteq> '':'' \<or> text_slice 5 6 clock \<noteq> '':'' then None
       else if \<not> (all_digits (take 4 date) \<and> all_digits (text_slice 5 7 date) \<and> all_digits (drop 8 date)
          \<and> all_digits (take 2 clock) \<and> all_digits (text_slice 3 5 clock) \<and> all_digits (text_slice 6 8 clock))
       then None
       else Option.bind (clock_nanos clock) (\<lambda>nanos.
         calendar (decimal_value (take 4 date)) (decimal_value (text_slice 5 7 date)) (decimal_value (drop 8 date))
           (decimal_value (take 2 clock)) (decimal_value (text_slice 3 5 clock))
           (decimal_value (text_slice 6 8 clock)) nanos)))"

subsection \<open>Telescope context\<close>

definition name_ok :: "string \<Rightarrow> nat \<Rightarrow> bool" where
  "name_ok value limit \<longleftrightarrow>
     trimmed value \<noteq> [] \<and> length (chars value) \<le> limit \<and> \<not> list_ex char_is_control (chars value)"

definition context_valid :: "(string \<Rightarrow> int option) \<Rightarrow> telescope_context \<Rightarrow> bool" where
  "context_valid utc c \<longleftrightarrow>
     tc_telescope_id c > 0 \<and> name_ok (tc_telescope_name c) 80
     \<and> (case tc_target_name c of None \<Rightarrow> True | Some v \<Rightarrow> name_ok v 120)
     \<and> utc (tc_occurred_at c) \<noteq> None"

definition saturating_sub_i64 :: "int \<Rightarrow> int \<Rightarrow> int" where
  "saturating_sub_i64 a b = max i64_min (min i64_max (a - b))"

text \<open>Division of \<open>i64\<close> values truncates towards zero.\<close>

definition div_i64 :: "int \<Rightarrow> int \<Rightarrow> int" where
  "div_i64 a b = sgn a * sgn b * (\<bar>a\<bar> div \<bar>b\<bar>)"

definition fresh_at :: "(string \<Rightarrow> int option) \<Rightarrow> int \<Rightarrow> int \<Rightarrow> telescope_context \<Rightarrow> bool" where
  "fresh_at utc now_ms expires_at c =
     (case utc (tc_occurred_at c) of None \<Rightarrow> False
      | Some occurred \<Rightarrow>
          (let age = saturating_sub_i64 now_ms occurred in 0 \<le> age \<and> age \<le> 30000)
          \<and> expires_at > div_i64 now_ms 1000
          \<and> expires_at \<le> min i64_max (div_i64 occurred 1000 + 30))"

subsection \<open>Messages\<close>

datatype 'o hub_message =
    ObservationReady bool nat nat
  | ObservationState 'o
  | MediaReady nat
  | HubReady nat int
  | HubError string
  | SnapshotRequest string int nat nat
  | EventAck string string nat
  | ConfigureTriggers string trigger_rules
  | TelescopeEvent string int "telescope_context option"

definition is_hex_char :: "char \<Rightarrow> bool" where
  "is_hex_char c \<longleftrightarrow> is_digit c
     \<or> (let v = of_char c :: nat in 65 \<le> v \<and> v \<le> 70 \<or> 97 \<le> v \<and> v \<le> 102)"

definition valid_uuid :: "string \<Rightarrow> bool" where
  "valid_uuid value \<longleftrightarrow>
     length value = 36
     \<and> list_all (\<lambda>(i, c). if i \<in> {8, 13, 18, 23} then c = CHR ''-'' else is_hex_char c)
         (zip [0..<36] value)
     \<and> list_ex (\<lambda>c. c \<noteq> CHR ''0'' \<and> c \<noteq> CHR ''-'') value"

definition hub_message_ok :: "('o \<Rightarrow> bool) \<Rightarrow> (string \<Rightarrow> int option) \<Rightarrow> 'o hub_message \<Rightarrow> bool" where
  "hub_message_ok observation_valid utc message =
     (case message of
        ObservationReady telemetry interval_seconds max_age_seconds \<Rightarrow>
          interval_seconds = 5 \<and> max_age_seconds = 30
      | ObservationState state \<Rightarrow> observation_valid state
      | MediaReady max_timelapse_bytes \<Rightarrow> max_timelapse_bytes \<noteq> 0
      | HubReady version device_id \<Rightarrow>
          version \<in> {hub_protocol_version, trigger_protocol_version, context_protocol_version,
                     observation_protocol_version} \<and> device_id > 0
      | SnapshotRequest request_id expires_at max_bytes max_age \<Rightarrow>
          valid_uuid request_id \<and> max_bytes \<noteq> 0 \<and> max_age \<noteq> 0
      | EventAck event_id status retry_after \<Rightarrow> valid_uuid event_id
      | ConfigureTriggers request_id rules \<Rightarrow> valid_uuid request_id
      | TelescopeEvent event expires_at (Some ctx) \<Rightarrow> context_valid utc ctx
      | _ \<Rightarrow> True)"

definition parse_message ::
  "(u8 list \<Rightarrow> 'o hub_message option) \<Rightarrow> ('o \<Rightarrow> bool) \<Rightarrow> (string \<Rightarrow> int option) \<Rightarrow> u8 list
     \<Rightarrow> 'o hub_message option" where
  "parse_message from_slice observation_valid utc bytes =
     (if length bytes > max_wire_bytes then None
      else Option.bind (from_slice bytes) (\<lambda>message.
        if hub_message_ok observation_valid utc message then Some message else None))"

text \<open>\<open>names_context\<close> says whether the bytes, as a JSON object, have a field \<open>context\<close> at all.\<close>

definition parse_for_version ::
  "(u8 list \<Rightarrow> 'o hub_message option) \<Rightarrow> (u8 list \<Rightarrow> bool option) \<Rightarrow> ('o \<Rightarrow> bool)
     \<Rightarrow> (string \<Rightarrow> int option) \<Rightarrow> nat \<Rightarrow> u8 list \<Rightarrow> 'o hub_message option" where
  "parse_for_version from_slice names_context observation_valid utc version bytes =
     Option.bind (parse_message from_slice observation_valid utc bytes) (\<lambda>message.
       case message of
         ObservationReady _ _ _ \<Rightarrow> if version \<noteq> observation_protocol_version then None else Some message
       | ObservationState _ \<Rightarrow> if version \<noteq> observation_protocol_version then None else Some message
       | MediaReady _ \<Rightarrow> if version < context_protocol_version then None else Some message
       | TelescopeEvent event _ ctx \<Rightarrow>
           (if version < context_protocol_version \<and> ctx \<noteq> None
               \<or> ctx = None \<and> event \<notin> {''mount_slew_started'', ''mount_slewed'', ''sequence_started'',
                                         ''sequence_finished''}
            then None
            else if version < context_protocol_version
            then Option.bind (names_context bytes) (\<lambda>named. if named then None else Some message)
            else Some message)
       | _ \<Rightarrow> Some message)"

record pairing_response =
  pa_protocol_version :: nat
  pa_device_id :: int
  pa_credential :: string

definition pairing_parse ::
  "(u8 list \<Rightarrow> pairing_response option) \<Rightarrow> u8 list \<Rightarrow> pairing_response option" where
  "pairing_parse from_slice bytes =
     (if length bytes > 4096 then None
      else Option.bind (from_slice bytes) (\<lambda>response.
        let credential = pa_credential response in
        if pa_protocol_version response \<noteq> hub_protocol_version \<or> pa_device_id response \<le> 0
           \<or> take 5 credential \<noteq> ''csdc_'' \<or> length credential \<le> 5
           \<or> list_ex (\<lambda>ch. char_is_control ch \<or> char_is_whitespace ch) (chars credential)
        then None else Some response))"

definition requires_operator_action :: "string \<Rightarrow> bool" where
  "requires_operator_action code \<longleftrightarrow> code \<notin> {''rate_limited'', ''already_connected''}"

text \<open>An event that is accepted without context is one the scheduler knows.\<close>

lemma accepted_event_known:
  assumes "parse_for_version dec named valid utc version bytes = Some (TelescopeEvent event expires ctx)"
  shows "ctx = None \<Longrightarrow> parse_event event \<noteq> None"
    and "\<And>c. ctx = Some c \<Longrightarrow> context_valid utc c \<and> context_protocol_version \<le> version"
  using assms
  by (auto simp: parse_for_version_def parse_message_def hub_message_ok_def parse_event_def
      split: hub_message.splits if_splits option.splits Option.bind_splits)

end
