(* ===== verification/SnapshotFence.thy ===== *)
theory SnapshotFence
  imports HubProtocol "HOL-Library.Code_Target_Nat"
begin

text \<open>
  The fence around a snapshot the hub asks for (\<open>autopiercam-chatstronomy/src/snapshot.rs\<close>): a
  request is bound to the consent and the capture session in force when it arrived, and is
  checked again before its bytes leave. Consent that was withdrawn and given again does not
  revive it.
\<close>

record local_state =
  ls_snapshots_allowed :: bool
  ls_privacy_generation :: nat
  ls_session_generation :: "nat option"

record snapshot_fence =
  fe_request_id :: string
  fe_state :: local_state
  fe_deadline :: nat
  fe_expires_at_unix_ms :: nat
  fe_max_frame_age_ms :: nat
  fe_max_jpeg_bytes :: nat

datatype snapshot_unavailable = SnapshotUnavailable

text \<open>\<open>state(shared, settings, frame)\<close> of \<open>transport.rs\<close>.\<close>

definition snapshot_state :: "bool \<Rightarrow> nat \<Rightarrow> shared_frame option \<Rightarrow> local_state" where
  "snapshot_state snapshots changes frame =
     \<lparr>ls_snapshots_allowed = snapshots, ls_privacy_generation = changes,
      ls_session_generation = map_option fr_session frame\<rparr>"

definition fence_new ::
  "'o hub_message \<Rightarrow> local_state \<Rightarrow> nat \<Rightarrow> nat \<Rightarrow> snapshot_unavailable + snapshot_fence" where
  "fence_new message state now_unix_ms now =
     (case message of
        SnapshotRequest request_id expires_at max_bytes max_age_seconds \<Rightarrow>
          rbind (ok_or (if 0 \<le> expires_at then checked_mul_u64 (nat expires_at) 1000 else None)
                   SnapshotUnavailable) (\<lambda>expires_at_unix_ms.
          rbind (require (\<not> (\<not> ls_snapshots_allowed state
                   \<or> (case ls_session_generation state of None \<Rightarrow> True | Some generation \<Rightarrow> generation = 0)
                   \<or> expires_at_unix_ms \<le> now_unix_ms \<or> max_bytes = 0 \<or> max_age_seconds = 0))
                   SnapshotUnavailable) (\<lambda>_.
            Inr \<lparr>fe_request_id = request_id, fe_state = state,
                 fe_deadline = now + min (expires_at_unix_ms - now_unix_ms) 90000 * 1000000,
                 fe_expires_at_unix_ms = expires_at_unix_ms,
                 fe_max_frame_age_ms = min max_age_seconds 120 * 1000,
                 fe_max_jpeg_bytes = min max_bytes max_jpeg_bytes\<rparr>))
      | _ \<Rightarrow> Inl SnapshotUnavailable)"

definition check_frame ::
  "snapshot_fence \<Rightarrow> local_state \<Rightarrow> nat \<Rightarrow> nat \<Rightarrow> nat \<Rightarrow> nat \<Rightarrow> snapshot_unavailable + unit" where
  "check_frame fence current frame_session captured_at_unix_ms now_unix_ms now =
     require (\<not> (current \<noteq> fe_state fence
        \<or> \<not> ls_snapshots_allowed current
        \<or> ls_session_generation current \<noteq> Some frame_session
        \<or> fe_deadline fence \<le> now
        \<or> fe_expires_at_unix_ms fence \<le> now_unix_ms
        \<or> captured_at_unix_ms = 0
        \<or> captured_at_unix_ms > sat_add_u64 now_unix_ms 30000
        \<or> now_unix_ms - captured_at_unix_ms > fe_max_frame_age_ms fence))
       SnapshotUnavailable"

definition check_jpeg :: "snapshot_fence \<Rightarrow> u8 list \<Rightarrow> snapshot_unavailable + unit" where
  "check_jpeg fence jpeg =
     require (\<not> (length jpeg < 4 \<or> length jpeg > fe_max_jpeg_bytes fence
        \<or> take 2 jpeg \<noteq> [0xFF, 0xD8] \<or> take 2 (rev jpeg) \<noteq> [0xD9, 0xFF]))
       SnapshotUnavailable"

subsection \<open>Consent and sessions over time\<close>

text \<open>
  The owner of the state: every change of consent or configuration advances the generation
  (\<open>invalidate\<close>), and a capture session that starts has an identifier never used before.
\<close>

record consent_system =
  cs_state :: local_state
  cs_sessions :: nat

inductive consent_step :: "consent_system \<Rightarrow> consent_system \<Rightarrow> bool" where
  reconfigured: "consent_step c (c\<lparr>cs_state := (cs_state c)
     \<lparr>ls_snapshots_allowed := allowed, ls_privacy_generation := Suc (ls_privacy_generation (cs_state c))\<rparr>\<rparr>)"
| stopped: "ls_session_generation (cs_state c) \<noteq> None \<Longrightarrow>
    consent_step c (c\<lparr>cs_state := (cs_state c)\<lparr>ls_session_generation := None\<rparr>\<rparr>)"
| started: "ls_session_generation (cs_state c) = None \<Longrightarrow> cs_sessions c < session \<Longrightarrow>
    consent_step c \<lparr>cs_state = (cs_state c)\<lparr>ls_session_generation := Some session\<rparr>, cs_sessions = session\<rparr>"

definition consent_inv :: "consent_system \<Rightarrow> bool" where
  "consent_inv c \<longleftrightarrow> (case ls_session_generation (cs_state c) of None \<Rightarrow> True
     | Some session \<Rightarrow> session = cs_sessions c)"

text \<open>Time in this system: generations, then sessions begun, then whether the last one has ended.\<close>

definition consent_clock :: "consent_system \<Rightarrow> nat" where
  "consent_clock c = ls_privacy_generation (cs_state c) + 2 * cs_sessions c
     + (if ls_session_generation (cs_state c) = None then 1 else 0)"

interpretation consent: revisioned_system consent_inv consent_step consent_inv "\<lambda>c. int (consent_clock c)"
proof (unfold_locales, goal_cases)
  case (2 c d)
  then show ?case by cases (auto simp: consent_inv_def split: option.splits)
next
  case (3 c d)
  then show ?case by cases (auto simp: consent_clock_def)
qed

lemma same_state_same_moment:
  assumes steps: "consent_step\<^sup>*\<^sup>* c d" and inv: "consent_inv c"
    and same: "cs_state d = cs_state c" and session: "ls_session_generation (cs_state c) \<noteq> None"
  shows "d = c"
proof -
  have "consent_inv d" using consent.steps_inv steps inv by blast
  then have "cs_sessions d = cs_sessions c"
    using inv same session by (auto simp: consent_inv_def)
  then have "consent_clock d = consent_clock c" by (simp add: consent_clock_def same)
  then show ?thesis using consent.same_revision_same_state [OF steps inv] by simp
qed


text \<open>Remote limits only tighten the local ones: what is released is recent and of bounded size.\<close>

lemma released_snapshot_is_bounded:
  assumes "fence_new message s t0 n0 = Inr fence"
    and "check_frame fence current session captured now_unix now = Inr ()" and "check_jpeg fence jpeg = Inr ()"
  shows "length jpeg \<le> max_jpeg_bytes" "now_unix - captured \<le> 120000" "now < n0 + 90 * 1000000000"
  using assms
  by (auto simp: fence_new_def check_frame_def check_jpeg_def result_simps split: hub_message.splits)

definition demo_consent :: consent_system where
  "demo_consent = \<lparr>cs_state = \<lparr>ls_snapshots_allowed = True, ls_privacy_generation = 3,
     ls_session_generation = Some 2\<rparr>, cs_sessions = 2\<rparr>"

definition demo_snapshot_request :: "unit hub_message" where
  "demo_snapshot_request = SnapshotRequest ''r'' 100 500000 30"

definition demo_fence :: snapshot_fence where
  "demo_fence = projr (fence_new demo_snapshot_request (cs_state demo_consent) 50000 7)"


end
