(* ===== verification/MachineFloats.thy ===== *)
theory MachineFloats
  imports Prelude "HOL-Library.Log_Nat"
begin

text \<open>
  Rust's \<open>f64\<close>, as far as the configuration and the exposure control use it: every finite value
  is a rational number, comparisons with a value that is not a number are false, and the result of
  an arithmetic operation is the nearest value with a significand of 53 bits, ties to the even one.
  The two zeros compare equal and are one value here; subnormal results do not occur.
\<close>

lemma unat_lt2p_byte: "unat (b :: u8) < 256"
  using unsigned_less [of b] by simp

subsection \<open>Values and comparisons\<close>

datatype f64 = Finite rat | Infinite bool | NotANumber

fun f64_is_finite :: "f64 \<Rightarrow> bool" where
  "f64_is_finite (Finite _) = True"
| "f64_is_finite _ = False"

text \<open>\<open>(low..=high).contains(x)\<close> for finite bounds, and \<open>==\<close>.\<close>

fun f64_within :: "rat \<Rightarrow> rat \<Rightarrow> f64 \<Rightarrow> bool" where
  "f64_within low high (Finite x) = (low \<le> x \<and> x \<le> high)"
| "f64_within low high _ = False"

fun f64_eq :: "f64 \<Rightarrow> f64 \<Rightarrow> bool" where
  "f64_eq (Finite x) (Finite y) = (x = y)"
| "f64_eq (Infinite a) (Infinite b) = (a = b)"
| "f64_eq _ _ = False"

fun option_eq :: "('a \<Rightarrow> 'a \<Rightarrow> bool) \<Rightarrow> 'a option \<Rightarrow> 'a option \<Rightarrow> bool" where
  "option_eq eq None None = True"
| "option_eq eq (Some x) (Some y) = eq x y"
| "option_eq eq _ _ = False"

lemma f64_eq_iff: "f64_eq x y \<longleftrightarrow> x = y \<and> x \<noteq> NotANumber"
  by (cases x; cases y) auto

lemma f64_within_finite: "f64_within low high x \<longleftrightarrow> (\<exists>q. x = Finite q \<and> low \<le> q \<and> q \<le> high)"
  by (cases x) auto

lemma option_eq_iff: "option_eq eq x y \<longleftrightarrow> (x = None \<and> y = None) \<or> (\<exists>a b. x = Some a \<and> y = Some b \<and> eq a b)"
  by (cases x; cases y) auto

subsection \<open>Rounding\<close>

text \<open>\<open>2 ^ f64_exponent q \<le> q < 2 ^ (f64_exponent q + 1)\<close>, for values from \<open>2 ^ -64\<close>.\<close>

definition f64_exponent :: "rat \<Rightarrow> int" where
  "f64_exponent q = int (floorlog 2 (nat \<lfloor>q * 2 ^ 64\<rfloor>)) - 65"

definition round_half_even :: "rat \<Rightarrow> int" where
  "round_half_even x =
     (let low = \<lfloor>x\<rfloor>; rest = x - of_int low in
      if rest < 1 / 2 then low else if 1 / 2 < rest then low + 1
      else if even low then low else low + 1)"

definition round64 :: "rat \<Rightarrow> rat" where
  "round64 q =
     (if q = 0 then 0
      else (let unit = 2 powi (f64_exponent \<bar>q\<bar> - 52) in of_int (round_half_even (q / unit)) * unit))"

text \<open>The same for \<open>f32\<close>, with 24 bits.\<close>

definition round32 :: "rat \<Rightarrow> rat" where
  "round32 q =
     (if q = 0 then 0
      else (let unit = 2 powi (f64_exponent \<bar>q\<bar> - 23) in of_int (round_half_even (q / unit)) * unit))"

text \<open>\<open>f64::round\<close>, which takes ties away from zero, and the saturating \<open>as i64\<close>.\<close>

definition round_away :: "rat \<Rightarrow> int" where
  "round_away x = (if x < 0 then - \<lfloor>1 / 2 - x\<rfloor> else \<lfloor>x + 1 / 2\<rfloor>)"

definition cast_i64 :: "int \<Rightarrow> int" where
  "cast_i64 x = max i64_min (min i64_max x)"

lemma round_half_even_bounds: "\<lfloor>x\<rfloor> \<le> round_half_even x" "round_half_even x \<le> \<lceil>x\<rceil>"
proof -
  show "\<lfloor>x\<rfloor> \<le> round_half_even x" by (simp add: round_half_even_def Let_def)
  show "round_half_even x \<le> \<lceil>x\<rceil>"
  proof (cases "x = of_int \<lfloor>x\<rfloor>")
    case True
    then have "round_half_even x = \<lfloor>x\<rfloor>" by (simp add: round_half_even_def Let_def)
    then show ?thesis using floor_le_ceiling by simp
  next
    case False
    then have "\<lceil>x\<rceil> = \<lfloor>x\<rfloor> + 1" by (simp add: ceiling_altdef)
    then show ?thesis by (simp add: round_half_even_def Let_def)
  qed
qed

lemma round_half_even_ge: "of_int n \<le> x \<Longrightarrow> n \<le> round_half_even x"
  using round_half_even_bounds(1) [of x] by (metis le_floor_iff order_trans)

lemma round_half_even_le: "x \<le> of_int n \<Longrightarrow> round_half_even x \<le> n"
  using round_half_even_bounds(2) [of x] by (metis ceiling_le_iff order_trans)

lemma f64_exponent_bounds:
  assumes "1 / 2 ^ 64 \<le> q"
  shows "2 powi f64_exponent q \<le> q" and "q < 2 powi (f64_exponent q + 1)"
proof -
  define n where "n = nat \<lfloor>q * 2 ^ 64\<rfloor>"
  define k where "k = floorlog 2 n"
  have big: "1 \<le> q * 2 ^ 64" using assms by (simp add: field_simps)
  then have n: "of_nat n = (of_int \<lfloor>q * 2 ^ 64\<rfloor> :: rat)" "0 < n" by (simp_all add: n_def)
  have k: "2 ^ (k - 1) \<le> n" "n < 2 ^ k" "1 \<le> k"
    using floorlog_bounds [of n 2] n(2) by (auto simp: k_def floorlog_def)
  have "of_nat (2 ^ (k - 1)) \<le> (of_nat n :: rat)" "of_nat (Suc n) \<le> (of_nat (2 ^ k) :: rat)"
    using k(1,2) by (simp_all only: of_nat_le_iff Suc_le_eq)
  then have low: "2 ^ (k - 1) \<le> (of_nat n :: rat)" and high: "of_nat n + 1 \<le> (2 :: rat) ^ k" by simp_all
  have above: "of_nat n \<le> q * 2 ^ 64" and below: "q * 2 ^ 64 < of_nat n + 1"
    using floor_correct [of "q * 2 ^ 64"] unfolding n(1) by simp_all
  note scaled = order_trans [OF low above] less_le_trans [OF below high]
  have e: "f64_exponent q = int (k - 1) - 64"
    using k(3) by (simp add: f64_exponent_def n_def k_def)
  have "(2 :: rat) powi f64_exponent q = 2 ^ (k - 1) / 2 ^ 64"
    by (simp add: e power_int_diff)
  then show "2 powi f64_exponent q \<le> q" using scaled(1) by (simp add: field_simps)
  have "(2 :: rat) powi (f64_exponent q + 1) = 2 ^ k / 2 ^ 64"
  proof -
    have next_power: "f64_exponent q + 1 = int k - 64" using e k(3) by simp
    show ?thesis unfolding next_power by (simp add: power_int_diff)
  qed
  then show "q < 2 powi (f64_exponent q + 1)" using scaled(2) by (simp add: field_simps)
qed

lemma f64_exponent_eq:
  assumes "1 / 2 ^ 64 \<le> q" and "2 powi e \<le> q" "q < 2 powi (e + 1)"
  shows "f64_exponent q = e"
proof -
  note f64_exponent_bounds [OF assms(1)]
  moreover have "\<not> e + 1 \<le> f64_exponent q"
    using calculation assms(3) power_int_increasing [of "e + 1" "f64_exponent q" "2 :: rat"] by force
  moreover have "\<not> f64_exponent q + 1 \<le> e"
    using calculation(2) assms(2) power_int_increasing [of "f64_exponent q + 1" e "2 :: rat"] by force
  ultimately show ?thesis by simp
qed

text \<open>Whole numbers below \<open>2 ^ 53\<close> are values, so rounding never passes one.\<close>

lemma unit_cases:
  assumes "1 / 2 ^ 64 \<le> q"
  obtains (fine) m :: nat where "2 powi (f64_exponent q - 52) = (1 :: rat) / 2 ^ m"
    | (coarse) m :: nat where "2 powi (f64_exponent q - 52) = (2 :: rat) ^ m" "2 ^ (m + 52) \<le> q" "0 < m"
proof (cases "f64_exponent q \<le> 52")
  case True
  then obtain m :: nat where "f64_exponent q - 52 = - int m" by (metis diff_le_0_iff_le nonpos_int_cases)
  then have "2 powi (f64_exponent q - 52) = (1 :: rat) / 2 ^ m" by (simp add: power_int_minus_divide)
  then show thesis by (rule fine)
next
  case False
  then obtain m :: nat where m: "f64_exponent q - 52 = int m" "0 < m"
    by (metis diff_gt_0_iff_gt linorder_not_le zero_less_imp_eq_int)
  then have "f64_exponent q = int (m + 52)" by simp
  then have "2 ^ (m + 52) \<le> q" using f64_exponent_bounds(1) [OF assms] by (simp only: power_int_of_nat)
  then show thesis using coarse m by simp
qed

lemma round64_ge_int:
  assumes q: "1 / 2 ^ 64 \<le> q" and n: "of_nat n \<le> q" "n < 2 ^ 53"
  shows "of_nat n \<le> round64 q"
  using q
proof (cases rule: unit_cases)
  case (fine m)
  have "of_int (int n * 2 ^ m) \<le> q * 2 ^ m" using n(1) by simp
  then have "int n * 2 ^ m \<le> round_half_even (q * 2 ^ m)" by (rule round_half_even_ge)
  then have "(of_int (int n * 2 ^ m) :: rat) \<le> of_int (round_half_even (q * 2 ^ m))" by (simp only: of_int_le_iff)
  moreover have "q \<noteq> 0" "\<bar>q\<bar> = q" using q by auto
  ultimately show ?thesis by (simp add: round64_def fine field_simps)
next
  case (coarse m)
  have "of_int (2 ^ 52) \<le> q / 2 ^ m" using coarse(2) by (simp add: field_simps power_add)
  then have "2 ^ 52 \<le> round_half_even (q / 2 ^ m)" by (rule round_half_even_ge)
  then have "(of_int (2 ^ 52) :: rat) \<le> of_int (round_half_even (q / 2 ^ m))" by (simp only: of_int_le_iff)
  then have "(2 ^ 52 :: rat) * 2 ^ 1 \<le> of_int (round_half_even (q / 2 ^ m)) * 2 ^ m"
    using coarse(3) by (intro mult_mono power_increasing) auto
  moreover have "(of_nat n :: rat) \<le> 2 ^ 52 * 2 ^ 1" using n(2) by simp
  ultimately have "of_nat n \<le> of_int (round_half_even (q / 2 ^ m)) * (2 :: rat) ^ m" by (rule order_trans [rotated])
  moreover have "q \<noteq> 0" "\<bar>q\<bar> = q" using q by auto
  ultimately show ?thesis by (simp add: round64_def coarse Let_def)
qed

lemma round64_le_int:
  assumes q: "1 / 2 ^ 64 \<le> q" and n: "q \<le> of_nat n" "n < 2 ^ 53"
  shows "round64 q \<le> of_nat n"
  using q
proof (cases rule: unit_cases)
  case (fine m)
  have "q * 2 ^ m \<le> of_int (int n * 2 ^ m)" using n(1) by simp
  then have "round_half_even (q * 2 ^ m) \<le> int n * 2 ^ m" by (rule round_half_even_le)
  then have "(of_int (round_half_even (q * 2 ^ m)) :: rat) \<le> of_int (int n * 2 ^ m)" by (simp only: of_int_le_iff)
  moreover have "q \<noteq> 0" "\<bar>q\<bar> = q" using q by auto
  ultimately show ?thesis by (simp add: round64_def fine field_simps)
next
  case (coarse m)
  have "(2 :: rat) ^ 53 \<le> 2 ^ (m + 52)" using coarse(3) by (intro power_increasing) auto
  also have "\<dots> \<le> of_nat n" using coarse(2) n(1) by (rule order_trans)
  finally have "(of_nat (2 ^ 53) :: rat) \<le> of_nat n" by simp
  then have "2 ^ 53 \<le> n" by (simp only: of_nat_le_iff)
  then show ?thesis using n(2) by simp
qed

lemma round64_int: "n < 2 ^ 53 \<Longrightarrow> round64 (of_nat n) = of_nat n"
proof (cases "n = 0")
  case True
  then show ?thesis by (simp add: round64_def)
next
  case False
  assume "n < 2 ^ 53"
  moreover have "1 / 2 ^ 64 \<le> (of_nat n :: rat)"
  proof -
    have "(1 :: rat) / 2 ^ 64 \<le> 1" by simp
    also have "\<dots> \<le> of_nat n" using False by (simp add: Suc_leI)
    finally show ?thesis .
  qed
  ultimately show ?thesis by (intro antisym round64_ge_int round64_le_int) simp_all
qed

text \<open>The relative error is at most \<open>2 ^ -53\<close>.\<close>

lemma round_half_even_error: "\<bar>of_int (round_half_even x) - x\<bar> \<le> 1 / 2"
proof -
  have "0 \<le> x - of_int \<lfloor>x\<rfloor>" "x - of_int \<lfloor>x\<rfloor> < 1" using floor_correct [of x] by auto
  then show ?thesis unfolding round_half_even_def Let_def abs_if by (simp split: if_splits) linarith
qed

lemma round64_error:
  assumes "1 / 2 ^ 64 \<le> q"
  shows "\<bar>round64 q - q\<bar> \<le> q / 2 ^ 53"
proof -
  define u :: rat where "u = 2 powi (f64_exponent q - 52)"
  have u: "0 < u" by (simp add: u_def)
  have "u * 2 ^ 52 = 2 powi f64_exponent q" by (simp add: u_def power_int_diff)
  then have "u * 2 ^ 52 \<le> q" using f64_exponent_bounds(1) [OF assms] by simp
  then have small: "u / 2 \<le> q / 2 ^ 53" by simp
  have q: "q \<noteq> 0" "\<bar>q\<bar> = q" using assms by auto
  then have "\<bar>round64 q - q\<bar> = \<bar>of_int (round_half_even (q / u)) - q / u\<bar> * u"
  proof -
    have "round64 q - q = (of_int (round_half_even (q / u)) - q / u) * u"
      using u q by (simp add: round64_def Let_def u_def [symmetric] left_diff_distrib)
    then show ?thesis using u by (simp add: abs_mult)
  qed
  also have "\<dots> \<le> 1 / 2 * u" using u by (intro mult_right_mono round_half_even_error) simp
  also have "\<dots> \<le> q / 2 ^ 53" using small by simp
  finally show ?thesis .
qed

end
