(* ===== verification/Imaging.thy ===== *)
theory Imaging
  imports MachineFloats
begin

text \<open>
  The image routines of the capture path (\<open>autopiercam-core/src/image.rs\<close>): bilinear
  demosaicing of the Bayer plane, the downscaled preview, and the intensity statistics that drive
  automatic exposure. Pixel values are words of the width of the sensor data; sizes are \<open>u32\<close> and
  \<open>usize\<close> values.
\<close>

type_synonym u16 = "16 word"

datatype bayer_pattern = Rg | Bg | Gr | Gb

datatype color = Red | Green | Blue

datatype image_error =
    DimensionsOverflow
  | EmptyImage
  | InvalidPreviewBounds nat nat
  | BufferLength nat nat
  | InvalidRgbLength nat

subsection \<open>Buffers\<close>

definition validate_raw8 :: "u8 list \<Rightarrow> nat \<Rightarrow> nat \<Rightarrow> image_error + unit" where
  "validate_raw8 raw width height =
     rbind (ok_or (checked_mul_u64 width height) DimensionsOverflow) (\<lambda>expected.
     rbind (require (length raw = expected) (BufferLength expected (length raw))) (\<lambda>_.
     require (\<not> (width = 0 \<or> height = 0)) EmptyImage))"

text \<open>The length of the allocated buffer.\<close>

definition allocate_rgb :: "nat \<Rightarrow> nat \<Rightarrow> image_error + nat" where
  "allocate_rgb width height =
     ok_or (Option.bind (checked_mul_u64 width height) (\<lambda>pixels. checked_mul_u64 pixels 3)) DimensionsOverflow"

subsection \<open>Demosaicing\<close>

definition color_at :: "nat \<Rightarrow> nat \<Rightarrow> bayer_pattern \<Rightarrow> color" where
  "color_at x y pattern =
     (case (pattern, even x, even y) of
        (Rg, True, True) \<Rightarrow> Red | (Gr, False, True) \<Rightarrow> Red
      | (Rg, False, False) \<Rightarrow> Blue | (Gr, True, False) \<Rightarrow> Blue
      | (Bg, True, True) \<Rightarrow> Blue | (Gb, False, True) \<Rightarrow> Blue
      | (Bg, False, False) \<Rightarrow> Red | (Gb, True, False) \<Rightarrow> Red
      | _ \<Rightarrow> Green)"

definition neighbors :: "nat \<Rightarrow> nat \<Rightarrow> nat \<Rightarrow> nat \<Rightarrow> bayer_pattern \<Rightarrow> color \<Rightarrow> (nat \<times> nat) list" where
  "neighbors width height x y pattern requested =
     map (\<lambda>(ny, nx). (nx, ny))
       (filter (\<lambda>(ny, nx). color_at nx ny pattern = requested)
          (List.product [y - 1..<Suc (min (y + 1) (height - 1))] [x - 1..<Suc (min (x + 1) (width - 1))]))"

definition rounded_average :: "nat list \<Rightarrow> nat option" where
  "rounded_average samples =
     (let count = length samples
      in if count = 0 then None else Some ((sum_list samples + count div 2) div count))"

text \<open>
  Every index is below \<open>width * height\<close>, which is the length of the validated plane.
\<close>

definition neighbor_average ::
  "u8 list \<Rightarrow> nat \<Rightarrow> nat \<Rightarrow> nat \<Rightarrow> nat \<Rightarrow> bayer_pattern \<Rightarrow> color \<Rightarrow> u8" where
  "neighbor_average raw width height x y pattern requested =
     (case rounded_average
        (map (\<lambda>(nx, ny). unat (raw ! (ny * width + nx))) (neighbors width height x y pattern requested)) of
        Some average \<Rightarrow> of_nat average
      | None \<Rightarrow> raw ! (y * width + x))"

definition demosaic_pixel :: "u8 list \<Rightarrow> nat \<Rightarrow> nat \<Rightarrow> nat \<Rightarrow> nat \<Rightarrow> bayer_pattern \<Rightarrow> u8 list" where
  "demosaic_pixel raw width height x y pattern =
     map (\<lambda>requested. if requested = color_at x y pattern then raw ! (y * width + x)
                      else neighbor_average raw width height x y pattern requested)
       [Red, Green, Blue]"

definition demosaic_bilinear :: "u8 list \<Rightarrow> nat \<Rightarrow> nat \<Rightarrow> bayer_pattern \<Rightarrow> image_error + u8 list" where
  "demosaic_bilinear raw width height pattern =
     rbind (validate_raw8 raw width height) (\<lambda>_.
     rbind (allocate_rgb width height) (\<lambda>_.
     Inr (concat [demosaic_pixel raw width height x y pattern. y \<leftarrow> [0..<height], x \<leftarrow> [0..<width]])))"

text \<open>The 16-bit form reads little-endian samples and averages at full width.\<close>

definition sample16 :: "u8 list \<Rightarrow> nat \<Rightarrow> nat \<Rightarrow> nat \<Rightarrow> nat" where
  "sample16 raw width x y =
     (let offset = (y * width + x) * 2 in unat (raw ! offset) + 256 * unat (raw ! (offset + 1)))"

definition demosaic_pixel16 :: "u8 list \<Rightarrow> nat \<Rightarrow> nat \<Rightarrow> nat \<Rightarrow> nat \<Rightarrow> bayer_pattern \<Rightarrow> u16 list" where
  "demosaic_pixel16 raw width height x y pattern =
     map (\<lambda>requested. of_nat
       (if color_at x y pattern = requested then sample16 raw width x y
        else case rounded_average
            (map (\<lambda>(nx, ny). sample16 raw width nx ny) (neighbors width height x y pattern requested)) of
            Some average \<Rightarrow> average
          | None \<Rightarrow> sample16 raw width x y))
       [Red, Green, Blue]"

definition demosaic_bilinear16 :: "u8 list \<Rightarrow> nat \<Rightarrow> nat \<Rightarrow> bayer_pattern \<Rightarrow> image_error + u16 list" where
  "demosaic_bilinear16 raw width height pattern =
     rbind (ok_or (checked_mul_u64 width height) DimensionsOverflow) (\<lambda>pixels.
     rbind (ok_or (checked_mul_u64 pixels 2) DimensionsOverflow) (\<lambda>expected.
     rbind (require (length raw = expected) (BufferLength expected (length raw))) (\<lambda>_.
     rbind (require (\<not> (width = 0 \<or> height = 0)) EmptyImage) (\<lambda>_.
     rbind (ok_or (checked_mul_u64 pixels 3) DimensionsOverflow) (\<lambda>_.
     Inr (concat [demosaic_pixel16 raw width height x y pattern. y \<leftarrow> [0..<height], x \<leftarrow> [0..<width]]))))))"

subsection \<open>Previews\<close>

definition scaled_dimension :: "nat \<Rightarrow> nat \<Rightarrow> nat \<Rightarrow> nat" where
  "scaled_dimension source other_source other_preview =
     (let rounded = sat_add_u64 (source * other_preview) (other_source div 2) div other_source
      in max (min rounded 4294967295) 1)"

definition fit_dimensions :: "nat \<Rightarrow> nat \<Rightarrow> nat \<Rightarrow> nat \<Rightarrow> nat \<times> nat" where
  "fit_dimensions width height max_width max_height =
     (if width \<le> max_width \<and> height \<le> max_height then (width, height)
      else if max_width * height \<le> max_height * width
      then (let preview_width = min width max_width
            in (preview_width, min (scaled_dimension height width preview_width) max_height))
      else (let preview_height = min height max_height
            in (min (scaled_dimension width height preview_height) max_width, preview_height)))"

definition source_coordinate :: "nat \<Rightarrow> nat \<Rightarrow> nat \<Rightarrow> nat" where
  "source_coordinate coordinate source_extent preview_extent =
     (if source_extent = preview_extent then coordinate
      else min (min ((coordinate * 2 + 1) * source_extent div (preview_extent * 2)) 4294967295)
             (source_extent - 1))"

definition demosaic_bilinear_preview ::
  "u8 list \<Rightarrow> nat \<Rightarrow> nat \<Rightarrow> bayer_pattern \<Rightarrow> nat \<Rightarrow> nat \<Rightarrow> image_error + nat \<times> nat \<times> u8 list" where
  "demosaic_bilinear_preview raw width height pattern max_width max_height =
     rbind (validate_raw8 raw width height) (\<lambda>_.
     rbind (require (\<not> (max_width = 0 \<or> max_height = 0)) (InvalidPreviewBounds max_width max_height)) (\<lambda>_.
     case fit_dimensions width height max_width max_height of
       (preview_width, preview_height) \<Rightarrow>
         rbind (allocate_rgb preview_width preview_height) (\<lambda>_.
         Inr (preview_width, preview_height,
              concat [demosaic_pixel raw width height (source_coordinate x width preview_width)
                        (source_coordinate y height preview_height) pattern.
                      y \<leftarrow> [0..<preview_height], x \<leftarrow> [0..<preview_width]]))))"

subsection \<open>Intensity statistics\<close>

record luma_statistics =
  ls_mean :: rat
  ls_p50 :: nat
  ls_p90 :: nat
  ls_clipped_fraction :: rat

text \<open>\<open>iter().step_by(stride)\<close> for a positive stride.\<close>

fun step_by :: "nat \<Rightarrow> 'a list \<Rightarrow> 'a list" where
  "step_by stride [] = []"
| "step_by stride (x # xs) = x # step_by stride (drop (stride - 1) xs)"

fun chunks2 :: "'a list \<Rightarrow> ('a \<times> 'a) list" where
  "chunks2 (a # b # rest) = (a, b) # chunks2 rest"
| "chunks2 _ = []"

fun chunks3 :: "'a list \<Rightarrow> ('a \<times> 'a \<times> 'a) list" where
  "chunks3 (a # b # c # rest) = (a, b, c) # chunks3 rest"
| "chunks3 _ = []"

text \<open>One pass over the samples: the histogram, their sum and their number.\<close>

fun tally :: "nat list \<Rightarrow> nat list \<times> nat \<times> nat \<Rightarrow> nat list \<times> nat \<times> nat" where
  "tally [] acc = acc"
| "tally (v # vs) (histogram, weight, count) =
     tally vs (histogram[v := histogram ! v + 1], weight + v, count + 1)"

fun percentile_scan :: "nat \<Rightarrow> nat \<Rightarrow> nat \<Rightarrow> nat list \<Rightarrow> nat" where
  "percentile_scan target v cumulative [] = 255"
| "percentile_scan target v cumulative (occurrences # rest) =
     (if cumulative + occurrences \<ge> target then v
      else percentile_scan target (v + 1) (cumulative + occurrences) rest)"

definition percentile_target :: "nat \<Rightarrow> rat \<Rightarrow> nat" where
  "percentile_target count fraction = max (nat \<lceil>round64 (round64 (of_nat count) * fraction)\<rceil>) 1"

definition percentile :: "nat list \<Rightarrow> nat \<Rightarrow> rat \<Rightarrow> nat" where
  "percentile histogram count fraction = percentile_scan (percentile_target count fraction) 0 0 histogram"

text \<open>The \<open>f64\<close> literal \<open>0.90\<close>.\<close>

definition f64_nine_tenths :: rat where
  "f64_nine_tenths = 8106479329266893 / 9007199254740992"

definition ratio32 :: "nat \<Rightarrow> nat \<Rightarrow> rat" where
  "ratio32 a b = round32 (round32 (of_nat a) / round32 (of_nat b))"

definition stats_from_histogram :: "nat list \<Rightarrow> nat \<Rightarrow> nat \<Rightarrow> image_error + luma_statistics" where
  "stats_from_histogram histogram weight count =
     (if count = 0 then Inl EmptyImage
      else Inr \<lparr>ls_mean = ratio32 weight count,
                ls_p50 = percentile histogram count (1 / 2),
                ls_p90 = percentile histogram count f64_nine_tenths,
                ls_clipped_fraction = ratio32 (sum_list (drop 250 histogram)) count\<rparr>)"

definition stats_of_samples :: "nat list \<Rightarrow> image_error + luma_statistics" where
  "stats_of_samples samples =
     (case tally samples (replicate 256 0, 0, 0) of
        (histogram, weight, count) \<Rightarrow> stats_from_histogram histogram weight count)"

definition raw8_stats :: "u8 list \<Rightarrow> nat \<Rightarrow> image_error + luma_statistics" where
  "raw8_stats raw sample_stride_pixels =
     stats_of_samples (map unat (step_by (max sample_stride_pixels 1) raw))"

definition raw16_stats :: "u8 list \<Rightarrow> nat \<Rightarrow> image_error + luma_statistics" where
  "raw16_stats raw sample_stride_pixels =
     rbind (require (length raw mod 2 = 0) (BufferLength (length raw div 2 * 2) (length raw))) (\<lambda>_.
     stats_of_samples (map (\<lambda>(low, high). unat high) (step_by (max sample_stride_pixels 1) (chunks2 raw))))"

definition luma :: "u8 \<times> u8 \<times> u8 \<Rightarrow> nat" where
  "luma pixel = (case pixel of (r, g, b) \<Rightarrow> (54 * unat r + 183 * unat g + 19 * unat b) div 256)"

definition luma_stats :: "u8 list \<Rightarrow> nat \<Rightarrow> image_error + luma_statistics" where
  "luma_stats rgb sample_stride_pixels =
     rbind (require (length rgb mod 3 = 0) (InvalidRgbLength (length rgb))) (\<lambda>_.
     stats_of_samples (map luma (step_by (max sample_stride_pixels 1) (chunks3 rgb))))"

definition raw16_to_raw8 :: "u8 list \<Rightarrow> image_error + u8 list" where
  "raw16_to_raw8 raw =
     rbind (require (length raw mod 2 = 0) (BufferLength (length raw div 2 * 2) (length raw))) (\<lambda>_.
     Inr (map snd (chunks2 raw)))"

end
