(* ===== verification/ImagingTheorems.thy ===== *)
theory ImagingTheorems
  imports Imaging "HOL-Library.Multiset"
begin

text \<open>
  What the image routines compute: pixels of the demosaiced image, the preview as a sampling of the
  full image, and the percentiles as order statistics of the samples.
\<close>

subsection \<open>Rows of pixels\<close>

lemma concat_uniform:
  assumes "\<And>x. x \<in> set xs \<Longrightarrow> length (f x) = k"
  shows "length (concat (map f xs)) = length xs * k"
    and "i < length xs \<Longrightarrow> c < k \<Longrightarrow> concat (map f xs) ! (i * k + c) = f (xs ! i) ! c"
proof -
  show "length (concat (map f xs)) = length xs * k"
    using assms by (induction xs) auto
  show "i < length xs \<Longrightarrow> c < k \<Longrightarrow> concat (map f xs) ! (i * k + c) = f (xs ! i) ! c"
    using assms
  proof (induction xs arbitrary: i)
    case (Cons a xs)
    show ?case
    proof (cases i)
      case 0
      then show ?thesis using Cons.prems by (simp add: nth_append)
    next
      case (Suc j)
      have "\<not> k + j * k + c < length (f a)" using Cons.prems(3) [of a] by simp
      then have "concat (map f (a # xs)) ! (i * k + c) = concat (map f xs) ! (j * k + c)"
        using Cons.prems(3) [of a] Suc by (simp add: nth_append add.assoc)
      then show ?thesis using Cons.IH [of j] Cons.prems Suc by simp
    qed
  qed simp
qed

definition pixel_grid :: "nat \<Rightarrow> nat \<Rightarrow> (nat \<Rightarrow> nat \<Rightarrow> 'a list) \<Rightarrow> 'a list" where
  "pixel_grid width height f = concat [f x y. y \<leftarrow> [0..<height], x \<leftarrow> [0..<width]]"

lemma pixel_grid_rows:
  "pixel_grid width height f = concat (map (\<lambda>y. concat (map (\<lambda>x. f x y) [0..<width])) [0..<height])"
proof -
  have "concat (concat (map g ys)) = concat (map (\<lambda>y. concat (g y)) ys)" for g :: "nat \<Rightarrow> 'a list list" and ys
    by (induction ys) auto
  then show ?thesis by (simp add: pixel_grid_def)
qed

lemma pixel_grid_nth:
  assumes "\<And>x y. length (f x y) = k" and "x < width" "y < height" "c < k"
  shows "pixel_grid width height f ! ((y * width + x) * k + c) = f x y ! c"
    and "length (pixel_grid width height f) = height * width * k"
proof -
  have row: "length (concat (map (\<lambda>x. f x y) [0..<width])) = width * k" for y
    using concat_uniform(1) [of "[0..<width]" "\<lambda>x. f x y" k] assms(1) by simp
  have "x * k + c < Suc x * k" using assms(4) by simp
  also have "\<dots> \<le> width * k" using assms(2) by (intro mult_le_mono1 Suc_leI)
  finally have "x * k + c < width * k" .
  then have "pixel_grid width height f ! (y * (width * k) + (x * k + c))
      = concat (map (\<lambda>x. f x y) [0..<width]) ! (x * k + c)"
    unfolding pixel_grid_rows
    using concat_uniform(2) [of "[0..<height]" "\<lambda>y. concat (map (\<lambda>x. f x y) [0..<width])" "width * k" y "x * k + c"]
      row assms(3) by simp
  also have "\<dots> = f x y ! c"
    using concat_uniform(2) [of "[0..<width]" "\<lambda>x. f x y" k x c] assms by simp
  finally show "pixel_grid width height f ! ((y * width + x) * k + c) = f x y ! c"
    by (simp add: algebra_simps)
  show "length (pixel_grid width height f) = height * width * k"
    unfolding pixel_grid_rows
    using concat_uniform(1) [of "[0..<height]" "\<lambda>y. concat (map (\<lambda>x. f x y) [0..<width])" "width * k"] row by simp
qed

lemma length_demosaic_pixel [simp]: "length (demosaic_pixel raw width height x y pattern) = 3"
  by (simp add: demosaic_pixel_def)

lemma demosaic_bilinear_Inr:
  "demosaic_bilinear raw width height pattern = Inr rgb \<longleftrightarrow>
     width * height * 3 \<le> u64_max \<and> length raw = width * height \<and> 0 < width \<and> 0 < height
     \<and> rgb = pixel_grid width height (\<lambda>x y. demosaic_pixel raw width height x y pattern)"
  by (auto simp: demosaic_bilinear_def validate_raw8_def allocate_rgb_def checked_mul_u64_def pixel_grid_def
      result_simps split: if_splits Option.bind_splits)

subsection \<open>Demosaicing\<close>

text \<open>Every neighbour lies on the plane and has the requested colour, so every read is in range.\<close>

lemma window_iff:
  "(nx, ny) \<in> set (map (\<lambda>(j, i). (i, j)) (filter P (List.product [a..<Suc b] [c..<Suc d]))) \<longleftrightarrow>
     a \<le> ny \<and> ny \<le> b \<and> c \<le> nx \<and> nx \<le> d \<and> P (ny, nx)"
  by (auto simp: less_Suc_eq_le image_iff)

lemma neighbors_iff:
  "(nx, ny) \<in> set (neighbors width height x y pattern requested) \<longleftrightarrow>
     y - 1 \<le> ny \<and> ny \<le> y + 1 \<and> ny \<le> height - 1 \<and> x - 1 \<le> nx \<and> nx \<le> x + 1 \<and> nx \<le> width - 1
     \<and> color_at nx ny pattern = requested"
  unfolding neighbors_def window_iff prod.case min.bounded_iff by blast

lemma neighbors_on_plane:
  assumes "0 < width" "0 < height" and "(nx, ny) \<in> set (neighbors width height x y pattern requested)"
  shows "nx < width" "ny < height" "color_at nx ny pattern = requested"
    "nx \<le> x + 1" "x \<le> nx + 1" "ny \<le> y + 1" "y \<le> ny + 1" "ny * width + nx < width * height"
proof -
  show *: "nx < width" "ny < height" "color_at nx ny pattern = requested"
    "nx \<le> x + 1" "x \<le> nx + 1" "ny \<le> y + 1" "y \<le> ny + 1"
    using assms unfolding neighbors_iff by linarith+
  have "ny * width + nx < Suc ny * width" using *(1) by simp
  also have "\<dots> \<le> height * width" using *(2) by (intro mult_le_mono1 Suc_leI)
  finally show "ny * width + nx < width * height" by (simp add: mult.commute)
qed

text \<open>Away from one-pixel planes every pixel has a neighbour of every other colour.\<close>

lemma color_cases: "requested = color_at x y pattern \<or> requested = color_at (Suc x) y pattern
    \<or> requested = color_at x (Suc y) pattern \<or> requested = color_at (Suc x) (Suc y) pattern"
  by (cases pattern; cases requested; cases "even x"; cases "even y") (auto simp: color_at_def)

lemma color_at_period [simp]:
  "color_at (Suc (Suc x)) y pattern = color_at x y pattern"
  "color_at x (Suc (Suc y)) pattern = color_at x y pattern"
  by (simp_all add: color_at_def)

lemma neighbors_exist:
  assumes "1 < width" "1 < height" "x < width" "y < height"
  shows "neighbors width height x y pattern requested \<noteq> []"
proof -
  define bx where "bx = (if x + 1 < width then x else x - 1)"
  define y0 where "y0 = (if y + 1 < height then y else y - 1)"
  have "bx + 1 < width" "y0 + 1 < height" "bx \<le> x" "x \<le> bx + 1" "y0 \<le> y" "y \<le> y0 + 1"
    using assms by (auto simp: bx_def y0_def)
  moreover obtain nx ny where "nx \<in> {bx, Suc bx}" "ny \<in> {y0, Suc y0}" "color_at nx ny pattern = requested"
    using color_cases [of requested bx y0 pattern] by auto
  ultimately have "(nx, ny) \<in> set (neighbors width height x y pattern requested)"
    using assms unfolding neighbors_iff by (elim insertE; simp; presburger)
  then show ?thesis by auto
qed

lemma rounded_average_between:
  assumes "xs \<noteq> []" and "\<forall>v \<in> set xs. low \<le> v \<and> v \<le> high"
  shows "\<exists>a. rounded_average xs = Some a \<and> low \<le> a \<and> a \<le> high"
proof -
  have "length xs * low \<le> sum_list xs" "sum_list xs \<le> length xs * high"
    using assms(2) by (induction xs) auto
  moreover have n: "0 < length xs" using assms(1) by simp
  ultimately have "low * length xs \<le> sum_list xs + length xs div 2" by (simp add: mult.commute)
  moreover have "sum_list xs + length xs div 2 < high * length xs + length xs"
    using \<open>sum_list xs \<le> length xs * high\<close> n by (intro add_le_less_mono) (simp_all add: mult.commute)
  ultimately have "low \<le> (sum_list xs + length xs div 2) div length xs"
    "(sum_list xs + length xs div 2) div length xs < Suc high"
    using n by (simp add: less_eq_div_iff_mult_less_eq, intro less_mult_imp_div_less, simp add: add.commute)
  then show ?thesis using assms(1) by (simp add: rounded_average_def Let_def)
qed

definition color_index :: "color \<Rightarrow> nat" where
  "color_index c = (case c of Red \<Rightarrow> 0 | Green \<Rightarrow> 1 | Blue \<Rightarrow> 2)"

lemma demosaic_pixel_channel:
  "demosaic_pixel raw width height x y pattern ! color_index requested =
     (if requested = color_at x y pattern then raw ! (y * width + x)
      else neighbor_average raw width height x y pattern requested)"
  by (cases requested) (simp_all add: demosaic_pixel_def color_index_def)

text \<open>C25: demosaicing invents no light: every pixel keeps the sample the sensor took in its own colour,
  and each colour that had to be interpolated lies between the darkest and the brightest sample of
  that colour in its neighbourhood, which is never empty and never leaves the plane.\<close>

theorem demosaicing_is_bounded_by_samples:
  assumes "demosaic_bilinear raw width height pattern = Inr rgb"
    and "1 < width" "1 < height" "x < width" "y < height"
  shows "let v = rgb ! ((y * width + x) * 3 + color_index requested);
             around = {raw ! (ny * width + nx) | nx ny.
               nx < width \<and> ny < height \<and> color_at nx ny pattern = requested
               \<and> nx \<le> x + 1 \<and> x \<le> nx + 1 \<and> ny \<le> y + 1 \<and> y \<le> ny + 1}
         in if requested = color_at x y pattern then v = raw ! (y * width + x)
            else \<exists>low \<in> around. \<exists>high \<in> around. low \<le> v \<and> v \<le> high"
proof -
  define v where "v = rgb ! ((y * width + x) * 3 + color_index requested)"
  have "rgb = pixel_grid width height (\<lambda>x y. demosaic_pixel raw width height x y pattern)"
    using assms(1) by (simp add: demosaic_bilinear_Inr)
  moreover have "color_index requested < 3" by (cases requested) (simp_all add: color_index_def)
  ultimately have v: "v = demosaic_pixel raw width height x y pattern ! color_index requested"
    using pixel_grid_nth(1) [of "\<lambda>x y. demosaic_pixel raw width height x y pattern" 3] assms(4,5)
    by (simp add: v_def)
  show ?thesis
  proof (cases "requested = color_at x y pattern")
    case True
    then show ?thesis using v unfolding v_def [symmetric] Let_def by (simp add: demosaic_pixel_channel)
  next
    case False
    define ns where "ns = neighbors width height x y pattern requested"
    define samples where "samples = map (\<lambda>(nx, ny). raw ! (ny * width + nx)) ns"
    have ns: "samples \<noteq> []" using neighbors_exist [OF assms(2-5)] by (simp add: samples_def ns_def)
    obtain low high where ends: "low \<in> set samples" "high \<in> set samples"
      and all: "\<forall>s \<in> set samples. low \<le> s \<and> s \<le> high"
      using ns Min_in [of "set samples"] Max_in [of "set samples"] by (metis List.finite_set Max_ge Min_le set_empty)
    have "\<forall>n \<in> set (map unat samples). unat low \<le> n \<and> n \<le> unat high"
      using all by (simp add: word_le_nat_alt)
    then obtain a where a: "rounded_average (map unat samples) = Some a" "unat low \<le> a" "a \<le> unat high"
      using rounded_average_between [of "map unat samples" "unat low" "unat high"] ns by auto
    have same: "map (\<lambda>(nx, ny). unat (raw ! (ny * width + nx))) ns = map unat samples"
      by (simp add: samples_def o_def case_prod_beta)
    have "v = of_nat a"
      using v False a(1) by (simp add: demosaic_pixel_channel neighbor_average_def ns_def [symmetric] same)
    moreover have "unat high < 256" using unat_lt2p_byte .
    ultimately have "v = of_nat a" "a < 256" using a(3) by simp_all
    then have "unat v = a" by (simp add: unat_of_nat)
    then have "low \<le> v" "v \<le> high" using a(2,3) by (simp_all add: word_le_nat_alt)
    moreover have "set samples \<subseteq> {raw ! (ny * width + nx) | nx ny.
               nx < width \<and> ny < height \<and> color_at nx ny pattern = requested
               \<and> nx \<le> x + 1 \<and> x \<le> nx + 1 \<and> ny \<le> y + 1 \<and> y \<le> ny + 1}"
    proof
      fix s assume "s \<in> set samples"
      then obtain nx ny where "(nx, ny) \<in> set ns" "s = raw ! (ny * width + nx)" by (auto simp: samples_def)
      then show "s \<in> {raw ! (ny * width + nx) | nx ny.
               nx < width \<and> ny < height \<and> color_at nx ny pattern = requested
               \<and> nx \<le> x + 1 \<and> x \<le> nx + 1 \<and> ny \<le> y + 1 \<and> y \<le> ny + 1}"
        using neighbors_on_plane(1-7) [of width height nx ny x y pattern requested] assms(2,3) unfolding ns_def by auto
    qed
    ultimately show ?thesis
      using ends False unfolding v_def [symmetric] Let_def if_not_P [OF False] by (meson subsetD)
  qed
qed

subsection \<open>Previews\<close>

lemma scaled_dimension_bounds:
  assumes "0 < source" "preview \<le> other" "0 < other"
  shows "1 \<le> scaled_dimension source other preview" "scaled_dimension source other preview \<le> source"
proof -
  show "1 \<le> scaled_dimension source other preview" by (simp add: scaled_dimension_def Let_def)
  have "source * preview + other div 2 < source * other + other"
    using assms by (intro add_le_less_mono) auto
  then have "sat_add_u64 (source * preview) (other div 2) < Suc source * other"
    by (simp add: sat_add_u64_def add.commute)
  then have "sat_add_u64 (source * preview) (other div 2) div other < Suc source"
    by (rule less_mult_imp_div_less)
  then show "scaled_dimension source other preview \<le> source"
    using assms(1) by (simp add: scaled_dimension_def Let_def)
qed

lemma fit_dimensions_bounds:
  assumes "0 < width" "0 < height" "0 < max_width" "0 < max_height"
    and "fit_dimensions width height max_width max_height = (pw, ph)"
  shows "0 < pw" "0 < ph" "pw \<le> width" "ph \<le> height" "pw \<le> max_width" "ph \<le> max_height"
proof -
  have "1 \<le> scaled_dimension height width (min width max_width)"
    "scaled_dimension height width (min width max_width) \<le> height"
    "1 \<le> scaled_dimension width height (min height max_height)"
    "scaled_dimension width height (min height max_height) \<le> width"
    using assms by (intro scaled_dimension_bounds; simp)+
  then show "0 < pw" "0 < ph" "pw \<le> width" "ph \<le> height" "pw \<le> max_width" "ph \<le> max_height"
    using assms by (auto simp: fit_dimensions_def Let_def split: if_splits)
qed

text \<open>The sampled coordinate is the source pixel that holds the centre of the preview pixel.\<close>

lemma source_coordinate_centre:
  assumes "c < preview" "0 < source" "source \<le> 4294967295"
  defines "s \<equiv> source_coordinate c source preview"
  shows "s < source" "s * (2 * preview) \<le> (2 * c + 1) * source" "(2 * c + 1) * source < (s + 1) * (2 * preview)"
proof -
  define q where "q = (c * 2 + 1) * source div (preview * 2)"
  have p: "0 < preview * 2" using assms(1) by simp
  have "c * 2 + 1 < preview * 2" using assms(1) by simp
  then have "(c * 2 + 1) * source < preview * 2 * source" using assms(2) by (intro mult_strict_right_mono) simp
  then have "(c * 2 + 1) * source < source * (preview * 2)" by (simp only: mult.commute)
  then have q: "q < source" unfolding q_def by (rule less_mult_imp_div_less)
  have s: "s = q"
  proof (cases "source = preview")
    case True
    have "(c * 2 + 1) * preview div (preview * 2) = c"
      using p by (simp add: div_mult2_eq)
    then show ?thesis using True by (simp add: s_def q_def source_coordinate_def)
  next
    case False
    then show ?thesis using q assms(3) unfolding s_def source_coordinate_def q_def [symmetric] by simp
  qed
  show "s < source" using q s by simp
  have "q * (preview * 2) \<le> (c * 2 + 1) * source" unfolding q_def by (rule div_times_less_eq_dividend)
  then show "s * (2 * preview) \<le> (2 * c + 1) * source" by (simp add: s mult.commute)
  have "(c * 2 + 1) * source < (q + 1) * (preview * 2)"
    unfolding q_def using p dividend_less_div_times [of "preview * 2" "(c * 2 + 1) * source"] by simp
  then show "(2 * c + 1) * source < (s + 1) * (2 * preview)" by (simp add: s mult.commute)
qed

text \<open>C26: the preview is the full picture, sampled: it is never larger than the source or the bounds asked
  for, and each of its pixels is the pixel that demosaicing the whole plane puts at the centre of
  the region it stands for, although the full picture is never built.\<close>

theorem preview_samples_full_image:
  assumes full: "demosaic_bilinear raw width height pattern = Inr rgb"
    and preview: "demosaic_bilinear_preview raw width height pattern max_width max_height = Inr (pw, ph, data)"
    and u32: "width \<le> 4294967295" "height \<le> 4294967295"
  shows "pw \<le> min width max_width \<and> ph \<le> min height max_height \<and> length data = ph * pw * 3
    \<and> (\<forall>x<pw. \<forall>y<ph. \<exists>sx<width. \<exists>sy<height.
          sx * (2 * pw) \<le> (2 * x + 1) * width \<and> (2 * x + 1) * width < (sx + 1) * (2 * pw)
        \<and> sy * (2 * ph) \<le> (2 * y + 1) * height \<and> (2 * y + 1) * height < (sy + 1) * (2 * ph)
        \<and> (\<forall>c<3. data ! ((y * pw + x) * 3 + c) = rgb ! ((sy * width + sx) * 3 + c)))"
proof -
  have rgb: "rgb = pixel_grid width height (\<lambda>x y. demosaic_pixel raw width height x y pattern)"
    and pos: "0 < width" "0 < height"
    using full by (auto simp: demosaic_bilinear_Inr)
  have fit: "fit_dimensions width height max_width max_height = (pw, ph)" "0 < max_width" "0 < max_height"
    and data: "data = pixel_grid pw ph (\<lambda>x y. demosaic_pixel raw width height
        (source_coordinate x width pw) (source_coordinate y height ph) pattern)"
    using preview by (auto simp: demosaic_bilinear_preview_def result_simps pixel_grid_def split: prod.splits)
  note bounds = fit_dimensions_bounds [OF pos fit(2,3,1)]
  have "\<exists>sx<width. \<exists>sy<height.
          sx * (2 * pw) \<le> (2 * x + 1) * width \<and> (2 * x + 1) * width < (sx + 1) * (2 * pw)
        \<and> sy * (2 * ph) \<le> (2 * y + 1) * height \<and> (2 * y + 1) * height < (sy + 1) * (2 * ph)
        \<and> (\<forall>c<3. data ! ((y * pw + x) * 3 + c) = rgb ! ((sy * width + sx) * 3 + c))"
    if xy: "x < pw" "y < ph" for x y
  proof (intro exI conjI)
    note cx = source_coordinate_centre [OF xy(1) pos(1) u32(1)]
    note cy = source_coordinate_centre [OF xy(2) pos(2) u32(2)]
    show "source_coordinate x width pw < width" "source_coordinate y height ph < height"
      "source_coordinate x width pw * (2 * pw) \<le> (2 * x + 1) * width"
      "(2 * x + 1) * width < (source_coordinate x width pw + 1) * (2 * pw)"
      "source_coordinate y height ph * (2 * ph) \<le> (2 * y + 1) * height"
      "(2 * y + 1) * height < (source_coordinate y height ph + 1) * (2 * ph)"
      using cx cy by simp_all
    show "\<forall>c<3. data ! ((y * pw + x) * 3 + c)
        = rgb ! ((source_coordinate y height ph * width + source_coordinate x width pw) * 3 + c)"
      unfolding data rgb using xy cx(1) cy(1)
      by (intro allI impI, subst (1 2) pixel_grid_nth(1) [where k = 3]) simp_all
  qed
  moreover have "length data = ph * pw * 3"
    unfolding data using bounds(1,2) by (subst pixel_grid_nth(2) [where k = 3 and x = 0 and y = 0 and c = 0]) simp_all
  ultimately show ?thesis using bounds by simp
qed

subsection \<open>Percentiles\<close>

lemma tally_counts:
  assumes "\<forall>v \<in> set vs. v < length h"
  shows "tally vs (h, s, c) =
    (map (\<lambda>v. h ! v + count_list vs v) [0..<length h], s + sum_list vs, c + length vs)"
  using assms
proof (induction vs arbitrary: h s c)
  case Nil
  then show ?case by (simp add: map_nth)
next
  case (Cons a vs)
  then have "tally vs (h[a := h ! a + 1], s + a, c + 1) =
    (map (\<lambda>v. h[a := h ! a + 1] ! v + count_list vs v) [0..<length h], s + a + sum_list vs, c + 1 + length vs)"
    by simp
  moreover have "map (\<lambda>v. h[a := h ! a + 1] ! v + count_list vs v) [0..<length h]
      = map (\<lambda>v. h ! v + count_list (a # vs) v) [0..<length h]"
    using Cons.prems by (auto simp: nth_list_update)
  ultimately show ?case by simp
qed

definition below :: "nat \<Rightarrow> nat list \<Rightarrow> nat" where
  "below v vs = length (filter (\<lambda>u. u < v) vs)"

lemma below_Suc: "below (Suc v) vs = below v vs + count_list vs v"
  by (induction vs) (auto simp: below_def less_Suc_eq)

lemma below_mono: "v \<le> w \<Longrightarrow> below v vs \<le> below w vs"
  by (induction vs) (auto simp: below_def)

lemma percentile_scan_result:
  assumes "v \<le> 256" and "below v vs < target" "target \<le> length vs" and "\<forall>u \<in> set vs. u < 256"
  defines "r \<equiv> percentile_scan target v (below v vs) (map (count_list vs) [v..<256])"
  shows "below r vs < target \<and> target \<le> below (Suc r) vs"
  using assms(1,2) unfolding r_def
proof (induction "256 - v" arbitrary: v)
  case 0
  then have "v = 256" by simp
  then have "below v vs = length vs" using assms(4) by (simp add: below_def)
  then show ?case using 0 assms(3) by simp
next
  case (Suc n)
  then have "[v..<256] = v # [Suc v..<256]" by (simp add: upt_conv_Cons)
  then show ?case
    using Suc.hyps(1) [of "Suc v"] Suc.hyps(2) Suc.prems by (auto simp: below_Suc)
qed

lemma length_filter_sort: "length (filter P (sort xs)) = length (filter P (xs :: nat list))"
  by (metis mset_filter mset_sort size_mset)

lemma sorted_at_rank:
  fixes xs :: "nat list"
  assumes "below v xs < target" "target \<le> below (Suc v) xs"
  shows "sort xs ! (target - 1) = v"
proof -
  define ys where "ys = sort xs"
  have count: "below w xs = card {i. i < length ys \<and> ys ! i < w}" for w
    unfolding below_def ys_def length_filter_sort [of "\<lambda>u. u < w" xs, symmetric] by (rule length_filter_conv_card)
  have t: "target - 1 < length ys"
  proof -
    have "below (Suc v) xs \<le> length ys" by (simp add: ys_def below_def)
    then show ?thesis using assms by linarith
  qed
  have mono: "i \<le> j \<Longrightarrow> j < length ys \<Longrightarrow> ys ! i \<le> ys ! j" for i j
    by (simp add: ys_def sorted_nth_mono)
  have "\<not> ys ! (target - 1) < v"
  proof
    assume "ys ! (target - 1) < v"
    then have "{..target - 1} \<subseteq> {i. i < length ys \<and> ys ! i < v}"
      using mono [of _ "target - 1"] t by (auto intro: le_less_trans)
    then have "card {..target - 1} \<le> below v xs" unfolding count by (intro card_mono) auto
    then show False using assms(1) by simp
  qed
  moreover have "\<not> v < ys ! (target - 1)"
  proof
    assume v: "v < ys ! (target - 1)"
    have "{i. i < length ys \<and> ys ! i < Suc v} \<subseteq> {..<target - 1}"
    proof
      fix i assume "i \<in> {i. i < length ys \<and> ys ! i < Suc v}"
      then show "i \<in> {..<target - 1}" using mono [of "target - 1" i] v by (cases "target - 1 \<le> i") auto
    qed
    then have "below (Suc v) xs \<le> card {..<target - 1}" unfolding count by (intro card_mono) auto
    then show False using assms by simp
  qed
  ultimately show ?thesis by (simp add: ys_def)
qed

lemma percentile_target_bounds:
  assumes "0 < n" "n < 2 ^ 48" and "9 / 10 \<le> f" "f \<le> 1"
  shows "0 < percentile_target n f" "percentile_target n f \<le> n" "9 * n \<le> 10 * percentile_target n f"
proof -
  have exact: "round64 (of_nat n) = of_nat n" using assms(2) by (intro round64_int) simp
  define x where "x = of_nat n * f"
  have "(1 :: rat) \<le> of_nat n" using assms(1) by (simp add: Suc_leI)
  moreover have low: "of_nat n * (9 / 10) \<le> x" unfolding x_def using assms(3) by (intro mult_left_mono) auto
  ultimately have tiny: "1 / 2 ^ 64 \<le> x" by simp
  have high: "x \<le> of_nat n" unfolding x_def using assms(4) by (simp add: mult_left_le)
  have t: "percentile_target n f = max (nat \<lceil>round64 x\<rceil>) 1" by (simp add: percentile_target_def exact x_def)
  show "0 < percentile_target n f" by (simp add: t)
  have "round64 x \<le> of_nat n" using tiny high assms(2) by (intro round64_le_int) auto
  then show "percentile_target n f \<le> n" using assms(1) by (simp add: t nat_le_iff ceiling_le_iff)
  define k where "k = nat \<lceil>round64 x\<rceil>"
  have "x \<le> of_nat (2 ^ 48)" using high assms(2) by (meson less_imp_le of_nat_le_iff order_trans)
  then have "x / 2 ^ 53 < 1 / 10" by simp
  then have "x - 1 / 10 < round64 x" using round64_error [OF tiny] by linarith
  also have "\<dots> \<le> of_nat k" by (simp add: k_def of_nat_ceiling)
  finally have "of_nat (9 * n) < (of_nat (10 * k + 1) :: rat)" using low by simp
  then have "9 * n \<le> 10 * k" by (simp only: of_nat_less_iff)
  then show "9 * n \<le> 10 * percentile_target n f" by (simp add: t k_def)
qed

text \<open>The brightness that drives automatic exposure is a true order statistic: the 90th percentile
  found by scanning the histogram is the sample at the computed rank of the sorted samples, and
  that rank covers at least nine tenths of them and never exceeds their number.\<close>

lemma percentile_is_order_statistic:
  assumes "stats_of_samples samples = Inr stats" and "\<forall>v \<in> set samples. v < 256" and "length samples < 2 ^ 48"
  shows "\<exists>rank. 0 < rank \<and> rank \<le> length samples \<and> 9 * length samples \<le> 10 * rank
    \<and> ls_p90 stats = sort samples ! (rank - 1)"
proof -
  define h where "h = map (count_list samples) [0..<256]"
  have "tally samples (replicate 256 0, 0, 0) = (h, sum_list samples, length samples)"
    using tally_counts [of samples "replicate 256 0" 0 0] assms(2) by (simp add: h_def cong: map_cong)
  then have n: "0 < length samples" and p90: "ls_p90 stats = percentile h (length samples) f64_nine_tenths"
    using assms(1) by (auto simp: stats_of_samples_def stats_from_histogram_def split: if_splits)
  define t where "t = percentile_target (length samples) f64_nine_tenths"
  have t: "0 < t" "t \<le> length samples" "9 * length samples \<le> 10 * t"
    unfolding t_def using n assms(3)
    by (intro percentile_target_bounds; simp add: f64_nine_tenths_def)+
  have "below (ls_p90 stats) samples < t \<and> t \<le> below (Suc (ls_p90 stats)) samples"
    using percentile_scan_result [of 0 samples t] t assms(2) by (simp add: p90 percentile_def h_def t_def below_def)
  then have "sort samples ! (t - 1) = ls_p90 stats" by (intro sorted_at_rank) simp_all
  then show ?thesis using t by metis
qed

subsection \<open>Witnesses\<close>

definition demo_plane :: "u8 list" where "demo_plane = [10, 20, 30, 40]"

definition demo_rgb :: "u8 list" where
  "demo_rgb = projr (demosaic_bilinear demo_plane 2 2 Rg)"

lemma demo_plane_runs: "demosaic_bilinear demo_plane 2 2 Rg = Inr demo_rgb"
  by (simp add: demo_rgb_def demosaic_bilinear_def validate_raw8_def allocate_rgb_def checked_mul_u64_def
      u64_max_def demo_plane_def)

theorem demosaicing_is_bounded_by_samples_witness:
  "demo_rgb ! 0 = 10"
  using demosaicing_is_bounded_by_samples [OF demo_plane_runs, of 0 0 Red]
  by (simp add: color_at_def color_index_def demo_plane_def)

lemma demo_preview_runs:
  "\<exists>data. demosaic_bilinear_preview demo_plane 2 2 Rg 1 1 = Inr (1, 1, data)"
  by (simp add: demosaic_bilinear_preview_def validate_raw8_def allocate_rgb_def checked_mul_u64_def
      u64_max_def demo_plane_def fit_dimensions_def scaled_dimension_def sat_add_u64_def Let_def)

theorem preview_samples_full_image_witness:
  "\<exists>data. demosaic_bilinear_preview demo_plane 2 2 Rg 1 1 = Inr (1, 1, data) \<and> length data = 3"
proof -
  obtain data where data: "demosaic_bilinear_preview demo_plane 2 2 Rg 1 1 = Inr (1, 1, data)"
    using demo_preview_runs by blast
  show ?thesis using data preview_samples_full_image [OF demo_plane_runs data] by simp
qed

end
