(* ===== verification/CaptureTiming.thy ===== *)
theory CaptureTiming
  imports MachineFloats Protocol
begin

text \<open>
  The timing policy of acquisition (\<open>autopiercam/src/exposure.rs\<close>): the lighting mode inferred
  from completed exposures, the preview cap, the deadline of a frame that spans many short reads,
  and the bounded settling of automatic exposure at startup.
\<close>

subsection \<open>Durations\<close>

text \<open>A \<open>Duration\<close> is a number of nanoseconds; its operators saturate at \<open>Duration::MAX\<close>.\<close>

definition duration_max :: nat where
  "duration_max = u64_max * 1000000000 + 999999999"

definition seconds :: "nat \<Rightarrow> nat" where "seconds s = s * 1000000000"
definition millis :: "nat \<Rightarrow> nat" where "millis m = m * 1000000"
definition micros :: "nat \<Rightarrow> nat" where "micros u = u * 1000"

definition sat_dur_add :: "nat \<Rightarrow> nat \<Rightarrow> nat" where
  "sat_dur_add a b = min (a + b) duration_max"

definition sat_dur_mul :: "nat \<Rightarrow> nat \<Rightarrow> nat" where
  "sat_dur_mul a b = min (a * b) duration_max"

definition u32_max :: nat where "u32_max = 4294967295"

definition sat_add_u32 :: "nat \<Rightarrow> nat \<Rightarrow> nat" where
  "sat_add_u32 a b = min (a + b) u32_max"

subsection \<open>Lighting mode\<close>

text \<open>The candidate holds the other mode, when it was first seen and how often since.\<close>

record exposure_mode =
  xm_mode :: "preview_mode option"
  xm_candidate :: "(preview_mode \<times> nat \<times> nat) option"

definition exposure_mode_default :: exposure_mode where
  "exposure_mode_default = \<lparr>xm_mode = None, xm_candidate = None\<rparr>"

definition crossing :: "preview_mode \<Rightarrow> int \<Rightarrow> preview_mode option" where
  "crossing mode exposure_us =
     (case mode of
        PreviewDay \<Rightarrow> if exposure_us \<ge> 1000000 then Some PreviewNight else None
      | PreviewNight \<Rightarrow> if exposure_us \<le> 250000 then Some PreviewDay else None
      | _ \<Rightarrow> None)"

definition observe_mode :: "int \<Rightarrow> nat \<Rightarrow> exposure_mode \<Rightarrow> preview_mode \<times> exposure_mode" where
  "observe_mode exposure_us now x =
     (if exposure_us \<le> 0
      then ((case xm_mode x of Some mode \<Rightarrow> mode | None \<Rightarrow> PreviewUnknown), x\<lparr>xm_candidate := None\<rparr>)
      else case xm_mode x of
        None \<Rightarrow>
          (let mode = (if exposure_us \<ge> 500000 then PreviewNight else PreviewDay)
           in (mode, x\<lparr>xm_mode := Some mode\<rparr>))
      | Some mode \<Rightarrow>
          (case crossing mode exposure_us of
             None \<Rightarrow> (mode, x\<lparr>xm_candidate := None\<rparr>)
           | Some new_mode \<Rightarrow>
               (case (case xm_candidate x of None \<Rightarrow> (new_mode, now, 0) | Some c \<Rightarrow> c) of
                  (towards, since, samples) \<Rightarrow>
                    (let samples = sat_add_u32 samples 1 in
                     if samples \<ge> 3 \<and> now - since \<ge> seconds 30
                     then (new_mode, x\<lparr>xm_mode := Some new_mode, xm_candidate := None\<rparr>)
                     else (mode, x\<lparr>xm_candidate := Some (towards, since, samples)\<rparr>)))))"

subsection \<open>Polling and the preview cap\<close>

definition clamp_int :: "int \<Rightarrow> int \<Rightarrow> int \<Rightarrow> int" where
  "clamp_int low high x = max low (min high x)"

definition poll_timeout_ms :: "int \<Rightarrow> int" where
  "poll_timeout_ms exposure_us = clamp_int 500 2000 (max exposure_us 1 div 1000 + 500)"

text \<open>The literal \<open>0.01\<close> is the nearest \<open>f64\<close> to it.\<close>

definition f64_one_hundredth :: rat where
  "f64_one_hundredth = 5764607523034235 / 576460752303423488"

definition preview_interval :: "f64 \<Rightarrow> nat" where
  "preview_interval max_fps =
     (let fps = (case max_fps of Finite q \<Rightarrow> max f64_one_hundredth (min 30 q) | _ \<Rightarrow> 2)
      in nat \<lceil>round64 (1000000000 / fps)\<rceil>)"

record preview_cadence =
  pc_last :: "nat option"

definition cadence_default :: preview_cadence where
  "cadence_default = \<lparr>pc_last = None\<rparr>"

definition take_slot :: "nat \<Rightarrow> f64 \<Rightarrow> preview_cadence \<Rightarrow> bool \<times> preview_cadence" where
  "take_slot now max_fps p =
     (if (case pc_last p of None \<Rightarrow> False | Some last_at \<Rightarrow> now - last_at < preview_interval max_fps)
      then (False, p) else (True, p\<lparr>pc_last := Some now\<rparr>))"

definition acquisition_delay :: "nat \<Rightarrow> int \<Rightarrow> f64 \<Rightarrow> nat option \<Rightarrow> bool \<Rightarrow> nat" where
  "acquisition_delay since_frame exposure_us max_fps still_due_in requested =
     (if requested then 0
      else (let preview_due_in = preview_interval max_fps - since_frame;
                due_in = (case still_due_in of None \<Rightarrow> preview_due_in | Some still \<Rightarrow> min still preview_due_in)
            in due_in - micros (nat (max exposure_us 1))))"

subsection \<open>The deadline of a frame\<close>

definition frame_timeout :: "int \<Rightarrow> nat" where
  "frame_timeout exposure_us = sat_dur_add (sat_dur_mul (micros (nat (max exposure_us 1))) 2) (seconds 5)"

record frame_wait =
  fw_last_frame_at :: nat
  fw_exposure_us :: int
  fw_observed_exposure_us :: int
  fw_previous_frame_exposure_us :: int
  fw_pacing :: nat

definition frame_wait_new :: "int \<Rightarrow> frame_wait" where
  "frame_wait_new exposure_us =
     (let exposure_us = max exposure_us 1
      in \<lparr>fw_last_frame_at = 0, fw_exposure_us = exposure_us, fw_observed_exposure_us = exposure_us,
          fw_previous_frame_exposure_us = exposure_us, fw_pacing = 0\<rparr>)"

definition observe_exposure :: "int \<Rightarrow> frame_wait \<Rightarrow> frame_wait" where
  "observe_exposure exposure_us w =
     w\<lparr>fw_exposure_us := max exposure_us 1,
       fw_observed_exposure_us := max (fw_observed_exposure_us w) (max exposure_us 1)\<rparr>"

definition set_pacing_allowance :: "nat \<Rightarrow> frame_wait \<Rightarrow> frame_wait" where
  "set_pacing_allowance pacing w = w\<lparr>fw_pacing := pacing\<rparr>"

definition frame_received :: "nat \<Rightarrow> frame_wait \<Rightarrow> frame_wait" where
  "frame_received now w =
     w\<lparr>fw_last_frame_at := now, fw_previous_frame_exposure_us := fw_observed_exposure_us w,
       fw_observed_exposure_us := fw_exposure_us w\<rparr>"

definition wait_elapsed :: "nat \<Rightarrow> frame_wait \<Rightarrow> nat" where
  "wait_elapsed now w = now - fw_last_frame_at w"

definition defer_by :: "nat \<Rightarrow> frame_wait \<Rightarrow> frame_wait" where
  "defer_by idle w = w\<lparr>fw_last_frame_at := sat_dur_add (fw_last_frame_at w) idle\<rparr>"

definition wait_timeout :: "frame_wait \<Rightarrow> nat" where
  "wait_timeout w =
     sat_dur_add (frame_timeout (max (fw_observed_exposure_us w) (fw_previous_frame_exposure_us w)))
       (fw_pacing w)"

definition wait_expired :: "nat \<Rightarrow> frame_wait \<Rightarrow> bool" where
  "wait_expired now w \<longleftrightarrow> wait_elapsed now w \<ge> wait_timeout w"

subsection \<open>Settling\<close>

record auto_limits =
  al_min_exposure_us :: int
  al_max_exposure_us :: int
  al_min_gain :: int
  al_max_gain :: int
  al_target_brightness :: int

datatype wait_decision = ContinueWaiting | CancelledWait | StalledWait | UseLatestFrame

record settling =
  se_deadline :: nat
  se_stable_anchor :: "(int \<times> int) option"
  se_stable_samples :: nat
  se_received :: nat
  se_minimum_frames :: nat

definition settling_new :: "nat \<Rightarrow> auto_limits \<Rightarrow> settling" where
  "settling_new minimum_frames limits =
     (let minimum_frames = max minimum_frames 4;
          exposure_count = sat_add_u64 minimum_frames 4;
          deadline = max (sat_dur_add
            (micros (sat_mul_u64 (nat (max (al_max_exposure_us limits) 1)) exposure_count)) (seconds 5)) (seconds 5)
      in \<lparr>se_deadline = deadline, se_stable_anchor = None, se_stable_samples = 0, se_received = 0,
          se_minimum_frames = minimum_frames\<rparr>)"

definition settling_decision :: "settling \<Rightarrow> frame_wait \<Rightarrow> nat \<Rightarrow> bool \<Rightarrow> wait_decision" where
  "settling_decision s w now cancelled =
     (if cancelled then CancelledWait
      else if wait_expired now w then StalledWait
      else if now \<ge> se_deadline s \<and> se_received s \<noteq> 0 then UseLatestFrame
      else ContinueWaiting)"

definition observe_frame :: "nat \<Rightarrow> int \<Rightarrow> int \<Rightarrow> settling \<Rightarrow> bool \<times> settling" where
  "observe_frame now exposure_us gain s =
     (let received = sat_add_u32 (se_received s) 1;
          tolerance = max (nat \<bar>exposure_us\<bar> div 20) 32;
          stable = (case se_stable_anchor s of None \<Rightarrow> False
            | Some (old_exposure, old_gain) \<Rightarrow>
                nat \<bar>old_exposure - exposure_us\<bar> \<le> tolerance \<and> nat \<bar>old_gain - gain\<bar> \<le> 3);
          s = s\<lparr>se_received := received,
                se_stable_anchor := (if stable then se_stable_anchor s else Some (exposure_us, gain)),
                se_stable_samples := (if stable then sat_add_u32 (se_stable_samples s) 1 else 0)\<rparr>;
          dynamic_minimum =
            max (micros (sat_add_u64 (sat_mul_u64 (nat \<bar>exposure_us\<bar>) 2) 100000)) (seconds 5)
      in (received \<ge> se_minimum_frames s \<and> se_stable_samples s \<ge> 3 \<and> now \<ge> dynamic_minimum, s))"

end
