(* ===== verification/CaptureTimingTheorems.thy ===== *)
theory CaptureTimingTheorems
  imports CaptureTiming
begin

text \<open>
  The lighting mode changes on sustained evidence only; a frame in flight keeps its deadline; and
  settling always comes to a decision.
\<close>

subsection \<open>Lighting mode\<close>

type_synonym exposure_sample = "int \<times> nat"

fun observe_samples :: "exposure_sample list \<Rightarrow> exposure_mode \<Rightarrow> exposure_mode" where
  "observe_samples [] x = x"
| "observe_samples ((exposure_us, now) # rest) x = observe_samples rest (snd (observe_mode exposure_us now x))"

lemma observe_samples_append:
  "observe_samples (hs @ [(e, now)]) x = snd (observe_mode e now (observe_samples hs x))"
  by (induction hs arbitrary: x) auto

text \<open>A run of completed exposures that all call for leaving the mode.\<close>

definition evidence :: "preview_mode \<Rightarrow> exposure_sample list \<Rightarrow> bool" where
  "evidence mode run \<longleftrightarrow> (\<forall>(e, now) \<in> set run. 0 < e \<and> crossing mode e \<noteq> None)"

definition candidate_inv :: "exposure_sample list \<Rightarrow> exposure_mode \<Rightarrow> bool" where
  "candidate_inv hs x \<longleftrightarrow>
     (case xm_candidate x of None \<Rightarrow> True
      | Some (towards, since, samples) \<Rightarrow>
          (\<exists>mode earlier run. xm_mode x = Some mode \<and> hs = earlier @ run \<and> run \<noteq> [] \<and> evidence mode run
             \<and> snd (hd run) = since \<and> samples \<le> length run))"

lemma candidate_invI:
  assumes "evidence mode run" "run \<noteq> []"
    and "xm_candidate x = None \<or> xm_mode x = Some mode
      \<and> (\<exists>towards samples. xm_candidate x = Some (towards, snd (hd run), samples) \<and> samples \<le> length run)"
  shows "candidate_inv (earlier @ run) x"
  using assms unfolding candidate_inv_def by (auto split: option.splits) blast+

lemma candidate_inv_step:
  assumes "candidate_inv hs x"
  shows "candidate_inv (hs @ [(e, now)]) (snd (observe_mode e now x))"
proof (cases "e \<le> 0 \<or> xm_mode x = None \<or> (\<exists>m. xm_mode x = Some m \<and> crossing m e = None)")
  case True
  then show ?thesis
    using assms by (auto simp: candidate_inv_def observe_mode_def Let_def split: option.splits)
next
  case False
  then obtain mode other where mode: "xm_mode x = Some mode" "crossing mode e = Some other" "0 < e" by auto
  show ?thesis
  proof (cases "xm_candidate x")
    case None
    have "evidence mode [(e, now)]" using mode by (simp add: evidence_def)
    then show ?thesis
      using mode None
      by (intro candidate_invI) (simp_all add: observe_mode_def sat_add_u32_def)
  next
    case (Some c)
    then obtain towards since samples where c: "xm_candidate x = Some (towards, since, samples)" by (cases c) auto
    then obtain earlier run where run: "hs = earlier @ run" "run \<noteq> []" "evidence mode run"
      "snd (hd run) = since" "samples \<le> length run"
      using assms mode(1) by (auto simp: candidate_inv_def)
    have "evidence mode (run @ [(e, now)])" "snd (hd (run @ [(e, now)])) = since"
      using run mode by (simp_all add: evidence_def)
    then have "candidate_inv (earlier @ (run @ [(e, now)])) (snd (observe_mode e now x))"
      using mode c run(5) by (intro candidate_invI) (auto simp: observe_mode_def Let_def sat_add_u32_def)
    then show ?thesis using run(1) by simp
  qed
qed

lemma candidate_inv_run: "candidate_inv hs (observe_samples hs exposure_mode_default)"
proof (induction hs rule: rev_induct)
  case Nil
  then show ?case by (simp add: candidate_inv_def exposure_mode_default_def)
next
  case (snoc s hs)
  then show ?case using candidate_inv_step by (cases s) (simp add: observe_samples_append)
qed

text \<open>Passing clouds and headlights do not flip the lighting mode: it changes only after at least
  three completed exposures in a row that all call for it, over at least thirty seconds from the
  first to the last of them.\<close>

lemma lighting_change_needs_evidence:
  assumes "xm_mode (observe_samples hs exposure_mode_default) = Some mode"
    and "xm_mode (observe_samples (hs @ [(e, now)]) exposure_mode_default) = Some new_mode"
    and "new_mode \<noteq> mode"
  shows "\<exists>earlier run. hs @ [(e, now)] = earlier @ run \<and> 3 \<le> length run
    \<and> (\<forall>(e', t) \<in> set run. 0 < e' \<and> crossing mode e' = Some new_mode)
    \<and> snd (hd run) + 30000000000 \<le> now"
proof -
  define x where "x = observe_samples hs exposure_mode_default"
  have inv: "candidate_inv hs x" by (simp add: x_def candidate_inv_run)
  have mode: "xm_mode x = Some mode" using assms(1) by (simp add: x_def)
  have after: "xm_mode (snd (observe_mode e now x)) = Some new_mode"
    using assms(2) by (simp add: observe_samples_append x_def)
  have e: "0 < e" "crossing mode e = Some new_mode"
    using after mode assms(3) by (auto simp: observe_mode_def Let_def split: if_splits option.splits)
  obtain towards since samples where c: "xm_candidate x = Some (towards, since, samples)"
    and enough: "3 \<le> samples + 1" "seconds 30 \<le> now - since"
    using after mode assms(3) e
    by (auto simp: observe_mode_def Let_def sat_add_u32_def seconds_def split: if_splits option.splits)
  then obtain earlier run where run: "hs = earlier @ run" "evidence mode run" "run \<noteq> []"
    "snd (hd run) = since" "samples \<le> length run"
    using inv mode by (auto simp: candidate_inv_def)
  have "crossing mode e' = Some new_mode" if "crossing mode e' \<noteq> None" for e'
    using that e(2) by (cases mode) (auto simp: crossing_def split: if_splits)
  then have "\<forall>(e', t) \<in> set (run @ [(e, now)]). 0 < e' \<and> crossing mode e' = Some new_mode"
    using run(2) e by (force simp: evidence_def)
  moreover have "hs @ [(e, now)] = earlier @ (run @ [(e, now)])" "3 \<le> length (run @ [(e, now)])"
    "snd (hd (run @ [(e, now)])) + 30000000000 \<le> now"
    using run enough by (simp_all add: seconds_def)
  ultimately show ?thesis by blast
qed

definition demo_samples :: "exposure_sample list" where
  "demo_samples = [(10000, 0), (2000000, 10), (2000000, 20)]"

subsection \<open>Deadlines\<close>

text \<open>Telemetry that arrives during an exposure never brings its deadline forward.\<close>

lemma frame_timeout_mono: "a \<le> b \<Longrightarrow> frame_timeout a \<le> frame_timeout b"
proof -
  assume "a \<le> b"
  then have "nat (max a 1) \<le> nat (max b 1)" by (intro nat_mono) auto
  then show ?thesis unfolding frame_timeout_def sat_dur_add_def sat_dur_mul_def micros_def seconds_def by linarith
qed

lemma telemetry_keeps_deadline: "wait_expired now (observe_exposure e w) \<Longrightarrow> wait_expired now w"
proof -
  have "wait_timeout w \<le> wait_timeout (observe_exposure e w)"
    using frame_timeout_mono [of "max (fw_observed_exposure_us w) (fw_previous_frame_exposure_us w)"
        "max (max (fw_observed_exposure_us w) (max e 1)) (fw_previous_frame_exposure_us w)"]
    by (simp add: wait_timeout_def observe_exposure_def sat_dur_add_def min_le_iff_disj)
  then show "wait_expired now (observe_exposure e w) \<Longrightarrow> wait_expired now w"
    by (simp add: wait_expired_def wait_elapsed_def observe_exposure_def)
qed

text \<open>Two bright frames bring back the short deadline.\<close>

lemma two_frames_restore_deadline:
  assumes "1 \<le> e"
  shows "wait_timeout (frame_received t2 (observe_exposure e (frame_received t1 (observe_exposure e
      (frame_received t0 (observe_exposure e w))))))
    = sat_dur_add (frame_timeout e) (fw_pacing w)"
  using assms by (simp add: wait_timeout_def frame_received_def observe_exposure_def)

text \<open>Waiting always ends: past both deadlines the decision is never to continue.\<close>

lemma settling_decides:
  assumes "max (se_deadline s) (fw_last_frame_at w + wait_timeout w) \<le> now"
  shows "settling_decision s w now cancelled \<noteq> ContinueWaiting"
  using assms by (auto simp: settling_decision_def wait_expired_def wait_elapsed_def)

lemma settling_returns_frame:
  assumes "se_deadline s \<le> now" and "se_received s \<noteq> 0"
  shows "settling_decision s w now cancelled \<noteq> ContinueWaiting"
  using assms by (auto simp: settling_decision_def)

text \<open>The preview interval honours the configured rate up to the rounding of one division.\<close>

lemma preview_interval_bounds:
  assumes "fps = Finite q" "f64_one_hundredth \<le> q" "q \<le> 30"
  shows "(1 - 1 / 2 ^ 53) * (1000000000 / q) \<le> of_nat (preview_interval fps)"
proof -
  define x where "x = 1000000000 / q"
  have q: "0 < q" using assms(2) by (simp add: f64_one_hundredth_def)
  then have "1000000000 / 30 \<le> x" using assms(3) by (simp add: x_def field_simps)
  then have "1 / 2 ^ 64 \<le> x" by (intro order_trans [OF _ \<open>1000000000 / 30 \<le> x\<close>]) simp
  then have "x - x / 2 ^ 53 \<le> round64 x" using round64_error [of x] unfolding abs_diff_le_iff by linarith
  also have "\<dots> \<le> of_nat (nat \<lceil>round64 x\<rceil>)" by (simp add: of_nat_ceiling)
  also have "nat \<lceil>round64 x\<rceil> = preview_interval fps"
    using assms by (simp add: preview_interval_def x_def max_def min_def)
  finally have "x - x / 2 ^ 53 \<le> of_nat (preview_interval fps)" .
  moreover have "(1 - 1 / 2 ^ 53) * (1000000000 / q) = x - x / 2 ^ 53"
    unfolding x_def [symmetric] by (simp only: left_diff_distrib) simp
  ultimately show ?thesis by simp
qed

end
