(* ===== verification/AdaptiveExposure.thy ===== *)
theory AdaptiveExposure
  imports Imaging
begin

text \<open>
  The frame-feedback exposure controller (\<open>autopiercam-core/src/exposure.rs\<close>): from the exposure
  and gain of a frame and its brightness statistics it chooses the next setting, within limits,
  and tracks day and night with votes. Arithmetic on \<open>f64\<close> rounds as in \<open>MachineFloats\<close>.
\<close>

datatype light_mode = Day | Night

record exposure_setting =
  es_exposure_us :: int
  es_gain :: int

record adaptive_exposure =
  ax_min_us :: int
  ax_max_us :: int
  ax_min_gain :: int
  ax_max_gain :: int
  ax_target :: nat
  ax_mode :: light_mode
  ax_votes :: nat
  ax_prefer_short_exposures :: bool

text \<open>A failed \<open>assert!\<close> is \<open>None\<close>. The target is a \<open>u8\<close>, which \<open>f64\<close> represents exactly.\<close>

definition adaptive_new :: "int \<Rightarrow> int \<Rightarrow> int \<Rightarrow> int \<Rightarrow> nat \<Rightarrow> adaptive_exposure option" where
  "adaptive_new min_us max_us min_gain max_gain target =
     (if min_us > 0 \<and> max_us \<ge> min_us \<and> min_gain \<ge> 0 \<and> max_gain \<ge> min_gain \<and> target > 0
      then Some \<lparr>ax_min_us = min_us, ax_max_us = max_us, ax_min_gain = min_gain, ax_max_gain = max_gain,
        ax_target = target, ax_mode = Day, ax_votes = 0, ax_prefer_short_exposures = False\<rparr>
      else None)"

definition with_initial_mode :: "light_mode \<Rightarrow> adaptive_exposure \<Rightarrow> adaptive_exposure" where
  "with_initial_mode mode a = a\<lparr>ax_mode := mode\<rparr>"

definition clamp_i64 :: "int \<Rightarrow> int \<Rightarrow> int \<Rightarrow> int" where
  "clamp_i64 low high x = max low (min high x)"

definition initial_exposure_us :: "adaptive_exposure \<Rightarrow> int" where
  "initial_exposure_us a =
     clamp_i64 (ax_min_us a) (ax_max_us a) (case ax_mode a of Day \<Rightarrow> 10000 | Night \<Rightarrow> 1000000)"

definition set_prefer_short_exposures :: "bool \<Rightarrow> adaptive_exposure \<Rightarrow> adaptive_exposure" where
  "set_prefer_short_exposures prefer a = a\<lparr>ax_prefer_short_exposures := prefer\<rparr>"

definition update_limits ::
  "int \<Rightarrow> int \<Rightarrow> int \<Rightarrow> int \<Rightarrow> nat \<Rightarrow> adaptive_exposure \<Rightarrow> adaptive_exposure option" where
  "update_limits min_us max_us min_gain max_gain target a =
     map_option (\<lambda>new. a\<lparr>ax_min_us := ax_min_us new, ax_max_us := ax_max_us new,
         ax_min_gain := ax_min_gain new, ax_max_gain := ax_max_gain new, ax_target := ax_target new\<rparr>)
       (adaptive_new min_us max_us min_gain max_gain target)"

definition sat_i64 :: "int \<Rightarrow> int" where
  "sat_i64 x = max i64_min (min i64_max x)"

text \<open>Three frames of evidence change the mode.\<close>

definition count_votes :: "exposure_setting \<Rightarrow> adaptive_exposure \<Rightarrow> adaptive_exposure" where
  "count_votes current a =
     (let opposite = (case ax_mode a of
            Day \<Rightarrow> es_exposure_us current \<ge> 1000000 | Night \<Rightarrow> es_exposure_us current \<le> 250000);
          votes = (if opposite then min (ax_votes a + 1) 255 else 0)
      in if votes \<ge> 3
         then a\<lparr>ax_mode := (case ax_mode a of Day \<Rightarrow> Night | Night \<Rightarrow> Day), ax_votes := 0\<rparr>
         else a\<lparr>ax_votes := votes\<rparr>)"

text \<open>The literals \<open>0.05\<close> of type \<open>f32\<close> and \<open>1.10\<close> of type \<open>f64\<close>.\<close>

definition f32_one_twentieth :: rat where
  "f32_one_twentieth = 13421773 / 268435456"

definition f64_eleven_tenths :: rat where
  "f64_eleven_tenths = 2476979795053773 / 2251799813685248"

definition is_clipped :: "luma_statistics \<Rightarrow> bool" where
  "is_clipped stats \<longleftrightarrow> ls_clipped_fraction stats > f32_one_twentieth"

definition exposure_ratio :: "luma_statistics \<Rightarrow> adaptive_exposure \<Rightarrow> rat" where
  "exposure_ratio stats a =
     (if is_clipped stats then 1 / 4
      else max (1 / 16) (min 4 (round64 (of_nat (ax_target a) / of_nat (max (ls_p90 stats) 1)))))"

definition scaled_exposure :: "int \<Rightarrow> rat \<Rightarrow> int" where
  "scaled_exposure exposure_us ratio = cast_i64 (round_away (round64 (round64 (of_int exposure_us) * ratio)))"

definition adjust_setting ::
  "exposure_setting \<Rightarrow> bool \<Rightarrow> rat \<Rightarrow> adaptive_exposure \<Rightarrow> exposure_setting" where
  "adjust_setting current clipped ratio a =
     (if ax_prefer_short_exposures a \<and> \<not> clipped \<and> ratio \<ge> f64_nine_tenths
         \<and> es_gain current < ax_max_gain a
         \<and> (ratio > f64_eleven_tenths \<or> es_exposure_us current > ax_min_us a)
      then current\<lparr>es_gain := min (sat_i64 (es_gain current + 20)) (ax_max_gain a)\<rparr>
      else if clipped \<or> \<not> (f64_nine_tenths \<le> ratio \<and> ratio \<le> f64_eleven_tenths)
      then (if \<not> ax_prefer_short_exposures a \<and> ratio < 1 \<and> es_exposure_us current \<le> 250000
               \<and> es_gain current > ax_min_gain a
            then current\<lparr>es_gain := max (sat_i64 (es_gain current - 30)) (ax_min_gain a)\<rparr>
            else (let exposure = clamp_i64 (ax_min_us a) (ax_max_us a)
                        (scaled_exposure (es_exposure_us current) ratio);
                      gain = (if ratio > 1 \<and> es_exposure_us current \<ge> ax_max_us a
                              then min (sat_i64 (es_gain current + 20)) (ax_max_gain a)
                              else if ratio < 1 \<and> es_exposure_us current \<le> ax_min_us a
                              then max (sat_i64 (es_gain current - 30)) (ax_min_gain a)
                              else es_gain current)
                  in \<lparr>es_exposure_us = exposure, es_gain = gain\<rparr>))
      else current)"

definition observe :: "exposure_setting \<Rightarrow> luma_statistics \<Rightarrow> adaptive_exposure \<Rightarrow> exposure_setting \<times> adaptive_exposure" where
  "observe current stats a =
     (let a = count_votes current a;
          setting = adjust_setting current (is_clipped stats) (exposure_ratio stats a) a
      in (\<lparr>es_exposure_us = clamp_i64 (ax_min_us a) (ax_max_us a) (es_exposure_us setting),
           es_gain = clamp_i64 (ax_min_gain a) (ax_max_gain a) (es_gain setting)\<rparr>, a))"

subsection \<open>Limits\<close>

definition limits_ok :: "adaptive_exposure \<Rightarrow> bool" where
  "limits_ok a \<longleftrightarrow> 0 < ax_min_us a \<and> ax_min_us a \<le> ax_max_us a \<and> 0 \<le> ax_min_gain a
     \<and> ax_min_gain a \<le> ax_max_gain a \<and> 0 < ax_target a \<and> ax_target a \<le> 255"

definition setting_within :: "adaptive_exposure \<Rightarrow> exposure_setting \<Rightarrow> bool" where
  "setting_within a s \<longleftrightarrow> ax_min_us a \<le> es_exposure_us s \<and> es_exposure_us s \<le> ax_max_us a
     \<and> ax_min_gain a \<le> es_gain s \<and> es_gain s \<le> ax_max_gain a"

lemma count_votes_limits [simp]:
  "ax_min_us (count_votes c a) = ax_min_us a" "ax_max_us (count_votes c a) = ax_max_us a"
  "ax_min_gain (count_votes c a) = ax_min_gain a" "ax_max_gain (count_votes c a) = ax_max_gain a"
  "ax_target (count_votes c a) = ax_target a"
  "ax_prefer_short_exposures (count_votes c a) = ax_prefer_short_exposures a"
  by (simp_all add: count_votes_def Let_def)

lemma observe_within: "limits_ok a \<Longrightarrow> setting_within a (fst (observe current stats a))"
  by (simp add: observe_def Let_def setting_within_def limits_ok_def clamp_i64_def)

subsection \<open>The brightness ratio\<close>

definition measured :: "luma_statistics \<Rightarrow> nat" where
  "measured stats = max (ls_p90 stats) 1"

lemma round64_thresholds: "round64 (9 / 10) = f64_nine_tenths" "round64 (11 / 10) = f64_eleven_tenths"
proof -
  have "f64_exponent (9 / 10) = -1" "f64_exponent (11 / 10) = 0"
    by (rule f64_exponent_eq; simp)+
  moreover have "\<lfloor>40532396646334464 / 5 :: rat\<rfloor> = 8106479329266892" "\<lfloor>24769797950537728 / 5 :: rat\<rfloor> = 4953959590107545"
    by (rule floor_unique; simp)+
  ultimately show "round64 (9 / 10) = f64_nine_tenths" "round64 (11 / 10) = f64_eleven_tenths"
    by (simp_all add: round64_def round_half_even_def Let_def f64_nine_tenths_def f64_eleven_tenths_def)
qed

lemma target_ratio:
  assumes "0 < t" "t \<le> 255" "0 < m" "m \<le> 255"
  defines "r \<equiv> round64 (of_nat t / of_nat m)"
  shows "11 * m < 10 * t \<Longrightarrow> f64_eleven_tenths < r"
    and "10 * t < 9 * m \<Longrightarrow> r < f64_nine_tenths"
    and "9 * m \<le> 10 * t \<Longrightarrow> 10 * t \<le> 11 * m \<Longrightarrow> f64_nine_tenths \<le> r \<and> r \<le> f64_eleven_tenths"
proof -
  define q :: rat where "q = of_nat t / of_nat m"
  have m: "(1 :: rat) \<le> of_nat m" "of_nat m \<le> (255 :: rat)" using assms(3,4) by (simp_all add: Suc_leI)
  have t: "(1 :: rat) \<le> of_nat t" "of_nat t \<le> (255 :: rat)" using assms(1,2) by (simp_all add: Suc_leI)
  have "1 / 255 \<le> q" "q \<le> 255" using m t by (simp_all add: q_def field_simps)
  then have tiny: "1 / 2 ^ 64 \<le> q" by (intro order_trans [OF _ \<open>1 / 255 \<le> q\<close>]) simp
  have "q / 2 ^ 53 \<le> 1 / 5000" using \<open>q \<le> 255\<close> by simp
  then have "\<bar>r - q\<bar> \<le> 1 / 5000"
    unfolding r_def q_def [symmetric] by (rule order_trans [OF round64_error [OF tiny]])
  then have err: "q \<le> r + 1 / 5000" "r \<le> q + 1 / 5000" unfolding abs_diff_le_iff by linarith+
  show "f64_eleven_tenths < r" if "11 * m < 10 * t"
  proof -
    have "(of_nat (11 * m + 1) :: rat) \<le> of_nat (10 * t)" using that by (simp only: of_nat_le_iff)
    then have "11 / 10 + 1 / 2550 \<le> q" using m by (simp add: q_def field_simps)
    then show ?thesis using err unfolding f64_eleven_tenths_def by linarith
  qed
  show "r < f64_nine_tenths" if "10 * t < 9 * m"
  proof -
    have "(of_nat (10 * t + 1) :: rat) \<le> of_nat (9 * m)" using that by (simp only: of_nat_le_iff)
    then have "q \<le> 9 / 10 - 1 / 2550" using m by (simp add: q_def field_simps)
    then show ?thesis using err unfolding f64_nine_tenths_def by linarith
  qed
  show "f64_nine_tenths \<le> r \<and> r \<le> f64_eleven_tenths" if "9 * m \<le> 10 * t" "10 * t \<le> 11 * m"
  proof
    show "f64_nine_tenths \<le> r"
    proof (cases "9 * m = 10 * t")
      case True
      then have "(of_nat (9 * m) :: rat) = of_nat (10 * t)" by simp
      then have exact: "q = 9 / 10" using m by (simp add: q_def field_simps)
      show ?thesis unfolding r_def q_def [symmetric] exact round64_thresholds by simp
    next
      case False
      then have "(of_nat (9 * m + 1) :: rat) \<le> of_nat (10 * t)" using that by (simp only: of_nat_le_iff)
      then have "9 / 10 + 1 / 2550 \<le> q" using m by (simp add: q_def field_simps)
      then show ?thesis using err unfolding f64_nine_tenths_def by linarith
    qed
    show "r \<le> f64_eleven_tenths"
    proof (cases "10 * t = 11 * m")
      case True
      then have "(of_nat (10 * t) :: rat) = of_nat (11 * m)" by simp
      then have exact: "q = 11 / 10" using m by (simp add: q_def field_simps)
      show ?thesis unfolding r_def q_def [symmetric] exact round64_thresholds by simp
    next
      case False
      then have "(of_nat (10 * t + 1) :: rat) \<le> of_nat (11 * m)" using that by (simp only: of_nat_le_iff)
      then have "q \<le> 11 / 10 - 1 / 2550" using m by (simp add: q_def field_simps)
      then show ?thesis using err unfolding f64_eleven_tenths_def by linarith
    qed
  qed
qed

subsection \<open>Direction\<close>

definition too_dark :: "luma_statistics \<Rightarrow> adaptive_exposure \<Rightarrow> bool" where
  "too_dark stats a \<longleftrightarrow> \<not> is_clipped stats \<and> 11 * measured stats < 10 * ax_target a"

definition too_bright :: "luma_statistics \<Rightarrow> adaptive_exposure \<Rightarrow> bool" where
  "too_bright stats a \<longleftrightarrow> is_clipped stats \<or> 10 * ax_target a < 9 * measured stats"

lemma ratio_cases:
  assumes "limits_ok a" "ls_p90 stats \<le> 255"
  defines "r \<equiv> exposure_ratio stats a"
  shows "too_dark stats a \<Longrightarrow> f64_eleven_tenths < r \<and> r \<le> 4 \<and> \<not> is_clipped stats"
    and "too_bright stats a \<Longrightarrow> r < f64_nine_tenths \<and> 1 / 16 \<le> r"
    and "\<not> too_dark stats a \<Longrightarrow> \<not> too_bright stats a \<Longrightarrow>
      f64_nine_tenths \<le> r \<and> r \<le> f64_eleven_tenths \<and> \<not> is_clipped stats"
proof -
  have m: "0 < measured stats" "measured stats \<le> 255" using assms(2) by (simp_all add: measured_def)
  note cases = target_ratio [OF _ _ m, of "ax_target a"]
  have t: "0 < ax_target a" "ax_target a \<le> 255" using assms(1) by (simp_all add: limits_ok_def)
  show "too_dark stats a \<Longrightarrow> f64_eleven_tenths < r \<and> r \<le> 4 \<and> \<not> is_clipped stats"
    using cases(1) [OF t] by (auto simp: too_dark_def r_def exposure_ratio_def measured_def f64_eleven_tenths_def)
  show "too_bright stats a \<Longrightarrow> r < f64_nine_tenths \<and> 1 / 16 \<le> r"
    using cases(2) [OF t] by (auto simp: too_bright_def r_def exposure_ratio_def measured_def f64_nine_tenths_def)
  show "\<not> too_dark stats a \<Longrightarrow> \<not> too_bright stats a \<Longrightarrow>
      f64_nine_tenths \<le> r \<and> r \<le> f64_eleven_tenths \<and> \<not> is_clipped stats"
    using cases(3) [OF t]
    by (auto simp: too_dark_def too_bright_def r_def exposure_ratio_def measured_def f64_nine_tenths_def
        f64_eleven_tenths_def)
qed

lemma scaled_exposure_up:
  assumes "10 \<le> e" "e < 2 ^ 50" "f64_eleven_tenths < r" "r \<le> 4"
  shows "e + 1 \<le> scaled_exposure e r"
proof -
  have exact: "round64 (of_int e) = of_int e"
    using round64_int [of "nat e"] assms(1,2) by simp
  have "(10 :: rat) \<le> of_int e" using assms(1) by simp
  then have "of_int e * (11 / 10) \<le> of_int e * r"
    using assms(3) by (intro mult_left_mono) (auto simp: f64_eleven_tenths_def)
  moreover have "of_int (e + 1) \<le> of_int e * (11 / 10 :: rat)"
    unfolding of_int_add of_int_1 using \<open>(10 :: rat) \<le> of_int e\<close> by linarith
  ultimately have up: "of_int (e + 1) \<le> of_int e * r" by (rule order_trans [rotated])
  have "(1 :: rat) / 2 ^ 64 \<le> of_int (e + 1)" using assms(1) by simp
  then have "of_nat (nat (e + 1)) \<le> round64 (of_int e * r)"
    using up assms(1,2) by (intro round64_ge_int order_trans [OF _ up]) auto
  then have low: "of_int (e + 1) \<le> round64 (of_int e * r)" using assms(1) by simp
  have "of_int e * r \<le> of_int e * 4" using assms(1,4) by (intro mult_left_mono) auto
  then have "round64 (of_int e * r) \<le> of_nat (nat (e * 4))"
    using up assms(1,2) \<open>(1 :: rat) / 2 ^ 64 \<le> of_int (e + 1)\<close> by (intro round64_le_int order_trans [OF _ up]) auto
  then have "round64 (of_int e * r) \<le> of_int (e * 4)" using assms(1) by simp
  then have "round_away (round64 (of_int e * r)) \<le> e * 4"
    using low assms(1) by (simp add: round_away_def floor_le_iff)
  moreover have "e + 1 \<le> round_away (round64 (of_int e * r))"
    using low assms(1) by (simp add: round_away_def le_floor_iff)
  ultimately show ?thesis
    using assms(2) by (simp add: scaled_exposure_def exact cast_i64_def i64_max_def i64_min_def)
qed

lemma scaled_exposure_down:
  assumes "11 \<le> e" "e < 2 ^ 50" "r < f64_nine_tenths" "1 / 16 \<le> r"
  shows "scaled_exposure e r \<le> e - 1"
proof -
  have exact: "round64 (of_int e) = of_int e"
    using round64_int [of "nat e"] assms(1,2) by simp
  have e: "(11 :: rat) \<le> of_int e" using assms(1) by simp
  have "of_int e * r \<le> of_int e * f64_nine_tenths" using assms(1,3) by (intro mult_left_mono) auto
  also have "\<dots> \<le> of_int (e - 1)" unfolding f64_nine_tenths_def of_int_diff of_int_1 using e by linarith
  finally have down: "of_int e * r \<le> of_int (e - 1)" .
  have "of_int e * (1 / 16) \<le> of_int e * r" using assms(1,4) by (intro mult_left_mono) auto
  moreover have "(1 :: rat) / 2 ^ 64 \<le> of_int e * (1 / 16)" using e by simp
  ultimately have tiny: "1 / 2 ^ 64 \<le> of_int e * r" by (rule order_trans [rotated])
  have "round64 (of_int e * r) \<le> of_nat (nat (e - 1))"
    using down assms(1,2) tiny by (intro round64_le_int) auto
  then have high: "round64 (of_int e * r) \<le> of_int (e - 1)" using assms(1) by simp
  moreover have "of_nat 0 \<le> round64 (of_int e * r)"
    using tiny by (intro round64_ge_int) (auto intro: order_trans [rotated])
  ultimately have "round_away (round64 (of_int e * r)) \<le> e - 1" "0 \<le> round_away (round64 (of_int e * r))"
    by (simp_all add: round_away_def floor_less_iff le_floor_iff)
  then show ?thesis using assms(2) by (simp add: scaled_exposure_def exact cast_i64_def i64_max_def i64_min_def)
qed

lemma f64_thresholds: "f64_nine_tenths < 1" "1 < f64_eleven_tenths" "f64_nine_tenths < f64_eleven_tenths"
  by (simp_all add: f64_nine_tenths_def f64_eleven_tenths_def)

lemma adjust_dark:
  assumes "f64_eleven_tenths < r"
  shows "adjust_setting c False r a =
    (if ax_prefer_short_exposures a \<and> es_gain c < ax_max_gain a
     then c\<lparr>es_gain := min (sat_i64 (es_gain c + 20)) (ax_max_gain a)\<rparr>
     else \<lparr>es_exposure_us = clamp_i64 (ax_min_us a) (ax_max_us a) (scaled_exposure (es_exposure_us c) r),
           es_gain = (if es_exposure_us c \<ge> ax_max_us a then min (sat_i64 (es_gain c + 20)) (ax_max_gain a)
                      else es_gain c)\<rparr>)"
proof -
  have "f64_nine_tenths \<le> r" "1 < r" "\<not> r < 1" "\<not> r \<le> f64_eleven_tenths" using assms f64_thresholds by auto
  then show ?thesis using assms by (simp add: adjust_setting_def)
qed

lemma adjust_bright:
  assumes "r < f64_nine_tenths"
  shows "adjust_setting c clipped r a =
    (if \<not> ax_prefer_short_exposures a \<and> es_exposure_us c \<le> 250000 \<and> es_gain c > ax_min_gain a
     then c\<lparr>es_gain := max (sat_i64 (es_gain c - 30)) (ax_min_gain a)\<rparr>
     else \<lparr>es_exposure_us = clamp_i64 (ax_min_us a) (ax_max_us a) (scaled_exposure (es_exposure_us c) r),
           es_gain = (if es_exposure_us c \<le> ax_min_us a then max (sat_i64 (es_gain c - 30)) (ax_min_gain a)
                      else es_gain c)\<rparr>)"
proof -
  have "\<not> f64_nine_tenths \<le> r" "r < 1" "\<not> 1 < r" using assms f64_thresholds by auto
  then show ?thesis by (simp add: adjust_setting_def)
qed

lemma adjust_right:
  assumes "f64_nine_tenths \<le> r" "r \<le> f64_eleven_tenths"
  shows "adjust_setting c False r a =
    (if ax_prefer_short_exposures a \<and> es_gain c < ax_max_gain a \<and> es_exposure_us c > ax_min_us a
     then c\<lparr>es_gain := min (sat_i64 (es_gain c + 20)) (ax_max_gain a)\<rparr> else c)"
  using assms by (simp add: adjust_setting_def not_less)

lemma setting_eq: "\<lparr>es_exposure_us = e, es_gain = g\<rparr> = c \<longleftrightarrow> e = es_exposure_us c \<and> g = es_gain c"
  by (cases c) auto

text \<open>C27: the controller never steers the wrong way and always makes progress: a frame more than ten per
  cent too dark never leads to a shorter exposure or a lower gain, and to a longer or higher one
  unless both are at their maximum; a clipped frame, or one more than ten per cent too bright,
  never leads to a longer exposure or a higher gain, and to a shorter or lower one unless both are
  at their minimum; a frame in between leaves the setting alone, except that an operator who
  prefers short exposures has the gain raised first; and the result always respects the limits.\<close>

theorem exposure_moves_towards_target:
  assumes "limits_ok a" "setting_within a current" "ls_p90 stats \<le> 255"
    and "11 \<le> es_exposure_us current" "es_exposure_us current < 2 ^ 50" "es_gain current < 2 ^ 50"
  defines "new \<equiv> fst (observe current stats a)"
  shows "setting_within a new
    \<and> (too_dark stats a \<longrightarrow>
        es_exposure_us current \<le> es_exposure_us new \<and> es_gain current \<le> es_gain new
        \<and> (current \<noteq> new \<or> es_exposure_us new = ax_max_us a \<and> es_gain new = ax_max_gain a))
    \<and> (too_bright stats a \<longrightarrow>
        es_exposure_us new \<le> es_exposure_us current \<and> es_gain new \<le> es_gain current
        \<and> (current \<noteq> new \<or> es_exposure_us new = ax_min_us a \<and> es_gain new = ax_min_gain a))
    \<and> (\<not> too_dark stats a \<and> \<not> too_bright stats a \<longrightarrow>
        es_exposure_us new = es_exposure_us current
        \<and> (new = current \<or> ax_prefer_short_exposures a \<and> es_gain current < es_gain new))"
proof -
  define a' where "a' = count_votes current a"
  define r where "r = exposure_ratio stats a"
  have ok: "limits_ok a'" "setting_within a' current" using assms(1,2) by (simp_all add: a'_def limits_ok_def setting_within_def)
  have r': "exposure_ratio stats a' = r" by (simp add: r_def a'_def exposure_ratio_def)
  have new: "new = \<lparr>es_exposure_us = clamp_i64 (ax_min_us a') (ax_max_us a')
        (es_exposure_us (adjust_setting current (is_clipped stats) r a')),
      es_gain = clamp_i64 (ax_min_gain a') (ax_max_gain a')
        (es_gain (adjust_setting current (is_clipped stats) r a'))\<rparr>"
    by (simp add: new_def observe_def Let_def a'_def [symmetric] r')
  note ratio = ratio_cases [OF assms(1,3), folded r_def]
  note steps = scaled_exposure_up [OF _ assms(5), of r] scaled_exposure_down [OF assms(4,5), of r]
  have lims: "ax_min_us a = ax_min_us a'" "ax_max_us a = ax_max_us a'" "ax_min_gain a = ax_min_gain a'"
    "ax_max_gain a = ax_max_gain a'" "ax_prefer_short_exposures a = ax_prefer_short_exposures a'"
    by (simp_all add: a'_def)
  have gains: "sat_i64 (es_gain current + 20) = es_gain current + 20"
    "sat_i64 (es_gain current - 30) = es_gain current - 30"
    using assms(6) ok by (simp_all add: sat_i64_def i64_max_def i64_min_def setting_within_def limits_ok_def)
  have within: "setting_within a new" using observe_within [OF assms(1)] by (simp add: new_def)
  have dark: "too_dark stats a \<longrightarrow>
        es_exposure_us current \<le> es_exposure_us new \<and> es_gain current \<le> es_gain new
        \<and> (current \<noteq> new \<or> es_exposure_us new = ax_max_us a \<and> es_gain new = ax_max_gain a)"
  proof
    assume "too_dark stats a"
    then have "f64_eleven_tenths < r" "r \<le> 4" and clear: "\<not> is_clipped stats" using ratio(1) by auto
    note up = steps(1) [OF _ this(1,2)] and adjusted = adjust_dark [OF this(1), of current a']
    show "es_exposure_us current \<le> es_exposure_us new \<and> es_gain current \<le> es_gain new
        \<and> (current \<noteq> new \<or> es_exposure_us new = ax_max_us a \<and> es_gain new = ax_max_gain a)"
      using up assms(4) ok gains clear unfolding new lims
      by (simp add: adjusted setting_within_def limits_ok_def clamp_i64_def setting_eq eq_commute [of current] split: if_splits) linarith
  qed
  have bright: "too_bright stats a \<longrightarrow>
        es_exposure_us new \<le> es_exposure_us current \<and> es_gain new \<le> es_gain current
        \<and> (current \<noteq> new \<or> es_exposure_us new = ax_min_us a \<and> es_gain new = ax_min_gain a)"
  proof
    assume "too_bright stats a"
    then have "r < f64_nine_tenths" "1 / 16 \<le> r" using ratio(2) by auto
    note down = steps(2) [OF this] and adjusted = adjust_bright [OF this(1), of current "is_clipped stats" a']
    show "es_exposure_us new \<le> es_exposure_us current \<and> es_gain new \<le> es_gain current
        \<and> (current \<noteq> new \<or> es_exposure_us new = ax_min_us a \<and> es_gain new = ax_min_gain a)"
      using down ok gains unfolding new lims
      by (simp add: adjusted setting_within_def limits_ok_def clamp_i64_def setting_eq eq_commute [of current] split: if_splits) linarith
  qed
  have right: "\<not> too_dark stats a \<and> \<not> too_bright stats a \<longrightarrow>
        es_exposure_us new = es_exposure_us current
        \<and> (new = current \<or> ax_prefer_short_exposures a \<and> es_gain current < es_gain new)"
  proof
    assume "\<not> too_dark stats a \<and> \<not> too_bright stats a"
    then have "f64_nine_tenths \<le> r" "r \<le> f64_eleven_tenths" and clear: "\<not> is_clipped stats" using ratio(3) by auto
    note adjusted = adjust_right [OF this(1,2), of current a']
    show "es_exposure_us new = es_exposure_us current
        \<and> (new = current \<or> ax_prefer_short_exposures a \<and> es_gain current < es_gain new)"
      using ok gains clear unfolding new lims
      by (simp add: adjusted setting_within_def limits_ok_def clamp_i64_def setting_eq)
  qed
  show ?thesis using within dark bright right by blast
qed

definition demo_controller :: adaptive_exposure where
  "demo_controller = \<lparr>ax_min_us = 100, ax_max_us = 60000000, ax_min_gain = 0, ax_max_gain = 300, ax_target = 100,
     ax_mode = Day, ax_votes = 0, ax_prefer_short_exposures = False\<rparr>"

definition demo_dark_frame :: luma_statistics where
  "demo_dark_frame = \<lparr>ls_mean = 20, ls_p50 = 20, ls_p90 = 50, ls_clipped_fraction = 0\<rparr>"

definition demo_setting :: exposure_setting where
  "demo_setting = \<lparr>es_exposure_us = 10000, es_gain = 0\<rparr>"

theorem exposure_moves_towards_target_witness:
  "too_dark demo_dark_frame demo_controller
   \<and> 10000 \<le> es_exposure_us (fst (observe demo_setting demo_dark_frame demo_controller))"
proof -
  have dark: "too_dark demo_dark_frame demo_controller"
    by (simp add: too_dark_def demo_dark_frame_def demo_controller_def measured_def is_clipped_def f32_one_twentieth_def)
  have "limits_ok demo_controller" "setting_within demo_controller demo_setting" "ls_p90 demo_dark_frame \<le> 255"
    "11 \<le> es_exposure_us demo_setting" "es_exposure_us demo_setting < 2 ^ 50" "es_gain demo_setting < 2 ^ 50"
    by (simp_all add: limits_ok_def setting_within_def demo_controller_def demo_dark_frame_def demo_setting_def)
  then have "es_exposure_us demo_setting \<le> es_exposure_us (fst (observe demo_setting demo_dark_frame demo_controller))"
    using exposure_moves_towards_target [of demo_controller demo_setting demo_dark_frame] dark by blast
  with dark show ?thesis by (simp add: demo_setting_def)
qed

end
