(* ===== verification/Settings.thy ===== *)
theory Settings
  imports MachineFloats Unicode Paths
begin

text \<open>
  The configuration (\<open>autopiercam-core/src/config.rs\<close> and the schedule of \<open>timelapse_schedule.rs\<close>):
  its sections, their comparison, validation, and which changes need a new camera session or new
  recording services. URL parsing and the time-zone database are parameters; \<open>cfg!(windows)\<close> is
  an argument.
\<close>

subsection \<open>Sections\<close>

datatype window_mode = UtcDay | LocalNoon | DuskToDawn
datatype delivery_mode = Immediate | LocalTime
datatype twilight = Sunset | Civil | Astronomical

record timelapse_schedule =
  sd_window :: window_mode
  sd_timezone :: string
  sd_twilight :: twilight
  sd_delivery :: delivery_mode
  sd_send_minute :: nat

definition schedule_default :: timelapse_schedule where
  "schedule_default = \<lparr>sd_window = UtcDay, sd_timezone = ''UTC'', sd_twilight = Sunset,
     sd_delivery = Immediate, sd_send_minute = 720\<rparr>"

datatype white_balance_mode = Manual | Once | Continuous

record white_balance_config =
  wb_mode :: white_balance_mode
  wb_red :: f64
  wb_blue :: f64

definition white_balance_default :: white_balance_config where
  "white_balance_default = \<lparr>wb_mode = Manual, wb_red = Finite 1, wb_blue = Finite 1\<rparr>"

datatype camera_driver = ZwoSdk | ZwoDirect

datatype exposure_control = SdkControl | AdaptiveControl

record camera_config =
  cf_usb_reset_on_fault :: bool
  cf_white_balance :: "white_balance_config option"
  cf_latitude_deg :: "f64 option"
  cf_longitude_deg :: "f64 option"
  cf_driver :: camera_driver
  cf_serial :: "string option"
  cf_exposure_control :: exposure_control
  cf_raw16 :: bool
  cf_camera_id :: "int option"
  cf_name_contains :: "string option"
  cf_width :: "nat option"
  cf_height :: "nat option"
  cf_bin :: int
  cf_min_exposure_us :: int
  cf_max_exposure_us :: int
  cf_min_gain :: int
  cf_max_gain :: int
  cf_prefer_short_exposures :: bool
  cf_target_brightness :: int
  cf_settle_frames :: nat

definition camera_default :: camera_config where
  "camera_default = \<lparr>cf_usb_reset_on_fault = False, cf_white_balance = None, cf_latitude_deg = None,
     cf_longitude_deg = None, cf_driver = ZwoSdk, cf_serial = None, cf_exposure_control = SdkControl,
     cf_raw16 = False, cf_camera_id = None, cf_name_contains = None, cf_width = None, cf_height = None,
     cf_bin = 1, cf_min_exposure_us = 100, cf_max_exposure_us = 60000000, cf_min_gain = 0, cf_max_gain = 300,
     cf_prefer_short_exposures = False, cf_target_brightness = 100, cf_settle_frames = 6\<rparr>"

record capture_config =
  cp_directory :: string
  cp_interval_ms :: nat
  cp_preview_max_fps :: f64
  cp_jpeg_quality :: nat
  cp_writer_queue_capacity :: nat
  cp_keep_latest :: bool
  cp_retention_max_bytes :: "nat option"
  cp_retention_min_free_bytes :: "nat option"
  cp_retention_days :: nat

definition capture_default :: capture_config where
  "capture_default = \<lparr>cp_directory = ''captures'', cp_interval_ms = 10000, cp_preview_max_fps = Finite 2,
     cp_jpeg_quality = 88, cp_writer_queue_capacity = 2, cp_keep_latest = True, cp_retention_max_bytes = None,
     cp_retention_min_free_bytes = None, cp_retention_days = 14\<rparr>"

record upload_config =
  uc_enabled :: bool
  uc_endpoint :: "string option"
  uc_bearer_token_env :: "string option"
  uc_queue_capacity :: nat

definition upload_default :: upload_config where
  "upload_default = \<lparr>uc_enabled = False, uc_endpoint = None, uc_bearer_token_env = None, uc_queue_capacity = 32\<rparr>"

record video_config =
  vc_daily_timelapse :: bool
  vc_timelapse_schedule :: timelapse_schedule
  vc_ffmpeg_path :: "string option"
  vc_enabled :: bool
  vc_segment_seconds :: nat
  vc_frames_per_second :: nat

definition video_default :: video_config where
  "video_default = \<lparr>vc_daily_timelapse = False, vc_timelapse_schedule = schedule_default, vc_ffmpeg_path = None,
     vc_enabled = False, vc_segment_seconds = 300, vc_frames_per_second = 4\<rparr>"

record api_config =
  ap_listen :: string

definition api_default :: api_config where
  "api_default = \<lparr>ap_listen = ''127.0.0.1:4762''\<rparr>"

record settings =
  st_camera :: camera_config
  st_capture :: capture_config
  st_upload :: upload_config
  st_video :: video_config
  st_api :: api_config

definition settings_default :: settings where
  "settings_default = \<lparr>st_camera = camera_default, st_capture = capture_default, st_upload = upload_default,
     st_video = video_default, st_api = api_default\<rparr>"

subsection \<open>Comparison\<close>

text \<open>The derived \<open>==\<close>: floats compare as floats, paths by their components.\<close>

definition white_balance_eq :: "white_balance_config \<Rightarrow> white_balance_config \<Rightarrow> bool" where
  "white_balance_eq a b \<longleftrightarrow> wb_mode a = wb_mode b \<and> f64_eq (wb_red a) (wb_red b) \<and> f64_eq (wb_blue a) (wb_blue b)"

definition camera_eq :: "camera_config \<Rightarrow> camera_config \<Rightarrow> bool" where
  "camera_eq a b \<longleftrightarrow>
     option_eq white_balance_eq (cf_white_balance a) (cf_white_balance b)
     \<and> option_eq f64_eq (cf_latitude_deg a) (cf_latitude_deg b)
     \<and> option_eq f64_eq (cf_longitude_deg a) (cf_longitude_deg b)
     \<and> a\<lparr>cf_white_balance := None, cf_latitude_deg := None, cf_longitude_deg := None\<rparr>
       = b\<lparr>cf_white_balance := None, cf_latitude_deg := None, cf_longitude_deg := None\<rparr>"

definition capture_eq :: "capture_config \<Rightarrow> capture_config \<Rightarrow> bool" where
  "capture_eq a b \<longleftrightarrow>
     path_eq (cp_directory a) (cp_directory b) \<and> f64_eq (cp_preview_max_fps a) (cp_preview_max_fps b)
     \<and> a\<lparr>cp_directory := [], cp_preview_max_fps := NotANumber\<rparr>
       = b\<lparr>cp_directory := [], cp_preview_max_fps := NotANumber\<rparr>"

definition video_eq :: "video_config \<Rightarrow> video_config \<Rightarrow> bool" where
  "video_eq a b \<longleftrightarrow>
     option_eq path_eq (vc_ffmpeg_path a) (vc_ffmpeg_path b)
     \<and> a\<lparr>vc_ffmpeg_path := None\<rparr> = b\<lparr>vc_ffmpeg_path := None\<rparr>"

definition settings_eq :: "settings \<Rightarrow> settings \<Rightarrow> bool" where
  "settings_eq a b \<longleftrightarrow>
     camera_eq (st_camera a) (st_camera b) \<and> capture_eq (st_capture a) (st_capture b)
     \<and> st_upload a = st_upload b \<and> video_eq (st_video a) (st_video b) \<and> st_api a = st_api b"

definition requires_recording_reload :: "settings \<Rightarrow> settings \<Rightarrow> bool" where
  "requires_recording_reload current new \<longleftrightarrow>
     (let capture = (st_capture current)
            \<lparr>cp_interval_ms := cp_interval_ms (st_capture new),
             cp_preview_max_fps := cp_preview_max_fps (st_capture new),
             cp_jpeg_quality := cp_jpeg_quality (st_capture new)\<rparr>
      in \<not> capture_eq capture (st_capture new)
         \<or> st_upload current \<noteq> st_upload new
         \<or> \<not> video_eq (st_video current) (st_video new)
         \<or> (vc_daily_timelapse (st_video current) \<or> vc_daily_timelapse (st_video new))
           \<and> (\<not> option_eq f64_eq (cf_latitude_deg (st_camera current)) (cf_latitude_deg (st_camera new))
              \<or> \<not> option_eq f64_eq (cf_longitude_deg (st_camera current)) (cf_longitude_deg (st_camera new))))"

definition requires_camera_restart :: "settings \<Rightarrow> settings \<Rightarrow> bool" where
  "requires_camera_restart current new \<longleftrightarrow>
     (let a = st_camera current; b = st_camera new in
      cf_driver a \<noteq> cf_driver b
      \<or> cf_serial a \<noteq> cf_serial b
      \<or> cf_camera_id a \<noteq> cf_camera_id b
      \<or> cf_name_contains a \<noteq> cf_name_contains b
      \<or> cf_width a \<noteq> cf_width b
      \<or> cf_height a \<noteq> cf_height b
      \<or> cf_bin a \<noteq> cf_bin b
      \<or> cf_raw16 a \<noteq> cf_raw16 b
      \<or> \<not> option_eq white_balance_eq (cf_white_balance a) (cf_white_balance b)
      \<or> cf_usb_reset_on_fault a \<noteq> cf_usb_reset_on_fault b)"

subsection \<open>Validation\<close>

record url =
  url_scheme :: string
  url_host :: "string option"
  url_username :: string
  url_password :: "string option"
  url_fragment :: "string option"
  url_text :: string

datatype config_error =
    ConfigRead string io_error
  | ConfigParse string
  | ConfigValidation string

text \<open>The messages.\<close>

definition absolute_url_message :: string where
  "absolute_url_message = ''upload.endpoint must be a nonblank absolute HTTP or HTTPS URL''"

text \<open>\<open>s.trim() != s\<close>.\<close>

definition has_outer_whitespace :: "string \<Rightarrow> bool" where
  "has_outer_whitespace s \<longleftrightarrow> trimmed s \<noteq> chars s"

definition validate_upload_endpoint :: "(string \<Rightarrow> url option) \<Rightarrow> string \<Rightarrow> config_error + url" where
  "validate_upload_endpoint parse_url endpoint =
     rbind (require (\<not> (endpoint = [] \<or> has_outer_whitespace endpoint)) (ConfigValidation absolute_url_message)) (\<lambda>_.
     rbind (ok_or (parse_url endpoint) (ConfigValidation absolute_url_message)) (\<lambda>parsed.
     rbind (require (url_scheme parsed \<in> {''http'', ''https''} \<and> url_host parsed \<noteq> None)
       (ConfigValidation absolute_url_message)) (\<lambda>_.
     rbind (require (url_username parsed = [] \<and> url_password parsed = None)
       (ConfigValidation ''upload.endpoint must not contain embedded credentials'')) (\<lambda>_.
     rbind (require (url_fragment parsed = None)
       (ConfigValidation ''upload.endpoint must not contain a URL fragment'')) (\<lambda>_.
     Inr parsed)))))"

definition normalize_upload_endpoint :: "(string \<Rightarrow> url option) \<Rightarrow> string \<Rightarrow> config_error + string" where
  "normalize_upload_endpoint parse_url endpoint =
     rbind (validate_upload_endpoint parse_url endpoint) (\<lambda>parsed. Inr (url_text parsed))"

definition location_ok :: "f64 option \<Rightarrow> f64 option \<Rightarrow> bool" where
  "location_ok latitude longitude =
     (case (latitude, longitude) of
        (Some lat, Some lon) \<Rightarrow> f64_is_finite lat \<and> f64_is_finite lon
          \<and> f64_within (-90) 90 lat \<and> f64_within (-180) 180 lon
      | _ \<Rightarrow> False)"

definition schedule_validate :: "(string \<Rightarrow> bool) \<Rightarrow> camera_config \<Rightarrow> timelapse_schedule \<Rightarrow> string + unit" where
  "schedule_validate known_timezone camera s =
     rbind (require (\<not> (length (sd_timezone s) > 100 \<or> \<not> known_timezone (sd_timezone s)))
       ''timelapse timezone must be an IANA name, e.g. America/Los_Angeles'') (\<lambda>_.
     rbind (require (sd_send_minute s < 1440) ''timelapse send_minute must be in 0..1440'') (\<lambda>_.
     require (\<not> (sd_window s = DuskToDawn \<and> \<not> location_ok (cf_latitude_deg camera) (cf_longitude_deg camera)))
       ''dusk-to-dawn timelapses require a valid observing latitude and longitude''))"

definition is_ascii_hexdigit :: "char \<Rightarrow> bool" where
  "is_ascii_hexdigit c \<longleftrightarrow>
     (let v = (of_char c :: nat) in 48 \<le> v \<and> v \<le> 57 \<or> 65 \<le> v \<and> v \<le> 70 \<or> 97 \<le> v \<and> v \<le> 102)"

text \<open>The tests of the camera section, in order.\<close>

definition validate_camera :: "camera_config \<Rightarrow> config_error + unit" where
  "validate_camera c =
     rbind (require (\<not> (cf_usb_reset_on_fault c \<and> \<not> (case cf_serial c of None \<Rightarrow> False
         | Some s \<Rightarrow> length s = 16 \<and> list_all is_ascii_hexdigit s \<and> s \<noteq> ''0000000000000000'')))
       (ConfigValidation ''camera.usb_reset_on_fault requires an explicit 16-digit nonzero camera serial'')) (\<lambda>_.
     rbind (require (\<not> (case cf_white_balance c of None \<Rightarrow> False
         | Some wb \<Rightarrow> list_ex (\<lambda>gain. \<not> f64_is_finite gain \<or> \<not> f64_within (1 / 8) 8 gain) [wb_red wb, wb_blue wb]))
       (ConfigValidation ''camera white-balance gains must be finite multipliers in 0.125..=8'')) (\<lambda>_.
     rbind (require (cf_latitude_deg c = None \<and> cf_longitude_deg c = None
         \<or> location_ok (cf_latitude_deg c) (cf_longitude_deg c))
       (ConfigValidation ''camera latitude_deg and longitude_deg must both be set, finite, and within -90..90 and -180..180 degrees'')) (\<lambda>_.
     rbind (require (cf_bin c = 1)
       (ConfigValidation ''camera.bin must be 1 until color binning is characterized'')) (\<lambda>_.
     rbind (require (\<not> (case cf_serial c of None \<Rightarrow> False | Some s \<Rightarrow> trimmed s = [] \<or> has_outer_whitespace s))
       (ConfigValidation ''camera.serial must be nonempty without surrounding whitespace'')) (\<lambda>_.
     rbind (require (\<not> (cf_min_exposure_us c < 0 \<or> cf_max_exposure_us c \<le> 0))
       (ConfigValidation ''camera exposure limits must be non-negative with a positive maximum'')) (\<lambda>_.
     rbind (require (\<not> cf_max_exposure_us c < cf_min_exposure_us c)
       (ConfigValidation ''camera.max_exposure_us must be >= camera.min_exposure_us'')) (\<lambda>_.
     rbind (require (\<not> (cf_min_gain c < 0 \<or> cf_max_gain c < cf_min_gain c))
       (ConfigValidation ''camera gain limits must satisfy 0 <= min_gain <= max_gain'')) (\<lambda>_.
     require (1 \<le> cf_target_brightness c \<and> cf_target_brightness c \<le> 250)
       (ConfigValidation ''camera.target_brightness must be in 1..=250'')))))))))"

definition validate_capture :: "capture_config \<Rightarrow> config_error + unit" where
  "validate_capture c =
     rbind (require (1 \<le> cp_jpeg_quality c \<and> cp_jpeg_quality c \<le> 100)
       (ConfigValidation ''capture.jpeg_quality must be between 1 and 100'')) (\<lambda>_.
     rbind (require (cp_interval_ms c \<noteq> 0)
       (ConfigValidation ''capture.interval_ms must be greater than zero'')) (\<lambda>_.
     rbind (require (f64_is_finite (cp_preview_max_fps c)
         \<and> f64_within (5764607523034235 / 576460752303423488) 30 (cp_preview_max_fps c))
       (ConfigValidation ''capture.preview_max_fps must be a finite number between 0.01 and 30'')) (\<lambda>_.
     rbind (require (cp_writer_queue_capacity c \<noteq> 0)
       (ConfigValidation ''capture.writer_queue_capacity must be greater than zero'')) (\<lambda>_.
     rbind (require (cp_retention_max_bytes c \<noteq> Some 0)
       (ConfigValidation ''capture.retention_max_bytes must be greater than zero when set'')) (\<lambda>_.
     require (cp_retention_min_free_bytes c \<noteq> Some 0)
       (ConfigValidation ''capture.retention_min_free_bytes must be greater than zero when set''))))))"

definition validate_bearer_variable :: "url option \<Rightarrow> string \<Rightarrow> config_error + unit" where
  "validate_bearer_variable endpoint variable =
     rbind (require (\<not> (variable = [] \<or> has_outer_whitespace variable
         \<or> list_ex (\<lambda>c. c = CHR ''='' \<or> of_char c = (0 :: nat)) variable
         \<or> list_ex char_is_control (chars variable)))
       (ConfigValidation ''upload.bearer_token_env must be a valid nonblank environment-variable name'')) (\<lambda>_.
     require (\<not> (case endpoint of None \<Rightarrow> False | Some e \<Rightarrow> url_scheme e \<noteq> ''https''))
       (ConfigValidation ''upload bearer authentication requires an HTTPS endpoint''))"

definition validate_upload :: "(string \<Rightarrow> url option) \<Rightarrow> upload_config \<Rightarrow> config_error + unit" where
  "validate_upload parse_url u =
     rbind (require (\<not> (uc_enabled u \<and> uc_endpoint u = None))
       (ConfigValidation ''upload.endpoint is required when upload.enabled is true'')) (\<lambda>_.
     rbind (case uc_endpoint u of None \<Rightarrow> Inr None
         | Some endpoint \<Rightarrow> rbind (validate_upload_endpoint parse_url endpoint) (\<lambda>e. Inr (Some e))) (\<lambda>endpoint.
     case uc_bearer_token_env u of None \<Rightarrow> Inr ()
       | Some variable \<Rightarrow> validate_bearer_variable endpoint variable))"

definition settings_validate ::
  "(string \<Rightarrow> url option) \<Rightarrow> (string \<Rightarrow> bool) \<Rightarrow> bool \<Rightarrow> settings \<Rightarrow> config_error + unit" where
  "settings_validate parse_url known_timezone windows s =
     rbind (validate_camera (st_camera s)) (\<lambda>_.
     rbind (validate_capture (st_capture s)) (\<lambda>_.
     rbind (require (uc_queue_capacity (st_upload s) \<noteq> 0)
       (ConfigValidation ''upload.queue_capacity must be greater than zero'')) (\<lambda>_.
     rbind (require (1 \<le> vc_segment_seconds (st_video s) \<and> vc_segment_seconds (st_video s) \<le> 600
         \<and> 1 \<le> vc_frames_per_second (st_video s) \<and> vc_frames_per_second (st_video s) \<le> 30)
       (ConfigValidation ''video segment_seconds must be in 1..=600 and frames_per_second in 1..=30'')) (\<lambda>_.
     rbind (require (\<not> ((vc_enabled (st_video s) \<or> vc_daily_timelapse (st_video s)) \<and> \<not> windows))
       (ConfigValidation ''video recording requires Windows Media Foundation'')) (\<lambda>_.
     rbind (case schedule_validate known_timezone (st_camera s) (vc_timelapse_schedule (st_video s)) of
         Inl message \<Rightarrow> Inl (ConfigValidation message) | Inr u \<Rightarrow> Inr u) (\<lambda>_.
     validate_upload parse_url (st_upload s)))))))"

subsection \<open>Facts\<close>

text \<open>A valid configuration contains no value that is not a number, so comparing it with itself succeeds.\<close>

lemma settings_validate_Inr:
  "settings_validate parse_url known_timezone windows s = Inr () \<longleftrightarrow>
     validate_camera (st_camera s) = Inr () \<and> validate_capture (st_capture s) = Inr ()
     \<and> uc_queue_capacity (st_upload s) \<noteq> 0
     \<and> 1 \<le> vc_segment_seconds (st_video s) \<and> vc_segment_seconds (st_video s) \<le> 600
     \<and> 1 \<le> vc_frames_per_second (st_video s) \<and> vc_frames_per_second (st_video s) \<le> 30
     \<and> \<not> ((vc_enabled (st_video s) \<or> vc_daily_timelapse (st_video s)) \<and> \<not> windows)
     \<and> schedule_validate known_timezone (st_camera s) (vc_timelapse_schedule (st_video s)) = Inr ()
     \<and> validate_upload parse_url (st_upload s) = Inr ()"
  by (simp add: settings_validate_def result_simps split: sum.splits)

lemma valid_settings_eq_self:
  assumes "settings_validate parse_url known_timezone windows s = Inr ()"
  shows "settings_eq s s"
proof -
  have "validate_camera (st_camera s) = Inr ()" "validate_capture (st_capture s) = Inr ()"
    using assms by (simp_all add: settings_validate_Inr)
  then have "camera_eq (st_camera s) (st_camera s)" "capture_eq (st_capture s) (st_capture s)"
    by (auto simp: validate_camera_def validate_capture_def result_simps camera_eq_def capture_eq_def
        option_eq_iff white_balance_eq_def f64_eq_iff location_ok_def path_eq_def split: option.splits)
  moreover have "video_eq (st_video s) (st_video s)"
    by (cases "vc_ffmpeg_path (st_video s)") (simp_all add: video_eq_def path_eq_def)
  ultimately show ?thesis by (simp add: settings_eq_def)
qed

end
