(* ===== verification/SettingsStore.thy ===== *)
theory SettingsStore
  imports Settings
begin

text \<open>
  The managed configuration file (\<open>autopiercam-core/src/config_store.rs\<close>): optimistic replacement
  under a revision computed from the canonical text, and a write that goes to a temporary file
  first. The disk is a map from paths to contents, and every operation also yields the list of
  disks it passes through, which is what a crash or another reader can see. TOML is a parameter.
\<close>

unbundle bit_operations_syntax

type_synonym disk = "string \<rightharpoonup> u8 list"

text \<open>The codec and the tests that depend on the platform.\<close>

record settings_codec =
  sc_encode :: "settings \<Rightarrow> string + u8 list"
  sc_decode :: "u8 list \<Rightarrow> string + settings"
  sc_utf8 :: "u8 list \<Rightarrow> bool"
  sc_parse_url :: "string \<Rightarrow> url option"
  sc_known_timezone :: "string \<Rightarrow> bool"
  sc_windows :: bool

definition codec_valid :: "settings_codec \<Rightarrow> settings \<Rightarrow> config_error + unit" where
  "codec_valid toml s = settings_validate (sc_parse_url toml) (sc_known_timezone toml) (sc_windows toml) s"

subsection \<open>Loading\<close>

text \<open>\<open>read_to_string\<close>: what the operating system says, the missing file, and text that is not UTF-8.\<close>

definition settings_load ::
  "settings_codec \<Rightarrow> (string \<Rightarrow> io_error option) \<Rightarrow> string \<Rightarrow> disk \<Rightarrow> config_error + settings" where
  "settings_load toml read_fault path d =
     rbind (case read_fault path of Some e \<Rightarrow> Inl (ConfigRead path e)
       | None \<Rightarrow> (case d path of None \<Rightarrow> Inl (ConfigRead path NotFound)
           | Some bytes \<Rightarrow> if sc_utf8 toml bytes then Inr bytes else Inl (ConfigRead path OtherIo))) (\<lambda>text.
     rbind (case sc_decode toml text of Inl e \<Rightarrow> Inl (ConfigParse e) | Inr s \<Rightarrow> Inr s) (\<lambda>config.
     rbind (codec_valid toml config) (\<lambda>_. Inr config)))"

definition fnv1a_offset_basis :: "64 word" where "fnv1a_offset_basis = 0xcbf29ce484222325"
definition fnv1a_prime :: "64 word" where "fnv1a_prime = 0x100000001b3"

definition config_fnv1a :: "u8 list \<Rightarrow> 64 word" where
  "config_fnv1a bytes = foldl (\<lambda>hash byte. (hash XOR ucast byte) * fnv1a_prime) fnv1a_offset_basis bytes"

record config_snapshot =
  cn_revision :: "64 word"
  cn_config :: settings

datatype config_store_error =
    InvalidTarget string
  | StoreIo string string io_error
  | StoreConfig config_error
  | StoreSerialize string
  | StoreConflict "64 word" "64 word"

definition canonical_toml :: "settings_codec \<Rightarrow> settings \<Rightarrow> config_store_error + u8 list" where
  "canonical_toml toml s = (case sc_encode toml s of Inl e \<Rightarrow> Inl (StoreSerialize e) | Inr bytes \<Rightarrow> Inr bytes)"

definition load_snapshot ::
  "settings_codec \<Rightarrow> (string \<Rightarrow> io_error option) \<Rightarrow> string \<Rightarrow> disk \<Rightarrow> config_store_error + config_snapshot" where
  "load_snapshot toml read_fault path d =
     rbind (case settings_load toml read_fault path d of Inl e \<Rightarrow> Inl (StoreConfig e) | Inr s \<Rightarrow> Inr s) (\<lambda>config.
     rbind (canonical_toml toml config) (\<lambda>canonical.
     Inr \<lparr>cn_revision = config_fnv1a canonical, cn_config = config\<rparr>))"

subsection \<open>The target\<close>

text \<open>A resolved target is a canonical directory and a plain file name.\<close>

record target_path =
  tp_parent :: string
  tp_name :: string

definition target_text :: "target_path \<Rightarrow> string" where
  "target_text t = path_join (tp_parent t) (tp_name t)"

record directory_answers =
  da_current_dir :: "io_error + component list"
  da_create_dir_all :: "component list \<Rightarrow> io_error + unit"
  da_canonicalize :: "component list \<Rightarrow> io_error + string"

definition store_io :: "string \<Rightarrow> string \<Rightarrow> io_error + 'a \<Rightarrow> config_store_error + 'a" where
  "store_io action path r = (case r of Inl e \<Rightarrow> Inl (StoreIo action path e) | Inr x \<Rightarrow> Inr x)"

definition resolve_target :: "directory_answers \<Rightarrow> string \<Rightarrow> config_store_error + target_path" where
  "resolve_target os path =
     rbind (ok_or (path_file_name path) (InvalidTarget path)) (\<lambda>file_name.
     rbind (if path_is_absolute path then Inr (path_components path)
            else rbind (store_io ''resolve current directory'' path (da_current_dir os)) (\<lambda>root.
              Inr (root @ filter (\<lambda>c. c \<noteq> CurDir) (path_components path)))) (\<lambda>absolute.
     let parent = butlast absolute in
     rbind (store_io ''create configuration parent directory'' path (da_create_dir_all os parent)) (\<lambda>_.
     rbind (store_io ''resolve configuration parent directory'' path (da_canonicalize os parent)) (\<lambda>canonical_parent.
     Inr \<lparr>tp_parent = canonical_parent, tp_name = file_name\<rparr>))))"

text \<open>The process-wide registry hands the same lock to every live store of a path.\<close>

definition lock_for_path :: "string \<Rightarrow> (nat \<Rightarrow> bool) \<Rightarrow> nat \<Rightarrow> (string \<rightharpoonup> nat) \<Rightarrow> nat \<times> (string \<rightharpoonup> nat)" where
  "lock_for_path path live fresh registry =
     (case registry path of
        Some lock \<Rightarrow> if live lock then (lock, registry)
          else (fresh, (\<lambda>p. case registry p of None \<Rightarrow> None | Some l \<Rightarrow> if live l then Some l else None)(path \<mapsto> fresh))
      | None \<Rightarrow> (fresh, (\<lambda>p. case registry p of None \<Rightarrow> None | Some l \<Rightarrow> if live l then Some l else None)(path \<mapsto> fresh)))"

subsection \<open>Writing\<close>

text \<open>What goes wrong during one write: a failed write also says how many bytes arrived.\<close>

record write_faults =
  wf_create :: "string \<Rightarrow> io_error option"
  wf_write :: "(nat \<times> io_error) option"
  wf_flush :: "io_error option"
  wf_sync :: "io_error option"
  wf_rename :: "io_error option"
  wf_remove :: "io_error option"

definition temp_path :: "nat \<Rightarrow> target_path \<Rightarrow> nat \<Rightarrow> string" where
  "temp_path process_id target number =
     path_join (tp_parent target)
       (''.'' @ tp_name target @ ''.autopiercam-'' @ decimal process_id @ ''-'' @ decimal number @ ''.tmp'')"

text \<open>
  The loop over the process-wide counter; it returns the path, the counter and the disk with the
  empty file. The counter does not reach \<open>2 ^ 64\<close>.
\<close>

partial_function (option) create_unique_temp ::
  "(string \<Rightarrow> io_error option) \<Rightarrow> nat \<Rightarrow> target_path \<Rightarrow> nat \<Rightarrow> disk \<Rightarrow> (config_store_error + string \<times> nat \<times> disk) option" where
  "create_unique_temp create_fault process_id target counter d =
     (let path = temp_path process_id target counter in
      case create_fault path of
        Some e \<Rightarrow> Some (Inl (StoreIo ''create temporary configuration'' path e))
      | None \<Rightarrow>
          if d path \<noteq> None then create_unique_temp create_fault process_id target (counter + 1) d
          else Some (Inr (path, counter + 1, d(path \<mapsto> []))))"

text \<open>A run of one operation: the disks it goes through, and its result.\<close>

type_synonym 'a disk_run = "disk list \<times> (config_store_error + 'a)"

definition cleanup :: "write_faults \<Rightarrow> string \<Rightarrow> disk \<Rightarrow> disk" where
  "cleanup faults path d = (if wf_remove faults = None then d(path := None) else d)"

text \<open>An early return drops the guard, which removes the temporary file.\<close>

definition fail_and_clean :: "write_faults \<Rightarrow> string \<Rightarrow> disk list \<Rightarrow> config_store_error \<Rightarrow> unit disk_run" where
  "fail_and_clean faults path passed e = (passed @ [cleanup faults path (last passed)], Inl e)"

definition write_temp :: "write_faults \<Rightarrow> target_path \<Rightarrow> string \<Rightarrow> u8 list \<Rightarrow> disk \<Rightarrow> unit disk_run" where
  "write_temp faults target path contents d =
     (let reached = (case wf_write faults of None \<Rightarrow> length contents | Some (k, _) \<Rightarrow> min k (length contents));
          passed = map (\<lambda>k. d(path \<mapsto> take k contents)) [0..<Suc reached]
      in case wf_write faults of
           Some (_, e) \<Rightarrow> fail_and_clean faults path passed (StoreIo ''write temporary configuration'' path e)
         | None \<Rightarrow>
             (case wf_flush faults of
                Some e \<Rightarrow> fail_and_clean faults path passed (StoreIo ''flush temporary configuration'' path e)
              | None \<Rightarrow>
                  (case wf_sync faults of
                     Some e \<Rightarrow> fail_and_clean faults path passed (StoreIo ''sync temporary configuration'' path e)
                   | None \<Rightarrow>
                       (case wf_rename faults of
                          Some e \<Rightarrow> fail_and_clean faults path passed
                            (StoreIo ''atomically replace configuration'' (target_text target) e)
                        | None \<Rightarrow> (passed @ [d(path := None, target_text target \<mapsto> contents)], Inr ())))))"

definition atomic_write ::
  "write_faults \<Rightarrow> nat \<Rightarrow> target_path \<Rightarrow> u8 list \<Rightarrow> nat \<Rightarrow> disk \<Rightarrow> unit disk_run option" where
  "atomic_write faults process_id target contents counter d =
     map_option (\<lambda>r. case r of
        Inl e \<Rightarrow> ([d], Inl e)
      | Inr (path, _, d) \<Rightarrow> write_temp faults target path contents d)
       (create_unique_temp (wf_create faults) process_id target counter d)"

subsection \<open>The operations of the store\<close>

text \<open>Each runs under the lock of the path.\<close>

definition store_snapshot ::
  "settings_codec \<Rightarrow> (string \<Rightarrow> io_error option) \<Rightarrow> target_path \<Rightarrow> disk \<Rightarrow> config_store_error + config_snapshot" where
  "store_snapshot toml read_fault target d = load_snapshot toml read_fault (target_text target) d"

definition lift_config :: "config_error + 'a \<Rightarrow> config_store_error + 'a" where
  "lift_config r = (case r of Inl e \<Rightarrow> Inl (StoreConfig e) | Inr x \<Rightarrow> Inr x)"

definition store_replace ::
  "settings_codec \<Rightarrow> (string \<Rightarrow> io_error option) \<Rightarrow> write_faults \<Rightarrow> nat \<Rightarrow> target_path \<Rightarrow> 64 word \<Rightarrow> settings
     \<Rightarrow> nat \<Rightarrow> disk \<Rightarrow> config_snapshot disk_run option" where
  "store_replace toml read_fault faults process_id target expected_revision config counter d =
     (case rbind (lift_config (codec_valid toml config)) (\<lambda>_.
           rbind (canonical_toml toml config) (\<lambda>canonical.
           rbind (load_snapshot toml read_fault (target_text target) d) (\<lambda>current.
           rbind (require (cn_revision current = expected_revision)
             (StoreConflict expected_revision (cn_revision current))) (\<lambda>_.
           Inr (canonical, current))))) of
        Inl e \<Rightarrow> Some ([d], Inl e)
      | Inr (canonical, current) \<Rightarrow>
          (let snapshot = \<lparr>cn_revision = config_fnv1a canonical, cn_config = config\<rparr> in
           if \<not> settings_eq (cn_config current) config
           then map_option (\<lambda>(passed, r). (passed, rbind r (\<lambda>_. Inr snapshot)))
                  (atomic_write faults process_id target canonical counter d)
           else Some ([d], Inr snapshot)))"

definition store_open ::
  "settings_codec \<Rightarrow> (string \<Rightarrow> io_error option) \<Rightarrow> io_error option \<Rightarrow> write_faults \<Rightarrow> nat \<Rightarrow> directory_answers
     \<Rightarrow> string \<Rightarrow> nat \<Rightarrow> disk \<Rightarrow> target_path disk_run option" where
  "store_open toml read_fault inspect_fault faults process_id os path counter d =
     (case resolve_target os path of
        Inl e \<Rightarrow> Some ([d], Inl e)
      | Inr target \<Rightarrow>
          (case inspect_fault of
             Some e \<Rightarrow> Some ([d], Inl (StoreIo ''inspect configuration target'' (target_text target) e))
           | None \<Rightarrow>
               map_option (\<lambda>(passed, r). (passed,
                   rbind r (\<lambda>_. rbind (load_snapshot toml read_fault (target_text target) (last passed)) (\<lambda>_.
                   Inr target))))
                 (if d (target_text target) \<noteq> None then Some ([d], Inr ())
                  else case rbind (lift_config (codec_valid toml settings_default)) (\<lambda>_.
                         canonical_toml toml settings_default) of
                       Inl e \<Rightarrow> Some ([d], Inl e)
                     | Inr canonical \<Rightarrow> atomic_write faults process_id target canonical counter d)))"

end
