(* ===== verification/SettingsStoreTheorems.thy ===== *)
theory SettingsStoreTheorems
  imports SettingsStore
begin

text \<open>
  Replacing the configuration is atomic at every moment of the write, the loop over temporary names
  ends, and the revision notices every edit of one byte.
\<close>

subsection \<open>The revision\<close>

definition fnv_step :: "64 word \<Rightarrow> u8 \<Rightarrow> 64 word" where
  "fnv_step hash byte = (hash XOR ucast byte) * fnv1a_prime"

text \<open>The prime is odd, so multiplying by it can be undone.\<close>

definition fnv_inverse :: "64 word" where "fnv_inverse = 14886173955864302971"

lemma fnv_inverse: "x * fnv1a_prime * fnv_inverse = x"
proof -
  have "fnv1a_prime * fnv_inverse = 1" by (simp add: fnv1a_prime_def fnv_inverse_def)
  then show ?thesis by (simp add: mult.assoc)
qed

lemma fnv_step_inject: "fnv_step h b = fnv_step h' b' \<longleftrightarrow> h XOR ucast b = h' XOR ucast b'"
  unfolding fnv_step_def using fnv_inverse by metis

lemma xor_cancel: "(a :: 64 word) XOR c = b XOR c \<longleftrightarrow> a = b"
proof
  have again: "(x XOR c) XOR c = x" for x :: "64 word" by (simp add: xor.assoc)
  assume "a XOR c = b XOR c"
  then have "(a XOR c) XOR c = (b XOR c) XOR c" by simp
  then show "a = b" by (simp only: again)
qed simp

lemma fnv_fold_inject: "foldl fnv_step h bytes = foldl fnv_step h' bytes \<longleftrightarrow> h = h'"
  by (induction bytes arbitrary: h h') (simp_all add: fnv_step_inject xor_cancel)

lemma ucast_byte_inject: "(ucast (b :: u8) :: 64 word) = ucast b' \<longleftrightarrow> b = b'"
proof -
  have "unat (ucast x :: 64 word) = unat x" for x :: u8
    using unat_lt2p_byte [of x] by (simp add: unsigned_ucast_eq take_bit_nat_eq_self)
  then show ?thesis by (metis word_unat_eq_iff)
qed

text \<open>No single edit goes unnoticed: two configuration texts that differ in exactly one byte never have
  the same revision, so a client whose copy is out of date by one changed character cannot
  overwrite the file.\<close>

lemma one_byte_edit_changes_revision:
  assumes "b \<noteq> b'"
  shows "config_fnv1a (before @ b # rest) \<noteq> config_fnv1a (before @ b' # rest)"
proof -
  have fold: "config_fnv1a bytes = foldl fnv_step fnv1a_offset_basis bytes" for bytes
    by (simp add: config_fnv1a_def fnv_step_def [abs_def])
  define h where "h = foldl fnv_step fnv1a_offset_basis before"
  have "fnv_step h b \<noteq> fnv_step h b'"
    unfolding fnv_step_inject using assms xor_cancel [of "ucast b" h "ucast b'"]
    by (simp add: xor.commute [of h] ucast_byte_inject)
  then show ?thesis by (simp add: fold h_def [symmetric] fnv_fold_inject)
qed

subsection \<open>Temporary names\<close>

lemma decimal_inject: "decimal a = decimal b \<longleftrightarrow> a = b"
  by (metis decimal_value_decimal)

lemma temp_path_inject: "temp_path p t a = temp_path p t b \<longleftrightarrow> a = b"
  by (auto simp: temp_path_def path_join_def decimal_inject split: if_splits)

lemma temp_path_not_target: "temp_path p t a \<noteq> target_text t"
proof -
  have "length (tp_name t) < length (''.'' @ tp_name t @ ''.autopiercam-'' @ decimal p @ ''-'' @ decimal a @ ''.tmp'')"
    by simp
  then show ?thesis by (auto simp: temp_path_def target_text_def path_join_def)
qed

text \<open>Creating the temporary file always returns: however many leftovers of earlier writes occupy
  their names, the loop reaches a name that is free, creates that file and touches no other, or
  reports why the operating system refused.\<close>

lemma temporary_file_is_found:
  assumes "finite (dom d)"
  shows "\<exists>r. create_unique_temp create_fault process_id target counter d = Some r
    \<and> (case r of Inl e \<Rightarrow> \<exists>n io. create_fault (temp_path process_id target n) = Some io
          \<and> e = StoreIo ''create temporary configuration'' (temp_path process_id target n) io
      | Inr (path, counter', d') \<Rightarrow> counter < counter' \<and> path = temp_path process_id target (counter' - 1)
          \<and> d path = None \<and> d' = d(path \<mapsto> []))"
proof -
  have "inj (temp_path process_id target)" by (simp add: inj_def temp_path_inject)
  then have "infinite (range (temp_path process_id target))" using finite_imageD infinite_UNIV_nat by blast
  then have "infinite (temp_path process_id target ` {counter..})"
    using \<open>inj (temp_path process_id target)\<close> by (meson finite_imageD infinite_Ici inj_on_subset subset_UNIV)
  then obtain k where "counter \<le> k" "d (temp_path process_id target k) = None"
    using assms by (metis (no_types, lifting) atLeast_iff domIff finite_subset image_subset_iff)
  then show ?thesis
  proof (induction "k - counter" arbitrary: counter)
    case 0
    then show ?case
      by (subst create_unique_temp.simps) (auto simp: Let_def split: option.splits)
  next
    case (Suc n)
    show ?case
    proof (cases "create_fault (temp_path process_id target counter) = None \<and> d (temp_path process_id target counter) \<noteq> None")
      case True
      then have "create_unique_temp create_fault process_id target counter d
          = create_unique_temp create_fault process_id target (counter + 1) d"
        by (subst create_unique_temp.simps) (simp add: Let_def)
      moreover have "n = k - (counter + 1)" "counter + 1 \<le> k" using Suc.hyps(2) by auto
      note IH = Suc.hyps(1) [OF this Suc.prems(2)]
      ultimately show ?thesis using IH by (force split: sum.splits)
    next
      case False
      then show ?thesis by (subst create_unique_temp.simps) (auto simp: Let_def split: option.splits)
    qed
  qed
qed

subsection \<open>Atomicity\<close>

text \<open>What a crash during a write can leave: the target old or new, everything else but the temporary file alone.\<close>

definition between :: "string \<Rightarrow> string \<Rightarrow> u8 list \<Rightarrow> disk \<Rightarrow> disk \<Rightarrow> bool" where
  "between target path contents d x \<longleftrightarrow>
     (x target = d target \<or> x target = Some contents) \<and> (\<forall>p. p \<noteq> target \<longrightarrow> p \<noteq> path \<longrightarrow> x p = d p)"

definition ended :: "write_faults \<Rightarrow> string \<Rightarrow> string \<Rightarrow> u8 list \<Rightarrow> disk \<Rightarrow> disk list \<Rightarrow> config_store_error + unit \<Rightarrow> bool" where
  "ended faults target path contents d disks r \<longleftrightarrow>
     disks \<noteq> [] \<and> (\<forall>x \<in> set disks. between target path contents d x)
     \<and> last disks target = (case r of Inl _ \<Rightarrow> d target | Inr _ \<Rightarrow> Some contents)
     \<and> (wf_remove faults = None \<longrightarrow> last disks path = None)"

lemma write_temp_ended:
  assumes "write_temp faults target path contents d = (disks, r)" and "path \<noteq> target_text target"
  shows "ended faults (target_text target) path contents d disks r"
proof -
  have "between (target_text target) path contents d (d(path \<mapsto> bytes))" for bytes
    using assms(2) by (simp add: between_def)
  moreover have "between (target_text target) path contents d (d(path \<mapsto> bytes, path := None))" for bytes
    using assms(2) by (simp add: between_def)
  ultimately show ?thesis
    using assms unfolding write_temp_def fail_and_clean_def cleanup_def Let_def ended_def
    by (auto simp: between_def split: option.splits prod.splits if_splits)
qed

lemma atomic_write_ended:
  assumes "atomic_write faults process_id target contents counter d = Some (disks, r)" and "finite (dom d)"
  obtains number where "ended faults (target_text target) (temp_path process_id target number) contents d disks r"
    "d (temp_path process_id target number) = None"
    | e where "disks = [d]" "r = Inl e"
proof -
  obtain c where c: "create_unique_temp (wf_create faults) process_id target counter d = Some c"
    and run: "(disks, r) = (case c of Inl e \<Rightarrow> ([d], Inl e) | Inr (path, _, d') \<Rightarrow> write_temp faults target path contents d')"
    using assms(1) by (auto simp: atomic_write_def)
  have found: "case c of Inl e \<Rightarrow> True
      | Inr (path, counter', d') \<Rightarrow> path = temp_path process_id target (counter' - 1) \<and> d path = None \<and> d' = d(path \<mapsto> [])"
    using temporary_file_is_found [OF assms(2), of "wf_create faults" process_id target counter] c
    by (auto split: sum.splits)
  show thesis
  proof (cases c)
    case (Inl e)
    then show thesis using run that(2) by simp
  next
    case (Inr x)
    then obtain number where x: "x = (temp_path process_id target number, Suc number, d(temp_path process_id target number \<mapsto> []))
        \<or> (\<exists>k. x = (temp_path process_id target number, k, d(temp_path process_id target number \<mapsto> [])))"
      "d (temp_path process_id target number) = None"
      using found by (auto split: prod.splits)
    then have written: "write_temp faults target (temp_path process_id target number) contents
        (d(temp_path process_id target number \<mapsto> [])) = (disks, r)"
      using run Inr by auto
    note w = write_temp_ended [OF written temp_path_not_target]
    have "ended faults (target_text target) (temp_path process_id target number) contents d disks r"
      using w temp_path_not_target [of process_id target number]
      by (auto simp: ended_def between_def split: sum.splits)
    then show thesis using that(1) x(2) by blast
  qed
qed

text \<open>C28: replacing the configuration is atomic and fenced: it succeeds only if the stored configuration
  still has the revision the client expects, and in every state the disk goes through - at any
  byte of the write, at a crash, after a failed flush, sync or rename - loading it gives either
  the old configuration or the complete new one, never a mixture. An error leaves the old one,
  success the new one, and no other file changes.\<close>

theorem replacement_is_atomic:
  assumes replace: "store_replace toml read_fault faults process_id target expected config counter d = Some (disks, r)"
    and finite: "finite (dom d)" and readable: "read_fault (target_text target) = None"
    and law: "\<forall>bytes. sc_encode toml config = Inr bytes \<longrightarrow> sc_utf8 toml bytes \<and> sc_decode toml bytes = Inr config"
  defines "loaded \<equiv> store_snapshot toml read_fault target"
  shows "(\<forall>x \<in> set disks. loaded x = loaded d
        \<or> (\<exists>bytes. sc_encode toml config = Inr bytes
            \<and> loaded x = Inr \<lparr>cn_revision = config_fnv1a bytes, cn_config = config\<rparr>))
    \<and> (case r of Inl _ \<Rightarrow> loaded (last disks) = loaded d
       | Inr snapshot \<Rightarrow> (\<exists>current. loaded d = Inr current \<and> cn_revision current = expected
           \<and> (loaded (last disks) = Inr snapshot \<or> last disks = d \<and> settings_eq (cn_config current) config)))
    \<and> (wf_remove faults = None \<longrightarrow> (\<forall>p. p \<noteq> target_text target \<longrightarrow> last disks p = d p))"
proof -
  have same: "loaded x = loaded y" if "x (target_text target) = y (target_text target)" for x y
    unfolding loaded_def store_snapshot_def load_snapshot_def settings_load_def that ..
  show ?thesis
  proof (cases "codec_valid toml config = Inr () \<and> (\<exists>canonical current. canonical_toml toml config = Inr canonical
      \<and> loaded d = Inr current \<and> cn_revision current = expected)")
    case False
    then have "disks = [d]" "\<exists>e. r = Inl e"
      using replace
      by (auto simp: store_replace_def lift_config_def loaded_def store_snapshot_def rbind_def require_def
          split: sum.splits if_splits)
    then show ?thesis by auto
  next
    case True
    then obtain canonical current where ok: "codec_valid toml config = Inr ()" "canonical_toml toml config = Inr canonical"
      and current: "loaded d = Inr current" "cn_revision current = expected" by blast
    have enc: "sc_encode toml config = Inr canonical" using ok(2) by (simp add: canonical_toml_def split: sum.splits)
    have new: "loaded x = Inr \<lparr>cn_revision = config_fnv1a canonical, cn_config = config\<rparr>"
      if "x (target_text target) = Some canonical" for x
      using that enc law readable ok
      by (simp add: loaded_def store_snapshot_def load_snapshot_def settings_load_def canonical_toml_def)
    have run: "store_replace toml read_fault faults process_id target expected config counter d
      = (if \<not> settings_eq (cn_config current) config
         then map_option (\<lambda>(passed, r). (passed, rbind r (\<lambda>_. Inr \<lparr>cn_revision = config_fnv1a canonical, cn_config = config\<rparr>)))
                (atomic_write faults process_id target canonical counter d)
         else Some ([d], Inr \<lparr>cn_revision = config_fnv1a canonical, cn_config = config\<rparr>))"
      using ok current by (simp add: store_replace_def lift_config_def loaded_def store_snapshot_def)
    show ?thesis
    proof (cases "settings_eq (cn_config current) config")
      case True
      then show ?thesis using replace run current by auto
    next
      case False
      then obtain w where w: "atomic_write faults process_id target canonical counter d = Some (disks, w)"
        "r = rbind w (\<lambda>_. Inr \<lparr>cn_revision = config_fnv1a canonical, cn_config = config\<rparr>)"
        using replace run by (auto split: prod.splits)
      from w(1) finite show ?thesis
      proof (cases rule: atomic_write_ended)
        case (1 number)
        have "loaded x = loaded d \<or> loaded x = Inr \<lparr>cn_revision = config_fnv1a canonical, cn_config = config\<rparr>"
          if "x \<in> set disks" for x
          using 1(1) that same [of x d] new [of x] by (auto simp: ended_def between_def)
        moreover have "case r of Inl _ \<Rightarrow> loaded (last disks) = loaded d
            | Inr snapshot \<Rightarrow> loaded (last disks) = Inr snapshot"
          using 1(1) same [of "last disks" d] new [of "last disks"] by (cases w) (auto simp: w(2) ended_def)
        moreover have "\<forall>p. p \<noteq> target_text target \<longrightarrow> last disks p = d p" if "wf_remove faults = None"
        proof -
          have "between (target_text target) (temp_path process_id target number) canonical d (last disks)"
            "last disks (temp_path process_id target number) = None"
            using 1(1) that by (auto simp: ended_def)
          then show ?thesis using 1(2) by (auto simp: between_def)
        qed
        ultimately show ?thesis using enc current by (auto split: sum.splits)
      next
        case (2 e)
        then show ?thesis by (simp add: w(2))
      qed
    qed
  qed
qed

subsection \<open>A small codec\<close>

text \<open>A codec that keeps the capture directory, for concrete runs with three of them.\<close>

definition demo_directories :: "string list" where
  "demo_directories = [''captures'', ''frames'', ''captures/'']"

definition in_directory :: "string \<Rightarrow> settings" where
  "in_directory directory = settings_default\<lparr>st_capture := capture_default\<lparr>cp_directory := directory\<rparr>\<rparr>"

definition demo_toml :: settings_codec where
  "demo_toml = \<lparr>sc_encode = (\<lambda>s. Inr (string_bytes (cp_directory (st_capture s)))),
     sc_decode = (\<lambda>bytes. case find (\<lambda>directory. string_bytes directory = bytes) demo_directories of
       Some directory \<Rightarrow> Inr (in_directory directory) | None \<Rightarrow> Inl ''unknown''), sc_utf8 = (\<lambda>_. True),
     sc_parse_url = (\<lambda>_. None), sc_known_timezone = (\<lambda>_. True), sc_windows = False\<rparr>"

definition demo_faults :: write_faults where
  "demo_faults = \<lparr>wf_create = (\<lambda>_. None), wf_write = None, wf_flush = None, wf_sync = None,
     wf_rename = None, wf_remove = None\<rparr>"

definition demo_target :: target_path where
  "demo_target = \<lparr>tp_parent = ''/etc'', tp_name = ''apc.toml''\<rparr>"

definition demo_disk :: disk where
  "demo_disk = [target_text demo_target \<mapsto> string_bytes ''captures'']"

lemma demo_valid: "codec_valid demo_toml (in_directory directory) = Inr ()"
  by (simp add: codec_valid_def demo_toml_def in_directory_def settings_validate_Inr settings_default_def
      capture_default_def camera_default_def upload_default_def video_default_def schedule_default_def
      validate_camera_def validate_capture_def validate_upload_def schedule_validate_def)

lemma demo_law: "sc_encode demo_toml (in_directory directory) = Inr (string_bytes directory)"
  "directory \<in> set demo_directories \<Longrightarrow> sc_decode demo_toml (string_bytes directory) = Inr (in_directory directory)"
  "sc_utf8 demo_toml bytes"
  by (auto simp: demo_toml_def in_directory_def string_bytes_inject demo_directories_def)

lemma demo_loaded:
  "directory \<in> set demo_directories \<Longrightarrow> store_snapshot demo_toml (\<lambda>_. None) demo_target [target_text demo_target \<mapsto> string_bytes directory]
     = Inr \<lparr>cn_revision = config_fnv1a (string_bytes directory), cn_config = in_directory directory\<rparr>"
  by (simp add: store_snapshot_def load_snapshot_def settings_load_def demo_law demo_valid canonical_toml_def)

lemma demo_replace_returns:
  "\<exists>disks r. store_replace demo_toml (\<lambda>_. None) demo_faults 7 demo_target expected config counter demo_disk = Some (disks, r)"
proof -
  have "\<exists>x. create_unique_temp (wf_create demo_faults) 7 demo_target counter demo_disk = Some x"
    using temporary_file_is_found [of demo_disk "wf_create demo_faults" 7 demo_target counter]
    by (auto simp: demo_disk_def)
  then obtain x where "create_unique_temp (wf_create demo_faults) 7 demo_target counter demo_disk = Some x" ..
  then show ?thesis by (auto simp: store_replace_def atomic_write_def Let_def split: sum.splits prod.splits)
qed

theorem replacement_is_atomic_witness:
  "\<exists>disks r. store_replace demo_toml (\<lambda>_. None) demo_faults 7 demo_target
       (config_fnv1a (string_bytes ''captures'')) (in_directory ''frames'') 0 demo_disk = Some (disks, r)
     \<and> (case r of Inl _ \<Rightarrow> True | Inr snapshot \<Rightarrow>
          (\<exists>current. store_snapshot demo_toml (\<lambda>_. None) demo_target demo_disk = Inr current))"
proof -
  obtain disks r where run: "store_replace demo_toml (\<lambda>_. None) demo_faults 7 demo_target
       (config_fnv1a (string_bytes ''captures'')) (in_directory ''frames'') 0 demo_disk = Some (disks, r)"
    using demo_replace_returns by blast
  have "finite (dom demo_disk)" by (simp add: demo_disk_def)
  moreover have "\<forall>bytes. sc_encode demo_toml (in_directory ''frames'') = Inr bytes
      \<longrightarrow> sc_utf8 demo_toml bytes \<and> sc_decode demo_toml bytes = Inr (in_directory ''frames'')"
    using demo_law(2) [of "''frames''"] by (simp add: demo_law demo_directories_def)
  ultimately show ?thesis
    using replacement_is_atomic [OF run] run by (cases r) auto
qed

text \<open>
  A replacement that only respells a path is taken for no change: nothing is written, but the
  revision returned is that of the new spelling, and the client's next replacement conflicts.
\<close>

lemma respelled_path_misreports_revision:
  "\<exists>snapshot current. store_replace demo_toml (\<lambda>_. None) demo_faults 7 demo_target
       (config_fnv1a (string_bytes ''captures'')) (in_directory ''captures/'') counter demo_disk
       = Some ([demo_disk], Inr snapshot)
     \<and> store_snapshot demo_toml (\<lambda>_. None) demo_target demo_disk = Inr current
     \<and> cn_revision snapshot \<noteq> cn_revision current"
proof -
  have loaded: "load_snapshot demo_toml (\<lambda>_. None) (target_text demo_target) demo_disk
      = Inr \<lparr>cn_revision = config_fnv1a (string_bytes ''captures''), cn_config = in_directory ''captures''\<rparr>"
    using demo_loaded [of "''captures''"] by (simp add: store_snapshot_def demo_disk_def demo_directories_def)
  have "path_eq ''captures'' ''captures/''" by code_simp
  then have "capture_eq (st_capture (in_directory ''captures'')) (st_capture (in_directory ''captures/''))"
    by (simp add: capture_eq_def in_directory_def capture_default_def)
  moreover have "settings_eq (in_directory directory) (in_directory directory)" for directory
    using valid_settings_eq_self demo_valid unfolding codec_valid_def by blast
  ultimately have eq: "settings_eq (in_directory ''captures'') (in_directory ''captures/'')"
    unfolding settings_eq_def by (simp add: in_directory_def)
  have "config_fnv1a (string_bytes ''captures/'') \<noteq> config_fnv1a (string_bytes ''captures'')" by code_simp
  then show ?thesis
    using loaded eq by (simp add: store_replace_def lift_config_def demo_valid canonical_toml_def demo_law store_snapshot_def)
qed

end
