(* ===== verification/Monitor.thy ===== *)
theory Monitor
  imports Upload Retention CaptureTiming
begin

text \<open>
  The controls and the status shared by the tray, the local IPC server and the camera thread
  (\<open>AgentControl\<close> and \<open>AgentMonitor\<close> of \<open>autopiercam/src/lib.rs\<close>, and the status messages of
  \<open>autopiercam-protocol\<close>). Every operation holds its lock for its whole body, so it is one step.
\<close>

subsection \<open>Status messages\<close>

datatype agent_state = Starting | Idle | Capturing | Paused | Faulted | Stopping

record status_camera =
  sm_id :: int
  sm_name :: string

record detected_camera =
  dc_serial :: "string option"
  dc_discovery_error :: "string option"
  dc_id :: int
  dc_name :: string
  dc_is_color :: bool

record camera_list =
  cl_cameras :: "detected_camera list"
  cl_scanned_at_unix_ms :: "nat option"
  cl_error :: "string option"

record status_upload =
  su_pending :: nat
  su_active :: nat
  su_retrying :: nat
  su_completed :: nat
  su_permanently_failed :: nat
  su_last_success_unix_ms :: "nat option"
  su_last_failure_unix_ms :: "nat option"
  su_last_error :: "string option"

datatype storage_pressure = StorageOk | StorageCleanupNeeded | StorageBlocked

record status_storage =
  so_managed_bytes :: nat
  so_protected_bytes :: nat
  so_reclaimable_bytes :: nat
  so_free_bytes :: "nat option"
  so_last_sweep_unix_ms :: "nat option"
  so_last_reclaimed_files :: nat
  so_last_reclaimed_bytes :: nat
  so_pressure :: storage_pressure
  so_capture_suspended :: bool
  so_last_error :: "string option"

record status_exposure =
  sx_session_generation :: nat
  sx_settling :: bool
  sx_exposure_us :: int
  sx_gain :: int
  sx_max_exposure_us :: int
  sx_settling_frames :: nat
  sx_settling_min_frames :: nat
  sx_wait_elapsed_ms :: nat
  sx_frame_timeout_ms :: nat

record agent_status =
  ag_state :: agent_state
  ag_camera :: "status_camera option"
  ag_frames_captured :: nat
  ag_frames_saved :: nat
  ag_last_artifact :: "string option"
  ag_last_error :: "string option"
  ag_upload :: "status_upload option"
  ag_storage :: "status_storage option"
  ag_exposure :: "status_exposure option"
  ag_capabilities :: "string list"

definition agent_status_new :: "agent_state \<Rightarrow> agent_status" where
  "agent_status_new state = \<lparr>ag_state = state, ag_camera = None, ag_frames_captured = 0, ag_frames_saved = 0,
     ag_last_artifact = None, ag_last_error = None, ag_upload = None, ag_storage = None, ag_exposure = None,
     ag_capabilities = []\<rparr>"

subsection \<open>Controls\<close>

record agent_control =
  ac_shutdown :: bool
  ac_paused :: bool
  ac_capture_generation :: nat
  ac_reload_pending :: bool

definition control_new :: agent_control where
  "control_new = \<lparr>ac_shutdown = False, ac_paused = False, ac_capture_generation = 0, ac_reload_pending = False\<rparr>"

definition control_pause :: "agent_control \<Rightarrow> agent_control" where
  "control_pause c = c\<lparr>ac_paused := True\<rparr>"

definition control_resume :: "agent_control \<Rightarrow> agent_control" where
  "control_resume c = c\<lparr>ac_paused := False\<rparr>"

definition wrap_u64 :: "nat \<Rightarrow> nat" where
  "wrap_u64 n = n mod 18446744073709551616"

definition control_capture_now :: "agent_control \<Rightarrow> agent_control" where
  "control_capture_now c = c\<lparr>ac_capture_generation := wrap_u64 (ac_capture_generation c + 1)\<rparr>"

definition control_reload_configuration :: "agent_control \<Rightarrow> agent_control" where
  "control_reload_configuration c = c\<lparr>ac_reload_pending := True\<rparr>"

definition control_shutdown :: "agent_control \<Rightarrow> agent_control" where
  "control_shutdown c = c\<lparr>ac_shutdown := True\<rparr>"

subsection \<open>The monitor\<close>

record agent_monitor =
  mo_status :: agent_status
  mo_camera_progress_at :: nat
  mo_cameras :: camera_list
  mo_capturing_generation :: nat

definition agent_capabilities :: "bool \<Rightarrow> string list" where
  "agent_capabilities windows =
     [''uploads.list'', ''uploads.requeue'', ''storage.retention'', ''exposure.progress'',
      ''sharing.get'', ''sharing.observation_overlays'', ''cameras.list'', ''camera.adaptive_exposure'',
      ''camera.gain_range'', ''camera.startup_location'', ''camera.white_balance'']
     @ (if windows then [''camera.usb_reset_on_fault''] else [])
     @ [''camera.raw16'', ''capture.preview_rate'', ''capture.preview_rate_fractional'']
     @ (if windows then [''video.native'', ''video.daily_timelapse''] else [])
     @ [''video.timelapse_schedule'']"

definition monitor_new :: "bool \<Rightarrow> nat \<Rightarrow> agent_monitor" where
  "monitor_new windows now =
     \<lparr>mo_status = (agent_status_new Starting)\<lparr>ag_capabilities := agent_capabilities windows\<rparr>,
      mo_camera_progress_at = now,
      mo_cameras = \<lparr>cl_cameras = [], cl_scanned_at_unix_ms = None, cl_error = None\<rparr>,
      mo_capturing_generation = 0\<rparr>"

definition duration_millis :: "nat \<Rightarrow> nat" where
  "duration_millis d = min (d div 1000000) u64_max"

definition unresponsive_message :: string where
  "unresponsive_message = ''Camera worker is not responding. Restart the AutoPierCam tray agent; ''
     @ ''restarting the Viewer will not recover capture.''"

definition status_timeout :: "status_exposure option \<Rightarrow> nat" where
  "status_timeout exposure =
     (case exposure of None \<Rightarrow> seconds 60
      | Some x \<Rightarrow> max (millis (sx_frame_timeout_ms x)) (seconds 30) + seconds 30)"

definition snapshot_at :: "nat \<Rightarrow> agent_monitor \<Rightarrow> agent_status" where
  "snapshot_at now m =
     (let age = now - mo_camera_progress_at m; status = mo_status m in
      if ag_state status \<in> {Starting, Capturing, Paused} \<and> age \<ge> status_timeout (ag_exposure status)
      then status\<lparr>ag_state := Faulted, ag_exposure := None, ag_last_error := Some unresponsive_message\<rparr>
      else (case ag_exposure status of None \<Rightarrow> status
        | Some x \<Rightarrow> status\<lparr>ag_exposure :=
            Some (x\<lparr>sx_wait_elapsed_ms := sat_add_u64 (sx_wait_elapsed_ms x) (duration_millis age)\<rparr>)\<rparr>))"

definition report_camera_inventory :: "string + detected_camera list \<Rightarrow> nat \<Rightarrow> agent_monitor \<Rightarrow> agent_monitor" where
  "report_camera_inventory result now_unix_ms m =
     m\<lparr>mo_cameras := (case result of
         Inr cameras \<Rightarrow> \<lparr>cl_cameras = cameras, cl_scanned_at_unix_ms = Some now_unix_ms, cl_error = None\<rparr>
       | Inl error \<Rightarrow> \<lparr>cl_cameras = [], cl_scanned_at_unix_ms = Some now_unix_ms, cl_error = Some error\<rparr>)\<rparr>"

definition with_status :: "(agent_status \<Rightarrow> agent_status) \<Rightarrow> agent_monitor \<Rightarrow> agent_monitor" where
  "with_status f m = m\<lparr>mo_status := f (mo_status m)\<rparr>"

definition report_fault :: "string \<Rightarrow> agent_monitor \<Rightarrow> agent_monitor" where
  "report_fault message = with_status (\<lambda>s. s\<lparr>ag_state := Faulted, ag_exposure := None, ag_last_error := Some message\<rparr>)"

definition entered_capturing :: "agent_state \<Rightarrow> agent_monitor \<Rightarrow> agent_monitor" where
  "entered_capturing state m =
     (if state = Capturing \<and> ag_state (mo_status m) \<noteq> Capturing
      then m\<lparr>mo_capturing_generation := wrap_u64 (mo_capturing_generation m + 1)\<rparr> else m)"

definition set_state :: "agent_state \<Rightarrow> agent_monitor \<Rightarrow> agent_monitor" where
  "set_state state m =
     with_status (\<lambda>s. s\<lparr>ag_state := state,
         ag_exposure := (if state \<in> {Idle, Stopping, Faulted} then None else ag_exposure s)\<rparr>)
       (entered_capturing state m)"

definition mark_stopping :: "agent_monitor \<Rightarrow> agent_monitor" where
  "mark_stopping = set_state Stopping"

definition begin_attempt :: "nat \<Rightarrow> agent_monitor \<Rightarrow> agent_monitor" where
  "begin_attempt now m =
     (with_status (\<lambda>s. s\<lparr>ag_state := Starting, ag_camera := None, ag_last_error := None, ag_upload := None,
         ag_storage := None, ag_exposure := None\<rparr>) m)\<lparr>mo_camera_progress_at := now\<rparr>"

definition set_camera :: "int \<Rightarrow> string \<Rightarrow> agent_monitor \<Rightarrow> agent_monitor" where
  "set_camera number name = with_status (\<lambda>s. s\<lparr>ag_camera := Some \<lparr>sm_id = number, sm_name = name\<rparr>\<rparr>)"

definition exposure_progress :: "status_exposure \<Rightarrow> nat \<Rightarrow> agent_monitor \<Rightarrow> agent_monitor" where
  "exposure_progress exposure now m =
     (with_status (\<lambda>s. s\<lparr>ag_exposure := Some exposure\<rparr>) m)\<lparr>mo_camera_progress_at := now\<rparr>"

definition settling_frame_captured :: "agent_monitor \<Rightarrow> agent_monitor" where
  "settling_frame_captured = with_status (\<lambda>s. s\<lparr>ag_frames_captured := sat_add_u64 (ag_frames_captured s) 1\<rparr>)"

definition frame_captured :: "bool \<Rightarrow> agent_monitor \<Rightarrow> agent_monitor" where
  "frame_captured paused m =
     (let state = (if paused then Paused else Capturing)
      in with_status (\<lambda>s. s\<lparr>ag_frames_captured := sat_add_u64 (ag_frames_captured s) 1, ag_state := state\<rparr>)
           (entered_capturing state m))"

definition artifact_saved :: "string \<Rightarrow> agent_monitor \<Rightarrow> agent_monitor" where
  "artifact_saved path =
     with_status (\<lambda>s. s\<lparr>ag_frames_saved := sat_add_u64 (ag_frames_saved s) 1, ag_last_artifact := Some path\<rparr>)"

definition monitor_upload_telemetry :: "upload_telemetry \<Rightarrow> agent_monitor \<Rightarrow> agent_monitor" where
  "monitor_upload_telemetry t = with_status (\<lambda>s. s\<lparr>ag_upload := Some
     \<lparr>su_pending = ut_pending t, su_active = ut_active t, su_retrying = ut_retrying t,
      su_completed = ut_completed t, su_permanently_failed = ut_permanently_failed t,
      su_last_success_unix_ms = ut_last_success t, su_last_failure_unix_ms = ut_last_failure t,
      su_last_error = ut_last_error t\<rparr>\<rparr>)"

definition monitor_retention_telemetry :: "retention_telemetry \<Rightarrow> agent_monitor \<Rightarrow> agent_monitor" where
  "monitor_retention_telemetry t = with_status (\<lambda>s. s\<lparr>ag_storage := Some
     \<lparr>so_managed_bytes = t_managed_bytes t, so_protected_bytes = t_protected_bytes t,
      so_reclaimable_bytes = t_reclaimable_bytes t, so_free_bytes = t_free_bytes t,
      so_last_sweep_unix_ms = Some (t_swept_at t), so_last_reclaimed_files = t_reclaimed_file_count t,
      so_last_reclaimed_bytes = t_reclaimed_bytes t,
      so_pressure = (case t_pressure t of PressureOk \<Rightarrow> StorageOk | CleanupNeeded \<Rightarrow> StorageCleanupNeeded
        | Blocked \<Rightarrow> StorageBlocked),
      so_capture_suspended = t_blocked_pressure t, so_last_error = t_error t\<rparr>\<rparr>)"

definition publish_attempt_result :: "string + unit \<Rightarrow> agent_control \<Rightarrow> agent_monitor \<Rightarrow> agent_monitor" where
  "publish_attempt_result result control m =
     (case result of
        Inr _ \<Rightarrow> if ac_shutdown control then mark_stopping m else set_state Idle m
      | Inl error \<Rightarrow> report_fault error m)"

subsection \<open>What every reader can rely on\<close>

text \<open>The operations that do not report progress of the camera.\<close>

inductive other_activity :: "agent_monitor \<Rightarrow> agent_monitor \<Rightarrow> bool" where
  "other_activity m (report_camera_inventory r t m)"
| "other_activity m (report_fault message m)"
| "other_activity m (set_state state m)"
| "other_activity m (set_camera number name m)"
| "other_activity m (settling_frame_captured m)"
| "other_activity m (frame_captured paused m)"
| "other_activity m (artifact_saved path m)"
| "other_activity m (monitor_upload_telemetry u m)"
| "other_activity m (monitor_retention_telemetry v m)"

lemma other_activity_clock:
  assumes "other_activity m m'"
  shows "mo_camera_progress_at m' = mo_camera_progress_at m
    \<and> (ag_exposure (mo_status m') = ag_exposure (mo_status m) \<or> ag_exposure (mo_status m') = None)"
  using assms
  by cases (simp_all add: report_camera_inventory_def report_fault_def set_state_def set_camera_def
      settling_frame_captured_def frame_captured_def artifact_saved_def monitor_upload_telemetry_def
      monitor_retention_telemetry_def with_status_def entered_capturing_def Let_def)

lemma other_activities_clock:
  assumes "other_activity\<^sup>*\<^sup>* m m'"
  shows "mo_camera_progress_at m' = mo_camera_progress_at m
    \<and> (ag_exposure (mo_status m') = ag_exposure (mo_status m) \<or> ag_exposure (mo_status m') = None)"
  using assms by (induction rule: rtranclp_induct) (auto dest: other_activity_clock)



text \<open>Entering the capturing state advances the generation, and nothing else does.\<close>

lemma generation_counts_captures:
  assumes "other_activity m m'" and "mo_capturing_generation m < u64_max"
  shows "mo_capturing_generation m' = mo_capturing_generation m
      + (if ag_state (mo_status m) \<noteq> Capturing \<and> ag_state (mo_status m') = Capturing then 1 else 0)"
  using assms
  by cases (auto simp: report_camera_inventory_def report_fault_def set_state_def set_camera_def
      settling_frame_captured_def frame_captured_def artifact_saved_def monitor_upload_telemetry_def
      monitor_retention_telemetry_def with_status_def entered_capturing_def Let_def wrap_u64_def u64_max_def)

end
