(* ===== verification/AdminSessions.thy ===== *)
theory AdminSessions
  imports Prelude "HOL-Library.Multiset"
begin

text \<open>
  Which upload ledger local operators reach while recording services come and go
  (\<open>UploadAdminSession\<close>, its leases and its registration in \<open>autopiercam/src/lib.rs\<close>). A session
  counts the operations running against it; replacing or dropping a registration revokes the
  session and waits until it is idle. An \<open>Arc\<close> is the number of the session it points to.
\<close>

subsection \<open>One session\<close>

record 'a admin_session =
  se_admin :: 'a
  se_accepting :: bool
  se_active :: nat

definition session_new :: "'a \<Rightarrow> 'a admin_session" where
  "session_new admin = \<lparr>se_admin = admin, se_accepting = True, se_active = 0\<rparr>"

text \<open>The counter is a \<open>usize\<close>; its overflow panics, which no model of memory reaches.\<close>

definition session_acquire :: "'a admin_session \<Rightarrow> 'a admin_session option" where
  "session_acquire s = (if \<not> se_accepting s then None else Some (s\<lparr>se_active := se_active s + 1\<rparr>))"

definition session_revoke :: "'a admin_session \<Rightarrow> 'a admin_session" where
  "session_revoke s = s\<lparr>se_accepting := False\<rparr>"

text \<open>\<open>wait_until_idle\<close> returns when this holds.\<close>

definition session_idle :: "'a admin_session \<Rightarrow> bool" where
  "session_idle s \<longleftrightarrow> se_active s = 0"

text \<open>Dropping a lease; \<open>None\<close> is the panic of the underflow.\<close>

definition lease_drop :: "'a admin_session \<Rightarrow> 'a admin_session option" where
  "lease_drop s = (if se_active s = 0 then None else Some (s\<lparr>se_active := se_active s - 1\<rparr>))"

subsection \<open>The registry\<close>

record registered_admin =
  rg_generation :: nat
  rg_session :: nat

record 'a admin_registry =
  ad_sessions :: "'a admin_session list"
  ad_current :: "registered_admin option"
  ad_generation :: nat

definition registry_new :: "'a admin_registry" where
  "registry_new = \<lparr>ad_sessions = [], ad_current = None, ad_generation = 0\<rparr>"

definition update_session :: "nat \<Rightarrow> ('a admin_session \<Rightarrow> 'a admin_session) \<Rightarrow> 'a admin_registry \<Rightarrow> 'a admin_registry" where
  "update_session i f r = r\<lparr>ad_sessions := (ad_sessions r)[i := f (ad_sessions r ! i)]\<rparr>"

datatype admin_unavailable = ServiceUnavailable

text \<open>\<open>current_upload_admin\<close>: the lease is the session's number.\<close>

definition current_upload_admin :: "'a admin_registry \<Rightarrow> admin_unavailable + nat \<times> 'a admin_registry" where
  "current_upload_admin r =
     (case ad_current r of None \<Rightarrow> Inl ServiceUnavailable
      | Some g \<Rightarrow> (case session_acquire (ad_sessions r ! rg_session g) of None \<Rightarrow> Inl ServiceUnavailable
          | Some s \<Rightarrow> Inr (rg_session g, r\<lparr>ad_sessions := (ad_sessions r)[rg_session g := s]\<rparr>)))"

record admin_registration =
  an_generation :: nat
  an_session :: nat

text \<open>\<open>register_upload_admin\<close> up to its wait: the registration and the session to wait for.\<close>

definition register_begin :: "'a \<Rightarrow> 'a admin_registry \<Rightarrow> admin_registration \<times> nat option \<times> 'a admin_registry" where
  "register_begin admin r =
     (let generation = (ad_generation r + 1) mod 18446744073709551616;
          session = length (ad_sessions r);
          previous = map_option rg_session (ad_current r);
          r = r\<lparr>ad_sessions := ad_sessions r @ [session_new admin], ad_generation := generation\<rparr>;
          r = (case previous of None \<Rightarrow> r | Some p \<Rightarrow> update_session p session_revoke r)
      in (\<lparr>an_generation = generation, an_session = session\<rparr>, previous,
          r\<lparr>ad_current := Some \<lparr>rg_generation = generation, rg_session = session\<rparr>\<rparr>))"

text \<open>Dropping a registration, up to its wait.\<close>

definition registration_drop :: "admin_registration \<Rightarrow> 'a admin_registry \<Rightarrow> bool \<times> 'a admin_registry" where
  "registration_drop reg r =
     (if (case ad_current r of None \<Rightarrow> False | Some g \<Rightarrow> rg_generation g = an_generation reg)
      then (True, (update_session (an_session reg) session_revoke r)\<lparr>ad_current := None\<rparr>)
      else (False, r))"

subsection \<open>The threads around it\<close>

text \<open>
  Any number of IPC threads hold leases, one per running operation; any number of supervisor calls
  wait for a session; a session whose wait has returned is drained, and its upload worker may then
  be stopped.
\<close>

record 'a admin_threads =
  at_registry :: "'a admin_registry"
  at_leases :: "nat multiset"
  at_waiting :: "nat multiset"
  at_drained :: "nat set"
  at_registrations :: "admin_registration set"

definition admin_start :: "'a admin_threads" where
  "admin_start = \<lparr>at_registry = registry_new, at_leases = {#}, at_waiting = {#}, at_drained = {}, at_registrations = {}\<rparr>"

inductive admin_step :: "'a admin_threads \<Rightarrow> 'a admin_threads \<Rightarrow> bool" where
  operation_starts: "current_upload_admin (at_registry t) = Inr (i, r) \<Longrightarrow>
    admin_step t (t\<lparr>at_registry := r, at_leases := add_mset i (at_leases t)\<rparr>)"
| operation_ends: "i \<in># at_leases t \<Longrightarrow> lease_drop (ad_sessions (at_registry t) ! i) = Some s \<Longrightarrow>
    admin_step t (t\<lparr>at_registry := (at_registry t)\<lparr>ad_sessions := (ad_sessions (at_registry t))[i := s]\<rparr>,
                    at_leases := at_leases t - {#i#}\<rparr>)"
| registering: "register_begin admin (at_registry t) = (reg, previous, r) \<Longrightarrow>
    length (ad_sessions (at_registry t)) < 18446744073709551615 \<Longrightarrow>
    admin_step t (t\<lparr>at_registry := r, at_registrations := insert reg (at_registrations t),
                    at_waiting := (case previous of None \<Rightarrow> at_waiting t | Some p \<Rightarrow> add_mset p (at_waiting t))\<rparr>)"
| dropping: "reg \<in> at_registrations t \<Longrightarrow> registration_drop reg (at_registry t) = (drain, r) \<Longrightarrow>
    admin_step t (t\<lparr>at_registry := r, at_registrations := at_registrations t - {reg},
                    at_waiting := (if drain then add_mset (an_session reg) (at_waiting t) else at_waiting t)\<rparr>)"
| wait_returns: "i \<in># at_waiting t \<Longrightarrow> session_idle (ad_sessions (at_registry t) ! i) \<Longrightarrow>
    admin_step t (t\<lparr>at_waiting := at_waiting t - {#i#}, at_drained := insert i (at_drained t)\<rparr>)"

inductive_cases admin_stepE: "admin_step t t'"

text \<open>
  The counter of a session is the number of leases on it; revoked sessions stay revoked; the
  generation of the registry counts the sessions, and each registration still has its own.
\<close>

definition admin_inv :: "'a admin_threads \<Rightarrow> bool" where
  "admin_inv t \<longleftrightarrow>
     (let r = at_registry t; n = length (ad_sessions r) in
      ad_generation r = n
      \<and> (\<forall>i<n. se_active (ad_sessions r ! i) = count (at_leases t) i)
      \<and> (\<forall>i \<in># at_leases t. i < n)
      \<and> (\<forall>i<n. se_accepting (ad_sessions r ! i) \<longrightarrow> map_option rg_session (ad_current r) = Some i)
      \<and> (case ad_current r of None \<Rightarrow> True | Some g \<Rightarrow> rg_session g < n \<and> rg_generation g = rg_session g + 1)
      \<and> (\<forall>reg \<in> at_registrations t. an_session reg < n \<and> an_generation reg = an_session reg + 1)
      \<and> (\<forall>i \<in># at_waiting t. i < n \<and> \<not> se_accepting (ad_sessions r ! i))
      \<and> (\<forall>i \<in> at_drained t. i < n \<and> \<not> se_accepting (ad_sessions r ! i) \<and> i \<notin># at_leases t))"

lemma admin_start_inv: "admin_inv admin_start"
  by (simp add: admin_inv_def admin_start_def registry_new_def)

lemma admin_invI:
  assumes "ad_generation (at_registry t) = length (ad_sessions (at_registry t))"
    and "\<And>i. i < length (ad_sessions (at_registry t)) \<Longrightarrow> se_active (ad_sessions (at_registry t) ! i) = count (at_leases t) i"
    and "\<And>i. i \<in># at_leases t \<Longrightarrow> i < length (ad_sessions (at_registry t))"
    and "\<And>i. i < length (ad_sessions (at_registry t)) \<Longrightarrow> se_accepting (ad_sessions (at_registry t) ! i) \<Longrightarrow>
           map_option rg_session (ad_current (at_registry t)) = Some i"
    and "\<And>g. ad_current (at_registry t) = Some g \<Longrightarrow>
           rg_session g < length (ad_sessions (at_registry t)) \<and> rg_generation g = rg_session g + 1"
    and "\<And>reg. reg \<in> at_registrations t \<Longrightarrow>
           an_session reg < length (ad_sessions (at_registry t)) \<and> an_generation reg = an_session reg + 1"
    and "\<And>i. i \<in># at_waiting t \<Longrightarrow>
           i < length (ad_sessions (at_registry t)) \<and> \<not> se_accepting (ad_sessions (at_registry t) ! i)"
    and "\<And>i. i \<in> at_drained t \<Longrightarrow> i < length (ad_sessions (at_registry t))
           \<and> \<not> se_accepting (ad_sessions (at_registry t) ! i) \<and> i \<notin># at_leases t"
  shows "admin_inv t"
  using assms unfolding admin_inv_def Let_def by (simp split: option.split) blast?

lemma admin_invD:
  assumes "admin_inv t"
  shows "ad_generation (at_registry t) = length (ad_sessions (at_registry t))"
    and "i < length (ad_sessions (at_registry t)) \<Longrightarrow> se_active (ad_sessions (at_registry t) ! i) = count (at_leases t) i"
    and "i \<in># at_leases t \<Longrightarrow> i < length (ad_sessions (at_registry t))"
    and "i < length (ad_sessions (at_registry t)) \<Longrightarrow> se_accepting (ad_sessions (at_registry t) ! i) \<Longrightarrow>
           map_option rg_session (ad_current (at_registry t)) = Some i"
    and "ad_current (at_registry t) = Some g \<Longrightarrow>
           rg_session g < length (ad_sessions (at_registry t)) \<and> rg_generation g = rg_session g + 1"
    and "reg \<in> at_registrations t \<Longrightarrow>
           an_session reg < length (ad_sessions (at_registry t)) \<and> an_generation reg = an_session reg + 1"
    and "i \<in># at_waiting t \<Longrightarrow>
           i < length (ad_sessions (at_registry t)) \<and> \<not> se_accepting (ad_sessions (at_registry t) ! i)"
    and "i \<in> at_drained t \<Longrightarrow> i < length (ad_sessions (at_registry t))
           \<and> \<not> se_accepting (ad_sessions (at_registry t) ! i) \<and> i \<notin># at_leases t"
  using assms by (simp_all add: admin_inv_def Let_def)

lemma current_upload_admin_InrE:
  assumes "current_upload_admin r = Inr (i, r')"
  obtains g where "ad_current r = Some g" and "i = rg_session g" and "se_accepting (ad_sessions r ! i)"
    and "r' = r\<lparr>ad_sessions := (ad_sessions r)[i := (ad_sessions r ! i)\<lparr>se_active := se_active (ad_sessions r ! i) + 1\<rparr>]\<rparr>"
  using assms by (auto simp: current_upload_admin_def session_acquire_def split: option.splits if_splits)

lemma operation_starts_inv:
  assumes "admin_inv t" and "current_upload_admin (at_registry t) = Inr (i, r)"
  shows "admin_inv (t\<lparr>at_registry := r, at_leases := add_mset i (at_leases t)\<rparr>)"
  using assms(2)
proof (rule current_upload_admin_InrE)
  fix g assume g: "ad_current (at_registry t) = Some g" "i = rg_session g"
    and acc: "se_accepting (ad_sessions (at_registry t) ! i)"
    and r: "r = (at_registry t)\<lparr>ad_sessions := (ad_sessions (at_registry t))[i := (ad_sessions (at_registry t) ! i)
      \<lparr>se_active := se_active (ad_sessions (at_registry t) ! i) + 1\<rparr>]\<rparr>"
  note D = admin_invD [OF assms(1)]
  have n: "i < length (ad_sessions (at_registry t))" using D(5) [OF g(1)] g(2) by simp
  show ?thesis
  proof (rule admin_invI, goal_cases)
    case (8 j)
    then show ?case using D(8) [of j] acc n r by (auto simp: nth_list_update)
  next
    case (2 j)
    then show ?case using D(2) [of j] n r by (auto simp: nth_list_update)
  next
    case (4 j)
    then show ?case using D(4) [of j] n r by (auto simp: nth_list_update split: if_splits)
  next
    case (7 j)
    then show ?case using D(7) [of j] n r by (auto simp: nth_list_update)
  qed (use D(1,3,5,6) n r in auto)
qed

lemma operation_ends_inv:
  assumes "admin_inv t" and "i \<in># at_leases t" and "lease_drop (ad_sessions (at_registry t) ! i) = Some s"
  shows "admin_inv (t\<lparr>at_registry := (at_registry t)\<lparr>ad_sessions := (ad_sessions (at_registry t))[i := s]\<rparr>,
                    at_leases := at_leases t - {#i#}\<rparr>)"
proof -
  note D = admin_invD [OF assms(1)]
  have n: "i < length (ad_sessions (at_registry t))" using D(3) assms(2) by blast
  have s: "s = (ad_sessions (at_registry t) ! i)\<lparr>se_active := se_active (ad_sessions (at_registry t) ! i) - 1\<rparr>"
    using assms(3) by (simp add: lease_drop_def split: if_splits)
  show ?thesis
  proof (rule admin_invI, goal_cases)
    case (2 j)
    then show ?case using D(2) [of j] s n by (auto simp: nth_list_update)
  next
    case (3 j)
    then show ?case using D(3) [of j] by (auto dest: in_diffD)
  next
    case (4 j)
    then show ?case using D(4) [of j] s n by (auto simp: nth_list_update split: if_splits)
  next
    case (7 j)
    then show ?case using D(7) [of j] s n by (auto simp: nth_list_update)
  next
    case (8 j)
    then show ?case using D(8) [of j] s n by (auto simp: nth_list_update dest: in_diffD)
  qed (use D(1,5,6) in auto)
qed

lemma fresh_session_unused: "admin_inv t \<Longrightarrow> count (at_leases t) (length (ad_sessions (at_registry t))) = 0"
  using admin_invD(3) by (meson count_eq_zero_iff less_irrefl)

text \<open>The sessions after a registration: the new one accepts, every other one is revoked.\<close>

lemma register_begin_shape:
  assumes inv: "admin_inv t" and reg: "register_begin admin (at_registry t) = (reg, previous, r)"
    and room: "length (ad_sessions (at_registry t)) < 18446744073709551615"
  shows "reg = \<lparr>an_generation = length (ad_sessions (at_registry t)) + 1, an_session = length (ad_sessions (at_registry t))\<rparr>"
    and "previous = map_option rg_session (ad_current (at_registry t))"
    and "length (ad_sessions r) = length (ad_sessions (at_registry t)) + 1"
    and "ad_generation r = length (ad_sessions (at_registry t)) + 1"
    and "ad_current r = Some \<lparr>rg_generation = length (ad_sessions (at_registry t)) + 1,
                              rg_session = length (ad_sessions (at_registry t))\<rparr>"
    and "ad_sessions r ! length (ad_sessions (at_registry t)) = session_new admin"
    and "i < length (ad_sessions (at_registry t)) \<Longrightarrow> ad_sessions r ! i =
           (if previous = Some i then session_revoke (ad_sessions (at_registry t) ! i) else ad_sessions (at_registry t) ! i)"
  using reg room admin_invD(1,5) [OF inv]
  by (auto simp: register_begin_def update_session_def Let_def nth_append nth_list_update split: option.splits if_splits)

lemma registering_inv:
  assumes inv: "admin_inv t" and reg: "register_begin admin (at_registry t) = (reg, previous, r)"
    and room: "length (ad_sessions (at_registry t)) < 18446744073709551615"
  shows "admin_inv (t\<lparr>at_registry := r, at_registrations := insert reg (at_registrations t),
           at_waiting := (case previous of None \<Rightarrow> at_waiting t | Some p \<Rightarrow> add_mset p (at_waiting t))\<rparr>)"
proof -
  note D = admin_invD [OF inv] and R = register_begin_shape [OF inv reg room]
  let ?n = "length (ad_sessions (at_registry t))"
  have revoked: "\<not> se_accepting (ad_sessions r ! j)" if "j < ?n" for j
    using D(4) [OF that] R(2) R(7) [OF that] by (auto simp: session_revoke_def)
  show ?thesis
  proof (rule admin_invI, goal_cases)
    case (2 j)
    then show ?case
      using D(2) [of j] R(3,6) R(7) [of j] fresh_session_unused [OF inv]
      by (cases "j = ?n") (auto simp: session_new_def session_revoke_def)
  next
    case (3 j)
    then show ?case using D(3) [of j] R(3) by simp
  next
    case (4 j)
    then show ?case using R(3,5) revoked [of j] by (cases "j = ?n") auto
  next
    case (6 reg')
    then show ?case using R(1,3) D(6) [of reg'] by auto
  next
    case (7 j)
    then have "j < ?n" using D(7) [of j] D(5) R(2) by (cases "ad_current (at_registry t)") auto
    then show ?case using revoked R(3) by simp
  next
    case (8 j)
    then show ?case using D(8) [of j] revoked [of j] R(3) by simp
  qed (use R(3,4,5) in auto)
qed

lemma dropping_inv:
  assumes inv: "admin_inv t" and reg: "reg \<in> at_registrations t" and drop: "registration_drop reg (at_registry t) = (drain, r)"
  shows "admin_inv (t\<lparr>at_registry := r, at_registrations := at_registrations t - {reg},
           at_waiting := (if drain then add_mset (an_session reg) (at_waiting t) else at_waiting t)\<rparr>)"
proof (cases "\<exists>g. ad_current (at_registry t) = Some g \<and> rg_generation g = an_generation reg")
  case True
  note D = admin_invD [OF inv]
  obtain g where g: "ad_current (at_registry t) = Some g" "rg_session g = an_session reg"
    using D(5,6) reg True by fastforce
  have r: "drain" "r = (update_session (an_session reg) session_revoke (at_registry t))\<lparr>ad_current := None\<rparr>"
    using True drop by (auto simp: registration_drop_def)
  have revoked: "\<not> se_accepting (ad_sessions r ! j)" if "j < length (ad_sessions (at_registry t))" for j
    using D(4) [OF that] D(6) [OF reg] g r that by (auto simp: update_session_def session_revoke_def nth_list_update)
  show ?thesis
  proof (rule admin_invI, goal_cases)
    case (2 j)
    then show ?case using D(2) [of j] D(6) [OF reg] r by (auto simp: update_session_def session_revoke_def nth_list_update)
  next
    case (4 j)
    then show ?case using revoked [of j] r by (auto simp: update_session_def)
  next
    case (7 j)
    then have "j < length (ad_sessions (at_registry t))" using D(7) [of j] D(6) [OF reg] r(1) by auto
    then show ?case using revoked [of j] r by (auto simp: update_session_def)
  next
    case (8 j)
    then show ?case using D(8) [of j] revoked [of j] r by (auto simp: update_session_def)
  qed (use D(1,3,6) r in \<open>auto simp: update_session_def\<close>)
next
  case False
  then have "\<not> drain" "r = at_registry t"
    using drop by (auto simp: registration_drop_def split: option.splits if_splits)
  then show ?thesis
    using inv by (auto simp: admin_inv_def Let_def)
qed

lemma admin_step_inv:
  assumes "admin_step t t'" and inv: "admin_inv t"
  shows "admin_inv t'"
  using assms(1)
proof cases
  case (wait_returns i)
  note D = admin_invD [OF inv]
  have "i < length (ad_sessions (at_registry t)) \<and> \<not> se_accepting (ad_sessions (at_registry t) ! i)"
    and "i \<notin># at_leases t"
    using D(2) [of i] D(7) [of i] wait_returns by (auto simp: session_idle_def count_eq_zero_iff)
  then show ?thesis
    unfolding wait_returns(1) by (intro admin_invI) (use D in \<open>auto dest: in_diffD\<close>)
qed (simp_all add: inv operation_starts_inv operation_ends_inv registering_inv dropping_inv)

interpretation sessions: step_system "\<lambda>t. t = admin_start" admin_step admin_inv
  by unfold_locales (auto intro: admin_start_inv admin_step_inv)

text \<open>C30: an upload ledger is closed only when nobody uses it: once the wait for a session has returned -
  because its registration was dropped or replaced - no operation of any IPC client is running
  against it, and none ever starts again, however the threads interleave.\<close>

theorem drained_sessions_stay_unused:
  assumes "admin_step\<^sup>*\<^sup>* admin_start t" and "i \<in> at_drained t" and "admin_step\<^sup>*\<^sup>* t t'"
  shows "i \<notin># at_leases t' \<and> (\<forall>r. current_upload_admin (at_registry t') \<noteq> Inr (i, r))"
proof -
  have keep: "at_drained t \<subseteq> at_drained t'" if "admin_step t t'" for t t' :: "'a admin_threads"
    using that by cases auto
  have drained: "i \<in> at_drained t'" using assms(3,2)
  proof (induction rule: rtranclp_induct)
    case (step y z)
    then show ?case using keep by blast
  qed simp
  have "admin_step\<^sup>*\<^sup>* admin_start t'" using assms(1,3) by (rule rtranclp_trans)
  then have inv: "admin_inv t'" by (rule sessions.reachable_inv [OF refl])
  have "i \<notin># at_leases t'" using admin_invD(8) [OF inv drained] by blast
  moreover have "current_upload_admin (at_registry t') \<noteq> Inr (i, r)" for r
    using admin_invD(8) [OF inv drained] by (auto elim: current_upload_admin_InrE)
  ultimately show ?thesis by blast
qed

text \<open>A ledger is registered, used by one operation, dropped and drained.\<close>

definition drained_demo :: "string admin_threads" where
  "drained_demo = \<lparr>at_registry = \<lparr>ad_sessions = [\<lparr>se_admin = ''upload.sqlite3'', se_accepting = False, se_active = 0\<rparr>],
     ad_current = None, ad_generation = 1\<rparr>, at_leases = {#}, at_waiting = {#}, at_drained = {0}, at_registrations = {}\<rparr>"

lemma drained_demo_reachable: "admin_step\<^sup>*\<^sup>* admin_start drained_demo"
proof -
  let ?s = "\<lambda>acc n. \<lparr>se_admin = ''upload.sqlite3'', se_accepting = acc, se_active = n\<rparr>"
  let ?reg = "\<lparr>an_generation = 1, an_session = 0\<rparr>"
  let ?cur = "Some \<lparr>rg_generation = 1, rg_session = 0\<rparr>"
  let ?t = "\<lambda>acc n cur leases waiting drained regs. \<lparr>at_registry = \<lparr>ad_sessions = [?s acc n], ad_current = cur, ad_generation = 1\<rparr>,
     at_leases = leases, at_waiting = waiting, at_drained = drained, at_registrations = regs\<rparr>"
  have "admin_step admin_start (?t True 0 ?cur {#} {#} {} {?reg})"
    using registering [where t = admin_start and admin = "''upload.sqlite3''" and reg = ?reg and previous = None
        and r = "\<lparr>ad_sessions = [?s True 0], ad_current = ?cur, ad_generation = 1\<rparr>"]
    by (simp add: admin_start_def registry_new_def register_begin_def session_new_def)
  moreover have "admin_step (?t True 0 ?cur {#} {#} {} {?reg}) (?t True 1 ?cur {#0#} {#} {} {?reg})"
    using operation_starts [where t = "?t True 0 ?cur {#} {#} {} {?reg}" and i = 0
        and r = "\<lparr>ad_sessions = [?s True 1], ad_current = ?cur, ad_generation = 1\<rparr>"]
    by (simp add: current_upload_admin_def session_acquire_def)
  moreover have "admin_step (?t True 1 ?cur {#0#} {#} {} {?reg}) (?t False 1 None {#0#} {#0#} {} {})"
    using dropping [where t = "?t True 1 ?cur {#0#} {#} {} {?reg}" and reg = ?reg and drain = True
        and r = "\<lparr>ad_sessions = [?s False 1], ad_current = None, ad_generation = 1\<rparr>"]
    by (simp add: registration_drop_def update_session_def session_revoke_def)
  moreover have "admin_step (?t False 1 None {#0#} {#0#} {} {}) (?t False 0 None {#} {#0#} {} {})"
    using operation_ends [where t = "?t False 1 None {#0#} {#0#} {} {}" and i = 0 and s = "?s False 0"]
    by (simp add: lease_drop_def)
  moreover have "admin_step (?t False 0 None {#} {#0#} {} {}) drained_demo"
    using wait_returns [where t = "?t False 0 None {#} {#0#} {} {}" and i = 0]
    by (simp add: session_idle_def drained_demo_def)
  ultimately show ?thesis by (meson converse_rtranclp_into_rtranclp rtranclp.rtrancl_refl)
qed

theorem drained_sessions_stay_unused_witness:
  "0 \<in> at_drained drained_demo \<and> 0 \<notin># at_leases drained_demo
   \<and> (\<forall>r. current_upload_admin (at_registry drained_demo) \<noteq> Inr (0, r))"
  using drained_sessions_stay_unused [OF drained_demo_reachable, of 0 drained_demo]
  by (simp add: drained_demo_def)

text \<open>A wait is never stuck: revoking a session leaves only the operations already running, and when the
  last of them ends the wait can return.\<close>

lemma waits_can_return:
  assumes "admin_step\<^sup>*\<^sup>* admin_start t" and "i \<in># at_waiting t"
  shows "(\<exists>t'. admin_step t t' \<and> i \<in> at_drained t') \<or> (i \<in># at_leases t
    \<and> (\<exists>t'. admin_step t t' \<and> count (at_leases t') i < count (at_leases t) i))"
proof (cases "i \<in># at_leases t")
  case True
  have inv: "admin_inv t" using assms(1) by (rule sessions.reachable_inv [OF refl])
  then have "se_active (ad_sessions (at_registry t) ! i) = count (at_leases t) i"
    using admin_invD(2,3) True by blast
  then obtain s where "lease_drop (ad_sessions (at_registry t) ! i) = Some s"
    using True by (simp add: lease_drop_def)
  then have "admin_step t (t\<lparr>at_registry := (at_registry t)\<lparr>ad_sessions := (ad_sessions (at_registry t))[i := s]\<rparr>,
                    at_leases := at_leases t - {#i#}\<rparr>)"
    using True by (rule operation_ends [rotated])
  moreover have "count (at_leases t - {#i#}) i < count (at_leases t) i" using True by simp
  ultimately show ?thesis using True by fastforce
next
  case False
  have inv: "admin_inv t" using assms(1) by (rule sessions.reachable_inv [OF refl])
  then have "session_idle (ad_sessions (at_registry t) ! i)"
    using False assms(2) admin_invD(2,7) [OF inv, of i] by (auto simp: session_idle_def count_eq_zero_iff)
  then have "admin_step t (t\<lparr>at_waiting := at_waiting t - {#i#}, at_drained := insert i (at_drained t)\<rparr>)"
    using assms(2) by (intro wait_returns)
  then show ?thesis by fastforce
qed

end
