(* ===== verification/Discovery.thy ===== *)
theory Discovery
  imports CaptureTiming Imaging Settings LedgerOpen
begin

text \<open>
  Choosing the camera (\<open>CameraDiscovery\<close> and \<open>select_configured_camera\<close> in
  \<open>autopiercam/src/lib.rs\<close>). Scanning the bus opens devices and can hang, so the policy remembers the
  inventory and the selected camera and cools down after a failure. The scan is an argument that
  acts on the outside world; times are nanoseconds of the monotonic clock.
\<close>

subsection \<open>Cameras\<close>

datatype asi_bayer = AsiRg | AsiBg | AsiGr | AsiGb | AsiUnknown int

datatype image_type = Raw8 | Rgb24 | Raw16 | Y8 | UnknownImageType int

record camera_info =
  ci_locator :: "string option"
  ci_serial :: "string option"
  ci_discovery_error :: "string option"
  ci_name :: string
  ci_camera_id :: int
  ci_max_width :: nat
  ci_max_height :: nat
  ci_is_color :: bool
  ci_bayer_pattern :: asi_bayer
  ci_supported_bins :: "int list"
  ci_supported_formats :: "image_type list"
  ci_pixel_size_um :: f64
  ci_has_mechanical_shutter :: bool
  ci_has_st4_port :: bool
  ci_is_cooled :: bool
  ci_is_usb3_camera :: bool
  ci_bit_depth :: int
  ci_is_trigger_camera :: bool

definition core_bayer :: "asi_bayer \<Rightarrow> int + bayer_pattern" where
  "core_bayer pattern =
     (case pattern of AsiRg \<Rightarrow> Inr Rg | AsiBg \<Rightarrow> Inr Bg | AsiGr \<Rightarrow> Inr Gr | AsiGb \<Rightarrow> Inr Gb
      | AsiUnknown v \<Rightarrow> Inl v)"

subsection \<open>Selection\<close>

datatype discovery_error =
    CoolingDown nat string
  | DiscoveryFailed string nat
  | NoCameraMatches
  | SeveralCamerasMatch
  | NoInterfaceLocator

text \<open>\<open>haystack.contains(needle)\<close>.\<close>

definition string_contains :: "string \<Rightarrow> string \<Rightarrow> bool" where
  "string_contains haystack needle \<longleftrightarrow>
     list_ex (\<lambda>k. take (length needle) (drop k haystack) = needle) [0..<Suc (length haystack)]"

definition serial_known :: "camera_info list \<Rightarrow> camera_config \<Rightarrow> bool" where
  "serial_known cameras config \<longleftrightarrow>
     (case cf_serial config of None \<Rightarrow> False
      | Some serial \<Rightarrow> list_ex (\<lambda>c. case ci_serial c of None \<Rightarrow> False
          | Some s \<Rightarrow> eq_ignore_ascii_case s serial) cameras)"

definition matches_identity :: "bool \<Rightarrow> camera_config \<Rightarrow> camera_info \<Rightarrow> bool" where
  "matches_identity known config camera \<longleftrightarrow>
     (case cf_serial config of None \<Rightarrow> True
      | Some serial \<Rightarrow> (case ci_serial camera of None \<Rightarrow> \<not> known
          | Some found \<Rightarrow> eq_ignore_ascii_case found serial))
     \<and> (case cf_name_contains config of None \<Rightarrow> True
        | Some needle \<Rightarrow> string_contains (map ascii_lower (ci_name camera)) (map ascii_lower needle))"

definition matches_id :: "bool \<Rightarrow> camera_config \<Rightarrow> camera_info \<Rightarrow> bool" where
  "matches_id known config camera \<longleftrightarrow>
     known \<or> (case cf_camera_id config of None \<Rightarrow> True | Some n \<Rightarrow> ci_camera_id camera = n)"

text \<open>A stale id under the direct driver: a named model may be verified by its serial after opening.\<close>

definition verify_direct_candidate :: "camera_info list \<Rightarrow> camera_config \<Rightarrow> bool" where
  "verify_direct_candidate cameras config \<longleftrightarrow>
     (let known = serial_known cameras config in
      cf_driver config = ZwoDirect \<and> \<not> known
      \<and> (case cf_serial config of None \<Rightarrow> False | Some s \<Rightarrow> trimmed s \<noteq> [])
      \<and> (case cf_name_contains config of None \<Rightarrow> False | Some s \<Rightarrow> trimmed s \<noteq> [])
      \<and> \<not> list_ex (\<lambda>c. matches_identity known config c \<and> matches_id known config c) cameras)"

definition select_configured_camera ::
  "camera_info list \<Rightarrow> camera_config \<Rightarrow> discovery_error + camera_info" where
  "select_configured_camera cameras config =
     (let known = serial_known cameras config;
          verify = verify_direct_candidate cameras config
      in case filter (\<lambda>c. matches_identity known config c
                        \<and> (matches_id known config c \<or> verify \<and> ci_serial c = None)) cameras of
           [] \<Rightarrow> Inl NoCameraMatches
         | [selected] \<Rightarrow>
             if verify \<and> (case ci_locator selected of None \<Rightarrow> True | Some l \<Rightarrow> l = [])
             then Inl NoInterfaceLocator else Inr selected
         | _ \<Rightarrow> Inl SeveralCamerasMatch)"

subsection \<open>The discovery policy\<close>

record camera_selection =
  cs_driver :: camera_driver
  cs_id :: "int option"
  cs_name :: "string option"
  cs_serial :: "string option"

definition selection_from :: "camera_config \<Rightarrow> camera_selection" where
  "selection_from c = \<lparr>cs_driver = cf_driver c, cs_id = cf_camera_id c, cs_name = cf_name_contains c,
     cs_serial = cf_serial c\<rparr>"

record camera_discovery =
  cd_driver :: "camera_driver option"
  cd_inventory :: "camera_info list option"
  cd_selected :: "(camera_selection \<times> camera_info) option"
  cd_retry_at :: "nat option"
  cd_failures :: nat
  cd_error :: "string option"

definition discovery_default :: camera_discovery where
  "discovery_default = \<lparr>cd_driver = None, cd_inventory = None, cd_selected = None, cd_retry_at = None,
     cd_failures = 0, cd_error = None\<rparr>"

text \<open>Seconds to wait after the given number of failures in a row.\<close>

definition discovery_delay :: "nat \<Rightarrow> nat" where
  "discovery_delay failures = min (300 * 2 ^ (min failures 4 - 1)) 1800"

text \<open>One hardware scan and what is remembered of it.\<close>

definition scan_inventory ::
  "nat \<Rightarrow> ('w \<Rightarrow> (string + camera_info list) \<times> 'w) \<Rightarrow> camera_discovery \<Rightarrow> 'w
     \<Rightarrow> (discovery_error + unit) \<times> camera_discovery \<times> 'w" where
  "scan_inventory now scan d w =
     (let (result, w) = scan w;
          fail = (\<lambda>message.
            let failures = min (cd_failures d + 1) 4294967295;
                delay = discovery_delay failures
            in (Inl (DiscoveryFailed message delay),
                d\<lparr>cd_failures := failures, cd_retry_at := Some (now + seconds delay), cd_error := Some message\<rparr>, w))
      in case result of
           Inl message \<Rightarrow> fail message
         | Inr cameras \<Rightarrow>
             if cameras = [] then fail ''no connected cameras''
             else (Inr (), d\<lparr>cd_inventory := Some cameras, cd_failures := 0, cd_retry_at := None, cd_error := None\<rparr>, w))"

definition discovery_select ::
  "camera_config \<Rightarrow> nat \<Rightarrow> ('w \<Rightarrow> (string + camera_info list) \<times> 'w) \<Rightarrow> camera_discovery \<Rightarrow> 'w
     \<Rightarrow> (discovery_error + camera_info) \<times> camera_discovery \<times> 'w" where
  "discovery_select config now scan d w =
     (let d = (if cd_driver d \<noteq> Some (cf_driver config)
               then discovery_default\<lparr>cd_driver := Some (cf_driver config)\<rparr> else d);
          pick = (\<lambda>d w. ((case cd_inventory d of
             None \<Rightarrow> Inl NoCameraMatches
           | Some cameras \<Rightarrow> select_configured_camera cameras config), d, w))
      in case (case cd_selected d of None \<Rightarrow> None
               | Some (saved, info) \<Rightarrow> if saved = selection_from config then Some info else None) of
           Some info \<Rightarrow> (Inr info, d, w)
         | None \<Rightarrow>
             if cd_inventory d \<noteq> None then pick d w
             else (case (case cd_retry_at d of None \<Rightarrow> None | Some t \<Rightarrow> if t > now then Some t else None) of
                 Some deadline \<Rightarrow>
                   (Inl (CoolingDown ((deadline - now) div 1000000000)
                      (case cd_error d of None \<Rightarrow> ''discovery failed'' | Some e \<Rightarrow> e)), d, w)
               | None \<Rightarrow> (case scan_inventory now scan d w of
                     (Inl e, d, w) \<Rightarrow> (Inl e, d, w)
                   | (Inr _, d, w) \<Rightarrow> pick d w)))"

definition discovery_remember :: "camera_config \<Rightarrow> camera_info \<Rightarrow> camera_discovery \<Rightarrow> camera_discovery" where
  "discovery_remember config info d =
     d\<lparr>cd_selected := Some (selection_from config, info),
       cd_inventory := map_option (map (\<lambda>cached.
         if ci_camera_id cached = ci_camera_id info \<and> ci_locator cached = ci_locator info then info else cached))
         (cd_inventory d)\<rparr>"

end
