(* ===== verification/DiscoveryTheorems.thy ===== *)
theory DiscoveryTheorems
  imports Discovery
begin

text \<open>
  What the discovery policy guarantees: the bus is scanned rarely, whatever the supervisor does, and
  the camera it settles on is never another one than the configuration names.
\<close>

subsection \<open>Selection\<close>

lemma select_configured_camera_Inr:
  "select_configured_camera cameras config = Inr c \<longleftrightarrow>
     filter (\<lambda>c. matches_identity (serial_known cameras config) config c
         \<and> (matches_id (serial_known cameras config) config c
            \<or> verify_direct_candidate cameras config \<and> ci_serial c = None)) cameras = [c]
     \<and> \<not> (verify_direct_candidate cameras config
           \<and> (case ci_locator c of None \<Rightarrow> True | Some l \<Rightarrow> l = []))"
  by (auto simp: select_configured_camera_def Let_def split: list.splits if_splits)

lemma filter_singleton:
  assumes "filter P xs = [c]"
  shows "\<exists>before after. xs = before @ c # after \<and> P c \<and> (\<forall>other \<in> set (before @ after). \<not> P other)"
proof -
  obtain us vs where "xs = us @ c # vs" "\<forall>u \<in> set us. \<not> P u" "P c" "filter P vs = []"
    using assms by (auto simp: filter_eq_Cons_iff)
  then show ?thesis by (intro exI [of _ us] exI [of _ vs]) (auto simp: filter_empty_conv)
qed


definition demo_camera :: camera_info where
  "demo_camera = \<lparr>ci_locator = Some ''1-2'', ci_serial = Some ''0123456789ABCDEF'', ci_discovery_error = None,
     ci_name = ''ZWO ASI676MC'', ci_camera_id = 0, ci_max_width = 3552, ci_max_height = 3552, ci_is_color = True,
     ci_bayer_pattern = AsiRg, ci_supported_bins = [1, 2], ci_supported_formats = [Raw8, Raw16],
     ci_pixel_size_um = Finite 2, ci_has_mechanical_shutter = False, ci_has_st4_port = False, ci_is_cooled = False,
     ci_is_usb3_camera = True, ci_bit_depth = 12, ci_is_trigger_camera = False\<rparr>"

definition demo_selection_config :: camera_config where
  "demo_selection_config = camera_default\<lparr>cf_serial := Some ''0123456789abcdef'', cf_camera_id := Some 7\<rparr>"

lemma demo_selected:
  "select_configured_camera [demo_camera, demo_camera\<lparr>ci_serial := None, ci_camera_id := 7\<rparr>] demo_selection_config = Inr demo_camera"
  by code_simp


subsection \<open>Scanning\<close>

text \<open>
  A history of the policy under one driver: the supervisor asks at times that do not go back, with
  any configuration of that driver and any answer of the bus, and reports cameras it has opened.
  The log has the time and the success of each hardware scan, the latest first.
\<close>

record discovery_trace =
  dt_state :: camera_discovery
  dt_now :: nat
  dt_scans :: "(nat \<times> bool) list"

definition scan_found :: "string + camera_info list \<Rightarrow> bool" where
  "scan_found answer \<longleftrightarrow> (case answer of Inl _ \<Rightarrow> False | Inr cameras \<Rightarrow> cameras \<noteq> [])"

inductive discovery_step :: "camera_driver \<Rightarrow> discovery_trace \<Rightarrow> discovery_trace \<Rightarrow> bool" for driver where
  asking: "cf_driver config = driver \<Longrightarrow> dt_now t \<le> now \<Longrightarrow>
    discovery_select config now (\<lambda>scans. (answer, (now, scan_found answer) # scans)) (dt_state t) (dt_scans t) = (result, d, scans) \<Longrightarrow>
    discovery_step driver t \<lparr>dt_state = d, dt_now = now, dt_scans = scans\<rparr>"
| camera_opened: "cf_driver config = driver \<Longrightarrow>
    discovery_step driver t (t\<lparr>dt_state := discovery_remember config info (dt_state t)\<rparr>)"

definition discovery_start :: discovery_trace where
  "discovery_start = \<lparr>dt_state = discovery_default, dt_now = 0, dt_scans = []\<rparr>"

fun scan_gaps :: "(nat \<times> bool) list \<Rightarrow> bool" where
  "scan_gaps (later # earlier # rest) \<longleftrightarrow>
     \<not> snd earlier \<and> fst earlier + seconds (discovery_delay (length (earlier # rest))) \<le> fst later
     \<and> scan_gaps (earlier # rest)"
| "scan_gaps _ \<longleftrightarrow> True"

definition discovery_inv :: "camera_driver \<Rightarrow> discovery_trace \<Rightarrow> bool" where
  "discovery_inv driver t \<longleftrightarrow>
     (let d = dt_state t; scans = dt_scans t in
      scan_gaps scans
      \<and> (case scans of
           [] \<Rightarrow> cd_inventory d = None \<and> cd_retry_at d = None \<and> cd_failures d = 0 \<and> cd_driver d \<in> {None, Some driver}
         | (time, found) # _ \<Rightarrow> cd_driver d = Some driver
             \<and> (if found then cd_inventory d \<noteq> None
                else cd_inventory d = None \<and> cd_failures d = min (length scans) 4294967295
                  \<and> cd_retry_at d = Some (time + seconds (discovery_delay (length scans))))))"

lemma discovery_delay_capped: "discovery_delay (min n 4294967295) = discovery_delay n"
proof -
  have "min (min n 4294967295) 4 = min n (4 :: nat)" by (auto simp: min_def)
  then show ?thesis by (simp only: discovery_delay_def)
qed

lemma scan_inventory_cases:
  "scan_inventory now scan d w =
     (if scan_found (fst (scan w))
      then (Inr (), d\<lparr>cd_inventory := Some (projr (fst (scan w))), cd_failures := 0, cd_retry_at := None, cd_error := None\<rparr>, snd (scan w))
      else let message = (case fst (scan w) of Inl m \<Rightarrow> m | Inr _ \<Rightarrow> ''no connected cameras'');
               failures = min (cd_failures d + 1) 4294967295
           in (Inl (DiscoveryFailed message (discovery_delay failures)),
               d\<lparr>cd_failures := failures, cd_retry_at := Some (now + seconds (discovery_delay failures)),
                 cd_error := Some message\<rparr>, snd (scan w)))"
  by (auto simp: scan_inventory_def scan_found_def Let_def split: sum.splits prod.splits)

text \<open>What one question does to the state and to the outside world.\<close>

lemma discovery_select_cases:
  assumes "discovery_select config now scan d w = (result, d', w')" and "cd_driver d = Some (cf_driver config)"
  shows "(d' = d \<and> w' = w)
    \<or> (cd_inventory d = None \<and> (\<forall>t. cd_retry_at d = Some t \<longrightarrow> t \<le> now)
       \<and> d' = fst (snd (scan_inventory now scan d w)) \<and> w' = snd (snd (scan_inventory now scan d w)))"
  using assms
  by (auto simp: discovery_select_def Let_def split: option.splits if_splits prod.splits sum.splits)

lemma discovery_select_fresh:
  assumes "cd_driver d \<noteq> Some (cf_driver config)"
  shows "discovery_select config now scan d w
    = discovery_select config now scan (discovery_default\<lparr>cd_driver := Some (cf_driver config)\<rparr>) w"
  using assms by (simp add: discovery_select_def)

lemma asking_inv:
  assumes "discovery_inv driver t" and "cd_driver (dt_state t) = Some driver" and "cf_driver config = driver"
    and "dt_now t \<le> now"
    and "discovery_select config now (\<lambda>scans. (answer, (now, scan_found answer) # scans)) (dt_state t) (dt_scans t) = (result, d, scans)"
  shows "discovery_inv driver \<lparr>dt_state = d, dt_now = now, dt_scans = scans\<rparr>"
proof -
  consider "d = dt_state t" "scans = dt_scans t"
    | "cd_inventory (dt_state t) = None" "\<forall>r. cd_retry_at (dt_state t) = Some r \<longrightarrow> r \<le> now"
      "d = fst (snd (scan_inventory now (\<lambda>scans. (answer, (now, scan_found answer) # scans)) (dt_state t) (dt_scans t)))"
      "scans = (now, scan_found answer) # dt_scans t"
    using discovery_select_cases [OF assms(5)] assms(2,3)
    by (auto simp: scan_inventory_cases Let_def split: if_splits)
  then show ?thesis
  proof cases
    case 1
    then show ?thesis using assms(1) by (simp add: discovery_inv_def)
  next
    case 2
    have gaps: "scan_gaps scans"
    proof (cases "dt_scans t")
      case (Cons s rest)
      then show ?thesis
        using 2 assms(1) by (cases s) (auto simp: discovery_inv_def Let_def split: if_splits)
    qed (simp add: 2)
    have failures: "cd_failures (dt_state t) = min (length (dt_scans t)) 4294967295"
      using 2(1) assms(1) by (auto simp: discovery_inv_def Let_def split: list.splits if_splits)
    show ?thesis
    proof (cases "scan_found answer")
      case True
      then show ?thesis using gaps 2(3,4) assms(2)
        by (simp add: discovery_inv_def scan_inventory_cases)
    next
      case False
      have "min (Suc (cd_failures (dt_state t))) 4294967295 = min (Suc (length (dt_scans t))) 4294967295"
        using failures by simp
      then show ?thesis using False gaps 2(1,3,4) assms(2)
        discovery_delay_capped [of "Suc (length (dt_scans t))"]
        by (simp add: discovery_inv_def scan_inventory_cases Let_def)
    qed
  qed
qed

lemma discovery_step_inv:
  assumes "discovery_step driver t t'" and inv: "discovery_inv driver t"
  shows "discovery_inv driver t'"
  using assms(1)
proof cases
  case (asking config now answer result d scans)
  show ?thesis
  proof (cases "cd_driver (dt_state t) = Some driver")
    case True
    then show ?thesis using asking asking_inv [OF inv] by simp
  next
    case False
    let ?t = "t\<lparr>dt_state := discovery_default\<lparr>cd_driver := Some driver\<rparr>\<rparr>"
    have "dt_scans t = []" using inv False by (auto simp: discovery_inv_def Let_def split: list.splits)
    then have "discovery_inv driver ?t" by (simp add: discovery_inv_def discovery_default_def)
    moreover have "discovery_select config now (\<lambda>scans. (answer, (now, scan_found answer) # scans))
        (discovery_default\<lparr>cd_driver := Some driver\<rparr>) (dt_scans t) = (result, d, scans)"
      using asking(2,4) False
        discovery_select_fresh [of "dt_state t" config now "\<lambda>scans. (answer, (now, scan_found answer) # scans)" "dt_scans t"]
      by simp
    ultimately show ?thesis
      using asking_inv [of driver ?t config now answer result d scans] asking(1,2,3) by simp
  qed
next
  case (camera_opened config info)
  then show ?thesis using inv
    by (cases "dt_scans t") (auto simp: discovery_inv_def discovery_remember_def Let_def split: if_splits)
qed

interpretation discovery: step_system "\<lambda>t. t = discovery_start" "discovery_step driver" "discovery_inv driver" for driver
  by unfold_locales
    (simp add: discovery_inv_def discovery_start_def discovery_default_def, erule (1) discovery_step_inv)

lemma scan_gaps_nth:
  assumes "scan_gaps scans" and "Suc i < length scans"
  shows "\<not> snd (scans ! Suc i) \<and> fst (scans ! Suc i) + seconds (discovery_delay (length scans - Suc i)) \<le> fst (scans ! i)"
  using assms
proof (induction scans arbitrary: i rule: scan_gaps.induct)
  case (1 later earlier rest)
  then show ?case by (cases i) auto
qed auto

text \<open>C37: as long as the driver stays the same, the bus is scanned again only after a failed scan, and
  after the k-th scan not before its delay has passed - five, ten, twenty and then thirty minutes -
  however often capture is restarted, the settings change or a camera is opened in between.\<close>

theorem hardware_scans_back_off:
  assumes "(discovery_step driver)\<^sup>*\<^sup>* discovery_start t" and "Suc i < length (dt_scans t)"
  shows "\<not> snd (dt_scans t ! Suc i)
    \<and> fst (dt_scans t ! Suc i) + seconds (discovery_delay (length (dt_scans t) - Suc i)) \<le> fst (dt_scans t ! i)"
proof -
  have "discovery_inv driver t" using discovery.reachable_inv [OF refl assms(1)] .
  then have "scan_gaps (dt_scans t)" by (simp add: discovery_inv_def Let_def)
  then show ?thesis using assms(2) by (rule scan_gaps_nth)
qed

lemma demo_scans:
  "\<exists>t. (discovery_step ZwoSdk)\<^sup>*\<^sup>* discovery_start t \<and> dt_scans t = [(seconds 400, True), (0, False)]"
proof -
  let ?ask = "\<lambda>now answer. discovery_select camera_default now (\<lambda>scans. (answer, (now, scan_found answer) # scans))"
  obtain r d scans where first: "?ask 0 (Inr []) discovery_default [] = (r, d, scans)" by (metis prod_cases3)
  then have scans: "scans = [(0, False)]" "cd_driver d = Some ZwoSdk" "cd_retry_at d = Some (seconds 300)" "cd_inventory d = None" "cd_selected d = None"
    by (auto simp: discovery_select_def scan_inventory_def discovery_default_def scan_found_def camera_default_def
        discovery_delay_def)
  obtain r' d' scans' where second: "?ask (seconds 400) (Inr [demo_camera]) d scans = (r', d', scans')" by (metis prod_cases3)
  have "scans' = [(seconds 400, True), (0, False)]"
    using second scans by (simp add: discovery_select_def scan_inventory_def scan_found_def camera_default_def seconds_def)
  moreover have "discovery_step ZwoSdk discovery_start \<lparr>dt_state = d, dt_now = 0, dt_scans = scans\<rparr>"
    using first by (intro asking [where config = camera_default]) (simp_all add: discovery_start_def camera_default_def)
  moreover have "discovery_step ZwoSdk \<lparr>dt_state = d, dt_now = 0, dt_scans = scans\<rparr>
      \<lparr>dt_state = d', dt_now = seconds 400, dt_scans = scans'\<rparr>"
    using second by (intro asking [where config = camera_default]) (simp_all add: camera_default_def)
  ultimately show ?thesis
    by (metis (no_types, lifting) converse_rtranclp_into_rtranclp discovery_trace.select_convs(3) r_into_rtranclp)
qed

theorem hardware_scans_back_off_witness:
  "\<exists>t. (discovery_step ZwoSdk)\<^sup>*\<^sup>* discovery_start t \<and> length (dt_scans t) = 2 \<and> \<not> snd (dt_scans t ! 1)
     \<and> fst (dt_scans t ! 1) + seconds 300 \<le> fst (dt_scans t ! 0)"
proof -
  obtain t where t: "(discovery_step ZwoSdk)\<^sup>*\<^sup>* discovery_start t" "dt_scans t = [(seconds 400, True), (0, False)]"
    using demo_scans by blast
  then show ?thesis using hardware_scans_back_off [OF t(1), of 0] by (intro exI [of _ t]) (simp add: discovery_delay_def)
qed

end
