(* ===== verification/Effects.thy ===== *)
theory Effects
  imports Prelude
begin

text \<open>
  Code that acts on a state, may leave early and may loop for ever: a function from the state to an
  optional pair of a result and the new state. No pair means that it does not return; a left result
  is an early exit (an error under the question-mark operator, a \<open>break\<close>, a \<open>return\<close>). The locale
  states once how a relation between the state before and the state after passes through a body.
\<close>

type_synonym ('r, 'e, 'a) effect = "'r \<Rightarrow> (('e + 'a) \<times> 'r) option"

definition ereturn :: "'a \<Rightarrow> ('r, 'e, 'a) effect" where
  "ereturn x = (\<lambda>r. Some (Inr x, r))"

definition eexit :: "'e \<Rightarrow> ('r, 'e, 'a) effect" where
  "eexit e = (\<lambda>r. Some (Inl e, r))"

definition ebind :: "('r, 'e, 'a) effect \<Rightarrow> ('a \<Rightarrow> ('r, 'e, 'b) effect) \<Rightarrow> ('r, 'e, 'b) effect" where
  "ebind m f = (\<lambda>r. Option.bind (m r) (\<lambda>(x, r). case x of Inl e \<Rightarrow> Some (Inl e, r) | Inr y \<Rightarrow> f y r))"

definition eget :: "('r \<Rightarrow> 'a) \<Rightarrow> ('r, 'e, 'a) effect" where
  "eget f = (\<lambda>r. Some (Inr (f r), r))"

definition eupdate :: "('r \<Rightarrow> 'r) \<Rightarrow> ('r, 'e, unit) effect" where
  "eupdate f = (\<lambda>r. Some (Inr (), f r))"

text \<open>A computation on the whole state.\<close>

definition elift :: "('r \<Rightarrow> 'a \<times> 'r) \<Rightarrow> ('r, 'e, 'a) effect" where
  "elift f = (\<lambda>r. case f r of (x, r) \<Rightarrow> Some (Inr x, r))"

text \<open>\<open>if c { statement }\<close>.\<close>

definition ewhen :: "bool \<Rightarrow> ('r, 'e, unit) effect \<Rightarrow> ('r, 'e, unit) effect" where
  "ewhen c m = (if c then m else ereturn ())"

text \<open>\<open>if c { leave with e }\<close>, and \<open>r.map_err(e)?\<close>.\<close>

definition eguard :: "bool \<Rightarrow> 'e \<Rightarrow> ('r, 'e, unit) effect" where
  "eguard c e = (if c then eexit e else ereturn ())"

definition etry :: "('x \<Rightarrow> 'e) \<Rightarrow> 'x + 'a \<Rightarrow> ('r, 'e, 'a) effect" where
  "etry f x = (case x of Inl e \<Rightarrow> eexit (f e) | Inr y \<Rightarrow> ereturn y)"

named_theorems effect_simps \<open>running the primitive effects\<close>

lemma ereturn_run [effect_simps]: "ereturn x r = Some (Inr x, r)"
  by (simp add: ereturn_def)

lemma eexit_run [effect_simps]: "eexit e r = Some (Inl e, r)"
  by (simp add: eexit_def)

lemma eget_run [effect_simps]: "eget f r = Some (Inr (f r), r)"
  by (simp add: eget_def)

lemma eupdate_run [effect_simps]: "eupdate f r = Some (Inr (), f r)"
  by (simp add: eupdate_def)

lemma elift_run [effect_simps]: "elift f r = Some (Inr (fst (f r)), snd (f r))"
  by (simp add: elift_def split: prod.split)

lemma ewhen_run [effect_simps]: "ewhen c m r = (if c then m r else Some (Inr (), r))"
  by (simp add: ewhen_def ereturn_def)

lemma eguard_run [effect_simps]: "eguard c e r = (if c then Some (Inl e, r) else Some (Inr (), r))"
  by (simp add: eguard_def ereturn_def eexit_def)

lemma etry_run [effect_simps]: "etry f x r = (case x of Inl e \<Rightarrow> Some (Inl (f e), r) | Inr y \<Rightarrow> Some (Inr y, r))"
  by (simp add: etry_def ereturn_def eexit_def split: sum.split)

lemma ebind_run [effect_simps]:
  "ebind m f r = (case m r of None \<Rightarrow> None | Some (Inl e, r') \<Rightarrow> Some (Inl e, r') | Some (Inr y, r') \<Rightarrow> f y r')"
  by (simp add: ebind_def Option.bind_def split: option.split)

lemma ebind_Inr:
  "ebind m f r = Some (Inr x, r') \<longleftrightarrow> (\<exists>y r1. m r = Some (Inr y, r1) \<and> f y r1 = Some (Inr x, r'))"
  by (auto simp: effect_simps split: option.splits sum.splits prod.splits)

text \<open>A loop: its body yields the result or the variables of the next round.\<close>

partial_function (option) eloop ::
  "('s \<Rightarrow> ('r, 'e, 'a + 's) effect) \<Rightarrow> 's \<Rightarrow> 'r \<Rightarrow> (('e + 'a) \<times> 'r) option" where
  "eloop body s r =
     Option.bind (body s r) (\<lambda>(x, r).
       case x of
         Inl e \<Rightarrow> Some (Inl e, r)
       | Inr (Inl result) \<Rightarrow> Some (Inr result, r)
       | Inr (Inr s) \<Rightarrow> eloop body s r)"

text \<open>What holds for every result of the body that ends the loop holds for the result of the loop.\<close>

lemma eloop_induct:
  fixes body :: "'s \<Rightarrow> ('r, 'e, 'a + 's) effect"
  assumes run: "eloop body s r = Some (x, r')"
    and start: "P s r"
    and again: "\<And>s r s' r'. P s r \<Longrightarrow> body s r = Some (Inr (Inr s'), r') \<Longrightarrow> P s' r'"
    and stop: "\<And>s r e r'. P s r \<Longrightarrow> body s r = Some (Inl e, r') \<Longrightarrow> Q (Inl e) r'"
    and result: "\<And>s r y r'. P s r \<Longrightarrow> body s r = Some (Inr (Inl y), r') \<Longrightarrow> Q (Inr y) r'"
  shows "Q x r'"
proof -
  have "b = body \<longrightarrow> P s r \<longrightarrow> Q (fst y) (snd y)" if "eloop b s r = Some y" for b s r y
  proof (rule eloop.raw_induct [where P = "\<lambda>b s r y. b = body \<longrightarrow> P s r \<longrightarrow> Q (fst y) (snd y)"])
    fix loop :: "('s \<Rightarrow> ('r, 'e, 'a + 's) effect) \<Rightarrow> 's \<Rightarrow> 'r \<Rightarrow> (('e + 'a) \<times> 'r) option" and b s r y
    assume IH: "\<And>b s r y. loop b s r = Some y \<Longrightarrow> b = body \<longrightarrow> P s r \<longrightarrow> Q (fst y) (snd y)"
      and run: "Option.bind (b s r) (\<lambda>(x, r). case x of Inl e \<Rightarrow> Some (Inl e, r)
        | Inr (Inl result) \<Rightarrow> Some (Inr result, r) | Inr (Inr s) \<Rightarrow> loop b s r) = Some y"
    show "b = body \<longrightarrow> P s r \<longrightarrow> Q (fst y) (snd y)"
    proof (intro impI)
      assume b: "b = body" and P: "P s r"
      obtain x r' where step: "body s r = Some (x, r')"
        using run b by (cases "body s r") auto
      consider (stop) e where "x = Inl e" | (result) v where "x = Inr (Inl v)" | (again) s' where "x = Inr (Inr s')"
        by (metis sum.exhaust)
      then show "Q (fst y) (snd y)"
      proof cases
        case stop
        then show ?thesis using run b step assms(4) [OF P] by auto
      next
        case result
        then show ?thesis using run b step assms(5) [OF P] by auto
      next
        case again
        then show ?thesis using run IH b step assms(3) [OF P] by auto
      qed
    qed
  qed (rule that)
  then show ?thesis using run start by fastforce
qed

subsection \<open>What an effect keeps\<close>

locale kept =
  fixes R :: "'r \<Rightarrow> 'r \<Rightarrow> bool"
  assumes kept_refl: "R r r"
    and kept_trans: "R r s \<Longrightarrow> R s t \<Longrightarrow> R r t"
begin

definition keeps :: "('r, 'e, 'a) effect \<Rightarrow> bool" where
  "keeps m \<longleftrightarrow> (\<forall>r x r'. m r = Some (x, r') \<longrightarrow> R r r')"

lemma keepsI: "(\<And>r x r'. m r = Some (x, r') \<Longrightarrow> R r r') \<Longrightarrow> keeps m"
  by (simp add: keeps_def)

lemma keepsD: "keeps m \<Longrightarrow> m r = Some (x, r') \<Longrightarrow> R r r'"
  by (simp add: keeps_def)

lemma keeps_return: "keeps (ereturn x)"
  by (simp add: keeps_def effect_simps kept_refl)

lemma keeps_exit: "keeps (eexit e)"
  by (simp add: keeps_def effect_simps kept_refl)

lemma keeps_get: "keeps (eget f)"
  by (simp add: keeps_def effect_simps kept_refl)

lemma keeps_update: "(\<And>r. R r (f r)) \<Longrightarrow> keeps (eupdate f)"
  by (simp add: keeps_def effect_simps)

lemma keeps_lift: "(\<And>r. R r (snd (f r))) \<Longrightarrow> keeps (elift f)"
  by (simp add: keeps_def effect_simps)

lemma keeps_bind: "keeps m \<Longrightarrow> (\<And>x. keeps (k x)) \<Longrightarrow> keeps (ebind m k)"
  unfolding keeps_def
  by (fastforce simp: effect_simps split: option.splits sum.splits prod.splits intro: kept_trans)

lemma keeps_when: "(c \<Longrightarrow> keeps m) \<Longrightarrow> keeps (ewhen c m)"
  by (cases c) (simp_all add: ewhen_def keeps_return)

lemma keeps_guard: "keeps (eguard c e)"
  by (simp add: eguard_def keeps_return keeps_exit)

lemma keeps_try: "keeps (etry f x)"
  by (cases x) (simp_all add: etry_def keeps_return keeps_exit)

lemma keeps_if: "(c \<Longrightarrow> keeps m) \<Longrightarrow> (\<not> c \<Longrightarrow> keeps n) \<Longrightarrow> keeps (if c then m else n)"
  by simp

lemma keeps_option: "(x = None \<Longrightarrow> keeps m) \<Longrightarrow> (\<And>y. x = Some y \<Longrightarrow> keeps (n y)) \<Longrightarrow> keeps (case x of None \<Rightarrow> m | Some y \<Rightarrow> n y)"
  by (cases x) simp_all

lemma keeps_sum: "(\<And>y. x = Inl y \<Longrightarrow> keeps (m y)) \<Longrightarrow> (\<And>y. x = Inr y \<Longrightarrow> keeps (n y)) \<Longrightarrow> keeps (case x of Inl y \<Rightarrow> m y | Inr y \<Rightarrow> n y)"
  by (cases x) simp_all

lemma keeps_prod: "(\<And>a b. x = (a, b) \<Longrightarrow> keeps (f a b)) \<Longrightarrow> keeps (case x of (a, b) \<Rightarrow> f a b)"
  by (cases x) simp

lemma keeps_let: "(\<And>y. keeps (f y)) \<Longrightarrow> keeps (let y = x in f y)"
  by (simp add: Let_def)

lemma keeps_loop:
  assumes "\<And>s. keeps (body s)"
  shows "keeps (eloop body s)"
proof (rule keepsI)
  fix r x r' assume "eloop body s r = Some (x, r')"
  then show "R r r'"
    by (rule eloop_induct [where P = "\<lambda>_. R r" and Q = "\<lambda>_. R r"])
      (use keepsD [OF assms] kept_trans kept_refl in blast)+
qed

lemmas keeps_intros = keeps_return keeps_exit keeps_get keeps_bind keeps_when keeps_guard keeps_try keeps_if keeps_option
  keeps_sum keeps_prod keeps_let

end

subsection \<open>What an effect yields\<close>

definition yields :: "('a \<Rightarrow> bool) \<Rightarrow> ('r, 'e, 'a) effect \<Rightarrow> bool" where
  "yields P m \<longleftrightarrow> (\<forall>r x r'. m r = Some (Inr x, r') \<longrightarrow> P x)"

lemma yieldsD: "yields P m \<Longrightarrow> m r = Some (Inr x, r') \<Longrightarrow> P x"
  by (auto simp: yields_def)

lemma yields_any: "yields (\<lambda>_. True) m"
  by (simp add: yields_def)

lemma yields_return: "P x \<Longrightarrow> yields P (ereturn x)"
  by (simp add: yields_def effect_simps)

lemma yields_exit: "yields P (eexit e)"
  by (simp add: yields_def effect_simps)

lemma yields_bind: "yields Q m \<Longrightarrow> (\<And>x. Q x \<Longrightarrow> yields P (k x)) \<Longrightarrow> yields P (ebind m k)"
  unfolding yields_def by (fastforce simp: effect_simps split: option.splits sum.splits prod.splits)

lemma yields_then: "(\<And>x. yields P (k x)) \<Longrightarrow> yields P (ebind m k)"
  by (rule yields_bind [OF yields_any])

lemma yields_if: "(c \<Longrightarrow> yields P m) \<Longrightarrow> (\<not> c \<Longrightarrow> yields P n) \<Longrightarrow> yields P (if c then m else n)"
  by simp

lemma yields_prod: "(\<And>a b. x = (a, b) \<Longrightarrow> yields P (f a b)) \<Longrightarrow> yields P (case x of (a, b) \<Rightarrow> f a b)"
  by (cases x) simp

lemma yields_let: "(\<And>y. yields P (f y)) \<Longrightarrow> yields P (let y = x in f y)"
  by (simp add: Let_def)

end
