(* ===== verification/CaptureLoop.thy ===== *)
theory CaptureLoop
  imports Effects Monitor AdaptiveExposure Discovery FrameName
begin

text \<open>
  The loop that owns the camera (\<open>capture_loop\<close>, \<open>wait_for_auto_settle\<close>, \<open>CaptureProgress\<close>,
  \<open>CaptureObserver\<close> and \<open>CaptureLoopState\<close> in \<open>autopiercam/src/lib.rs\<close>). Everything the loop asks of
  its surroundings - the clocks, the operator's flags, the configuration file, the other workers and
  the camera driver - is a field of \<open>capture_world\<close>: it answers from, and may change, a state of
  which nothing is assumed. Times are nanoseconds of the monotonic clock.
\<close>

subsection \<open>Frames and jobs\<close>

record frame_meta =
  fm_conservative_start_unix_ms :: "nat option"
  fm_width :: nat
  fm_height :: nat
  fm_image_type :: image_type
  fm_settings_settled :: bool

record completed_frame =
  fr_meta :: frame_meta
  fr_data :: "u8 list"
  fr_captured_at_unix_ms :: nat
  fr_exposure_us :: int
  fr_gain :: int

record overlay = ov_lines :: "string list"

record capture_job =
  cj_overlay :: "overlay option"
  cj_sequence :: nat
  cj_width :: nat
  cj_height :: nat
  cj_bayer :: bayer_pattern
  cj_data :: "u8 list"
  cj_output :: string
  cj_jpeg_quality :: nat
  cj_raw16 :: bool

record preview_job =
  pj_conservative_start_unix_ms :: "nat option"
  pj_width :: nat
  pj_height :: nat
  pj_bayer :: bayer_pattern
  pj_data :: "u8 list"
  pj_raw16 :: bool
  pj_captured_at_unix_ms :: nat
  pj_exposure_us :: int
  pj_gain :: int
  pj_settings_settled :: bool
  pj_mode :: preview_mode

subsection \<open>The surroundings\<close>

datatype control_type = ControlType int

abbreviation GainControl :: control_type where
  "GainControl \<equiv> ControlType 0"

abbreviation ExposureControl :: control_type where
  "ExposureControl \<equiv> ControlType 1"

abbreviation FlipControl :: control_type where
  "FlipControl \<equiv> ControlType 9"

record control_caps =
  cc_name :: string
  cc_min_value :: int
  cc_max_value :: int
  cc_auto_supported :: bool
  cc_writable :: bool
  cc_control_type :: control_type

datatype poll_answer = PolledFrame frame_meta "u8 list" | PollTimeout | PollFailed string

datatype send_answer = SendOk | SendFull | SendDisconnected

text \<open>A control value is its number and whether it is automatic.\<close>

record 'w capture_world =
  wd_now :: "'w \<Rightarrow> nat \<times> 'w"
  wd_unix_nanos :: "'w \<Rightarrow> nat \<times> 'w"
  wd_sleep :: "nat \<Rightarrow> 'w \<Rightarrow> unit \<times> 'w"
  wd_shutdown :: "'w \<Rightarrow> bool \<times> 'w"
  wd_paused :: "'w \<Rightarrow> bool \<times> 'w"
  wd_reload_pending :: "'w \<Rightarrow> bool \<times> 'w"
  wd_take_reload :: "'w \<Rightarrow> bool \<times> 'w"
  wd_generation :: "'w \<Rightarrow> nat \<times> 'w"
  wd_load :: "'w \<Rightarrow> (string + settings) \<times> 'w"
  wd_suspended :: "'w \<Rightarrow> bool \<times> 'w"
  wd_video_finished :: "'w \<Rightarrow> bool \<times> 'w"
  wd_preview_stopped :: "'w \<Rightarrow> bool \<times> 'w"
  wd_upload_stopped :: "'w \<Rightarrow> bool \<times> 'w"
  wd_retention_stopped :: "'w \<Rightarrow> bool \<times> 'w"
  wd_is_direct :: "'w \<Rightarrow> bool \<times> 'w"
  wd_controls :: "'w \<Rightarrow> (string + control_caps list) \<times> 'w"
  wd_control_value :: "control_type \<Rightarrow> 'w \<Rightarrow> (string + int \<times> bool) \<times> 'w"
  wd_set_control :: "control_type \<Rightarrow> int \<Rightarrow> bool \<Rightarrow> 'w \<Rightarrow> (string + unit) \<times> 'w"
  wd_pacing_allowance :: "'w \<Rightarrow> nat \<times> 'w"
  wd_set_max_fps :: "f64 \<Rightarrow> 'w \<Rightarrow> (string + unit) \<times> 'w"
  wd_pause_between_frames :: "'w \<Rightarrow> (string + unit) \<times> 'w"
  wd_start_capture :: "'w \<Rightarrow> (string + unit) \<times> 'w"
  wd_poll_frame :: "int \<Rightarrow> 'w \<Rightarrow> poll_answer \<times> 'w"
  wd_try_send :: "capture_job \<Rightarrow> 'w \<Rightarrow> send_answer \<times> 'w"
  wd_try_publish :: "preview_job \<Rightarrow> 'w \<Rightarrow> unit \<times> 'w"
  wd_overlay_for :: "nat \<Rightarrow> 'w \<Rightarrow> overlay option \<times> 'w"
  wd_startup_mode :: "camera_config \<Rightarrow> 'w \<Rightarrow> light_mode option \<times> 'w"

subsection \<open>The state of the loop\<close>

record capture_progress =
  cp_started :: nat
  cp_wait :: frame_wait
  cp_status :: status_exposure
  cp_last_completed_at :: "nat option"

record capture_observer =
  co_bayer :: bayer_pattern
  co_has_preview :: bool
  co_preview_cadence :: preview_cadence
  co_preview_max_fps :: f64
  co_adaptive :: "adaptive_exposure option"
  co_sdk_mode :: exposure_mode
  co_mode_started :: nat

record capture_loop_state =
  ls_settled :: bool
  ls_initial_mode :: "light_mode option"
  ls_preview_cadence :: preview_cadence
  ls_adaptive :: "adaptive_exposure option"
  ls_seen_capture_generation :: nat
  ls_next_capture :: nat
  ls_queued :: nat

text \<open>The jobs are those the writer has accepted.\<close>

record 'w capture_run =
  cr_world :: 'w
  cr_config :: settings
  cr_limits :: auto_limits
  cr_progress :: capture_progress
  cr_observer :: capture_observer
  cr_monitor :: agent_monitor
  cr_state :: capture_loop_state
  cr_pending :: "completed_frame option"
  cr_jobs :: "capture_job list"

text \<open>What stays fixed during a recording epoch.\<close>

record capture_context =
  cx_directory :: string
  cx_nonce_hex :: string
  cx_max_frames :: "nat option"
  cx_preview_session_generation :: nat

text \<open>How a pass or the settling wait ends early.\<close>

datatype loop_exit =
    CaptureFailed string
  | DeadlinePassed nat
  | Panicked
  | NextPass
  | LeaveLoop
  | LeaveWith bool

type_synonym ('w, 'a) capture = "('w capture_run, loop_exit, 'a) effect"

text \<open>One question to the surroundings; one that may fail.\<close>

definition ask :: "('w \<Rightarrow> 'a \<times> 'w) \<Rightarrow> ('w, 'a) capture" where
  "ask f = elift (\<lambda>r. case f (cr_world r) of (x, w) \<Rightarrow> (x, r\<lparr>cr_world := w\<rparr>))"

definition attempt :: "('w \<Rightarrow> (string + 'a) \<times> 'w) \<Rightarrow> ('w, 'a) capture" where
  "attempt f = ebind (ask f) (etry CaptureFailed)"

lemma ask_run [effect_simps]:
  "ask f r = Some (Inr (fst (f (cr_world r))), r\<lparr>cr_world := snd (f (cr_world r))\<rparr>)"
  by (simp add: ask_def effect_simps split_beta)

subsection \<open>Progress\<close>

definition current_exposure :: "'w capture_world \<Rightarrow> int \<Rightarrow> ('w, int) capture" where
  "current_exposure W fallback_us =
     ebind (ask (wd_control_value W ExposureControl)) (\<lambda>value.
     ereturn (case value of Inl _ \<Rightarrow> max fallback_us 1
       | Inr (v, _) \<Rightarrow> if v > 0 then v else max fallback_us 1))"

definition current_gain :: "'w capture_world \<Rightarrow> int \<Rightarrow> ('w, int) capture" where
  "current_gain W fallback =
     ebind (ask (wd_control_value W GainControl)) (\<lambda>value.
     ereturn (case value of Inl _ \<Rightarrow> fallback | Inr (v, _) \<Rightarrow> v))"

definition set_progress :: "(capture_progress \<Rightarrow> capture_progress) \<Rightarrow> 'w capture_run \<Rightarrow> 'w capture_run" where
  "set_progress f r = r\<lparr>cr_progress := f (cr_progress r)\<rparr>"

definition set_wait :: "(frame_wait \<Rightarrow> frame_wait) \<Rightarrow> 'w capture_run \<Rightarrow> 'w capture_run" where
  "set_wait f = set_progress (\<lambda>p. p\<lparr>cp_wait := f (cp_wait p)\<rparr>)"

definition set_exposure_status :: "(status_exposure \<Rightarrow> status_exposure) \<Rightarrow> 'w capture_run \<Rightarrow> 'w capture_run" where
  "set_exposure_status f = set_progress (\<lambda>p. p\<lparr>cp_status := f (cp_status p)\<rparr>)"

text \<open>\<open>CaptureProgress::new\<close>.\<close>

definition progress_new :: "'w capture_world \<Rightarrow> auto_limits \<Rightarrow> nat \<Rightarrow> nat \<Rightarrow> ('w, capture_progress) capture" where
  "progress_new W limits session_generation minimum_frames =
     ebind (current_exposure W (al_max_exposure_us limits)) (\<lambda>exposure_us.
     ebind (current_gain W (al_min_gain limits)) (\<lambda>gain.
     ebind (ask (wd_now W)) (\<lambda>now.
     ereturn \<lparr>cp_started = now, cp_wait = frame_wait_new exposure_us,
       cp_status = \<lparr>sx_session_generation = session_generation, sx_settling = True, sx_exposure_us = exposure_us,
         sx_gain = gain, sx_max_exposure_us = al_max_exposure_us limits, sx_settling_frames = 0,
         sx_settling_min_frames = max minimum_frames 4, sx_wait_elapsed_ms = 0, sx_frame_timeout_ms = 0\<rparr>,
       cp_last_completed_at = None\<rparr>)))"

definition progress_refresh :: "'w capture_world \<Rightarrow> auto_limits \<Rightarrow> ('w, unit) capture" where
  "progress_refresh W limits =
     ebind (current_exposure W (al_max_exposure_us limits)) (\<lambda>exposure_us.
     ebind (eupdate (set_exposure_status (\<lambda>s. s\<lparr>sx_exposure_us := exposure_us\<rparr>))) (\<lambda>_.
     ebind (eget (\<lambda>r. sx_gain (cp_status (cr_progress r)))) (\<lambda>known_gain.
     ebind (current_gain W known_gain) (\<lambda>gain.
     ebind (eupdate (set_exposure_status (\<lambda>s. s\<lparr>sx_gain := gain\<rparr>))) (\<lambda>_.
     ebind (eupdate (set_wait (observe_exposure exposure_us))) (\<lambda>_.
     ebind (ask (wd_pacing_allowance W)) (\<lambda>pacing.
     eupdate (set_wait (set_pacing_allowance pacing)))))))))"

definition progress_publish :: "'w capture_world \<Rightarrow> ('w, unit) capture" where
  "progress_publish W =
     ebind (ask (wd_now W)) (\<lambda>now.
     ebind (eget cr_progress) (\<lambda>p.
     ebind (ask (wd_now W)) (\<lambda>published_at.
     eupdate (\<lambda>r. r\<lparr>cr_monitor := exposure_progress ((cp_status p)
         \<lparr>sx_wait_elapsed_ms := duration_millis (wait_elapsed (now - cp_started p) (cp_wait p)),
          sx_frame_timeout_ms := duration_millis (wait_timeout (cp_wait p))\<rparr>) published_at (cr_monitor r)\<rparr>))))"

text \<open>\<open>CaptureProgress::completed_frame\<close>.\<close>

definition progress_completed_frame :: "'w capture_world \<Rightarrow> frame_meta \<Rightarrow> u8 list \<Rightarrow> ('w, completed_frame) capture" where
  "progress_completed_frame W meta data =
     ebind (ask (wd_now W)) (\<lambda>completed.
     ebind (eupdate (set_progress (\<lambda>p. p\<lparr>cp_last_completed_at := Some completed\<rparr>))) (\<lambda>_.
     ebind (ask (wd_now W)) (\<lambda>now.
     ebind (eupdate (\<lambda>r. set_wait (frame_received (now - cp_started (cr_progress r))) r)) (\<lambda>_.
     ebind (ask (wd_unix_nanos W)) (\<lambda>unix.
     ebind (eget (\<lambda>r. cp_status (cr_progress r))) (\<lambda>status.
     ereturn \<lparr>fr_meta = meta, fr_data = data, fr_captured_at_unix_ms = duration_millis unix,
       fr_exposure_us = sx_exposure_us status, fr_gain = sx_gain status\<rparr>))))))"

text \<open>How long the acquisition still has to wait; asked again after every nap.\<close>

definition pace_remaining :: "'w capture_world \<Rightarrow> nat \<Rightarrow> f64 \<Rightarrow> nat option \<Rightarrow> nat option \<Rightarrow> ('w, nat) capture" where
  "pace_remaining W completed max_fps seen_generation still_due =
     ebind (ask (wd_now W)) (\<lambda>now.
     ebind (eget (\<lambda>r. sx_exposure_us (cp_status (cr_progress r)))) (\<lambda>exposure_us.
     ebind (case seen_generation of None \<Rightarrow> ereturn False
        | Some seen \<Rightarrow> ebind (ask (wd_generation W)) (\<lambda>generation. ereturn (generation \<noteq> seen))) (\<lambda>requested.
     ereturn (acquisition_delay (now - completed) exposure_us max_fps
       (map_option (\<lambda>due. due - now) still_due) requested))))"

text \<open>One round of the idle loop: whether it ends, or another round follows.\<close>

definition pace_round ::
  "'w capture_world \<Rightarrow> nat \<Rightarrow> f64 \<Rightarrow> nat option \<Rightarrow> nat option \<Rightarrow> unit \<Rightarrow> ('w, unit + unit) capture" where
  "pace_round W completed max_fps seen_generation still_due _ =
     ebind (ask (wd_shutdown W)) (\<lambda>shutdown.
     ebind (if shutdown \<or> seen_generation = None then ereturn shutdown else ask (wd_reload_pending W)) (\<lambda>stop.
     if stop then ereturn (Inl ())
     else ebind (pace_remaining W completed max_fps seen_generation still_due) (\<lambda>delay.
       if delay = 0 then ereturn (Inl ())
       else ebind (ask (wd_now W)) (\<lambda>idle_started.
         ebind (ask (wd_sleep W (min delay (millis 25)))) (\<lambda>_.
         ebind (ask (wd_now W)) (\<lambda>now.
         ebind (eupdate (set_wait (defer_by (now - idle_started)))) (\<lambda>_.
         ebind (progress_publish W) (\<lambda>_.
         ereturn (Inr ())))))))))"

definition pace_loop :: "'w capture_world \<Rightarrow> nat \<Rightarrow> f64 \<Rightarrow> nat option \<Rightarrow> nat option \<Rightarrow> ('w, unit) capture" where
  "pace_loop W completed max_fps seen_generation still_due =
     eloop (pace_round W completed max_fps seen_generation still_due) ()"

text \<open>\<open>CaptureProgress::pace_acquisition\<close>; the control is always present here.\<close>

definition pace_acquisition :: "'w capture_world \<Rightarrow> f64 \<Rightarrow> nat option \<Rightarrow> nat option \<Rightarrow> ('w, unit) capture" where
  "pace_acquisition W max_fps seen_generation still_due =
     ebind (eget (\<lambda>r. cp_last_completed_at (cr_progress r))) (\<lambda>last_completed.
     ebind (eupdate (set_progress (\<lambda>p. p\<lparr>cp_last_completed_at := None\<rparr>))) (\<lambda>_.
     case last_completed of
       None \<Rightarrow> ereturn ()
     | Some completed \<Rightarrow>
         ebind (pace_remaining W completed max_fps seen_generation still_due) (\<lambda>delay.
         ebind (if delay = 0 then ereturn True else ask (wd_shutdown W)) (\<lambda>finished.
         if finished then ereturn ()
         else ebind (attempt (wd_pause_between_frames W)) (\<lambda>_.
           pace_loop W completed max_fps seen_generation still_due)))))"

subsection \<open>The observer\<close>

definition set_observer :: "(capture_observer \<Rightarrow> capture_observer) \<Rightarrow> 'w capture_run \<Rightarrow> 'w capture_run" where
  "set_observer f r = r\<lparr>cr_observer := f (cr_observer r)\<rparr>"

definition set_loop_state :: "(capture_loop_state \<Rightarrow> capture_loop_state) \<Rightarrow> 'w capture_run \<Rightarrow> 'w capture_run" where
  "set_loop_state f r = r\<lparr>cr_state := f (cr_state r)\<rparr>"

text \<open>\<open>frame_stats\<close> with its sampling stride of 64 pixels.\<close>

definition frame_stats :: "frame_meta \<Rightarrow> u8 list \<Rightarrow> image_error + luma_statistics" where
  "frame_stats meta data = (if fm_image_type meta = Raw16 then raw16_stats data 64 else raw8_stats data 64)"

text \<open>The message of a failed computation on the frame.\<close>

definition statistics_failed :: "image_error \<Rightarrow> loop_exit" where
  "statistics_failed e = CaptureFailed ''frame statistics''"

text \<open>\<open>CaptureObserver::adapt\<close>: whether new settings were written to the camera.\<close>

definition adapt :: "'w capture_world \<Rightarrow> completed_frame \<Rightarrow> ('w, bool) capture" where
  "adapt W frame =
     (if \<not> fm_settings_settled (fr_meta frame) then ereturn False
      else ebind (eget (\<lambda>r. co_adaptive (cr_observer r))) (\<lambda>adaptive.
        case adaptive of
          None \<Rightarrow> ereturn False
        | Some controller \<Rightarrow>
            (let current = \<lparr>es_exposure_us = fr_exposure_us frame, es_gain = fr_gain frame\<rparr> in
             ebind (etry statistics_failed (frame_stats (fr_meta frame) (fr_data frame))) (\<lambda>stats.
             let (setting, controller) = observe current stats controller in
             ebind (eupdate (set_observer (\<lambda>ob. ob\<lparr>co_adaptive := Some controller\<rparr>))) (\<lambda>_.
             if setting = current then ereturn False
             else ebind (attempt (wd_pause_between_frames W)) (\<lambda>_.
                  ebind (attempt (wd_set_control W ExposureControl (es_exposure_us setting) False)) (\<lambda>_.
                  ebind (attempt (wd_set_control W GainControl (es_gain setting) False)) (\<lambda>_.
                  ebind (attempt (wd_start_capture W)) (\<lambda>_.
                  ereturn True)))))))))"

text \<open>The lighting mode shown with a preview.\<close>

definition preview_lighting :: "bool \<Rightarrow> adaptive_exposure option \<Rightarrow> preview_mode \<Rightarrow> preview_mode" where
  "preview_lighting settled adaptive sdk_mode =
     (case (if settled then adaptive else None) of
        None \<Rightarrow> sdk_mode
      | Some controller \<Rightarrow> (case ax_mode controller of Day \<Rightarrow> PreviewDay | Night \<Rightarrow> PreviewNight))"

text \<open>\<open>CaptureObserver::frame_received\<close>; the counter of dropped previews belongs to the preview queue.\<close>

definition observer_frame_received :: "'w capture_world \<Rightarrow> completed_frame \<Rightarrow> bool \<Rightarrow> bool \<Rightarrow> ('w, unit) capture" where
  "observer_frame_received W frame settling paused =
     (let meta = fr_meta frame; settled = fm_settings_settled meta in
      ebind (if \<not> settled then ereturn PreviewUnknown
         else ebind (ask (wd_now W)) (\<lambda>now.
           elift (\<lambda>r. let ob = cr_observer r;
                  (mode, sdk_mode) = observe_mode (fr_exposure_us frame) (now - co_mode_started ob) (co_sdk_mode ob)
              in (mode, r\<lparr>cr_observer := ob\<lparr>co_sdk_mode := sdk_mode\<rparr>\<rparr>)))) (\<lambda>sdk_mode.
      ebind (eupdate (\<lambda>r. r\<lparr>cr_monitor :=
         (if settling then settling_frame_captured else frame_captured paused) (cr_monitor r)\<rparr>)) (\<lambda>_.
      ebind (ask (wd_now W)) (\<lambda>now.
      ebind (eget cr_observer) (\<lambda>ob.
      let (slot, cadence) = take_slot now (co_preview_max_fps ob) (co_preview_cadence ob) in
      ewhen (co_has_preview ob)
        (ebind (eupdate (set_observer (\<lambda>ob. ob\<lparr>co_preview_cadence := cadence\<rparr>))) (\<lambda>_.
         ewhen slot
           (ask (wd_try_publish W
              \<lparr>pj_conservative_start_unix_ms = fm_conservative_start_unix_ms meta, pj_width = fm_width meta,
               pj_height = fm_height meta, pj_bayer = co_bayer ob, pj_data = fr_data frame,
               pj_raw16 = (fm_image_type meta = Raw16), pj_captured_at_unix_ms = fr_captured_at_unix_ms frame,
               pj_exposure_us = fr_exposure_us frame, pj_gain = fr_gain frame, pj_settings_settled = settled,
               pj_mode = preview_lighting settled (co_adaptive ob) sdk_mode\<rparr>)))))))))"

subsection \<open>Configuring the camera\<close>

definition find_control :: "control_caps list \<Rightarrow> control_type \<Rightarrow> control_caps option" where
  "find_control controls kind = List.find (\<lambda>c. cc_control_type c = kind) controls"

definition adaptive_gain_limits :: "camera_config \<Rightarrow> control_caps \<Rightarrow> string + int \<times> int" where
  "adaptive_gain_limits config caps =
     (let low = max (cf_min_gain config) (cc_min_value caps);
          high = clamp_i64 (cc_min_value caps) (cc_max_value caps) (cf_max_gain config)
      in if low > high then Inl ''requested minimum gain exceeds the effective maximum gain'' else Inr (low, high))"

definition set_if_available :: "'w capture_world \<Rightarrow> control_caps list \<Rightarrow> control_type \<Rightarrow> int \<Rightarrow> bool \<Rightarrow> ('w, unit) capture" where
  "set_if_available W controls kind requested automatic =
     (case find_control controls kind of
        None \<Rightarrow> ereturn ()
      | Some caps \<Rightarrow>
          if \<not> cc_writable caps \<or> automatic \<and> \<not> cc_auto_supported caps then ereturn ()
          else (let value = clamp_i64 (cc_min_value caps) (cc_max_value caps) requested in
            ebind (ask (wd_control_value W kind)) (\<lambda>current.
            if current = Inr (value, automatic) then ereturn ()
            else attempt (wd_set_control W kind value automatic))))"

text \<open>\<open>clamp\<close> panics when its bounds are crossed; the range a control reports for itself is ordered.\<close>

definition checked_clamp :: "int \<Rightarrow> int \<Rightarrow> int \<Rightarrow> ('w, int) capture" where
  "checked_clamp low high x = (if low \<le> high then ereturn (clamp_i64 low high x) else eexit Panicked)"

definition writable_control :: "control_caps list \<Rightarrow> control_type \<Rightarrow> string \<Rightarrow> ('w, control_caps) capture" where
  "writable_control controls kind message =
     (case find_control controls kind of
        Some caps \<Rightarrow> if cc_writable caps then ereturn caps else eexit (CaptureFailed message)
      | None \<Rightarrow> eexit (CaptureFailed message))"

definition configure_adaptive :: "'w capture_world \<Rightarrow> control_caps list \<Rightarrow> camera_config \<Rightarrow> ('w, auto_limits) capture" where
  "configure_adaptive W controls config =
     ebind (writable_control controls ExposureControl ''camera needs a writable manual exposure control'') (\<lambda>exposure.
     ebind (writable_control controls GainControl ''camera needs a writable manual gain control'') (\<lambda>gain.
     ebind (ask (wd_is_direct W)) (\<lambda>direct.
     ebind (eguard (direct \<and> cf_max_exposure_us config > cc_max_value exposure)
       (CaptureFailed ''requested maximum exposure exceeds the direct limit'')) (\<lambda>_.
     ebind (checked_clamp (max (cc_min_value exposure) 1) (cc_max_value exposure) (cf_max_exposure_us config)) (\<lambda>max_exposure_us.
     ebind (checked_clamp (max (cc_min_value exposure) 1) max_exposure_us (cf_min_exposure_us config)) (\<lambda>min_exposure_us.
     ebind (etry CaptureFailed (adaptive_gain_limits config gain)) (\<lambda>(min_gain, max_gain).
     ebind (attempt (wd_control_value W ExposureControl)) (\<lambda>(exposure_now, _).
     ebind (set_if_available W controls ExposureControl (clamp_i64 min_exposure_us max_exposure_us exposure_now) False) (\<lambda>_.
     ebind (attempt (wd_control_value W GainControl)) (\<lambda>(gain_now, _).
     ebind (set_if_available W controls GainControl (clamp_i64 min_gain max_gain gain_now) False) (\<lambda>_.
     ebind (set_if_available W controls FlipControl 0 False) (\<lambda>_.
     ereturn \<lparr>al_min_exposure_us = min_exposure_us, al_max_exposure_us = max_exposure_us,
       al_min_gain = min_gain, al_max_gain = max_gain, al_target_brightness = cf_target_brightness config\<rparr>))))))))))))"

definition reconfigure_exposure :: "'w capture_world \<Rightarrow> camera_config \<Rightarrow> ('w, auto_limits) capture" where
  "reconfigure_exposure W config =
     ebind (attempt (wd_controls W)) (\<lambda>controls. configure_adaptive W controls config)"

text \<open>
  \<open>CaptureLoopState::configure_exposure\<close> on a controller: a known one gets the new limits, else a new
  one starts in the lighting mode of the site. The target brightness is cast to \<open>u8\<close>; a failed
  assertion of the controller panics.
\<close>

definition configured_controller ::
  "camera_config \<Rightarrow> auto_limits \<Rightarrow> light_mode option \<Rightarrow> adaptive_exposure option \<Rightarrow> adaptive_exposure option" where
  "configured_controller config limits startup adaptive =
     (let target = nat (al_target_brightness limits mod 256) in
      map_option (set_prefer_short_exposures (cf_prefer_short_exposures config))
        (case adaptive of
           Some controller \<Rightarrow> update_limits (al_min_exposure_us limits) (al_max_exposure_us limits)
             (al_min_gain limits) (al_max_gain limits) target controller
         | None \<Rightarrow> map_option (case startup of Some mode \<Rightarrow> with_initial_mode mode | None \<Rightarrow> (\<lambda>c. c))
             (adaptive_new (al_min_exposure_us limits) (al_max_exposure_us limits)
               (al_min_gain limits) (al_max_gain limits) target)))"

definition configure_exposure :: "'w capture_world \<Rightarrow> camera_config \<Rightarrow> auto_limits \<Rightarrow> ('w, unit) capture" where
  "configure_exposure W config limits =
     ebind (eget (\<lambda>r. ls_adaptive (cr_state r))) (\<lambda>adaptive.
     ebind (if adaptive = None
            then ebind (ask (wd_startup_mode W config)) (\<lambda>mode.
              ebind (eupdate (set_loop_state (\<lambda>s. s\<lparr>ls_initial_mode := mode\<rparr>))) (\<lambda>_. ereturn mode))
            else ereturn None) (\<lambda>startup.
     case configured_controller config limits startup adaptive of
       None \<Rightarrow> eexit Panicked
     | Some controller \<Rightarrow> eupdate (set_loop_state (\<lambda>s. s\<lparr>ls_adaptive := Some controller\<rparr>))))"

subsection \<open>Settling\<close>

definition camera_deadline :: "('w, loop_exit) capture" where
  "camera_deadline = eget (\<lambda>r. DeadlinePassed (duration_millis (wait_timeout (cp_wait (cr_progress r)))))"

definition leave_if_shutdown :: "'w capture_world \<Rightarrow> loop_exit \<Rightarrow> ('w, unit) capture" where
  "leave_if_shutdown W leave = ebind (ask (wd_shutdown W)) (\<lambda>shutdown. eguard shutdown leave)"

definition fail_if :: "('w \<Rightarrow> bool \<times> 'w) \<Rightarrow> string \<Rightarrow> ('w, unit) capture" where
  "fail_if f message = ebind (ask f) (\<lambda>stopped. eguard stopped (CaptureFailed message))"

definition since_started :: "'w capture_world \<Rightarrow> ('w, nat) capture" where
  "since_started W = ebind (ask (wd_now W)) (\<lambda>now. eget (\<lambda>r. now - cp_started (cr_progress r)))"

definition refresh_and_publish :: "'w capture_world \<Rightarrow> auto_limits \<Rightarrow> ('w, unit) capture" where
  "refresh_and_publish W limits = ebind (progress_refresh W limits) (\<lambda>_. progress_publish W)"

text \<open>The decision of one round of settling, before the camera is polled.\<close>

definition settle_decide :: "'w capture_world \<Rightarrow> settling \<Rightarrow> ('w, wait_decision) capture" where
  "settle_decide W s =
     ebind (since_started W) (\<lambda>now.
     ebind (ask (wd_shutdown W)) (\<lambda>cancelled.
     eget (\<lambda>r. settling_decision s (cp_wait (cr_progress r)) now cancelled)))"

text \<open>
  One round of \<open>wait_for_auto_settle\<close>: the result is the frame to start with, when there is one, or
  else the new settling state and the latest complete frame. \<open>None\<close> stands for cancellation and
  leaves with \<open>LeaveWith False\<close>, as the caller does.
\<close>

definition settle_frame ::
  "'w capture_world \<Rightarrow> auto_limits \<Rightarrow> settling \<Rightarrow> completed_frame option \<Rightarrow> completed_frame
     \<Rightarrow> ('w, completed_frame + settling \<times> completed_frame option) capture" where
  "settle_frame W limits s latest frame =
     (if \<not> fm_settings_settled (fr_meta frame)
      then ebind (ask (wd_paused W)) (\<lambda>paused.
           ebind (observer_frame_received W frame True paused) (\<lambda>_.
           ebind (progress_publish W) (\<lambda>_.
           ereturn (Inr (s, latest)))))
      else ebind (etry statistics_failed (frame_stats (fr_meta frame) (fr_data frame))) (\<lambda>_.
           ebind (since_started W) (\<lambda>now.
           let (settled, s) = observe_frame now (fr_exposure_us frame) (fr_gain frame) s in
           ebind (eupdate (set_exposure_status (\<lambda>x. x\<lparr>sx_settling_frames := se_received s\<rparr>))) (\<lambda>_.
           ebind (adapt W frame) (\<lambda>adjusted.
           ebind (progress_refresh W limits) (\<lambda>_.
           ebind (ask (wd_paused W)) (\<lambda>paused.
           ebind (observer_frame_received W frame True paused) (\<lambda>_.
           ebind (progress_publish W) (\<lambda>_.
           ereturn (if settled \<and> \<not> adjusted then Inl frame else Inr (s, Some frame)))))))))))"

definition settle_round ::
  "'w capture_world \<Rightarrow> auto_limits \<Rightarrow> settling \<Rightarrow> completed_frame option
     \<Rightarrow> ('w, completed_frame + settling \<times> completed_frame option) capture" where
  "settle_round W limits s latest =
     ebind (leave_if_shutdown W (LeaveWith False)) (\<lambda>_.
     ebind (fail_if (wd_preview_stopped W) ''preview encoder stopped while exposure was settling'') (\<lambda>_.
     ebind (fail_if (wd_video_finished W) ''video worker stopped while exposure was settling'') (\<lambda>_.
     ebind (eget (\<lambda>r. co_preview_max_fps (cr_observer r))) (\<lambda>max_fps.
     ebind (pace_acquisition W max_fps None None) (\<lambda>_.
     ebind (leave_if_shutdown W (LeaveWith False)) (\<lambda>_.
     ebind (attempt (wd_start_capture W)) (\<lambda>_.
     ebind (refresh_and_publish W limits) (\<lambda>_.
     ebind (settle_decide W s) (\<lambda>decision.
     case decision of
       CancelledWait \<Rightarrow> eexit (LeaveWith False)
     | StalledWait \<Rightarrow> ebind camera_deadline eexit
     | UseLatestFrame \<Rightarrow> (case latest of Some frame \<Rightarrow> ereturn (Inl frame) | None \<Rightarrow> eexit (LeaveWith False))
     | ContinueWaiting \<Rightarrow>
         ebind (eget (\<lambda>r. poll_timeout_ms (sx_exposure_us (cp_status (cr_progress r))))) (\<lambda>timeout.
         ebind (ask (wd_poll_frame W timeout)) (\<lambda>answer.
         ebind (leave_if_shutdown W (LeaveWith False)) (\<lambda>_.
         ebind (refresh_and_publish W limits) (\<lambda>_.
         case answer of
           PollTimeout \<Rightarrow> ereturn (Inr (s, latest))
         | PollFailed message \<Rightarrow> eexit (CaptureFailed message)
         | PolledFrame meta data \<Rightarrow>
             ebind (progress_completed_frame W meta data) (\<lambda>frame.
             settle_frame W limits s latest frame))))))))))))))"

definition settle_loop ::
  "'w capture_world \<Rightarrow> auto_limits \<Rightarrow> settling \<Rightarrow> completed_frame option \<Rightarrow> ('w, completed_frame) capture" where
  "settle_loop W limits s latest = eloop (\<lambda>(s, latest). settle_round W limits s latest) (s, latest)"

definition wait_for_auto_settle :: "'w capture_world \<Rightarrow> nat \<Rightarrow> auto_limits \<Rightarrow> ('w, completed_frame) capture" where
  "wait_for_auto_settle W minimum_frames limits =
     (let s = settling_new minimum_frames limits in
      ebind (eupdate (set_exposure_status (\<lambda>x. x\<lparr>sx_settling_min_frames := se_minimum_frames s\<rparr>))) (\<lambda>_.
      settle_loop W limits s None))"

subsection \<open>One pass\<close>

text \<open>Applying a saved configuration between two frames.\<close>

definition reload_settings :: "'w capture_world \<Rightarrow> ('w, unit) capture" where
  "reload_settings W =
     ebind (attempt (wd_load W)) (\<lambda>new.
     ebind (eget cr_config) (\<lambda>config.
     ebind (eguard (requires_camera_restart config new \<or> requires_recording_reload config new) (LeaveWith True)) (\<lambda>_.
     ebind (ewhen (\<not> camera_eq (st_camera config) (st_camera new))
       (ebind (reconfigure_exposure W (st_camera new)) (\<lambda>limits.
        ebind (eupdate (\<lambda>r. r\<lparr>cr_limits := limits\<rparr>)) (\<lambda>_.
        ebind (eupdate (\<lambda>r. set_observer (\<lambda>ob. ob\<lparr>co_adaptive := None\<rparr>)
            (set_loop_state (\<lambda>s. s\<lparr>ls_adaptive := co_adaptive (cr_observer r)\<rparr>) r))) (\<lambda>_.
        ebind (configure_exposure W (st_camera new) limits) (\<lambda>_.
        ebind (eupdate (\<lambda>r. set_loop_state (\<lambda>s. s\<lparr>ls_adaptive := None\<rparr>)
            (set_observer (\<lambda>ob. ob\<lparr>co_adaptive := ls_adaptive (cr_state r)\<rparr>) r))) (\<lambda>_.
        ebind (eupdate (set_exposure_status (\<lambda>x. x\<lparr>sx_max_exposure_us := al_max_exposure_us limits\<rparr>))) (\<lambda>_.
        refresh_and_publish W limits)))))))) (\<lambda>_.
     ebind (ewhen (cp_interval_ms (st_capture config) \<noteq> cp_interval_ms (st_capture new))
       (ebind (ask (wd_now W)) (\<lambda>now.
        eupdate (set_loop_state (\<lambda>s. s\<lparr>ls_next_capture := now + millis (cp_interval_ms (st_capture new))\<rparr>))))) (\<lambda>_.
     ebind (eget (\<lambda>r. co_preview_max_fps (cr_observer r))) (\<lambda>max_fps.
     ebind (ewhen (\<not> f64_eq max_fps (cp_preview_max_fps (st_capture new)))
       (ebind (eupdate (set_observer (\<lambda>ob. ob\<lparr>co_preview_max_fps := cp_preview_max_fps (st_capture new)\<rparr>))) (\<lambda>_.
        attempt (wd_set_max_fps W (cp_preview_max_fps (st_capture new)))))) (\<lambda>_.
     eupdate (\<lambda>r. r\<lparr>cr_config := new\<rparr>))))))))"

text \<open>Taking the next frame from the camera.\<close>

definition deadline_check :: "'w capture_world \<Rightarrow> ('w, unit) capture" where
  "deadline_check W =
     ebind (since_started W) (\<lambda>now.
     ebind (eget (\<lambda>r. wait_expired now (cp_wait (cr_progress r)))) (\<lambda>expired.
     ewhen expired (ebind camera_deadline eexit)))"

definition acquire_frame :: "'w capture_world \<Rightarrow> ('w, completed_frame) capture" where
  "acquire_frame W =
     ebind (ask (wd_paused W)) (\<lambda>paused.
     ebind (if paused then ereturn True else ask (wd_suspended W)) (\<lambda>waiting.
     ebind (eget (\<lambda>r. (cr_config r, cr_limits r, cr_state r))) (\<lambda>(config, limits, state).
     ebind (pace_acquisition W (cp_preview_max_fps (st_capture config))
       (Some (ls_seen_capture_generation state)) (if waiting then None else Some (ls_next_capture state))) (\<lambda>_.
     ebind (leave_if_shutdown W LeaveLoop) (\<lambda>_.
     ebind (ask (wd_reload_pending W)) (\<lambda>reload.
     ebind (eguard reload NextPass) (\<lambda>_.
     ebind (attempt (wd_start_capture W)) (\<lambda>_.
     ebind (refresh_and_publish W limits) (\<lambda>_.
     ebind (deadline_check W) (\<lambda>_.
     ebind (eget (\<lambda>r. poll_timeout_ms (sx_exposure_us (cp_status (cr_progress r))))) (\<lambda>timeout.
     ebind (ask (wd_poll_frame W timeout)) (\<lambda>answer.
     ebind (leave_if_shutdown W LeaveLoop) (\<lambda>_.
     ebind (refresh_and_publish W limits) (\<lambda>_.
     case answer of
       PollTimeout \<Rightarrow> ebind (deadline_check W) (\<lambda>_. eexit NextPass)
     | PollFailed message \<Rightarrow> eexit (CaptureFailed message)
     | PolledFrame meta data \<Rightarrow>
         ebind (progress_completed_frame W meta data) (\<lambda>frame.
         ebind (adapt W frame) (\<lambda>_.
         ebind (progress_refresh W limits) (\<lambda>_.
         ebind (ask (wd_paused W)) (\<lambda>paused.
         ebind (observer_frame_received W frame False paused) (\<lambda>_.
         ebind (progress_publish W) (\<lambda>_.
         ereturn frame))))))))))))))))))))"

text \<open>The name of the next still; a 16-bit frame is saved as PNG, so its extension is replaced.\<close>

definition still_name :: "nat \<Rightarrow> string \<Rightarrow> nat \<Rightarrow> bool \<Rightarrow> string" where
  "still_name unix_nanos nonce_hex sequence raw16 =
     (let name = capture_filename_at (unix_nanos div 1000000000) (unix_nanos div 1000000 mod 1000) nonce_hex sequence
      in if raw16 then take (length name - 3) name @ ''png'' else name)"

text \<open>What follows once a still is to be taken from a frame.\<close>

definition queue_still :: "'w capture_world \<Rightarrow> capture_context \<Rightarrow> completed_frame \<Rightarrow> bool \<Rightarrow> nat \<Rightarrow> ('w, unit) capture" where
  "queue_still W cx frame periodic_capture_due now =
     ebind (eget (\<lambda>r. (cr_config r, ls_queued (cr_state r), co_bayer (cr_observer r)))) (\<lambda>(config, queued, bayer).
     ebind (ask (wd_unix_nanos W)) (\<lambda>unix.
     ebind (if vc_daily_timelapse (st_video config) then ask (wd_overlay_for W (fr_captured_at_unix_ms frame))
            else ereturn None) (\<lambda>overlay.
     let job = \<lparr>cj_overlay = overlay, cj_sequence = queued, cj_width = fm_width (fr_meta frame),
           cj_height = fm_height (fr_meta frame), cj_bayer = bayer, cj_data = fr_data frame,
           cj_output = path_join (cx_directory cx)
             (still_name unix (cx_nonce_hex cx) queued (cf_raw16 (st_camera config))),
           cj_jpeg_quality = cp_jpeg_quality (st_capture config), cj_raw16 = cf_raw16 (st_camera config)\<rparr> in
     ebind (ask (wd_try_send W job)) (\<lambda>sent.
     ebind (case sent of
         SendOk \<Rightarrow> eupdate (\<lambda>r. set_loop_state (\<lambda>s. s\<lparr>ls_queued := ls_queued s + 1\<rparr>)
           (r\<lparr>cr_jobs := cr_jobs r @ [job]\<rparr>))
       | SendFull \<Rightarrow> ereturn ()
       | SendDisconnected \<Rightarrow> eexit (CaptureFailed ''still writer stopped unexpectedly'')) (\<lambda>_.
     ebind (ewhen periodic_capture_due
       (eupdate (set_loop_state (\<lambda>s. s\<lparr>ls_next_capture := now + millis (cp_interval_ms (st_capture config))\<rparr>)))) (\<lambda>_.
     ebind (eget (\<lambda>r. case cx_max_frames cx of None \<Rightarrow> False | Some limit \<Rightarrow> ls_queued (cr_state r) \<ge> limit)) (\<lambda>enough.
     eguard enough LeaveLoop)))))))"

text \<open>Whether a still is taken from a settled frame; a pending request is consumed here.\<close>

definition take_still :: "'w capture_world \<Rightarrow> capture_context \<Rightarrow> completed_frame \<Rightarrow> ('w, unit) capture" where
  "take_still W cx frame =
     ebind (ask (wd_now W)) (\<lambda>now.
     ebind (ask (wd_generation W)) (\<lambda>generation.
     ebind (eget (\<lambda>r. generation \<noteq> ls_seen_capture_generation (cr_state r))) (\<lambda>capture_requested.
     ebind (ewhen capture_requested (eupdate (set_loop_state (\<lambda>s.
       s\<lparr>ls_seen_capture_generation := wrap_u64 (ls_seen_capture_generation s + 1)\<rparr>)))) (\<lambda>_.
     ebind (ask (wd_paused W)) (\<lambda>paused.
     ebind (if paused then ereturn True else ask (wd_suspended W)) (\<lambda>waiting.
     ebind (eget (\<lambda>r. \<not> waiting \<and> now \<ge> ls_next_capture (cr_state r))) (\<lambda>periodic_capture_due.
     ebind (eguard (\<not> capture_requested \<and> \<not> periodic_capture_due) NextPass) (\<lambda>_.
     queue_still W cx frame periodic_capture_due now))))))))"

text \<open>What happens before a frame is looked for, and the frame of the pass.\<close>

definition pass_checks :: "'w capture_world \<Rightarrow> ('w, unit) capture" where
  "pass_checks W =
     ebind (leave_if_shutdown W LeaveLoop) (\<lambda>_.
     ebind (ask (wd_take_reload W)) (\<lambda>reload.
     ebind (ewhen reload (reload_settings W)) (\<lambda>_.
     ebind (fail_if (wd_video_finished W) ''video worker stopped unexpectedly'') (\<lambda>_.
     ebind (fail_if (wd_preview_stopped W) ''preview encoder stopped unexpectedly'') (\<lambda>_.
     ebind (fail_if (wd_upload_stopped W) ''durable upload worker stopped unexpectedly'') (\<lambda>_.
     fail_if (wd_retention_stopped W) ''capture retention worker stopped unexpectedly''))))))"

definition next_frame :: "'w capture_world \<Rightarrow> ('w, completed_frame) capture" where
  "next_frame W =
     ebind (eget cr_pending) (\<lambda>pending.
     case pending of
       Some frame \<Rightarrow> ebind (eupdate (\<lambda>r. r\<lparr>cr_pending := None\<rparr>)) (\<lambda>_. ereturn frame)
     | None \<Rightarrow> acquire_frame W)"

definition capture_pass :: "'w capture_world \<Rightarrow> capture_context \<Rightarrow> ('w, unit) capture" where
  "capture_pass W cx =
     ebind (pass_checks W) (\<lambda>_.
     ebind (next_frame W) (\<lambda>frame.
     ebind (eguard (\<not> fm_settings_settled (fr_meta frame)) NextPass) (\<lambda>_.
     take_still W cx frame)))"

subsection \<open>The loop\<close>

text \<open>The result is the value of the loop: whether the recording services must be restarted.\<close>

definition pass_end :: "loop_exit + unit \<Rightarrow> loop_exit + (bool + unit)" where
  "pass_end x =
     (case x of
        Inr _ \<Rightarrow> Inr (Inr ())
      | Inl NextPass \<Rightarrow> Inr (Inr ())
      | Inl LeaveLoop \<Rightarrow> Inr (Inl False)
      | Inl (LeaveWith reload) \<Rightarrow> Inr (Inl reload)
      | Inl e \<Rightarrow> Inl e)"

definition capture_passes :: "'w capture_world \<Rightarrow> capture_context \<Rightarrow> ('w, bool) capture" where
  "capture_passes W cx = eloop (\<lambda>_ r. map_option (map_prod pass_end id) (capture_pass W cx r)) ()"

text \<open>The closure: settle unless an earlier epoch did, then loop.\<close>

definition first_frame :: "'w capture_world \<Rightarrow> bool \<Rightarrow> nat \<Rightarrow> auto_limits \<Rightarrow> ('w, unit) capture" where
  "first_frame W settled minimum_frames limits =
     (if settled then eupdate (\<lambda>r. r\<lparr>cr_pending := None\<rparr>)
      else ebind (wait_for_auto_settle W minimum_frames limits) (\<lambda>frame.
        eupdate (\<lambda>r. set_loop_state (\<lambda>s. s\<lparr>ls_settled := True\<rparr>) (r\<lparr>cr_pending := Some frame\<rparr>))))"

definition capture_start :: "'w capture_world \<Rightarrow> capture_context \<Rightarrow> ('w, unit) capture" where
  "capture_start W cx =
     ebind (eget (\<lambda>r. (cr_config r, cr_limits r, cr_state r))) (\<lambda>(config, limits, state).
     ebind (progress_new W limits (cx_preview_session_generation cx) (cf_settle_frames (st_camera config))) (\<lambda>progress.
     ebind (eupdate (set_progress (\<lambda>_. progress))) (\<lambda>_.
     ebind (eupdate (set_exposure_status (\<lambda>x. x\<lparr>sx_settling := \<not> ls_settled state\<rparr>))) (\<lambda>_.
     ebind (progress_publish W) (\<lambda>_.
     ebind (first_frame W (ls_settled state) (cf_settle_frames (st_camera config)) limits) (\<lambda>_.
     ebind (eupdate (set_exposure_status (\<lambda>x. x\<lparr>sx_settling := False\<rparr>))) (\<lambda>_.
     ebind (progress_publish W) (\<lambda>_.
     ebind (ask (wd_paused W)) (\<lambda>paused.
     eupdate (\<lambda>r. r\<lparr>cr_monitor := set_state (if paused then Paused else Capturing) (cr_monitor r)\<rparr>))))))))))"

definition capture_body :: "'w capture_world \<Rightarrow> capture_context \<Rightarrow> ('w, bool) capture" where
  "capture_body W cx = ebind (capture_start W cx) (\<lambda>_. capture_passes W cx)"

text \<open>\<open>capture_loop\<close>: the controller and the preview cadence are handed in and out of the loop state.\<close>

definition observer_new :: "'w capture_world \<Rightarrow> bayer_pattern \<Rightarrow> bool \<Rightarrow> ('w, capture_observer) capture" where
  "observer_new W bayer has_preview =
     ebind (ask (wd_now W)) (\<lambda>now.
     ereturn \<lparr>co_bayer = bayer, co_has_preview = has_preview, co_preview_cadence = cadence_default,
       co_preview_max_fps = Finite 2, co_adaptive = None, co_sdk_mode = exposure_mode_default, co_mode_started = now\<rparr>)"

definition take_over :: "f64 \<Rightarrow> capture_observer \<Rightarrow> 'w capture_run \<Rightarrow> 'w capture_run" where
  "take_over max_fps observer r = set_loop_state (\<lambda>s. s\<lparr>ls_adaptive := None\<rparr>)
     (r\<lparr>cr_observer := observer\<lparr>co_preview_max_fps := max_fps, co_preview_cadence := ls_preview_cadence (cr_state r),
          co_adaptive := ls_adaptive (cr_state r)\<rparr>\<rparr>)"

definition hand_back :: "'w capture_run \<Rightarrow> 'w capture_run" where
  "hand_back r = set_observer (\<lambda>ob. ob\<lparr>co_adaptive := None\<rparr>)
     (set_loop_state (\<lambda>s. s\<lparr>ls_adaptive := co_adaptive (cr_observer r),
        ls_preview_cadence := co_preview_cadence (cr_observer r)\<rparr>) r)"

text \<open>A panic unwinds without handing anything back.\<close>

definition loop_result :: "loop_exit + bool \<Rightarrow> loop_exit + bool" where
  "loop_result x = (case x of Inl (LeaveWith reload) \<Rightarrow> Inr reload | _ \<Rightarrow> x)"

definition capture_loop ::
  "'w capture_world \<Rightarrow> capture_context \<Rightarrow> bayer_pattern \<Rightarrow> bool \<Rightarrow> ('w, bool) capture" where
  "capture_loop W cx bayer has_preview =
     ebind (observer_new W bayer has_preview) (\<lambda>observer.
     ebind (eget (\<lambda>r. cp_preview_max_fps (st_capture (cr_config r)))) (\<lambda>max_fps.
     ebind (attempt (wd_set_max_fps W max_fps)) (\<lambda>_.
     ebind (eupdate (take_over max_fps observer)) (\<lambda>_. \<lambda>r.
     map_option (\<lambda>(x, r). (loop_result x, if x = Inl Panicked then r else hand_back r))
       (capture_body W cx r)))))"

end
