(* ===== verification/CaptureLoopTheorems.thy ===== *)
theory CaptureLoopTheorems
  imports CaptureLoop
begin

text \<open>
  Which stills the capture loop takes, for every behaviour of its surroundings: how they are
  numbered and named, how many there are while capture is paused, and where their pixels come from.
\<close>

subsection \<open>What leaves the stills alone\<close>

text \<open>All of a pass but \<open>take_still\<close> leaves the jobs, their number and the served requests alone.\<close>

definition same_stills :: "'w capture_run \<Rightarrow> 'w capture_run \<Rightarrow> bool" where
  "same_stills r r' \<longleftrightarrow> cr_jobs r' = cr_jobs r \<and> cr_pending r' = cr_pending r \<and> ls_queued (cr_state r') = ls_queued (cr_state r)
     \<and> ls_seen_capture_generation (cr_state r') = ls_seen_capture_generation (cr_state r)"

interpretation quiet: kept same_stills
  by unfold_locales (simp_all add: same_stills_def)

named_theorems quiet_steps \<open>operations that leave the stills alone\<close>

lemma quiet_ask [quiet_steps]: "quiet.keeps (ask f)"
  unfolding ask_def by (rule quiet.keeps_lift) (simp add: same_stills_def split: prod.split)

lemma quiet_attempt [quiet_steps]: "quiet.keeps (attempt f)"
  unfolding attempt_def by (intro quiet.keeps_intros quiet_steps)

lemma quiet_progress_update [quiet_steps]:
  "quiet.keeps (eupdate (set_progress f))" "quiet.keeps (eupdate (set_wait g))"
  "quiet.keeps (eupdate (set_exposure_status h))" "quiet.keeps (eupdate (set_observer k))"
  "quiet.keeps (eupdate (\<lambda>r. set_wait (j r) r))" "quiet.keeps (eupdate (\<lambda>r. r\<lparr>cr_monitor := l (cr_monitor r)\<rparr>))"
  by (rule quiet.keeps_update, simp add: same_stills_def set_progress_def set_wait_def set_exposure_status_def
      set_observer_def)+

lemma quiet_progress [quiet_steps]:
  "quiet.keeps (current_exposure W fallback)" "quiet.keeps (current_gain W fallback)"
  "quiet.keeps (progress_publish W)" "quiet.keeps (progress_completed_frame W meta data)"
  "quiet.keeps (progress_new W limits generation frames)"
  unfolding current_exposure_def current_gain_def progress_publish_def progress_completed_frame_def progress_new_def
  by (intro quiet.keeps_intros quiet_steps)+

lemma quiet_refresh [quiet_steps]:
  "quiet.keeps (progress_refresh W limits)" "quiet.keeps (refresh_and_publish W limits)"
  unfolding refresh_and_publish_def progress_refresh_def by (intro quiet.keeps_intros quiet_steps)+

lemma quiet_pacing [quiet_steps]:
  "quiet.keeps (pace_remaining W completed fps seen due)"
  "quiet.keeps (pace_acquisition W fps seen due)"
  unfolding pace_acquisition_def pace_loop_def pace_round_def pace_remaining_def
  by (intro quiet.keeps_intros quiet.keeps_loop quiet_steps)+

lemma quiet_observer [quiet_steps]:
  "quiet.keeps (adapt W frame)" "quiet.keeps (observer_frame_received W frame settling paused)"
proof -
  show "quiet.keeps (adapt W frame)"
    unfolding adapt_def by (intro quiet.keeps_intros quiet_steps)
  have "quiet.keeps (elift (\<lambda>r. let ob = cr_observer r; (mode, sdk_mode) = observe_mode (e ob) (t ob) (co_sdk_mode ob)
      in (mode, r\<lparr>cr_observer := ob\<lparr>co_sdk_mode := sdk_mode\<rparr>\<rparr>)))" for e t
    by (rule quiet.keeps_lift) (simp add: same_stills_def Let_def split: prod.split)
  then show "quiet.keeps (observer_frame_received W frame settling paused)"
    unfolding observer_frame_received_def by (intro quiet.keeps_intros quiet_steps)
qed

lemma quiet_checks [quiet_steps]:
  "quiet.keeps (leave_if_shutdown W e)" "quiet.keeps (fail_if f message)" "quiet.keeps (since_started W)"
  "quiet.keeps camera_deadline" "quiet.keeps (settle_decide W s)" "quiet.keeps (deadline_check W)"
  unfolding leave_if_shutdown_def fail_if_def since_started_def camera_deadline_def settle_decide_def deadline_check_def
  by (intro quiet.keeps_intros quiet_steps)+

lemma quiet_poll [quiet_steps]:
  "(\<And>meta data. quiet.keeps (m meta data)) \<Longrightarrow> quiet.keeps n \<Longrightarrow> (\<And>message. quiet.keeps (k message)) \<Longrightarrow>
   quiet.keeps (case answer of PolledFrame meta data \<Rightarrow> m meta data | PollTimeout \<Rightarrow> n | PollFailed message \<Rightarrow> k message)"
  "quiet.keeps a \<Longrightarrow> quiet.keeps b \<Longrightarrow> quiet.keeps c \<Longrightarrow> quiet.keeps d \<Longrightarrow>
   quiet.keeps (case decision of ContinueWaiting \<Rightarrow> a | CancelledWait \<Rightarrow> b | StalledWait \<Rightarrow> c | UseLatestFrame \<Rightarrow> d)"
  by (cases answer, simp_all) (cases decision, simp_all)

lemma quiet_settling [quiet_steps]:
  "quiet.keeps (settle_frame W limits s latest frame)" "quiet.keeps (settle_round W limits s latest)"
  "quiet.keeps (wait_for_auto_settle W frames limits)"
proof -
  show frame: "quiet.keeps (settle_frame W limits s latest frame)" for s latest frame
    unfolding settle_frame_def by (intro quiet.keeps_intros quiet_steps)
  show round: "quiet.keeps (settle_round W limits s latest)" for s latest
    unfolding settle_round_def by (intro quiet.keeps_intros quiet_steps frame)
  show "quiet.keeps (wait_for_auto_settle W frames limits)"
    unfolding wait_for_auto_settle_def settle_loop_def
    by (intro quiet.keeps_intros quiet.keeps_loop quiet_steps round)
qed

lemma quiet_configure [quiet_steps]:
  "quiet.keeps (set_if_available W controls kind requested automatic)"
  "quiet.keeps (configure_adaptive W controls config)" "quiet.keeps (reconfigure_exposure W config)"
  "quiet.keeps (configure_exposure W config limits)"
proof -
  have state: "quiet.keeps (eupdate (set_loop_state (\<lambda>s. s\<lparr>ls_initial_mode := mode\<rparr>)))"
    "quiet.keeps (eupdate (set_loop_state (\<lambda>s. s\<lparr>ls_adaptive := adaptive\<rparr>)))" for mode adaptive
    by (rule quiet.keeps_update, simp add: same_stills_def set_loop_state_def)+
  show set: "quiet.keeps (set_if_available W controls kind requested automatic)" for controls kind requested automatic
    unfolding set_if_available_def by (intro quiet.keeps_intros quiet_steps)
  show conf: "quiet.keeps (configure_adaptive W controls config)" for controls
    unfolding configure_adaptive_def writable_control_def checked_clamp_def by (intro quiet.keeps_intros quiet_steps set)
  show "quiet.keeps (reconfigure_exposure W config)"
    unfolding reconfigure_exposure_def by (intro quiet.keeps_intros quiet_steps conf)
  show "quiet.keeps (configure_exposure W config limits)"
    unfolding configure_exposure_def by (intro quiet.keeps_intros quiet_steps state)
qed

lemma quiet_reload [quiet_steps]: "quiet.keeps (reload_settings W)"
  unfolding reload_settings_def
  by (intro quiet.keeps_intros quiet_steps; rule quiet.keeps_update; simp add: same_stills_def set_loop_state_def set_observer_def)

lemma quiet_acquire [quiet_steps]: "quiet.keeps (acquire_frame W)"
  unfolding acquire_frame_def by (intro quiet.keeps_intros quiet_steps)

subsection \<open>Where frames come from\<close>

text \<open>A frame the camera delivered whole, under settings it had settled on.\<close>

definition good_frame :: "'w capture_world \<Rightarrow> completed_frame \<Rightarrow> bool" where
  "good_frame W frame \<longleftrightarrow> fm_settings_settled (fr_meta frame)
     \<and> (\<exists>timeout w. fst (wd_poll_frame W timeout w) = PolledFrame (fr_meta frame) (fr_data frame))"

definition polled_frame :: "'w capture_world \<Rightarrow> completed_frame \<Rightarrow> bool" where
  "polled_frame W frame \<longleftrightarrow> (\<exists>timeout w. fst (wd_poll_frame W timeout w) = PolledFrame (fr_meta frame) (fr_data frame))"

lemma yields_ask: "yields (\<lambda>x. \<exists>w. fst (f w) = x) (ask f)"
  by (auto simp: yields_def effect_simps)

lemma yields_completed:
  assumes "\<exists>w. fst (wd_poll_frame W timeout w) = PolledFrame meta data"
  shows "yields (polled_frame W) (progress_completed_frame W meta data)"
  unfolding progress_completed_frame_def
  by (intro yields_then yields_return) (use assms in \<open>auto simp: polled_frame_def\<close>)

lemma yields_acquire: "yields (polled_frame W) (acquire_frame W)"
proof -
  have answered: "yields (polled_frame W) (case answer of
       PollTimeout \<Rightarrow> ebind (deadline_check W) (\<lambda>_. eexit NextPass)
     | PollFailed message \<Rightarrow> eexit (CaptureFailed message)
     | PolledFrame meta data \<Rightarrow>
         ebind (progress_completed_frame W meta data) (\<lambda>frame.
         ebind (adapt W frame) (\<lambda>_.
         ebind (progress_refresh W limits) (\<lambda>_.
         ebind (ask (wd_paused W)) (\<lambda>paused.
         ebind (observer_frame_received W frame False paused) (\<lambda>_.
         ebind (progress_publish W) (\<lambda>_.
         ereturn frame)))))))"
    if "\<exists>w. fst (wd_poll_frame W timeout w) = answer" for answer timeout limits
  proof (cases answer)
    case (PolledFrame meta data)
    have "yields (polled_frame W) (progress_completed_frame W meta data)"
      using that PolledFrame by (intro yields_completed) auto
    then show ?thesis
      unfolding PolledFrame poll_answer.case by (rule yields_bind) (intro yields_then yields_return)
  qed (simp_all add: yields_then yields_exit)
  show ?thesis
    unfolding acquire_frame_def
    by (intro yields_then yields_prod yields_bind [OF yields_ask [where f = "wd_poll_frame W _"]] answered)
qed

lemma yields_settle_frame:
  assumes "polled_frame W frame" and "\<forall>f. latest = Some f \<longrightarrow> good_frame W f"
  shows "yields (\<lambda>x. case x of Inl f \<Rightarrow> good_frame W f | Inr (s, latest) \<Rightarrow> \<forall>f. latest = Some f \<longrightarrow> good_frame W f)
    (settle_frame W limits s latest frame)"
  unfolding settle_frame_def
  by (intro yields_then yields_if yields_let yields_prod yields_return)
    (use assms in \<open>auto simp: good_frame_def polled_frame_def\<close>)

lemma yields_settle_round:
  assumes "\<forall>f. latest = Some f \<longrightarrow> good_frame W f"
  shows "yields (\<lambda>x. case x of Inl f \<Rightarrow> good_frame W f | Inr (s, latest) \<Rightarrow> \<forall>f. latest = Some f \<longrightarrow> good_frame W f)
    (settle_round W limits s latest)"
proof -
  let ?P = "\<lambda>x. case x of Inl f \<Rightarrow> good_frame W f | Inr (s :: settling, latest) \<Rightarrow> \<forall>f. latest = Some f \<longrightarrow> good_frame W f"
  have answered: "yields ?P (case answer of
       PollTimeout \<Rightarrow> ereturn (Inr (s, latest))
     | PollFailed message \<Rightarrow> eexit (CaptureFailed message)
     | PolledFrame meta data \<Rightarrow>
         ebind (progress_completed_frame W meta data) (\<lambda>frame. settle_frame W limits s latest frame))"
    if "\<exists>w. fst (wd_poll_frame W timeout w) = answer" for answer timeout
  proof (cases answer)
    case (PolledFrame meta data)
    have "yields (polled_frame W) (progress_completed_frame W meta data)"
      using that PolledFrame by (intro yields_completed) auto
    then show ?thesis
      unfolding PolledFrame poll_answer.case by (rule yields_bind) (intro yields_settle_frame assms)
  qed (simp_all add: yields_exit yields_return assms)
  have decided: "yields ?P (case decision of
       CancelledWait \<Rightarrow> eexit (LeaveWith False)
     | StalledWait \<Rightarrow> ebind camera_deadline eexit
     | UseLatestFrame \<Rightarrow> (case latest of Some frame \<Rightarrow> ereturn (Inl frame) | None \<Rightarrow> eexit (LeaveWith False))
     | ContinueWaiting \<Rightarrow>
         ebind (eget (\<lambda>r. poll_timeout_ms (sx_exposure_us (cp_status (cr_progress r))))) (\<lambda>timeout.
         ebind (ask (wd_poll_frame W timeout)) (\<lambda>answer.
         ebind (leave_if_shutdown W (LeaveWith False)) (\<lambda>_.
         ebind (refresh_and_publish W limits) (\<lambda>_.
         case answer of
           PollTimeout \<Rightarrow> ereturn (Inr (s, latest))
         | PollFailed message \<Rightarrow> eexit (CaptureFailed message)
         | PolledFrame meta data \<Rightarrow>
             ebind (progress_completed_frame W meta data) (\<lambda>frame.
             settle_frame W limits s latest frame))))))" for decision
    using assms
    by (cases decision)
      (auto intro!: yields_exit yields_return yields_then answered yields_bind [OF yields_ask [where f = "wd_poll_frame W _"]]
        split: option.split)
  show ?thesis unfolding settle_round_def by (intro yields_then decided)
qed

lemma yields_settled: "yields (good_frame W) (wait_for_auto_settle W frames limits)"
proof -
  have "yields (good_frame W) (settle_loop W limits s latest)" if "\<forall>f. latest = Some f \<longrightarrow> good_frame W f" for s latest
    unfolding yields_def settle_loop_def
  proof (intro allI impI)
    fix r x r'
    assume "eloop (\<lambda>(s, latest). settle_round W limits s latest) (s, latest) r = Some (Inr x, r')"
    then have "case (Inr x :: loop_exit + completed_frame) of Inl _ \<Rightarrow> True | Inr f \<Rightarrow> good_frame W f"
    proof (rule eloop_induct [where P = "\<lambda>x _. \<forall>f. snd x = Some f \<longrightarrow> good_frame W f"
          and Q = "\<lambda>x _. case x of Inl _ \<Rightarrow> True | Inr f \<Rightarrow> good_frame W f"], goal_cases)
      case (2 x r x' r')
      then show ?case
        using yieldsD [OF yields_settle_round [OF 2(1)], of limits "fst x" r "Inr x'" r']
        by (simp add: case_prod_unfold)
    next
      case (4 x r y r')
      then show ?case
        using yieldsD [OF yields_settle_round [OF 4(1)], of limits "fst x" r "Inl y" r']
        by (simp add: case_prod_unfold)
    qed (use that in simp_all)
    then show "good_frame W x" by simp
  qed
  then show ?thesis unfolding wait_for_auto_settle_def by (intro yields_let yields_then) simp
qed

subsection \<open>Taking a still\<close>

text \<open>The job made of a frame.\<close>

definition still_of :: "capture_context \<Rightarrow> completed_frame \<Rightarrow> nat \<Rightarrow> capture_job \<Rightarrow> bool" where
  "still_of cx frame number job \<longleftrightarrow>
     cj_sequence job = number \<and> cj_data job = fr_data frame \<and> cj_width job = fm_width (fr_meta frame)
     \<and> cj_height job = fm_height (fr_meta frame)
     \<and> (\<exists>unix. cj_output job = path_join (cx_directory cx) (still_name unix (cx_nonce_hex cx) number (cj_raw16 job)))"

definition still_added :: "capture_context \<Rightarrow> completed_frame \<Rightarrow> 'w capture_run \<Rightarrow> 'w capture_run \<Rightarrow> bool" where
  "still_added cx frame r r' \<longleftrightarrow>
     (\<exists>job. cr_jobs r' = cr_jobs r @ [job] \<and> still_of cx frame (ls_queued (cr_state r)) job)
     \<and> ls_queued (cr_state r') = ls_queued (cr_state r) + 1"

definition no_still :: "'w capture_run \<Rightarrow> 'w capture_run \<Rightarrow> bool" where
  "no_still r r' \<longleftrightarrow> cr_jobs r' = cr_jobs r \<and> ls_queued (cr_state r') = ls_queued (cr_state r)"

definition limit_reached :: "capture_context \<Rightarrow> 'w capture_run \<Rightarrow> bool" where
  "limit_reached cx r \<longleftrightarrow> (case cx_max_frames cx of None \<Rightarrow> False | Some limit \<Rightarrow> ls_queued (cr_state r) \<ge> limit)"

lemma queue_still_effect:
  assumes "queue_still W cx frame periodic now r = Some (x, r')"
  shows "(no_still r r' \<or> still_added cx frame r r')
    \<and> cr_pending r' = cr_pending r
    \<and> ls_seen_capture_generation (cr_state r') = ls_seen_capture_generation (cr_state r)
    \<and> (x = Inr () \<longrightarrow> \<not> limit_reached cx r')
    \<and> (x = Inl LeaveLoop \<longrightarrow> limit_reached cx r') \<and> x \<noteq> Inl NextPass"
  using assms
  unfolding queue_still_def
  by (simp add: effect_simps split_beta Let_def no_still_def still_added_def still_of_def limit_reached_def set_loop_state_def
      split: send_answer.splits if_splits option.splits)
    (auto simp: effect_simps)

text \<open>The decision, and the state in which a still is queued.\<close>

lemma take_still_decides:
  assumes "take_still W cx frame r = Some (x, r')"
  shows "\<exists>generation due now q. (\<exists>w. fst (wd_generation W w) = generation)
    \<and> cr_jobs q = cr_jobs r \<and> ls_queued (cr_state q) = ls_queued (cr_state r) \<and> cr_pending q = cr_pending r
    \<and> ls_seen_capture_generation (cr_state q) = (if generation = ls_seen_capture_generation (cr_state r)
        then generation else wrap_u64 (ls_seen_capture_generation (cr_state r) + 1))
    \<and> (due \<longrightarrow> (\<exists>w. \<not> fst (wd_paused W w)) \<and> (\<exists>w. \<not> fst (wd_suspended W w)))
    \<and> (if generation = ls_seen_capture_generation (cr_state r) \<and> \<not> due then x = Inl NextPass \<and> r' = q
       else queue_still W cx frame due now q = Some (x, r'))"
proof -
  define now where "now = fst (wd_now W (cr_world r))"
  define w1 where "w1 = snd (wd_now W (cr_world r))"
  define generation where "generation = fst (wd_generation W w1)"
  define w2 where "w2 = snd (wd_generation W w1)"
  define requested where "requested \<longleftrightarrow> generation \<noteq> ls_seen_capture_generation (cr_state r)"
  define r2 where "r2 = (if requested then set_loop_state (\<lambda>s. s\<lparr>ls_seen_capture_generation :=
      wrap_u64 (ls_seen_capture_generation s + 1)\<rparr>) (r\<lparr>cr_world := w2\<rparr>) else r\<lparr>cr_world := w2\<rparr>)"
  define paused where "paused = fst (wd_paused W w2)"
  define w3 where "w3 = snd (wd_paused W w2)"
  define waiting where "waiting \<longleftrightarrow> paused \<or> fst (wd_suspended W w3)"
  define q where "q = (if paused then r2\<lparr>cr_world := w3\<rparr> else r2\<lparr>cr_world := snd (wd_suspended W w3)\<rparr>)"
  define due where "due \<longleftrightarrow> \<not> waiting \<and> ls_next_capture (cr_state r2) \<le> now"
  have "take_still W cx frame r =
    (if \<not> requested \<and> \<not> due then Some (Inl NextPass, q) else queue_still W cx frame due now q)"
    unfolding take_still_def
    by (simp add: effect_simps set_loop_state_def now_def w1_def generation_def w2_def requested_def r2_def
        paused_def w3_def waiting_def q_def due_def)
  moreover have "cr_jobs q = cr_jobs r" "ls_queued (cr_state q) = ls_queued (cr_state r)" "cr_pending q = cr_pending r"
    "ls_seen_capture_generation (cr_state q) = (if generation = ls_seen_capture_generation (cr_state r)
        then generation else wrap_u64 (ls_seen_capture_generation (cr_state r) + 1))"
    by (simp_all add: q_def r2_def set_loop_state_def requested_def)
  moreover have "due \<longrightarrow> (\<exists>w. \<not> fst (wd_paused W w)) \<and> (\<exists>w. \<not> fst (wd_suspended W w))"
    by (auto simp: due_def waiting_def paused_def)
  moreover have "\<exists>w. fst (wd_generation W w) = generation" by (auto simp: generation_def)
  ultimately show ?thesis
    using assms by (intro exI [of _ generation] exI [of _ due] exI [of _ now] exI [of _ q])
      (auto simp: requested_def split: if_splits)
qed

lemma take_still_effect:
  assumes "take_still W cx frame r = Some (x, r')"
  shows "\<exists>generation. (\<exists>w. fst (wd_generation W w) = generation)
    \<and> ls_seen_capture_generation (cr_state r') = (if generation = ls_seen_capture_generation (cr_state r)
        then generation else wrap_u64 (ls_seen_capture_generation (cr_state r) + 1))
    \<and> cr_pending r' = cr_pending r
    \<and> (no_still r r'
       \<or> still_added cx frame r r'
         \<and> (generation \<noteq> ls_seen_capture_generation (cr_state r)
            \<or> (\<exists>w. \<not> fst (wd_paused W w)) \<and> (\<exists>w. \<not> fst (wd_suspended W w))))
    \<and> (x = Inr () \<longrightarrow> \<not> limit_reached cx r') \<and> (x = Inl NextPass \<longrightarrow> no_still r r')"
proof -
  obtain generation due now q where g: "\<exists>w. fst (wd_generation W w) = generation"
    and q: "cr_jobs q = cr_jobs r" "ls_queued (cr_state q) = ls_queued (cr_state r)" "cr_pending q = cr_pending r"
    "ls_seen_capture_generation (cr_state q) = (if generation = ls_seen_capture_generation (cr_state r)
        then generation else wrap_u64 (ls_seen_capture_generation (cr_state r) + 1))"
    and due: "due \<longrightarrow> (\<exists>w. \<not> fst (wd_paused W w)) \<and> (\<exists>w. \<not> fst (wd_suspended W w))"
    and run: "if generation = ls_seen_capture_generation (cr_state r) \<and> \<not> due then x = Inl NextPass \<and> r' = q
       else queue_still W cx frame due now q = Some (x, r')"
    using take_still_decides [OF assms] by blast
  have same: "no_still q r' \<longleftrightarrow> no_still r r'" "still_added cx frame q r' \<longleftrightarrow> still_added cx frame r r'"
    using q(1,2) by (simp_all add: no_still_def still_added_def)
  show ?thesis
  proof (cases "generation = ls_seen_capture_generation (cr_state r) \<and> \<not> due")
    case True
    then show ?thesis using run g q by (intro exI [of _ generation]) (simp add: no_still_def)
  next
    case False
    then have "queue_still W cx frame due now q = Some (x, r')" using run by simp
    note effect = queue_still_effect [OF this]
    show ?thesis
      using effect g due False same q(3,4) by (intro exI [of _ generation]) auto
  qed
qed

subsection \<open>From one still to the whole loop\<close>

definition pending_ok :: "'w capture_world \<Rightarrow> 'w capture_run \<Rightarrow> bool" where
  "pending_ok W r \<longleftrightarrow> (\<forall>f. cr_pending r = Some f \<longrightarrow> polled_frame W f)"

lemma quiet_pass_checks [quiet_steps]: "quiet.keeps (pass_checks W)"
  unfolding pass_checks_def by (intro quiet.keeps_intros quiet_steps)

lemma next_frame_effect:
  assumes "next_frame W r = Some (x, r')" and "pending_ok W r"
  shows "same_stills (r\<lparr>cr_pending := None\<rparr>) r' \<and> (\<forall>f. x = Inr f \<longrightarrow> polled_frame W f)"
proof (cases "cr_pending r")
  case None
  then have "acquire_frame W r = Some (x, r')" using assms(1) by (simp add: next_frame_def effect_simps)
  moreover have "r\<lparr>cr_pending := None\<rparr> = r" using None by simp
  ultimately show ?thesis
    using quiet.keepsD [OF quiet_acquire] yieldsD [OF yields_acquire] by (metis (no_types, lifting))
next
  case (Some f)
  then show ?thesis using assms by (auto simp: next_frame_def effect_simps same_stills_def pending_ok_def)
qed

text \<open>
  A relation that holds between states with the same stills and is kept by taking a still from a
  good frame is kept by the whole loop.
\<close>

locale still_relation = kept R for R :: "'w capture_run \<Rightarrow> 'w capture_run \<Rightarrow> bool" +
  fixes W :: "'w capture_world" and cx :: capture_context
  assumes same_kept: "same_stills r r' \<Longrightarrow> R r r'"
    and pending_kept: "R r (r\<lparr>cr_pending := p\<rparr>)"
    and still_kept: "good_frame W frame \<Longrightarrow> take_still W cx frame r = Some (x, r') \<Longrightarrow> R r r'"
begin

lemma quiet_kept: "quiet.keeps m \<Longrightarrow> m r = Some (x, r') \<Longrightarrow> R r r'"
  using quiet.keepsD same_kept by blast

lemma pass_kept:
  assumes "capture_pass W cx r = Some (x, r')" and "pending_ok W r"
  shows "R r r' \<and> pending_ok W r'"
proof -
  obtain y q where checks: "pass_checks W r = Some (y, q)"
    using assms(1) by (cases "pass_checks W r") (auto simp: capture_pass_def effect_simps)
  then have q: "same_stills r q" "pending_ok W q"
    using quiet.keepsD [OF quiet_pass_checks] assms(2) by (fastforce simp: same_stills_def pending_ok_def)+
  show ?thesis
  proof (cases y)
    case (Inl e)
    then show ?thesis using assms(1) checks q same_kept by (simp add: capture_pass_def effect_simps)
  next
    case (Inr u)
    obtain z t where taken: "next_frame W q = Some (z, t)"
      using assms(1) checks Inr by (cases "next_frame W q") (auto simp: capture_pass_def effect_simps)
    note t = next_frame_effect [OF taken q(2)]
    have rt: "R r t" using same_kept [OF q(1)] pending_kept same_kept t kept_trans by blast
    have pending: "cr_pending t = None" using t by (simp add: same_stills_def)
    show ?thesis
    proof (cases "\<exists>frame. z = Inr frame \<and> fm_settings_settled (fr_meta frame)")
      case True
      then obtain frame where z: "z = Inr frame" "fm_settings_settled (fr_meta frame)" by blast
      then have run: "take_still W cx frame t = Some (x, r')"
        using assms(1) checks Inr taken by (simp add: capture_pass_def effect_simps)
      have "good_frame W frame" using t z by (simp add: good_frame_def polled_frame_def)
      then have "R t r'" using run by (rule still_kept)
      moreover have "cr_pending r' = None" using take_still_effect [OF run] pending by auto
      ultimately show ?thesis using rt kept_trans by (auto simp: pending_ok_def)
    next
      case False
      then have "r' = t"
        using assms(1) checks Inr taken by (cases z) (auto simp: capture_pass_def effect_simps)
      then show ?thesis using rt pending by (simp add: pending_ok_def)
    qed
  qed
qed

lemma passes_kept:
  assumes "capture_passes W cx r = Some (x, r')" and "pending_ok W r"
  shows "R r r'"
proof -
  have "R r r' \<and> pending_ok W r'"
    using assms(1) unfolding capture_passes_def
  proof (rule eloop_induct [where P = "\<lambda>_ q. R r q \<and> pending_ok W q" and Q = "\<lambda>_ q. R r q \<and> pending_ok W q"])
    show "R r r \<and> pending_ok W r" using assms(2) kept_refl by simp
  qed (use pass_kept kept_trans in \<open>fastforce split: option.splits\<close>)+
  then show ?thesis ..
qed

lemma bindE:
  assumes "ebind m k r = Some (x, r')"
  obtains (exit) e where "m r = Some (Inl e, r')" "x = Inl e"
    | (go) y q where "m r = Some (Inr y, q)" "k y q = Some (x, r')"
  using assms by (auto simp: effect_simps split: option.splits sum.splits prod.splits)

text \<open>After a quiet prefix it is enough to look at the rest.\<close>

lemma quiet_then:
  assumes "quiet.keeps m" and "ebind m k r = Some (x, r')"
    and "\<And>y q. k y q = Some (x, r') \<Longrightarrow> R q r' \<and> (\<forall>u. x = Inr u \<longrightarrow> P r')"
  shows "R r r' \<and> (\<forall>u. x = Inr u \<longrightarrow> P r')"
  using assms(2)
proof (cases rule: bindE)
  case (exit e)
  then show ?thesis using quiet_kept [OF assms(1)] by simp
next
  case (go y q)
  then show ?thesis using quiet_kept [OF assms(1)] assms(3) kept_trans by blast
qed

lemma first_frame_kept:
  assumes "first_frame W settled frames limits r = Some (x, r')"
  shows "R r r' \<and> (\<forall>u. x = Inr u \<longrightarrow> pending_ok W r')"
proof (cases settled)
  case True
  then have "r' = r\<lparr>cr_pending := None\<rparr>" using assms by (simp add: first_frame_def effect_simps)
  then show ?thesis using pending_kept by (simp add: pending_ok_def)
next
  case False
  then have "ebind (wait_for_auto_settle W frames limits) (\<lambda>frame.
      eupdate (\<lambda>r. set_loop_state (\<lambda>s. s\<lparr>ls_settled := True\<rparr>) (r\<lparr>cr_pending := Some frame\<rparr>))) r = Some (x, r')"
    using assms by (simp add: first_frame_def)
  then show ?thesis
  proof (cases rule: bindE)
    case (exit e)
    then show ?thesis using quiet_kept [OF quiet_settling(3)] by simp
  next
    case (go frame q)
    then have "R r q" "good_frame W frame"
      using quiet_kept [OF quiet_settling(3)] yieldsD [OF yields_settled] by blast+
    moreover have r': "r' = set_loop_state (\<lambda>s. s\<lparr>ls_settled := True\<rparr>) (q\<lparr>cr_pending := Some frame\<rparr>)"
      using go(2) by (simp add: effect_simps)
    moreover have "R (q\<lparr>cr_pending := Some frame\<rparr>) r'"
      unfolding r' by (rule same_kept) (simp add: same_stills_def set_loop_state_def)
    ultimately have "R r r'" using kept_trans [OF kept_trans [OF _ pending_kept]] by blast
    moreover have "polled_frame W frame" using \<open>good_frame W frame\<close> by (simp add: good_frame_def polled_frame_def)
    ultimately show ?thesis unfolding r' pending_ok_def by (simp add: set_loop_state_def)
  qed
qed

lemma quiet_after_first_frame:
  "quiet.keeps (ebind (eupdate (set_exposure_status (\<lambda>x. x\<lparr>sx_settling := False\<rparr>))) (\<lambda>_.
     ebind (progress_publish W) (\<lambda>_.
     ebind (ask (wd_paused W)) (\<lambda>paused.
     eupdate (\<lambda>r. r\<lparr>cr_monitor := set_state (if paused then Paused else Capturing) (cr_monitor r)\<rparr>)))))"
  by (intro quiet.keeps_intros quiet_steps)

lemma start_kept:
  assumes "capture_start W cx r = Some (x, r')"
  shows "R r r' \<and> (\<forall>u. x = Inr u \<longrightarrow> pending_ok W r')"
proof -
  have ending: "R q r' \<and> (\<forall>u. x = Inr u \<longrightarrow> pending_ok W r')"
    if "ebind (first_frame W settled frames limits) (\<lambda>_.
     ebind (eupdate (set_exposure_status (\<lambda>x. x\<lparr>sx_settling := False\<rparr>))) (\<lambda>_.
     ebind (progress_publish W) (\<lambda>_.
     ebind (ask (wd_paused W)) (\<lambda>paused.
     eupdate (\<lambda>r. r\<lparr>cr_monitor := set_state (if paused then Paused else Capturing) (cr_monitor r)\<rparr>))))) q = Some (x, r')"
    for q settled frames limits
    using that
  proof (cases rule: bindE)
    case (exit e)
    then show ?thesis using first_frame_kept by fastforce
  next
    case (go y t)
    then have "same_stills t r'" using quiet.keepsD [OF quiet_after_first_frame] by blast
    moreover have "R q t \<and> pending_ok W t" using first_frame_kept [OF go(1)] by simp
    ultimately show ?thesis using same_kept kept_trans by (fastforce simp: same_stills_def pending_ok_def)
  qed
  show ?thesis
    using assms unfolding capture_start_def
    apply (rule quiet_then [OF quiet.keeps_get])
    apply (simp only: split_beta)
    apply (erule quiet_then [OF quiet_progress(5)])
    apply (erule quiet_then [OF quiet_progress_update(1)])
    apply (erule quiet_then [OF quiet_progress_update(3)])
    apply (erule quiet_then [OF quiet_progress(3)])
    apply (erule ending)
    done
qed

lemma loop_kept:
  assumes "capture_loop W cx bayer has_preview r = Some (x, r')"
  shows "R r r'"
proof -
  have body: "R q t" if "capture_body W cx q = Some (y, t)" for q y t
    using that unfolding capture_body_def
  proof (cases rule: bindE)
    case (exit e)
    then show ?thesis using start_kept by blast
  next
    case (go u s)
    then show ?thesis using start_kept [OF go(1)] passes_kept [OF go(2)] kept_trans by blast
  qed
  have handed: "R t (hand_back t)" for t
    by (rule same_kept) (simp add: same_stills_def hand_back_def set_observer_def set_loop_state_def)
  have over: "quiet.keeps (eupdate (take_over max_fps observer))" for max_fps observer
    by (rule quiet.keeps_update) (simp add: same_stills_def take_over_def set_loop_state_def)
  have observer: "quiet.keeps (observer_new W bayer has_preview)"
    unfolding observer_new_def by (intro quiet.keeps_intros quiet_steps)
  have ending: "R q r' \<and> (\<forall>u. x = Inr u \<longrightarrow> True)"
    if "map_option (\<lambda>(x, r). (loop_result x, if x = Inl Panicked then r else hand_back r)) (capture_body W cx q) = Some (x, r')" for q
    using that by (auto split: if_splits intro: body kept_trans [OF body handed])
  have "R r r' \<and> (\<forall>u. x = Inr u \<longrightarrow> True)"
    using assms unfolding capture_loop_def
    apply (rule quiet_then [OF observer])
    apply (erule quiet_then [OF quiet.keeps_get])
    apply (erule quiet_then [OF quiet_attempt])
    apply (erule quiet_then [OF over])
    apply (erule ending)
    done
  then show ?thesis ..
qed

end

subsection \<open>Numbers and names\<close>

definition stills_follow :: "'w capture_world \<Rightarrow> capture_context \<Rightarrow> 'w capture_run \<Rightarrow> 'w capture_run \<Rightarrow> bool" where
  "stills_follow W cx r r' \<longleftrightarrow>
     (\<exists>jobs. cr_jobs r' = cr_jobs r @ jobs \<and> ls_queued (cr_state r') = ls_queued (cr_state r) + length jobs
        \<and> (\<forall>i < length jobs. \<exists>frame. good_frame W frame \<and> still_of cx frame (ls_queued (cr_state r) + i) (jobs ! i)))"

lemma stills_follow_trans:
  assumes "stills_follow W cx r s" and "stills_follow W cx s t"
  shows "stills_follow W cx r t"
proof -
  obtain js where js: "cr_jobs s = cr_jobs r @ js" "ls_queued (cr_state s) = ls_queued (cr_state r) + length js"
    "\<forall>i < length js. \<exists>frame. good_frame W frame \<and> still_of cx frame (ls_queued (cr_state r) + i) (js ! i)"
    using assms(1) by (auto simp: stills_follow_def)
  obtain ks where ks: "cr_jobs t = cr_jobs s @ ks" "ls_queued (cr_state t) = ls_queued (cr_state s) + length ks"
    "\<forall>i < length ks. \<exists>frame. good_frame W frame \<and> still_of cx frame (ls_queued (cr_state s) + i) (ks ! i)"
    using assms(2) by (auto simp: stills_follow_def)
  have "\<exists>frame. good_frame W frame \<and> still_of cx frame (ls_queued (cr_state r) + i) ((js @ ks) ! i)"
    if "i < length (js @ ks)" for i
  proof (cases "i < length js")
    case False
    then have "\<exists>frame. good_frame W frame \<and> still_of cx frame (ls_queued (cr_state s) + (i - length js)) (ks ! (i - length js))"
      using that ks(3) [rule_format, of "i - length js"] by simp
    then show ?thesis using False js(2) by (simp add: nth_append)
  qed (use js(3) in \<open>simp add: nth_append\<close>)
  then show ?thesis using js ks unfolding stills_follow_def by (intro exI [of _ "js @ ks"]) simp
qed

interpretation following: still_relation "stills_follow W cx" W cx for W :: "'w capture_world" and cx
proof
  show "stills_follow W cx r r" for r by (simp add: stills_follow_def)
  show "stills_follow W cx r t" if "stills_follow W cx r s" "stills_follow W cx s t" for r s t
    using that by (rule stills_follow_trans)
  show "stills_follow W cx r r'" if "same_stills r r'" for r r'
    using that by (simp add: stills_follow_def same_stills_def)
  show "stills_follow W cx r (r\<lparr>cr_pending := p\<rparr>)" for r p by (simp add: stills_follow_def)
  show "stills_follow W cx r r'" if "good_frame W frame" "take_still W cx frame r = Some (x, r')" for frame r x r'
    using take_still_effect [OF that(2)] that(1)
    by (auto simp: stills_follow_def no_still_def still_added_def)
qed

text \<open>C31: every still handed to the writer is one complete frame the camera delivered with its settings
  settled - its pixels, its width and its height, never a mixture with another frame - and the stills
  are numbered without a gap from the number of the last epoch, whatever the camera, the operator
  and the other threads do, also while exposure is settling and when a deadline forces a frame.\<close>

theorem stills_are_whole_settled_frames:
  assumes "capture_loop W cx bayer has_preview r = Some (x, r')"
  shows "\<exists>jobs. cr_jobs r' = cr_jobs r @ jobs
    \<and> ls_queued (cr_state r') = ls_queued (cr_state r) + length jobs
    \<and> (\<forall>i < length jobs. cj_sequence (jobs ! i) = ls_queued (cr_state r) + i
        \<and> (\<exists>meta timeout w. fst (wd_poll_frame W timeout w) = PolledFrame meta (cj_data (jobs ! i))
            \<and> fm_settings_settled meta \<and> cj_width (jobs ! i) = fm_width meta \<and> cj_height (jobs ! i) = fm_height meta))"
proof -
  obtain jobs where jobs: "cr_jobs r' = cr_jobs r @ jobs"
    "ls_queued (cr_state r') = ls_queued (cr_state r) + length jobs"
    "\<forall>i < length jobs. \<exists>frame. good_frame W frame \<and> still_of cx frame (ls_queued (cr_state r) + i) (jobs ! i)"
    using following.loop_kept [OF assms] by (auto simp: stills_follow_def)
  moreover have "cj_sequence (jobs ! i) = ls_queued (cr_state r) + i
        \<and> (\<exists>meta timeout w. fst (wd_poll_frame W timeout w) = PolledFrame meta (cj_data (jobs ! i))
            \<and> fm_settings_settled meta \<and> cj_width (jobs ! i) = fm_width meta \<and> cj_height (jobs ! i) = fm_height meta)"
    if "i < length jobs" for i
    using jobs(3) that by (fastforce simp: good_frame_def still_of_def)
  ultimately show ?thesis by blast
qed

subsection \<open>An agent to try\<close>

text \<open>Surroundings that answer the same for ever: one frame after the other, nobody interferes.\<close>

definition demo_meta :: frame_meta where
  "demo_meta = \<lparr>fm_conservative_start_unix_ms = None, fm_width = 1, fm_height = 1, fm_image_type = Raw8,
     fm_settings_settled = True\<rparr>"

definition demo_world :: "bool \<Rightarrow> nat \<Rightarrow> send_answer \<Rightarrow> unit capture_world" where
  "demo_world paused generation sent =
     \<lparr>wd_now = \<lambda>w. (7, w), wd_unix_nanos = \<lambda>w. (1700000000123000000, w), wd_sleep = \<lambda>d w. ((), w),
      wd_shutdown = \<lambda>w. (False, w), wd_paused = \<lambda>w. (paused, w), wd_reload_pending = \<lambda>w. (False, w),
      wd_take_reload = \<lambda>w. (False, w), wd_generation = \<lambda>w. (generation, w), wd_load = \<lambda>w. (Inr settings_default, w),
      wd_suspended = \<lambda>w. (False, w), wd_video_finished = \<lambda>w. (False, w), wd_preview_stopped = \<lambda>w. (False, w),
      wd_upload_stopped = \<lambda>w. (False, w), wd_retention_stopped = \<lambda>w. (False, w), wd_is_direct = \<lambda>w. (False, w),
      wd_controls = \<lambda>w. (Inr [], w), wd_control_value = \<lambda>kind w. (Inr (1000, False), w),
      wd_set_control = \<lambda>kind v a w. (Inr (), w), wd_pacing_allowance = \<lambda>w. (0, w), wd_set_max_fps = \<lambda>f w. (Inr (), w),
      wd_pause_between_frames = \<lambda>w. (Inr (), w), wd_start_capture = \<lambda>w. (Inr (), w),
      wd_poll_frame = \<lambda>t w. (PolledFrame demo_meta [42], w), wd_try_send = \<lambda>job w. (sent, w),
      wd_try_publish = \<lambda>job w. ((), w), wd_overlay_for = \<lambda>t w. (None, w), wd_startup_mode = \<lambda>c w. (None, w)\<rparr>"

definition demo_context :: capture_context where
  "demo_context = \<lparr>cx_directory = ''/captures'', cx_nonce_hex = ''0123456789abcdef0123456789abcdef'',
     cx_max_frames = Some 1, cx_preview_session_generation = 0\<rparr>"

definition demo_loop_start :: "unit capture_run" where
  "demo_loop_start = \<lparr>cr_world = (), cr_config = settings_default,
     cr_limits = \<lparr>al_min_exposure_us = 32, al_max_exposure_us = 60000000, al_min_gain = 0, al_max_gain = 300,
       al_target_brightness = 100\<rparr>,
     cr_progress = \<lparr>cp_started = 0, cp_wait = frame_wait_new 1, cp_status = \<lparr>sx_session_generation = 0, sx_settling = True,
       sx_exposure_us = 1, sx_gain = 0, sx_max_exposure_us = 1, sx_settling_frames = 0, sx_settling_min_frames = 4,
       sx_wait_elapsed_ms = 0, sx_frame_timeout_ms = 0\<rparr>, cp_last_completed_at = None\<rparr>,
     cr_observer = \<lparr>co_bayer = Rg, co_has_preview = False, co_preview_cadence = cadence_default,
       co_preview_max_fps = Finite 2, co_adaptive = None, co_sdk_mode = exposure_mode_default, co_mode_started = 0\<rparr>,
     cr_monitor = monitor_new False 0,
     cr_state = \<lparr>ls_settled = True, ls_initial_mode = None, ls_preview_cadence = cadence_default, ls_adaptive = None,
       ls_seen_capture_generation = 0, ls_next_capture = 0, ls_queued = 0\<rparr>,
     cr_pending = None, cr_jobs = []\<rparr>"

lemma demo_world_simps [simp]:
  "wd_now (demo_world p g a) w = (7, w)" "wd_unix_nanos (demo_world p g a) w = (1700000000123000000, w)"
  "wd_shutdown (demo_world p g a) w = (False, w)" "wd_paused (demo_world p g a) w = (p, w)"
  "wd_reload_pending (demo_world p g a) w = (False, w)" "wd_take_reload (demo_world p g a) w = (False, w)"
  "wd_generation (demo_world p g a) w = (g, w)" "wd_suspended (demo_world p g a) w = (False, w)"
  "wd_video_finished (demo_world p g a) w = (False, w)" "wd_preview_stopped (demo_world p g a) w = (False, w)"
  "wd_upload_stopped (demo_world p g a) w = (False, w)" "wd_retention_stopped (demo_world p g a) w = (False, w)"
  "wd_control_value (demo_world p g a) kind w = (Inr (1000, False), w)"
  "wd_pacing_allowance (demo_world p g a) w = (0, w)" "wd_set_max_fps (demo_world p g a) f w = (Inr (), w)"
  "wd_start_capture (demo_world p g a) w = (Inr (), w)"
  "wd_poll_frame (demo_world p g a) t w = (PolledFrame demo_meta [42], w)"
  "wd_try_send (demo_world p g a) job w = (a, w)"
  by (simp_all add: demo_world_def)

lemma demo_meta_settled [simp]: "fm_settings_settled demo_meta"
  by (simp add: demo_meta_def)

lemma demo_not_expired: "\<not> wait_expired 0 w"
  by (simp add: wait_expired_def wait_elapsed_def wait_timeout_def frame_timeout_def sat_dur_add_def duration_max_def
      seconds_def u64_max_def)

lemma demo_acquires:
  assumes "cp_last_completed_at (cr_progress r) = None" and "co_adaptive (cr_observer r) = None"
    and "\<not> co_has_preview (cr_observer r)" and "cp_started (cr_progress r) = 7"
  shows "\<exists>frame r'. acquire_frame (demo_world p g a) r = Some (Inr frame, r') \<and> fr_meta frame = demo_meta
    \<and> cr_state r' = cr_state r \<and> cr_jobs r' = cr_jobs r \<and> cr_config r' = cr_config r"
  using assms demo_not_expired
  by (simp add: acquire_frame_def effect_simps pace_acquisition_def leave_if_shutdown_def
      refresh_and_publish_def progress_refresh_def current_exposure_def current_gain_def progress_publish_def
      attempt_def deadline_check_def since_started_def progress_completed_frame_def adapt_def
      observer_frame_received_def set_progress_def set_wait_def set_exposure_status_def set_observer_def
      Let_def split_beta)

lemma demo_still:
  assumes "ls_next_capture (cr_state r) \<le> 7" and "ls_seen_capture_generation (cr_state r) = 0"
    and "\<not> p \<or> g \<noteq> 0" and "ls_queued (cr_state r) = 0"
  shows "\<exists>r'. take_still (demo_world p g SendOk) demo_context frame r = Some (Inl LeaveLoop, r')
    \<and> length (cr_jobs r') = length (cr_jobs r) + 1"
  using assms
  by (cases p) (auto simp: take_still_def queue_still_def effect_simps set_loop_state_def demo_context_def Let_def split_beta
      demo_world_def)

lemma demo_world_state: "(r :: unit capture_run)\<lparr>cr_world := w\<rparr> = r"
  by (cases r) simp

lemma demo_pass:
  assumes "cr_pending r = None" and "cp_last_completed_at (cr_progress r) = None" and "co_adaptive (cr_observer r) = None"
    and "\<not> co_has_preview (cr_observer r)" and "cp_started (cr_progress r) = 7"
    and "ls_next_capture (cr_state r) \<le> 7" and "ls_seen_capture_generation (cr_state r) = 0"
    and "\<not> p \<or> g \<noteq> 0" and "ls_queued (cr_state r) = 0"
  shows "\<exists>r'. capture_pass (demo_world p g SendOk) demo_context r = Some (Inl LeaveLoop, r')
    \<and> length (cr_jobs r') = length (cr_jobs r) + 1"
proof -
  have checks: "pass_checks (demo_world p g SendOk) r = Some (Inr (), r)"
    by (simp add: pass_checks_def leave_if_shutdown_def fail_if_def effect_simps demo_world_state)
  obtain frame q where q: "acquire_frame (demo_world p g SendOk) r = Some (Inr frame, q)" "fr_meta frame = demo_meta"
    "cr_state q = cr_state r" "cr_jobs q = cr_jobs r"
    using demo_acquires [OF assms(2,3,4,5)] by blast
  obtain r' where "take_still (demo_world p g SendOk) demo_context frame q = Some (Inl LeaveLoop, r')"
    "length (cr_jobs r') = length (cr_jobs q) + 1"
    using demo_still [of q p g frame] assms q(3) by auto
  then show ?thesis
    using checks q assms(1) by (simp add: capture_pass_def next_frame_def effect_simps)
qed

lemma demo_loop_runs:
  assumes "\<not> p \<or> g \<noteq> 0"
  shows "\<exists>r'. capture_loop (demo_world p g SendOk) demo_context Rg False demo_loop_start = Some (Inr False, r')
    \<and> length (cr_jobs r') = 1"
proof -
  let ?W = "demo_world p g SendOk"
  define s where "s = snd (the (ebind (observer_new ?W Rg False) (\<lambda>observer.
     ebind (eget (\<lambda>r. cp_preview_max_fps (st_capture (cr_config r)))) (\<lambda>max_fps.
     ebind (attempt (wd_set_max_fps ?W max_fps)) (\<lambda>_.
     eupdate (take_over max_fps observer)))) demo_loop_start))"
  define q where "q = snd (the (capture_start ?W demo_context s))"
  have start: "capture_start ?W demo_context s = Some (Inr (), q)"
    and q: "cr_pending q = None" "cp_last_completed_at (cr_progress q) = None" "co_adaptive (cr_observer q) = None"
      "\<not> co_has_preview (cr_observer q)" "cp_started (cr_progress q) = 7" "ls_next_capture (cr_state q) \<le> 7"
      "ls_seen_capture_generation (cr_state q) = 0" "ls_queued (cr_state q) = 0" "cr_jobs q = []"
    by (simp_all add: q_def s_def capture_start_def first_frame_def progress_new_def current_exposure_def current_gain_def
        progress_publish_def observer_new_def attempt_def effect_simps take_over_def demo_loop_start_def set_loop_state_def
        set_progress_def set_exposure_status_def split_beta)
  obtain r' where pass: "capture_pass ?W demo_context q = Some (Inl LeaveLoop, r')" "length (cr_jobs r') = 1"
    using demo_pass [OF q(1-7) assms q(8)] q(9) by auto
  then have "capture_passes ?W demo_context q = Some (Inr False, r')"
    unfolding capture_passes_def by (subst eloop.simps) (simp add: pass_end_def)
  then have "capture_body ?W demo_context s = Some (Inr False, r')"
    using start by (simp add: capture_body_def effect_simps)
  then have "capture_loop ?W demo_context Rg False demo_loop_start = Some (Inr False, hand_back r')"
    by (simp add: capture_loop_def effect_simps observer_new_def attempt_def loop_result_def s_def)
  then show ?thesis
    using pass(2) by (intro exI [of _ "hand_back r'"]) (simp add: hand_back_def set_observer_def set_loop_state_def)
qed

theorem stills_are_whole_settled_frames_witness:
  "\<exists>r'. capture_loop (demo_world False 0 SendOk) demo_context Rg False demo_loop_start = Some (Inr False, r')
     \<and> cj_sequence (cr_jobs r' ! 0) = 0 \<and> cj_data (cr_jobs r' ! 0) = [42] \<and> cj_width (cr_jobs r' ! 0) = 1"
proof -
  obtain r' where r': "capture_loop (demo_world False 0 SendOk) demo_context Rg False demo_loop_start = Some (Inr False, r')"
    "length (cr_jobs r') = 1" using demo_loop_runs [of False 0] by blast
  have "cr_jobs demo_loop_start = []" "ls_queued (cr_state demo_loop_start) = 0" by (simp_all add: demo_loop_start_def)
  then show ?thesis
    using stills_are_whole_settled_frames [OF r'(1)] r' by (auto simp: demo_meta_def)
qed

end
