(* ===== verification/CaptureControl.thy ===== *)
theory CaptureControl
  imports CaptureLoopTheorems
begin

text \<open>
  The operator's hold on the capture loop: requests while it is paused, the limit on the number of
  stills, file names, what happens when the writer falls behind, and that pacing comes to an end.
\<close>

subsection \<open>File names\<close>

lemma still_name_parts:
  assumes "length nonce = 32" and "list_all is_lower_hex nonce"
    and "still_name unix nonce n raw = still_name unix' nonce n' raw'"
  shows "n = n'"
proof -
  let ?jpg = "\<lambda>unix n. capture_filename_at (unix div 1000000000) (unix div 1000000 mod 1000) nonce n"
  have stem: "\<exists>stem. ?jpg u n = stem @ ''jpg''" for u n by (simp add: capture_filename_at_def)
  have cut: "still_name u nonce n b = take (length (?jpg u n) - 3) (?jpg u n) @ (if b then ''png'' else ''jpg'')" for u n b
    using stem [of u n] by (auto simp: still_name_def Let_def)
  have "take (length (?jpg unix n) - 3) (?jpg unix n) = take (length (?jpg unix' n') - 3) (?jpg unix' n')"
    using assms(3) unfolding cut by (cases raw; cases raw') auto
  moreover have "?jpg u n = take (length (?jpg u n) - 3) (?jpg u n) @ ''jpg''" for u n
    using stem [of u n] by auto
  ultimately have same: "?jpg unix n = ?jpg unix' n'" by metis
  have "unix div 1000000 mod 1000 < 1000" "unix' div 1000000 mod 1000 < 1000" by simp_all
  from generated_names_unique [OF this(1) assms(1,2) this(2) assms(1,2) same] show ?thesis by blast
qed

lemma path_join_inject: "path_join d a = path_join d b \<longleftrightarrow> a = b"
  by (simp add: path_join_def)

text \<open>No two stills of a session are saved under the same name: the paths of all the stills one
  run of the loop hands to the writer are different, whatever the clock does, even if it is set back
  or the image format changes.\<close>

lemma still_paths_are_distinct:
  assumes "capture_loop W cx bayer has_preview r = Some (x, r')"
    and "length (cx_nonce_hex cx) = 32" and "list_all is_lower_hex (cx_nonce_hex cx)"
  shows "distinct (map cj_output (drop (length (cr_jobs r)) (cr_jobs r')))"
proof -
  obtain jobs where jobs: "cr_jobs r' = cr_jobs r @ jobs"
    "\<forall>i < length jobs. \<exists>frame. good_frame W frame \<and> still_of cx frame (ls_queued (cr_state r) + i) (jobs ! i)"
    using following.loop_kept [OF assms(1)] by (auto simp: stills_follow_def)
  have "i = j" if ij: "i < length jobs" "j < length jobs" "cj_output (jobs ! i) = cj_output (jobs ! j)" for i j
  proof -
    obtain f g where "still_of cx f (ls_queued (cr_state r) + i) (jobs ! i)" "still_of cx g (ls_queued (cr_state r) + j) (jobs ! j)"
      using ij(1,2) jobs(2) by blast
    then obtain u v where
      "cj_output (jobs ! i) = path_join (cx_directory cx) (still_name u (cx_nonce_hex cx) (ls_queued (cr_state r) + i) (cj_raw16 (jobs ! i)))"
      "cj_output (jobs ! j) = path_join (cx_directory cx) (still_name v (cx_nonce_hex cx) (ls_queued (cr_state r) + j) (cj_raw16 (jobs ! j)))"
      unfolding still_of_def by blast
    then have
      "path_join (cx_directory cx) (still_name u (cx_nonce_hex cx) (ls_queued (cr_state r) + i) (cj_raw16 (jobs ! i)))
       = path_join (cx_directory cx) (still_name v (cx_nonce_hex cx) (ls_queued (cr_state r) + j) (cj_raw16 (jobs ! j)))"
      using ij(3) by simp
    then have "ls_queued (cr_state r) + i = ls_queued (cr_state r) + j"
      unfolding path_join_inject by (rule still_name_parts [OF assms(2,3)])
    then show ?thesis by simp
  qed
  then show ?thesis using jobs(1) by (auto simp: distinct_conv_nth)
qed

subsection \<open>Requests\<close>

definition outstanding :: "nat \<Rightarrow> 'w capture_run \<Rightarrow> nat" where
  "outstanding generation r =
     nat ((int generation - int (ls_seen_capture_generation (cr_state r))) mod 18446744073709551616)"

text \<open>With periodic stills ruled out and no new request, each still answers one request.\<close>

definition only_requests :: "'w capture_world \<Rightarrow> nat \<Rightarrow> bool" where
  "only_requests W generation \<longleftrightarrow>
     ((\<forall>w. fst (wd_paused W w)) \<or> (\<forall>w. fst (wd_suspended W w))) \<and> (\<forall>w. fst (wd_generation W w) = generation)
     \<and> generation \<le> u64_max"

definition answers_requests :: "'w capture_world \<Rightarrow> nat \<Rightarrow> 'w capture_run \<Rightarrow> 'w capture_run \<Rightarrow> bool" where
  "answers_requests W generation r r' \<longleftrightarrow>
     (only_requests W generation \<and> ls_seen_capture_generation (cr_state r) \<le> u64_max \<longrightarrow>
       ls_seen_capture_generation (cr_state r') \<le> u64_max
       \<and> length (cr_jobs r') + outstanding generation r' \<le> length (cr_jobs r) + outstanding generation r)"

lemma outstanding_less:
  assumes "generation \<noteq> seen" and "generation \<le> u64_max" and "seen \<le> u64_max"
  shows "nat ((int generation - int (wrap_u64 (seen + 1))) mod 18446744073709551616) + 1
    = nat ((int generation - int seen) mod 18446744073709551616)"
proof -
  let ?M = "18446744073709551616 :: int"
  let ?d = "(int generation - int seen) mod ?M"
  have "?d \<noteq> 0"
  proof
    assume "?d = 0"
    then have "int generation mod ?M = int seen mod ?M" by (simp add: mod_eq_dvd_iff dvd_eq_mod_eq_0)
    then show False using assms by (simp add: u64_max_def)
  qed
  moreover have "0 \<le> ?d" "?d < ?M" by simp_all
  ultimately have "0 \<le> ?d - 1" "?d - 1 < ?M" by linarith+
  have "(int generation - int (wrap_u64 (seen + 1))) mod ?M = (int generation - (int seen + 1)) mod ?M"
    by (simp add: wrap_u64_def zmod_int mod_diff_right_eq add.commute)
  also have "\<dots> = (?d - 1) mod ?M" by (simp add: mod_diff_left_eq diff_diff_eq)
  also have "\<dots> = ?d - 1" using \<open>0 \<le> ?d - 1\<close> \<open>?d - 1 < ?M\<close> by (rule mod_pos_pos_trivial)
  finally show ?thesis using \<open>0 \<le> ?d - 1\<close> by linarith
qed

lemma wrap_u64_le: "wrap_u64 n \<le> u64_max"
  by (simp add: wrap_u64_def u64_max_def less_Suc_eq_le [symmetric])

lemma still_answers_request:
  assumes "take_still W cx frame r = Some (x, r')"
  shows "answers_requests W generation r r'"
  unfolding answers_requests_def
proof (intro impI)
  assume only: "only_requests W generation \<and> ls_seen_capture_generation (cr_state r) \<le> u64_max"
  let ?seen = "ls_seen_capture_generation (cr_state r)"
  from take_still_effect [OF assms] only have
    seen: "ls_seen_capture_generation (cr_state r') = (if generation = ?seen then generation else wrap_u64 (?seen + 1))"
    and still: "no_still r r' \<or> generation \<noteq> ?seen \<and> length (cr_jobs r') = length (cr_jobs r) + 1"
    by (fastforce simp: only_requests_def still_added_def)+
  show "ls_seen_capture_generation (cr_state r') \<le> u64_max
     \<and> length (cr_jobs r') + outstanding generation r' \<le> length (cr_jobs r) + outstanding generation r"
  proof (cases "generation = ?seen")
    case True
    then show ?thesis using seen still only by (simp add: outstanding_def no_still_def)
  next
    case False
    then have "outstanding generation r' + 1 = outstanding generation r"
      using outstanding_less [of generation ?seen] seen only by (simp add: outstanding_def only_requests_def)
    then show ?thesis using seen still False wrap_u64_le by (auto simp: no_still_def)
  qed
qed

interpretation requests: still_relation "answers_requests W generation" W cx
  for W :: "'w capture_world" and generation cx
proof
  show "answers_requests W generation r r" for r by (simp add: answers_requests_def)
  show "answers_requests W generation r t"
    if "answers_requests W generation r s" "answers_requests W generation s t" for r s t
    using that by (force simp: answers_requests_def)
  show "answers_requests W generation r r'" if "same_stills r r'" for r r'
    using that by (simp add: answers_requests_def same_stills_def outstanding_def)
  show "answers_requests W generation r (r\<lparr>cr_pending := p\<rparr>)" for r p
    by (simp add: answers_requests_def outstanding_def)
  show "answers_requests W generation r r'" if "take_still W cx frame r = Some (x, r')" for frame r x r'
    using that by (rule still_answers_request)
qed

text \<open>C32: pausing works: while the agent is paused, or retention has suspended capture, the loop hands at
  most as many stills to the writer as requests for one are outstanding - none without a request -
  and no request is ever served twice, also when the counter of requests wraps around.\<close>

theorem paused_capture_answers_requests_only:
  assumes "capture_loop W cx bayer has_preview r = Some (x, r')"
    and "(\<forall>w. fst (wd_paused W w)) \<or> (\<forall>w. fst (wd_suspended W w))"
    and "\<forall>w. fst (wd_generation W w) = generation" and "generation \<le> u64_max"
    and "ls_seen_capture_generation (cr_state r) \<le> u64_max"
  shows "length (cr_jobs r') - length (cr_jobs r) \<le> outstanding generation r"
proof -
  have "answers_requests W generation r r'" using assms(1) by (rule requests.loop_kept)
  then have "length (cr_jobs r') + outstanding generation r' \<le> length (cr_jobs r) + outstanding generation r"
    using assms(2-) by (simp add: answers_requests_def only_requests_def)
  then show ?thesis by linarith
qed

theorem paused_capture_answers_requests_only_witness:
  "\<exists>r'. capture_loop (demo_world True 1 SendOk) demo_context Rg False demo_loop_start = Some (Inr False, r')
     \<and> length (cr_jobs r') = 1 \<and> length (cr_jobs r') \<le> outstanding 1 demo_loop_start"
proof -
  obtain r' where r': "capture_loop (demo_world True 1 SendOk) demo_context Rg False demo_loop_start = Some (Inr False, r')"
    "length (cr_jobs r') = 1" using demo_loop_runs [of True 1] by auto
  then show ?thesis
    using paused_capture_answers_requests_only [OF r'(1), of 1] by (simp add: u64_max_def demo_loop_start_def)
qed

subsection \<open>A writer that falls behind\<close>

text \<open>C33: a request does not survive a full writer: it counts as served as soon as a frame is looked at,
  so when the queue of the writer is full at that moment, the frame is dropped and no later frame is
  saved for the request.\<close>

theorem full_writer_loses_requests:
  assumes "take_still W cx frame r = Some (x, r')"
    and "\<forall>job w. fst (wd_try_send W job w) = SendFull"
    and "\<forall>w. fst (wd_generation W w) = generation"
    and "generation \<noteq> ls_seen_capture_generation (cr_state r)"
    and "generation \<le> u64_max" and "ls_seen_capture_generation (cr_state r) \<le> u64_max"
  shows "cr_jobs r' = cr_jobs r \<and> outstanding generation r' + 1 = outstanding generation r"
proof -
  have full: "no_still q t" if "queue_still W cx frame due now q = Some (y, t)" for due now q y t
    using that assms(2)
    by (auto simp: queue_still_def effect_simps split_beta Let_def no_still_def set_loop_state_def split: if_splits)
  obtain due now q where "cr_jobs q = cr_jobs r" "queue_still W cx frame due now q = Some (x, r')"
    using take_still_decides [OF assms(1)] assms(3,4) by auto
  then have "cr_jobs r' = cr_jobs r" using full by (simp add: no_still_def)
  moreover have "ls_seen_capture_generation (cr_state r') = wrap_u64 (ls_seen_capture_generation (cr_state r) + 1)"
    using take_still_effect [OF assms(1)] assms(3,4) by auto
  ultimately show ?thesis using outstanding_less [OF assms(4,5,6)] by (simp add: outstanding_def)
qed

definition demo_frame :: completed_frame where
  "demo_frame = \<lparr>fr_meta = demo_meta, fr_data = [42], fr_captured_at_unix_ms = 0, fr_exposure_us = 1000, fr_gain = 0\<rparr>"

theorem full_writer_loses_requests_witness:
  "\<exists>x r'. take_still (demo_world True 1 SendFull) demo_context demo_frame demo_loop_start = Some (x, r')
     \<and> cr_jobs r' = [] \<and> outstanding 1 r' = 0"
proof -
  have "\<exists>x r'. take_still (demo_world True 1 SendFull) demo_context demo_frame demo_loop_start = Some (x, r')"
    by (simp add: take_still_def queue_still_def effect_simps demo_loop_start_def set_loop_state_def Let_def split_beta
        demo_context_def settings_default_def video_default_def)
  then obtain x r' where run: "take_still (demo_world True 1 SendFull) demo_context demo_frame demo_loop_start = Some (x, r')"
    by blast
  then show ?thesis
    using full_writer_loses_requests [OF run, of 1]
    by (simp add: u64_max_def demo_loop_start_def outstanding_def)
qed

subsection \<open>Pacing ends\<close>

text \<open>A monotonic clock that a nap advances by at least its length.\<close>

definition steady_clock :: "'w capture_world \<Rightarrow> ('w \<Rightarrow> nat) \<Rightarrow> bool" where
  "steady_clock W clock \<longleftrightarrow>
     (\<forall>w. fst (wd_now W w) = clock w \<and> clock w \<le> clock (snd (wd_now W w))
        \<and> clock w \<le> clock (snd (wd_shutdown W w)) \<and> clock w \<le> clock (snd (wd_reload_pending W w))
        \<and> clock w \<le> clock (snd (wd_generation W w)) \<and> clock w \<le> clock (snd (wd_pause_between_frames W w))
        \<and> (\<forall>d. clock w + d \<le> clock (snd (wd_sleep W d w))))"

definition pace_delay :: "nat \<Rightarrow> f64 \<Rightarrow> nat option \<Rightarrow> int \<Rightarrow> nat \<Rightarrow> nat" where
  "pace_delay completed max_fps still_due exposure_us now =
     acquisition_delay (now - completed) exposure_us max_fps (map_option (\<lambda>due. due - now) still_due) False"

lemma due_falls:
  fixes x y :: nat
  assumes "x + n \<le> y"
  shows "p - y - m \<le> p - x - m - n" and "s' \<le> s - n \<Longrightarrow> min s' (p - y) - m \<le> min s (p - x) - m - n"
  using assms by linarith+

lemma pace_delay_falls:
  assumes "completed \<le> t" and "t + n \<le> t'"
  shows "pace_delay completed fps due e t' \<le> pace_delay completed fps due e t - n"
proof -
  have later: "(t - completed) + n \<le> t' - completed" using assms by linarith
  show ?thesis
  proof (cases due)
    case None
    then show ?thesis using due_falls(1) [OF later] by (simp add: pace_delay_def acquisition_delay_def Let_def)
  next
    case (Some a)
    have "a - t' \<le> a - t - n" using assms(2) by linarith
    then show ?thesis using Some due_falls(2) [OF later] by (simp add: pace_delay_def acquisition_delay_def Let_def)
  qed
qed

lemma steady_clockD:
  assumes "steady_clock W clock"
  shows "fst (wd_now W w) = clock w" and "clock w \<le> clock (snd (wd_now W w))"
    and "clock w \<le> clock (snd (wd_shutdown W w))" and "clock w \<le> clock (snd (wd_reload_pending W w))"
    and "clock w \<le> clock (snd (wd_generation W w))" and "clock w \<le> clock (snd (wd_pause_between_frames W w))"
    and "clock w + d \<le> clock (snd (wd_sleep W d w))"
  using assms by (simp_all add: steady_clock_def)

lemma pace_remaining_effect:
  assumes "steady_clock W clock"
  shows "\<exists>d w. pace_remaining W completed fps seen due r = Some (Inr d, r\<lparr>cr_world := w\<rparr>)
    \<and> clock (cr_world r) \<le> clock w
    \<and> (d \<noteq> 0 \<longrightarrow> d = pace_delay completed fps due (sx_exposure_us (cp_status (cr_progress r))) (clock (cr_world r)))"
proof (cases seen)
  case None
  then show ?thesis
    by (intro exI [of _ "pace_delay completed fps due (sx_exposure_us (cp_status (cr_progress r))) (clock (cr_world r))"]
        exI [of _ "snd (wd_now W (cr_world r))"])
      (simp add: pace_remaining_def effect_simps steady_clockD [OF assms] pace_delay_def)
next
  case (Some g)
  have "clock (cr_world r) \<le> clock (snd (wd_generation W (snd (wd_now W (cr_world r)))))"
    using steady_clockD(2,5) [OF assms] by (meson le_trans)
  then show ?thesis using Some
    by (auto simp: pace_remaining_def effect_simps steady_clockD(1) [OF assms] pace_delay_def acquisition_delay_def)
qed

text \<open>What a nap and its publication leave.\<close>

lemma pace_nap_effect:
  assumes "steady_clock W clock"
  shows "\<exists>q. ebind (ask (wd_now W)) (\<lambda>idle_started.
         ebind (ask (wd_sleep W d)) (\<lambda>_.
         ebind (ask (wd_now W)) (\<lambda>now.
         ebind (eupdate (set_wait (defer_by (now - idle_started)))) (\<lambda>_.
         ebind (progress_publish W) (\<lambda>_.
         ereturn (Inr ())))))) r = Some (Inr (Inr () :: unit + unit), q)
    \<and> sx_exposure_us (cp_status (cr_progress q)) = sx_exposure_us (cp_status (cr_progress r))
    \<and> clock (cr_world r) + d \<le> clock (cr_world q)"
proof -
  let ?w = "snd (wd_sleep W d (snd (wd_now W (cr_world r))))"
  have "clock (cr_world r) + d \<le> clock ?w"
    using steady_clockD(2,7) [OF assms] by (meson add_le_mono1 le_trans)
  also have "\<dots> \<le> clock (snd (wd_now W (snd (wd_now W (snd (wd_now W ?w))))))"
    using steady_clockD(2) [OF assms] by (meson le_trans)
  finally show ?thesis
    by (simp add: effect_simps progress_publish_def set_wait_def set_progress_def)
qed

text \<open>One round ends the pacing, or leaves the clock later by a nap.\<close>

lemma pace_round_effect:
  assumes clock: "steady_clock W clock" and "completed \<le> clock (cr_world r)"
  shows "\<exists>y q. pace_round W completed fps seen due () r = Some (Inr y, q)
    \<and> sx_exposure_us (cp_status (cr_progress q)) = sx_exposure_us (cp_status (cr_progress r))
    \<and> clock (cr_world r) \<le> clock (cr_world q)
    \<and> (y = Inr () \<longrightarrow> pace_delay completed fps due (sx_exposure_us (cp_status (cr_progress r))) (clock (cr_world q))
        < pace_delay completed fps due (sx_exposure_us (cp_status (cr_progress r))) (clock (cr_world r)))"
proof -
  let ?e = "sx_exposure_us (cp_status (cr_progress r))"
  obtain stop w where stop: "ebind (ask (wd_shutdown W)) (\<lambda>shutdown.
     if shutdown \<or> seen = None then ereturn shutdown else ask (wd_reload_pending W)) r
       = Some (Inr stop, r\<lparr>cr_world := w\<rparr>)" "clock (cr_world r) \<le> clock w"
  proof -
    have "clock (cr_world r) \<le> clock (snd (wd_reload_pending W (snd (wd_shutdown W (cr_world r)))))"
      using steady_clockD(3,4) [OF clock] by (meson le_trans)
    then show thesis
      using that [of True "snd (wd_shutdown W (cr_world r))"] that [of "fst (wd_shutdown W (cr_world r))" "snd (wd_shutdown W (cr_world r))"]
        that [of "fst (wd_reload_pending W (snd (wd_shutdown W (cr_world r))))" "snd (wd_reload_pending W (snd (wd_shutdown W (cr_world r))))"]
        steady_clockD(3) [OF clock] by (cases "fst (wd_shutdown W (cr_world r)) \<or> seen = None") (simp_all add: effect_simps)
  qed
  have first: "pace_round W completed fps seen due () r =
    (if stop then Some (Inr (Inl ()), r\<lparr>cr_world := w\<rparr>)
     else ebind (pace_remaining W completed fps seen due) (\<lambda>delay.
       if delay = 0 then ereturn (Inl ())
       else ebind (ask (wd_now W)) (\<lambda>idle_started.
         ebind (ask (wd_sleep W (min delay (millis 25)))) (\<lambda>_.
         ebind (ask (wd_now W)) (\<lambda>now.
         ebind (eupdate (set_wait (defer_by (now - idle_started)))) (\<lambda>_.
         ebind (progress_publish W) (\<lambda>_.
         ereturn (Inr ()))))))) (r\<lparr>cr_world := w\<rparr>))"
    using stop(1) by (auto simp: pace_round_def effect_simps split: if_splits)
  show ?thesis
  proof (cases stop)
    case True
    then show ?thesis using first stop(2) by auto
  next
    case False
    obtain d w' where rest: "pace_remaining W completed fps seen due (r\<lparr>cr_world := w\<rparr>) = Some (Inr d, r\<lparr>cr_world := w'\<rparr>)"
      "clock w \<le> clock w'" "d \<noteq> 0 \<longrightarrow> d = pace_delay completed fps due ?e (clock w)"
      using pace_remaining_effect [OF clock, of completed fps seen due "r\<lparr>cr_world := w\<rparr>"] by auto
    show ?thesis
    proof (cases "d = 0")
      case True
      then show ?thesis using first False rest stop(2) by (auto simp: effect_simps)
    next
      case nap: False
      obtain q where q: "pace_round W completed fps seen due () r = Some (Inr (Inr ()), q)"
        "sx_exposure_us (cp_status (cr_progress q)) = ?e" "clock w' + min d (millis 25) \<le> clock (cr_world q)"
        using pace_nap_effect [OF clock, of "min d (millis 25)" "r\<lparr>cr_world := w'\<rparr>"] first False rest nap
        by (auto simp: effect_simps)
      have "pace_delay completed fps due ?e (clock (cr_world q)) \<le> pace_delay completed fps due ?e (clock w) - min d (millis 25)"
        using q(3) rest(2) stop(2) assms(2) by (intro pace_delay_falls) linarith+
      also have "\<dots> < d" using rest(3) nap by (simp add: millis_def)
      also have "d \<le> pace_delay completed fps due ?e (clock (cr_world r))"
        using pace_delay_falls [of completed "clock (cr_world r)" 0 "clock w"] rest(3) nap stop(2) assms(2) by simp
      finally show ?thesis using q stop(2) rest(2) by auto
    qed
  qed
qed

lemma pace_loop_returns:
  assumes "steady_clock W clock" and "completed \<le> clock (cr_world r)"
  shows "\<exists>q. pace_loop W completed fps seen due r = Some (Inr (), q)"
  using assms(2)
proof (induction "pace_delay completed fps due (sx_exposure_us (cp_status (cr_progress r))) (clock (cr_world r))"
    arbitrary: r rule: less_induct)
  case less
  obtain y q where round: "pace_round W completed fps seen due () r = Some (Inr y, q)"
    "sx_exposure_us (cp_status (cr_progress q)) = sx_exposure_us (cp_status (cr_progress r))"
    "clock (cr_world r) \<le> clock (cr_world q)"
    "y = Inr () \<longrightarrow> pace_delay completed fps due (sx_exposure_us (cp_status (cr_progress r))) (clock (cr_world q))
        < pace_delay completed fps due (sx_exposure_us (cp_status (cr_progress r))) (clock (cr_world r))"
    using pace_round_effect [OF assms(1) less.prems] by blast
  have unfold: "pace_loop W completed fps seen due r =
    (case y of Inl u \<Rightarrow> Some (Inr u, q) | Inr u \<Rightarrow> pace_loop W completed fps seen due q)"
    unfolding pace_loop_def using round(1) by (subst eloop.simps) (simp split: sum.split)
  show ?case
  proof (cases y)
    case (Inr u)
    then have "\<exists>t. pace_loop W completed fps seen due q = Some (Inr (), t)"
      using less.hyps [of q] round less.prems by simp
    then show ?thesis using unfold Inr by simp
  qed (use unfold in simp)
qed

text \<open>Pacing the camera never hangs the agent: on a clock that runs on and that naps advance, waiting for
  the preview rate or the next still ends, for every rate, exposure time and deadline, and it fails
  only when the camera refuses to pause.\<close>

lemma pacing_ends:
  assumes "steady_clock W clock"
    and "\<forall>completed. cp_last_completed_at (cr_progress r) = Some completed \<longrightarrow> completed \<le> clock (cr_world r)"
  shows "\<exists>x q. pace_acquisition W fps seen due r = Some (x, q)
    \<and> (case x of Inl e \<Rightarrow> \<exists>message w. fst (wd_pause_between_frames W w) = Inl message \<and> e = CaptureFailed message
       | Inr _ \<Rightarrow> True)"
proof (cases "cp_last_completed_at (cr_progress r)")
  case None
  then show ?thesis by (simp add: pace_acquisition_def effect_simps)
next
  case (Some completed)
  let ?r = "set_progress (\<lambda>p. p\<lparr>cp_last_completed_at := None\<rparr>) r"
  obtain d w where rest: "pace_remaining W completed fps seen due ?r = Some (Inr d, ?r\<lparr>cr_world := w\<rparr>)"
    "clock (cr_world r) \<le> clock w"
    using pace_remaining_effect [OF assms(1), of completed fps seen due ?r] by (auto simp: set_progress_def)
  define w2 where "w2 = snd (wd_shutdown W w)"
  define w3 where "w3 = snd (wd_pause_between_frames W w2)"
  have "completed \<le> clock w3"
    using assms(2) Some rest(2) steady_clockD(3,6) [OF assms(1)] unfolding w2_def w3_def by (meson le_trans)
  then obtain q where q: "pace_loop W completed fps seen due (?r\<lparr>cr_world := w3\<rparr>) = Some (Inr (), q)"
    using pace_loop_returns [OF assms(1), where r = "?r\<lparr>cr_world := w3\<rparr>" and completed = completed
        and fps = fps and seen = seen and due = due] by auto
  show ?thesis
    using Some rest(1) q
    by (auto simp: pace_acquisition_def effect_simps attempt_def w2_def [symmetric] w3_def [symmetric] split: sum.split)
qed

text \<open>The time is the state of the surroundings.\<close>

definition ticking_world :: "nat capture_world" where
  "ticking_world =
     \<lparr>wd_now = \<lambda>w. (w, w + 1), wd_unix_nanos = \<lambda>w. (w, w), wd_sleep = \<lambda>d w. ((), w + d),
      wd_shutdown = \<lambda>w. (False, w), wd_paused = \<lambda>w. (False, w), wd_reload_pending = \<lambda>w. (False, w),
      wd_take_reload = \<lambda>w. (False, w), wd_generation = \<lambda>w. (0, w), wd_load = \<lambda>w. (Inr settings_default, w),
      wd_suspended = \<lambda>w. (False, w), wd_video_finished = \<lambda>w. (False, w), wd_preview_stopped = \<lambda>w. (False, w),
      wd_upload_stopped = \<lambda>w. (False, w), wd_retention_stopped = \<lambda>w. (False, w), wd_is_direct = \<lambda>w. (False, w),
      wd_controls = \<lambda>w. (Inr [], w), wd_control_value = \<lambda>kind w. (Inr (1000, False), w),
      wd_set_control = \<lambda>kind v a w. (Inr (), w), wd_pacing_allowance = \<lambda>w. (0, w), wd_set_max_fps = \<lambda>f w. (Inr (), w),
      wd_pause_between_frames = \<lambda>w. (Inr (), w), wd_start_capture = \<lambda>w. (Inr (), w),
      wd_poll_frame = \<lambda>t w. (PollTimeout, w), wd_try_send = \<lambda>job w. (SendOk, w),
      wd_try_publish = \<lambda>job w. ((), w), wd_overlay_for = \<lambda>t w. (None, w), wd_startup_mode = \<lambda>c w. (None, w)\<rparr>"

definition ticking_run :: "nat capture_run" where
  "ticking_run = \<lparr>cr_world = 5, cr_config = cr_config demo_loop_start, cr_limits = cr_limits demo_loop_start,
     cr_progress = (cr_progress demo_loop_start)\<lparr>cp_last_completed_at := Some 3\<rparr>,
     cr_observer = cr_observer demo_loop_start, cr_monitor = cr_monitor demo_loop_start,
     cr_state = cr_state demo_loop_start, cr_pending = None, cr_jobs = []\<rparr>"

end
