(* ===== verification/FileNames.thy ===== *)
theory FileNames
  imports Paths
begin

text \<open>
  File names and their extensions (\<open>Path::file_name\<close>, \<open>Path::extension\<close> and
  \<open>Path::with_extension\<close>) for a path that ends in a plain name.
\<close>

definition plain_name :: "string \<Rightarrow> string" where
  "plain_name path = rev (takeWhile (\<lambda>c. c \<noteq> CHR ''/'') (rev path))"

definition plain_parent :: "string \<Rightarrow> string" where
  "plain_parent path = take (length path - length (plain_name path)) path"

definition file_extension :: "string \<Rightarrow> string option" where
  "file_extension name =
     (let after = takeWhile (\<lambda>c. c \<noteq> CHR ''.'') (rev name) in
      if length after + 1 < length name then Some (rev after) else None)"

definition with_extension :: "string \<Rightarrow> string \<Rightarrow> string" where
  "with_extension path extension =
     (case file_extension (plain_name path) of
        None \<Rightarrow> path
      | Some old \<Rightarrow> take (length path - (length old + 1)) path) @ ''.'' @ extension"

lemma plain_split:
  "rev (dropWhile (\<lambda>c. c \<noteq> CHR ''/'') (rev path)) @ plain_name path = path"
  unfolding plain_name_def by (metis rev_append rev_rev_ident takeWhile_dropWhile_id)

lemma plain_parent_eq: "plain_parent path = rev (dropWhile (\<lambda>c. c \<noteq> CHR ''/'') (rev path))"
  (is "_ = ?front")
proof -
  have "take (length (?front @ plain_name path) - length (plain_name path)) (?front @ plain_name path) = ?front" by simp
  then show ?thesis unfolding plain_split plain_parent_def .
qed

lemma plain_path: "plain_parent path @ plain_name path = path"
  unfolding plain_parent_eq by (rule plain_split)

lemma plain_parent_end: "plain_parent path = [] \<or> last (plain_parent path) = CHR ''/''"
  using hd_dropWhile [of "\<lambda>c. c \<noteq> CHR ''/''" "rev path"] unfolding plain_parent_eq
  by (cases "dropWhile (\<lambda>c. c \<noteq> CHR ''/'') (rev path)") auto

lemma path_join_plain: "path_join (plain_parent path) (plain_name path) = path"
  unfolding path_join_def using plain_parent_end [of path] plain_path [of path] by presburger

text \<open>Files beside the same configuration differ exactly if their extensions do.\<close>

lemma with_extension_inject: "with_extension path a = with_extension path b \<longleftrightarrow> a = b"
  by (simp add: with_extension_def)

end
