(* ===== verification/StillWriter.thy ===== *)
theory StillWriter
  imports CaptureLoop SettingsStore UploadWorker FileNames
begin

text \<open>
  The thread that saves stills (\<open>writer_loop\<close>, \<open>save_rgb_samples\<close> and
  \<open>publish_temporary_artifact\<close> in \<open>autopiercam/src/lib.rs\<close>). The disk maps paths to contents; saving
  yields every disk it passes through, which is what a crash, the upload worker or the retention
  sweep can see. The image encoders and the failures of the operating system are arguments.
\<close>

subsection \<open>Saving one image\<close>

datatype color_type = Rgb8 | Rgb16

datatype save_error =
    SaveIo string io_error
  | PathOccupied string
  | UnsupportedExtension
  | EncodingFailed string
  | ImageFailed image_error
  | WriterWorkerStopped string
  | RecordingFailed string

record save_faults =
  sf_create_dir :: "io_error option"
  sf_create :: "io_error option"
  sf_flush :: "io_error option"
  sf_sync :: "io_error option"
  sf_publish :: "io_error option"
  sf_sync_link :: "io_error option"
  sf_unlink :: "io_error option"
  sf_sync_unlink :: "io_error option"
  sf_cleanup :: "io_error option"

text \<open>An encoder writes a file through a buffer: how many bytes had arrived when it failed.\<close>

type_synonym image_encoder = "string \<Rightarrow> nat \<Rightarrow> nat \<Rightarrow> nat \<Rightarrow> color_type \<Rightarrow> u8 list \<Rightarrow> (u8 list \<times> string) + u8 list"

definition temporary_artifact_path :: "nat \<Rightarrow> target_path \<Rightarrow> nat \<Rightarrow> string" where
  "temporary_artifact_path process_id target number =
     path_join (tp_parent target)
       (''.'' @ tp_name target @ ''.'' @ decimal process_id @ ''.'' @ decimal number @ ''.partial'')"

definition remove_partial :: "save_faults \<Rightarrow> string \<Rightarrow> disk \<Rightarrow> disk" where
  "remove_partial faults path d = (if sf_cleanup faults = None then d(path := None) else d)"

definition save_failed :: "save_faults \<Rightarrow> string \<Rightarrow> disk list \<Rightarrow> save_error \<Rightarrow> disk list \<times> (save_error + unit)" where
  "save_failed faults path passed e = (passed @ [remove_partial faults path (last passed)], Inl e)"

text \<open>
  \<open>publish_temporary_artifact\<close>: one move that does not replace on Windows, elsewhere a hard link and
  the removal of the temporary name, each followed by a flush of the directory.
\<close>

definition publish_temporary_artifact ::
  "bool \<Rightarrow> save_faults \<Rightarrow> string \<Rightarrow> string \<Rightarrow> disk \<Rightarrow> disk list \<times> (save_error + unit)" where
  "publish_temporary_artifact windows faults temporary destination d =
     (if d destination \<noteq> None then ([d], Inl (PathOccupied destination))
      else case sf_publish faults of
        Some e \<Rightarrow> ([d], Inl (SaveIo destination e))
      | None \<Rightarrow>
          if windows then ([d(temporary := None, destination := d temporary)], Inr ())
          else (let linked = d(destination := d temporary); unlinked = linked(temporary := None) in
            case sf_sync_link faults of
              Some e \<Rightarrow> ([linked], Inl (SaveIo destination e))
            | None \<Rightarrow> (case sf_unlink faults of
                Some e \<Rightarrow> ([linked], Inl (SaveIo temporary e))
              | None \<Rightarrow> (case sf_sync_unlink faults of
                  Some e \<Rightarrow> ([linked, unlinked], Inl (SaveIo destination e))
                | None \<Rightarrow> ([linked, unlinked], Inr ())))))"

definition encode_to_temporary ::
  "save_faults \<Rightarrow> string \<Rightarrow> (u8 list \<times> string) + u8 list \<Rightarrow> disk \<Rightarrow> disk list \<times> (save_error + unit)" where
  "encode_to_temporary faults temporary encoded d =
     (if d temporary \<noteq> None then save_failed faults temporary [d] (PathOccupied temporary)
      else case sf_create faults of
        Some e \<Rightarrow> save_failed faults temporary [d] (SaveIo temporary e)
      | None \<Rightarrow>
          (case encoded of
             Inl (written, message) \<Rightarrow>
               save_failed faults temporary (map (\<lambda>k. d(temporary \<mapsto> take k written)) [0..<Suc (length written)])
                 (EncodingFailed message)
           | Inr bytes \<Rightarrow>
               (let passed = map (\<lambda>k. d(temporary \<mapsto> take k bytes)) [0..<Suc (length bytes)] in
                case sf_flush faults of
                  Some e \<Rightarrow> save_failed faults temporary passed (SaveIo temporary e)
                | None \<Rightarrow> (case sf_sync faults of
                    Some e \<Rightarrow> save_failed faults temporary passed (SaveIo temporary e)
                  | None \<Rightarrow> (passed, Inr ())))))"

definition output_extension :: "target_path \<Rightarrow> string" where
  "output_extension target =
     map ascii_lower (case file_extension (tp_name target) of None \<Rightarrow> [] | Some x \<Rightarrow> x)"

definition save_rgb_samples ::
  "image_encoder \<Rightarrow> bool \<Rightarrow> save_faults \<Rightarrow> nat \<Rightarrow> nat \<Rightarrow> target_path \<Rightarrow> nat \<Rightarrow> nat \<Rightarrow> u8 list \<Rightarrow> nat \<Rightarrow> color_type
     \<Rightarrow> disk \<Rightarrow> disk list \<times> (save_error + unit)" where
  "save_rgb_samples encoder windows faults process_id number target width height rgb quality color d =
     (case (if tp_parent target = [] then None else sf_create_dir faults) of
        Some e \<Rightarrow> ([d], Inl (SaveIo (tp_parent target) e))
      | None \<Rightarrow>
          (let extension = output_extension target;
               temporary = temporary_artifact_path process_id target number
           in if extension \<notin> {''jpg'', ''jpeg'', ''png''} then ([d], Inl UnsupportedExtension)
              else case encode_to_temporary faults temporary (encoder extension quality width height color rgb) d of
                (passed, Inl e) \<Rightarrow> (passed, Inl e)
              | (passed, Inr _) \<Rightarrow>
                  (case publish_temporary_artifact windows faults temporary (target_text target) (last passed) of
                     (moved, Inl e) \<Rightarrow> save_failed faults temporary (passed @ moved) e
                   | (moved, Inr _) \<Rightarrow> (passed @ moved, Inr ()))))"

definition save_rgb ::
  "image_encoder \<Rightarrow> bool \<Rightarrow> save_faults \<Rightarrow> nat \<Rightarrow> nat \<Rightarrow> target_path \<Rightarrow> nat \<Rightarrow> nat \<Rightarrow> u8 list \<Rightarrow> nat
     \<Rightarrow> disk \<Rightarrow> disk list \<times> (save_error + unit)" where
  "save_rgb encoder windows faults process_id number target width height rgb quality =
     save_rgb_samples encoder windows faults process_id number target width height rgb quality Rgb8"

subsection \<open>The loop over jobs\<close>

text \<open>
  The surroundings of the writer: what the operating system answers to the next image, what other
  threads have done to the disk in the meantime, and the upload service, the retention thread and
  the timelapse recorder where they run.
\<close>

record 'w writer_world =
  ww_encoder :: image_encoder
  ww_windows :: bool
  ww_process_id :: nat
  ww_faults :: "'w \<Rightarrow> save_faults \<times> 'w"
  ww_number :: "'w \<Rightarrow> nat \<times> 'w"
  ww_meanwhile :: "disk \<Rightarrow> 'w \<Rightarrow> disk \<times> 'w"
  ww_timelapse :: "(capture_job \<Rightarrow> 'w \<Rightarrow> unit \<times> 'w) option"
  ww_try_enqueue :: "(string \<Rightarrow> 'w \<Rightarrow> (string + enqueue_result) \<times> 'w) option"
  ww_try_wake :: "('w \<Rightarrow> wake_result \<times> 'w) option"

text \<open>The disks are all those the writer has caused so far, the latest last; the recorded paths are
  those it has handed to the upload service, with the disk at that time.\<close>

record 'w writer_run =
  wr_world :: 'w
  wr_disk :: disk
  wr_disks :: "disk list"
  wr_monitor :: agent_monitor
  wr_recorded :: "(string \<times> disk) list"

type_synonym ('w, 'a) writing = "('w writer_run, save_error, 'a) effect"

definition writer_ask :: "('w \<Rightarrow> 'a \<times> 'w) \<Rightarrow> ('w, 'a) writing" where
  "writer_ask f = elift (\<lambda>r. case f (wr_world r) of (x, w) \<Rightarrow> (x, r\<lparr>wr_world := w\<rparr>))"

text \<open>A job's path as a directory and a plain name.\<close>

definition output_target :: "string \<Rightarrow> target_path" where
  "output_target path = \<lparr>tp_parent = plain_parent path, tp_name = plain_name path\<rparr>"

text \<open>Sixteen-bit samples in memory order, which is little-endian on every supported machine.\<close>

definition u16_bytes :: "u16 \<Rightarrow> u8 list" where
  "u16_bytes v = [ucast v, ucast (drop_bit 8 v)]"

text \<open>The samples of an image and their colour type.\<close>

definition job_samples :: "capture_job \<Rightarrow> image_error + u8 list \<times> color_type" where
  "job_samples job =
     (if cj_raw16 job
      then rbind (demosaic_bilinear16 (cj_data job) (cj_width job) (cj_height job) (cj_bayer job)) (\<lambda>rgb.
        Inr (concat (map u16_bytes rgb), Rgb16))
      else rbind (demosaic_bilinear (cj_data job) (cj_width job) (cj_height job) (cj_bayer job)) (\<lambda>rgb.
        Inr (rgb, Rgb8)))"

definition job_stats :: "capture_job \<Rightarrow> u8 list \<Rightarrow> image_error + luma_statistics" where
  "job_stats job rgb = (if cj_raw16 job then raw16_stats (cj_data job) 64 else luma_stats rgb 64)"

definition save_job :: "'w writer_world \<Rightarrow> capture_job \<Rightarrow> u8 list \<Rightarrow> color_type \<Rightarrow> ('w, unit) writing" where
  "save_job W job rgb color =
     ebind (writer_ask (ww_faults W)) (\<lambda>faults.
     ebind (writer_ask (ww_number W)) (\<lambda>number.
     ebind (elift (\<lambda>r. case save_rgb_samples (ww_encoder W) (ww_windows W) faults (ww_process_id W) number
           (output_target (cj_output job)) (cj_width job) (cj_height job) rgb (cj_jpeg_quality job) color (wr_disk r) of
         (passed, result) \<Rightarrow> (result, r\<lparr>wr_disk := last passed, wr_disks := wr_disks r @ passed\<rparr>)))
       (etry (\<lambda>e. e))))"

definition enqueue_job :: "'w writer_world \<Rightarrow> string \<Rightarrow> ('w, unit) writing" where
  "enqueue_job W output_path =
     (case ww_try_enqueue W of
        None \<Rightarrow> ereturn ()
      | Some enqueue \<Rightarrow>
          ebind (eupdate (\<lambda>r. r\<lparr>wr_recorded := wr_recorded r @ [(output_path, wr_disk r)]\<rparr>)) (\<lambda>_.
          ebind (writer_ask (enqueue output_path)) (\<lambda>answer.
          case answer of
            Inl message \<Rightarrow> eexit (RecordingFailed message)
          | Inr EnqueueWorkerStopped \<Rightarrow> eexit (WriterWorkerStopped ''upload worker stopped'')
          | Inr _ \<Rightarrow> ereturn ())))"

definition wake_retention :: "'w writer_world \<Rightarrow> ('w, unit) writing" where
  "wake_retention W =
     (case ww_try_wake W of
        None \<Rightarrow> ereturn ()
      | Some wake \<Rightarrow>
          ebind (writer_ask wake) (\<lambda>answer.
          eguard (answer = WakeStopped) (WriterWorkerStopped ''capture retention worker stopped'')))"

definition write_still :: "'w writer_world \<Rightarrow> capture_job \<Rightarrow> ('w, unit) writing" where
  "write_still W job =
     ebind (elift (\<lambda>r. case ww_meanwhile W (wr_disk r) (wr_world r) of (d, w) \<Rightarrow> ((), r\<lparr>wr_disk := d, wr_world := w\<rparr>))) (\<lambda>_.
     ebind (etry ImageFailed (job_samples job)) (\<lambda>(rgb, color).
     ebind (save_job W job rgb color) (\<lambda>_.
     ebind (case ww_timelapse W of None \<Rightarrow> ereturn () | Some record_frame \<Rightarrow> writer_ask (record_frame job)) (\<lambda>_.
     ebind (etry ImageFailed (job_stats job rgb)) (\<lambda>_.
     ebind (eupdate (\<lambda>r. r\<lparr>wr_monitor := artifact_saved (cj_output job) (wr_monitor r)\<rparr>)) (\<lambda>_.
     ebind (enqueue_job W (cj_output job)) (\<lambda>_.
     wake_retention W)))))))"

text \<open>The jobs are those received until the capture loop has dropped its sender.\<close>

fun writer_loop :: "'w writer_world \<Rightarrow> capture_job list \<Rightarrow> ('w, unit) writing" where
  "writer_loop W [] = ereturn ()"
| "writer_loop W (job # jobs) = ebind (write_still W job) (\<lambda>_. writer_loop W jobs)"

end
