(* ===== verification/StillWriterTheorems.thy ===== *)
theory StillWriterTheorems
  imports StillWriter
begin

text \<open>
  Stills appear under their names whole or not at all, never over a file that was there, and the
  upload service hears of a still only once it is whole on the disk.
\<close>

subsection \<open>One image\<close>

lemma temporary_artifact_path_not_target [simp]: "temporary_artifact_path p t n \<noteq> target_text t"
proof -
  have "length (tp_name t) < length (''.'' @ tp_name t @ ''.'' @ decimal p @ ''.'' @ decimal n @ ''.partial'')"
    by simp
  then show ?thesis
    by (auto simp: temporary_artifact_path_def target_text_def path_join_def dest: arg_cong [of _ _ length])
qed

lemmas target_not_temporary [simp] = temporary_artifact_path_not_target [THEN not_sym]

lemma output_target_text: "target_text (output_target path) = path"
  by (simp add: target_text_def output_target_def path_join_plain)

text \<open>The temporary file is the only path touched while the image is encoded.\<close>

lemma encode_to_temporary_disks:
  assumes "encode_to_temporary faults temporary encoded d = (disks, r)"
  shows "disks \<noteq> [] \<and> (\<forall>x \<in> set disks. \<forall>p. p \<noteq> temporary \<longrightarrow> x p = d p)
    \<and> (r = Inr () \<longrightarrow> (\<exists>bytes. encoded = Inr bytes \<and> last disks = d(temporary \<mapsto> bytes)))"
  using assms
  by (auto simp: encode_to_temporary_def save_failed_def remove_partial_def Let_def last_map
      split: if_splits option.splits sum.splits prod.splits)

lemma publish_temporary_artifact_disks:
  assumes "publish_temporary_artifact windows faults temporary destination d = (disks, r)"
    and "temporary \<noteq> destination"
  shows "disks \<noteq> [] \<and> (\<forall>x \<in> set disks. (x destination = d destination \<or> d destination = None \<and> x destination = d temporary)
        \<and> (\<forall>p. p \<noteq> temporary \<and> p \<noteq> destination \<longrightarrow> x p = d p))
    \<and> (r = Inr () \<longrightarrow> d destination = None \<and> last disks = d(temporary := None, destination := d temporary))"
  using assms
  by (auto simp: publish_temporary_artifact_def Let_def fun_upd_twist split: if_splits option.splits)

lemma remove_partial_other: "p \<noteq> temporary \<Longrightarrow> remove_partial faults temporary d p = d p"
  by (simp add: remove_partial_def)

lemma saved_run:
  assumes "save_rgb_samples encoder windows faults process_id number target width height rgb quality color d = (disks, r)"
  shows "(\<forall>x \<in> set disks.
        (x (target_text target) = d (target_text target)
         \<or> d (target_text target) = None \<and> (\<exists>bytes. encoder (output_extension target) quality width height color rgb = Inr bytes
              \<and> x (target_text target) = Some bytes))
      \<and> (\<forall>p. p \<noteq> temporary_artifact_path process_id target number \<and> p \<noteq> target_text target \<longrightarrow> x p = d p))
    \<and> (r = Inr () \<longrightarrow> d (target_text target) = None
        \<and> (\<exists>bytes. encoder (output_extension target) quality width height color rgb = Inr bytes
            \<and> last disks = d(temporary_artifact_path process_id target number := None, target_text target \<mapsto> bytes)))"
proof -
  let ?t = "temporary_artifact_path process_id target number" and ?p = "target_text target"
  let ?e = "encoder (output_extension target) quality width height color rgb"
  obtain passed w where enc: "encode_to_temporary faults ?t ?e d = (passed, w)" by fastforce
  note e = encode_to_temporary_disks [OF enc]
  obtain moved v where pub: "publish_temporary_artifact windows faults ?t ?p (last passed) = (moved, v)" by fastforce
  note m = publish_temporary_artifact_disks [OF pub temporary_artifact_path_not_target]
  have l: "last passed \<in> set passed" "last moved \<in> set moved" using e m by simp_all
  have keep: "\<forall>x \<in> set passed. x ?p = d ?p \<and> (\<forall>p. p \<noteq> ?t \<and> p \<noteq> ?p \<longrightarrow> x p = d p)"
    using e by (metis temporary_artifact_path_not_target)
  show ?thesis
  proof (cases "disks = [d] \<and> r \<noteq> Inr () \<or> w \<noteq> Inr ()")
    case True
    then show ?thesis
      using assms e keep enc
      by (auto simp: save_rgb_samples_def Let_def split: option.splits if_splits sum.splits)
  next
    case False
    then have run: "(disks, r) = (case v of Inl e \<Rightarrow> save_failed faults ?t (passed @ moved) e | Inr _ \<Rightarrow> (passed @ moved, Inr ()))"
      using assms enc pub by (auto simp: save_rgb_samples_def Let_def split: option.splits if_splits sum.splits)
    from False e obtain bytes where b: "?e = Inr bytes" "last passed = d(?t \<mapsto> bytes)" by auto
    have placed: "\<forall>x \<in> set moved. (x ?p = d ?p \<or> d ?p = None \<and> x ?p = Some bytes) \<and> (\<forall>p. p \<noteq> ?t \<and> p \<noteq> ?p \<longrightarrow> x p = d p)"
      using m b(2) by (auto simp: fun_upd_apply)
    have fin: "v = Inr () \<longrightarrow> d ?p = None \<and> last moved = d(?t := None, ?p \<mapsto> bytes)"
      using m b(2) by (auto simp: fun_upd_apply fun_eq_iff)
    define good where "good x \<longleftrightarrow> (x ?p = d ?p \<or> d ?p = None \<and> x ?p = Some bytes)
      \<and> (\<forall>p. p \<noteq> ?t \<and> p \<noteq> ?p \<longrightarrow> x p = d p)" for x
    have "\<forall>x \<in> set (passed @ moved). good x"
      using keep placed unfolding good_def set_append by blast
    moreover have "good (remove_partial faults ?t (last (passed @ moved)))"
      using placed l m unfolding good_def by (simp add: remove_partial_other)
    moreover have "last (passed @ moved) = last moved" using m by simp
    ultimately have "(\<forall>x \<in> set disks. good x)
        \<and> (r = Inr () \<longrightarrow> d ?p = None \<and> last disks = d(?t := None, ?p \<mapsto> bytes))"
      using run fin by (cases v) (simp_all add: save_failed_def ball_Un)
    then show ?thesis
      using b(1) unfolding good_def by blast
  qed
qed

text \<open>C34: however an image's encoding, flushing, linking or cleaning up fails, every disk that saving it
  passes through shows its path either as it was or, where nothing was there before, with the complete
  encoded image; no other path but the temporary one is touched. Success means that the path was free,
  now holds the complete image, and the temporary file is gone.\<close>

theorem saved_whole_or_not_at_all:
  assumes "save_rgb_samples encoder windows faults process_id number target width height rgb quality color d = (disks, r)"
  shows "(\<forall>x \<in> set disks.
        (x (target_text target) = d (target_text target)
         \<or> d (target_text target) = None \<and> (\<exists>bytes. encoder (output_extension target) quality width height color rgb = Inr bytes
              \<and> x (target_text target) = Some bytes))
      \<and> (\<forall>p. p \<noteq> temporary_artifact_path process_id target number \<and> p \<noteq> target_text target \<longrightarrow> x p = d p))
    \<and> (r = Inr () \<longrightarrow> d (target_text target) = None
        \<and> (\<exists>bytes. encoder (output_extension target) quality width height color rgb = Inr bytes
            \<and> last disks = d(temporary_artifact_path process_id target number := None, target_text target \<mapsto> bytes)))"
  using saved_run [OF assms] .

definition no_save_faults :: save_faults where
  "no_save_faults = \<lparr>sf_create_dir = None, sf_create = None, sf_flush = None, sf_sync = None, sf_publish = None,
     sf_sync_link = None, sf_unlink = None, sf_sync_unlink = None, sf_cleanup = None\<rparr>"

theorem saved_whole_or_not_at_all_witness:
  "\<exists>disks. save_rgb_samples (\<lambda>_ _ _ _ _ rgb. Inr rgb) False no_save_faults 7 0 \<lparr>tp_parent = ''frames'', tp_name = ''a.jpg''\<rparr>
       1 1 [1, 2, 3] 90 Rgb8 Map.empty = (disks, Inr ())
     \<and> last disks ''frames/a.jpg'' = Some [1, 2, 3]"
proof -
  let ?target = "\<lparr>tp_parent = ''frames'', tp_name = ''a.jpg''\<rparr>"
  have place: "target_text ?target = ''frames/a.jpg''" by code_simp
  have "output_extension ?target = ''jpg''" by code_simp
  then have "\<exists>disks. save_rgb_samples (\<lambda>_ _ _ _ _ rgb. Inr rgb) False no_save_faults 7 0 ?target
       1 1 [1, 2, 3] 90 Rgb8 Map.empty = (disks, Inr ())"
    by (simp add: save_rgb_samples_def encode_to_temporary_def publish_temporary_artifact_def no_save_faults_def Let_def)
  then obtain disks where run: "save_rgb_samples (\<lambda>_ _ _ _ _ rgb. Inr rgb) False no_save_faults 7 0 ?target
       1 1 [1, 2, 3] 90 Rgb8 Map.empty = (disks, Inr ())" ..
  then show ?thesis using saved_whole_or_not_at_all [OF run] place by auto
qed

subsection \<open>The loop\<close>

text \<open>A path handed to the upload service together with the disk at that moment: the path of the
  job, and the whole encoded image under it.\<close>

definition handed_over_whole :: "'w writer_world \<Rightarrow> capture_job \<Rightarrow> string \<times> disk \<Rightarrow> bool" where
  "handed_over_whole W job = (\<lambda>(path, d). path = cj_output job
     \<and> (\<exists>rgb color bytes. job_samples job = Inr (rgb, color)
         \<and> ww_encoder W (output_extension (output_target path)) (cj_jpeg_quality job) (cj_width job) (cj_height job) color rgb
            = Inr bytes
         \<and> d path = Some bytes))"

lemma writer_ask_run:
  "writer_ask f r = Some (Inr (fst (f (wr_world r))), r\<lparr>wr_world := snd (f (wr_world r))\<rparr>)"
  by (simp add: writer_ask_def effect_simps split: prod.split)

lemma save_job_run:
  "\<exists>x r'. save_job W job rgb color r = Some (x, r') \<and> wr_recorded r' = wr_recorded r
     \<and> (case x of Inl _ \<Rightarrow> True | Inr _ \<Rightarrow>
         (\<exists>bytes. ww_encoder W (output_extension (output_target (cj_output job))) (cj_jpeg_quality job) (cj_width job)
            (cj_height job) color rgb = Inr bytes \<and> wr_disk r' (cj_output job) = Some bytes))"
proof -
  obtain faults w where f: "ww_faults W (wr_world r) = (faults, w)" by fastforce
  obtain number v where n: "ww_number W w = (number, v)" by fastforce
  obtain disks x where s: "save_rgb_samples (ww_encoder W) (ww_windows W) faults (ww_process_id W) number
      (output_target (cj_output job)) (cj_width job) (cj_height job) rgb (cj_jpeg_quality job) color (wr_disk r) = (disks, x)"
    by fastforce
  show ?thesis
    using f n s saved_run [OF s]
    by (cases x) (auto simp: save_job_def effect_simps writer_ask_run output_target_text)
qed

lemma enqueue_job_run:
  "\<exists>x r'. enqueue_job W path r = Some (x, r') \<and> wr_disk r' = wr_disk r
     \<and> wr_recorded r' = wr_recorded r @ (if ww_try_enqueue W = None then [] else [(path, wr_disk r)])"
  by (auto simp: enqueue_job_def effect_simps writer_ask_run split: option.split sum.split enqueue_result.split)

lemma wake_retention_run: "\<exists>x r'. wake_retention W r = Some (x, r') \<and> wr_recorded r' = wr_recorded r"
  by (auto simp: wake_retention_def effect_simps writer_ask_run split: option.split)

lemma write_still_run:
  "\<exists>x r' handed. write_still W job r = Some (x, r') \<and> wr_recorded r' = wr_recorded r @ handed
     \<and> length handed \<le> (if ww_try_enqueue W = None then 0 else 1) \<and> list_all (handed_over_whole W job) handed
     \<and> (if x = Inr () \<and> ww_try_enqueue W \<noteq> None then length handed = 1 else True)"
proof -
  obtain d w where world: "ww_meanwhile W (wr_disk r) (wr_world r) = (d, w)" by fastforce
  define r1 where "r1 = r\<lparr>wr_disk := d, wr_world := w\<rparr>"
  show ?thesis
  proof (cases "job_samples job")
    case (Inl e)
    then show ?thesis using world by (simp add: write_still_def effect_simps)
  next
    case (Inr samples)
    obtain rgb color where rgb: "samples = (rgb, color)" by fastforce
    obtain x r2 where saved: "save_job W job rgb color r1 = Some (x, r2)" "wr_recorded r2 = wr_recorded r"
      "case x of Inl _ \<Rightarrow> True | Inr _ \<Rightarrow>
        (\<exists>bytes. ww_encoder W (output_extension (output_target (cj_output job))) (cj_jpeg_quality job) (cj_width job)
            (cj_height job) color rgb = Inr bytes \<and> wr_disk r2 (cj_output job) = Some bytes)"
      using save_job_run [of W job rgb color r1] by (auto simp: r1_def)
    define r3 where "r3 = (case ww_timelapse W of None \<Rightarrow> r2 | Some f \<Rightarrow> r2\<lparr>wr_world := snd (f job (wr_world r2))\<rparr>)"
    define r4 where "r4 = r3\<lparr>wr_monitor := artifact_saved (cj_output job) (wr_monitor r3)\<rparr>"
    have same: "wr_disk r4 = wr_disk r2" "wr_recorded r4 = wr_recorded r2"
      by (simp_all add: r4_def r3_def split: option.split)
    obtain y r5 where enq: "enqueue_job W (cj_output job) r4 = Some (y, r5)"
      "wr_recorded r5 = wr_recorded r4 @ (if ww_try_enqueue W = None then [] else [(cj_output job, wr_disk r4)])"
      using enqueue_job_run by metis
    obtain z r6 where wake: "wake_retention W r5 = Some (z, r6)" "wr_recorded r6 = wr_recorded r5"
      using wake_retention_run by metis
    have run: "write_still W job r = (case x of Inl e \<Rightarrow> Some (Inl e, r2) | Inr _ \<Rightarrow>
        (case job_stats job rgb of Inl e \<Rightarrow> Some (Inl (ImageFailed e), r3) | Inr _ \<Rightarrow>
          (case y of Inl e \<Rightarrow> Some (Inl e, r5) | Inr _ \<Rightarrow> Some (z, r6))))"
      using world Inr rgb saved(1) [unfolded r1_def] enq(1) [unfolded r4_def r3_def] wake(1)
      by (cases x; cases "job_stats job rgb"; cases y; cases "ww_timelapse W")
        (simp_all add: write_still_def effect_simps writer_ask_run r3_def)
    show ?thesis
    proof (cases "\<exists>v u t. x = Inr v \<and> job_stats job rgb = Inr u \<and> ww_try_enqueue W = Some t")
      case False
      then have "wr_recorded r' = wr_recorded r" if "write_still W job r = Some (q, r')" for q r'
        using that run saved(2) same(2) enq(2) wake(2) by (auto simp: r3_def split: sum.splits option.splits)
      moreover have "\<exists>q r'. write_still W job r = Some (q, r') \<and> (q = Inr () \<longrightarrow> ww_try_enqueue W = None)"
        using run False by (auto split: sum.split)
      ultimately show ?thesis by fastforce
    next
      case True
      then have handed: "handed_over_whole W job (cj_output job, wr_disk r4)"
        using saved(3) same Inr rgb by (auto simp: handed_over_whole_def)
      have "\<exists>q r'. write_still W job r = Some (q, r') \<and> wr_recorded r' = wr_recorded r @ [(cj_output job, wr_disk r4)]"
        using run True enq(2) wake(2) saved(2) same(2) by (auto split: sum.split)
      then show ?thesis using handed True by fastforce
    qed
  qed
qed

text \<open>C35: the writer returns for every list of jobs, whatever the encoder, the operating system and the
  other threads do. The paths it hands to the upload service are those of the jobs, in their order, each
  at a moment when the complete encoded image of that job is on the disk under that path; without an
  error, and with an upload service, every job is handed over.\<close>

theorem uploads_hear_of_whole_stills:
  "\<exists>x r' handed. writer_loop W jobs r = Some (x, r') \<and> wr_recorded r' = wr_recorded r @ handed
     \<and> list_all2 (handed_over_whole W) (take (length handed) jobs) handed
     \<and> length handed \<le> (if ww_try_enqueue W = None then 0 else length jobs)
     \<and> (if x = Inr () \<and> ww_try_enqueue W \<noteq> None then length handed = length jobs else True)"
proof (induction jobs arbitrary: r)
  case Nil
  then show ?case by (simp add: effect_simps)
next
  case (Cons job jobs)
  obtain x r1 first where first: "write_still W job r = Some (x, r1)" "wr_recorded r1 = wr_recorded r @ first"
    "length first \<le> (if ww_try_enqueue W = None then 0 else 1)" "list_all (handed_over_whole W job) first"
    "if x = Inr () \<and> ww_try_enqueue W \<noteq> None then length first = 1 else True"
    using write_still_run [of W job r] by blast
  obtain y r2 rest where rest: "writer_loop W jobs r1 = Some (y, r2)" "wr_recorded r2 = wr_recorded r1 @ rest"
    "list_all2 (handed_over_whole W) (take (length rest) jobs) rest"
    "length rest \<le> (if ww_try_enqueue W = None then 0 else length jobs)"
    "if y = Inr () \<and> ww_try_enqueue W \<noteq> None then length rest = length jobs else True"
    using Cons.IH [of r1] by blast
  show ?case
  proof (cases x)
    case (Inl e)
    then show ?thesis
      using first Inl by (cases first) (auto simp: effect_simps split: if_splits)
  next
    case (Inr u)
    show ?thesis
    proof (cases "ww_try_enqueue W")
      case None
      then have "first = []" "rest = []" using first(3) rest(4) by simp_all
      then show ?thesis using first(1,2) rest(1,2) Inr None by (simp add: effect_simps)
    next
      case (Some t)
      then obtain h where h: "first = [h]" using first(5) Inr by (cases first) auto
      have "writer_loop W (job # jobs) r = Some (y, r2)" using first(1) rest(1) Inr by (simp add: effect_simps)
      moreover have "wr_recorded r2 = wr_recorded r @ (h # rest)" using first(2) rest(2) h by simp
      moreover have "list_all2 (handed_over_whole W) (take (length (h # rest)) (job # jobs)) (h # rest)"
        using rest(3) first(4) h by simp
      ultimately show ?thesis using rest(4,5) Some by fastforce
    qed
  qed
qed

end
