(* ===== verification/LedgerMaintenance.thy ===== *)
theory LedgerMaintenance
  imports LedgerRetention Settings FileNames
begin

text \<open>
  What the offline maintenance of an upload ledger (\<open>ledger_maintenance.rs\<close>) checks: the lease that
  keeps a running agent out, the complete verification of a ledger in the current schema, and the
  conditions for archiving it. A database file is its header, its schema objects and its ledger.
\<close>

subsection \<open>Errors\<close>

datatype lease_error = LeaseOpen io_error | MaintenanceActive string | AgentActive | LeaseLock io_error

datatype maintenance_error =
    ResolvePath string io_error
  | MaintenanceConfig string
  | MaintenanceLease lease_error
  | MaintenanceSqlite string
  | MaintenanceStore store_error
  | MissingLedger string
  | UnsupportedLedgerSchema int
  | InvalidV3Schema
  | Integrity string
  | CaptureRootDiffers
  | InvalidExpectedLedgerId
  | LedgerIdMismatch "u8 list" "u8 list"
  | LiveWork int
  | PermanentFailures int
  | CrashGap string
  | ArchiveExists string
  | RetiredExists string
  | UnsafePath string string
  | PartialArchive string
  | ActiveChangedAfterArchive
  | MaintenanceIo string string io_error
  | CheckpointBusy
  | JournalMode string
  | SidecarPresent string

text \<open>\<open>From<UploadStoreError>\<close>, and \<open>From<rusqlite::Error>\<close> for a query that finds no row.\<close>

definition lift_store :: "store_error + 'a \<Rightarrow> maintenance_error + 'a" where
  "lift_store r = (case r of Inl e \<Rightarrow> Inl (MaintenanceStore e) | Inr x \<Rightarrow> Inr x)"

definition query_row :: "'a option \<Rightarrow> maintenance_error + 'a" where
  "query_row x = ok_or x (MaintenanceSqlite ''query returned no rows'')"

lemma lift_store_Inr [result_simps]: "lift_store r = Inr x \<longleftrightarrow> r = Inr x"
  by (simp add: lift_store_def split: sum.split)

lemma query_row_Inr [result_simps]: "query_row r = Inr x \<longleftrightarrow> r = Some x"
  by (simp add: query_row_def result_simps)

subsection \<open>The lease\<close>

text \<open>The operating system's answer to an attempt to lock the marker file.\<close>

datatype lock_answer = LockGranted | LockWouldBlock | LockFailed io_error

definition maintenance_marker_path :: "string \<Rightarrow> string" where
  "maintenance_marker_path database = database @ ''.maintenance.lock''"

definition lease_acquire :: "string \<Rightarrow> bool \<Rightarrow> io_error + lock_answer \<Rightarrow> lease_error + unit" where
  "lease_acquire database exclusive answer =
     (case answer of
        Inl e \<Rightarrow> Inl (LeaseOpen e)
      | Inr LockGranted \<Rightarrow> Inr ()
      | Inr LockWouldBlock \<Rightarrow> Inl (if exclusive then AgentActive else MaintenanceActive database)
      | Inr (LockFailed e) \<Rightarrow> Inl (LeaseLock e))"

subsection \<open>Finding and opening the database\<close>

record maintenance_paths =
  mp_config :: string
  mp_database :: string
  mp_capture_root :: string

text \<open>
  \<open>maintenance_context\<close>: the absolute configuration path, the loaded configuration and the
  canonical name of the capture directory are answers of the operating system.
\<close>

definition maintenance_context ::
  "string \<Rightarrow> (string \<Rightarrow> io_error + string) \<Rightarrow> (string \<Rightarrow> string + settings) \<Rightarrow> (string \<Rightarrow> io_error + string)
     \<Rightarrow> maintenance_error + maintenance_paths" where
  "maintenance_context config_path absolute load canonical =
     rbind (case absolute config_path of Inl e \<Rightarrow> Inl (ResolvePath config_path e) | Inr p \<Rightarrow> Inr p) (\<lambda>config_path.
     rbind (case load config_path of Inl e \<Rightarrow> Inl (MaintenanceConfig e) | Inr c \<Rightarrow> Inr c) (\<lambda>config.
     let directory = cp_directory (st_capture config);
         configured = (if path_is_absolute directory then directory
           else path_join (plain_parent config_path) directory)
     in rbind (case canonical configured of Inl e \<Rightarrow> Inl (ResolvePath configured e) | Inr p \<Rightarrow> Inr p) (\<lambda>folder.
        Inr \<lparr>mp_config = config_path, mp_database = with_extension config_path ''upload.sqlite3'',
          mp_capture_root = folder\<rparr>)))"

definition safe_regular_file :: "string \<Rightarrow> string \<Rightarrow> io_error + file_kind \<Rightarrow> maintenance_error + bool" where
  "safe_regular_file kind path answer =
     (case answer of
        Inl NotFound \<Rightarrow> Inr False
      | Inl e \<Rightarrow> Inl (MaintenanceIo ''inspect ledger artifact'' path e)
      | Inr found \<Rightarrow> if found \<noteq> RegularFile then Inl (UnsafePath kind path) else Inr True)"

text \<open>SQLite may refuse to open the file; the locking mode is its answer to the request for ownership.\<close>

definition open_existing_exclusive ::
  "string \<Rightarrow> io_error + file_kind \<Rightarrow> string option \<Rightarrow> open_env \<Rightarrow> maintenance_error + unit" where
  "open_existing_exclusive path answer refused env =
     rbind (safe_regular_file ''active upload ledger'' path answer) (\<lambda>exists.
     rbind (require exists (MissingLedger path)) (\<lambda>_.
     rbind (case refused of None \<Rightarrow> Inr () | Some message \<Rightarrow> Inl (MaintenanceSqlite message)) (\<lambda>_.
     lift_store (acquire_exclusive_ownership env))))"

subsection \<open>Verifying a ledger\<close>

definition verify_integrity :: "string \<Rightarrow> maintenance_error + unit" where
  "verify_integrity answer = require (answer = ''ok'') (Integrity answer)"

text \<open>Reading the telemetry columns of the metadata row decodes them; their types are declared.\<close>

definition verify_metadata_telemetry :: "ledger_db option \<Rightarrow> maintenance_error + unit" where
  "verify_metadata_telemetry ledger = rbind (query_row ledger) (\<lambda>_. Inr ())"

definition stored_counts :: "upload_metadata \<Rightarrow> int list" where
  "stored_counts m = [m_pending m, m_in_progress m, m_retrying m, m_completed m, m_permanently_failed m]"

definition actual_counts :: "string list \<Rightarrow> int list" where
  "actual_counts states =
     map (\<lambda>state. int (length (filter (\<lambda>s. s = state) states)))
       [''pending'', ''in_progress'', ''retrying'', ''completed'', ''permanently_failed'']"

definition verify_aggregate_counts :: "int list \<Rightarrow> string list \<Rightarrow> bool \<Rightarrow> maintenance_error + unit" where
  "verify_aggregate_counts stored states v3 =
     (if stored = actual_counts states then Inr ()
      else if v3 then Inl InvalidV3Schema else Inl (MaintenanceStore InvalidSchema))"

definition read_ledger_id :: "ledger_db \<Rightarrow> store_error + u8 list" where
  "read_ledger_id db = (if length (m_ledger_id (db_meta db)) = 16 then Inr (m_ledger_id (db_meta db)) else Inl InvalidSchema)"

text \<open>\<open>verify_v4\<close>; the answer of SQLite's integrity check and the text of the schema are arguments.\<close>

definition verify_v4 ::
  "(u8 list \<Rightarrow> u8 list) \<Rightarrow> (string \<Rightarrow> string option) \<Rightarrow> (string \<times> string \<times> string) list \<Rightarrow> string \<Rightarrow> string
     \<Rightarrow> database_file \<Rightarrow> maintenance_error + u8 list" where
  "verify_v4 sha endpoint schema integrity configured_root file =
     rbind (require (f_user_version file = schema_version) (UnsupportedLedgerSchema (f_user_version file))) (\<lambda>_.
     rbind (verify_integrity integrity) (\<lambda>_.
     rbind (query_row (f_ledger file)) (\<lambda>db.
     let capture_root = m_capture_root (db_meta db); destination = m_destination (db_meta db) in
     rbind (lift_store (verify_canonical_upload_destination endpoint destination)) (\<lambda>_.
     rbind (require (path_eq capture_root configured_root) CaptureRootDiffers) (\<lambda>_.
     rbind (lift_store (verify_schema schema capture_root destination file)) (\<lambda>_.
     rbind (verify_metadata_telemetry (f_ledger file)) (\<lambda>_.
     rbind (verify_aggregate_counts (stored_counts (db_meta db)) (map j_state (db_jobs db)) False) (\<lambda>_.
     rbind (lift_store (verify_persisted_v4_rows sha configured_root db)) (\<lambda>_.
     lift_store (read_ledger_id db))))))))))"

subsection \<open>Conditions for archiving\<close>

definition parse_expected_ledger_id :: "string \<Rightarrow> maintenance_error + u8 list" where
  "parse_expected_ledger_id value =
     (if length value \<noteq> 32 \<or> \<not> list_all is_lower_hex value then Inl InvalidExpectedLedgerId
      else ok_or (hex_decode_exact 16 value) InvalidExpectedLedgerId)"

definition ensure_expected_id :: "u8 list \<Rightarrow> u8 list \<Rightarrow> maintenance_error + unit" where
  "ensure_expected_id expected actual = require (expected = actual) (LedgerIdMismatch expected actual)"

definition ensure_terminal_ledger :: "ledger_db \<Rightarrow> maintenance_error + unit" where
  "ensure_terminal_ledger db =
     (let live = int (length (filter live_job (db_jobs db)));
          permanent = int (length (filter (\<lambda>r. j_state r = ''permanently_failed'') (db_jobs db)))
      in rbind (require (live = 0) (LiveWork live)) (\<lambda>_.
         require (permanent = 0) (PermanentFailures permanent)))"

definition maintenance_io :: "string \<Rightarrow> string \<Rightarrow> io_error + 'a \<Rightarrow> maintenance_error + 'a" where
  "maintenance_io operation path r = (case r of Inl e \<Rightarrow> Inl (MaintenanceIo operation path e) | Inr x \<Rightarrow> Inr x)"

text \<open>Every generated artifact in the capture directory must be recorded or known from before.\<close>

fun crash_gap_scan :: "filesystem \<Rightarrow> string \<Rightarrow> string list \<Rightarrow> (io_error + dir_entry) list \<Rightarrow> maintenance_error + unit" where
  "crash_gap_scan fs folder recorded [] = Inr ()"
| "crash_gap_scan fs folder recorded (entry # rest) =
     rbind (maintenance_io ''read capture-directory entry for archive'' folder entry) (\<lambda>entry.
     case de_name entry of None \<Rightarrow> crash_gap_scan fs folder recorded rest
     | Some filename \<Rightarrow>
         if \<not> is_generated_frame_filename filename then crash_gap_scan fs folder recorded rest
         else (let path = path_join folder filename in
           rbind (maintenance_io ''inspect generated capture for archive'' path (symlink_metadata fs path)) (\<lambda>kind.
           if kind \<noteq> RegularFile then Inl (UnsafePath ''generated capture'' path)
           else if path \<notin> set recorded then Inl (CrashGap path)
           else crash_gap_scan fs folder recorded rest)))"

definition ensure_no_crash_gap :: "filesystem \<Rightarrow> string \<Rightarrow> ledger_db \<Rightarrow> maintenance_error + unit" where
  "ensure_no_crash_gap fs folder db =
     rbind (maintenance_io ''inventory capture directory for archive'' folder (read_dir fs folder)) (\<lambda>entries.
     crash_gap_scan fs folder (map j_artifact_path (db_jobs db) @ db_preactivation db) entries)"

definition ensure_archive_ready :: "filesystem \<Rightarrow> string \<Rightarrow> ledger_db \<Rightarrow> maintenance_error + unit" where
  "ensure_archive_ready fs folder db =
     rbind (ensure_terminal_ledger db) (\<lambda>_. ensure_no_crash_gap fs folder db)"

end
