(* ===== verification/LedgerMigration.thy ===== *)
theory LedgerMigration
  imports LedgerMaintenance
begin

text \<open>
  The migration of a ledger of the previous schema (\<open>migrate_upload_ledger\<close>, \<open>verify_v3\<close>,
  \<open>migrate_v3_to_v4\<close>): one transaction that verifies what it made before it commits. The old rows
  have neither a delivery identity nor revisions. SQLite's answers are arguments.
\<close>

subsection \<open>The previous schema\<close>

record v3_job =
  q_id :: int
  q_artifact_path :: string
  q_filename :: string
  q_idempotency_key :: string
  q_file_size :: int
  q_sha256 :: "u8 list"
  q_state :: string
  q_attempt_count :: int
  q_next_attempt_at :: "int option"
  q_last_http_status :: "int option"
  q_last_error :: "string option"
  q_created_at :: int
  q_updated_at :: int
  q_completed_at :: "int option"
  q_last_failure_at :: "int option"

record v3_metadata =
  n_schema_signature :: string
  n_capture_root :: string
  n_destination :: string
  n_authorization :: "u8 list"
  n_pending :: int
  n_in_progress :: int
  n_retrying :: int
  n_completed :: int
  n_permanently_failed :: int
  n_last_success_at :: "int option"
  n_last_failure_at :: "int option"
  n_last_error :: "string option"

record v3_ledger =
  v3_meta :: v3_metadata
  v3_preactivation :: "string list"
  v3_jobs :: "v3_job list"

text \<open>The CHECK clauses and column types of the old tables, which SQLite enforces.\<close>

definition v3_job_checks :: "v3_job \<Rightarrow> bool" where
  "v3_job_checks r \<longleftrightarrow>
     0 \<le> q_file_size r \<and> length (q_sha256 r) = 32
     \<and> q_state r \<in> {''pending'', ''in_progress'', ''retrying'', ''completed'', ''permanently_failed''}
     \<and> 0 \<le> q_attempt_count r \<and> opt_nonneg (q_next_attempt_at r)
     \<and> (case q_last_http_status r of None \<Rightarrow> True | Some s \<Rightarrow> 100 \<le> s \<and> s \<le> 599)
     \<and> 0 \<le> q_created_at r \<and> 0 \<le> q_updated_at r
     \<and> opt_nonneg (q_completed_at r) \<and> opt_nonneg (q_last_failure_at r)
     \<and> (q_state r = ''retrying'' \<longleftrightarrow> q_next_attempt_at r \<noteq> None)
     \<and> (q_state r = ''completed'' \<longleftrightarrow> q_completed_at r \<noteq> None)"

definition v3_job_in_range :: "v3_job \<Rightarrow> bool" where
  "v3_job_in_range r \<longleftrightarrow>
     in_i64 (q_id r) \<and> in_i64 (q_file_size r) \<and> in_i64 (q_attempt_count r)
     \<and> opt_in_i64 (q_next_attempt_at r) \<and> opt_in_i64 (q_last_http_status r)
     \<and> in_i64 (q_created_at r) \<and> in_i64 (q_updated_at r) \<and> opt_in_i64 (q_completed_at r)
     \<and> opt_in_i64 (q_last_failure_at r)"

definition v3_meta_checks :: "v3_metadata \<Rightarrow> bool" where
  "v3_meta_checks m \<longleftrightarrow>
     n_destination m \<noteq> [] \<and> hd (n_destination m) \<noteq> CHR '' '' \<and> last (n_destination m) \<noteq> CHR '' ''
     \<and> length (n_authorization m) = 32
     \<and> 0 \<le> n_pending m \<and> 0 \<le> n_in_progress m \<and> 0 \<le> n_retrying m
     \<and> 0 \<le> n_completed m \<and> 0 \<le> n_permanently_failed m
     \<and> opt_nonneg (n_last_success_at m) \<and> opt_nonneg (n_last_failure_at m)
     \<and> in_i64 (n_pending m) \<and> in_i64 (n_in_progress m) \<and> in_i64 (n_retrying m)
     \<and> in_i64 (n_completed m) \<and> in_i64 (n_permanently_failed m)
     \<and> opt_in_i64 (n_last_success_at m) \<and> opt_in_i64 (n_last_failure_at m)"

text \<open>Rows in the order of their ids; the unique columns.\<close>

definition v3_constraints :: "v3_ledger \<Rightarrow> bool" where
  "v3_constraints db \<longleftrightarrow>
     sorted_wrt (<) (map q_id (v3_jobs db))
     \<and> list_all (\<lambda>r. v3_job_in_range r \<and> v3_job_checks r) (v3_jobs db)
     \<and> distinct (map q_artifact_path (v3_jobs db)) \<and> distinct (map q_idempotency_key (v3_jobs db))
     \<and> distinct (v3_preactivation db) \<and> list_all (\<lambda>p. p \<noteq> []) (v3_preactivation db)
     \<and> v3_meta_checks (v3_meta db)"

record v3_file =
  f3_user_version :: int
  f3_application_id :: int
  f3_objects :: "(string \<times> string \<times> string) list"
  f3_ledger :: "v3_ledger option"

datatype ledger_file = FileV3 v3_file | FileV4 database_file

fun file_version :: "ledger_file \<Rightarrow> int" where
  "file_version (FileV3 f) = f3_user_version f"
| "file_version (FileV4 f) = f_user_version f"

definition v3_schema_version :: int where
  "v3_schema_version = 3"

definition v3_schema_signature :: string where
  "v3_schema_signature =
     ''autopiercam-upload-ledger-v3-destination-authorization-preactivation-inventory-aggregates-sha256-20260828''"

subsection \<open>The new rows\<close>

text \<open>The bits of the first byte are flipped by \<open>current[0] ^= 0x80\<close>.\<close>

definition legacy_failed_delivery_binding :: "u8 list \<Rightarrow> u8 list" where
  "legacy_failed_delivery_binding current = (case current of [] \<Rightarrow> [] | b # bs \<Rightarrow> (b XOR 0x80) # bs)"

definition migrated_job :: "u8 list \<Rightarrow> u8 list \<Rightarrow> v3_job \<Rightarrow> upload_job" where
  "migrated_job binding legacy r =
     \<lparr>j_id = q_id r, j_artifact_path = q_artifact_path r, j_filename = q_filename r,
      j_idempotency_key = q_idempotency_key r, j_file_size = q_file_size r, j_sha256 = q_sha256 r,
      j_delivery_binding = (if q_state r = ''permanently_failed'' then legacy else binding),
      j_state = q_state r, j_attempt_count = q_attempt_count r, j_next_attempt_at = q_next_attempt_at r,
      j_last_http_status = q_last_http_status r, j_last_error = q_last_error r,
      j_created_at = q_created_at r, j_updated_at = q_updated_at r, j_completed_at = q_completed_at r,
      j_last_failure_at = q_last_failure_at r, j_job_revision = 1, j_requeue_count = 0,
      j_last_requeued_at = None\<rparr>"

definition migrated_metadata :: "u8 list \<Rightarrow> v3_ledger \<Rightarrow> upload_metadata" where
  "migrated_metadata ledger_id db =
     (let m = v3_meta db in
      \<lparr>m_schema_signature = schema_signature, m_ledger_id = ledger_id,
       m_ledger_revision = int (length (v3_jobs db)), m_capture_root = n_capture_root m,
       m_destination = n_destination m, m_authorization = n_authorization m,
       m_pending = n_pending m, m_in_progress = n_in_progress m, m_retrying = n_retrying m,
       m_completed = n_completed m, m_permanently_failed = n_permanently_failed m,
       m_last_success_at = n_last_success_at m, m_last_failure_at = n_last_failure_at m,
       m_last_error = n_last_error m\<rparr>)"

subsection \<open>Verifying the old ledger\<close>

record ledger_identity =
  id_capture_root :: string
  id_destination :: string
  id_authorization :: "u8 list"

text \<open>The identity check reads five columns that both schemas have, and the inherited paths.\<close>

definition v3_as_identities :: "v3_ledger \<Rightarrow> ledger_db" where
  "v3_as_identities db =
     \<lparr>db_meta = migrated_metadata [] db, db_preactivation = v3_preactivation db,
      db_jobs = map (migrated_job [] []) (v3_jobs db)\<rparr>"

fun verify_v3_objects ::
  "(string \<times> string \<times> string) list \<Rightarrow> (string \<times> string \<times> string) list \<Rightarrow> maintenance_error + unit" where
  "verify_v3_objects objects [] = Inr ()"
| "verify_v3_objects objects ((kind, name, expected) # rest) =
     rbind (require (map_option (\<lambda>(_, _, sql). normalize_sql sql)
         (find (\<lambda>(k, n, _). k = kind \<and> n = name) objects) = Some (normalize_sql expected)) InvalidV3Schema)
       (\<lambda>_. verify_v3_objects objects rest)"

definition verify_v3 ::
  "(string \<Rightarrow> string option) \<Rightarrow> (string \<times> string \<times> string) list \<Rightarrow> string \<Rightarrow> string \<Rightarrow> v3_file
     \<Rightarrow> maintenance_error + ledger_identity" where
  "verify_v3 endpoint schema3 integrity configured_root file =
     rbind (verify_integrity integrity) (\<lambda>_.
     rbind (require (f3_application_id file = application_id) InvalidV3Schema) (\<lambda>_.
     rbind (require (length (filter user_object (f3_objects file)) = 8) InvalidV3Schema) (\<lambda>_.
     rbind (verify_v3_objects (f3_objects file) schema3) (\<lambda>_.
     rbind (query_row (f3_ledger file)) (\<lambda>db.
     let m = v3_meta db in
     rbind (require (length (n_authorization m) = 32) InvalidV3Schema) (\<lambda>_.
     rbind (require (n_schema_signature m = v3_schema_signature) InvalidV3Schema) (\<lambda>_.
     rbind (lift_store (verify_canonical_upload_destination endpoint (n_destination m))) (\<lambda>_.
     rbind (require (path_eq (n_capture_root m) configured_root) CaptureRootDiffers) (\<lambda>_.
     rbind (verify_aggregate_counts
              [n_pending m, n_in_progress m, n_retrying m, n_completed m, n_permanently_failed m]
              (map q_state (v3_jobs db)) True) (\<lambda>_.
     rbind (lift_store (verify_persisted_artifact_identities configured_root (v3_as_identities db))) (\<lambda>_.
     Inr \<lparr>id_capture_root = n_capture_root m, id_destination = n_destination m,
       id_authorization = n_authorization m\<rparr>)))))))))))"

subsection \<open>The transaction\<close>

fun insert_migrated :: "upload_job list \<Rightarrow> maintenance_error + unit" where
  "insert_migrated [] = Inr ()"
| "insert_migrated (r # rows) = rbind (lift_store (check_job r)) (\<lambda>_. insert_migrated rows)"

text \<open>
  Dropping the old objects leaves SQLite's internal ones; the new ones are created; the rows are
  copied before the triggers exist, so the counters are copied as well.
\<close>

definition transform_v3 ::
  "(string \<times> string \<times> string) list \<Rightarrow> u8 list \<Rightarrow> u8 list \<Rightarrow> u8 list \<Rightarrow> v3_file \<Rightarrow> v3_ledger
     \<Rightarrow> maintenance_error + database_file" where
  "transform_v3 schema ledger_id binding legacy file db =
     (let jobs = map (migrated_job binding legacy) (v3_jobs db) in
      rbind (lift_store (check_meta (migrated_metadata ledger_id db))) (\<lambda>meta.
      rbind (require (distinct (v3_preactivation db) \<and> list_all (\<lambda>p. p \<noteq> []) (v3_preactivation db))
               (MaintenanceSqlite ''constraint failed: upload_preactivation_artifacts'')) (\<lambda>_.
      rbind (insert_migrated jobs) (\<lambda>_.
      rbind (require (distinct (map j_id jobs) \<and> distinct (map j_artifact_path jobs)
                 \<and> distinct (map j_idempotency_key jobs))
               (MaintenanceSqlite ''UNIQUE constraint failed: upload_jobs'')) (\<lambda>_.
      Inr \<lparr>f_user_version = schema_version, f_application_id = application_id,
        f_objects = filter (\<lambda>entry. \<not> user_object entry) (f3_objects file) @ schema,
        f_ledger = Some \<lparr>db_meta = meta, db_preactivation = v3_preactivation db, db_jobs = jobs\<rparr>\<rparr>)))))"

definition invalid_bindings :: "u8 list \<Rightarrow> u8 list \<Rightarrow> upload_job list \<Rightarrow> nat" where
  "invalid_bindings binding legacy jobs =
     length (filter (\<lambda>r. j_state r = ''permanently_failed'' \<and> j_delivery_binding r \<noteq> legacy
       \<or> j_state r \<noteq> ''permanently_failed'' \<and> j_delivery_binding r \<noteq> binding) jobs)"

definition migrate_v3_to_v4 ::
  "(u8 list \<Rightarrow> u8 list) \<Rightarrow> (string \<times> string \<times> string) list \<Rightarrow> u8 list option \<Rightarrow> string option \<Rightarrow> ledger_identity
     \<Rightarrow> v3_file \<Rightarrow> maintenance_error + database_file" where
  "migrate_v3_to_v4 sha schema random refused identity file =
     rbind (lift_store (ok_or random Randomness)) (\<lambda>ledger_id.
     let binding = delivery_binding_derive sha (id_destination identity) (id_authorization identity);
         legacy = legacy_failed_delivery_binding binding
     in rbind (query_row (f3_ledger file)) (\<lambda>old.
     rbind (transform_v3 schema ledger_id binding legacy file old) (\<lambda>new.
     rbind (lift_store (verify_schema schema (id_capture_root identity) (id_destination identity) new)) (\<lambda>db.
     rbind (verify_metadata_telemetry (f_ledger new)) (\<lambda>_.
     rbind (verify_aggregate_counts (stored_counts (db_meta db)) (map j_state (db_jobs db)) False) (\<lambda>_.
     rbind (lift_store (verify_persisted_v4_rows sha (id_capture_root identity) db)) (\<lambda>_.
     rbind (require (m_ledger_id (db_meta db) = ledger_id \<and> invalid_bindings binding legacy (db_jobs db) = 0)
              (MaintenanceStore InvalidSchema)) (\<lambda>_.
     case refused of None \<Rightarrow> Inr new | Some message \<Rightarrow> Inl (MaintenanceSqlite message)))))))))"

text \<open>What the surroundings answer during a migration; a refused commit rolls everything back.\<close>

record maintenance_answers =
  an_lease :: "io_error + lock_answer"
  an_kind :: "io_error + file_kind"
  an_refused :: "string option"
  an_env :: open_env
  an_integrity :: string
  an_random :: "u8 list option"
  an_commit_refused :: "string option"

text \<open>
  \<open>migrate_upload_ledger\<close>: what the database file is afterwards, and the ledger id with whether a
  migration took place. The file's tables are those of the version its header names, or the
  verification of that version refuses it.
\<close>

definition migrate_upload_ledger ::
  "(u8 list \<Rightarrow> u8 list) \<Rightarrow> (string \<Rightarrow> string option) \<Rightarrow> (string \<times> string \<times> string) list
     \<Rightarrow> (string \<times> string \<times> string) list \<Rightarrow> maintenance_paths \<Rightarrow> maintenance_answers \<Rightarrow> ledger_file
     \<Rightarrow> ledger_file \<times> (maintenance_error + u8 list \<times> bool)" where
  "migrate_upload_ledger sha endpoint schema3 schema paths an file =
     (let folder = mp_capture_root paths; version = file_version file;
          verified = (\<lambda>new migrated. rbind (verify_v4 sha endpoint schema (an_integrity an) folder new)
            (\<lambda>ledger_id. Inr (ledger_id, migrated)))
      in case rbind (case lease_acquire (mp_database paths) True (an_lease an) of
                Inl e \<Rightarrow> Inl (MaintenanceLease e) | Inr _ \<Rightarrow> Inr ())
              (\<lambda>_. open_existing_exclusive (mp_database paths) (an_kind an) (an_refused an) (an_env an)) of
           Inl e \<Rightarrow> (file, Inl e)
         | Inr _ \<Rightarrow>
             if version = v3_schema_version
             then (case file of
                 FileV4 _ \<Rightarrow> (file, Inl InvalidV3Schema)
               | FileV3 f \<Rightarrow>
                   (case rbind (verify_v3 endpoint schema3 (an_integrity an) folder f)
                           (\<lambda>identity. migrate_v3_to_v4 sha schema (an_random an) (an_commit_refused an) identity f) of
                      Inl e \<Rightarrow> (file, Inl e)
                    | Inr new \<Rightarrow> (FileV4 new, verified new True)))
             else if version = schema_version
             then (case file of
                 FileV4 f \<Rightarrow> (file, verified f False)
               | FileV3 _ \<Rightarrow> (file, Inl (MaintenanceStore InvalidSchema)))
             else (file, Inl (UnsupportedLedgerSchema version)))"

end
