(* ===== verification/LedgerMigrationTheorems.thy ===== *)
theory LedgerMigrationTheorems
  imports LedgerMigration
begin

text \<open>
  A migration is all or nothing, and what it produces is a ledger of the current schema in the
  invariant of the store, so that everything proved of reachable ledgers holds of it as well.
\<close>

subsection \<open>Paths that are equal as paths\<close>

lemma absolute_components: "path_is_absolute p \<longleftrightarrow> (\<exists>xs. path_components p = RootDir # xs)"
  by (auto simp: path_components_def path_part_def Let_def split: list.split)

lemma path_eq_absolute: "path_eq a b \<Longrightarrow> path_is_absolute a = path_is_absolute b"
  by (simp add: path_eq_def absolute_components)

lemma path_eq_identity:
  "path_eq a b \<Longrightarrow> stored_identity_ok p n k d a = stored_identity_ok p n k d b"
  by (simp add: path_eq_def stored_identity_ok_def)

lemma path_eq_preactivation:
  "path_eq a b \<Longrightarrow> validate_preactivation_artifact_path p a = validate_preactivation_artifact_path p b"
  by (simp add: path_eq_def validate_preactivation_artifact_path_def)

lemma path_eq_item: "path_eq a b \<Longrightarrow> into_list_item a binding r = into_list_item b binding r"
  by (simp add: into_list_item_def validate_stored_identity_def path_eq_identity [of a b])

lemma path_eq_audit:
  assumes "path_eq a b"
  shows "verify_persisted_v4_rows sha a db = verify_persisted_v4_rows sha b db"
proof -
  have "verify_rows a binding rows = verify_rows b binding rows" for binding rows
    by (induction rows) (simp_all add: path_eq_item [OF assms] cong: if_cong)
  moreover have "verify_preactivation_paths a paths = verify_preactivation_paths b paths" for paths
    by (induction paths) (simp_all add: path_eq_preactivation [OF assms])
  ultimately show ?thesis
    by (simp add: verify_persisted_v4_rows_def verify_persisted_preactivation_paths_def)
qed

subsection \<open>What the verification of the old ledger tells\<close>

lemma verify_identities_Inr:
  assumes "verify_identities folder rows = Inr ()" and "r \<in> set rows"
  shows "0 < j_id r \<and> stored_identity_ok (j_artifact_path r) (j_filename r) (j_idempotency_key r) (j_sha256 r) folder"
  using assms
  by (induction rows) (auto simp: result_simps job_id_from_database_Inr sha256_from_database_def
      validate_stored_identity_def split: if_splits)

lemma verify_preactivation_paths_Inr:
  assumes "verify_preactivation_paths folder paths = Inr ()" and "p \<in> set paths"
  shows "preactivation_ok folder p"
  using assms
  by (induction paths)
    (auto simp: result_simps preactivation_ok_def validate_preactivation_artifact_path_def split: if_splits)

lemma verify_v3_Inr:
  assumes "verify_v3 endpoint schema3 integrity folder f = Inr identity"
  obtains old where "f3_ledger f = Some old" "integrity = ''ok''"
    "identity = \<lparr>id_capture_root = n_capture_root (v3_meta old), id_destination = n_destination (v3_meta old),
       id_authorization = n_authorization (v3_meta old)\<rparr>"
    "verify_canonical_upload_destination endpoint (n_destination (v3_meta old)) = Inr ()"
    "path_eq (n_capture_root (v3_meta old)) folder"
    "[n_pending (v3_meta old), n_in_progress (v3_meta old), n_retrying (v3_meta old), n_completed (v3_meta old),
      n_permanently_failed (v3_meta old)] = actual_counts (map q_state (v3_jobs old))"
    "\<forall>r \<in> set (v3_jobs old). 0 < q_id r
       \<and> stored_identity_ok (q_artifact_path r) (q_filename r) (q_idempotency_key r) (q_sha256 r) folder"
    "\<forall>p \<in> set (v3_preactivation old). preactivation_ok folder p"
proof -
  obtain old where old: "f3_ledger f = Some old" "integrity = ''ok''"
    "identity = \<lparr>id_capture_root = n_capture_root (v3_meta old), id_destination = n_destination (v3_meta old),
       id_authorization = n_authorization (v3_meta old)\<rparr>"
    "verify_canonical_upload_destination endpoint (n_destination (v3_meta old)) = Inr ()"
    "path_eq (n_capture_root (v3_meta old)) folder"
    "[n_pending (v3_meta old), n_in_progress (v3_meta old), n_retrying (v3_meta old), n_completed (v3_meta old),
      n_permanently_failed (v3_meta old)] = actual_counts (map q_state (v3_jobs old))"
    and ids: "verify_persisted_artifact_identities folder (v3_as_identities old) = Inr ()"
    using assms
    by (auto simp: verify_v3_def result_simps Let_def verify_integrity_def verify_aggregate_counts_def split: if_splits)
  have "verify_identities folder (sort_key j_id (map (migrated_job [] []) (v3_jobs old))) = Inr ()"
    and "verify_preactivation_paths folder (sort (v3_preactivation old)) = Inr ()"
    using ids
    by (simp_all add: verify_persisted_artifact_identities_def v3_as_identities_def result_simps
        verify_persisted_preactivation_paths_def)
  then have "\<forall>r \<in> set (v3_jobs old). 0 < q_id r
       \<and> stored_identity_ok (q_artifact_path r) (q_filename r) (q_idempotency_key r) (q_sha256 r) folder"
    "\<forall>p \<in> set (v3_preactivation old). preactivation_ok folder p"
    using verify_identities_Inr verify_preactivation_paths_Inr by (fastforce simp: migrated_job_def)+
  then show thesis using that old by blast
qed

subsection \<open>The migrated ledger\<close>

definition migrated_db :: "u8 list \<Rightarrow> u8 list \<Rightarrow> v3_ledger \<Rightarrow> ledger_db" where
  "migrated_db ledger_id binding old =
     \<lparr>db_meta = migrated_metadata ledger_id old, db_preactivation = v3_preactivation old,
      db_jobs = map (migrated_job binding (legacy_failed_delivery_binding binding)) (v3_jobs old)\<rparr>"

definition migrated_store :: "(u8 list \<Rightarrow> u8 list) \<Rightarrow> u8 list \<Rightarrow> v3_ledger \<Rightarrow> upload_store" where
  "migrated_store sha ledger_id old =
     (let binding = delivery_binding_derive sha (n_destination (v3_meta old)) (n_authorization (v3_meta old))
      in \<lparr>s_db = migrated_db ledger_id binding old, s_capture_root = n_capture_root (v3_meta old),
          s_ledger_id = ledger_id, s_delivery_binding = binding\<rparr>)"

lemma migrated_meta_counts:
  "stored_counts (migrated_metadata ledger_id old) =
     [n_pending (v3_meta old), n_in_progress (v3_meta old), n_retrying (v3_meta old), n_completed (v3_meta old),
      n_permanently_failed (v3_meta old)]"
  by (simp add: stored_counts_def migrated_metadata_def Let_def)

lemma migrated_job_simps [simp]:
  "j_id (migrated_job b l r) = q_id r" "j_artifact_path (migrated_job b l r) = q_artifact_path r"
  "j_filename (migrated_job b l r) = q_filename r" "j_sha256 (migrated_job b l r) = q_sha256 r"
  "j_idempotency_key (migrated_job b l r) = q_idempotency_key r" "j_state (migrated_job b l r) = q_state r"
  "j_delivery_binding (migrated_job b l r) = (if q_state r = ''permanently_failed'' then l else b)"
  by (simp_all add: migrated_job_def)

lemma legacy_binding:
  assumes "length binding = 32"
  shows "length (legacy_failed_delivery_binding binding) = 32" "legacy_failed_delivery_binding binding \<noteq> binding"
proof -
  obtain b bs where b: "binding = b # bs" using assms by (cases binding) auto
  have "b XOR 0x80 \<noteq> b"
  proof
    assume "b XOR 0x80 = b"
    then have "b XOR (b XOR 0x80) = b XOR b" by simp
    then have "(0x80 :: u8) = 0" by (simp only: xor.assoc [symmetric] xor_self_eq) simp
    then show False by simp
  qed
  then show "length (legacy_failed_delivery_binding binding) = 32" "legacy_failed_delivery_binding binding \<noteq> binding"
    using assms by (simp_all add: legacy_failed_delivery_binding_def b)
qed

lemma migrated_job_ok:
  assumes "v3_job_in_range r" "v3_job_checks r" "length binding = 32"
  shows "job_in_range (migrated_job binding (legacy_failed_delivery_binding binding) r)
    \<and> job_checks (migrated_job binding (legacy_failed_delivery_binding binding) r)"
  using assms legacy_binding(1) [OF assms(3)]
  by (auto simp: v3_job_in_range_def v3_job_checks_def job_in_range_def job_checks_def migrated_job_def
      in_i64_def limit_defs opt_in_i64_def opt_nonneg_def)

text \<open>The ids are distinct, positive and machine integers, so the number of rows is one as well.\<close>

lemma row_count_in_range:
  assumes "sorted_wrt (<) (map q_id jobs)" and "\<forall>r \<in> set jobs. 0 < q_id r \<and> in_i64 (q_id r)"
  shows "in_i64 (int (length jobs))"
proof -
  have "set (map q_id jobs) \<subseteq> {1..i64_max}" using assms(2) by (auto simp: in_i64_def)
  then have "card (set (map q_id jobs)) \<le> card {1..i64_max}" by (intro card_mono) simp_all
  moreover have "card (set (map q_id jobs)) = length jobs"
    using strict_sorted_iff [of "map q_id jobs"] assms(1) distinct_card [of "map q_id jobs"] by simp
  ultimately show ?thesis by (simp add: in_i64_def limit_defs)
qed

lemma migrated_meta_ok:
  assumes "v3_meta_checks (v3_meta old)" "length ledger_id = 16" "in_i64 (int (length (v3_jobs old)))"
  shows "meta_in_range (migrated_metadata ledger_id old) \<and> meta_checks (migrated_metadata ledger_id old)"
  using assms
  by (simp add: v3_meta_checks_def meta_in_range_def meta_checks_def migrated_metadata_def Let_def)

lemma counts_exact:
  assumes "stored_counts (db_meta db) = actual_counts (map j_state (db_jobs db))"
  shows "counters_exact db"
  using assms
  by (simp add: stored_counts_def actual_counts_def counters_exact_def count_state_def filter_map comp_def)

lemma migrated_inv:
  assumes verified: "verify_v3 endpoint schema3 integrity folder f = Inr identity" "f3_ledger f = Some old"
    and v3: "v3_constraints old" and id: "length ledger_id = 16" and sha: "\<forall>x. length (sha x) = 32"
    and folder: "path_is_absolute folder"
  shows "store_inv sha (migrated_store sha ledger_id old)"
proof -
  let ?m = "v3_meta old"
  define binding where "binding = delivery_binding_derive sha (n_destination ?m) (n_authorization ?m)"
  have len: "length binding = 32" using sha by (simp add: binding_def delivery_binding_derive_def)
  obtain eq: "path_eq (n_capture_root ?m) folder"
    and counts: "[n_pending ?m, n_in_progress ?m, n_retrying ?m, n_completed ?m, n_permanently_failed ?m]
        = actual_counts (map q_state (v3_jobs old))"
    and ids: "\<forall>r \<in> set (v3_jobs old). 0 < q_id r
       \<and> stored_identity_ok (q_artifact_path r) (q_filename r) (q_idempotency_key r) (q_sha256 r) folder"
    and pre: "\<forall>p \<in> set (v3_preactivation old). preactivation_ok folder p"
    using verify_v3_Inr [OF verified(1)] verified(2) by (metis option.inject)
  have rows: "\<forall>r \<in> set (v3_jobs old). v3_job_in_range r \<and> v3_job_checks r"
    and sorted: "sorted_wrt (<) (map q_id (v3_jobs old))"
    and uniq: "distinct (map q_artifact_path (v3_jobs old))" "distinct (map q_idempotency_key (v3_jobs old))"
    and meta: "v3_meta_checks ?m"
    using v3 by (simp_all add: v3_constraints_def list_all_iff)
  have fits: "in_i64 (int (length (v3_jobs old)))"
    by (rule row_count_in_range [OF sorted]) (use ids rows in \<open>auto simp: v3_job_in_range_def\<close>)
  have "counters_exact (migrated_db ledger_id binding old)"
    by (rule counts_exact) (simp add: migrated_db_def migrated_meta_counts counts comp_def)
  then have "ledger_inv (migrated_db ledger_id binding old)"
    using sorted uniq rows ids migrated_job_ok [OF _ _ len] migrated_meta_ok [OF meta id fits]
    by (simp add: ledger_inv_def migrated_db_def comp_def list_all_iff)
  moreover have "list_all (job_belongs (n_capture_root ?m) binding) (db_jobs (migrated_db ledger_id binding old))"
    using ids path_eq_identity [OF eq] by (auto simp: list_all_iff migrated_db_def job_belongs_def live_job_def)
  moreover have "list_all (preactivation_ok (n_capture_root ?m)) (v3_preactivation old)"
    using pre path_eq_preactivation [OF eq] by (simp add: list_all_iff preactivation_ok_def)
  ultimately show ?thesis
    using path_eq_absolute [OF eq] folder
    by (simp add: store_inv_def migrated_store_def Let_def binding_def [symmetric])
      (simp add: migrated_db_def migrated_metadata_def Let_def binding_def)
qed

subsection \<open>The transaction succeeds\<close>

text \<open>What the ten schema constants of the source are: user objects with different names.\<close>

definition schema_objects :: "(string \<times> string \<times> string) list \<Rightarrow> bool" where
  "schema_objects schema \<longleftrightarrow>
     length schema = 10 \<and> list_all user_object schema \<and> distinct (map (\<lambda>(kind, name, _). (kind, name)) schema)"

lemma find_key_unique:
  assumes "distinct (map f xs)" and "x \<in> set xs"
  shows "find (\<lambda>y. f y = f x) xs = Some x"
  using assms by (induction xs) (auto simp: image_iff)

lemma find_append_skip: "\<forall>x \<in> set xs. \<not> P x \<Longrightarrow> find P (xs @ ys) = find P ys"
  by (induction xs) simp_all

lemma verify_created_objects:
  assumes schema: "schema_objects schema"
  shows "verify_objects (filter (\<lambda>entry. \<not> user_object entry) objects @ schema) schema = Inr ()"
proof -
  let ?all = "filter (\<lambda>entry. \<not> user_object entry) objects @ schema"
  have found: "find (\<lambda>(k, n, _). k = kind \<and> n = name) ?all = Some (kind, name, sql)"
    if "(kind, name, sql) \<in> set schema" for kind name sql
  proof -
    have "user_object (kind, name, sql)" using schema that by (auto simp: schema_objects_def list_all_iff)
    then have "\<forall>x \<in> set (filter (\<lambda>entry. \<not> user_object entry) objects). \<not> (case x of (k, n, _) \<Rightarrow> k = kind \<and> n = name)"
      by (auto simp: user_object_def)
    then have "find (\<lambda>(k, n, _). k = kind \<and> n = name) ?all = find (\<lambda>(k, n, _). k = kind \<and> n = name) schema"
      by (rule find_append_skip)
    moreover have p: "(\<lambda>(k, n, _ :: string). k = kind \<and> n = name)
        = (\<lambda>y. (case y of (k, n, _) \<Rightarrow> (k, n)) = (case (kind, name, sql) of (k, n, _) \<Rightarrow> (k, n)))"
      by (auto simp: fun_eq_iff)
    moreover have "find (\<lambda>(k, n, _). k = kind \<and> n = name) schema = Some (kind, name, sql)"
      unfolding p by (rule find_key_unique) (use schema that in \<open>simp_all add: schema_objects_def\<close>)
    ultimately show ?thesis by simp
  qed
  have "verify_objects ?all part = Inr ()" if "set part \<subseteq> set schema" for part
    using that
  proof (induction part)
    case (Cons entry part)
    obtain kind name sql where entry: "entry = (kind, name, sql)" by (cases entry)
    then have mem: "(kind, name, sql) \<in> set schema" using Cons.prems by simp
    show ?case unfolding entry verify_objects.simps found [OF mem] using Cons by simp
  qed simp
  then show ?thesis by simp
qed

lemma insert_migrated_ok: "list_all (\<lambda>r. job_in_range r \<and> job_checks r) rows \<Longrightarrow> insert_migrated rows = Inr ()"
  by (induction rows) (simp_all add: check_job_Inr lift_store_def check_job_def)

lemma no_invalid_bindings:
  "invalid_bindings binding (legacy_failed_delivery_binding binding) (db_jobs (migrated_db ledger_id binding old)) = 0"
  by (simp add: invalid_bindings_def migrated_db_def filter_empty_conv)

lemma aggregate_counts_ok:
  assumes "counters_exact db"
  shows "verify_aggregate_counts (stored_counts (db_meta db)) (map j_state (db_jobs db)) v3 = Inr ()"
  using assms
  by (simp add: verify_aggregate_counts_def stored_counts_def actual_counts_def counters_exact_def count_state_def
      filter_map comp_def)

text \<open>A store in the invariant on a file with the right header passes the complete verification.\<close>

lemma verify_v4_accepts:
  assumes inv: "store_inv sha s" and header: "f_user_version file = schema_version" "f_application_id file = application_id"
    "f_ledger file = Some (s_db s)" "verify_objects (f_objects file) schema = Inr ()"
    "length (filter user_object (f_objects file)) = 10"
    and m: "m_schema_signature (db_meta (s_db s)) = schema_signature"
    and root: "path_eq (s_capture_root s) folder"
    and dest: "verify_canonical_upload_destination endpoint (m_destination (db_meta (s_db s))) = Inr ()"
  shows "verify_v4 sha endpoint schema ''ok'' folder file = Inr (s_ledger_id s)"
proof -
  have l: "ledger_inv (s_db s)" "m_capture_root (db_meta (s_db s)) = s_capture_root s"
    "m_ledger_id (db_meta (s_db s)) = s_ledger_id s" using inv by (simp_all add: store_inv_def)
  then have "length (s_ledger_id s) = 16" "counters_exact (s_db s)" "0 \<le> m_ledger_revision (db_meta (s_db s))"
    "length (m_authorization (db_meta (s_db s))) = 32"
    by (auto simp: ledger_inv_def meta_checks_def)
  moreover have "verify_persisted_v4_rows sha folder (s_db s) = Inr ()"
    using audit_accepts_invariant [OF inv] path_eq_audit [OF root] by simp
  ultimately show ?thesis
    using header m root dest l aggregate_counts_ok [of "s_db s" False]
    by (simp add: verify_v4_def verify_integrity_def query_row_def lift_store_def verify_schema_def
        verify_metadata_telemetry_def read_ledger_id_def Let_def)
qed

lemma migration_succeeds:
  assumes verified: "verify_v3 endpoint schema3 integrity folder f = Inr identity" "f3_ledger f = Some old"
    and v3: "v3_constraints old" and id: "length ledger_id = 16" and sha: "\<forall>x. length (sha x) = 32"
    and folder: "path_is_absolute folder" and schema: "schema_objects schema"
  shows "\<exists>new. migrate_v3_to_v4 sha schema (Some ledger_id) None identity f = Inr new
    \<and> f_ledger new = Some (s_db (migrated_store sha ledger_id old))
    \<and> verify_v4 sha endpoint schema integrity folder new = Inr ledger_id"
proof -
  let ?s = "migrated_store sha ledger_id old"
  let ?m = "v3_meta old"
  let ?binding = "delivery_binding_derive sha (n_destination ?m) (n_authorization ?m)"
  note inv = migrated_inv [OF verified v3 id sha folder]
  have db: "s_db ?s = migrated_db ledger_id ?binding old" "s_ledger_id ?s = ledger_id"
    "s_capture_root ?s = n_capture_root ?m"
    by (simp_all add: migrated_store_def Let_def)
  have jobs: "db_jobs (s_db ?s) = map (migrated_job ?binding (legacy_failed_delivery_binding ?binding)) (v3_jobs old)"
    "db_meta (s_db ?s) = migrated_metadata ledger_id old" "db_preactivation (s_db ?s) = v3_preactivation old"
    by (simp_all add: db migrated_db_def)
  obtain ident: "identity = \<lparr>id_capture_root = n_capture_root ?m, id_destination = n_destination ?m,
       id_authorization = n_authorization ?m\<rparr>"
    and ok: "integrity = ''ok''" and eq: "path_eq (n_capture_root ?m) folder"
    and dest: "verify_canonical_upload_destination endpoint (n_destination ?m) = Inr ()"
    using verify_v3_Inr [OF verified(1)] verified(2) by (metis option.inject)
  define new where "new = \<lparr>f_user_version = schema_version, f_application_id = application_id,
    f_objects = filter (\<lambda>entry. \<not> user_object entry) (f3_objects f) @ schema, f_ledger = Some (s_db ?s)\<rparr>"
  have l: "ledger_inv (s_db ?s)" using inv by (rule store_inv_ledger)
  have "check_meta (migrated_metadata ledger_id old) = Inr (migrated_metadata ledger_id old)"
    using l by (simp add: check_meta_Inr ledger_inv_def jobs(2))
  moreover have "insert_migrated (db_jobs (s_db ?s)) = Inr ()"
    by (rule insert_migrated_ok) (use l in \<open>auto simp: ledger_inv_def list_all_iff\<close>)
  moreover have "distinct (map j_id (db_jobs (s_db ?s)))"
    using l by (simp add: ledger_inv_def strict_sorted_iff)
  ultimately have transformed: "transform_v3 schema ledger_id ?binding (legacy_failed_delivery_binding ?binding) f old = Inr new"
    using l v3
    by (simp add: transform_v3_def Let_def lift_store_def jobs(1) [symmetric] ledger_inv_def v3_constraints_def)
      (simp add: new_def db migrated_db_def)
  have objects: "verify_objects (f_objects new) schema = Inr ()"
    using verify_created_objects [OF schema] by (simp add: new_def)
  have ten: "length (filter user_object (f_objects new)) = 10"
    using schema by (simp add: new_def schema_objects_def list_all_iff)
  have root: "m_capture_root (migrated_metadata ledger_id old) = n_capture_root ?m"
    "m_destination (migrated_metadata ledger_id old) = n_destination ?m"
    "m_schema_signature (migrated_metadata ledger_id old) = schema_signature"
    "m_ledger_id (migrated_metadata ledger_id old) = ledger_id"
    by (simp_all add: migrated_metadata_def Let_def)
  have "length ledger_id = 16 \<and> 0 \<le> m_ledger_revision (migrated_metadata ledger_id old)
      \<and> length (m_authorization (migrated_metadata ledger_id old)) = 32"
    using l id by (simp add: ledger_inv_def meta_checks_def jobs(2))
  then have schema_ok: "verify_schema schema (n_capture_root ?m) (n_destination ?m) new = Inr (s_db ?s)"
    using objects ten root by (simp add: verify_schema_def new_def jobs(2) Let_def)
  have agg: "verify_aggregate_counts (stored_counts (db_meta (s_db ?s))) (map j_state (db_jobs (s_db ?s))) False = Inr ()"
    by (rule aggregate_counts_ok) (use l in \<open>simp add: ledger_inv_def\<close>)
  have bindings: "invalid_bindings ?binding (legacy_failed_delivery_binding ?binding) (db_jobs (s_db ?s)) = 0"
    unfolding db(1) by (rule no_invalid_bindings)
  have audit: "verify_persisted_v4_rows sha (n_capture_root ?m) (s_db ?s) = Inr ()"
    using audit_accepts_invariant [OF inv] by (simp add: db(3))
  have ledger: "f_ledger new = Some (s_db ?s)" "m_ledger_id (db_meta (s_db ?s)) = ledger_id"
    by (simp_all add: new_def jobs(2) root(4))
  have "migrate_v3_to_v4 sha schema (Some ledger_id) None identity f = Inr new"
    by (simp add: migrate_v3_to_v4_def ident Let_def lift_store_def query_row_def verify_metadata_telemetry_def
        verified(2) transformed schema_ok agg audit bindings ledger)
  moreover have "verify_v4 sha endpoint schema ''ok'' folder new = Inr (s_ledger_id ?s)"
    by (rule verify_v4_accepts [OF inv]) (use objects ten root eq dest in \<open>simp_all add: new_def jobs(2) db(3)\<close>)
  ultimately show ?thesis using ok by (auto simp: new_def db(2))
qed

lemma migrate_v3_to_v4_Inr:
  assumes "migrate_v3_to_v4 sha schema random refused identity f = Inr new"
  obtains ledger_id where "random = Some ledger_id" "refused = None"
  using assms by (auto simp: migrate_v3_to_v4_def result_simps Let_def split: option.splits)

lemma migrated_failures_stay:
  assumes sha: "\<forall>x. length (sha x) = 32"
  shows "\<exists>e. requeue_permanently_failed fs sha request now (migrated_store sha ledger_id old) = Inl e"
proof (cases "requeue_permanently_failed fs sha request now (migrated_store sha ledger_id old)")
  case (Inr res)
  let ?s = "migrated_store sha ledger_id old"
  obtain raw where raw: "find (\<lambda>r. j_id r = job_id_value (rq_job_id request)) (s_jobs ?s) = Some raw"
    "j_state raw = ''permanently_failed''" "j_delivery_binding raw = s_delivery_binding ?s"
    using Inr by (auto simp: requeue_permanently_failed_def result_simps delivery_binding_from_database_def split: if_splits)
  have "raw \<in> set (s_jobs ?s)" using raw(1) by (auto simp: find_Some_iff)
  then have "j_delivery_binding raw = legacy_failed_delivery_binding (s_delivery_binding ?s)"
    using raw(2) by (auto simp: migrated_store_def migrated_db_def Let_def)
  moreover have "length (s_delivery_binding ?s) = 32"
    using sha by (simp add: migrated_store_def Let_def delivery_binding_derive_def)
  ultimately show ?thesis using raw(3) legacy_binding(2) by metis
qed blast


subsection \<open>A migration\<close>

definition demo_v3 :: v3_file where
  "demo_v3 = \<lparr>f3_user_version = 3, f3_application_id = application_id,
     f3_objects = map (\<lambda>i. (''table'', ''old'' @ decimal i, ''create'')) [0..<8],
     f3_ledger = Some \<lparr>
       v3_meta = \<lparr>n_schema_signature = v3_schema_signature, n_capture_root = demo_root,
         n_destination = ''https://u/'', n_authorization = demo_digest, n_pending = 0, n_in_progress = 0,
         n_retrying = 0, n_completed = 0, n_permanently_failed = 1, n_last_success_at = None,
         n_last_failure_at = Some 20, n_last_error = Some ''refused''\<rparr>,
       v3_preactivation = [],
       v3_jobs = [\<lparr>q_id = 1, q_artifact_path = demo_path, q_filename = demo_name, q_idempotency_key = demo_key,
         q_file_size = 2, q_sha256 = demo_digest, q_state = ''permanently_failed'', q_attempt_count = 1,
         q_next_attempt_at = None, q_last_http_status = Some 403, q_last_error = Some ''refused'',
         q_created_at = 10, q_updated_at = 20, q_completed_at = None, q_last_failure_at = Some 20\<rparr>]\<rparr>\<rparr>"

definition demo_paths :: maintenance_paths where
  "demo_paths = \<lparr>mp_config = ''/autopiercam.toml'', mp_database = ''/autopiercam.upload.sqlite3'',
     mp_capture_root = demo_root\<rparr>"

definition demo_answers :: maintenance_answers where
  "demo_answers = \<lparr>an_lease = Inr LockGranted, an_kind = Inr RegularFile, an_refused = None, an_env = demo_env,
     an_integrity = ''ok'', an_random = Some (replicate 16 9), an_commit_refused = None\<rparr>"

definition demo_schema3 :: "(string \<times> string \<times> string) list" where
  "demo_schema3 = map (\<lambda>i. (''table'', ''old'' @ decimal i, ''create'')) [0..<8]"

lemma demo_v3_verified: "\<exists>identity. verify_v3 Some demo_schema3 ''ok'' demo_root demo_v3 = Inr identity"
proof -
  have "(case verify_v3 Some demo_schema3 ''ok'' demo_root demo_v3 of Inl _ \<Rightarrow> False | Inr _ \<Rightarrow> True)" by code_simp
  then show ?thesis by (simp split: sum.splits)
qed

lemma demo_v3_constraints: "(case f3_ledger demo_v3 of None \<Rightarrow> False | Some old \<Rightarrow> v3_constraints old)"
  by code_simp


end
