(* ===== verification/LedgerArchive.thy ===== *)
theory LedgerArchive
  imports LedgerMaintenance Effects
begin

text \<open>
  Archiving a drained ledger (\<open>archive_upload_ledger\<close> in \<open>ledger_maintenance.rs\<close>): a verified copy is
  published first, the source is moved aside last, and a rerun takes up what an interrupted run
  left. The disk maps paths to database files; the operating system and SQLite are questions to an
  arbitrary environment, which also decides what SQLite's backup puts into the copy.
\<close>

subsection \<open>The logical contents\<close>

datatype sql_value = SqlNull | SqlInteger int | SqlText string | SqlBlob "u8 list"

definition sql_optional :: "('a \<Rightarrow> sql_value) \<Rightarrow> 'a option \<Rightarrow> sql_value" where
  "sql_optional f x = (case x of None \<Rightarrow> SqlNull | Some v \<Rightarrow> f v)"

definition metadata_row :: "upload_metadata \<Rightarrow> sql_value list" where
  "metadata_row m =
     [SqlInteger 1, SqlText (m_schema_signature m), SqlBlob (m_ledger_id m), SqlInteger (m_ledger_revision m),
      SqlText (m_capture_root m), SqlText (m_destination m), SqlBlob (m_authorization m),
      SqlInteger (m_pending m), SqlInteger (m_in_progress m), SqlInteger (m_retrying m),
      SqlInteger (m_completed m), SqlInteger (m_permanently_failed m),
      sql_optional SqlInteger (m_last_success_at m), sql_optional SqlInteger (m_last_failure_at m),
      sql_optional SqlText (m_last_error m)]"

definition job_row :: "upload_job \<Rightarrow> sql_value list" where
  "job_row r =
     [SqlInteger (j_id r), SqlText (j_artifact_path r), SqlText (j_filename r), SqlText (j_idempotency_key r),
      SqlInteger (j_file_size r), SqlBlob (j_sha256 r), SqlBlob (j_delivery_binding r), SqlText (j_state r),
      SqlInteger (j_attempt_count r), sql_optional SqlInteger (j_next_attempt_at r),
      sql_optional SqlInteger (j_last_http_status r), sql_optional SqlText (j_last_error r),
      SqlInteger (j_created_at r), SqlInteger (j_updated_at r), sql_optional SqlInteger (j_completed_at r),
      sql_optional SqlInteger (j_last_failure_at r), SqlInteger (j_job_revision r), SqlInteger (j_requeue_count r),
      sql_optional SqlInteger (j_last_requeued_at r)]"

text \<open>\<open>i64::to_be_bytes\<close> is the two's complement.\<close>

fun hash_value :: "sql_value \<Rightarrow> u8 list" where
  "hash_value SqlNull = [0]"
| "hash_value (SqlInteger v) = 1 # be_bytes 8 (nat (v mod 2 ^ 64))"
| "hash_value (SqlText v) = 3 # be_bytes 8 (length v) @ string_bytes v"
| "hash_value (SqlBlob v) = 4 # be_bytes 8 (length v) @ v"

definition hash_row :: "sql_value list \<Rightarrow> u8 list" where
  "hash_row row = 0xff # concat (map hash_value row)"

definition hash_query :: "string \<Rightarrow> sql_value list list \<Rightarrow> u8 list" where
  "hash_query sql rows = be_bytes 8 (length sql) @ string_bytes sql @ concat (map hash_row rows)"

text \<open>What is hashed; the texts of the three queries are an argument.\<close>

definition ledger_contents :: "string \<times> string \<times> string \<Rightarrow> ledger_db \<Rightarrow> u8 list" where
  "ledger_contents queries db =
     (case queries of (metadata_sql, jobs_sql, preactivation_sql) \<Rightarrow>
        hash_query metadata_sql [metadata_row (db_meta db)]
        @ hash_query jobs_sql (map job_row (sort_key j_id (db_jobs db)))
        @ hash_query preactivation_sql (map (\<lambda>p. [SqlText p]) (sort (db_preactivation db))))"

definition ledger_content_digest ::
  "(u8 list \<Rightarrow> u8 list) \<Rightarrow> string \<times> string \<times> string \<Rightarrow> database_file \<Rightarrow> maintenance_error + u8 list" where
  "ledger_content_digest sha queries file =
     rbind (query_row (f_ledger file)) (\<lambda>db. Inr (sha (ledger_contents queries db)))"

subsection \<open>The disk and its surroundings\<close>

text \<open>A file that is no database yet, or not any more, holds bytes; other entries are not followed.\<close>

datatype artifact = DatabaseImage database_file | RawImage "u8 list" | NotAFile

type_synonym ledger_disk = "string \<rightharpoonup> artifact"

record 'w archive_world =
  aw_sha :: "u8 list \<Rightarrow> u8 list"
  aw_endpoint :: "string \<Rightarrow> string option"
  aw_schema :: "(string \<times> string \<times> string) list"
  aw_queries :: "string \<times> string \<times> string"
  aw_image :: "database_file \<Rightarrow> u8 list"
  aw_windows :: bool
  aw_lease :: "'w \<Rightarrow> (io_error + lock_answer) \<times> 'w"
  aw_sidecar :: "string \<Rightarrow> 'w \<Rightarrow> (io_error + bool) \<times> 'w"
  aw_fault :: "string \<Rightarrow> 'w \<Rightarrow> io_error option \<times> 'w"
  aw_refused :: "string \<Rightarrow> 'w \<Rightarrow> string option \<times> 'w"
  aw_env :: "'w \<Rightarrow> open_env \<times> 'w"
  aw_integrity :: "'w \<Rightarrow> string \<times> 'w"
  aw_checkpoint :: "'w \<Rightarrow> (int \<times> string) \<times> 'w"
  aw_fs :: "'w \<Rightarrow> filesystem \<times> 'w"
  aw_random :: "'w \<Rightarrow> (io_error + u8 list) \<times> 'w"
  aw_backup :: "database_file \<Rightarrow> 'w \<Rightarrow> (string option \<times> artifact) \<times> 'w"

text \<open>All disks so far, the latest last.\<close>

record 'w archive_run =
  ar_world :: 'w
  ar_disk :: ledger_disk
  ar_disks :: "ledger_disk list"

type_synonym ('w, 'a) archiving = "('w archive_run, maintenance_error, 'a) effect"

definition archive_ask :: "('w \<Rightarrow> 'a \<times> 'w) \<Rightarrow> ('w, 'a) archiving" where
  "archive_ask f = elift (\<lambda>r. case f (ar_world r) of (x, w) \<Rightarrow> (x, r\<lparr>ar_world := w\<rparr>))"

definition change_disk :: "(ledger_disk \<Rightarrow> ledger_disk) \<Rightarrow> ('w, unit) archiving" where
  "change_disk f = eupdate (\<lambda>r. r\<lparr>ar_disk := f (ar_disk r), ar_disks := ar_disks r @ [f (ar_disk r)]\<rparr>)"

definition checked :: "maintenance_error + 'a \<Rightarrow> ('w, 'a) archiving" where
  "checked = etry (\<lambda>e. e)"

text \<open>A file operation that may fail, and a SQLite call that may be refused.\<close>

definition fallible :: "'w archive_world \<Rightarrow> string \<Rightarrow> string \<Rightarrow> ('w, unit) archiving" where
  "fallible W operation path =
     ebind (archive_ask (aw_fault W path)) (\<lambda>fault.
     case fault of None \<Rightarrow> ereturn () | Some e \<Rightarrow> eexit (MaintenanceIo operation path e))"

definition sqlite_call :: "'w archive_world \<Rightarrow> string \<Rightarrow> ('w, unit) archiving" where
  "sqlite_call W path =
     ebind (archive_ask (aw_refused W path)) (\<lambda>refused.
     case refused of None \<Rightarrow> ereturn () | Some message \<Rightarrow> eexit (MaintenanceSqlite message))"

subsection \<open>Files\<close>

definition sqlite_sidecars :: "string \<Rightarrow> string list" where
  "sqlite_sidecars database = [database @ ''-wal'', database @ ''-shm'', database @ ''-journal'']"

definition ensure_sqlite_sidecar_absent :: "'w archive_world \<Rightarrow> string \<Rightarrow> ('w, unit) archiving" where
  "ensure_sqlite_sidecar_absent W sidecar =
     ebind (archive_ask (aw_sidecar W sidecar)) (\<lambda>answer.
     case answer of
       Inl e \<Rightarrow> eexit (MaintenanceIo ''inspect SQLite sidecar'' sidecar e)
     | Inr present \<Rightarrow> eguard present (SidecarPresent sidecar))"

fun all_absent :: "'w archive_world \<Rightarrow> string list \<Rightarrow> ('w, unit) archiving" where
  "all_absent W [] = ereturn ()"
| "all_absent W (s # sidecars) = ebind (ensure_sqlite_sidecar_absent W s) (\<lambda>_. all_absent W sidecars)"

definition ensure_no_sqlite_sidecars :: "'w archive_world \<Rightarrow> string \<Rightarrow> ('w, unit) archiving" where
  "ensure_no_sqlite_sidecars W database = all_absent W (sqlite_sidecars database)"

definition ensure_no_sqlite_wal_sidecars :: "'w archive_world \<Rightarrow> string \<Rightarrow> ('w, unit) archiving" where
  "ensure_no_sqlite_wal_sidecars W database = all_absent W (take 2 (sqlite_sidecars database))"

definition file_answer :: "artifact option \<Rightarrow> io_error + file_kind" where
  "file_answer a = (case a of None \<Rightarrow> Inl NotFound | Some NotAFile \<Rightarrow> Inr OtherKind | Some _ \<Rightarrow> Inr RegularFile)"

text \<open>\<open>safe_regular_file\<close> on the disk; the inspection itself may fail.\<close>

definition inspect_file :: "'w archive_world \<Rightarrow> string \<Rightarrow> string \<Rightarrow> ('w, bool) archiving" where
  "inspect_file W kind path =
     ebind (fallible W ''inspect ledger artifact'' path) (\<lambda>_.
     ebind (eget (\<lambda>r. file_answer (ar_disk r path))) (\<lambda>answer. checked (safe_regular_file kind path answer)))"

text \<open>Opening the database under a path.\<close>

definition open_image :: "'w archive_world \<Rightarrow> string \<Rightarrow> ('w, database_file) archiving" where
  "open_image W path =
     ebind (sqlite_call W path) (\<lambda>_.
     ebind (eget (\<lambda>r. ar_disk r path)) (\<lambda>found.
     case found of
       Some (DatabaseImage file) \<Rightarrow> ereturn file
     | _ \<Rightarrow> eexit (MaintenanceSqlite ''file is not a database'')))"

definition open_active :: "'w archive_world \<Rightarrow> string \<Rightarrow> ('w, database_file) archiving" where
  "open_active W path =
     ebind (inspect_file W ''active upload ledger'' path) (\<lambda>exists.
     ebind (eguard (\<not> exists) (MissingLedger path)) (\<lambda>_.
     ebind (open_image W path) (\<lambda>file.
     ebind (archive_ask (aw_env W)) (\<lambda>env.
     ebind (checked (lift_store (acquire_exclusive_ownership env))) (\<lambda>_.
     ereturn file)))))"

definition sync_file :: "'w archive_world \<Rightarrow> string \<Rightarrow> ('w, unit) archiving" where
  "sync_file W path =
     ebind (fallible W ''open durable ledger artifact'' path) (\<lambda>_.
     fallible W ''synchronize durable ledger artifact'' path)"

text \<open>The old name is removed; where that fails, the new one is, and the error is reported.\<close>

definition unlink_source :: "'w archive_world \<Rightarrow> string \<Rightarrow> string \<Rightarrow> string \<Rightarrow> ('w, unit) archiving" where
  "unlink_source W source destination operation =
     ebind (archive_ask (aw_fault W source)) (\<lambda>fault.
     case fault of
       None \<Rightarrow> ebind (change_disk (\<lambda>d. d(source := None))) (\<lambda>_. fallible W operation destination)
     | Some e \<Rightarrow>
         ebind (archive_ask (aw_fault W destination)) (\<lambda>kept.
         ebind (ewhen (kept = None) (change_disk (\<lambda>d. d(destination := None)))) (\<lambda>_.
         ebind (archive_ask (aw_fault W destination)) (\<lambda>_.
         eexit (MaintenanceIo operation destination e)))))"

text \<open>A move that does not replace on Windows, elsewhere a hard link and the removal of the old name.\<close>

definition publish_no_replace :: "'w archive_world \<Rightarrow> string \<Rightarrow> string \<Rightarrow> string \<Rightarrow> ('w, unit) archiving" where
  "publish_no_replace W source destination operation =
     ebind (fallible W operation destination) (\<lambda>_.
     ebind (eget (\<lambda>r. ar_disk r destination)) (\<lambda>occupied.
     ebind (eguard (occupied \<noteq> None) (MaintenanceIo operation destination OtherIo)) (\<lambda>_.
     if aw_windows W
     then change_disk (\<lambda>d. d(source := None, destination := d source))
     else
       ebind (change_disk (\<lambda>d. d(destination := d source))) (\<lambda>_.
       ebind (fallible W operation destination) (\<lambda>_.
       unlink_source W source destination operation)))))"

subsection \<open>Verifying, copying and hashing\<close>

definition verify_image ::
  "'w archive_world \<Rightarrow> string \<Rightarrow> database_file \<Rightarrow> ('w, u8 list) archiving" where
  "verify_image W capture_root file =
     ebind (archive_ask (aw_integrity W)) (\<lambda>integrity.
     checked (verify_v4 (aw_sha W) (aw_endpoint W) (aw_schema W) integrity capture_root file))"

definition image_ledger :: "database_file \<Rightarrow> ('w, ledger_db) archiving" where
  "image_ledger file = checked (query_row (f_ledger file))"

definition verify_archive :: "'w archive_world \<Rightarrow> string \<Rightarrow> string \<Rightarrow> ('w, u8 list) archiving" where
  "verify_archive W path capture_root =
     ebind (inspect_file W ''upload-ledger archive'' path) (\<lambda>exists.
     ebind (eguard (\<not> exists) (PartialArchive ''ledger artifact is missing'')) (\<lambda>_.
     ebind (ensure_no_sqlite_sidecars W path) (\<lambda>_.
     ebind (open_image W path) (\<lambda>file.
     ebind (verify_image W capture_root file) (\<lambda>ledger_id.
     ebind (image_ledger file) (\<lambda>db.
     ebind (checked (ensure_terminal_ledger db)) (\<lambda>_.
     ebind (ensure_no_sqlite_sidecars W path) (\<lambda>_.
     ereturn ledger_id))))))))"

definition ledger_content_digest_path :: "'w archive_world \<Rightarrow> string \<Rightarrow> ('w, u8 list) archiving" where
  "ledger_content_digest_path W path =
     ebind (ensure_no_sqlite_sidecars W path) (\<lambda>_.
     ebind (open_image W path) (\<lambda>file.
     ebind (checked (ledger_content_digest (aw_sha W) (aw_queries W) file)) (\<lambda>digest.
     ebind (ensure_no_sqlite_sidecars W path) (\<lambda>_.
     ereturn digest))))"

definition artifact_bytes :: "'w archive_world \<Rightarrow> artifact option \<Rightarrow> u8 list" where
  "artifact_bytes W a = (case a of Some (DatabaseImage file) \<Rightarrow> aw_image W file | Some (RawImage bytes) \<Rightarrow> bytes | _ \<Rightarrow> [])"

definition sha256_path :: "'w archive_world \<Rightarrow> string \<Rightarrow> ('w, u8 list) archiving" where
  "sha256_path W path =
     ebind (ensure_no_sqlite_sidecars W path) (\<lambda>_.
     ebind (fallible W ''open archive for hashing'' path) (\<lambda>_.
     ebind (fallible W ''read archive for hashing'' path) (\<lambda>_.
     ebind (eget (\<lambda>r. aw_sha W (artifact_bytes W (ar_disk r path)))) (\<lambda>digest.
     ebind (ensure_no_sqlite_sidecars W path) (\<lambda>_.
     ereturn digest)))))"

definition checkpoint_for_archive :: "'w archive_world \<Rightarrow> string \<Rightarrow> ('w, unit) archiving" where
  "checkpoint_for_archive W path =
     ebind (sqlite_call W path) (\<lambda>_.
     ebind (archive_ask (aw_checkpoint W)) (\<lambda>(busy, journal_mode).
     ebind (eguard (busy \<noteq> 0) CheckpointBusy) (\<lambda>_.
     ebind (eguard (\<not> eq_ignore_ascii_case journal_mode ''delete'') (JournalMode journal_mode)) (\<lambda>_.
     ensure_no_sqlite_wal_sidecars W path))))"

text \<open>Up to 32 random names; the chosen file is created empty.\<close>

fun unique_partial_path :: "'w archive_world \<Rightarrow> string \<Rightarrow> nat \<Rightarrow> ('w, string) archiving" where
  "unique_partial_path W archive 0 = eexit (MaintenanceIo ''create unique archive temporary file'' archive OtherIo)"
| "unique_partial_path W archive (Suc tries) =
     ebind (archive_ask (aw_random W)) (\<lambda>random.
     case random of
       Inl e \<Rightarrow> eexit (MaintenanceIo ''generate archive temporary name'' archive e)
     | Inr bytes \<Rightarrow>
         (let path = archive @ ''.partial-'' @ hex_encode bytes in
          ebind (eget (\<lambda>r. ar_disk r path)) (\<lambda>found.
          if found \<noteq> None then unique_partial_path W archive tries
          else ebind (fallible W ''create archive temporary file'' path) (\<lambda>_.
               ebind (change_disk (\<lambda>d. d(path \<mapsto> RawImage []))) (\<lambda>_.
               ereturn path)))))"

text \<open>What SQLite's backup leaves in the destination is up to the environment.\<close>

definition backup_database :: "'w archive_world \<Rightarrow> database_file \<Rightarrow> string \<Rightarrow> ('w, unit) archiving" where
  "backup_database W source path =
     ebind (archive_ask (aw_backup W source)) (\<lambda>(failure, image).
     ebind (change_disk (\<lambda>d. d(path \<mapsto> image))) (\<lambda>_.
     case failure of None \<Rightarrow> ereturn () | Some message \<Rightarrow> eexit (MaintenanceSqlite message)))"

text \<open>\<open>TemporaryPath\<close>: its drop removes the file unless it was disarmed.\<close>

definition with_temporary :: "'w archive_world \<Rightarrow> string \<Rightarrow> ('w, 'a) archiving \<Rightarrow> ('w, 'a) archiving" where
  "with_temporary W path m = (\<lambda>r.
     case m r of
       Some (Inl e, r) \<Rightarrow>
         ebind (archive_ask (aw_fault W path)) (\<lambda>fault.
         ebind (ewhen (fault = None) (change_disk (\<lambda>d. d(path := None)))) (\<lambda>_. eexit e)) r
     | x \<Rightarrow> x)"

subsection \<open>The archive\<close>

record archive_report =
  rp_ledger_id :: string
  rp_archive_path :: string
  rp_retired_path :: string
  rp_sha256 :: string

definition archive_path_of :: "string \<Rightarrow> u8 list \<Rightarrow> string" where
  "archive_path_of config ledger_id = with_extension config (''upload.'' @ hex_encode ledger_id @ ''.archive.sqlite3'')"

definition retired_path_of :: "string \<Rightarrow> u8 list \<Rightarrow> string" where
  "retired_path_of config ledger_id = with_extension config (''upload.'' @ hex_encode ledger_id @ ''.retired.sqlite3'')"

definition same_contents :: "'w archive_world \<Rightarrow> database_file \<Rightarrow> string \<Rightarrow> maintenance_error \<Rightarrow> ('w, unit) archiving" where
  "same_contents W source path e =
     ebind (checked (ledger_content_digest (aw_sha W) (aw_queries W) source)) (\<lambda>expected.
     ebind (ledger_content_digest_path W path) (\<lambda>actual.
     eguard (expected \<noteq> actual) e))"

text \<open>An archive that an earlier run has published; a new one.\<close>

definition resume_archive ::
  "'w archive_world \<Rightarrow> string \<Rightarrow> database_file \<Rightarrow> u8 list \<Rightarrow> string \<Rightarrow> ('w, u8 list) archiving" where
  "resume_archive W capture_root source ledger_id archive =
     ebind (verify_archive W archive capture_root) (\<lambda>archived_id.
     ebind (checked (ensure_expected_id ledger_id archived_id)) (\<lambda>_.
     ebind (same_contents W source archive ActiveChangedAfterArchive) (\<lambda>_.
     sha256_path W archive)))"

definition publish_archive ::
  "'w archive_world \<Rightarrow> string \<Rightarrow> database_file \<Rightarrow> u8 list \<Rightarrow> string \<Rightarrow> ('w, u8 list) archiving" where
  "publish_archive W capture_root source ledger_id archive =
     ebind (unique_partial_path W archive 32) (\<lambda>temporary.
     ebind (with_temporary W temporary
       (ebind (backup_database W source temporary) (\<lambda>_.
        ebind (verify_archive W temporary capture_root) (\<lambda>archived_id.
        ebind (checked (ensure_expected_id ledger_id archived_id)) (\<lambda>_.
        ebind (same_contents W source temporary (PartialArchive ''backup contents differ'')) (\<lambda>_.
        ebind (sha256_path W temporary) (\<lambda>hash.
        ebind (sync_file W temporary) (\<lambda>_.
        ebind (publish_no_replace W temporary archive ''publish verified archive'') (\<lambda>_.
        ereturn hash))))))))) (\<lambda>hash.
     ebind (sync_file W archive) (\<lambda>_.
     ereturn hash)))"

definition completed_archive_report ::
  "'w archive_world \<Rightarrow> string \<Rightarrow> u8 list \<Rightarrow> string \<Rightarrow> string \<Rightarrow> ('w, archive_report) archiving" where
  "completed_archive_report W capture_root expected archive retired =
     ebind (verify_archive W archive capture_root) (\<lambda>archive_id.
     ebind (verify_archive W retired capture_root) (\<lambda>retired_id.
     ebind (checked (ensure_expected_id expected archive_id)) (\<lambda>_.
     ebind (checked (ensure_expected_id expected retired_id)) (\<lambda>_.
     ebind (ledger_content_digest_path W archive) (\<lambda>a.
     ebind (ledger_content_digest_path W retired) (\<lambda>b.
     ebind (eguard (a \<noteq> b) (PartialArchive ''archive and retired ledger have different logical contents'')) (\<lambda>_.
     ebind (sha256_path W archive) (\<lambda>hash.
     ereturn \<lparr>rp_ledger_id = hex_encode expected, rp_archive_path = archive, rp_retired_path = retired,
       rp_sha256 = hex_encode hash\<rparr>))))))))"

text \<open>Copying, if there is no copy yet, and then retiring the source.\<close>

definition archive_active ::
  "'w archive_world \<Rightarrow> maintenance_paths \<Rightarrow> u8 list \<Rightarrow> bool \<Rightarrow> string \<Rightarrow> string \<Rightarrow> ('w, archive_report) archiving" where
  "archive_active W paths expected archive_exists archive retired =
     (let folder = mp_capture_root paths; active = mp_database paths in
      ebind (open_active W active) (\<lambda>source.
      ebind (verify_image W folder source) (\<lambda>ledger_id.
      ebind (checked (ensure_expected_id expected ledger_id)) (\<lambda>_.
      ebind (image_ledger source) (\<lambda>db.
      ebind (archive_ask (aw_fs W)) (\<lambda>fs.
      ebind (checked (ensure_archive_ready fs folder db)) (\<lambda>_.
      ebind (checkpoint_for_archive W active) (\<lambda>_.
      ebind (archive_ask (aw_fs W)) (\<lambda>fs.
      ebind (checked (ensure_archive_ready fs folder db)) (\<lambda>_.
      ebind (if archive_exists then resume_archive W folder source ledger_id archive
             else publish_archive W folder source ledger_id archive) (\<lambda>hash.
      ebind (ensure_no_sqlite_sidecars W active) (\<lambda>_.
      ebind (sync_file W active) (\<lambda>_.
      ebind (publish_no_replace W active retired ''retain retired source ledger'') (\<lambda>_.
      ereturn \<lparr>rp_ledger_id = hex_encode ledger_id, rp_archive_path = archive, rp_retired_path = retired,
        rp_sha256 = hex_encode hash\<rparr>))))))))))))))"

definition archive_upload_ledger ::
  "'w archive_world \<Rightarrow> maintenance_error + maintenance_paths \<Rightarrow> string \<Rightarrow> ('w, archive_report) archiving" where
  "archive_upload_ledger W context expected_ledger_id =
     ebind (checked (parse_expected_ledger_id expected_ledger_id)) (\<lambda>expected.
     ebind (checked context) (\<lambda>paths.
     ebind (archive_ask (aw_lease W)) (\<lambda>lock.
     ebind (etry MaintenanceLease (lease_acquire (mp_database paths) True lock)) (\<lambda>_.
     let archive = archive_path_of (mp_config paths) expected; retired = retired_path_of (mp_config paths) expected in
     ebind (ensure_no_sqlite_sidecars W archive) (\<lambda>_.
     ebind (ensure_no_sqlite_sidecars W retired) (\<lambda>_.
     ebind (inspect_file W ''active upload ledger'' (mp_database paths)) (\<lambda>active_exists.
     ebind (inspect_file W ''upload-ledger archive'' archive) (\<lambda>archive_exists.
     ebind (inspect_file W ''retired upload ledger'' retired) (\<lambda>retired_exists.
     if archive_exists \<and> retired_exists
     then if active_exists then eexit (PartialArchive ''an active database also exists'')
       else completed_archive_report W (mp_capture_root paths) expected archive retired
     else if retired_exists then eexit (PartialArchive ''a retired ledger exists without its verified archive'')
     else if \<not> active_exists then eexit (PartialArchive ''the active upload ledger is absent'')
     else archive_active W paths expected archive_exists archive retired)))))))))"

end
