(* ===== verification/LedgerArchiveTheorems.thy ===== *)
theory LedgerArchiveTheorems
  imports LedgerArchive
begin

text \<open>
  Archiving never loses the ledger: what every disk on the way shows, for every behaviour of SQLite
  and of the operating system; and the digest compares the complete contents of two ledgers.
\<close>

subsection \<open>Assertions on the disk\<close>

definition leads ::
  "(ledger_disk \<Rightarrow> ledger_disk list \<Rightarrow> bool) \<Rightarrow> ('w, 'a) archiving
     \<Rightarrow> (maintenance_error + 'a \<Rightarrow> ledger_disk \<Rightarrow> ledger_disk list \<Rightarrow> bool) \<Rightarrow> bool" where
  "leads A m Q \<longleftrightarrow>
     (\<forall>r x r'. A (ar_disk r) (ar_disks r) \<longrightarrow> m r = Some (x, r') \<longrightarrow> Q x (ar_disk r') (ar_disks r'))"

lemma leads_bind:
  assumes "leads A m (\<lambda>x d ds. case x of Inl e \<Rightarrow> Q (Inl e) d ds | Inr y \<Rightarrow> B y d ds)"
    and "\<And>y. leads (B y) (k y) Q"
  shows "leads A (ebind m k) Q"
  using assms unfolding leads_def
  by (fastforce simp: effect_simps split: option.splits sum.splits prod.splits)

lemma leads_then:
  assumes "leads A m (\<lambda>_. C)" and "\<And>y. leads C (k y) Q" and "\<And>e d ds. C d ds \<Longrightarrow> Q (Inl e) d ds"
  shows "leads A (ebind m k) Q"
  by (rule leads_bind [where B = "\<lambda>_. C"])
    (use assms in \<open>auto simp: leads_def split: sum.split\<close>)

lemma leads_weaken: "leads A m P \<Longrightarrow> (\<And>x d ds. P x d ds \<Longrightarrow> Q x d ds) \<Longrightarrow> leads A m Q"
  unfolding leads_def by blast

lemma leads_strengthen: "leads B m Q \<Longrightarrow> (\<And>d ds. A d ds \<Longrightarrow> B d ds) \<Longrightarrow> leads A m Q"
  unfolding leads_def by blast

lemma leads_absurd: "(\<And>d ds. \<not> A d ds) \<Longrightarrow> leads A m Q"
  unfolding leads_def by blast

lemma leads_return: "(\<And>d ds. A d ds \<Longrightarrow> Q (Inr x) d ds) \<Longrightarrow> leads A (ereturn x) Q"
  unfolding leads_def by (simp add: effect_simps)

lemma leads_exit: "(\<And>d ds. A d ds \<Longrightarrow> Q (Inl e) d ds) \<Longrightarrow> leads A (eexit e) Q"
  unfolding leads_def by (simp add: effect_simps)

lemma leads_change: "(\<And>d ds. A d ds \<Longrightarrow> Q (Inr ()) (f d) (ds @ [f d])) \<Longrightarrow> leads A (change_disk f) Q"
  unfolding leads_def by (simp add: change_disk_def effect_simps)

lemma leads_if: "(c \<Longrightarrow> leads A m Q) \<Longrightarrow> (\<not> c \<Longrightarrow> leads A n Q) \<Longrightarrow> leads A (if c then m else n) Q"
  by simp

subsection \<open>Operations that leave the disk alone\<close>

interpretation quiet_disk: kept "\<lambda>r r'. ar_disk r' = ar_disk r \<and> ar_disks r' = ar_disks r"
  by unfold_locales simp_all

abbreviation quiet_op :: "('w, 'a) archiving \<Rightarrow> bool" where
  "quiet_op \<equiv> quiet_disk.keeps"

lemma quiet_asking: "quiet_op (archive_ask f)"
  unfolding archive_ask_def by (rule quiet_disk.keeps_lift) (simp split: prod.split)

lemma quiet_checked: "quiet_op (checked x)"
  unfolding checked_def by (rule quiet_disk.keeps_try)

lemmas quiet_intros = quiet_disk.keeps_intros quiet_asking quiet_checked

lemma quiet_fallible: "quiet_op (fallible W operation path)"
  unfolding fallible_def by (intro quiet_intros)

lemma quiet_sqlite: "quiet_op (sqlite_call W path)"
  unfolding sqlite_call_def by (intro quiet_intros)

lemma quiet_absent: "quiet_op (all_absent W sidecars)"
  by (induction sidecars) (auto simp: ensure_sqlite_sidecar_absent_def intro!: quiet_intros)

lemma quiet_sidecars: "quiet_op (ensure_no_sqlite_sidecars W path)" "quiet_op (ensure_no_sqlite_wal_sidecars W path)"
  by (simp_all add: ensure_no_sqlite_sidecars_def ensure_no_sqlite_wal_sidecars_def quiet_absent)

lemma quiet_inspect: "quiet_op (inspect_file W kind path)"
  unfolding inspect_file_def by (intro quiet_intros quiet_fallible)

lemma quiet_artifact:
  "(\<And>src. quiet_op (m src)) \<Longrightarrow> quiet_op n \<Longrightarrow>
     quiet_op (case a of DatabaseImage src \<Rightarrow> m src | _ \<Rightarrow> n)"
  by (cases a) simp_all

lemma quiet_open: "quiet_op (open_image W path)"
  unfolding open_image_def by (intro quiet_intros quiet_sqlite quiet_artifact)

lemma quiet_open_active: "quiet_op (open_active W path)"
  unfolding open_active_def by (intro quiet_intros quiet_inspect quiet_open)

lemma quiet_sync: "quiet_op (sync_file W path)"
  unfolding sync_file_def by (intro quiet_intros quiet_fallible)

lemma quiet_verify_image: "quiet_op (verify_image W folder src)"
  unfolding verify_image_def by (intro quiet_intros)

lemma quiet_image_ledger: "quiet_op (image_ledger src)"
  unfolding image_ledger_def by (rule quiet_checked)

lemma quiet_verify_archive: "quiet_op (verify_archive W path folder)"
  unfolding verify_archive_def
  by (intro quiet_intros quiet_inspect quiet_sidecars quiet_open quiet_verify_image quiet_image_ledger)

lemma quiet_digest: "quiet_op (ledger_content_digest_path W path)"
  unfolding ledger_content_digest_path_def by (intro quiet_intros quiet_sidecars quiet_open)

lemma quiet_sha256: "quiet_op (sha256_path W path)"
  unfolding sha256_path_def by (intro quiet_intros quiet_sidecars quiet_fallible)

lemma quiet_checkpoint: "quiet_op (checkpoint_for_archive W path)"
  unfolding checkpoint_for_archive_def by (intro quiet_intros quiet_sqlite quiet_sidecars)

lemma quiet_same_contents: "quiet_op (same_contents W source path e)"
  unfolding same_contents_def by (intro quiet_intros quiet_digest)

lemma quiet_resume: "quiet_op (resume_archive W folder source ledger_id archive)"
  unfolding resume_archive_def
  by (intro quiet_intros quiet_verify_archive quiet_same_contents quiet_sha256)

lemma quiet_completed: "quiet_op (completed_archive_report W folder expected archive retired)"
  unfolding completed_archive_report_def
  by (intro quiet_intros quiet_verify_archive quiet_digest quiet_sha256)

lemmas quiet_ops = quiet_asking quiet_checked quiet_fallible quiet_sqlite quiet_sidecars quiet_inspect quiet_open
  quiet_open_active quiet_sync quiet_verify_image quiet_image_ledger quiet_verify_archive quiet_digest quiet_sha256
  quiet_checkpoint quiet_same_contents quiet_resume quiet_completed

lemma leads_quiet:
  assumes "quiet_op m" and "\<And>x d ds. A d ds \<Longrightarrow> Q x d ds"
  shows "leads A m Q"
  using assms unfolding leads_def quiet_disk.keeps_def by metis

text \<open>A quiet operation whose result says something about the disk.\<close>

lemma leads_quiet_bind:
  assumes "quiet_op m" and fact: "\<And>r y r'. m r = Some (Inr y, r') \<Longrightarrow> F y (ar_disk r)"
    and "\<And>y. leads (\<lambda>d ds. A d ds \<and> F y d) (k y) Q" and "\<And>e d ds. A d ds \<Longrightarrow> Q (Inl e) d ds"
  shows "leads A (ebind m k) Q"
proof (rule leads_bind [where B = "\<lambda>y d ds. A d ds \<and> F y d"])
  show "leads A m (\<lambda>x d ds. case x of Inl e \<Rightarrow> Q (Inl e) d ds | Inr y \<Rightarrow> A d ds \<and> F y d)"
    using assms(1,4) fact unfolding leads_def quiet_disk.keeps_def by (metis (no_types, lifting) sum.case sum.exhaust)
qed (rule assms(3))

lemma leads_skip:
  assumes "quiet_op m" and "\<And>y. leads A (k y) Q" and "\<And>e d ds. A d ds \<Longrightarrow> Q (Inl e) d ds"
  shows "leads A (ebind m k) Q"
  by (rule leads_quiet_bind [where F = "\<lambda>_ _. True"]) (use assms in simp_all)

lemma leads_guard:
  assumes "leads (\<lambda>d ds. A d ds \<and> \<not> c) (k ()) Q" and "\<And>d ds. A d ds \<Longrightarrow> Q (Inl e) d ds"
  shows "leads A (ebind (eguard c e) k) Q"
  using assms unfolding leads_def by (simp add: effect_simps)

subsection \<open>What results say\<close>

lemma eguard_Inr: "eguard c e r = Some (Inr x, r') \<longleftrightarrow> \<not> c \<and> r' = r"
  by (auto simp: effect_simps)

lemma eget_Inr: "eget f r = Some (Inr x, r') \<longleftrightarrow> x = f r \<and> r' = r"
  by (auto simp: effect_simps)

lemma ereturn_Inr: "ereturn y r = Some (Inr x, r') \<longleftrightarrow> x = y \<and> r' = r"
  by (auto simp: effect_simps)

lemma checked_Inr: "checked y r = Some (Inr x, r') \<longleftrightarrow> y = Inr x \<and> r' = r"
  by (auto simp: checked_def effect_simps split: sum.split)

lemmas result_runs = ebind_Inr eguard_Inr eget_Inr ereturn_Inr checked_Inr

lemma quiet_disk_same: "quiet_op m \<Longrightarrow> m r = Some (x, r') \<Longrightarrow> ar_disk r' = ar_disk r"
  using quiet_disk.keepsD [of m r x r'] by blast

lemma open_image_result:
  assumes "open_image W path r = Some (Inr src, r')"
  shows "ar_disk r path = Some (DatabaseImage src)"
proof -
  obtain u r1 where call: "sqlite_call W path r = Some (Inr u, r1)"
    and found: "(case ar_disk r1 path of Some (DatabaseImage f) \<Rightarrow> ereturn f
      | _ \<Rightarrow> eexit (MaintenanceSqlite ''file is not a database'')) r1 = Some (Inr src, r')"
    using assms by (auto simp: open_image_def result_runs)
  from found have "ar_disk r1 path = Some (DatabaseImage src)"
    by (cases "ar_disk r1 path"; cases "the (ar_disk r1 path)") (auto simp: effect_simps)
  then show ?thesis using quiet_disk_same [OF quiet_sqlite call] by simp
qed

lemma open_active_result:
  assumes "open_active W path r = Some (Inr src, r')"
  shows "ar_disk r path = Some (DatabaseImage src)"
  using assms quiet_disk_same [OF quiet_inspect] open_image_result
  by (fastforce simp: open_active_def result_runs)

lemma digest_result:
  assumes "ledger_content_digest_path W path r = Some (Inr digest, r')"
  shows "\<exists>src. ar_disk r path = Some (DatabaseImage src)
    \<and> ledger_content_digest (aw_sha W) (aw_queries W) src = Inr digest"
  using assms quiet_disk_same [OF quiet_sidecars(1)] open_image_result
  by (fastforce simp: ledger_content_digest_path_def result_runs)

lemma inspect_result:
  assumes "inspect_file W kind path r = Some (Inr exists, r')"
  shows "exists = (ar_disk r path \<noteq> None)"
  using assms quiet_disk_same [OF quiet_fallible]
  by (fastforce simp: inspect_file_def result_runs safe_regular_file_def file_answer_def
      split: option.splits artifact.splits if_splits)

definition same_digest :: "'w archive_world \<Rightarrow> database_file \<Rightarrow> artifact option \<Rightarrow> bool" where
  "same_digest W src v \<longleftrightarrow>
     (\<exists>db copy db'. f_ledger src = Some db \<and> v = Some (DatabaseImage copy) \<and> f_ledger copy = Some db'
       \<and> aw_sha W (ledger_contents (aw_queries W) db') = aw_sha W (ledger_contents (aw_queries W) db))"

lemma same_contents_result:
  assumes "same_contents W src path e r = Some (Inr u, r')"
  shows "same_digest W src (ar_disk r path)"
proof -
  obtain digest r1 where "ledger_content_digest (aw_sha W) (aw_queries W) src = Inr digest"
    "ledger_content_digest_path W path r = Some (Inr digest, r1)"
    using assms by (auto simp: same_contents_def result_runs)
  with digest_result [OF this(2)] show ?thesis
    by (auto simp: ledger_content_digest_def result_simps same_digest_def)
qed

lemma resume_result:
  assumes "resume_archive W folder src ledger_id archive r = Some (Inr digest, r')"
  shows "same_digest W src (ar_disk r archive)"
proof -
  obtain i r1 u r2 where "verify_archive W archive folder r = Some (Inr i, r1)"
    "same_contents W src archive ActiveChangedAfterArchive r1 = Some (Inr u, r2)"
    using assms by (auto simp: resume_archive_def result_runs)
  then show ?thesis
    using same_contents_result quiet_disk_same [OF quiet_verify_archive] by metis
qed

lemma image_ledger_result: "image_ledger src r = Some (Inr db, r') \<Longrightarrow> f_ledger src = Some db"
  by (simp add: image_ledger_def checked_Inr result_simps)

definition drained :: "ledger_db \<Rightarrow> bool" where
  "drained db \<longleftrightarrow> list_all (\<lambda>r. \<not> live_job r \<and> j_state r \<noteq> ''permanently_failed'') (db_jobs db)"

lemma archive_ready_drained: "ensure_archive_ready fs folder db = Inr u \<Longrightarrow> drained db"
  by (auto simp: ensure_archive_ready_def ensure_terminal_ledger_def result_simps Let_def drained_def list_all_iff
      filter_empty_conv)

subsection \<open>Operations that change the disk\<close>

definition partial_of :: "string \<Rightarrow> string \<Rightarrow> bool" where
  "partial_of archive path \<longleftrightarrow> (\<exists>suffix. path = archive @ ''.partial-'' @ suffix)"

text \<open>A hard link has been made: the old name is removed, or the link is, or both names stay.\<close>

lemma unlink_leads:
  assumes ne: "s \<noteq> t" and L: "\<And>d ds. L d ds \<Longrightarrow> d t = d s \<and> S d \<and> S (d(t := None)) \<and> list_all S ds"
    and moved: "\<And>d ds. L d ds \<Longrightarrow> S (d(s := None)) \<and> G (d(s := None))"
  shows "leads L (unlink_source W s t operation)
    (\<lambda>x d ds. S d \<and> list_all S ds \<and> (case x of Inl _ \<Rightarrow> True | Inr _ \<Rightarrow> G d))"
  unfolding unlink_source_def
proof (rule leads_skip [OF quiet_asking])
  let ?Q = "\<lambda>x d ds. S d \<and> list_all S ds \<and> (case x of Inl _ \<Rightarrow> True | Inr _ \<Rightarrow> G d)"
  have failed: "leads (\<lambda>d ds. S d \<and> list_all S ds) (ebind (archive_ask g) (\<lambda>_. eexit e)) ?Q" for g e
    by (intro leads_skip quiet_asking leads_exit) simp_all
  have "leads L (change_disk (\<lambda>d. d(s := None))) (\<lambda>_ d ds. S d \<and> list_all S ds \<and> G d)"
    by (rule leads_change) (use L moved in auto)
  then have drop: "leads L (ebind (change_disk (\<lambda>d. d(s := None))) (\<lambda>_. fallible W operation t)) ?Q"
    by (rule leads_then) (auto intro!: leads_quiet [OF quiet_fallible] split: sum.split)
  have "leads L (ewhen c (change_disk (\<lambda>d. d(t := None)))) (\<lambda>_ d ds. S d \<and> list_all S ds)" for c
    by (cases c) (use L in \<open>auto simp: ewhen_def intro!: leads_return leads_change\<close>)
  then have kept: "leads L (ebind (ewhen c (change_disk (\<lambda>d. d(t := None)))) (\<lambda>_.
         ebind (archive_ask (aw_fault W t)) (\<lambda>_. eexit (MaintenanceIo operation t e)))) ?Q" for c e
    by (rule leads_then [OF _ failed]) auto
  have undo: "leads L (ebind (archive_ask (aw_fault W t)) (\<lambda>kept.
         ebind (ewhen (kept = None) (change_disk (\<lambda>d. d(t := None)))) (\<lambda>_.
         ebind (archive_ask (aw_fault W t)) (\<lambda>_. eexit (MaintenanceIo operation t e))))) ?Q" for e
    by (rule leads_skip [OF quiet_asking kept]) (use L in auto)
  show "leads L (case fault of None \<Rightarrow> ebind (change_disk (\<lambda>d. d(s := None))) (\<lambda>_. fallible W operation t)
     | Some e \<Rightarrow>
         ebind (archive_ask (aw_fault W t)) (\<lambda>kept.
         ebind (ewhen (kept = None) (change_disk (\<lambda>d. d(t := None)))) (\<lambda>_.
         ebind (archive_ask (aw_fault W t)) (\<lambda>_. eexit (MaintenanceIo operation t e))))) ?Q" for fault
    using drop undo by (cases fault) simp_all
qed (use L in auto)

lemma publish_leads:
  assumes ne: "s \<noteq> t"
    and start: "\<And>d ds. A d ds \<Longrightarrow> S d \<and> list_all S ds"
    and linked: "\<And>d ds. A d ds \<Longrightarrow> d t = None \<Longrightarrow> S (d(t := d s))"
    and moved: "\<And>d ds. A d ds \<Longrightarrow> d t = None \<Longrightarrow> S (d(s := None, t := d s)) \<and> G (d(s := None, t := d s))"
  shows "leads A (publish_no_replace W s t operation)
    (\<lambda>x d ds. S d \<and> list_all S ds \<and> (case x of Inl _ \<Rightarrow> True | Inr _ \<Rightarrow> G d))"
    (is "leads A _ ?Q")
proof -
  let ?B = "\<lambda>d ds. A d ds \<and> d t = None"
  let ?L = "\<lambda>d ds. \<exists>e es. A e es \<and> e t = None \<and> d = e(t := e s) \<and> ds = es @ [d]"
  have win: "leads ?B (change_disk (\<lambda>d. d(s := None, t := d s))) ?Q"
    by (rule leads_change) (use start moved in auto)
  have link: "leads ?B (change_disk (\<lambda>d. d(t := d s))) (\<lambda>x d ds. case x of Inl e \<Rightarrow> ?Q (Inl e) d ds | Inr _ \<Rightarrow> ?L d ds)"
    by (rule leads_change) auto
  have L: "d t = d s \<and> S d \<and> S (d(t := None)) \<and> list_all S ds" if linked_disk: "?L d ds" for d ds
  proof -
    obtain e es where e: "A e es" "e t = None" "d = e(t := e s)" "ds = es @ [d]" using linked_disk by blast
    have "d(t := None) = e" unfolding e(3) using e(2) by (simp add: fun_upd_idem)
    then show ?thesis using start [OF e(1)] linked [OF e(1,2)] e(3,4) ne by simp
  qed
  have M: "S (d(s := None)) \<and> G (d(s := None))" if linked_disk: "?L d ds" for d ds
  proof -
    obtain e es where e: "A e es" "e t = None" "d = e(t := e s)" using linked_disk by blast
    have "d(s := None) = e(s := None, t := e s)" unfolding e(3) by (rule fun_upd_twist) (use ne in simp)
    then show ?thesis using moved [OF e(1,2)] by simp
  qed
  have unlink: "leads ?L (unlink_source W s t operation) ?Q"
    by (rule unlink_leads [OF ne L M])
  have settled: "leads ?L (ebind (fallible W operation t) (\<lambda>_. unlink_source W s t operation)) ?Q"
  proof (rule leads_skip [OF quiet_fallible unlink])
    fix e d ds assume "?L d ds"
    from L [OF this] show "?Q (Inl e) d ds" by simp
  qed
  have both: "leads ?B (if aw_windows W then change_disk (\<lambda>d. d(s := None, t := d s))
       else ebind (change_disk (\<lambda>d. d(t := d s))) (\<lambda>_. ebind (fallible W operation t) (\<lambda>_. unlink_source W s t operation))) ?Q"
    by (rule leads_if [OF win leads_bind [OF link settled]])
  show ?thesis unfolding publish_no_replace_def
    by (rule leads_skip [OF quiet_fallible leads_quiet_bind [where F = "\<lambda>y d. y = d t", OF quiet_disk.keeps_get
          _ leads_guard [OF leads_strengthen [OF both]]]])
      (use start in \<open>auto simp: eget_Inr\<close>)
qed

lemma partial_leads:
  assumes "\<And>path v d ds. partial_of archive path \<Longrightarrow> A d ds \<Longrightarrow> A (d(path := v)) (ds @ [d(path := v)])"
  shows "leads A (unique_partial_path W archive tries)
    (\<lambda>x d ds. A d ds \<and> (case x of Inl _ \<Rightarrow> True | Inr path \<Rightarrow> partial_of archive path))"
proof (induction tries)
  case 0
  then show ?case by (simp add: leads_exit)
next
  case (Suc tries)
  let ?Q = "\<lambda>x d ds. A d ds \<and> (case x of Inl _ \<Rightarrow> True | Inr path \<Rightarrow> partial_of archive path)"
  have create: "leads A (ebind (change_disk (\<lambda>d. d(path \<mapsto> RawImage []))) (\<lambda>_. ereturn path)) ?Q"
    if path: "partial_of archive path" for path
  proof (rule leads_then [where C = A])
    show "leads A (change_disk (\<lambda>d. d(path \<mapsto> RawImage []))) (\<lambda>_. A)"
      by (rule leads_change) (rule assms [OF path])
    show "leads A (ereturn path) ?Q" for y :: unit
      by (rule leads_return) (simp add: path)
  qed simp
  have fresh: "leads A (ebind (fallible W operation path) (\<lambda>_.
       ebind (change_disk (\<lambda>d. d(path \<mapsto> RawImage []))) (\<lambda>_. ereturn path))) ?Q"
    if path: "partial_of archive path" for path operation
    by (rule leads_skip [OF quiet_fallible create [OF path]]) simp
  have one: "leads A (ebind (eget (\<lambda>r. ar_disk r path)) (\<lambda>found.
       if found \<noteq> None then unique_partial_path W archive tries
       else ebind (fallible W operation path) (\<lambda>_.
         ebind (change_disk (\<lambda>d. d(path \<mapsto> RawImage []))) (\<lambda>_. ereturn path)))) ?Q"
    if path: "partial_of archive path" for path operation
    by (rule leads_skip [OF quiet_disk.keeps_get]) (use Suc fresh [OF path] in auto)
  show ?case unfolding unique_partial_path.simps Let_def
  proof (rule leads_skip [OF quiet_asking])
    show "leads A (case random of Inl e \<Rightarrow> eexit (MaintenanceIo ''generate archive temporary name'' archive e)
       | Inr bytes \<Rightarrow> ebind (eget (\<lambda>r. ar_disk r (archive @ ''.partial-'' @ hex_encode bytes))) (\<lambda>found.
           if found \<noteq> None then unique_partial_path W archive tries
           else ebind (fallible W ''create archive temporary file'' (archive @ ''.partial-'' @ hex_encode bytes)) (\<lambda>_.
             ebind (change_disk (\<lambda>d. d(archive @ ''.partial-'' @ hex_encode bytes \<mapsto> RawImage []))) (\<lambda>_.
             ereturn (archive @ ''.partial-'' @ hex_encode bytes))))) ?Q" for random
    proof (cases random)
      case (Inr bytes)
      have "partial_of archive (archive @ ''.partial-'' @ hex_encode bytes)" by (auto simp: partial_of_def)
      then show ?thesis unfolding Inr sum.case by (rule one)
    qed (simp add: leads_exit)
  qed simp
qed

lemma temporary_leads:
  assumes m: "leads A m (\<lambda>x d ds. case x of Inl _ \<Rightarrow> E d ds | Inr y \<Rightarrow> Q (Inr y) d ds)"
    and E: "\<And>e d ds. E d ds \<Longrightarrow> Q (Inl e) d ds"
    and removed: "\<And>e d ds. E d ds \<Longrightarrow> Q (Inl e) (d(path := None)) (ds @ [d(path := None)])"
  shows "leads A (with_temporary W path m) Q"
proof -
  have clean: "leads E (ebind (archive_ask (aw_fault W path)) (\<lambda>fault.
         ebind (ewhen (fault = None) (change_disk (\<lambda>d. d(path := None)))) (\<lambda>_. eexit e))) Q" for e
  proof (rule leads_skip [OF quiet_asking])
    fix fault :: "io_error option"
    have "leads E (ewhen c (change_disk (\<lambda>d. d(path := None)))) (\<lambda>_. \<lambda>d ds. \<forall>e. Q (Inl e) d ds)" for c
      using E removed by (cases c) (auto simp: ewhen_def intro!: leads_change leads_return)
    then show "leads E (ebind (ewhen (fault = None) (change_disk (\<lambda>d. d(path := None)))) (\<lambda>_. eexit e)) Q"
      by (rule leads_then) (auto intro!: leads_exit)
  qed (rule E)
  show ?thesis
    using m clean unfolding leads_def with_temporary_def
    by (fastforce split: option.splits sum.splits prod.splits)
qed

subsection \<open>The names\<close>

lemma with_extension_prefix: "\<exists>stem. \<forall>e. with_extension path e = stem @ ''.'' @ e"
  unfolding with_extension_def by blast

lemma partial_longer: "partial_of archive path \<Longrightarrow> length archive < length path"
  by (auto simp: partial_of_def)

lemma archive_names:
  assumes "active = with_extension config ''upload.sqlite3''" "archive = archive_path_of config i" "retired = retired_path_of config i"
  shows "active \<noteq> archive \<and> active \<noteq> retired \<and> archive \<noteq> retired
    \<and> \<not> partial_of archive active \<and> \<not> partial_of archive archive \<and> \<not> partial_of archive retired"
proof -
  have len: "length active \<le> length archive" "length retired = length archive"
    using with_extension_prefix [of config] by (auto simp: assms archive_path_of_def retired_path_of_def)
  have "active \<noteq> archive" "active \<noteq> retired" "archive \<noteq> retired"
    by (auto simp: assms archive_path_of_def retired_path_of_def with_extension_inject)
  then show ?thesis using len partial_longer by fastforce
qed

subsection \<open>What every disk shows\<close>

text \<open>A drained ledger and a copy of it.\<close>

definition archived :: "'w archive_world \<Rightarrow> artifact option \<Rightarrow> artifact option \<Rightarrow> bool" where
  "archived W old copy \<longleftrightarrow>
     (\<exists>src db. old = Some (DatabaseImage src) \<and> f_ledger src = Some db \<and> drained db \<and> same_digest W src copy)"

text \<open>Active, archive and retired file, from the disk before to a disk after.\<close>

definition retirement ::
  "'w archive_world \<Rightarrow> ledger_disk \<Rightarrow> string \<Rightarrow> string \<Rightarrow> string \<Rightarrow> ledger_disk \<Rightarrow> bool" where
  "retirement W D active archive retired d \<longleftrightarrow>
     d active = None \<and> d retired = D active \<and> archived W (D active) (d archive)"

definition ledger_safe ::
  "'w archive_world \<Rightarrow> ledger_disk \<Rightarrow> string \<Rightarrow> string \<Rightarrow> string \<Rightarrow> ledger_disk \<Rightarrow> bool" where
  "ledger_safe W D active archive retired d \<longleftrightarrow>
     (d active = D active \<or> retirement W D active archive retired d)
     \<and> (d archive = D archive \<or> D archive = None \<and> archived W (D active) (d archive))
     \<and> (d retired = D retired \<or> D retired = None \<and> d retired = D active \<and> archived W (D active) (d archive))
     \<and> (\<forall>p. p \<notin> {active, archive, retired} \<and> \<not> partial_of archive p \<longrightarrow> d p = D p)"

definition outside :: "string \<Rightarrow> string set \<Rightarrow> ledger_disk \<Rightarrow> ledger_disk \<Rightarrow> bool" where
  "outside archive X D d \<longleftrightarrow> (\<forall>p. \<not> partial_of archive p \<and> p \<notin> X \<longrightarrow> d p = D p)"

lemma outside_partial: "partial_of archive path \<Longrightarrow> outside archive X D d \<Longrightarrow> outside archive X D (d(path := v))"
  by (auto simp: outside_def)

subsection \<open>Publishing a copy, and retiring the source\<close>

lemma backup_leads:
  assumes change: "\<And>d ds v. A d ds \<Longrightarrow> A (d(path := v)) (ds @ [d(path := v)])"
  shows "leads A (backup_database W src path) (\<lambda>_. A)"
  unfolding backup_database_def
proof (rule leads_skip [OF quiet_asking])
  fix y :: "string option \<times> artifact"
  obtain failure image where y: "y = (failure, image)" by (cases y)
  have rest: "leads A (case failure of None \<Rightarrow> ereturn () | Some message \<Rightarrow> eexit (MaintenanceSqlite message)) (\<lambda>_. A)"
    by (cases failure) (simp_all add: leads_return leads_exit)
  have "leads A (change_disk (\<lambda>d. d(path \<mapsto> image))) (\<lambda>_. A)"
    by (rule leads_change) (rule change)
  then show "leads A (case y of (failure, image) \<Rightarrow> ebind (change_disk (\<lambda>d. d(path \<mapsto> image))) (\<lambda>_.
      case failure of None \<Rightarrow> ereturn () | Some message \<Rightarrow> eexit (MaintenanceSqlite message))) (\<lambda>_. A)"
    unfolding y prod.case by (rule leads_then [OF _ rest])
qed

text \<open>The copy is compared with the source before it gets its name.\<close>

lemma copy_leads:
  assumes "p \<noteq> k" and start: "\<And>d ds. A d ds \<Longrightarrow> S d \<and> list_all S ds"
    and change: "\<And>d ds v. A d ds \<Longrightarrow> A (d(p := v)) (ds @ [d(p := v)])"
    and linked: "\<And>d ds. A d ds \<Longrightarrow> same_digest W src (d p) \<Longrightarrow> d k = None \<Longrightarrow>
      S (d(k := d p)) \<and> S (d(p := None, k := d p)) \<and> G (d(p := None, k := d p))"
  shows "leads A
     (ebind (backup_database W src p) (\<lambda>_.
      ebind (verify_archive W p folder) (\<lambda>archived_id.
      ebind (checked (ensure_expected_id i archived_id)) (\<lambda>_.
      ebind (same_contents W src p e) (\<lambda>_.
      ebind (sha256_path W p) (\<lambda>hash.
      ebind (sync_file W p) (\<lambda>_.
      ebind (publish_no_replace W p k operation) (\<lambda>_.
      ereturn hash))))))))
     (\<lambda>x d ds. S d \<and> list_all S ds \<and> (case x of Inl _ \<Rightarrow> True | Inr _ \<Rightarrow> G d))"
    (is "leads A _ ?Q")
proof -
  let ?C = "\<lambda>d ds. A d ds \<and> same_digest W src (d p)"
  have early: "?Q (Inl e) d ds" if "A d ds" for e :: maintenance_error and d ds
    using start [OF that] by simp
  have early': "?Q (Inl e) d ds" if "?C d ds" for e :: maintenance_error and d ds
    using early that by blast
  have publish: "leads ?C (publish_no_replace W p k operation)
      (\<lambda>x d ds. S d \<and> list_all S ds \<and> (case x of Inl _ \<Rightarrow> True | Inr _ \<Rightarrow> G d))"
  proof (rule publish_leads [OF assms(1)])
    show "?C d ds \<Longrightarrow> S d \<and> list_all S ds" for d ds using start by blast
    show "?C d ds \<Longrightarrow> d k = None \<Longrightarrow> S (d(k := d p))" for d ds using linked by blast
    show "?C d ds \<Longrightarrow> d k = None \<Longrightarrow> S (d(p := None, k := d p)) \<and> G (d(p := None, k := d p))" for d ds
      using linked by blast
  qed
  have finish: "leads ?C (ebind (publish_no_replace W p k operation) (\<lambda>_. ereturn hash)) ?Q" for hash :: "u8 list"
  proof (rule leads_bind [where B = "\<lambda>_ d ds. S d \<and> list_all S ds \<and> G d"])
    show "leads ?C (publish_no_replace W p k operation)
        (\<lambda>x d ds. case x of Inl e \<Rightarrow> ?Q (Inl e) d ds | Inr _ \<Rightarrow> S d \<and> list_all S ds \<and> G d)"
      by (rule leads_weaken [OF publish]) (simp split: sum.splits)
    show "leads (\<lambda>d ds. S d \<and> list_all S ds \<and> G d) (ereturn hash) ?Q" for y :: unit
      by (rule leads_return) simp
  qed
  have same: "same_contents W src p e r = Some (Inr u, r') \<Longrightarrow> same_digest W src (ar_disk r p)" for u r r'
    by (rule same_contents_result)
  have compared: "leads A (ebind (same_contents W src p e) (\<lambda>_. ebind (sha256_path W p) (\<lambda>hash.
      ebind (sync_file W p) (\<lambda>_. ebind (publish_no_replace W p k operation) (\<lambda>_. ereturn hash))))) ?Q"
    by (rule leads_quiet_bind [OF quiet_same_contents same
        leads_skip [OF quiet_sha256 leads_skip [OF quiet_sync finish early'] early'] early])
  have verified: "leads A (ebind (verify_archive W p folder) (\<lambda>archived_id.
      ebind (checked (ensure_expected_id i archived_id)) (\<lambda>_.
      ebind (same_contents W src p e) (\<lambda>_. ebind (sha256_path W p) (\<lambda>hash.
      ebind (sync_file W p) (\<lambda>_. ebind (publish_no_replace W p k operation) (\<lambda>_. ereturn hash))))))) ?Q"
    by (rule leads_skip [OF quiet_verify_archive leads_skip [OF quiet_checked compared early] early])
  have "leads A (backup_database W src p) (\<lambda>_. A)"
    by (rule backup_leads) (rule change)
  then show ?thesis by (rule leads_then [OF _ verified early])
qed

lemma publish_archive_leads:
  assumes k: "\<not> partial_of k k" and start: "\<And>d ds. A d ds \<Longrightarrow> S d \<and> list_all S ds"
    and change: "\<And>p d ds v. partial_of k p \<Longrightarrow> A d ds \<Longrightarrow> A (d(p := v)) (ds @ [d(p := v)])"
    and removed: "\<And>p d. partial_of k p \<Longrightarrow> S d \<Longrightarrow> S (d(p := None))"
    and linked: "\<And>p d ds. partial_of k p \<Longrightarrow> A d ds \<Longrightarrow> same_digest W src (d p) \<Longrightarrow> d k = None \<Longrightarrow>
      S (d(k := d p)) \<and> S (d(p := None, k := d p)) \<and> G (d(p := None, k := d p))"
  shows "leads A (publish_archive W folder src i k)
    (\<lambda>x d ds. S d \<and> list_all S ds \<and> (case x of Inl _ \<Rightarrow> True | Inr _ \<Rightarrow> G d))"
    (is "leads A _ ?Q")
proof -
  have early: "?Q (Inl e) d ds" if "A d ds" for e :: maintenance_error and d ds
    using start [OF that] by simp
  let ?copy = "\<lambda>p. ebind (backup_database W src p) (\<lambda>_.
      ebind (verify_archive W p folder) (\<lambda>archived_id.
      ebind (checked (ensure_expected_id i archived_id)) (\<lambda>_.
      ebind (same_contents W src p (PartialArchive ''backup contents differ'')) (\<lambda>_.
      ebind (sha256_path W p) (\<lambda>hash.
      ebind (sync_file W p) (\<lambda>_.
      ebind (publish_no_replace W p k ''publish verified archive'') (\<lambda>_.
      ereturn hash)))))))"
  have inner: "leads A (with_temporary W p (?copy p)) ?Q" if p: "partial_of k p" for p
  proof (rule temporary_leads [where E = "\<lambda>d ds. S d \<and> list_all S ds"])
    have "p \<noteq> k" using p k by blast
    have "leads A (?copy p) ?Q"
      by (rule copy_leads [where A = A and S = S and G = G, OF \<open>p \<noteq> k\<close>]) (use start change [OF p] linked [OF p] in blast)+
    then show "leads A (?copy p) (\<lambda>x d ds. case x of Inl _ \<Rightarrow> S d \<and> list_all S ds | Inr y \<Rightarrow> ?Q (Inr y) d ds)"
      by (rule leads_weaken) (simp split: sum.splits)
    show "?Q (Inl e) (d(p := None)) (ds @ [d(p := None)])" if "S d \<and> list_all S ds" for e :: maintenance_error and d ds
      using removed [OF p] that by simp
  qed simp
  have synced: "leads (\<lambda>d ds. S d \<and> list_all S ds \<and> G d) (ebind (sync_file W k) (\<lambda>_. ereturn hash)) ?Q"
    for hash :: "u8 list"
    by (rule leads_skip [OF quiet_sync leads_return]) simp_all
  have whole: "leads A (ebind (with_temporary W p (?copy p)) (\<lambda>hash. ebind (sync_file W k) (\<lambda>_. ereturn hash))) ?Q"
    if p: "partial_of k p" for p
    by (rule leads_bind [OF leads_weaken [OF inner [OF p]] synced]) (simp split: sum.splits)
  show ?thesis unfolding publish_archive_def
  proof (rule leads_bind [where B = "\<lambda>p d ds. A d ds \<and> partial_of k p"])
    show "leads A (unique_partial_path W k 32)
        (\<lambda>x d ds. case x of Inl e \<Rightarrow> ?Q (Inl e) d ds | Inr p \<Rightarrow> A d ds \<and> partial_of k p)"
      by (rule leads_weaken [OF partial_leads [where A = A]]) (use change start in \<open>simp_all split: sum.splits\<close>)
    show "leads (\<lambda>d ds. A d ds \<and> partial_of k p) (ebind (with_temporary W p (?copy p)) (\<lambda>hash.
        ebind (sync_file W k) (\<lambda>_. ereturn hash))) ?Q" for p
    proof (cases "partial_of k p")
      case True
      show ?thesis by (rule leads_strengthen [OF whole [OF True]]) simp
    qed (simp add: leads_def)
  qed
qed

text \<open>With a copy in place the source gets its retired name.\<close>

lemma retire_leads:
  assumes names: "active \<noteq> k" "active \<noteq> t" "k \<noteq> t" "\<not> partial_of k active" "\<not> partial_of k k" "\<not> partial_of k t"
    and base: "D t = None"
  shows "leads (\<lambda>d ds. list_all (ledger_safe W D active k t) (d # ds) \<and> d active = D active \<and> d t = None \<and> archived W (D active) (d k))
    (publish_no_replace W active t operation)
    (\<lambda>x d ds. ledger_safe W D active k t d \<and> list_all (ledger_safe W D active k t) ds
       \<and> (case x of Inl _ \<Rightarrow> True | Inr _ \<Rightarrow> retirement W D active k t d))"
proof (rule publish_leads [OF names(2)])
  fix d ds
  assume A: "list_all (ledger_safe W D active k t) (d # ds) \<and> d active = D active \<and> d t = None \<and> archived W (D active) (d k)"
  show "ledger_safe W D active k t d \<and> list_all (ledger_safe W D active k t) ds" using A by simp
  show "ledger_safe W D active k t (d(t := d active))"
    using A names base by (auto simp: ledger_safe_def)
  show "ledger_safe W D active k t (d(active := None, t := d active)) \<and> retirement W D active k t (d(active := None, t := d active))"
    using A names base by (auto simp: ledger_safe_def retirement_def)
qed

lemma archive_file_leads:
  assumes names: "active \<noteq> k" "active \<noteq> t" "k \<noteq> t" "\<not> partial_of k active" "\<not> partial_of k k" "\<not> partial_of k t"
    and copy: "\<And>v. same_digest W src v \<Longrightarrow> archived W (D active) v"
    and base: "D t = None" "known \<longleftrightarrow> D k \<noteq> None"
  shows "leads (\<lambda>d ds. d = D \<and> ds = [])
    (if known then resume_archive W folder src i k else publish_archive W folder src i k)
    (\<lambda>x d ds. list_all (ledger_safe W D active k t) (d # ds)
       \<and> (case x of Inl _ \<Rightarrow> True | Inr _ \<Rightarrow> d active = D active \<and> d t = None \<and> archived W (D active) (d k)))"
    (is "leads ?A _ ?Q")
proof (rule leads_if)
  assume known
  show "leads ?A (resume_archive W folder src i k) ?Q"
    unfolding leads_def
  proof (intro allI impI)
    fix r x r' assume r: "ar_disk r = D \<and> ar_disks r = []" and run: "resume_archive W folder src i k r = Some (x, r')"
    have "ar_disk r' = D" "ar_disks r' = []"
      using r quiet_disk.keepsD [OF quiet_resume run] by simp_all
    moreover have "archived W (D active) (D k)" if "x = Inr h" for h
      using copy [OF resume_result] run r that by auto
    ultimately show "?Q x (ar_disk r') (ar_disks r')"
      using base by (auto simp: ledger_safe_def split: sum.split)
  qed
next
  assume "\<not> known"
  then have new: "D k = None" using base by simp
  let ?S = "\<lambda>d. outside k {k} D d \<and> (d k = None \<or> archived W (D active) (d k))"
  have safe: "ledger_safe W D active k t d \<and> d active = D active \<and> d t = None" if "?S d" for d
    using that names base new by (auto simp: ledger_safe_def outside_def)
  have "leads ?A (publish_archive W folder src i k)
      (\<lambda>x d ds. ?S d \<and> list_all ?S ds \<and> (case x of Inl _ \<Rightarrow> True | Inr _ \<Rightarrow> archived W (D active) (d k)))"
  proof (rule leads_strengthen [OF publish_archive_leads [where
        A = "\<lambda>d ds. outside k {} D d \<and> list_all (outside k {} D) ds"]])
    show "\<not> partial_of k k" by fact
    show "?S d \<and> list_all ?S ds" if "outside k {} D d \<and> list_all (outside k {} D) ds" for d ds
      using that names(5) new by (auto simp: outside_def list_all_iff)
    show "outside k {} D (d(p := v)) \<and> list_all (outside k {} D) (ds @ [d(p := v)])"
      if "partial_of k p" "outside k {} D d \<and> list_all (outside k {} D) ds" for p d ds v
      using that outside_partial by simp
    show "?S (d(p := None))" if "partial_of k p" "?S d" for p d
      using that names(5) by (auto simp: outside_def)
    show "?S (d(k := d p)) \<and> ?S (d(p := None, k := d p)) \<and> archived W (D active) ((d(p := None, k := d p)) k)"
      if "partial_of k p" "outside k {} D d \<and> list_all (outside k {} D) ds" "same_digest W src (d p)" "d k = None" for p d ds
      using that copy by (auto simp: outside_def)
    show "d = D \<and> ds = [] \<Longrightarrow> outside k {} D d \<and> list_all (outside k {} D) ds" for d ds
      by (simp add: outside_def)
  qed
  then show "leads ?A (publish_archive W folder src i k) ?Q"
    by (rule leads_weaken) (use safe in \<open>auto simp: list_all_iff split: sum.splits\<close>)
qed

lemma archive_active_leads:
  fixes W :: "'w archive_world"
  assumes active: "mp_database paths = active"
    and names: "active \<noteq> k" "active \<noteq> t" "k \<noteq> t" "\<not> partial_of k active" "\<not> partial_of k k" "\<not> partial_of k t"
    and base: "D t = None" "known \<longleftrightarrow> D k \<noteq> None"
  shows "leads (\<lambda>d ds. d = D \<and> ds = []) (archive_active W paths expected known k t)
    (\<lambda>x d ds. list_all (ledger_safe W D active k t) (d # ds)
       \<and> (case x of Inl _ \<Rightarrow> True | Inr _ \<Rightarrow> retirement W D active k t d))"
    (is "leads ?A _ ?Q")
proof -
  let ?S = "ledger_safe W D active k t"
  let ?B = "\<lambda>d ds. list_all ?S (d # ds) \<and> d active = D active \<and> d t = None \<and> archived W (D active) (d k)"
  have early: "?Q (Inl e) d ds" if "?A d ds" for e :: maintenance_error and d ds
    using that by (simp add: ledger_safe_def)
  have report: "leads ?B (ebind (publish_no_replace W active t operation) (\<lambda>_. ereturn rep)) ?Q"
    for operation and rep :: archive_report
  proof (rule leads_bind [where B = "\<lambda>_ d ds. list_all ?S (d # ds) \<and> retirement W D active k t d"])
    show "leads ?B (publish_no_replace W active t operation) (\<lambda>x d ds. case x of Inl e \<Rightarrow> ?Q (Inl e) d ds
        | Inr _ \<Rightarrow> list_all ?S (d # ds) \<and> retirement W D active k t d)"
      by (rule leads_weaken [OF retire_leads [where D = D and k = k, OF names base(1)]]) (simp split: sum.splits)
    show "leads (\<lambda>d ds. list_all ?S (d # ds) \<and> retirement W D active k t d) (ereturn rep) ?Q" for y :: unit
      by (rule leads_return) simp
  qed
  have retire: "leads ?B (ebind (ensure_no_sqlite_sidecars W active) (\<lambda>_. ebind (sync_file W active) (\<lambda>_.
      ebind (publish_no_replace W active t operation) (\<lambda>_. ereturn rep)))) ?Q" for operation and rep :: archive_report
    by (rule leads_skip [OF quiet_sidecars(1) leads_skip [OF quiet_sync report]]) simp_all
  have copy: "leads ?A (ebind (if known then resume_archive W folder src i k else publish_archive W folder src i k)
      (\<lambda>hash. ebind (ensure_no_sqlite_sidecars W active) (\<lambda>_. ebind (sync_file W active) (\<lambda>_.
      ebind (publish_no_replace W active t operation) (\<lambda>_. ereturn (rep hash)))))) ?Q"
    if "D active = Some (DatabaseImage src)" "f_ledger src = Some db" "drained db"
    for src db folder i operation and rep :: "u8 list \<Rightarrow> archive_report"
  proof (rule leads_bind [OF leads_weaken [OF archive_file_leads [OF names _ base]] retire])
    show "same_digest W src v \<Longrightarrow> archived W (D active) v" for v
      using that by (auto simp: archived_def)
  qed (simp split: sum.splits)
  let ?rest = "\<lambda>src i db. ebind (archive_ask (aw_fs W)) (\<lambda>fs.
      ebind (checked (ensure_archive_ready fs (mp_capture_root paths) db)) (\<lambda>_.
      ebind (checkpoint_for_archive W active) (\<lambda>_.
      ebind (archive_ask (aw_fs W)) (\<lambda>fs.
      ebind (checked (ensure_archive_ready fs (mp_capture_root paths) db)) (\<lambda>_.
      ebind (if known then resume_archive W (mp_capture_root paths) src i k
             else publish_archive W (mp_capture_root paths) src i k) (\<lambda>hash.
      ebind (ensure_no_sqlite_sidecars W active) (\<lambda>_.
      ebind (sync_file W active) (\<lambda>_.
      ebind (publish_no_replace W active t ''retain retired source ledger'') (\<lambda>_.
      ereturn \<lparr>rp_ledger_id = hex_encode i, rp_archive_path = k, rp_retired_path = t,
        rp_sha256 = hex_encode hash\<rparr>)))))))))"
  have ready: "leads ?A (ebind (checked (ensure_archive_ready fs root db)) f) ?Q"
    if "drained db \<Longrightarrow> leads ?A (f ()) ?Q" for fs root db and f :: "unit \<Rightarrow> ('w, archive_report) archiving"
  proof (rule leads_quiet_bind [OF quiet_checked, where F = "\<lambda>_ _. drained db"])
    show "leads (\<lambda>d ds. ?A d ds \<and> drained db) (f y) ?Q" for y
      by (cases "drained db") (use that in \<open>auto intro: leads_strengthen simp: leads_def\<close>)
  qed (use early in \<open>auto simp: checked_Inr dest: archive_ready_drained\<close>)
  have rest: "leads ?A (?rest src i db) ?Q"
    if "D active = Some (DatabaseImage src)" "f_ledger src = Some db" for src i db
    by (rule leads_skip [OF quiet_asking ready [OF leads_skip [OF quiet_checkpoint leads_skip [OF quiet_asking
          ready [OF copy [OF that]] early] early]] early])
  have opened: "leads ?A (ebind (image_ledger src) (?rest src i)) ?Q"
    if "D active = Some (DatabaseImage src)" for src i
  proof (rule leads_quiet_bind [OF quiet_image_ledger, where F = "\<lambda>db _. f_ledger src = Some db"])
    show "leads (\<lambda>d ds. ?A d ds \<and> f_ledger src = Some db) (?rest src i db) ?Q" for db
      by (cases "f_ledger src = Some db") (use rest [OF that] in \<open>auto intro: leads_strengthen simp: leads_def\<close>)
  qed (use image_ledger_result early in auto)
  show ?thesis unfolding archive_active_def Let_def active
  proof (rule leads_quiet_bind [OF quiet_open_active, where F = "\<lambda>src d. d active = Some (DatabaseImage src)"])
    fix src
    show "leads (\<lambda>d ds. ?A d ds \<and> d active = Some (DatabaseImage src))
      (ebind (verify_image W (mp_capture_root paths) src) (\<lambda>i. ebind (checked (ensure_expected_id expected i)) (\<lambda>_.
        ebind (image_ledger src) (?rest src i)))) ?Q"
    proof (cases "D active = Some (DatabaseImage src)")
      case True
      show ?thesis
        by (rule leads_strengthen [OF leads_skip [OF quiet_verify_image leads_skip [OF quiet_checked opened [OF True]]]])
          (use early in auto)
    qed (auto simp: leads_def)
  qed (use open_active_result early in auto)
qed

lemma completed_result:
  assumes "completed_archive_report W folder i k t r = Some (Inr rep, r')"
  shows "\<exists>src. ar_disk r t = Some (DatabaseImage src) \<and> same_digest W src (ar_disk r k)"
proof -
  obtain u1 r1 u2 r2 digest r3 r4 where runs: "verify_archive W k folder r = Some (Inr u1, r1)"
    "verify_archive W t folder r1 = Some (Inr u2, r2)"
    "ledger_content_digest_path W k r2 = Some (Inr digest, r3)" "ledger_content_digest_path W t r3 = Some (Inr digest, r4)"
    using assms unfolding completed_archive_report_def by (auto simp: result_runs)
  have "ar_disk r2 = ar_disk r" "ar_disk r3 = ar_disk r"
    using runs quiet_disk_same [OF quiet_verify_archive] quiet_disk_same [OF quiet_digest] by metis+
  with digest_result [OF runs(3)] digest_result [OF runs(4)] show ?thesis
    by (auto simp: ledger_content_digest_def result_simps same_digest_def)
qed

definition archive_outcome ::
  "'w archive_world \<Rightarrow> ledger_disk \<Rightarrow> string \<Rightarrow> string \<Rightarrow> string \<Rightarrow> ledger_disk \<Rightarrow> bool" where
  "archive_outcome W D active k t d \<longleftrightarrow>
     (if D active = None then d = D \<and> (\<exists>src. d t = Some (DatabaseImage src) \<and> same_digest W src (d k))
      else retirement W D active k t d)"

lemma archive_leads:
  fixes W :: "'w archive_world"
  assumes files: "mp_database paths = active" "archive_path_of (mp_config paths) i = k" "retired_path_of (mp_config paths) i = t"
    and names: "active \<noteq> k" "active \<noteq> t" "k \<noteq> t" "\<not> partial_of k active" "\<not> partial_of k k" "\<not> partial_of k t"
    and i: "parse_expected_ledger_id expected = Inr i"
  shows "leads (\<lambda>d ds. d = D \<and> ds = []) (archive_upload_ledger W (Inr paths) expected)
    (\<lambda>x d ds. list_all (ledger_safe W D active k t) (d # ds)
       \<and> (case x of Inl _ \<Rightarrow> True | Inr _ \<Rightarrow> archive_outcome W D active k t d))"
    (is "leads ?A _ ?Q")
proof -
  have early: "?Q (Inl e) d ds" if "?A d ds" for e :: maintenance_error and d ds
    using that by (simp add: ledger_safe_def)
  have refuse: "leads ?A (eexit e) ?Q" for e by (rule leads_exit) (rule early)
  have completed: "leads ?A (completed_archive_report W (mp_capture_root paths) i k t) ?Q" if gone: "D active = None"
    unfolding leads_def
  proof (intro allI impI)
    fix r x r' assume r: "ar_disk r = D \<and> ar_disks r = []"
      and run: "completed_archive_report W (mp_capture_root paths) i k t r = Some (x, r')"
    have "ar_disk r' = D" "ar_disks r' = []"
      using r quiet_disk.keepsD [OF quiet_completed run] by simp_all
    then show "?Q x (ar_disk r') (ar_disks r')"
      using completed_result [of W _ i k t r _ r'] run r gone
      by (auto simp: ledger_safe_def archive_outcome_def split: sum.split)
  qed
  have proceed: "leads ?A (archive_active W paths i known k t) ?Q"
    if "D active \<noteq> None" "D t = None" "known = (D k \<noteq> None)" for known
    by (rule leads_weaken [OF archive_active_leads [OF files(1) names that(2,3)]])
      (use that(1) in \<open>simp add: archive_outcome_def split: sum.splits\<close>)
  let ?choice = "\<lambda>a b c. if b \<and> c
     then if a then eexit (PartialArchive ''an active database also exists'')
       else completed_archive_report W (mp_capture_root paths) i k t
     else if c then eexit (PartialArchive ''a retired ledger exists without its verified archive'')
     else if \<not> a then eexit (PartialArchive ''the active upload ledger is absent'')
     else archive_active W paths i b k t"
  have choice: "leads ?A (?choice a b c) ?Q"
    if "a = (D active \<noteq> None)" "b = (D k \<noteq> None)" "c = (D t \<noteq> None)" for a b c
    by (intro leads_if refuse completed proceed) (use that in auto)
  have inspected: "leads ?A (ebind (inspect_file W ''active upload ledger'' active) (\<lambda>a.
     ebind (inspect_file W ''upload-ledger archive'' k) (\<lambda>b.
     ebind (inspect_file W ''retired upload ledger'' t) (?choice a b)))) ?Q"
  proof (rule leads_quiet_bind [OF quiet_inspect, where F = "\<lambda>a d. a = (d active \<noteq> None)"])
    show "leads (\<lambda>d ds. ?A d ds \<and> a = (d active \<noteq> None)) (ebind (inspect_file W ''upload-ledger archive'' k) (\<lambda>b.
       ebind (inspect_file W ''retired upload ledger'' t) (?choice a b))) ?Q" for a
    proof (rule leads_quiet_bind [OF quiet_inspect, where F = "\<lambda>b d. b = (d k \<noteq> None)"])
      show "leads (\<lambda>d ds. (?A d ds \<and> a = (d active \<noteq> None)) \<and> b = (d k \<noteq> None))
          (ebind (inspect_file W ''retired upload ledger'' t) (?choice a b)) ?Q" for b
      proof (rule leads_quiet_bind [OF quiet_inspect, where F = "\<lambda>c d. c = (d t \<noteq> None)"])
        show "leads (\<lambda>d ds. ((?A d ds \<and> a = (d active \<noteq> None)) \<and> b = (d k \<noteq> None)) \<and> c = (d t \<noteq> None)) (?choice a b c) ?Q" for c
        proof (cases "a = (D active \<noteq> None) \<and> b = (D k \<noteq> None) \<and> c = (D t \<noteq> None)")
          case True
          then have "leads ?A (?choice a b c) ?Q" using choice by blast
          then show ?thesis by (rule leads_strengthen) simp
        qed (rule leads_absurd, blast)
      qed ((rule inspect_result, assumption), use early in simp)
    qed ((rule inspect_result, assumption), use early in simp)
  qed ((rule inspect_result, assumption), use early in simp)
  have lease: "quiet_op (etry MaintenanceLease y)" for y :: "lease_error + unit"
    by (rule quiet_disk.keeps_try)
  have checked: "ebind (checked (Inr y)) f = f y" for y and f :: "_ \<Rightarrow> ('w, 'b) archiving"
    by (rule ext) (simp add: checked_def effect_simps)
  show ?thesis
    unfolding archive_upload_ledger_def Let_def i checked files
    by (rule leads_skip [OF quiet_asking leads_skip [OF lease leads_skip [OF quiet_sidecars(1)
          leads_skip [OF quiet_sidecars(1) inspected early] early] early] early])
qed

text \<open>C9: archiving never loses the ledger. Whatever SQLite and the operating system answer, and
  wherever the run stops, every disk on the way still has the active ledger, or has it unchanged
  under its retired name beside an archive whose contents have the same digest, and then it was
  drained; an archive or a retired ledger that exists is never replaced, and nothing else is
  touched but temporary files of this archive. A run that succeeds on an active ledger ends with
  the ledger retired and archived.
\<close>

theorem archive_never_loses_the_ledger:
  assumes "archive_upload_ledger W context expected r = Some (x, r')"
    and "context = Inr paths" and "mp_database paths = with_extension (mp_config paths) ''upload.sqlite3''"
    and "parse_expected_ledger_id expected = Inr i" and "ar_disks r = []"
  shows "let active = mp_database paths; archive = archive_path_of (mp_config paths) i;
             retired = retired_path_of (mp_config paths) i
         in (\<forall>d \<in> set (ar_disk r' # ar_disks r'). ledger_safe W (ar_disk r) active archive retired d)
          \<and> (case x of Inl _ \<Rightarrow> True | Inr _ \<Rightarrow> archive_outcome W (ar_disk r) active archive retired (ar_disk r'))"
proof -
  let ?k = "archive_path_of (mp_config paths) i" and ?t = "retired_path_of (mp_config paths) i"
  note names = archive_names [OF assms(3) refl refl, of i]
  have "leads (\<lambda>d ds. d = ar_disk r \<and> ds = []) (archive_upload_ledger W (Inr paths) expected)
    (\<lambda>x d ds. list_all (ledger_safe W (ar_disk r) (mp_database paths) ?k ?t) (d # ds)
       \<and> (case x of Inl _ \<Rightarrow> True | Inr _ \<Rightarrow> archive_outcome W (ar_disk r) (mp_database paths) ?k ?t d))"
    by (rule archive_leads) (use names assms(4) in simp_all)
  then show ?thesis
    using assms(1,2,5) unfolding leads_def Let_def list_all_iff by blast
qed

subsection \<open>An archive\<close>

definition demo_world :: "unit archive_world" where
  "demo_world = \<lparr>aw_sha = demo_sha, aw_endpoint = Some, aw_schema = demo_schema, aw_queries = (''m'', ''j'', ''p''),
     aw_image = (\<lambda>_. []), aw_windows = False, aw_lease = (\<lambda>w. (Inr LockGranted, w)),
     aw_sidecar = (\<lambda>_ w. (Inr False, w)), aw_fault = (\<lambda>_ w. (None, w)), aw_refused = (\<lambda>_ w. (None, w)),
     aw_env = (\<lambda>w. (demo_env, w)), aw_integrity = (\<lambda>w. (''ok'', w)), aw_checkpoint = (\<lambda>w. ((0, ''DELETE''), w)),
     aw_fs = (\<lambda>w. (demo_fs, w)), aw_random = (\<lambda>w. (Inr (replicate 8 5), w)),
     aw_backup = (\<lambda>src w. ((None, DatabaseImage src), w))\<rparr>"

definition demo_drained :: database_file where
  "demo_drained = \<lparr>f_user_version = 4, f_application_id = application_id, f_objects = demo_schema,
     f_ledger = Some (s_db demo_completed)\<rparr>"

definition demo_archive_paths :: maintenance_paths where
  "demo_archive_paths = \<lparr>mp_config = ''/apc.toml'', mp_database = ''/apc.upload.sqlite3'', mp_capture_root = demo_root\<rparr>"

definition demo_run :: "unit archive_run" where
  "demo_run = \<lparr>ar_world = (), ar_disk = [''/apc.upload.sqlite3'' \<mapsto> DatabaseImage demo_drained], ar_disks = []\<rparr>"

lemma demo_names: "mp_database demo_archive_paths = with_extension (mp_config demo_archive_paths) ''upload.sqlite3''"
  by code_simp

lemma demo_id: "parse_expected_ledger_id (concat (replicate 16 ''09'')) = Inr (replicate 16 9)"
  by code_simp

abbreviation demo_ledger_id :: "u8 list" where
  "demo_ledger_id \<equiv> replicate 16 9"

abbreviation demo_at :: "unit archive_run \<Rightarrow> string \<Rightarrow> bool" where
  "demo_at r path \<equiv> ar_disk r path = Some (DatabaseImage demo_drained)"

lemma demo_world_parts: "aw_sha demo_world = demo_sha" "aw_queries demo_world = (''m'', ''j'', ''p'')"
    "aw_windows demo_world = False" "aw_endpoint demo_world = Some" "aw_schema demo_world = demo_schema"
    "aw_lease demo_world = Pair (Inr LockGranted)" "aw_sidecar demo_world path = Pair (Inr False)"
    "aw_fault demo_world path = Pair None" "aw_refused demo_world path = Pair None" "aw_env demo_world = Pair demo_env"
    "aw_integrity demo_world = Pair ''ok''" "aw_checkpoint demo_world = Pair (0, ''DELETE'')"
    "aw_fs demo_world = Pair demo_fs" "aw_random demo_world = Pair (Inr (replicate 8 5))"
    "aw_backup demo_world src = Pair (None, DatabaseImage src)"
  by (simp_all add: demo_world_def fun_eq_iff)

lemma demo_ask: "archive_ask (Pair y) r = Some (Inr y, r)"
  by (simp add: archive_ask_def effect_simps)

lemmas demo_simps = demo_world_parts demo_ask checked_def effect_simps

lemma demo_fallible: "fallible demo_world operation path r = Some (Inr (), r)" "sqlite_call demo_world path r = Some (Inr (), r)"
  by (simp_all add: fallible_def sqlite_call_def demo_simps)

lemma demo_absent: "all_absent demo_world sidecars r = Some (Inr (), r)"
  by (induction sidecars) (simp_all add: ensure_sqlite_sidecar_absent_def demo_simps)

lemma demo_sidecars: "ensure_no_sqlite_sidecars demo_world path r = Some (Inr (), r)"
    "ensure_no_sqlite_wal_sidecars demo_world path r = Some (Inr (), r)"
  by (simp_all add: ensure_no_sqlite_sidecars_def ensure_no_sqlite_wal_sidecars_def demo_absent)

lemma demo_inspect: "ar_disk r path \<noteq> Some NotAFile \<Longrightarrow>
    inspect_file demo_world kind path r = Some (Inr (ar_disk r path \<noteq> None), r)"
  by (auto simp: inspect_file_def demo_fallible demo_simps file_answer_def safe_regular_file_def
      split: option.splits artifact.splits)

lemma demo_open: "demo_at r path \<Longrightarrow> open_image demo_world path r = Some (Inr demo_drained, r)"
  by (simp add: open_image_def demo_fallible demo_simps)

lemma demo_ownership: "acquire_exclusive_ownership demo_env = Inr ()"
  by code_simp

lemma demo_open_active: "demo_at r path \<Longrightarrow> open_active demo_world path r = Some (Inr demo_drained, r)"
  by (simp add: open_active_def demo_inspect demo_open demo_simps demo_ownership lift_store_def)

lemma demo_verified: "verify_v4 demo_sha Some demo_schema ''ok'' demo_root demo_drained = Inr demo_ledger_id"
  by code_simp

lemma demo_ready: "ensure_archive_ready demo_fs demo_root (s_db demo_completed) = Inr ()"
  by code_simp

lemma demo_terminal: "ensure_terminal_ledger (s_db demo_completed) = Inr ()"
  by code_simp

lemma demo_row: "query_row (f_ledger demo_drained) = Inr (s_db demo_completed)"
  by (simp add: demo_drained_def query_row_def ok_or_def)

lemma demo_verify_image: "verify_image demo_world demo_root demo_drained r = Some (Inr demo_ledger_id, r)"
    "image_ledger demo_drained r = Some (Inr (s_db demo_completed), r)"
  by (simp_all add: verify_image_def image_ledger_def demo_simps demo_verified demo_row)

lemma demo_verify_archive: "demo_at r path \<Longrightarrow> verify_archive demo_world path demo_root r = Some (Inr demo_ledger_id, r)"
  by (simp add: verify_archive_def demo_inspect demo_sidecars demo_open demo_verify_image demo_terminal demo_simps)

lemma demo_same: "demo_at r path \<Longrightarrow> same_contents demo_world demo_drained path e r = Some (Inr (), r)"
  by (simp add: same_contents_def ledger_content_digest_path_def ledger_content_digest_def demo_row demo_sidecars demo_open demo_simps)

lemma demo_sha256: "sha256_path demo_world path r = Some (Inr demo_digest, r)"
  by (simp add: sha256_path_def demo_sidecars demo_fallible demo_simps)

lemma demo_checkpoint: "checkpoint_for_archive demo_world path r = Some (Inr (), r)"
proof -
  have "eq_ignore_ascii_case ''DELETE'' ''delete''" by code_simp
  then show ?thesis by (simp add: checkpoint_for_archive_def demo_fallible demo_sidecars demo_simps)
qed

lemma demo_publish:
  "ar_disk r target = None \<Longrightarrow> s \<noteq> target \<Longrightarrow>
     publish_no_replace demo_world s target operation r
       = Some (Inr (), r\<lparr>ar_disk := (ar_disk r)(s := None, target := ar_disk r s),
           ar_disks := ar_disks r @ [(ar_disk r)(target := ar_disk r s), (ar_disk r)(s := None, target := ar_disk r s)]\<rparr>)"
  by (simp add: publish_no_replace_def unlink_source_def change_disk_def demo_fallible demo_simps fun_upd_twist)

lemma demo_copy:
  assumes "ar_disk r k = None" "ar_disk r p = None" "p = k @ ''.partial-'' @ hex_encode (replicate 8 5)"
  shows "\<exists>ds. publish_archive demo_world demo_root demo_drained demo_ledger_id k r
    = Some (Inr demo_digest, r\<lparr>ar_disk := (ar_disk r)(p := None, k \<mapsto> DatabaseImage demo_drained), ar_disks := ds\<rparr>)"
proof -
  have ne: "p \<noteq> k" using assms(3) by simp
  have path: "unique_partial_path demo_world k 32 r = Some (Inr p,
      r\<lparr>ar_disk := (ar_disk r)(p \<mapsto> RawImage []), ar_disks := ar_disks r @ [(ar_disk r)(p \<mapsto> RawImage [])]\<rparr>)"
  proof -
    have "unique_partial_path demo_world k (Suc 31) r = Some (Inr p,
      r\<lparr>ar_disk := (ar_disk r)(p \<mapsto> RawImage []), ar_disks := ar_disks r @ [(ar_disk r)(p \<mapsto> RawImage [])]\<rparr>)"
      unfolding unique_partial_path.simps demo_world_parts Let_def
      by (simp only: ebind_run demo_ask option.case prod.case sum.case assms(3) [symmetric])
        (simp add: assms(2) demo_simps demo_fallible change_disk_def)
    then show ?thesis by simp
  qed
  show ?thesis
    unfolding publish_archive_def using ne assms(1)
    by (simp add: path with_temporary_def backup_database_def change_disk_def demo_simps demo_fallible
        demo_verify_archive demo_same demo_sha256 sync_file_def ensure_expected_id_def require_def demo_publish)
      blast
qed

lemma demo_archives: "\<exists>report r'. archive_upload_ledger demo_world (Inr demo_archive_paths) (concat (replicate 16 ''09'')) demo_run
    = Some (Inr report, r')"
proof -
  define k where "k = archive_path_of ''/apc.toml'' (replicate 16 9)"
  define t where "t = retired_path_of ''/apc.toml'' (replicate 16 9)"
  define p where "p = k @ ''.partial-'' @ hex_encode (replicate 8 5)"
  have ne: "k \<noteq> ''/apc.upload.sqlite3''" "t \<noteq> ''/apc.upload.sqlite3''" "t \<noteq> k"
    "p \<noteq> ''/apc.upload.sqlite3''" "t \<noteq> p" "k \<noteq> p"
    unfolding k_def t_def p_def by code_simp+
  obtain ds where copy: "publish_archive demo_world demo_root demo_drained demo_ledger_id k demo_run
      = Some (Inr demo_digest, demo_run\<lparr>ar_disk := (ar_disk demo_run)(p := None, k \<mapsto> DatabaseImage demo_drained), ar_disks := ds\<rparr>)"
    using demo_copy [of demo_run k p] ne p_def by (auto simp: demo_run_def)
  have at: "demo_at demo_run ''/apc.upload.sqlite3''" "ar_disk demo_run k = None" "ar_disk demo_run t = None"
    using ne by (simp_all add: demo_run_def)
  have lease: "lease_acquire db True (Inr LockGranted) = Inr ()" for db by (simp add: lease_acquire_def)
  show ?thesis
    unfolding archive_upload_ledger_def archive_active_def demo_archive_paths_def Let_def
    using ne at
    by (simp add: demo_id demo_simps demo_inspect demo_sidecars lease demo_open_active demo_verify_image demo_ready
      demo_checkpoint ensure_expected_id_def require_def copy sync_file_def demo_fallible demo_publish
      flip: k_def t_def)
qed

theorem archive_never_loses_the_ledger_witness:
  "\<exists>report r'. archive_upload_ledger demo_world (Inr demo_archive_paths) (concat (replicate 16 ''09'')) demo_run = Some (Inr report, r')
     \<and> ar_disk r' ''/apc.upload.sqlite3'' = None
     \<and> ar_disk r' (retired_path_of ''/apc.toml'' (replicate 16 9)) = Some (DatabaseImage demo_drained)"
proof -
  obtain report r' where run: "archive_upload_ledger demo_world (Inr demo_archive_paths) (concat (replicate 16 ''09'')) demo_run
      = Some (Inr report, r')"
    using demo_archives by blast
  show ?thesis
    using archive_never_loses_the_ledger [OF run refl demo_names demo_id] run
    by (auto simp: demo_run_def demo_archive_paths_def archive_outcome_def retirement_def Let_def)
qed

end
