(* ===== verification/Supervisor.thy ===== *)
theory Supervisor
  imports Monitor Effects
begin

text \<open>
  The supervisor of the camera (\<open>autopiercam-tray/src/worker.rs\<close>): it owns the camera session, starts
  it again after a fault, and takes the commands of the operator from a channel. Clients send
  commands, and the camera thread reports and ends, at any time; what they do between two accesses
  of the supervisor to the shared state is chosen by the surroundings.
\<close>

subsection \<open>Commands\<close>

datatype tray_command = CommandPaused bool | CommandCapture | CommandRestart | CommandReload | CommandShutdown

record worker_signals =
  sg_sharing_paused :: bool
  sg_sharing_min_sequence :: nat
  sg_restart_pending :: bool
  sg_stopping :: bool

definition signals_default :: worker_signals where
  "signals_default = \<lparr>sg_sharing_paused = False, sg_sharing_min_sequence = 0, sg_restart_pending = False, sg_stopping = False\<rparr>"

text \<open>
  \<open>WorkerClient::send\<close>, under the admission lock: whether the command was accepted, whether sharing
  was invalidated, the signals and the queue. The receiver lives as long as the supervisor; the
  sequence is that of the frame in the preview, or 0.
\<close>

definition worker_send ::
  "bool \<Rightarrow> nat \<Rightarrow> tray_command \<Rightarrow> worker_signals \<times> tray_command list
     \<Rightarrow> (bool \<times> bool) \<times> worker_signals \<times> tray_command list" where
  "worker_send receiving sequence command shared =
     (case shared of (signals, queue) \<Rightarrow>
      if sg_stopping signals then ((False, False), signals, queue)
      else
        let invalidated = command \<notin> {CommandCapture, CommandReload};
            signals = (case command of CommandPaused paused \<Rightarrow> signals\<lparr>sg_sharing_paused := paused\<rparr> | _ \<Rightarrow> signals);
            signals = (if invalidated then signals\<lparr>sg_sharing_min_sequence := sequence\<rparr> else signals)
        in if command = CommandRestart \<and> sg_restart_pending signals then ((True, invalidated), signals, queue)
           else
             let signals = (case command of CommandRestart \<Rightarrow> signals\<lparr>sg_restart_pending := True\<rparr>
                   | CommandShutdown \<Rightarrow> signals\<lparr>sg_stopping := True\<rparr> | _ \<Rightarrow> signals)
             in if receiving then ((True, invalidated), signals, queue @ [command])
                else ((False, invalidated),
                  (if command = CommandRestart then signals\<lparr>sg_restart_pending := False\<rparr> else signals)\<lparr>sg_stopping := True\<rparr>,
                  queue))"

text \<open>The frame that sharing may show: none while paused, stopping or restarting, and no old one.\<close>

definition sharing_frame_allowed :: "worker_signals \<Rightarrow> nat \<Rightarrow> bool" where
  "sharing_frame_allowed signals sequence \<longleftrightarrow>
     \<not> sg_sharing_paused signals \<and> \<not> sg_stopping signals \<and> \<not> sg_restart_pending signals
     \<and> sequence > sg_sharing_min_sequence signals"

subsection \<open>Intentions and sessions\<close>

datatype lifecycle_request = NoLifecycle | LifecycleRestart | LifecycleShutdown

record supervisor_intent =
  it_faulted :: bool
  it_paused :: bool
  it_pending_captures :: nat

definition intent_new :: "bool \<Rightarrow> supervisor_intent" where
  "intent_new paused = \<lparr>it_faulted = False, it_paused = paused, it_pending_captures = 0\<rparr>"

definition intent_accept :: "tray_command \<Rightarrow> bool \<Rightarrow> supervisor_intent \<Rightarrow> lifecycle_request \<times> supervisor_intent" where
  "intent_accept command session_ready i =
     (case command of
        CommandPaused paused \<Rightarrow> (NoLifecycle, i\<lparr>it_paused := paused\<rparr>)
      | CommandCapture \<Rightarrow> (NoLifecycle, if session_ready then i else i\<lparr>it_pending_captures := sat_add_u64 (it_pending_captures i) 1\<rparr>)
      | CommandReload \<Rightarrow> if it_faulted i then (LifecycleRestart, i\<lparr>it_faulted := False\<rparr>) else (NoLifecycle, i)
      | CommandRestart \<Rightarrow> (LifecycleRestart, i\<lparr>it_faulted := False\<rparr>)
      | CommandShutdown \<Rightarrow> (LifecycleShutdown, i))"

definition take_pending_captures :: "nat \<Rightarrow> supervisor_intent \<Rightarrow> nat \<times> supervisor_intent" where
  "take_pending_captures maximum i =
     (let taken = min (it_pending_captures i) maximum in (taken, i\<lparr>it_pending_captures := it_pending_captures i - taken\<rparr>))"

datatype session_exit = SessionCompleted | SessionFailed string | SessionPanicked

text \<open>The camera thread has finished when its exit is there.\<close>

record camera_session =
  cs_control :: agent_control
  cs_exit :: "session_exit option"
  cs_ready :: bool
  cs_stop_requested_at :: "nat option"

definition session_start :: "bool \<Rightarrow> camera_session" where
  "session_start paused =
     \<lparr>cs_control = (if paused then control_pause control_new else control_new), cs_exit = None, cs_ready = False,
      cs_stop_requested_at = None\<rparr>"

definition session_request_stop :: "nat \<Rightarrow> camera_session \<Rightarrow> camera_session" where
  "session_request_stop now c =
     c\<lparr>cs_stop_requested_at := Some (case cs_stop_requested_at c of None \<Rightarrow> now | Some t \<Rightarrow> t), cs_ready := False,
       cs_control := control_shutdown (cs_control c)\<rparr>"

definition session_set_paused :: "bool \<Rightarrow> camera_session \<Rightarrow> camera_session" where
  "session_set_paused paused c =
     c\<lparr>cs_control := (if paused then control_pause (cs_control c) else control_resume (cs_control c))\<rparr>"

definition session_capture_now :: "camera_session \<Rightarrow> camera_session" where
  "session_capture_now c = c\<lparr>cs_control := control_capture_now (cs_control c)\<rparr>"

definition session_reload :: "camera_session \<Rightarrow> camera_session" where
  "session_reload c = c\<lparr>cs_control := control_reload_configuration (cs_control c)\<rparr>"

subsection \<open>The state of the supervisor, and its surroundings\<close>

text \<open>A history beside the state of the program; the latest event comes first.\<close>

datatype camera_event =
    Opened nat bool
  | Joined
  | FaultedAt nat
  | RestartHandled
  | CaptureReceived
  | CaptureForwarded
  | ShutdownAccepted

record 'w supervisor =
  sp_world :: 'w
  sp_signals :: worker_signals
  sp_queue :: "tray_command list"
  sp_clients :: bool
  sp_monitor :: agent_monitor
  sp_session :: "camera_session option"
  sp_intent :: supervisor_intent
  sp_retry_at :: nat
  sp_last_status :: "agent_status option"
  sp_emitted :: "agent_status list"
  sp_history :: "camera_event list"

text \<open>
  What may happen outside: a command, the last client going away, a report of a thread to the
  monitor, the end of the camera thread.
\<close>

datatype outside_move =
    ClientSends tray_command nat
  | ClientsGone
  | ThreadReports "agent_monitor \<Rightarrow> agent_monitor"
  | CameraEnds session_exit

record 'w supervisor_world =
  sw_moves :: "'w \<Rightarrow> outside_move list \<times> 'w"
  sw_now :: "'w \<Rightarrow> nat \<times> 'w"
  sw_spawn :: "bool \<Rightarrow> 'w \<Rightarrow> (string + unit) \<times> 'w"
  sw_join :: "'w \<Rightarrow> session_exit \<times> 'w"

definition record_event :: "camera_event \<Rightarrow> 'w supervisor \<Rightarrow> 'w supervisor" where
  "record_event e r = r\<lparr>sp_history := e # sp_history r\<rparr>"

fun outside_step :: "outside_move \<Rightarrow> 'w supervisor \<Rightarrow> 'w supervisor" where
  "outside_step (ClientSends command sequence) r =
     (case worker_send True sequence command (sp_signals r, sp_queue r) of
        ((accepted, _), signals, queue) \<Rightarrow>
          (if accepted \<and> command = CommandShutdown then record_event ShutdownAccepted else id)
            (r\<lparr>sp_signals := signals, sp_queue := queue\<rparr>))"
| "outside_step ClientsGone r = r\<lparr>sp_clients := False\<rparr>"
| "outside_step (ThreadReports f) r = r\<lparr>sp_monitor := f (sp_monitor r)\<rparr>"
| "outside_step (CameraEnds e) r =
     (case sp_session r of
        None \<Rightarrow> r
      | Some c \<Rightarrow> if cs_exit c = None then r\<lparr>sp_session := Some (c\<lparr>cs_exit := Some e\<rparr>)\<rparr> else r)"

type_synonym ('w, 'a) supervising = "('w supervisor, unit, 'a) effect"

definition interfere :: "'w supervisor_world \<Rightarrow> ('w, unit) supervising" where
  "interfere W = eupdate (\<lambda>r. case sw_moves W (sp_world r) of (moves, w) \<Rightarrow> fold outside_step moves (r\<lparr>sp_world := w\<rparr>))"

definition supervisor_ask :: "('w \<Rightarrow> 'a \<times> 'w) \<Rightarrow> ('w, 'a) supervising" where
  "supervisor_ask f = elift (\<lambda>r. case f (sp_world r) of (x, w) \<Rightarrow> (x, r\<lparr>sp_world := w\<rparr>))"

definition on_monitor :: "(agent_monitor \<Rightarrow> agent_monitor) \<Rightarrow> ('w, unit) supervising" where
  "on_monitor f = eupdate (\<lambda>r. r\<lparr>sp_monitor := f (sp_monitor r)\<rparr>)"

definition on_session :: "(camera_session \<Rightarrow> camera_session) \<Rightarrow> ('w, unit) supervising" where
  "on_session f = eupdate (\<lambda>r. r\<lparr>sp_session := map_option f (sp_session r)\<rparr>)"

definition supervisor_event :: "camera_event \<Rightarrow> ('w, unit) supervising" where
  "supervisor_event e = eupdate (record_event e)"

subsection \<open>Publishing the status\<close>

definition publish_snapshot_if_changed :: "agent_status \<Rightarrow> ('w, unit) supervising" where
  "publish_snapshot_if_changed status = eupdate (\<lambda>r.
     if sp_last_status r = Some status then r
     else r\<lparr>sp_emitted := sp_emitted r @ [status], sp_last_status := Some status\<rparr>)"

text \<open>\<open>monitor.snapshot()\<close> reads the clock.\<close>

definition monitor_snapshot :: "'w supervisor_world \<Rightarrow> ('w, agent_status) supervising" where
  "monitor_snapshot W =
     ebind (interfere W) (\<lambda>_.
     ebind (supervisor_ask (sw_now W)) (\<lambda>now.
     eget (\<lambda>r. snapshot_at now (sp_monitor r))))"

definition publish_status_if_changed :: "'w supervisor_world \<Rightarrow> ('w, unit) supervising" where
  "publish_status_if_changed W = ebind (monitor_snapshot W) publish_snapshot_if_changed"

definition report_retryable_fault :: "string \<Rightarrow> nat \<Rightarrow> agent_monitor \<Rightarrow> agent_monitor" where
  "report_retryable_fault message delay =
     report_fault (message @ ''. Automatic capture retry in '' @ decimal (delay div seconds 1) @ '' seconds.'')"

definition report_unexpected_exit :: "session_exit \<Rightarrow> nat \<Rightarrow> agent_monitor \<Rightarrow> agent_monitor" where
  "report_unexpected_exit outcome delay =
     report_retryable_fault (case outcome of
         SessionCompleted \<Rightarrow> ''camera session stopped unexpectedly''
       | SessionFailed error \<Rightarrow> error
       | SessionPanicked \<Rightarrow> ''camera owner thread panicked'') delay"

definition report_controlled_exit :: "session_exit \<Rightarrow> agent_monitor \<Rightarrow> agent_monitor" where
  "report_controlled_exit outcome m =
     (case outcome of
        SessionCompleted \<Rightarrow> m
      | SessionFailed error \<Rightarrow> report_fault error m
      | SessionPanicked \<Rightarrow> report_fault ''camera owner thread panicked while stopping'' m)"

subsection \<open>Steps of the loop\<close>

definition poll_interval :: nat where "poll_interval = millis 100"
definition shutdown_grace :: nat where "shutdown_grace = seconds 30"
definition max_capture_requests_per_poll :: nat where "max_capture_requests_per_poll = 1024"
definition fault_retry_delay :: nat where "fault_retry_delay = seconds 30"

definition stuck_camera_message :: string where
  "stuck_camera_message =
     ''Camera worker did not stop for restart. Quit and relaunch the AutoPierCam tray agent; ''
     @ ''no replacement camera handle will be opened while the old worker is running.''"

text \<open>\<open>join_inner\<close>: waits for the end of the thread and takes the session.\<close>

definition join_session :: "'w supervisor_world \<Rightarrow> ('w, session_exit) supervising" where
  "join_session W =
     ebind (interfere W) (\<lambda>_.
     ebind (supervisor_ask (sw_join W)) (\<lambda>answer.
     ebind (eget (\<lambda>r. case sp_session r of None \<Rightarrow> SessionPanicked
       | Some c \<Rightarrow> (case cs_exit c of None \<Rightarrow> answer | Some e \<Rightarrow> e))) (\<lambda>outcome.
     ebind (eupdate (\<lambda>r. (if sp_session r = None then id else record_event Joined) (r\<lparr>sp_session := None\<rparr>))) (\<lambda>_.
     ereturn outcome))))"

definition orderly_shutdown :: "'w supervisor_world \<Rightarrow> ('w, unit) supervising" where
  "orderly_shutdown W =
     ebind (on_monitor mark_stopping) (\<lambda>_.
     ebind (publish_status_if_changed W) (\<lambda>_.
     ebind (eget (\<lambda>r. sp_session r \<noteq> None)) (\<lambda>open.
     ebind (if open then
         ebind (on_session (\<lambda>c. c\<lparr>cs_control := control_shutdown (cs_control c)\<rparr>)) (\<lambda>_.
         ebind (join_session W) (\<lambda>outcome. on_monitor (report_controlled_exit outcome)))
       else ereturn ()) (\<lambda>_.
     ebind (on_monitor mark_stopping) (\<lambda>_.
     publish_status_if_changed W)))))"

definition restart_session :: "'w supervisor_world \<Rightarrow> ('w, unit) supervising" where
  "restart_session W =
     ebind (on_monitor mark_stopping) (\<lambda>_.
     ebind (publish_status_if_changed W) (\<lambda>_.
     ebind (supervisor_ask (sw_now W)) (\<lambda>now.
     on_session (session_request_stop now))))"

text \<open>The pending requests that a ready camera gets.\<close>

definition forward_pending :: "('w, unit) supervising" where
  "forward_pending = eupdate (\<lambda>r.
     case take_pending_captures max_capture_requests_per_poll (sp_intent r) of (taken, i) \<Rightarrow>
       r\<lparr>sp_intent := i, sp_session := map_option (session_capture_now ^^ taken) (sp_session r),
         sp_history := replicate taken CaptureForwarded @ sp_history r\<rparr>)"

definition observe_session_status :: "'w supervisor_world \<Rightarrow> ('w, unit) supervising" where
  "observe_session_status W =
     ebind (eget (\<lambda>r. Option.bind (sp_session r) cs_stop_requested_at)) (\<lambda>stopping_since.
     case stopping_since of
       Some started \<Rightarrow>
         ebind (supervisor_ask (sw_now W)) (\<lambda>now.
         ebind (on_monitor (if now - started \<ge> shutdown_grace then report_fault stuck_camera_message else mark_stopping)) (\<lambda>_.
         publish_status_if_changed W))
     | None \<Rightarrow>
         ebind (monitor_snapshot W) (\<lambda>status.
         ebind (on_session (\<lambda>c. c\<lparr>cs_ready := ag_state status \<in> {Capturing, Paused}\<rparr>)) (\<lambda>_.
         ebind (eget (\<lambda>r. case sp_session r of None \<Rightarrow> False | Some c \<Rightarrow> cs_ready c)) (\<lambda>ready.
         ebind (ewhen ready forward_pending) (\<lambda>_.
         publish_snapshot_if_changed status)))))"

text \<open>A session whose thread has ended is joined and reported; the return value says whether there was one.\<close>

definition collect_finished :: "'w supervisor_world \<Rightarrow> nat \<Rightarrow> ('w, bool) supervising" where
  "collect_finished W delay =
     ebind (interfere W) (\<lambda>_.
     ebind (eget sp_session) (\<lambda>session.
     case session of
       None \<Rightarrow> ereturn False
     | Some finished \<Rightarrow>
         if cs_exit finished = None then ereturn False
         else
           let restarting = cs_stop_requested_at finished \<noteq> None in
           ebind (join_session W) (\<lambda>outcome.
           ebind (if restarting then
               ebind (on_monitor (mark_stopping \<circ> report_controlled_exit outcome)) (\<lambda>_.
               eupdate (\<lambda>r. r\<lparr>sp_signals := (sp_signals r)\<lparr>sg_restart_pending := False\<rparr>\<rparr>))
             else
               ebind (on_monitor (report_unexpected_exit outcome delay)) (\<lambda>_.
               eupdate (\<lambda>r. r\<lparr>sp_intent := (sp_intent r)\<lparr>it_faulted := True\<rparr>\<rparr>))) (\<lambda>_.
           ebind (publish_status_if_changed W) (\<lambda>_.
           ebind (supervisor_ask (sw_now W)) (\<lambda>now.
           ebind (eupdate (\<lambda>r. (if restarting then id else record_event (FaultedAt now))
             (r\<lparr>sp_retry_at := now + (if restarting then 0 else delay)\<rparr>))) (\<lambda>_.
           ereturn True)))))))"

text \<open>\<open>handle_command\<close>; the return value says that the supervisor ends.\<close>

definition handle_command :: "'w supervisor_world \<Rightarrow> tray_command \<Rightarrow> ('w, bool) supervising" where
  "handle_command W command =
     ebind (monitor_snapshot W) (\<lambda>status.
     ebind (interfere W) (\<lambda>_.
     ebind (eget (\<lambda>r. ag_state status \<in> {Capturing, Paused} \<and> (case sp_session r of None \<Rightarrow> False
       | Some c \<Rightarrow> cs_ready c \<and> cs_stop_requested_at c = None \<and> cs_exit c = None))) (\<lambda>session_ready.
     ebind (elift (\<lambda>r. case intent_accept command session_ready (sp_intent r) of (l, i) \<Rightarrow> (l, r\<lparr>sp_intent := i\<rparr>))) (\<lambda>lifecycle.
     ebind (ewhen (command = CommandCapture) (supervisor_event CaptureReceived)) (\<lambda>_.
     ebind (case command of
         CommandPaused paused \<Rightarrow> on_session (session_set_paused paused)
       | CommandCapture \<Rightarrow>
           ewhen session_ready (ebind (on_session session_capture_now) (\<lambda>_. supervisor_event CaptureForwarded))
       | CommandReload \<Rightarrow> on_session session_reload
       | _ \<Rightarrow> ereturn ()) (\<lambda>_.
     case lifecycle of
       NoLifecycle \<Rightarrow> ereturn False
     | LifecycleRestart \<Rightarrow>
         ebind (restart_session W) (\<lambda>_.
         ebind (eupdate (\<lambda>r. if sp_session r = None
           then r\<lparr>sp_signals := (sp_signals r)\<lparr>sg_restart_pending := False\<rparr>\<rparr> else r)) (\<lambda>_.
         ebind (supervisor_ask (sw_now W)) (\<lambda>now.
         ebind (eupdate (\<lambda>r. record_event RestartHandled (r\<lparr>sp_retry_at := now\<rparr>))) (\<lambda>_.
         ereturn False))))
     | LifecycleShutdown \<Rightarrow> ebind (orderly_shutdown W) (\<lambda>_. ereturn True)))))))"

text \<open>\<open>try_recv\<close> and \<open>recv_timeout\<close>: how long the second waits only decides how much happens outside meanwhile.\<close>

datatype received = ReceivedCommand tray_command | QueueEmpty | ClientsDisconnected

definition try_receive :: "'w supervisor_world \<Rightarrow> ('w, received) supervising" where
  "try_receive W =
     ebind (interfere W) (\<lambda>_.
     elift (\<lambda>r. case sp_queue r of
       command # queue \<Rightarrow> (ReceivedCommand command, r\<lparr>sp_queue := queue\<rparr>)
     | [] \<Rightarrow> (if sp_clients r then QueueEmpty else ClientsDisconnected, r)))"

text \<open>What the loop does with an answer of the channel; a round yields whether the loop ends.\<close>

definition handle_received :: "'w supervisor_world \<Rightarrow> received \<Rightarrow> ('w, bool) supervising" where
  "handle_received W answer =
     (case answer of
        ReceivedCommand command \<Rightarrow> handle_command W command
      | ClientsDisconnected \<Rightarrow>
          ebind (eupdate (\<lambda>r. r\<lparr>sp_signals := (sp_signals r)\<lparr>sg_stopping := True\<rparr>\<rparr>)) (\<lambda>_.
          ebind (orderly_shutdown W) (\<lambda>_.
          ereturn True))
      | QueueEmpty \<Rightarrow> ereturn False)"

text \<open>A due start, under the admission lock: nobody sends meanwhile.\<close>

definition start_due :: "'w supervisor_world \<Rightarrow> nat \<Rightarrow> nat \<Rightarrow> ('w, unit) supervising" where
  "start_due W delay due =
     ebind (interfere W) (\<lambda>_.
     ebind (eget (\<lambda>r. sg_stopping (sp_signals r))) (\<lambda>stopping.
     if stopping then ereturn ()
     else
       ebind (eupdate (\<lambda>r. r\<lparr>sp_intent := (sp_intent r)\<lparr>it_faulted := False\<rparr>\<rparr>)) (\<lambda>_.
       ebind (eget (\<lambda>r. it_paused (sp_intent r))) (\<lambda>paused.
       ebind (supervisor_ask (sw_spawn W paused)) (\<lambda>spawned.
       case spawned of
         Inr _ \<Rightarrow> eupdate (\<lambda>r. record_event (Opened due paused) (r\<lparr>sp_session := Some (session_start paused)\<rparr>))
       | Inl error \<Rightarrow>
           ebind (eupdate (\<lambda>r. r\<lparr>sp_intent := (sp_intent r)\<lparr>it_faulted := True\<rparr>\<rparr>)) (\<lambda>_.
           ebind (on_monitor (report_retryable_fault (''failed to start camera thread: '' @ error) delay)) (\<lambda>_.
           ebind (publish_status_if_changed W) (\<lambda>_.
           ebind (supervisor_ask (sw_now W)) (\<lambda>now.
           eupdate (\<lambda>r. record_event (FaultedAt now) (r\<lparr>sp_retry_at := now + delay\<rparr>)))))))))))"

text \<open>
  \<open>shutdown_watchdog\<close>: it polls the stopping signal until the signals are gone; whether it
  terminates the process, given the time and the signal of every poll.
\<close>

fun shutdown_watchdog :: "nat \<Rightarrow> nat option \<Rightarrow> (nat \<times> bool) list \<Rightarrow> bool" where
  "shutdown_watchdog grace started [] = False"
| "shutdown_watchdog grace started ((now, stopping) # polls) =
     (if stopping then
        let since = (case started of None \<Rightarrow> now | Some t \<Rightarrow> t)
        in if now - since \<ge> grace then True else shutdown_watchdog grace (Some since) polls
      else shutdown_watchdog grace started polls)"

definition supervise_round :: "'w supervisor_world \<Rightarrow> nat \<Rightarrow> ('w, bool) supervising" where
  "supervise_round W delay =
     ebind (interfere W) (\<lambda>_.
     ebind (eget (\<lambda>r. sg_stopping (sp_signals r))) (\<lambda>stopping.
     if stopping then ebind (orderly_shutdown W) (\<lambda>_. ereturn True)
     else
       ebind (observe_session_status W) (\<lambda>_.
       ebind (collect_finished W delay) (\<lambda>collected.
       if collected then ereturn False
       else
         ebind (try_receive W) (\<lambda>answer.
         if answer \<noteq> QueueEmpty then handle_received W answer
         else
           ebind (supervisor_ask (sw_now W)) (\<lambda>now.
           ebind (eget (\<lambda>r. sp_session r = None \<and> now \<ge> sp_retry_at r)) (\<lambda>due.
           if due then ebind (start_due W delay now) (\<lambda>_. ereturn False)
           else ebind (try_receive W) (handle_received W))))))))"

text \<open>The loop, from a state in which no camera has been opened.\<close>

definition supervise_camera :: "'w supervisor_world \<Rightarrow> nat \<Rightarrow> ('w, unit) supervising" where
  "supervise_camera W delay =
     ebind (supervisor_ask (sw_now W)) (\<lambda>now.
     ebind (eupdate (\<lambda>r. r\<lparr>sp_session := None, sp_intent := intent_new False, sp_retry_at := now\<rparr>)) (\<lambda>_.
     eloop (\<lambda>_. ebind (supervise_round W delay) (\<lambda>ended. ereturn (if ended then Inl () else Inr ()))) ()))"

end
