(* ===== verification/SupervisorTheorems.thy ===== *)
theory SupervisorTheorems
  imports Supervisor
begin

text \<open>
  The supervisor never has two cameras open, opens none once it was told to stop, waits after a fault,
  and keeps what the operator asked for across sessions, whatever clients and threads do meanwhile.
\<close>

subsection \<open>What the history shows\<close>

fun camera_open :: "camera_event list \<Rightarrow> bool" where
  "camera_open [] = False"
| "camera_open (Opened t p # es) = True"
| "camera_open (Joined # es) = False"
| "camera_open (_ # es) = camera_open es"

text \<open>A camera is opened only while none is open and before a shutdown, and joined while one is open.\<close>

fun orderly :: "camera_event list \<Rightarrow> bool" where
  "orderly [] = True"
| "orderly (Opened t p # es) = (\<not> camera_open es \<and> ShutdownAccepted \<notin> set es \<and> orderly es)"
| "orderly (Joined # es) = (camera_open es \<and> orderly es)"
| "orderly (_ # es) = orderly es"

text \<open>A fault that neither a restart of the operator nor a new camera has followed.\<close>

fun open_fault :: "camera_event list \<Rightarrow> nat option" where
  "open_fault [] = None"
| "open_fault (FaultedAt t # es) = Some t"
| "open_fault (RestartHandled # es) = None"
| "open_fault (Opened t p # es) = None"
| "open_fault (_ # es) = open_fault es"

fun paced :: "nat \<Rightarrow> camera_event list \<Rightarrow> bool" where
  "paced delay [] = True"
| "paced delay (Opened t p # es) =
     ((case open_fault es of None \<Rightarrow> True | Some f \<Rightarrow> f + delay \<le> t) \<and> paced delay es)"
| "paced delay (_ # es) = paced delay es"

definition events :: "camera_event \<Rightarrow> camera_event list \<Rightarrow> nat" where
  "events e es = length (filter (\<lambda>x. x = e) es)"

lemma events_simps [simp]: "events e [] = 0" "events e (x # xs) = (if x = e then Suc (events e xs) else events e xs)"
    "events e (xs @ ys) = events e xs + events e ys" "events e (replicate n x) = (if x = e then n else 0)"
  by (simp_all add: events_def)

definition supervised :: "nat \<Rightarrow> 'w supervisor \<Rightarrow> bool" where
  "supervised delay r \<longleftrightarrow>
     orderly (sp_history r) \<and> paced delay (sp_history r)
     \<and> (camera_open (sp_history r) \<longleftrightarrow> sp_session r \<noteq> None)
     \<and> (ShutdownAccepted \<in> set (sp_history r) \<longrightarrow> sg_stopping (sp_signals r))
     \<and> (\<forall>f. open_fault (sp_history r) = Some f \<longrightarrow> sp_session r = None \<and> f + delay \<le> sp_retry_at r)
     \<and> (\<forall>c. sp_session r = Some c \<longrightarrow> ac_paused (cs_control c) = it_paused (sp_intent r))
     \<and> (events CaptureReceived (sp_history r) \<le> u64_max \<longrightarrow>
          events CaptureReceived (sp_history r) = events CaptureForwarded (sp_history r) + it_pending_captures (sp_intent r))
     \<and> (it_faulted (sp_intent r) \<longrightarrow> sp_session r = None)"

subsection \<open>Assertions\<close>

definition steps :: "('r \<Rightarrow> bool) \<Rightarrow> ('r, 'e, 'a) effect \<Rightarrow> ('r \<Rightarrow> bool) \<Rightarrow> bool" where
  "steps P m Q \<longleftrightarrow> (\<forall>r x r'. P r \<longrightarrow> m r = Some (Inr x, r') \<longrightarrow> Q r')"

lemma stepsI: "(\<And>r x r'. P r \<Longrightarrow> m r = Some (Inr x, r') \<Longrightarrow> Q r') \<Longrightarrow> steps P m Q"
  by (simp add: steps_def)

lemma stepsD: "steps P m Q \<Longrightarrow> P r \<Longrightarrow> m r = Some (Inr x, r') \<Longrightarrow> Q r'"
  by (auto simp: steps_def)

lemma steps_bind: "steps P m C \<Longrightarrow> (\<And>y. steps C (k y) Q) \<Longrightarrow> steps P (ebind m k) Q"
  unfolding steps_def by (simp add: ebind_Inr) metis

lemma steps_read:
  assumes "\<And>y. steps (\<lambda>r. P r \<and> f r = y) (k y) Q"
  shows "steps P (ebind (eget f) k) Q"
  using assms unfolding steps_def by (auto simp: effect_simps)

lemma steps_then: "steps P m P \<Longrightarrow> (\<And>y. steps P (k y) P) \<Longrightarrow> steps P (ebind m k) P"
  by (rule steps_bind)

lemma steps_return: "steps P (ereturn x) P"
  by (simp add: steps_def effect_simps)

lemma steps_update: "(\<And>r. P r \<Longrightarrow> Q (f r)) \<Longrightarrow> steps P (eupdate f) Q"
  by (simp add: steps_def effect_simps)

lemma steps_lift: "(\<And>r. P r \<Longrightarrow> Q (snd (f r))) \<Longrightarrow> steps P (elift f) Q"
  by (simp add: steps_def effect_simps)

lemma steps_when: "(c \<Longrightarrow> steps P m P) \<Longrightarrow> steps P (ewhen c m) P"
  by (cases c) (simp_all add: ewhen_def steps_return)

lemma steps_weaken: "steps P m Q \<Longrightarrow> (\<And>r. A r \<Longrightarrow> P r) \<Longrightarrow> (\<And>r. Q r \<Longrightarrow> B r) \<Longrightarrow> steps A m B"
  unfolding steps_def by blast

lemma steps_strengthen: "steps P m Q \<Longrightarrow> (\<And>r. A r \<Longrightarrow> P r) \<Longrightarrow> steps A m Q"
  by (rule steps_weaken)

lemma steps_false: "(\<And>r. \<not> P r) \<Longrightarrow> steps P m Q"
  by (simp add: steps_def)

subsection \<open>Every move of the surroundings\<close>

lemma send_stopping:
  assumes "worker_send receiving sequence command (signals, queue) = ((accepted, invalidated), signals', queue')"
  shows "sg_stopping signals \<longrightarrow> sg_stopping signals'"
    and "accepted \<and> command = CommandShutdown \<longrightarrow> sg_stopping signals'"
  using assms by (cases command; auto simp: worker_send_def Let_def split: if_splits)+

lemma supervised_shared:
  "supervised delay r \<Longrightarrow> (sg_stopping (sp_signals r) \<longrightarrow> sg_stopping signals) \<Longrightarrow>
     supervised delay (r\<lparr>sp_signals := signals, sp_queue := queue\<rparr>)"
  by (simp add: supervised_def)

lemma supervised_shutdown:
  "supervised delay r \<Longrightarrow> sg_stopping (sp_signals r) \<Longrightarrow> supervised delay (record_event ShutdownAccepted r)"
  by (simp add: supervised_def record_event_def)

lemma outside_step_supervised: "supervised delay r \<Longrightarrow> supervised delay (outside_step move r)"
proof (cases move)
  case (ClientSends command sequence)
  obtain accepted invalidated signals queue where
    send: "worker_send True sequence command (sp_signals r, sp_queue r) = ((accepted, invalidated), signals, queue)"
    by (metis surj_pair)
  assume "supervised delay r"
  then show ?thesis
    using ClientSends send send_stopping [OF send] supervised_shared [of delay r signals queue]
      supervised_shutdown [of delay "r\<lparr>sp_signals := signals, sp_queue := queue\<rparr>"]
    by simp
next
  case (CameraEnds e)
  assume "supervised delay r"
  then show ?thesis using CameraEnds by (cases "sp_session r") (simp_all add: supervised_def)
qed (simp_all add: supervised_def)

lemma outside_step_closed: "sp_session r = None \<Longrightarrow> sp_session (outside_step move r) = None"
  by (cases move) (simp_all add: record_event_def split_def)

text \<open>The invariant, with and without a camera.\<close>

abbreviation unopened :: "nat \<Rightarrow> 'w supervisor \<Rightarrow> bool" where
  "unopened delay r \<equiv> supervised delay r \<and> sp_session r = None"

lemma outside_closed: "unopened delay r \<Longrightarrow> unopened delay (outside_step move r)"
  using outside_step_supervised outside_step_closed by blast

definition steady :: "('w supervisor \<Rightarrow> bool) \<Rightarrow> bool" where
  "steady P \<longleftrightarrow> (\<forall>r. P r \<longrightarrow> (\<forall>w. P (r\<lparr>sp_world := w\<rparr>)) \<and> (\<forall>move. P (outside_step move r))
     \<and> (\<forall>f. P (r\<lparr>sp_monitor := f (sp_monitor r)\<rparr>))
     \<and> (\<forall>es s. P (r\<lparr>sp_emitted := es, sp_last_status := s\<rparr>)))"

lemma supervised_unshared: "supervised delay (r\<lparr>sp_world := w\<rparr>) = supervised delay r"
    "supervised delay (r\<lparr>sp_monitor := m\<rparr>) = supervised delay r"
    "supervised delay (r\<lparr>sp_emitted := es, sp_last_status := s\<rparr>) = supervised delay r"
  by (simp_all add: supervised_def)

lemma steady_supervised: "steady (supervised delay)"
  by (simp add: steady_def supervised_unshared outside_step_supervised)

lemma steady_unopened: "steady (unopened delay)"
  by (simp add: steady_def supervised_unshared outside_step_supervised outside_step_closed)

lemma steady_world: "steady P \<Longrightarrow> P r \<Longrightarrow> P (r\<lparr>sp_world := w\<rparr>)"
  by (simp add: steady_def)

lemma steady_fold: "steady P \<Longrightarrow> P r \<Longrightarrow> P (fold outside_step moves r)"
  by (induction moves arbitrary: r) (simp_all add: steady_def)

lemma steps_interfere: "steady P \<Longrightarrow> steps P (interfere W) P"
  unfolding interfere_def by (intro steps_update) (simp add: steady_fold steady_world split: prod.split)

lemma steps_ask: "steady P \<Longrightarrow> steps P (supervisor_ask f) P"
  unfolding supervisor_ask_def by (intro steps_lift) (simp add: steady_def split: prod.split)

lemma steps_monitor: "steady P \<Longrightarrow> steps P (on_monitor f) P"
  unfolding on_monitor_def by (intro steps_update) (simp add: steady_def)

lemma steps_get: "steps P (eget f) P"
  by (simp add: steps_def effect_simps)

lemma steps_snapshot: "steady P \<Longrightarrow> steps P (monitor_snapshot W) P"
  unfolding monitor_snapshot_def by (intro steps_then steps_interfere steps_ask steps_get)

lemma steps_publish_snapshot: "steady P \<Longrightarrow> steps P (publish_snapshot_if_changed status) P"
  unfolding publish_snapshot_if_changed_def by (intro steps_update) (simp add: steady_def)

lemma steps_publish: "steady P \<Longrightarrow> steps P (publish_status_if_changed W) P"
  unfolding publish_status_if_changed_def by (intro steps_then steps_snapshot steps_publish_snapshot)

lemmas steady_steps = steps_then steps_return steps_get steps_interfere steps_ask steps_monitor steps_publish
  steps_publish_snapshot steps_snapshot

lemma steps_session:
  assumes "\<And>c. ac_paused (cs_control (f c)) = ac_paused (cs_control c)"
  shows "steps (supervised delay) (on_session f) (supervised delay)"
  unfolding on_session_def by (rule steps_update) (auto simp: supervised_def assms)

subsection \<open>The steps of the loop\<close>

text \<open>No fault is waiting for its delay.\<close>

definition calm :: "('w supervisor \<Rightarrow> bool) \<Rightarrow> 'w supervisor \<Rightarrow> bool" where
  "calm P r \<longleftrightarrow> P r \<and> open_fault (sp_history r) = None"

lemma outside_open_fault: "open_fault (sp_history (outside_step move r)) = open_fault (sp_history r)"
  by (cases move) (simp_all add: record_event_def split_def split: option.split)

lemma steady_calm: "steady P \<Longrightarrow> steady (calm P)"
  by (simp add: steady_def calm_def outside_open_fault)

lemma open_calm: "supervised delay r \<Longrightarrow> sp_session r = Some c \<Longrightarrow> calm (supervised delay) r"
  unfolding calm_def supervised_def by (cases "open_fault (sp_history r)") simp_all

lemma join_leads:
  assumes "steady P" and "\<And>r. P r \<Longrightarrow> sp_session r = None \<Longrightarrow> Q (r\<lparr>sp_session := None\<rparr>)"
    and "\<And>r c. P r \<Longrightarrow> sp_session r = Some c \<Longrightarrow> Q (record_event Joined (r\<lparr>sp_session := None\<rparr>))"
  shows "steps P (join_session W) Q"
  unfolding join_session_def
proof (intro steps_bind)
  show "steps P (interfere W) P" by (rule steps_interfere [OF assms(1)])
  show "steps P (supervisor_ask (sw_join W)) P" by (rule steps_ask [OF assms(1)])
  show "steps P (eget f) P" for f :: "_ \<Rightarrow> session_exit" by (rule steps_get)
  show "steps P (eupdate (\<lambda>r. (if sp_session r = None then id else record_event Joined) (r\<lparr>sp_session := None\<rparr>))) Q"
  proof (rule steps_update)
    fix r assume "P r"
    then show "Q ((if sp_session r = None then id else record_event Joined) (r\<lparr>sp_session := None\<rparr>))"
      using assms(2,3) by (cases "sp_session r") simp_all
  qed
  show "steps Q (ereturn outcome) Q" for outcome :: session_exit by (rule steps_return)
qed

lemma joined_unopened: "supervised delay r \<Longrightarrow> sp_session r = Some c \<Longrightarrow>
    calm (unopened delay) (record_event Joined (r\<lparr>sp_session := None\<rparr>))"
  by (auto simp: supervised_def calm_def record_event_def)

lemma none_unopened: "supervised delay r \<Longrightarrow> sp_session r = None \<Longrightarrow> unopened delay (r\<lparr>sp_session := None\<rparr>)"
  by (simp add: supervised_def)

lemma calm_fields: "calm P r = (P r \<and> open_fault (sp_history r) = None)"
  by (simp add: calm_def)

lemma join_closes: "steps (supervised delay) (join_session W) (unopened delay)"
proof (rule join_leads [OF steady_supervised])
  show "unopened delay (r\<lparr>sp_session := None\<rparr>)"
    if "supervised delay r" "sp_session r = None" for r :: "'w supervisor"
    using none_unopened [OF that] .
  show "unopened delay (record_event Joined (r\<lparr>sp_session := None\<rparr>))"
    if "supervised delay r" "sp_session r = Some c" for r :: "'w supervisor" and c
    using joined_unopened [OF that] unfolding calm_fields by blast
qed

lemma join_calms: "steps (calm (supervised delay)) (join_session W) (calm (unopened delay))"
proof (rule join_leads [OF steady_calm [OF steady_supervised]])
  show "calm (unopened delay) (r\<lparr>sp_session := None\<rparr>)"
    if "calm (supervised delay) r" "sp_session r = None" for r :: "'w supervisor"
    using that none_unopened [of delay r] unfolding calm_fields by simp
  show "calm (unopened delay) (record_event Joined (r\<lparr>sp_session := None\<rparr>))"
    if "calm (supervised delay) r" "sp_session r = Some c" for r :: "'w supervisor" and c
    using joined_unopened that unfolding calm_fields by blast
qed

lemma shutdown_closes: "steps (supervised delay) (orderly_shutdown W) (unopened delay)"
proof -
  have quit: "steps (supervised delay) (on_session (\<lambda>c. c\<lparr>cs_control := control_shutdown (cs_control c)\<rparr>)) (supervised delay)"
    by (rule steps_session) (simp add: control_shutdown_def)
  have leave: "steps (unopened delay) (on_monitor f) (unopened delay)" for f
    by (rule steps_monitor [OF steady_unopened])
  have join: "steps (supervised delay) (ebind (join_session W) (\<lambda>outcome. on_monitor (report_controlled_exit outcome))) (unopened delay)"
    by (rule steps_bind [OF join_closes leave])
  have closing: "steps (\<lambda>r. supervised delay r \<and> (sp_session r \<noteq> None) = open) (if open then
         ebind (on_session (\<lambda>c. c\<lparr>cs_control := control_shutdown (cs_control c)\<rparr>)) (\<lambda>_.
         ebind (join_session W) (\<lambda>outcome. on_monitor (report_controlled_exit outcome)))
       else ereturn ()) (unopened delay)" for "open"
  proof (cases "open")
    case True
    show ?thesis unfolding if_P [OF True]
      by (rule steps_strengthen [OF steps_bind [OF quit join]]) simp
  next
    case False
    show ?thesis unfolding if_not_P [OF False]
      by (rule steps_strengthen [OF steps_return]) (use False in simp)
  qed
  have rest: "steps (unopened delay) (ebind (on_monitor mark_stopping) (\<lambda>_. publish_status_if_changed W)) (unopened delay)"
    by (intro steady_steps steady_unopened)
  show ?thesis unfolding orderly_shutdown_def
    by (rule steps_bind [OF steps_monitor [OF steady_supervised] steps_bind [OF steps_publish [OF steady_supervised]
          steps_read [OF steps_bind [OF closing rest]]]])
qed

lemma unopened_supervised: "steps P m (unopened delay) \<Longrightarrow> steps P m (supervised delay)"
  by (rule steps_weaken [where P = P and Q = "unopened delay"]) simp_all

lemma restart_supervised: "steps (supervised delay) (restart_session W) (supervised delay)"
  unfolding restart_session_def
  by (intro steady_steps steady_supervised steps_session) (simp add: session_request_stop_def control_shutdown_def)

lemma captures_paused: "ac_paused (cs_control ((session_capture_now ^^ n) c)) = ac_paused (cs_control c)"
  by (induction n) (simp_all add: session_capture_now_def control_capture_now_def)

lemma orderly_captures: "orderly (replicate n CaptureForwarded @ es) = orderly es"
    "paced delay (replicate n CaptureForwarded @ es) = paced delay es"
    "camera_open (replicate n CaptureForwarded @ es) = camera_open es"
    "open_fault (replicate n CaptureForwarded @ es) = open_fault es"
  by (induction n) simp_all

lemma forward_supervised: "steps (supervised delay) forward_pending (supervised delay)"
  unfolding forward_pending_def
proof (rule steps_update)
  fix r :: "'w supervisor" assume r: "supervised delay r"
  obtain n i where take: "take_pending_captures max_capture_requests_per_poll (sp_intent r) = (n, i)" by force
  have "it_paused i = it_paused (sp_intent r)" "it_faulted i = it_faulted (sp_intent r)"
    "it_pending_captures (sp_intent r) = n + it_pending_captures i"
    using take by (auto simp: take_pending_captures_def Let_def)
  then show "supervised delay (case take_pending_captures max_capture_requests_per_poll (sp_intent r) of (n, i) \<Rightarrow>
      r\<lparr>sp_intent := i, sp_session := map_option (session_capture_now ^^ n) (sp_session r),
        sp_history := replicate n CaptureForwarded @ sp_history r\<rparr>)"
    using r take by (auto simp: supervised_def orderly_captures captures_paused)
qed

lemma observe_supervised: "steps (supervised delay) (observe_session_status W) (supervised delay)"
proof -
  have ready: "steps (supervised delay) (on_session (\<lambda>c. c\<lparr>cs_ready := b\<rparr>)) (supervised delay)" for b
    by (rule steps_session) simp
  have since: "steps (supervised delay) (case y of
       Some started \<Rightarrow> m started | None \<Rightarrow> n) (supervised delay)"
    if "\<And>t. steps (supervised delay) (m t) (supervised delay)" "steps (supervised delay) n (supervised delay)"
    for y and m :: "nat \<Rightarrow> ('w, unit) supervising" and n
    using that by (cases y) simp_all
  show ?thesis unfolding observe_session_status_def
    by (intro steady_steps steady_supervised since steps_when forward_supervised ready)
qed

lemma collect_supervised: "steps (supervised delay) (collect_finished W delay) (supervised delay)"
proof -
  note calm = steady_calm [OF steady_unopened]
  let ?settle = "\<lambda>restarting. ebind (publish_status_if_changed W) (\<lambda>_.
           ebind (supervisor_ask (sw_now W)) (\<lambda>now.
           ebind (eupdate (\<lambda>r. (if restarting then id else record_event (FaultedAt now))
             (r\<lparr>sp_retry_at := now + (if restarting then 0 else delay)\<rparr>))) (\<lambda>_.
           ereturn True)))"
  have settle: "steps (calm (unopened delay)) (?settle restarting) (supervised delay)" for restarting
  proof (intro steps_bind [OF steps_publish [OF calm]] steps_bind [OF steps_ask [OF calm]] steps_bind [OF steps_update steps_return])
    fix r now assume "calm (unopened delay) r"
    then show "supervised delay ((if restarting then id else record_event (FaultedAt now))
        (r\<lparr>sp_retry_at := now + (if restarting then 0 else delay)\<rparr>))"
      by (simp add: calm_def supervised_def record_event_def)
  qed
  have flags: "steps (calm (unopened delay)) (eupdate (\<lambda>r. r\<lparr>sp_signals := (sp_signals r)\<lparr>sg_restart_pending := False\<rparr>\<rparr>)) (calm (unopened delay))"
    "steps (calm (unopened delay)) (eupdate (\<lambda>r. r\<lparr>sp_intent := (sp_intent r)\<lparr>it_faulted := True\<rparr>\<rparr>)) (calm (unopened delay))"
    by (rule steps_update, simp add: calm_def supervised_def)+
  have report: "steps (calm (unopened delay)) (if restarting then
         ebind (on_monitor f) (\<lambda>_. eupdate (\<lambda>r. r\<lparr>sp_signals := (sp_signals r)\<lparr>sg_restart_pending := False\<rparr>\<rparr>))
       else ebind (on_monitor g) (\<lambda>_. eupdate (\<lambda>r. r\<lparr>sp_intent := (sp_intent r)\<lparr>it_faulted := True\<rparr>\<rparr>)))
      (calm (unopened delay))" for restarting f g
    by (cases restarting) (simp_all only: if_True if_False steps_then [OF steps_monitor [OF calm]] flags)
  have collect: "steps (\<lambda>r. supervised delay r \<and> sp_session r = Some finished)
      (ebind (join_session W) (\<lambda>outcome.
        ebind (if restarting then
            ebind (on_monitor (f outcome)) (\<lambda>_. eupdate (\<lambda>r. r\<lparr>sp_signals := (sp_signals r)\<lparr>sg_restart_pending := False\<rparr>\<rparr>))
          else ebind (on_monitor (g outcome)) (\<lambda>_. eupdate (\<lambda>r. r\<lparr>sp_intent := (sp_intent r)\<lparr>it_faulted := True\<rparr>\<rparr>))) (\<lambda>_.
        ?settle restarting))) (supervised delay)" for finished restarting f g
    by (rule steps_strengthen [OF steps_bind [OF join_calms steps_bind [OF report settle]]]) (use open_calm in blast)
  have none: "steps (\<lambda>r. supervised delay r \<and> sp_session r = session) (ereturn False) (supervised delay)" for session
    by (rule steps_strengthen [OF steps_return]) simp
  show ?thesis unfolding collect_finished_def Let_def
  proof (rule steps_bind [OF steps_interfere [OF steady_supervised] steps_read])
    fix session
    show "steps (\<lambda>r. supervised delay r \<and> sp_session r = session) (case session of None \<Rightarrow> ereturn False
      | Some finished \<Rightarrow> if cs_exit finished = None then ereturn False
         else ebind (join_session W) (\<lambda>outcome.
           ebind (if cs_stop_requested_at finished \<noteq> None then
               ebind (on_monitor (mark_stopping \<circ> report_controlled_exit outcome)) (\<lambda>_.
               eupdate (\<lambda>r. r\<lparr>sp_signals := (sp_signals r)\<lparr>sg_restart_pending := False\<rparr>\<rparr>))
             else
               ebind (on_monitor (report_unexpected_exit outcome delay)) (\<lambda>_.
               eupdate (\<lambda>r. r\<lparr>sp_intent := (sp_intent r)\<lparr>it_faulted := True\<rparr>\<rparr>))) (\<lambda>_.
           ?settle (cs_stop_requested_at finished \<noteq> None)))) (supervised delay)"
      by (cases session) (simp_all only: option.case none collect split: if_split, simp_all add: none collect)
  qed
qed

text \<open>
  Between the decision of the supervisor and its effect on the session the invariant is broken for a
  moment, without an access to what others share; so the three updates are one.
\<close>

definition commit :: "tray_command \<Rightarrow> bool \<Rightarrow> 'w supervisor \<Rightarrow> 'w supervisor" where
  "commit command ready r =
     (let r = r\<lparr>sp_intent := snd (intent_accept command ready (sp_intent r))\<rparr> in
      case command of
        CommandPaused paused \<Rightarrow> r\<lparr>sp_session := map_option (session_set_paused paused) (sp_session r)\<rparr>
      | CommandCapture \<Rightarrow>
          (let r = record_event CaptureReceived r in
           if ready then record_event CaptureForwarded (r\<lparr>sp_session := map_option session_capture_now (sp_session r)\<rparr>)
           else r)
      | CommandReload \<Rightarrow> r\<lparr>sp_session := map_option session_reload (sp_session r)\<rparr>
      | _ \<Rightarrow> r)"

lemma captures_once:
  assumes "supervised delay r" and "Suc (events CaptureReceived (sp_history r)) \<le> u64_max"
  shows "Suc (events CaptureReceived (sp_history r))
    = events CaptureForwarded (sp_history r) + sat_add_u64 (it_pending_captures (sp_intent r)) 1"
proof -
  have "events CaptureReceived (sp_history r) = events CaptureForwarded (sp_history r) + it_pending_captures (sp_intent r)"
    using assms unfolding supervised_def by simp
  then show ?thesis using assms(2) by (simp add: sat_add_u64_def)
qed

lemma commit_supervised: "supervised delay r \<Longrightarrow> supervised delay (commit command ready r)"
proof (cases command)
  case (CommandPaused paused)
  assume "supervised delay r"
  then show ?thesis
    unfolding supervised_def
    by (cases "sp_session r") (simp_all add: CommandPaused commit_def intent_accept_def session_set_paused_def
        control_pause_def control_resume_def)
next
  case CommandCapture
  assume r: "supervised delay r"
  then have "supervised delay (record_event CaptureReceived (r\<lparr>sp_intent := (sp_intent r)\<lparr>it_pending_captures :=
      sat_add_u64 (it_pending_captures (sp_intent r)) 1\<rparr>\<rparr>))"
    using captures_once [of delay r] unfolding supervised_def by (simp add: record_event_def)
  moreover have "supervised delay (record_event CaptureForwarded (record_event CaptureReceived
      (r\<lparr>sp_session := map_option session_capture_now (sp_session r)\<rparr>)))"
    using r unfolding supervised_def
    by (cases "sp_session r") (simp_all add: record_event_def session_capture_now_def control_capture_now_def)
  ultimately show ?thesis
    by (cases ready) (simp_all add: CommandCapture commit_def intent_accept_def record_event_def Let_def)
next
  case CommandReload
  assume "supervised delay r"
  then show ?thesis
    unfolding supervised_def
    by (cases "sp_session r") (simp_all add: CommandReload commit_def intent_accept_def session_reload_def
        control_reload_configuration_def)
qed (simp_all add: commit_def supervised_def intent_accept_def)

lemma accept_runs:
  fixes k :: "lifecycle_request \<Rightarrow> ('w, bool) supervising"
  shows "(ebind (elift (\<lambda>r. case intent_accept command ready (sp_intent r) of (l, i) \<Rightarrow> (l, r\<lparr>sp_intent := i\<rparr>))) (\<lambda>lifecycle.
       ebind (ewhen (command = CommandCapture) (supervisor_event CaptureReceived)) (\<lambda>_.
       ebind (case command of
           CommandPaused paused \<Rightarrow> on_session (session_set_paused paused)
         | CommandCapture \<Rightarrow>
             ewhen ready (ebind (on_session session_capture_now) (\<lambda>_. supervisor_event CaptureForwarded))
         | CommandReload \<Rightarrow> on_session session_reload
         | _ \<Rightarrow> ereturn ()) (\<lambda>_. k lifecycle)))) r
    = k (fst (intent_accept command ready (sp_intent r))) (commit command ready r)"
  by (cases command) (simp_all add: effect_simps split_def commit_def supervisor_event_def on_session_def record_event_def Let_def)

lemma accept_supervised:
  fixes k :: "lifecycle_request \<Rightarrow> ('w, bool) supervising"
  assumes k: "\<And>l. steps (supervised delay) (k l) (supervised delay)"
  shows "steps (supervised delay)
      (ebind (elift (\<lambda>r. case intent_accept command ready (sp_intent r) of (l, i) \<Rightarrow> (l, r\<lparr>sp_intent := i\<rparr>))) (\<lambda>lifecycle.
       ebind (ewhen (command = CommandCapture) (supervisor_event CaptureReceived)) (\<lambda>_.
       ebind (case command of
           CommandPaused paused \<Rightarrow> on_session (session_set_paused paused)
         | CommandCapture \<Rightarrow>
             ewhen ready (ebind (on_session session_capture_now) (\<lambda>_. supervisor_event CaptureForwarded))
         | CommandReload \<Rightarrow> on_session session_reload
         | _ \<Rightarrow> ereturn ()) (\<lambda>_. k lifecycle)))) (supervised delay)"
    (is "steps _ ?m _")
proof -
  note run = accept_runs [of command ready k]
  show ?thesis
  proof (rule stepsI)
    fix r x r' assume r: "supervised delay r" and m: "?m r = Some (Inr x, r')"
    from m have "k (fst (intent_accept command ready (sp_intent r))) (commit command ready r) = Some (Inr x, r')"
      by (simp only: run)
    then show "supervised delay r'"
      by (rule stepsD [OF k commit_supervised [OF r]])
  qed
qed

lemma handle_supervised: "steps (supervised delay) (handle_command W command) (supervised delay)"
proof -
  have accept: "steps (supervised delay)
      (ebind (elift (\<lambda>r. case intent_accept command ready (sp_intent r) of (l, i) \<Rightarrow> (l, r\<lparr>sp_intent := i\<rparr>))) (\<lambda>lifecycle.
       ebind (ewhen (command = CommandCapture) (supervisor_event CaptureReceived)) (\<lambda>_.
       ebind (case command of
           CommandPaused paused \<Rightarrow> on_session (session_set_paused paused)
         | CommandCapture \<Rightarrow>
             ewhen ready (ebind (on_session session_capture_now) (\<lambda>_. supervisor_event CaptureForwarded))
         | CommandReload \<Rightarrow> on_session session_reload
         | _ \<Rightarrow> ereturn ()) (\<lambda>_. k lifecycle)))) (supervised delay)"
    if k: "\<And>l. steps (supervised delay) (k l) (supervised delay)" for ready and k :: "lifecycle_request \<Rightarrow> ('w, bool) supervising"
    using accept_supervised [OF k] .
  have lifecycle: "steps (supervised delay) (case l of
       NoLifecycle \<Rightarrow> ereturn False
     | LifecycleRestart \<Rightarrow>
         ebind (restart_session W) (\<lambda>_.
         ebind (eupdate (\<lambda>r. if sp_session r = None
           then r\<lparr>sp_signals := (sp_signals r)\<lparr>sg_restart_pending := False\<rparr>\<rparr> else r)) (\<lambda>_.
         ebind (supervisor_ask (sw_now W)) (\<lambda>now.
         ebind (eupdate (\<lambda>r. record_event RestartHandled (r\<lparr>sp_retry_at := now\<rparr>))) (\<lambda>_.
         ereturn False))))
     | LifecycleShutdown \<Rightarrow> ebind (orderly_shutdown W) (\<lambda>_. ereturn True)) (supervised delay)" for l
  proof (cases l)
    case LifecycleRestart
    have "steps (supervised delay) (eupdate (\<lambda>r. if sp_session r = None
        then r\<lparr>sp_signals := (sp_signals r)\<lparr>sg_restart_pending := False\<rparr>\<rparr> else r)) (supervised delay)"
      "\<And>now. steps (supervised delay) (eupdate (\<lambda>r. record_event RestartHandled (r\<lparr>sp_retry_at := now\<rparr>))) (supervised delay)"
      by (rule steps_update, simp add: supervised_def record_event_def)+
    then show ?thesis unfolding LifecycleRestart lifecycle_request.case
      by (intro steps_then restart_supervised steps_ask steady_supervised steps_return)
  next
    case LifecycleShutdown
    show ?thesis unfolding LifecycleShutdown lifecycle_request.case
      by (intro steps_then steps_return unopened_supervised shutdown_closes)
  qed (simp add: steps_return)
  show ?thesis unfolding handle_command_def
    by (intro steps_then [OF steps_snapshot [OF steady_supervised]] steps_then [OF steps_interfere [OF steady_supervised]]
      steps_then [OF steps_get] accept lifecycle)
qed

lemma receive_supervised: "steps (supervised delay) (try_receive W) (supervised delay)"
  unfolding try_receive_def
  by (intro steps_then steps_interfere steady_supervised steps_lift)
    (simp add: supervised_def split: list.split)

lemma received_supervised: "steps (supervised delay) (handle_received W answer) (supervised delay)"
proof (cases answer)
  case ClientsDisconnected
  have "steps (supervised delay) (eupdate (\<lambda>r. r\<lparr>sp_signals := (sp_signals r)\<lparr>sg_stopping := True\<rparr>\<rparr>)) (supervised delay)"
    by (rule steps_update) (simp add: supervised_def)
  from steps_then [OF this steps_then [OF unopened_supervised [OF shutdown_closes] steps_return]]
  show ?thesis unfolding ClientsDisconnected handle_received_def received.case .
qed (simp_all add: handle_received_def handle_supervised steps_return)

lemma outside_retry: "sp_retry_at (outside_step move r) = sp_retry_at r"
  by (cases move) (simp_all add: record_event_def split_def split: option.split)

lemma steady_retry: "steady Q \<Longrightarrow> steady (\<lambda>r. Q r \<and> sp_retry_at r \<le> due)"
  by (simp add: steady_def outside_retry)

lemma start_supervised:
  "steps (\<lambda>r. unopened delay r \<and> sp_retry_at r \<le> due) (start_due W delay due) (supervised delay)"
proof -
  let ?P = "\<lambda>r. unopened delay r \<and> sp_retry_at r \<le> due"
  let ?A = "\<lambda>r. ?P r \<and> \<not> sg_stopping (sp_signals r)"
  let ?B = "\<lambda>r. ?A r \<and> \<not> it_faulted (sp_intent r)"
  have P: "steps ?P (interfere W) ?P"
    by (rule steps_interfere [OF steady_retry [OF steady_unopened]])
  have clear: "steps ?A (eupdate (\<lambda>r. r\<lparr>sp_intent := (sp_intent r)\<lparr>it_faulted := False\<rparr>\<rparr>)) ?B"
    by (rule steps_update) (auto simp: supervised_def)
  have failed: "steps ?B (ebind (eupdate (\<lambda>r. r\<lparr>sp_intent := (sp_intent r)\<lparr>it_faulted := True\<rparr>\<rparr>)) (\<lambda>_.
           ebind (on_monitor f) (\<lambda>_.
           ebind (publish_status_if_changed W) (\<lambda>_.
           ebind (supervisor_ask (sw_now W)) (\<lambda>now.
           eupdate (\<lambda>r. record_event (FaultedAt now) (r\<lparr>sp_retry_at := now + delay\<rparr>))))))) (supervised delay)" for f
  proof -
    have fault: "steps ?B (eupdate (\<lambda>r. r\<lparr>sp_intent := (sp_intent r)\<lparr>it_faulted := True\<rparr>\<rparr>)) (unopened delay)"
      by (rule steps_update) (auto simp: supervised_def)
    have wait: "steps (unopened delay) (eupdate (\<lambda>r. record_event (FaultedAt now) (r\<lparr>sp_retry_at := now + delay\<rparr>)))
        (supervised delay)" for now
      by (rule steps_update) (simp add: supervised_def record_event_def)
    show ?thesis
      by (rule steps_bind [OF fault steps_bind [OF steps_monitor [OF steady_unopened] steps_bind [OF
            steps_publish [OF steady_unopened] steps_bind [OF steps_ask [OF steady_unopened] wait]]]])
  qed
  have opened: "supervised delay (record_event (Opened due paused) (r\<lparr>sp_session := Some (session_start paused)\<rparr>))"
    if "?B r" "it_paused (sp_intent r) = paused" for r paused
  proof -
    have "ShutdownAccepted \<notin> set (sp_history r)" using that unfolding supervised_def by blast
    then show ?thesis using that
      by (cases "open_fault (sp_history r)"; cases paused)
        (simp_all add: supervised_def record_event_def session_start_def control_new_def control_pause_def)
  qed
  have spawn: "steps (\<lambda>r. ?B r \<and> it_paused (sp_intent r) = paused)
      (ebind (supervisor_ask (sw_spawn W paused)) (\<lambda>spawned.
       case spawned of
         Inr _ \<Rightarrow> eupdate (\<lambda>r. record_event (Opened due paused) (r\<lparr>sp_session := Some (session_start paused)\<rparr>))
       | Inl error \<Rightarrow>
           ebind (eupdate (\<lambda>r. r\<lparr>sp_intent := (sp_intent r)\<lparr>it_faulted := True\<rparr>\<rparr>)) (\<lambda>_.
           ebind (on_monitor (f error)) (\<lambda>_.
           ebind (publish_status_if_changed W) (\<lambda>_.
           ebind (supervisor_ask (sw_now W)) (\<lambda>now.
           eupdate (\<lambda>r. record_event (FaultedAt now) (r\<lparr>sp_retry_at := now + delay\<rparr>)))))))) (supervised delay)"
    (is "steps ?C _ _") for paused f
  proof (rule steps_bind [where C = ?C])
    show "steps ?C (supervisor_ask (sw_spawn W paused)) ?C"
      unfolding supervisor_ask_def by (rule steps_lift) (auto simp: supervised_def split_def)
    show "steps ?C (case spawned of
         Inr _ \<Rightarrow> eupdate (\<lambda>r. record_event (Opened due paused) (r\<lparr>sp_session := Some (session_start paused)\<rparr>))
       | Inl error \<Rightarrow>
           ebind (eupdate (\<lambda>r. r\<lparr>sp_intent := (sp_intent r)\<lparr>it_faulted := True\<rparr>\<rparr>)) (\<lambda>_.
           ebind (on_monitor (f error)) (\<lambda>_.
           ebind (publish_status_if_changed W) (\<lambda>_.
           ebind (supervisor_ask (sw_now W)) (\<lambda>now.
           eupdate (\<lambda>r. record_event (FaultedAt now) (r\<lparr>sp_retry_at := now + delay\<rparr>))))))) (supervised delay)" for spawned
    proof (cases spawned)
      case (Inl error)
      show ?thesis unfolding Inl sum.case by (rule steps_strengthen [OF failed]) simp
    next
      case (Inr u)
      show ?thesis unfolding Inr sum.case by (rule steps_update) (use opened in blast)
    qed
  qed
  show ?thesis unfolding start_due_def
  proof (rule steps_bind [OF P steps_read])
    fix stopping
    show "steps (\<lambda>r. ?P r \<and> sg_stopping (sp_signals r) = stopping) (if stopping then ereturn ()
     else
       ebind (eupdate (\<lambda>r. r\<lparr>sp_intent := (sp_intent r)\<lparr>it_faulted := False\<rparr>\<rparr>)) (\<lambda>_.
       ebind (eget (\<lambda>r. it_paused (sp_intent r))) (\<lambda>paused.
       ebind (supervisor_ask (sw_spawn W paused)) (\<lambda>spawned.
       case spawned of
         Inr _ \<Rightarrow> eupdate (\<lambda>r. record_event (Opened due paused) (r\<lparr>sp_session := Some (session_start paused)\<rparr>))
       | Inl error \<Rightarrow>
           ebind (eupdate (\<lambda>r. r\<lparr>sp_intent := (sp_intent r)\<lparr>it_faulted := True\<rparr>\<rparr>)) (\<lambda>_.
           ebind (on_monitor (report_retryable_fault (''failed to start camera thread: '' @ error) delay)) (\<lambda>_.
           ebind (publish_status_if_changed W) (\<lambda>_.
           ebind (supervisor_ask (sw_now W)) (\<lambda>now.
           eupdate (\<lambda>r. record_event (FaultedAt now) (r\<lparr>sp_retry_at := now + delay\<rparr>)))))))))) (supervised delay)"
    proof (cases stopping)
      case True
      show ?thesis unfolding if_P [OF True] by (rule steps_weaken [OF steps_return]) simp_all
    next
      case False
      show ?thesis unfolding if_not_P [OF False]
        by (rule steps_strengthen [OF steps_bind [OF clear steps_read [OF spawn]]]) (use False in simp)
    qed
  qed
qed

lemma round_supervised: "steps (supervised delay) (supervise_round W delay) (supervised delay)"
proof -
  have start: "steps (\<lambda>r. supervised delay r \<and> (sp_session r = None \<and> now \<ge> sp_retry_at r) = due)
      (if due then ebind (start_due W delay now) (\<lambda>_. ereturn False) else ebind (try_receive W) (handle_received W))
      (supervised delay)" for now due
  proof (cases due)
    case True
    show ?thesis unfolding if_P [OF True]
      by (rule steps_strengthen [OF steps_bind [OF start_supervised [where due = now] steps_return]]) (use True in simp)
  next
    case False
    show ?thesis unfolding if_not_P [OF False]
      by (rule steps_strengthen [OF steps_then [OF receive_supervised received_supervised]]) simp
  qed
  have rest: "steps (supervised delay) (ebind (supervisor_ask (sw_now W)) (\<lambda>now.
           ebind (eget (\<lambda>r. sp_session r = None \<and> now \<ge> sp_retry_at r)) (\<lambda>due.
           if due then ebind (start_due W delay now) (\<lambda>_. ereturn False)
           else ebind (try_receive W) (handle_received W)))) (supervised delay)"
    by (intro steps_then [OF steps_ask [OF steady_supervised]] steps_read start)
  have choose: "steps (supervised delay) (if c then m else n) (supervised delay)"
    if "steps (supervised delay) m (supervised delay)" "steps (supervised delay) n (supervised delay)"
    for c and m n :: "('w, bool) supervising"
    using that by simp
  show ?thesis unfolding supervise_round_def
    by (intro steps_then [OF steps_interfere [OF steady_supervised]] steps_then [OF steps_get] choose
      steps_then [OF unopened_supervised [OF shutdown_closes]] steps_return steps_then [OF observe_supervised]
      steps_then [OF collect_supervised] steps_then [OF receive_supervised] received_supervised rest)
qed

subsection \<open>Every operation returns\<close>

definition answers :: "('r, 'e, 'a) effect \<Rightarrow> bool" where
  "answers m \<longleftrightarrow> (\<forall>r. \<exists>x r'. m r = Some (Inr x, r'))"

lemma answers_bind: "answers m \<Longrightarrow> (\<And>y. answers (k y)) \<Longrightarrow> answers (ebind m k)"
  unfolding answers_def by (simp add: ebind_Inr) metis

lemma answers_basic: "answers (ereturn x)" "answers (eget f)" "answers (eupdate g)" "answers (elift h)"
  by (simp_all add: answers_def effect_simps)

lemma answers_when: "answers m \<Longrightarrow> answers (ewhen c m)"
  by (simp add: answers_def effect_simps)

lemma answers_if: "answers m \<Longrightarrow> answers n \<Longrightarrow> answers (if c then m else n)"
  by simp

lemma answers_option: "answers m \<Longrightarrow> (\<And>y. answers (n y)) \<Longrightarrow> answers (case x of None \<Rightarrow> m | Some y \<Rightarrow> n y)"
  by (cases x) simp_all

lemma answers_sum: "(\<And>y. answers (m y)) \<Longrightarrow> (\<And>y. answers (n y)) \<Longrightarrow> answers (case x of Inl y \<Rightarrow> m y | Inr y \<Rightarrow> n y)"
  by (cases x) simp_all

lemma answers_command:
  "(\<And>y. answers (a y)) \<Longrightarrow> answers b \<Longrightarrow> answers c \<Longrightarrow> answers d \<Longrightarrow> answers e \<Longrightarrow>
     answers (case x of CommandPaused y \<Rightarrow> a y | CommandCapture \<Rightarrow> b | CommandRestart \<Rightarrow> c | CommandReload \<Rightarrow> d | CommandShutdown \<Rightarrow> e)"
  by (cases x) simp_all

lemma answers_lifecycle:
  "answers a \<Longrightarrow> answers b \<Longrightarrow> answers c \<Longrightarrow>
     answers (case x of NoLifecycle \<Rightarrow> a | LifecycleRestart \<Rightarrow> b | LifecycleShutdown \<Rightarrow> c)"
  by (cases x) simp_all

lemma answers_received:
  "(\<And>y. answers (a y)) \<Longrightarrow> answers b \<Longrightarrow> answers c \<Longrightarrow>
     answers (case x of ReceivedCommand y \<Rightarrow> a y | QueueEmpty \<Rightarrow> b | ClientsDisconnected \<Rightarrow> c)"
  by (cases x) simp_all

lemmas answers_intros = answers_bind answers_basic answers_when answers_if answers_option answers_sum answers_command
  answers_lifecycle answers_received

lemma answers_snapshot: "answers (monitor_snapshot W)" "answers (publish_status_if_changed W)"
  unfolding monitor_snapshot_def publish_status_if_changed_def publish_snapshot_if_changed_def interfere_def supervisor_ask_def
  by (intro answers_intros)+

lemma answers_shutdown: "answers (orderly_shutdown W)"
  unfolding orderly_shutdown_def join_session_def interfere_def supervisor_ask_def on_monitor_def on_session_def
  by (intro answers_intros answers_snapshot)

lemma answers_handle: "answers (handle_command W command)"
  unfolding handle_command_def restart_session_def interfere_def supervisor_ask_def on_monitor_def on_session_def supervisor_event_def
  by (intro answers_intros answers_snapshot answers_shutdown)

lemma answers_receive: "answers (try_receive W)" "answers (handle_received W answer)"
  unfolding try_receive_def handle_received_def interfere_def
  by (intro answers_intros answers_handle answers_shutdown)+

lemma answers_start: "answers (start_due W delay due)"
  unfolding start_due_def interfere_def supervisor_ask_def on_monitor_def by (intro answers_intros answers_snapshot)

lemma answers_observe: "answers (observe_session_status W)"
  unfolding observe_session_status_def supervisor_ask_def on_monitor_def on_session_def forward_pending_def publish_snapshot_if_changed_def
  by (intro answers_intros answers_snapshot)

lemma answers_collect: "answers (collect_finished W delay)"
  unfolding collect_finished_def join_session_def interfere_def supervisor_ask_def on_monitor_def Let_def
  by (intro answers_intros answers_snapshot)

lemma round_answers: "answers (supervise_round W delay)"
  unfolding supervise_round_def interfere_def supervisor_ask_def
  by (intro answers_intros answers_shutdown answers_observe answers_collect answers_receive answers_start)

subsection \<open>The end of the loop\<close>

definition quits :: "nat \<Rightarrow> ('w supervisor \<Rightarrow> bool) \<Rightarrow> ('w, bool) supervising \<Rightarrow> bool" where
  "quits delay P m \<longleftrightarrow> (\<forall>r r'. P r \<longrightarrow> m r = Some (Inr True, r') \<longrightarrow> unopened delay r')"

lemma quitsD: "quits delay P m \<Longrightarrow> P r \<Longrightarrow> m r = Some (Inr True, r') \<Longrightarrow> unopened delay r'"
  unfolding quits_def by blast

lemma quits_bind: "steps P m C \<Longrightarrow> (\<And>y. quits delay C (k y)) \<Longrightarrow> quits delay P (ebind m k)"
  unfolding steps_def quits_def by (simp add: ebind_Inr) metis

lemma quits_not: "quits delay P (ereturn False)"
  by (simp add: quits_def effect_simps)

lemma quits_shutdown: "quits delay (supervised delay) (ebind (orderly_shutdown W) (\<lambda>_. ereturn True))"
  by (rule quits_bind [OF shutdown_closes]) (simp add: quits_def effect_simps)

lemma quits_if: "quits delay P m \<Longrightarrow> quits delay P n \<Longrightarrow> quits delay P (if c then m else n)"
  by simp

lemma quits_lifecycle: "quits delay P a \<Longrightarrow> quits delay P b \<Longrightarrow> quits delay P c \<Longrightarrow>
    quits delay P (case x of NoLifecycle \<Rightarrow> a | LifecycleRestart \<Rightarrow> b | LifecycleShutdown \<Rightarrow> c)"
  by (cases x) simp_all

lemma quits_never: "(\<And>y. quits delay (\<lambda>_. True) (k y)) \<Longrightarrow> quits delay P (ebind m k)"
  by (rule quits_bind [where C = "\<lambda>_. True"]) (simp_all add: steps_def)

lemma accept_quits:
  fixes k :: "lifecycle_request \<Rightarrow> ('w, bool) supervising"
  assumes k: "\<And>l. quits delay (supervised delay) (k l)"
  shows "quits delay (supervised delay)
      (ebind (elift (\<lambda>r. case intent_accept command ready (sp_intent r) of (l, i) \<Rightarrow> (l, r\<lparr>sp_intent := i\<rparr>))) (\<lambda>lifecycle.
       ebind (ewhen (command = CommandCapture) (supervisor_event CaptureReceived)) (\<lambda>_.
       ebind (case command of
           CommandPaused paused \<Rightarrow> on_session (session_set_paused paused)
         | CommandCapture \<Rightarrow>
             ewhen ready (ebind (on_session session_capture_now) (\<lambda>_. supervisor_event CaptureForwarded))
         | CommandReload \<Rightarrow> on_session session_reload
         | _ \<Rightarrow> ereturn ()) (\<lambda>_. k lifecycle))))"
  using k commit_supervised unfolding quits_def accept_runs by metis

lemma handle_quits: "quits delay (supervised delay) (handle_command W command)"
  unfolding handle_command_def
  by (intro quits_bind [OF steps_snapshot [OF steady_supervised]] quits_bind [OF steps_interfere [OF steady_supervised]]
    quits_bind [OF steps_get] accept_quits quits_lifecycle quits_not quits_shutdown quits_never)

lemma received_quits: "quits delay (supervised delay) (handle_received W answer)"
proof (cases answer)
  case ClientsDisconnected
  have "steps (supervised delay) (eupdate (\<lambda>r. r\<lparr>sp_signals := (sp_signals r)\<lparr>sg_stopping := True\<rparr>\<rparr>)) (supervised delay)"
    by (rule steps_update) (simp add: supervised_def)
  from quits_bind [OF this quits_shutdown] show ?thesis
    unfolding ClientsDisconnected handle_received_def received.case .
qed (simp_all add: handle_received_def handle_quits quits_not)

lemma round_quits: "quits delay (supervised delay) (supervise_round W delay)"
proof -
  note steady = steady_supervised
  have receive: "quits delay (supervised delay) (ebind (try_receive W) (handle_received W))"
    by (rule quits_bind [OF receive_supervised received_quits])
  have rest: "quits delay (supervised delay) (ebind (supervisor_ask (sw_now W)) (\<lambda>now.
           ebind (eget (\<lambda>r. sp_session r = None \<and> now \<ge> sp_retry_at r)) (\<lambda>due.
           if due then ebind (start_due W delay now) (\<lambda>_. ereturn False)
           else ebind (try_receive W) (handle_received W))))"
    by (intro quits_bind [OF steps_ask [OF steady]] quits_bind [OF steps_get] quits_if receive quits_never quits_not)
  show ?thesis unfolding supervise_round_def
    by (intro quits_bind [OF steps_interfere [OF steady]] quits_bind [OF steps_get] quits_if quits_shutdown
      quits_bind [OF observe_supervised] quits_bind [OF collect_supervised] quits_not
      quits_bind [OF receive_supervised] received_quits rest)
qed

subsection \<open>The loop\<close>

text \<open>The states in which a round of the loop begins.\<close>

inductive supervisor_reach :: "'w supervisor_world \<Rightarrow> nat \<Rightarrow> 'w supervisor \<Rightarrow> bool" for W delay where
  start: "sp_history r = [] \<Longrightarrow>
    supervisor_reach W delay (r\<lparr>sp_session := None, sp_intent := intent_new False, sp_retry_at := now\<rparr>)"
| again: "supervisor_reach W delay r \<Longrightarrow> supervise_round W delay r = Some (Inr False, r') \<Longrightarrow> supervisor_reach W delay r'"

lemma reach_supervised: "supervisor_reach W delay r \<Longrightarrow> supervised delay r"
proof (induction rule: supervisor_reach.induct)
  case (start r now)
  then show ?case by (simp add: supervised_def intent_new_def)
next
  case (again r r')
  then show ?case using stepsD [OF round_supervised] by blast
qed

lemma outside_stopping: "sg_stopping (sp_signals r) \<Longrightarrow> sg_stopping (sp_signals (outside_step move r))"
  by (cases move) (simp_all add: worker_send_def record_event_def split_def split: option.split)

lemma interfere_stopping:
  assumes "sg_stopping (sp_signals r)"
  shows "\<exists>r'. interfere W r = Some (Inr (), r') \<and> sg_stopping (sp_signals r')"
proof -
  have "sg_stopping (sp_signals s) \<Longrightarrow> sg_stopping (sp_signals (fold outside_step moves s))" for moves and s :: "'a supervisor"
    by (induction moves arbitrary: s) (simp_all add: outside_stopping)
  then show ?thesis using assms by (simp add: interfere_def effect_simps split_def)
qed

lemma stopping_ends:
  assumes "sg_stopping (sp_signals r)" and "supervise_round W delay r = Some (Inr ended, r')"
  shows ended
proof -
  obtain r1 where "interfere W r = Some (Inr (), r1)" "sg_stopping (sp_signals r1)"
    using interfere_stopping [OF assms(1)] by blast
  then show ?thesis
    using assms(2) unfolding supervise_round_def by (auto simp: ebind_Inr effect_simps split: option.splits sum.splits prod.splits)
qed

text \<open>C38: the supervisor never has two cameras open, and opens none after it has accepted a shutdown,
  whatever clients and threads do and whenever they do it: in the history of every round a camera
  is opened only when the one before was joined. Every round returns; the first one that begins after
  a shutdown was accepted ends the loop, and when the loop ends no camera is left open.\<close>

theorem one_camera_at_a_time:
  assumes "supervisor_reach W delay r"
  shows "\<exists>ended r'. supervise_round W delay r = Some (Inr ended, r') \<and> orderly (sp_history r')
    \<and> (sg_stopping (sp_signals r) \<longrightarrow> ended) \<and> (ended \<longrightarrow> sp_session r' = None \<and> \<not> camera_open (sp_history r'))"
proof -
  obtain ended r' where run: "supervise_round W delay r = Some (Inr ended, r')"
    using round_answers unfolding answers_def by blast
  note r = reach_supervised [OF assms]
  have "supervised delay r'" by (rule stepsD [OF round_supervised r run])
  moreover have "unopened delay r'" if ended
    by (rule quitsD [OF round_quits r]) (use run that in simp)
  ultimately show ?thesis
    using run stopping_ends [OF _ run] unfolding supervised_def by (intro exI [of _ ended] exI [of _ r']) auto
qed



subsection \<open>Runs\<close>

text \<open>One in which the first start of a camera fails, and one in which the operator has paused before.\<close>

definition tray_demo_surroundings :: "nat \<Rightarrow> nat supervisor_world" where
  "tray_demo_surroundings failing = \<lparr>sw_moves = (\<lambda>n. ([], n + 1)), sw_now = (\<lambda>n. (n, n)),
     sw_spawn = (\<lambda>_ n. (if n < failing then Inl ''no thread'' else Inr (), n)), sw_join = (\<lambda>n. (SessionCompleted, n))\<rparr>"

definition tray_demo_supervisor :: "tray_command list \<Rightarrow> nat supervisor" where
  "tray_demo_supervisor queue = \<lparr>sp_world = 0, sp_signals = signals_default, sp_queue = queue, sp_clients = True,
     sp_monitor = monitor_new True 0, sp_session = None, sp_intent = intent_new False, sp_retry_at = 0,
     sp_last_status = None, sp_emitted = [], sp_history = []\<rparr>"

fun tray_demo_rounds :: "nat \<Rightarrow> nat \<Rightarrow> nat supervisor \<Rightarrow> nat supervisor option" where
  "tray_demo_rounds failing 0 r = Some r"
| "tray_demo_rounds failing (Suc n) r =
     (case supervise_round (tray_demo_surroundings failing) 1 r of Some (Inr False, r) \<Rightarrow> tray_demo_rounds failing n r | _ \<Rightarrow> None)"

lemma tray_demo_rounds_reach:
  "tray_demo_rounds failing n r = Some r' \<Longrightarrow> supervisor_reach (tray_demo_surroundings failing) 1 r \<Longrightarrow>
     supervisor_reach (tray_demo_surroundings failing) 1 r'"
proof (induction n arbitrary: r)
  case (Suc n)
  then show ?case by (auto split: option.splits prod.splits sum.splits bool.splits intro: supervisor_reach.again)
qed simp

lemma tray_demo_reach: "tray_demo_rounds failing n (tray_demo_supervisor queue) = Some r \<Longrightarrow> supervisor_reach (tray_demo_surroundings failing) 1 r"
  using tray_demo_rounds_reach [of failing n "tray_demo_supervisor queue" r]
    supervisor_reach.start [of "tray_demo_supervisor queue" "tray_demo_surroundings failing" 1 0]
  by (simp add: tray_demo_supervisor_def)

lemma tray_demo_fault: "map_option sp_history (tray_demo_rounds 6 2 (tray_demo_supervisor [])) = Some [Opened 10 False, FaultedAt 6]"
  by code_simp

lemma tray_demo_paused: "map_option (\<lambda>r. map_option (ac_paused \<circ> cs_control) (sp_session r))
    (tray_demo_rounds 0 2 (tray_demo_supervisor [CommandPaused True])) = Some (Some True)"
  by code_simp

theorem one_camera_at_a_time_witness:
  "\<exists>r ended r'. sp_history r = [Opened 10 False, FaultedAt 6]
     \<and> supervise_round (tray_demo_surroundings 6) 1 r = Some (Inr ended, r') \<and> orderly (sp_history r')"
proof -
  obtain r where "tray_demo_rounds 6 2 (tray_demo_supervisor []) = Some r" "sp_history r = [Opened 10 False, FaultedAt 6]"
    using tray_demo_fault by auto
  with one_camera_at_a_time [OF tray_demo_reach [of 6 2 "[]" r]] show ?thesis by blast
qed



end
