(* ===== verification/Spec2Isabelle.thy ===== *)
theory Spec2Isabelle
  imports UploadRetention UploadAdminTheorems ProtocolTheorems RetentionWorker TriggersTheorems SnapshotFence
    ImagingTheorems CaptureTimingTheorems AdaptiveExposure SettingsStoreTheorems Monitor AdminSessions
    DiscoveryTheorems CaptureControl StillWriterTheorems LedgerMigrationTheorems LedgerArchiveTheorems SupervisorTheorems
begin

text \<open>
  Verification of the AutoPierCam capture agent, a program that runs beside a telescope: it takes
  images with an astronomy camera, keeps them within disk quotas, delivers them to a server exactly
  as they were recorded, shows them to a local operator and shares some of them with a chat hub.

  \<^bold>\<open>The program and its parts.\<close>
  In the tray a supervisor (\<open>autopiercam-tray/src/worker.rs\<close>) starts a camera thread, restarts it after
  faults and ends it; the camera thread finds the camera and runs the capture loop (\<open>autopiercam/src/lib.rs\<close>). The loop
  exposes, adapts its exposure, and hands stills over a bounded queue to a writer thread, which saves
  them and wakes two workers: the upload service (\<open>upload.rs\<close>), which records every still in a durable
  SQLite ledger (\<open>upload_store.rs\<close>) and delivers it, and the retention worker (\<open>retention.rs\<close>), which
  deletes old files to stay within its quotas, but only those that the ledger has released. Local
  clients reach the agent over framed messages (\<open>autopiercam-protocol\<close>): they see its status, change its
  configuration (\<open>autopiercam-core/src/config_store.rs\<close>) and administer failed uploads. The hub
  connection (\<open>autopiercam-chatstronomy\<close>) offers frames to a remote service under the operator's
  consent. Offline, an operator migrates or archives the ledger (\<open>ledger_maintenance.rs\<close>).

  \<^bold>\<open>How it is modelled.\<close>
  A function of the program is a definition of the same name. Structs are records, enums are
  datatypes, \<open>Result\<close> is a sum whose left side is the error, and every \<open>?\<close>, early return and reported
  failure is a branch. Machine integers are integers with the wrap-around, saturation or
  checked overflow written out (theory Prelude), bytes are \<open>8 word\<close>, floating point numbers are
  rationals rounded to binary32 or binary64 (MachineFloats), a string is its UTF-8
  bytes (Unicode decodes them). Code that acts on a larger state and may leave early is a function to an
  optional pair (Effects); a loop that need not end is a partial function, for which no result means
  that it does not return. A loop with a bound of the source carries it: 32 names for the temporary file
  of an archive, as many as the source tries. Loops
  without a bound in the source have a measure or run through \<open>eloop\<close> or \<open>partial_function\<close>, and where a property says that the code returns,
  that is proved under the hypothesis it needs (a clock that runs on, a stream that is not
  interrupted for ever, a queue that is drained).

  Parameters of the model, because their code is not in the repository: SHA-256, the text of the SQL
  schema together with SQLite's answers (its journal mode, its locks, its integrity check, the commit it
  may refuse, the copy a backup makes), the file system (metadata, canonical names, directory
  entries, short reads, faults), the TOML, JSON and URL parsers, the image and video encoders, the
  camera driver, the clocks and the random source. The tables, constraints, triggers and statements of the ledger
  are modelled, not assumed. What surrounds a thread is a state of its own that answers every question
  of the thread arbitrarily, so a property holds for every order of events that the
  channels and locks allow.

  \<^bold>\<open>The theories.\<close>
  \<^item> Shared: Prelude (limits, results), Effects (early exit and loops, with the locale \<open>kept\<close> of what a
    body keeps), MachineFloats, Bytes, Unicode, FrameName (the grammar of capture file names and its
    parser), Paths and FileNames (\<open>std::path\<close>).
  \<^item> The ledger, \<open>upload_store.rs\<close>: LedgerTypes (rows and CHECK constraints), LedgerSql (statements and
    triggers), LedgerOps (recording, claiming, finishing), LedgerRows and LedgerList (the operator's listing and
    its cursors), LedgerStatus (status and reconciliation), LedgerArtifacts (the private copy that is
    sent), LedgerOpen (opening, schema verification, recovery), LedgerRetention (what retention may
    see). Ledger, LedgerSteps and LedgerSystem make it a transition system with crashes; the locales
    there state a system with an invariant and one with a revision. LedgerTheorems and LedgerRestart hold what
    is true of every reachable ledger, LedgerDemo a concrete one.
  \<^item> Offline maintenance, \<open>ledger_maintenance.rs\<close>: LedgerMaintenance (lease, verification, conditions),
    LedgerMigration and LedgerMigrationTheorems (from schema 3 to 4), LedgerArchive and
    LedgerArchiveTheorems (archive and retirement, on a disk of database files).
  \<^item> Retention, \<open>retention.rs\<close>: RetentionPlan (which files go), Retention (the sweep), RetentionSweep (the
    locale of an authority that releases files, and what a sweep may remove), RetentionWorker (the
    thread), UploadRetention (the authority that \<open>upload.rs\<close> gives it).
  \<^item> Uploads, \<open>upload.rs\<close>: Upload (attempts), UploadWorker (the threads and their locks, refining the
    ledger's steps), UploadOutcomes, UploadAdmin and UploadAdminTheorems (the operator's facade),
    AdminSessions (which ledger an operator reaches, \<open>lib.rs\<close>).
  \<^item> Local protocol, \<open>autopiercam-protocol\<close>: Protocol (messages and their validation), ProtocolFraming,
    ProtocolTheorems; Monitor (control and status, \<open>lib.rs\<close>).
  \<^item> Capture, \<open>lib.rs\<close> and \<open>exposure.rs\<close>: Discovery and DiscoveryTheorems (the camera), CaptureTiming and
    CaptureTimingTheorems (deadlines, settling, lighting), CaptureLoop with CaptureLoopTheorems and CaptureControl (the
    loop), StillWriter and StillWriterTheorems (the writer thread), Imaging and ImagingTheorems
    (demosaicing, previews, statistics), AdaptiveExposure (the controller).
  \<^item> The tray's supervisor, \<open>worker.rs\<close>: Supervisor (clients, the camera session and the loop that owns
    it; clients and the camera thread may move between any two of its steps, and a history that the
    program does not keep records what it did with cameras) and SupervisorTheorems (assertions about its steps that no move
    of the others breaks, and what follows for the loop).
  \<^item> Configuration, \<open>autopiercam-core\<close>: Settings (values and their validation), SettingsStore and
    SettingsStoreTheorems (replacement of the file).
  \<^item> Sharing, \<open>autopiercam-chatstronomy\<close>: Triggers and TriggersTheorems (the scheduler), HubProtocol (the
    messages), SnapshotFence (consent for a snapshot).

  \<^bold>\<open>What is shown.\<close>
  The ledger never forgets a job and moves it along its life cycle only; its counters are exact; a
  claim that has ended is refused for ever, across crashes; the audit of a file accepts all that the
  operations can produce. The threads of the upload service do nothing but steps of the ledger, and an
  attempt leaves no job in progress. A retention sweep deletes the shortest run of oldest
  files that meets the quotas and nothing that is still to be sent; capture runs only within the
  quotas. The capture loop hands over whole, settled, numbered frames and, while paused, only what was asked
  for; the writer makes them visible whole or not at all and never replaces a file; the upload service
  hears of them afterwards. The configured camera is never substituted; two
  cameras are never open, and what the operator asked for outlives a camera that fails. A frame is never shared twice, and a snapshot
  needs unbroken consent. Framing is a round trip for every splitting of the bytes, and the readers
  end. Replacing the configuration, migrating and archiving the ledger are safe at every disk on the
  way. Properties that span components are stated where the last component is defined: retention with
  uploads in UploadRetention, the service over the ledger in UploadWorker, the facade over service, ledger
  and protocol in UploadAdminTheorems, capture to disk to uploads in StillWriterTheorems.

  \<^bold>\<open>What is not modelled, and why.\<close>
  The camera driver (\<open>autopiercam-camera\<close>) is a binding of a vendor's library; its data types are
  modelled, its calls are answers. The assembly of the threads (\<open>run_agent\<close> and the functions that
  start workers, \<open>main.rs\<close>, \<open>control_client.rs\<close>) is thread and process management. Previews
  (\<open>preview.rs\<close>), movies and overlays (\<open>timelapse.rs\<close>, \<open>video.rs\<close>, \<open>native_video\<close>) drive encoders and
  operating-system media services. \<open>solar.rs\<close> and the window of a movie need trigonometry on doubles, which a
  faithful model would have to round like the platform's library. The hub's sockets, media upload and credential
  store (\<open>service.rs\<close>, \<open>transport.rs\<close>, \<open>media.rs\<close>, \<open>vault.rs\<close>) are asynchronous input and output over
  third-party libraries; the windows, menus and pipes of the tray (all but its \<open>worker.rs\<close>), the viewer and the plug-in are user interfaces; the vision
  crate runs a neural network.
\<close>

end
